(* ===== verification/Prelude.thy ===== *)
theory Prelude
  imports Main
begin

text \<open>
  Shared vocabulary of the development: identifiers and times, the exceptions a request
  handler can throw, JSON values, the JavaScript string operations the sources use, and
  database tables as lists of rows with the four statements the query builder issues
  (\<open>select ... executeTakeFirst\<close>, conditional \<open>update\<close>, \<open>insert\<close>, \<open>delete\<close>).
  Strings are lists of bytes (UTF-8); case conversion and trimming act on the ASCII range.
  Two interfaces that several components implement are stated here as locales: a row
  format with a primary key, and a resource that can be claimed at most once.
\<close>

named_theorems tbl "what the table statements do to rows and keys"

section \<open>Identifiers, times, exceptions, JSON\<close>

type_synonym uuid = string
type_synonym time = int
  \<comment> \<open>milliseconds since the epoch, as \<open>Date.now()\<close> counts them\<close>

datatype error =
    BadRequest string
  | Unauthorized string
  | Forbidden string
  | NotFound string
  | Conflict string
  | PlainError string

type_synonym 'a result = "error + 'a"

datatype json =
    JNull
  | JBool bool
  | JNum int
  | JStr string
  | JArr "json list"
  | JObj "(string \<times> json) list"

definition is_error :: "'a result \<Rightarrow> bool" where
  "is_error r \<longleftrightarrow> (case r of Inl _ \<Rightarrow> True | Inr _ \<Rightarrow> False)"

lemma is_error_simps [simp]: "is_error (Inl e)" "\<not> is_error (Inr a)"
  by (simp_all add: is_error_def)

text \<open>The em dash of the user-facing messages, as UTF-8.\<close>

definition em_dash :: string where
  "em_dash = [CHR 0xE2, CHR 0x80, CHR 0x94]"

text \<open>An apostrophe.\<close>

definition quote :: string where
  "quote = [CHR 0x27]"

section \<open>JavaScript strings\<close>

definition js_space :: "char \<Rightarrow> bool" where
  "js_space c \<longleftrightarrow>
     c \<in> {CHR 0x09, CHR 0x0A, CHR 0x0B, CHR 0x0C, CHR 0x0D, CHR 0x20}"

definition trim_start :: "string \<Rightarrow> string" where
  "trim_start s = dropWhile js_space s"

definition trim :: "string \<Rightarrow> string" where
  "trim s = rev (trim_start (rev (trim_start s)))"

definition lower_char :: "char \<Rightarrow> char" where
  "lower_char c =
     (let n = of_char c :: nat in if 65 \<le> n \<and> n \<le> 90 then char_of (n + 32) else c)"

definition upper_char :: "char \<Rightarrow> char" where
  "upper_char c =
     (let n = of_char c :: nat in if 97 \<le> n \<and> n \<le> 122 then char_of (n - 32) else c)"

definition to_lower :: "string \<Rightarrow> string" where
  "to_lower s = map lower_char s"

definition to_upper :: "string \<Rightarrow> string" where
  "to_upper s = map upper_char s"

definition is_digit :: "char \<Rightarrow> bool" where
  "is_digit c \<longleftrightarrow> 48 \<le> (of_char c :: nat) \<and> (of_char c :: nat) \<le> 57"

definition is_lower_alnum :: "char \<Rightarrow> bool" where
  "is_lower_alnum c \<longleftrightarrow>
     is_digit c \<or> 97 \<le> (of_char c :: nat) \<and> (of_char c :: nat) \<le> 122"

definition starts_with :: "string \<Rightarrow> string \<Rightarrow> bool" where
  "starts_with p s \<longleftrightarrow> take (length p) s = p"

text \<open>Decimal rendering of a number (\<open>String(n)\<close>) and its inverse (\<open>Number(s)\<close> on digits).\<close>

fun show_nat :: "nat \<Rightarrow> string" where
  "show_nat n =
     (if n < 10 then [char_of (48 + n)]
      else show_nat (n div 10) @ [char_of (48 + n mod 10)])"

declare show_nat.simps [simp del]

definition digits_value :: "string \<Rightarrow> nat" where
  "digits_value s = foldl (\<lambda>acc c. 10 * acc + (of_char c - 48)) 0 s"

fun join_with :: "string \<Rightarrow> string list \<Rightarrow> string" where
  "join_with sep [] = []"
| "join_with sep [x] = x"
| "join_with sep (x # y # ys) = x @ sep @ join_with sep (y # ys)"

text \<open>\<open>s.split(c)\<close> for a one-character separator.\<close>

fun split_on :: "char \<Rightarrow> string \<Rightarrow> string list" where
  "split_on c [] = [[]]"
| "split_on c (x # xs) =
     (if x = c then [] # split_on c xs
      else case split_on c xs of [] \<Rightarrow> [[x]] | y # ys \<Rightarrow> (x # y) # ys)"

text \<open>\<open>s.replace(/\/$/, '')\<close>.\<close>

definition strip_one_slash :: "string \<Rightarrow> string" where
  "strip_one_slash s = (if s \<noteq> [] \<and> last s = CHR ''/'' then butlast s else s)"

lemma split_on_nonempty [simp]: "split_on c s \<noteq> []"
  by (induction s) (auto split: list.splits)

lemma split_on_append:
  "c \<notin> set x \<Longrightarrow> split_on c (x @ c # s) = x # split_on c s"
  by (induction x) auto

lemma split_on_single: "c \<notin> set x \<Longrightarrow> split_on c x = [x]"
  by (induction x) auto

lemma split_on_join:
  "xs \<noteq> [] \<Longrightarrow> \<forall>x \<in> set xs. c \<notin> set x \<Longrightarrow> split_on c (join_with [c] xs) = xs"
  by (induction "[c]" xs rule: join_with.induct) (auto simp: split_on_append split_on_single)

lemma starts_with_append [simp]: "starts_with p (p @ s)"
  by (simp add: starts_with_def)

lemma starts_withE: "starts_with p s \<Longrightarrow> \<exists>t. s = p @ t"
  unfolding starts_with_def by (metis append_take_drop_id)

lemma trim_start_idem [simp]: "trim_start (trim_start s) = trim_start s"
  unfolding trim_start_def by (induction s) auto

lemma of_char_digit:
  "n < 10 \<Longrightarrow> (of_char (char_of (48 + n) :: char) :: nat) = 48 + n"
  by simp

lemma show_nat_digits: "c \<in> set (show_nat n) \<Longrightarrow> is_digit c"
proof (induction n rule: show_nat.induct)
  case (1 n)
  have d: "is_digit (char_of (48 + k))" if "k < 10" for k :: nat
    using that by (simp add: is_digit_def of_char_digit)
  show ?case
  proof (cases "n < 10")
    case True
    with "1.prems" d show ?thesis by (simp add: show_nat.simps [of n])
  next
    case False
    with "1.prems" have "c \<in> set (show_nat (n div 10)) \<or> c = char_of (48 + n mod 10)"
      by (auto simp: show_nat.simps [of n])
    with "1.IH" [OF False] d show ?thesis by auto
  qed
qed

lemma show_nat_nonempty [simp]: "show_nat n \<noteq> []"
  by (subst show_nat.simps) simp

lemma digits_value_snoc [simp]:
  "digits_value (s @ [c]) = 10 * digits_value s + (of_char c - 48)"
  by (simp add: digits_value_def)

lemma digits_value_show_nat [simp]: "digits_value (show_nat n) = n"
proof (induction n rule: show_nat.induct)
  case (1 n)
  show ?case
  proof (cases "n < 10")
    case True
    then show ?thesis
      by (simp add: show_nat.simps [of n] digits_value_def of_char_digit)
  next
    case False
    with "1.IH" show ?thesis
      by (simp add: show_nat.simps [of n] of_char_digit)
  qed
qed

lemma show_nat_inject [simp]: "show_nat m = show_nat n \<longleftrightarrow> m = n"
  by (metis digits_value_show_nat)

section \<open>Database tables\<close>

text \<open>
  A table is the list of its rows. \<open>select_first P\<close> is
  \<open>select ... where P ... executeTakeFirst()\<close>; \<open>update_where P f\<close> is one conditional
  \<open>update\<close> statement, \<open>count_where P\<close> the number of rows it reports as updated.
\<close>

definition select_first :: "('r \<Rightarrow> bool) \<Rightarrow> 'r list \<Rightarrow> 'r option" where
  "select_first P rows = find P rows"

definition select_where :: "('r \<Rightarrow> bool) \<Rightarrow> 'r list \<Rightarrow> 'r list" where
  "select_where P rows = filter P rows"

definition update_where :: "('r \<Rightarrow> bool) \<Rightarrow> ('r \<Rightarrow> 'r) \<Rightarrow> 'r list \<Rightarrow> 'r list" where
  "update_where P f rows = map (\<lambda>r. if P r then f r else r) rows"

definition count_where :: "('r \<Rightarrow> bool) \<Rightarrow> 'r list \<Rightarrow> nat" where
  "count_where P rows = length (filter P rows)"

definition delete_where :: "('r \<Rightarrow> bool) \<Rightarrow> 'r list \<Rightarrow> 'r list" where
  "delete_where P rows = filter (\<lambda>r. \<not> P r) rows"

definition insert_row :: "'r \<Rightarrow> 'r list \<Rightarrow> 'r list" where
  "insert_row r rows = rows @ [r]"

lemma select_first_Some:
  assumes "select_first P rows = Some r"
  shows "r \<in> set rows" "P r"
  using assms by (auto simp: select_first_def find_Some_iff)

lemma select_first_None: "select_first P rows = None \<longleftrightarrow> (\<forall>r \<in> set rows. \<not> P r)"
  by (auto simp: select_first_def find_None_iff)

lemma set_update_where [tbl]:
  "set (update_where P f rows) = (\<lambda>r. if P r then f r else r) ` set rows"
  by (simp add: update_where_def)

lemma set_insert_row [tbl]: "set (insert_row r rows) = insert r (set rows)"
  by (auto simp: insert_row_def)

lemma set_select_where [tbl]: "set (select_where P rows) = {r \<in> set rows. P r}"
  by (auto simp: select_where_def)

lemma set_delete_where [tbl]: "set (delete_where P rows) = {r \<in> set rows. \<not> P r}"
  by (auto simp: delete_where_def)

lemma length_update_where [simp]: "length (update_where P f rows) = length rows"
  by (simp add: update_where_def)

lemma count_where_0 [simp]: "count_where P rows = 0 \<longleftrightarrow> (\<forall>r \<in> set rows. \<not> P r)"
  by (auto simp: count_where_def filter_empty_conv)

lemma update_where_none: "\<forall>r \<in> set rows. \<not> P r \<Longrightarrow> update_where P f rows = rows"
  by (simp add: update_where_def map_idI)

lemma map_update_where: "(\<And>r. g (f r) = g r) \<Longrightarrow> map g (update_where P f rows) = map g rows"
  by (simp add: update_where_def)

lemma image_update_where: "(\<And>r. g (f r) = g r) \<Longrightarrow> g ` set (update_where P f rows) = g ` set rows"
  using arg_cong [OF map_update_where [of g f P rows], of set] by simp

text \<open>
  A row format: rows carry a primary key, which the statements of the program never
  change. What a lookup by key returns after each statement is proved once here and used
  for every table.
\<close>

locale row_format =
  fixes key :: "'r \<Rightarrow> 'k" and keeps_key :: "('r \<Rightarrow> 'r) \<Rightarrow> bool"
  assumes keeps_keyD: "keeps_key f \<Longrightarrow> key (f r) = key r"
begin

definition by_key :: "'k \<Rightarrow> 'r list \<Rightarrow> 'r option" where
  "by_key k rows = select_first (\<lambda>r. key r = k) rows"

definition keys :: "'r list \<Rightarrow> 'k list" where
  "keys rows = map key rows"

lemma keys_update [simp]: "keeps_key f \<Longrightarrow> keys (update_where P f rows) = keys rows"
  by (induction rows) (auto simp: keys_def update_where_def keeps_keyD)

lemma keys_insert [simp]: "keys (insert_row r rows) = keys rows @ [key r]"
  by (simp add: keys_def insert_row_def)

lemma by_key_update:
  "keeps_key f \<Longrightarrow>
   by_key k (update_where P f rows) =
     map_option (\<lambda>r. if P r then f r else r) (by_key k rows)"
  by (induction rows) (auto simp: by_key_def select_first_def update_where_def keeps_keyD)

lemma by_key_insert:
  "by_key k (insert_row r rows) =
     (case by_key k rows of Some q \<Rightarrow> Some q | None \<Rightarrow> if key r = k then Some r else None)"
  by (induction rows) (auto simp: by_key_def select_first_def insert_row_def)

lemma by_key_in: "by_key k rows = Some r \<Longrightarrow> r \<in> set rows \<and> key r = k"
  by (auto simp: by_key_def dest: select_first_Some)

lemma by_key_unique:
  "distinct (keys rows) \<Longrightarrow> r \<in> set rows \<Longrightarrow> by_key (key r) rows = Some r"
  by (induction rows) (auto simp: by_key_def select_first_def keys_def)

lemma by_key_None: "by_key k rows = None \<longleftrightarrow> k \<notin> set (keys rows)"
  by (auto simp: by_key_def select_first_None keys_def)

lemma distinct_keys_insert:
  "distinct (keys rows) \<Longrightarrow> by_key (key r) rows = None \<Longrightarrow>
   distinct (keys (insert_row r rows))"
  by (simp add: by_key_None)

end

section \<open>Claims that succeed at most once\<close>

text \<open>
  Hand-outs that must not be repeated (a queued run, an enrollment token, an approved
  device pairing) share one contract: a claim succeeds exactly while the item is available
  and uses it up, and no other step makes a used-up item available again. Whatever the
  interleaving of claims and other steps, at most one claim of an item succeeds.
\<close>

datatype ('a, 'e) cstep = Claim 'a | Other 'e

locale claim_once =
  fixes claim :: "'a \<Rightarrow> 's \<Rightarrow> 's" and wins :: "'a \<Rightarrow> 's \<Rightarrow> bool"
    and other :: "'e \<Rightarrow> 's \<Rightarrow> 's" and spent :: "'k \<Rightarrow> 's \<Rightarrow> bool"
    and item :: "'a \<Rightarrow> 'k"
  assumes wins_not_spent: "spent (item a) s \<Longrightarrow> \<not> wins a s"
    and claim_spends: "wins a s \<Longrightarrow> spent (item a) (claim a s)"
    and claim_keeps_spent: "spent k s \<Longrightarrow> spent k (claim a s)"
    and other_keeps_spent: "spent k s \<Longrightarrow> spent k (other e s)"
begin

fun run_steps :: "('a, 'e) cstep list \<Rightarrow> 's \<Rightarrow> 's" where
  "run_steps [] s = s"
| "run_steps (Claim a # xs) s = run_steps xs (claim a s)"
| "run_steps (Other e # xs) s = run_steps xs (other e s)"

fun successes :: "'k \<Rightarrow> ('a, 'e) cstep list \<Rightarrow> 's \<Rightarrow> nat" where
  "successes k [] s = 0"
| "successes k (Claim a # xs) s =
     (if item a = k \<and> wins a s then 1 else 0) + successes k xs (claim a s)"
| "successes k (Other e # xs) s = successes k xs (other e s)"

lemma spent_no_success: "spent k s \<Longrightarrow> successes k xs s = 0"
proof (induction k xs s rule: successes.induct)
  case (2 k a xs s)
  then have "spent k (claim a s)" by (simp add: claim_keeps_spent)
  moreover from "2.prems" have "\<not> (item a = k \<and> wins a s)"
    using wins_not_spent by blast
  ultimately show ?case using "2.IH" by simp
next
  case (3 k e xs s)
  then show ?case by (simp add: other_keeps_spent)
qed simp

lemma at_most_one_success: "successes k xs s \<le> 1"
proof (induction k xs s rule: successes.induct)
  case (2 k a xs s)
  show ?case
  proof (cases "item a = k \<and> wins a s")
    case True
    then have "spent k (claim a s)" using claim_spends by blast
    then show ?thesis using True by (simp add: spent_no_success)
  next
    case False
    then show ?thesis using "2.IH" by auto
  qed
qed simp_all

lemma spent_run: "spent k s \<Longrightarrow> spent k (run_steps xs s)"
  by (induction xs s rule: run_steps.induct)
    (auto simp: claim_keeps_spent other_keeps_spent)

end

end
