(* ===== verification/Database.thy ===== *)
theory Database
  imports Prelude
begin

text \<open>
  The data model of \<open>server/src/database/database.types.ts\<close>: the string unions as
  datatypes, one record per table interface (with the columns the modelled services read
  or write), and the record \<open>server\<close> of everything the services share: the tables, the
  in-memory registries of running processes, and the fire-and-forget calls
  (\<open>void this...\<close>) that have been started and not yet run.
  JSON columns hold their parsed value; a nullable column is an \<open>option\<close>.
\<close>

section \<open>Enumerations\<close>

datatype auth_source = AsLocal | AsOidc | AsEntra | AsSso
datatype resource_type = RtTarget | RtSource | RtJob
datatype access_level = AlView | AlOperate | AlManage
datatype agent_status = AgEnrolled | AgOnline | AgOffline | AgError
datatype source_location = LocLocal | LocAgent
datatype run_trigger = TrSchedule | TrManual
datatype run_kind = KBackup | KPrune | KCheck
datatype run_status = Queued | Running | Success | Failed | Cancelled
datatype restore_mode = RmOriginal | RmAlternatePath | RmDownload
datatype integrity_level = LvQuick | LvRotating | LvFull
datatype check_status = CkPassed | CkDamaged
datatype target_status = TsOnline | TsOffline | TsUnknown
datatype secret_type = StRepoPassword | StBackendCredential | StNotificationCredential
datatype user_locale = LocaleEn | LocaleDe
datatype device_status = DvPending | DvApproved | DvDenied | DvConsumed
datatype device_access = DaFull | DaRead

text \<open>The word each status is rendered as in messages.\<close>

fun show_status :: "run_status \<Rightarrow> string" where
  "show_status Queued = ''queued''"
| "show_status Running = ''running''"
| "show_status Success = ''success''"
| "show_status Failed = ''failed''"
| "show_status Cancelled = ''cancelled''"

fun show_kind :: "run_kind \<Rightarrow> string" where
  "show_kind KBackup = ''backup''"
| "show_kind KPrune = ''prune''"
| "show_kind KCheck = ''check''"

definition active_status :: "run_status \<Rightarrow> bool" where
  "active_status st \<longleftrightarrow> st = Queued \<or> st = Running"

definition terminal_status :: "run_status \<Rightarrow> bool" where
  "terminal_status st \<longleftrightarrow> st = Success \<or> st = Failed \<or> st = Cancelled"

lemma terminal_iff_not_active: "terminal_status st \<longleftrightarrow> \<not> active_status st"
  by (cases st) (simp_all add: terminal_status_def active_status_def)

section \<open>Users, keys, grants\<close>

record user =
  us_id :: uuid
  us_email :: string
  us_display_name :: string
  us_auth_source :: auth_source
  us_password_hash :: "string option"
  us_is_admin :: bool
  us_disabled :: bool
  us_session_epoch :: nat
  us_totp_secret_ciphertext :: "string option"
  us_totp_secret_nonce :: "string option"
  us_totp_enabled :: bool
  us_totp_recovery_codes :: "string list option"
  us_locale :: "user_locale option"

record api_key_scopes =
  sc_actions :: "string list"
  sc_resources :: "(resource_type \<times> uuid) list option"

record api_key =
  ak_id :: uuid
  ak_user_id :: uuid
  ak_name :: string
  ak_key_hash :: string
  ak_prefix :: string
  ak_scopes :: api_key_scopes
  ak_expires_at :: "time option"
  ak_last_used_at :: "time option"

record device_authorization =
  da_id :: uuid
  da_device_code_hash :: string
  da_user_code_hash :: string
  da_client_name :: string
  da_request_ip :: "string option"
  da_request_user_agent :: "string option"
  da_status :: device_status
  da_user_id :: "uuid option"
  da_access :: "device_access option"
  da_key_expires_in_days :: "nat option"
  da_api_key_id :: "uuid option"
  da_expires_at :: time
  da_last_polled_at :: "time option"
  da_decided_at :: "time option"
  da_created_at :: time

record resource_grant =
  gr_id :: uuid
  gr_user_id :: uuid
  gr_resource_type :: resource_type
  gr_resource_id :: uuid
  gr_access_level :: access_level

record webauthn_credential =
  wa_id :: uuid
  wa_user_id :: uuid
  wa_credential_id :: string
  wa_public_key :: string
  wa_counter :: nat
  wa_transports :: "string list"
  wa_device_type :: "string option"
  wa_backed_up :: bool
  wa_name :: string
  wa_last_used_at :: "time option"

record sso_identity =
  si_user_id :: uuid
  si_provider_id :: string
  si_subject :: string
  si_last_login_at :: "time option"

section \<open>Audit log and reports\<close>

text \<open>The outcome of an entry is \<open>'success'\<close> or \<open>'failure'\<close>.\<close>

record audit_entry =
  au_id :: uuid
  au_created_at :: time
  au_actor_id :: "uuid option"
  au_actor_email :: "string option"
  au_actor_type :: string
  au_actor_is_admin :: bool
  au_action :: string
  au_method :: "string option"
  au_path :: "string option"
  au_resource_type :: "string option"
  au_resource_id :: "string option"
  au_status_code :: "nat option"
  au_success :: bool
  au_ip :: "string option"
  au_user_agent :: "string option"
  au_details :: "(string \<times> json) list option"

datatype report_window = W24h | W7d | W30d | W90d | W6mo | W12mo

record report_dataset =
  ds_job_ids :: "uuid list"
  ds_statuses :: "run_status list"
  ds_window :: report_window

record report =
  rp_id :: uuid
  rp_name :: string
  rp_slug :: string
  rp_tags :: "string list"
  rp_dataset :: report_dataset
  rp_cron_expr :: string
  rp_channel_ids :: "uuid list"
  rp_enabled :: bool
  rp_last_run_at :: "time option"
  rp_owner_id :: uuid

section \<open>Secrets and targets\<close>

record secret_row =
  se_id :: uuid
  se_type :: secret_type
  se_ciphertext :: string
  se_nonce :: string

record target =
  tg_id :: uuid
  tg_name :: string
  tg_slug :: string
  tg_backend_type :: string
  tg_config :: "(string \<times> json) list"
  tg_credential_secret_id :: "uuid option"
  tg_owner_id :: uuid
  tg_status :: target_status
  tg_last_check_at :: "time option"
  tg_last_check_error :: "string option"

section \<open>Repositories, agents, jobs\<close>

record repository =
  re_id :: uuid
  re_name :: string
  re_slug :: string
  re_target_id :: "uuid option"
  re_repo_config :: "(string \<times> json) list"
  re_repo_password_secret_id :: uuid
  re_credential_secret_id :: "uuid option"
  re_size_bytes :: "nat option"
  re_snapshot_count :: "nat option"
  re_stats_at :: "time option"
  re_stats_error :: "string option"
  re_stats_requested_at :: "time option"
  re_check_status :: "check_status option"
  re_check_at :: "time option"
  re_check_level :: "integrity_level option"
  re_check_error :: "string option"
  re_data_verified_at :: "time option"
  re_check_subset_next :: nat
  re_check_subset_parts :: "nat option"

record stats_history =
  sh_repository_id :: uuid
  sh_measured_at :: time
  sh_size_bytes :: nat
  sh_snapshot_count :: nat

record agent =
  ag_id :: uuid
  ag_name :: string
  ag_slug :: string
  ag_hostname :: "string option"
  ag_os :: "string option"
  ag_deploy_method :: string
  ag_status :: agent_status
  ag_last_seen_at :: "time option"
  ag_agent_key_hash :: string
  ag_agent_pubkey :: "string option"
  ag_server_privkey :: "string option"
  ag_agent_version :: "string option"
  ag_restic_version :: "string option"
  ag_poll_interval_seconds :: nat
  ag_labels :: "string list"
  ag_allowed_ips :: "string list"
  ag_last_ip :: "string option"
  ag_updated_at :: time

record enrollment_token =
  et_id :: uuid
  et_token_hash :: string
  et_intended_agent_name :: "string option"
  et_expires_at :: time
  et_used_at :: "time option"
  et_created_by :: uuid

record retention =
  rt_keep_last :: "nat option"
  rt_keep_hourly :: "nat option"
  rt_keep_daily :: "nat option"
  rt_keep_weekly :: "nat option"
  rt_keep_monthly :: "nat option"
  rt_keep_yearly :: "nat option"
  rt_keep_within :: "string option"
  rt_keep_tags :: "string list option"
  rt_prune :: "bool option"

record restic_options =
  ro_tags :: "string list"
  ro_exclude :: "string list"
  ro_iexclude :: "string list"
  ro_exclude_file :: "string list"
  ro_one_file_system :: bool
  ro_exclude_caches :: bool
  ro_exclude_larger_than :: "string option"
  ro_compression :: "string option"
  ro_read_concurrency :: "nat option"
  ro_retention :: "retention option"
  ro_pre_script :: "string option"
  ro_post_success_script :: "string option"
  ro_post_failure_script :: "string option"
  ro_time_limit_seconds :: "nat option"

record integrity_check_config =
  ic_enabled :: "bool option"
  ic_cron_expr :: "string option"
  ic_level :: "integrity_level option"
  ic_subset_parts :: "nat option"

record job_notify_config =
  nc_channel_ids :: "uuid list"
  nc_on_success :: bool
  nc_on_failure :: bool

record backup_job =
  bj_id :: uuid
  bj_name :: string
  bj_slug :: string
  bj_location :: source_location
  bj_agent_id :: "uuid option"
  bj_paths :: "string list"
  bj_repository_id :: uuid
  bj_cron_expr :: string
  bj_restic_options :: restic_options
  bj_notify :: job_notify_config
  bj_integrity_check :: integrity_check_config
  bj_retry_max :: nat
  bj_retry_delay_seconds :: nat
  bj_enabled :: bool
  bj_owner_id :: uuid

section \<open>Runs\<close>

record check_info =
  ci_level :: integrity_level
  ci_part :: "nat option"
  ci_parts :: "nat option"
  ci_damaged :: "bool option"

record job_run =
  jr_id :: uuid
  jr_job_id :: uuid
  jr_kind :: run_kind
  jr_parent_run_id :: "uuid option"
  jr_check_info :: "check_info option"
  jr_trigger :: run_trigger
  jr_status :: run_status
  jr_attempt :: nat
  jr_retry_of_run_id :: "uuid option"
  jr_not_before :: "time option"
  jr_agent_id :: "uuid option"
  jr_started_at :: "time option"
  jr_finished_at :: "time option"
  jr_snapshot_id :: "string option"
  jr_stats :: "json option"
  jr_forget_result :: "json option"
  jr_log :: "string option"
  jr_error :: "string option"
  jr_created_at :: time

record restore_options =
  rs_overwrite :: "string option"
  rs_verify :: bool
  rs_delete :: bool
  rs_dry_run :: bool
  rs_include :: "string list option"
  rs_exclude :: "string list option"

record restore_destination =
  rd_path :: "string option"
  rd_agent_id :: "uuid option"
  rd_download_ref :: "string option"

record restore_run =
  rr_id :: uuid
  rr_target_id :: "uuid option"
  rr_job_id :: "uuid option"
  rr_repo_config :: "(string \<times> json) list"
  rr_repo_password_secret_id :: uuid
  rr_credential_secret_id :: "uuid option"
  rr_snapshot_id :: string
  rr_included_paths :: "string list option"
  rr_mode :: restore_mode
  rr_destination :: restore_destination
  rr_options :: restore_options
  rr_status :: run_status
  rr_agent_id :: "uuid option"
  rr_started_at :: "time option"
  rr_finished_at :: "time option"
  rr_stats :: "json option"
  rr_download_expires_at :: "time option"
  rr_log :: "string option"
  rr_error :: "string option"
  rr_initiated_by :: uuid

section \<open>Notifications\<close>

record notification_channel =
  ch_id :: uuid
  ch_name :: string
  ch_slug :: string
  ch_type :: string
  ch_config :: "(string \<times> json) list"
  ch_secret_id :: "uuid option"
  ch_enabled :: bool
  ch_owner_id :: uuid

record message_table =
  mt_head :: "string list"
  mt_rows :: "string list list"
  mt_foot :: "string list option"

text \<open>A message's status is \<open>'success'\<close> or \<open>'failed'\<close>.\<close>

record notification_message =
  nm_success :: bool
  nm_title :: string
  nm_body :: string
  nm_job_name :: string
  nm_url :: string
  nm_meta :: "(string \<times> string) list option"
  nm_table :: "message_table option"

section \<open>The state the services share\<close>

text \<open>
  Calls the sources start without awaiting them. Each is taken from the list and run as a
  step of its own, at any later time.
\<close>

datatype bg_call =
    BgExecuteLocal uuid
  | BgFinalize uuid
  | BgNotifyJobRun uuid
  | BgExecuteCheck uuid uuid check_info
  | BgExecutePrune uuid uuid
  | BgExecuteRestore uuid
  | BgRefreshStats uuid

text \<open>The stored value of the \<open>global_enrollment\<close> setting.\<close>

record global_enrollment =
  ge_enabled :: bool
  ge_ciphertext :: "string option"
  ge_nonce :: "string option"

text \<open>
  The four \<open>running\<close> maps hold one entry per process this server has started: the run's
  id and whether its \<open>AbortController\<close> has been triggered. \<open>outbox\<close> lists the
  messages handed to a notification channel, in order. The \<open>app_\<close> fields are the values of
  the \<open>app_settings\<close> rows (\<open>None\<close> when there is no row), kept as JSON where the readers
  check the shape of what they find; \<open>settings_tz\<close>, \<open>admin_ip_cache\<close> and \<open>challenge_state\<close>
  are instance variables of the settings, allowlist and login services.
\<close>

record server =
  users :: "user list"
  webauthn_credentials :: "webauthn_credential list"
  sso_identities :: "sso_identity list"
  audit_log :: "audit_entry list"
  reports :: "report list"
  secrets :: "secret_row list"
  targets :: "target list"
  notification_channels :: "notification_channel list"
  api_keys :: "api_key list"
  device_authorizations :: "device_authorization list"
  resource_grants :: "resource_grant list"
  repositories :: "repository list"
  repository_stats_history :: "stats_history list"
  agents :: "agent list"
  enrollment_tokens :: "enrollment_token list"
  app_global_enrollment :: "global_enrollment option"
  app_offline_seconds :: "nat option"
  app_timezone :: "string option"
  app_local_login :: "bool option"
  app_sso :: "json option"
  app_admin_ips :: "json option"
  settings_tz :: string
  admin_ip_cache :: "(string list \<times> time) option"
  challenge_state :: "(string \<times> nat \<times> time) list"
  backup_jobs :: "backup_job list"
  job_runs :: "job_run list"
  restore_runs :: "restore_run list"
  job_running :: "(uuid \<times> bool) list"
  prune_running :: "(uuid \<times> bool) list"
  check_running :: "(uuid \<times> bool) list"
  restore_running :: "(uuid \<times> bool) list"
  background :: "bg_call list"
  outbox :: "(uuid \<times> notification_message) list"

definition empty_server :: server where
  "empty_server =
     \<lparr>users = [], webauthn_credentials = [], sso_identities = [], audit_log = [], reports = [],
      secrets = [], targets = [], notification_channels = [], api_keys = [], device_authorizations = [], resource_grants = [],
      repositories = [], repository_stats_history = [], agents = [], enrollment_tokens = [],
      app_global_enrollment = None, app_offline_seconds = None,
      app_timezone = None, app_local_login = None, app_sso = None, app_admin_ips = None,
      settings_tz = ''UTC'', admin_ip_cache = None, challenge_state = [], backup_jobs = [],
      job_runs = [], restore_runs = [], job_running = [], prune_running = [],
      check_running = [], restore_running = [], background = [],
      outbox = []\<rparr>"

text \<open>The settings of \<open>loadConfig()\<close> the modelled services read.\<close>

record config =
  cf_public_base_url :: string
  cf_run_queue_timeout_seconds :: int
  cf_webauthn_rp_id :: string
  cf_webauthn_origins :: "string list"
  cf_jwt_secret :: string
  cf_cookie_secure :: bool
  cf_admin_allowed_ips :: "string list"
  cf_audit_retention_days :: int
  cf_bootstrap_admin_email :: string
  cf_bootstrap_admin_password :: string

section \<open>Rows by primary key\<close>

definition job_run_by_id :: "uuid \<Rightarrow> server \<Rightarrow> job_run option" where
  "job_run_by_id i s = select_first (\<lambda>r. jr_id r = i) (job_runs s)"

definition backup_job_by_id :: "uuid \<Rightarrow> server \<Rightarrow> backup_job option" where
  "backup_job_by_id i s = select_first (\<lambda>r. bj_id r = i) (backup_jobs s)"

definition repository_by_id :: "uuid \<Rightarrow> server \<Rightarrow> repository option" where
  "repository_by_id i s = select_first (\<lambda>r. re_id r = i) (repositories s)"

definition agent_by_id :: "uuid \<Rightarrow> server \<Rightarrow> agent option" where
  "agent_by_id i s = select_first (\<lambda>r. ag_id r = i) (agents s)"

definition restore_run_by_id :: "uuid \<Rightarrow> server \<Rightarrow> restore_run option" where
  "restore_run_by_id i s = select_first (\<lambda>r. rr_id r = i) (restore_runs s)"

definition user_by_id :: "uuid \<Rightarrow> server \<Rightarrow> user option" where
  "user_by_id i s = select_first (\<lambda>r. us_id r = i) (users s)"

definition target_by_id :: "uuid \<Rightarrow> server \<Rightarrow> target option" where
  "target_by_id i s = select_first (\<lambda>r. tg_id r = i) (targets s)"

definition start_background :: "bg_call \<Rightarrow> server \<Rightarrow> server" where
  "start_background c s = s\<lparr>background := background s @ [c]\<rparr>"

interpretation jrow: row_format jr_id "\<lambda>f. \<forall>r. jr_id (f r) = jr_id r"
  by unfold_locales simp

interpretation rrow: row_format rr_id "\<lambda>f. \<forall>r. rr_id (f r) = rr_id r"
  by unfold_locales simp

interpretation arow: row_format ag_id "\<lambda>f. \<forall>r. ag_id (f r) = ag_id r"
  by unfold_locales simp

interpretation prow: row_format re_id "\<lambda>f. \<forall>r. re_id (f r) = re_id r"
  by unfold_locales simp

interpretation erow: row_format et_id "\<lambda>f. \<forall>r. et_id (f r) = et_id r"
  by unfold_locales simp

interpretation drow: row_format da_id "\<lambda>f. \<forall>r. da_id (f r) = da_id r"
  by unfold_locales simp

interpretation urow: row_format us_id "\<lambda>f. \<forall>r. us_id (f r) = us_id r"
  by unfold_locales simp

lemma job_run_by_id_key: "job_run_by_id i s = jrow.by_key i (job_runs s)"
  by (simp add: job_run_by_id_def jrow.by_key_def)

lemma restore_run_by_id_key: "restore_run_by_id i s = rrow.by_key i (restore_runs s)"
  by (simp add: restore_run_by_id_def rrow.by_key_def)

lemma agent_by_id_key: "agent_by_id i s = arow.by_key i (agents s)"
  by (simp add: agent_by_id_def arow.by_key_def)

lemma repository_by_id_key: "repository_by_id i s = prow.by_key i (repositories s)"
  by (simp add: repository_by_id_def prow.by_key_def)

lemma user_by_id_key: "user_by_id i s = urow.by_key i (users s)"
  by (simp add: user_by_id_def urow.by_key_def)

lemmas by_id_keys =
  job_run_by_id_key restore_run_by_id_key agent_by_id_key repository_by_id_key user_by_id_key

section \<open>A small installation\<close>

text \<open>Rows on which the theorems of the development are evaluated.\<close>

definition sample_config :: config where
  "sample_config =
     \<lparr>cf_public_base_url = [], cf_run_queue_timeout_seconds = 60, cf_webauthn_rp_id = ''localhost'',
      cf_webauthn_origins = [''http://localhost:3000''], cf_jwt_secret = ''k'', cf_cookie_secure = False,
      cf_admin_allowed_ips = [], cf_audit_retention_days = 90, cf_bootstrap_admin_email = [],
      cf_bootstrap_admin_password = []\<rparr>"

definition sample_options :: restic_options where
  "sample_options =
     \<lparr>ro_tags = [], ro_exclude = [], ro_iexclude = [], ro_exclude_file = [], ro_one_file_system = False,
      ro_exclude_caches = False, ro_exclude_larger_than = None, ro_compression = None,
      ro_read_concurrency = None, ro_retention = None, ro_pre_script = None,
      ro_post_success_script = None, ro_post_failure_script = None, ro_time_limit_seconds = None\<rparr>"

definition sample_job :: backup_job where
  "sample_job =
     \<lparr>bj_id = ''j1'', bj_name = ''Nightly'', bj_slug = ''nightly'', bj_location = LocLocal, bj_agent_id = None,
      bj_paths = [''/srv''], bj_repository_id = ''p1'', bj_cron_expr = ''0 2 * * *'',
      bj_restic_options = sample_options,
      bj_notify = \<lparr>nc_channel_ids = [''c1''], nc_on_success = False, nc_on_failure = True\<rparr>,
      bj_integrity_check = \<lparr>ic_enabled = None, ic_cron_expr = None, ic_level = None, ic_subset_parts = Some 3\<rparr>,
      bj_retry_max = 2, bj_retry_delay_seconds = 300, bj_enabled = True, bj_owner_id = ''u1''\<rparr>"

definition sample_repository :: repository where
  "sample_repository =
     \<lparr>re_id = ''p1'', re_name = ''Nightly'', re_slug = ''nightly'', re_target_id = None,
      re_repo_config = [(''path'', JStr ''/repo'')], re_repo_password_secret_id = ''s1'',
      re_credential_secret_id = None, re_size_bytes = None, re_snapshot_count = None, re_stats_at = None,
      re_stats_error = None, re_stats_requested_at = None, re_check_status = None, re_check_at = None,
      re_check_level = None, re_check_error = None, re_data_verified_at = None,
      re_check_subset_next = 1, re_check_subset_parts = None\<rparr>"

definition sample_run :: "uuid \<Rightarrow> run_kind \<Rightarrow> run_status \<Rightarrow> job_run" where
  "sample_run i k st =
     \<lparr>jr_id = i, jr_job_id = ''j1'', jr_kind = k, jr_parent_run_id = None, jr_check_info = None,
      jr_trigger = TrSchedule, jr_status = st, jr_attempt = 1, jr_retry_of_run_id = None,
      jr_not_before = None, jr_agent_id = None,
      jr_started_at = (if st = Queued then None else Some 1000),
      jr_finished_at = (if active_status st then None else Some 2000),
      jr_snapshot_id = None, jr_stats = None, jr_forget_result = None, jr_log = None, jr_error = None,
      jr_created_at = 500\<rparr>"

definition sample_server :: "job_run list \<Rightarrow> server" where
  "sample_server rows =
     empty_server\<lparr>backup_jobs := [sample_job], repositories := [sample_repository], job_runs := rows\<rparr>"

lemmas sample_defs =
  sample_server_def sample_run_def sample_job_def sample_repository_def sample_options_def empty_server_def

lemma sample_server_tables [simp]:
  "backup_jobs (sample_server rows) = [sample_job]" "repositories (sample_server rows) = [sample_repository]"
  "job_runs (sample_server rows) = rows" "restore_runs (sample_server rows) = []"
  "targets (sample_server rows) = []" "secrets (sample_server rows) = []" "agents (sample_server rows) = []"
  "resource_grants (sample_server rows) = []" "job_running (sample_server rows) = []"
  "prune_running (sample_server rows) = []" "check_running (sample_server rows) = []"
  "background (sample_server rows) = []" "outbox (sample_server rows) = []"
  "notification_channels (sample_server rows) = []"
  by (simp_all add: sample_server_def empty_server_def)

lemma sample_keys [simp]:
  "bj_id sample_job = ''j1''" "bj_repository_id sample_job = ''p1''" "re_id sample_repository = ''p1''"
  "bj_location sample_job = LocLocal" "re_repo_password_secret_id sample_repository = ''s1''"
  "re_credential_secret_id sample_repository = None" "bj_retry_max sample_job = 2"
  "jr_id (sample_run i k st) = i" "jr_job_id (sample_run i k st) = ''j1''" "jr_kind (sample_run i k st) = k"
  "jr_status (sample_run i k st) = st" "jr_attempt (sample_run i k st) = 1"
  "jr_agent_id (sample_run i k st) = None" "jr_not_before (sample_run i k st) = None"
  by (simp_all add: sample_job_def sample_repository_def sample_run_def)

lemma sample_rows [simp]:
  "backup_job_by_id ''j1'' (sample_server rows) = Some sample_job"
  "repository_by_id ''p1'' (sample_server rows) = Some sample_repository"
  "job_run_by_id i (sample_server (sample_run i k st # rows)) = Some (sample_run i k st)"
  by (simp_all add: backup_job_by_id_def repository_by_id_def job_run_by_id_def select_first_def)

end
