(* ===== verification/AccessControl.thy ===== *)
theory AccessControl
  imports Database
begin

text \<open>
  Authorisation: \<open>server/src/common/access-control.service.ts\<close> (per-resource grants and
  API-key scopes) with the principal of \<open>common/auth/request-user.ts\<close>.
  The lemmas characterise \<open>can\<close> by grants and scopes, show that a key only ever narrows
  its user's rights, and relate list visibility to the per-resource check.
\<close>

section \<open>The principal\<close>

datatype auth_via = ViaSession | ViaApiKey

record request_user =
  ru_id :: uuid
  ru_email :: string
  ru_is_admin :: bool
  ru_auth_via :: auth_via
  ru_api_key_scopes :: "api_key_scopes option"
  ru_api_key_id :: "uuid option"

section \<open>Checks\<close>

fun LEVEL_RANK :: "access_level \<Rightarrow> nat" where
  "LEVEL_RANK AlView = 1"
| "LEVEL_RANK AlOperate = 2"
| "LEVEL_RANK AlManage = 3"

fun levelToAction :: "access_level \<Rightarrow> string" where
  "levelToAction AlView = ''read''"
| "levelToAction AlOperate = ''operate''"
| "levelToAction AlManage = ''manage''"

fun show_level :: "access_level \<Rightarrow> string" where
  "show_level AlView = ''view''"
| "show_level AlOperate = ''operate''"
| "show_level AlManage = ''manage''"

fun show_resource_type :: "resource_type \<Rightarrow> string" where
  "show_resource_type RtTarget = ''target''"
| "show_resource_type RtSource = ''source''"
| "show_resource_type RtJob = ''job''"

definition apiKeyAllows ::
  "request_user \<Rightarrow> resource_type \<Rightarrow> uuid \<Rightarrow> access_level \<Rightarrow> bool" where
  "apiKeyAllows u ty rid level =
     (case ru_api_key_scopes u of
        None \<Rightarrow> True
      | Some scopes \<Rightarrow>
          (let action = levelToAction level; actions = sc_actions scopes in
           if ''*'' \<notin> set actions \<and> action \<notin> set actions then False
           else (case sc_resources scopes of
                   None \<Rightarrow> True
                 | Some rs \<Rightarrow> (ty, rid) \<in> set rs)))"

definition can ::
  "server \<Rightarrow> request_user \<Rightarrow> resource_type \<Rightarrow> uuid \<Rightarrow> access_level \<Rightarrow> bool" where
  "can s u ty rid level =
     (if \<not> apiKeyAllows u ty rid level then False
      else if ru_is_admin u then True
      else case select_first
                  (\<lambda>g. gr_user_id g = ru_id u \<and> gr_resource_type g = ty \<and> gr_resource_id g = rid)
                  (resource_grants s) of
             None \<Rightarrow> False
           | Some grant \<Rightarrow> LEVEL_RANK (gr_access_level grant) \<ge> LEVEL_RANK level)"

definition acl_assert ::
  "server \<Rightarrow> request_user \<Rightarrow> resource_type \<Rightarrow> uuid \<Rightarrow> access_level \<Rightarrow> unit result" where
  "acl_assert s u ty rid level =
     (if \<not> can s u ty rid level
      then Inl (Forbidden (''Missing '' @ quote @ show_level level @ quote @ '' access on '' @
                           show_resource_type ty @ '' '' @ rid))
      else Inr ())"

text \<open>The result \<open>'all'\<close> of the source is \<open>None\<close>.\<close>

definition visibleResourceIds ::
  "server \<Rightarrow> request_user \<Rightarrow> resource_type \<Rightarrow> uuid list option" where
  "visibleResourceIds s u ty =
     (let scoped = (case ru_api_key_scopes u of
                      None \<Rightarrow> None
                    | Some scopes \<Rightarrow>
                        map_option (\<lambda>rs. map snd (filter (\<lambda>r. fst r = ty) rs))
                          (sc_resources scopes))
      in if ru_is_admin u then scoped
         else let ids = map gr_resource_id
                          (select_where
                             (\<lambda>g. gr_user_id g = ru_id u \<and> gr_resource_type g = ty)
                             (resource_grants s))
              in Some (case scoped of
                         None \<Rightarrow> ids
                       | Some sc \<Rightarrow> filter (\<lambda>i. i \<in> set sc) ids))"

section \<open>What the checks amount to\<close>

text \<open>
  The unique index on \<open>(user_id, resource_type, resource_id)\<close> of the grants table.
\<close>

definition grants_unique :: "server \<Rightarrow> bool" where
  "grants_unique s \<longleftrightarrow>
     distinct (map (\<lambda>g. (gr_user_id g, gr_resource_type g, gr_resource_id g))
                 (resource_grants s))"

definition has_grant :: "server \<Rightarrow> uuid \<Rightarrow> resource_type \<Rightarrow> uuid \<Rightarrow> access_level \<Rightarrow> bool" where
  "has_grant s uid ty rid level \<longleftrightarrow>
     (\<exists>g \<in> set (resource_grants s).
        gr_user_id g = uid \<and> gr_resource_type g = ty \<and> gr_resource_id g = rid \<and>
        LEVEL_RANK level \<le> LEVEL_RANK (gr_access_level g))"

lemma find_distinct_key:
  assumes "distinct (map f xs)" "x \<in> set xs"
  shows "find (\<lambda>y. f y = f x) xs = Some x"
  using assms by (induction xs) (auto simp: image_iff)

lemma can_iff:
  assumes "grants_unique s"
  shows "can s u ty rid level \<longleftrightarrow>
    apiKeyAllows u ty rid level \<and> (ru_is_admin u \<or> has_grant s (ru_id u) ty rid level)"
proof -
  let ?k = "\<lambda>g. (gr_user_id g, gr_resource_type g, gr_resource_id g)"
  let ?P = "\<lambda>g. gr_user_id g = ru_id u \<and> gr_resource_type g = ty \<and> gr_resource_id g = rid"
  have eq: "select_first ?P (resource_grants s) =
      find (\<lambda>g. ?k g = (ru_id u, ty, rid)) (resource_grants s)"
    unfolding select_first_def by (rule arg_cong [where f = "\<lambda>P. find P _"]) auto
  have "(case select_first ?P (resource_grants s) of None \<Rightarrow> False
         | Some g \<Rightarrow> LEVEL_RANK level \<le> LEVEL_RANK (gr_access_level g)) \<longleftrightarrow>
        has_grant s (ru_id u) ty rid level"
  proof (cases "\<exists>g \<in> set (resource_grants s). ?P g")
    case True
    then obtain g where g: "g \<in> set (resource_grants s)" "?P g" by blast
    from g(2) have kg: "?k g = (ru_id u, ty, rid)" by simp
    have "find (\<lambda>h. ?k h = ?k g) (resource_grants s) = Some g"
      by (rule find_distinct_key) (use assms g(1) in \<open>simp_all add: grants_unique_def\<close>)
    then have f: "select_first ?P (resource_grants s) = Some g"
      using eq kg by simp
    have uniq: "h = g" if h: "h \<in> set (resource_grants s)" "?P h" for h
    proof -
      have "find (\<lambda>j. ?k j = ?k h) (resource_grants s) = Some h"
        by (rule find_distinct_key) (use assms h(1) in \<open>simp_all add: grants_unique_def\<close>)
      moreover from h(2) have "?k h = (ru_id u, ty, rid)" by simp
      ultimately show ?thesis using f eq by simp
    qed
    have "has_grant s (ru_id u) ty rid level \<longleftrightarrow> LEVEL_RANK level \<le> LEVEL_RANK (gr_access_level g)"
      unfolding has_grant_def using g uniq by blast
    with f show ?thesis by simp
  next
    case False
    then have "select_first ?P (resource_grants s) = None"
      by (simp add: select_first_None)
    with False show ?thesis by (auto simp: has_grant_def)
  qed
  then show ?thesis by (simp add: can_def)
qed

lemma acl_assert_iff: "acl_assert s u ty rid level = Inr () \<longleftrightarrow> can s u ty rid level"
  by (simp add: acl_assert_def)

lemma acl_assert_cases:
  "acl_assert s u ty rid level = Inr () \<or> (\<exists>m. acl_assert s u ty rid level = Inl (Forbidden m))"
  by (simp add: acl_assert_def)

text \<open>Removing the key's scopes (using the user's session instead) never loses a right.\<close>

lemma can_without_key:
  "can s u ty rid level \<Longrightarrow> can s (u\<lparr>ru_api_key_scopes := None\<rparr>) ty rid level"
  by (auto simp: can_def apiKeyAllows_def split: if_splits)

lemma has_grant_mono:
  "has_grant s uid ty rid l \<Longrightarrow> LEVEL_RANK l' \<le> LEVEL_RANK l \<Longrightarrow> has_grant s uid ty rid l'"
  unfolding has_grant_def by fastforce

lemma level_rank_pos [simp]: "Suc 0 \<le> LEVEL_RANK l"
  by (cases l) simp_all

definition can_read_scope :: "request_user \<Rightarrow> bool" where
  "can_read_scope u \<longleftrightarrow>
     (case ru_api_key_scopes u of
        None \<Rightarrow> True
      | Some sc \<Rightarrow> ''*'' \<in> set (sc_actions sc) \<or> ''read'' \<in> set (sc_actions sc))"

definition listed :: "server \<Rightarrow> request_user \<Rightarrow> resource_type \<Rightarrow> uuid \<Rightarrow> bool" where
  "listed s u ty rid \<longleftrightarrow>
     (case visibleResourceIds s u ty of None \<Rightarrow> True | Some ids \<Rightarrow> rid \<in> set ids)"

lemma listed_iff:
  "listed s u ty rid \<longleftrightarrow>
     (ru_is_admin u \<or> has_grant s (ru_id u) ty rid AlView) \<and>
     (\<forall>sc rs. ru_api_key_scopes u = Some sc \<and> sc_resources sc = Some rs \<longrightarrow>
        (ty, rid) \<in> set rs)"
  unfolding listed_def visibleResourceIds_def has_grant_def select_where_def Let_def
  by (auto split: option.splits simp: image_iff)

section \<open>Grants given to an owner\<close>

text \<open>
  \<open>insert ... onConflict doNothing\<close> on the grants table: what every service does for the
  creator of a resource who is not an administrator.
\<close>

definition grant_owner ::
  "request_user \<Rightarrow> resource_type \<Rightarrow> uuid \<Rightarrow> uuid \<Rightarrow> server \<Rightarrow> server" where
  "grant_owner u ty rid new_id s =
     (if ru_is_admin u \<or>
         (\<exists>g \<in> set (resource_grants s).
            gr_user_id g = ru_id u \<and> gr_resource_type g = ty \<and> gr_resource_id g = rid)
      then s
      else s\<lparr>resource_grants := insert_row
                \<lparr>gr_id = new_id, gr_user_id = ru_id u, gr_resource_type = ty,
                 gr_resource_id = rid, gr_access_level = AlManage\<rparr> (resource_grants s)\<rparr>)"

lemma grant_owner_unique: "grants_unique s \<Longrightarrow> grants_unique (grant_owner u ty rid i s)"
  by (auto simp: grants_unique_def grant_owner_def insert_row_def)

lemma grant_owner_tables [simp]:
  "targets (grant_owner u ty rid i s) = targets s"
  "secrets (grant_owner u ty rid i s) = secrets s"
  "repositories (grant_owner u ty rid i s) = repositories s"
  "backup_jobs (grant_owner u ty rid i s) = backup_jobs s"
  by (simp_all add: grant_owner_def)

text \<open>The creator of a resource without previous grants can manage it.\<close>

lemma grant_owner_manages:
  assumes "grants_unique s" "ru_api_key_scopes u = None"
    "\<forall>g \<in> set (resource_grants s). gr_resource_id g \<noteq> rid"
  shows "can (grant_owner u ty rid i s) u ty rid level"
proof -
  have "LEVEL_RANK level \<le> 3" by (cases level) simp_all
  with assms have "ru_is_admin u \<or> has_grant (grant_owner u ty rid i s) (ru_id u) ty rid level"
    by (auto simp: has_grant_def grant_owner_def insert_row_def)
  with assms show ?thesis
    by (simp add: can_iff [OF grant_owner_unique] apiKeyAllows_def)
qed

section \<open>Theorems\<close>

definition sample_user :: "bool \<Rightarrow> request_user" where
  "sample_user admin =
     \<lparr>ru_id = ''u1'', ru_email = ''u@x'', ru_is_admin = admin, ru_auth_via = ViaSession,
      ru_api_key_scopes = None, ru_api_key_id = None\<rparr>"

definition sample_grant :: "uuid \<Rightarrow> access_level \<Rightarrow> resource_grant" where
  "sample_grant i l =
     \<lparr>gr_id = ''g'' @ i, gr_user_id = ''u1'', gr_resource_type = RtJob, gr_resource_id = i, gr_access_level = l\<rparr>"

text \<open>
  Access is granted exactly when the API key (if the request came with one) covers the
  action and the resource, and the user is an administrator or holds a grant of at least
  the required level on that resource. The grants table has its unique index.
\<close>

theorem access_decision:
  assumes "grants_unique s"
  shows "can s u ty rid level \<longleftrightarrow>
    apiKeyAllows u ty rid level \<and> (ru_is_admin u \<or> has_grant s (ru_id u) ty rid level)"
  using assms by (rule can_iff)

theorem access_decision_witness:
  "can (empty_server\<lparr>resource_grants := [sample_grant ''j1'' AlOperate]\<rparr>) (sample_user False) RtJob ''j1'' AlView"
  by (subst access_decision)
    (simp_all add: grants_unique_def has_grant_def apiKeyAllows_def sample_grant_def sample_user_def)

text \<open>
  A request never gains rights from an API key: whatever a key request may do, the same
  user may do without the key, and everything a key without resource list may list is
  listed for the user as well. The list of visible resources is exactly what the user may
  view, cut down to the resources the key names.
\<close>

theorem key_only_narrows:
  "(can s u ty rid level \<longrightarrow> can s (u\<lparr>ru_api_key_scopes := None\<rparr>) ty rid level) \<and>
   (listed s u ty rid \<longleftrightarrow>
     listed s (u\<lparr>ru_api_key_scopes := None\<rparr>) ty rid \<and>
     (\<forall>sc rs. ru_api_key_scopes u = Some sc \<and> sc_resources sc = Some rs \<longrightarrow> (ty, rid) \<in> set rs))"
  using can_without_key [of s u ty rid level]
  by (simp add: listed_iff has_grant_def)

theorem key_only_narrows_witness:
  "let u = (sample_user True)\<lparr>ru_api_key_scopes := Some \<lparr>sc_actions = [''read''], sc_resources = Some [(RtJob, ''j1'')]\<rparr>\<rparr>
   in can empty_server (u\<lparr>ru_api_key_scopes := None\<rparr>) RtJob ''j1'' AlView \<and> \<not> listed empty_server u RtJob ''j2''"
  using key_only_narrows [of empty_server "(sample_user True)\<lparr>ru_api_key_scopes :=
      Some \<lparr>sc_actions = [''read''], sc_resources = Some [(RtJob, ''j1'')]\<rparr>\<rparr>" RtJob "''j1''" AlView]
    key_only_narrows [of empty_server "(sample_user True)\<lparr>ru_api_key_scopes :=
      Some \<lparr>sc_actions = [''read''], sc_resources = Some [(RtJob, ''j1'')]\<rparr>\<rparr>" RtJob "''j2''" AlView]
  by (simp add: can_def apiKeyAllows_def sample_user_def)

end
