(* ===== verification/Secrets.thy ===== *)
theory Secrets
  imports Database
begin

text \<open>
  Secrets at rest: \<open>server/src/crypto/crypto.service.ts\<close> and
  \<open>server/src/crypto/secrets.service.ts\<close>. AES-256-GCM and SHA-256 are the fields of the
  record \<open>crypto\<close>; what the services rely on (a sealed text opens under the same
  associated data, and under no other) are the predicates \<open>gcm_correct\<close> and
  \<open>gcm_authentic\<close>. The lemmas show that a stored secret can be revealed, and that a
  ciphertext moved onto another row cannot.
\<close>

text \<open>
  What is encrypted: a text, or the JSON text of a flat string map
  (\<open>JSON.stringify\<close> of credentials).
\<close>

datatype plaintext = PText string | PJson "(string \<times> string) list"

record crypto =
  gcm_seal :: "string \<Rightarrow> string option \<Rightarrow> plaintext \<Rightarrow> string"
  gcm_open :: "string \<Rightarrow> string option \<Rightarrow> string \<Rightarrow> plaintext option"
  sha256_hex :: "string \<Rightarrow> string"

record encrypted_payload =
  ep_ciphertext :: string
  ep_nonce :: string

definition encrypt :: "crypto \<Rightarrow> string \<Rightarrow> plaintext \<Rightarrow> string option \<Rightarrow> encrypted_payload" where
  "encrypt c iv p aad = \<lparr>ep_ciphertext = gcm_seal c iv aad p, ep_nonce = iv\<rparr>"

definition decrypt :: "crypto \<Rightarrow> encrypted_payload \<Rightarrow> string option \<Rightarrow> plaintext result" where
  "decrypt c pl aad =
     (case gcm_open c (ep_nonce pl) aad (ep_ciphertext pl) of
        None \<Rightarrow> Inl (PlainError ''Unsupported state or unable to authenticate data'')
      | Some p \<Rightarrow> Inr p)"

definition hashToken :: "crypto \<Rightarrow> string \<Rightarrow> string" where
  "hashToken c t = sha256_hex c t"

definition safeCompareHash :: "string \<Rightarrow> string \<Rightarrow> bool" where
  "safeCompareHash a b = (if length a \<noteq> length b then False else a = b)"

definition aadFor :: "uuid \<Rightarrow> string" where
  "aadFor i = ''secret:'' @ i"

definition secret_by_id :: "uuid \<Rightarrow> server \<Rightarrow> secret_row option" where
  "secret_by_id i s = select_first (\<lambda>r. se_id r = i) (secrets s)"

text \<open>The new row's id (\<open>randomUUID()\<close>) and the 12-byte IV are inputs.\<close>

definition secret_create ::
  "crypto \<Rightarrow> uuid \<Rightarrow> string \<Rightarrow> secret_type \<Rightarrow> plaintext \<Rightarrow> server \<Rightarrow> uuid \<times> server" where
  "secret_create c i iv ty p s =
     (let pl = encrypt c iv p (Some (aadFor i)) in
      (i, s\<lparr>secrets := insert_row
              \<lparr>se_id = i, se_type = ty, se_ciphertext = ep_ciphertext pl, se_nonce = ep_nonce pl\<rparr>
              (secrets s)\<rparr>))"

definition secret_update :: "crypto \<Rightarrow> string \<Rightarrow> uuid \<Rightarrow> plaintext \<Rightarrow> server \<Rightarrow> server" where
  "secret_update c iv i p s =
     (let pl = encrypt c iv p (Some (aadFor i)) in
      s\<lparr>secrets := update_where (\<lambda>r. se_id r = i)
          (\<lambda>r. r\<lparr>se_ciphertext := ep_ciphertext pl, se_nonce := ep_nonce pl\<rparr>) (secrets s)\<rparr>)"

definition reveal :: "crypto \<Rightarrow> server \<Rightarrow> uuid \<Rightarrow> plaintext result" where
  "reveal c s i =
     (case secret_by_id i s of
        None \<Rightarrow> Inl (NotFound (''Secret '' @ i @ '' not found''))
      | Some row \<Rightarrow>
          (let pl = \<lparr>ep_ciphertext = se_ciphertext row, ep_nonce = se_nonce row\<rparr> in
           case decrypt c pl (Some (aadFor i)) of
             Inr p \<Rightarrow> Inr p
           | Inl _ \<Rightarrow> decrypt c pl None))"

definition revealOptional :: "crypto \<Rightarrow> server \<Rightarrow> uuid option \<Rightarrow> plaintext option result" where
  "revealOptional c s io =
     (case io of
        None \<Rightarrow> Inr None
      | Some i \<Rightarrow> (if i = [] then Inr None
                  else case reveal c s i of Inl e \<Rightarrow> Inl e | Inr p \<Rightarrow> Inr (Some p)))"

definition secret_remove :: "uuid \<Rightarrow> server \<Rightarrow> server" where
  "secret_remove i s = s\<lparr>secrets := delete_where (\<lambda>r. se_id r = i) (secrets s)\<rparr>"

section \<open>Laws of the cipher\<close>

definition gcm_correct :: "crypto \<Rightarrow> bool" where
  "gcm_correct c \<longleftrightarrow> (\<forall>iv aad p. gcm_open c iv aad (gcm_seal c iv aad p) = Some p)"

definition gcm_authentic :: "crypto \<Rightarrow> bool" where
  "gcm_authentic c \<longleftrightarrow>
     (\<forall>iv iv' aad aad' p. aad \<noteq> aad' \<longrightarrow> gcm_open c iv' aad' (gcm_seal c iv aad p) = None)"

section \<open>Storing and revealing\<close>

interpretation srow: row_format se_id "\<lambda>f. \<forall>r. se_id (f r) = se_id r"
  by unfold_locales simp

lemma secret_by_id_key: "secret_by_id i s = srow.by_key i (secrets s)"
  by (simp add: secret_by_id_def srow.by_key_def)

lemma safeCompareHash_iff [simp]: "safeCompareHash a b \<longleftrightarrow> a = b"
  by (auto simp: safeCompareHash_def)

lemma reveal_sealed:
  assumes "gcm_correct c" "secret_by_id i s = Some r"
    "se_ciphertext r = gcm_seal c (se_nonce r) (Some (aadFor i)) p"
  shows "reveal c s i = Inr p"
  using assms by (simp add: reveal_def decrypt_def gcm_correct_def)

lemma reveal_after_create:
  assumes "gcm_correct c" "secret_by_id i s = None"
  shows "reveal c (snd (secret_create c i iv ty p s)) i = Inr p"
  using assms
  by (simp add: reveal_def decrypt_def gcm_correct_def secret_create_def secret_by_id_key
      srow.by_key_insert encrypt_def)

lemma reveal_after_update:
  assumes "gcm_correct c" "secret_by_id i s = Some r"
  shows "reveal c (secret_update c iv i p s) i = Inr p"
proof -
  from assms(2) have "se_id r = i" by (auto simp: secret_by_id_key dest: srow.by_key_in)
  with assms show ?thesis
    by (simp add: reveal_def decrypt_def gcm_correct_def secret_update_def secret_by_id_key
        srow.by_key_update encrypt_def)
qed

lemma reveal_other_row:
  assumes "gcm_authentic c" "i \<noteq> j" "secret_by_id j s = Some r"
    "se_ciphertext r = gcm_seal c iv (Some (aadFor i)) p"
  shows "is_error (reveal c s j)"
  using assms by (simp add: reveal_def decrypt_def gcm_authentic_def aadFor_def)

text \<open>
  A cipher with these laws: the associated data and the text, encoded so that no encoding
  is a prefix of another.
\<close>

definition enc_str :: "string \<Rightarrow> string" where
  "enc_str s = concat (map (\<lambda>c. [CHR ''x'', c]) s) @ ''.''"

fun dec_str :: "string \<Rightarrow> (string \<times> string) option" where
  "dec_str (d # rest) =
     (if d = CHR ''.'' then Some ([], rest)
      else case rest of [] \<Rightarrow> None
           | c # rest' \<Rightarrow> map_option (\<lambda>(s, r). (c # s, r)) (dec_str rest'))"
| "dec_str [] = None"

fun enc_pairs :: "(string \<times> string) list \<Rightarrow> string" where
  "enc_pairs [] = ''.''"
| "enc_pairs ((k, v) # kvs) = ''x'' @ enc_str k @ enc_str v @ enc_pairs kvs"

fun enc_plain :: "plaintext \<Rightarrow> string" where
  "enc_plain (PText s) = ''t'' @ enc_str s"
| "enc_plain (PJson kvs) = ''j'' @ enc_pairs kvs"

definition enc_aad :: "string option \<Rightarrow> string" where
  "enc_aad a = (case a of None \<Rightarrow> ''n'' | Some s \<Rightarrow> ''s'' @ enc_str s)"

fun dec_pairs :: "nat \<Rightarrow> string \<Rightarrow> (string \<times> string) list option" where
  "dec_pairs (Suc n) (d # rest) =
     (if d = CHR ''.'' then Some []
      else case dec_str rest of None \<Rightarrow> None
           | Some (k, r) \<Rightarrow> (case dec_str r of None \<Rightarrow> None
                            | Some (v, r') \<Rightarrow> map_option ((#) (k, v)) (dec_pairs n r')))"
| "dec_pairs _ _ = None"

definition dec_plain :: "string \<Rightarrow> plaintext option" where
  "dec_plain s =
     (case s of [] \<Rightarrow> None
      | d # rest \<Rightarrow>
          (if d = CHR ''t'' then map_option (\<lambda>(t, _). PText t) (dec_str rest)
           else map_option PJson (dec_pairs (length rest) rest)))"

definition sample_crypto :: crypto where
  "sample_crypto =
     \<lparr>gcm_seal = (\<lambda>iv aad p. enc_aad aad @ enc_plain p),
      gcm_open = (\<lambda>iv aad ct. if starts_with (enc_aad aad) ct
                               then dec_plain (drop (length (enc_aad aad)) ct) else None),
      sha256_hex = (\<lambda>t. t)\<rparr>"

lemma dec_enc_str [simp]: "dec_str (enc_str s @ r) = Some (s, r)"
  by (induction s) (simp_all add: enc_str_def)

lemma dec_enc_pairs: "length (enc_pairs kvs) \<le> n \<Longrightarrow> dec_pairs n (enc_pairs kvs) = Some kvs"
proof (induction kvs arbitrary: n)
  case Nil
  then show ?case by (cases n) simp_all
next
  case (Cons kv kvs)
  obtain k v where kv: "kv = (k, v)" by (cases kv)
  with Cons.prems obtain m where n: "n = Suc m" and m: "length (enc_pairs kvs) \<le> m"
    by (cases n) auto
  show ?case using Cons.IH [OF m] kv n by simp
qed

lemma dec_enc_plain: "dec_plain (enc_plain p) = Some p"
proof (cases p)
  case (PText s)
  have "dec_str (enc_str s) = Some (s, [])"
    using dec_enc_str [of s "[]"] by simp
  with PText show ?thesis by (simp add: dec_plain_def)
next
  case (PJson kvs)
  then show ?thesis by (simp add: dec_plain_def dec_enc_pairs)
qed

lemma enc_str_prefix_free: "enc_str s @ r = enc_str t @ q \<Longrightarrow> s = t"
  by (metis dec_enc_str option.inject prod.inject)

lemma enc_aad_prefix_free:
  assumes "starts_with (enc_aad b) (enc_aad a @ r)"
  shows "a = b"
proof -
  from starts_withE [OF assms] obtain q where q: "enc_aad a @ r = enc_aad b @ q" by blast
  then show ?thesis
    by (cases a; cases b) (auto simp: enc_aad_def dest: enc_str_prefix_free)
qed

lemma sample_crypto_laws: "gcm_correct sample_crypto" "gcm_authentic sample_crypto"
proof -
  show "gcm_correct sample_crypto"
    by (simp add: gcm_correct_def sample_crypto_def dec_enc_plain)
  show "gcm_authentic sample_crypto"
    unfolding gcm_authentic_def sample_crypto_def
    using enc_aad_prefix_free by auto
qed

section \<open>Theorems\<close>

text \<open>
  What is stored can be read back: revealing a secret after it was created, or after its
  value was replaced, gives the plaintext that was stored last, for any cipher whose
  decryption inverts its encryption.
\<close>

theorem secret_roundtrip:
  assumes "gcm_correct c" "secret_by_id i s = None"
  shows "reveal c (snd (secret_create c i iv ty p s)) i = Inr p \<and>
    reveal c (secret_update c iv' i q (snd (secret_create c i iv ty p s))) i = Inr q"
proof -
  have "\<exists>r. secret_by_id i (snd (secret_create c i iv ty p s)) = Some r"
    using assms(2) by (simp add: secret_create_def secret_by_id_key srow.by_key_insert Let_def)
  then show ?thesis
    using reveal_after_create [OF assms] reveal_after_update [OF assms(1)] by blast
qed

theorem secret_roundtrip_witness:
  "reveal sample_crypto (snd (secret_create sample_crypto ''s1'' ''iv'' StRepoPassword (PText ''pw'') empty_server)) ''s1''
     = Inr (PText ''pw'')"
  using secret_roundtrip [of sample_crypto "''s1''" empty_server "''iv''" StRepoPassword "PText ''pw''"]
  by (simp add: sample_crypto_laws secret_by_id_def select_first_def empty_server_def)


definition moved_secret :: secret_row where
  "moved_secret = \<lparr>se_id = ''s2'', se_type = StRepoPassword,
     se_ciphertext = gcm_seal sample_crypto ''iv'' (Some (aadFor ''s1'')) (PText ''pw''), se_nonce = ''iv''\<rparr>"


end
