(* ===== verification/Backends.thy ===== *)
theory Backends
  imports Database
begin

text \<open>
  The registry of restic backends, \<open>server/src/targets/backend-registry.ts\<close>: the field
  schema of every backend (name, required, secret, scope, overridable), how each builds its
  repository string, environment and credential files, and the functions over the schema.
  Forms are association lists from field names to JSON values. Labels, placeholders and
  help texts only feed the client's form and are left out.
  The lemmas show that an SFTP connection can never smuggle an extra argument into the
  \<open>ssh\<close> command, that secrets and plain configuration are split without overlap, and that
  credential placeholders resolve to the written file.
\<close>

section \<open>JavaScript helpers of the registry\<close>

definition show_int :: "int \<Rightarrow> string" where
  "show_int n = (if n < 0 then ''-'' @ show_nat (nat (- n)) else show_nat (nat n))"

text \<open>\<open>String(v)\<close>; an array joins its elements with commas, null elements being empty.\<close>

fun js_string :: "json \<Rightarrow> string" where
  "js_string JNull = ''null''"
| "js_string (JBool b) = (if b then ''true'' else ''false'')"
| "js_string (JNum n) = show_int n"
| "js_string (JStr s) = s"
| "js_string (JArr xs) = join_with '','' (map (\<lambda>x. if x = JNull then [] else js_string x) xs)"
| "js_string (JObj kvs) = ''[object Object]''"

fun truthy :: "json \<Rightarrow> bool" where
  "truthy JNull = False"
| "truthy (JBool b) = b"
| "truthy (JNum n) = (n \<noteq> 0)"
| "truthy (JStr s) = (s \<noteq> [])"
| "truthy (JArr _) = True"
| "truthy (JObj _) = True"

type_synonym form = "(string \<times> json) list"
type_synonym creds = "(string \<times> string) list"

definition str :: "json option \<Rightarrow> string" where
  "str v = (case v of None \<Rightarrow> [] | Some JNull \<Rightarrow> [] | Some j \<Rightarrow> js_string j)"

definition str_field :: "form \<Rightarrow> string \<Rightarrow> string" where
  "str_field f name = str (map_of f name)"

definition cred :: "creds \<Rightarrow> string \<Rightarrow> string" where
  "cred cs name = (case map_of cs name of None \<Rightarrow> [] | Some v \<Rightarrow> v)"

definition strip_slashes :: "string \<Rightarrow> string" where
  "strip_slashes s =
     rev (dropWhile (\<lambda>c. c = CHR ''/'') (rev (dropWhile (\<lambda>c. c = CHR ''/'') s)))"

definition strip_leading_slashes :: "string \<Rightarrow> string" where
  "strip_leading_slashes s = dropWhile (\<lambda>c. c = CHR ''/'') s"

definition strip_trailing_slashes :: "string \<Rightarrow> string" where
  "strip_trailing_slashes s = rev (dropWhile (\<lambda>c. c = CHR ''/'') (rev s))"

definition hex_digit :: "nat \<Rightarrow> char" where
  "hex_digit n = (if n < 10 then char_of (48 + n) else char_of (55 + n))"

definition is_alnum :: "char \<Rightarrow> bool" where
  "is_alnum c \<longleftrightarrow>
     is_digit c \<or> 65 \<le> (of_char c :: nat) \<and> (of_char c :: nat) \<le> 90
     \<or> 97 \<le> (of_char c :: nat) \<and> (of_char c :: nat) \<le> 122"

definition encodeURIComponent :: "string \<Rightarrow> string" where
  "encodeURIComponent s =
     concat (map (\<lambda>c. if is_alnum c \<or> c \<in> set (''-_.!~*()'' @ quote) then [c]
                       else let n = of_char c :: nat
                            in [CHR ''%'', hex_digit (n div 16), hex_digit (n mod 16)]) s)"

section \<open>Schema types\<close>

datatype field_scope = ScopeTarget | ScopeJob

record backend_field =
  bf_name :: string
  bf_required :: bool
  bf_secret :: bool
  bf_scope :: "field_scope option"
  bf_overridable :: bool

record credential_file =
  cf_env_var :: string
  cf_filename :: string
  cf_content :: string

record resolved_backend =
  rb_repository :: string
  rb_env :: "(string \<times> string) list"
  rb_credential_files :: "credential_file list"
  rb_extra_args :: "string list"

record backend_definition =
  bd_type :: string
  bd_standalone :: bool
  bd_fields :: "backend_field list"
  bd_build :: "form \<Rightarrow> creds \<Rightarrow> form \<Rightarrow> resolved_backend result"

section \<open>Credential files\<close>

definition SFTP_KEY_FILENAME :: string where
  "SFTP_KEY_FILENAME = ''sftp_id_ed25519''"

definition ref_open :: string where
  "ref_open = ''{{credentialFile:''"

definition credentialFileRef :: "string \<Rightarrow> string" where
  "credentialFileRef filename = ref_open @ filename @ ''}}''"

text \<open>
  One pass of the global replacement over a string: a match is the opening token, a
  non-empty name without a closing brace, and two closing braces; a name without a path is
  left as it stands.
\<close>

function substitute_refs :: "(string \<times> string) list \<Rightarrow> string \<Rightarrow> string" where
  "substitute_refs paths s =
     (case s of [] \<Rightarrow> []
      | c # cs \<Rightarrow>
          (let rest = drop (length ref_open) s;
               name = takeWhile (\<lambda>d. d \<noteq> CHR ''}'') rest;
               after = drop (length name) rest
           in if starts_with ref_open s \<and> name \<noteq> [] \<and> starts_with ''}}'' after
              then (case map_of paths name of
                      Some p \<Rightarrow> p
                    | None \<Rightarrow> ref_open @ name @ ''}}'') @ substitute_refs paths (drop 2 after)
              else c # substitute_refs paths cs))"
  by pat_completeness auto
termination
  by (relation "measure (\<lambda>(paths, s). length s)") auto

declare substitute_refs.simps [simp del]

definition substituteCredentialPaths :: "string list \<Rightarrow> (string \<times> string) list \<Rightarrow> string list" where
  "substituteCredentialPaths args paths = map (substitute_refs paths) args"

section \<open>SFTP hardening\<close>

definition sftp_token_char :: "char \<Rightarrow> bool" where
  "sftp_token_char c \<longleftrightarrow> is_alnum c \<or> c \<in> set ''._-''"

text \<open>\<open>/^[A-Za-z0-9]([A-Za-z0-9._-]*[A-Za-z0-9])?$/\<close>\<close>

definition SFTP_USER_RE :: "string \<Rightarrow> bool" where
  "SFTP_USER_RE s \<longleftrightarrow>
     s \<noteq> [] \<and> is_alnum (hd s) \<and> is_alnum (last s) \<and> list_all sftp_token_char s"

definition is_hex :: "char \<Rightarrow> bool" where
  "is_hex c \<longleftrightarrow> is_digit c \<or> c \<in> set ''abcdefABCDEF''"

text \<open>Additionally a bracketed IPv6 literal, \<open>/^\[[0-9A-Fa-f:]+\]$/\<close>.\<close>

definition SFTP_HOST_RE :: "string \<Rightarrow> bool" where
  "SFTP_HOST_RE s \<longleftrightarrow>
     (length s \<ge> 3 \<and> hd s = CHR ''['' \<and> last s = CHR '']''
        \<and> list_all (\<lambda>c. is_hex c \<or> c = CHR '':'') (butlast (tl s)))
     \<or> SFTP_USER_RE s"

definition sftp_port_ok :: "string \<Rightarrow> bool" where
  "sftp_port_ok s \<longleftrightarrow> 1 \<le> length s \<and> length s \<le> 5 \<and> list_all is_digit s"

definition assertSafeSftpConfig :: "form \<Rightarrow> unit result" where
  "assertSafeSftpConfig config =
     (let host = str_field config ''host'';
          user = str_field config ''user'';
          port = str_field config ''port''
      in if host \<noteq> [] \<and> \<not> SFTP_HOST_RE host then Inl (PlainError (''Invalid SFTP host: '' @ host))
         else if user \<noteq> [] \<and> \<not> SFTP_USER_RE user then Inl (PlainError (''Invalid SFTP user: '' @ user))
         else if port \<noteq> [] \<and> \<not> sftp_port_ok port then Inl (PlainError (''Invalid SFTP port: '' @ port))
         else Inr ())"

definition joinPath :: "string \<Rightarrow> string \<Rightarrow> string" where
  "joinPath base prefix =
     (let p = strip_slashes prefix in if p \<noteq> [] then base @ ''/'' @ p else base)"

section \<open>Building each backend\<close>

definition plain_backend :: "string \<Rightarrow> (string \<times> string) list \<Rightarrow> resolved_backend" where
  "plain_backend repo env =
     \<lparr>rb_repository = repo, rb_env = env, rb_credential_files = [], rb_extra_args = []\<rparr>"

definition build_local :: "form \<Rightarrow> creds \<Rightarrow> form \<Rightarrow> resolved_backend result" where
  "build_local config credentials repoConfig =
     Inr (plain_backend (str_field repoConfig ''path'') [])"

definition ssh_argv :: "string \<Rightarrow> string \<Rightarrow> string \<Rightarrow> string list" where
  "ssh_argv user host port =
     [''ssh'', user @ ''@'' @ host] @ (if port \<noteq> [] then [''-p'', port] else []) @
     [''-i'', credentialFileRef SFTP_KEY_FILENAME,
      ''-o'', ''StrictHostKeyChecking=accept-new'', ''-o'', ''BatchMode=yes'', ''-s'', ''sftp'']"

definition build_sftp :: "form \<Rightarrow> creds \<Rightarrow> form \<Rightarrow> resolved_backend result" where
  "build_sftp config credentials repoConfig =
     (case assertSafeSftpConfig config of
        Inl e \<Rightarrow> Inl e
      | Inr _ \<Rightarrow>
          (let host = str_field config ''host'';
               user = str_field config ''user'';
               path = str_field repoConfig ''path'';
               port = str_field config ''port'';
               repository = ''sftp:'' @ user @ ''@'' @ host @ '':'' @ path;
               privateKey = cred credentials ''privateKey''
           in if privateKey = [] then Inr (plain_backend repository [])
              else Inr \<lparr>rb_repository = repository, rb_env = [],
                        rb_credential_files =
                          [\<lparr>cf_env_var = [], cf_filename = SFTP_KEY_FILENAME,
                            cf_content = privateKey\<rparr>],
                        rb_extra_args =
                          [''-o'', ''sftp.command='' @ join_with '' '' (ssh_argv user host port)]\<rparr>))"

definition strip_scheme :: "string \<Rightarrow> string" where
  "strip_scheme s =
     (if starts_with ''http://'' s then drop 7 s
      else if starts_with ''https://'' s then drop 8 s else s)"

definition build_rest :: "form \<Rightarrow> creds \<Rightarrow> form \<Rightarrow> resolved_backend result" where
  "build_rest config credentials repoConfig =
     (let raw = str_field config ''url'';
          scheme = (if starts_with ''http://'' raw then ''http'' else ''https'');
          host = strip_trailing_slashes (strip_scheme raw);
          user = cred credentials ''username'';
          pass = cred credentials ''password'';
          auth = (if user \<noteq> []
                  then encodeURIComponent user @ '':'' @ encodeURIComponent pass @ ''@'' else [])
      in Inr (plain_backend
               (''rest:'' @ scheme @ ''://'' @ auth @ joinPath host (str_field repoConfig ''path'')
                @ ''/'') []))"

definition build_s3 :: "form \<Rightarrow> creds \<Rightarrow> form \<Rightarrow> resolved_backend result" where
  "build_s3 config credentials repoConfig =
     Inr (plain_backend
       (''s3:'' @ joinPath (str_field config ''endpoint'' @ ''/'' @ str_field repoConfig ''bucket'')
                   (str_field repoConfig ''prefix''))
       ([(''AWS_ACCESS_KEY_ID'', cred credentials ''accessKeyId''),
         (''AWS_SECRET_ACCESS_KEY'', cred credentials ''secretAccessKey'')] @
        (case map_of config ''region'' of
           None \<Rightarrow> []
         | Some v \<Rightarrow> if truthy v then [(''AWS_DEFAULT_REGION'', str (Some v))] else [])))"

definition build_b2 :: "form \<Rightarrow> creds \<Rightarrow> form \<Rightarrow> resolved_backend result" where
  "build_b2 config credentials repoConfig =
     Inr (plain_backend
       (''b2:'' @ str_field repoConfig ''bucket'' @ '':''
        @ strip_leading_slashes (str_field repoConfig ''prefix''))
       [(''B2_ACCOUNT_ID'', cred credentials ''accountId''),
        (''B2_ACCOUNT_KEY'', cred credentials ''accountKey'')])"

definition cred_env :: "creds \<Rightarrow> string \<Rightarrow> string \<Rightarrow> (string \<times> string) list" where
  "cred_env cs name var = (if cred cs name \<noteq> [] then [(var, cred cs name)] else [])"

definition build_azure :: "form \<Rightarrow> creds \<Rightarrow> form \<Rightarrow> resolved_backend result" where
  "build_azure config credentials repoConfig =
     Inr (plain_backend
       (''azure:'' @ str_field repoConfig ''container'' @ '':''
        @ strip_leading_slashes (str_field repoConfig ''prefix''))
       ([(''AZURE_ACCOUNT_NAME'', str_field config ''accountName'')]
        @ cred_env credentials ''accountKey'' ''AZURE_ACCOUNT_KEY''
        @ cred_env credentials ''sasToken'' ''AZURE_ACCOUNT_SAS''))"

definition or_slash :: "string \<Rightarrow> string" where
  "or_slash s = (if s = [] then ''/'' else s)"

definition build_gs :: "form \<Rightarrow> creds \<Rightarrow> form \<Rightarrow> resolved_backend result" where
  "build_gs config credentials repoConfig =
     Inr \<lparr>rb_repository = ''gs:'' @ str_field repoConfig ''bucket'' @ '':''
            @ or_slash (strip_leading_slashes (str_field repoConfig ''prefix'')),
          rb_env = [(''GOOGLE_PROJECT_ID'', str_field config ''projectId'')],
          rb_credential_files =
            [\<lparr>cf_env_var = ''GOOGLE_APPLICATION_CREDENTIALS'',
              cf_filename = ''gcs-service-account.json'',
              cf_content = (case map_of credentials ''serviceAccountJson'' of
                              None \<Rightarrow> ''{}'' | Some v \<Rightarrow> v)\<rparr>],
          rb_extra_args = []\<rparr>"

definition build_swift :: "form \<Rightarrow> creds \<Rightarrow> form \<Rightarrow> resolved_backend result" where
  "build_swift config credentials repoConfig =
     Inr (plain_backend
       (''swift:'' @ str_field repoConfig ''container'' @ '':''
        @ or_slash (strip_leading_slashes (str_field repoConfig ''prefix'')))
       ([(''OS_AUTH_URL'', cred credentials ''authUrl''),
         (''OS_USERNAME'', cred credentials ''username''),
         (''OS_PASSWORD'', cred credentials ''password'')]
        @ cred_env credentials ''region'' ''OS_REGION_NAME''))"

definition build_rclone :: "form \<Rightarrow> creds \<Rightarrow> form \<Rightarrow> resolved_backend result" where
  "build_rclone config credentials repoConfig =
     (let remote = str_field config ''remote'';
          path = strip_leading_slashes (str_field repoConfig ''path'')
      in Inr (plain_backend
               (if path \<noteq> [] then ''rclone:'' @ remote @ '':'' @ path else ''rclone:'' @ remote) []))"

section \<open>The registry\<close>

text \<open>Field constructors: name, then required / secret / overridable.\<close>

definition tfield :: "string \<Rightarrow> bool \<Rightarrow> bool \<Rightarrow> backend_field" where
  "tfield name req sec =
     \<lparr>bf_name = name, bf_required = req, bf_secret = sec, bf_scope = None, bf_overridable = False\<rparr>"

definition ofield :: "string \<Rightarrow> backend_field" where
  "ofield name =
     \<lparr>bf_name = name, bf_required = False, bf_secret = True, bf_scope = None, bf_overridable = True\<rparr>"

definition jfield :: "string \<Rightarrow> bool \<Rightarrow> backend_field" where
  "jfield name req =
     \<lparr>bf_name = name, bf_required = req, bf_secret = False, bf_scope = Some ScopeJob,
      bf_overridable = False\<rparr>"

definition mk_backend ::
  "string \<Rightarrow> bool \<Rightarrow> backend_field list \<Rightarrow> (form \<Rightarrow> creds \<Rightarrow> form \<Rightarrow> resolved_backend result)
   \<Rightarrow> backend_definition" where
  "mk_backend ty sa fs b = \<lparr>bd_type = ty, bd_standalone = sa, bd_fields = fs, bd_build = b\<rparr>"

definition BACKENDS :: "backend_definition list" where
  "BACKENDS =
     [mk_backend ''local'' True [jfield ''path'' True] build_local,
      mk_backend ''sftp'' False
        [tfield ''host'' True False, tfield ''user'' True False, tfield ''port'' False False,
         jfield ''path'' True] build_sftp,
      mk_backend ''rest'' False
        [tfield ''url'' True False, ofield ''username'', ofield ''password'',
         jfield ''path'' False] build_rest,
      mk_backend ''s3'' False
        [tfield ''endpoint'' True False, tfield ''region'' False False,
         tfield ''accessKeyId'' True True, tfield ''secretAccessKey'' True True,
         jfield ''bucket'' True, jfield ''prefix'' False] build_s3,
      mk_backend ''b2'' False
        [tfield ''accountId'' True True, tfield ''accountKey'' True True,
         jfield ''bucket'' True, jfield ''prefix'' False] build_b2,
      mk_backend ''azure'' False
        [tfield ''accountName'' True False, tfield ''accountKey'' False True,
         tfield ''sasToken'' False True, jfield ''container'' True, jfield ''prefix'' False]
        build_azure,
      mk_backend ''gs'' False
        [tfield ''projectId'' True False, tfield ''serviceAccountJson'' True True,
         jfield ''bucket'' True, jfield ''prefix'' False] build_gs,
      mk_backend ''swift'' False
        [tfield ''authUrl'' True True, tfield ''username'' False True,
         tfield ''password'' False True, tfield ''region'' False True,
         jfield ''container'' True, jfield ''prefix'' False] build_swift,
      mk_backend ''rclone'' False
        [tfield ''remote'' True False, jfield ''path'' False] build_rclone]"

definition getBackend :: "string \<Rightarrow> backend_definition result" where
  "getBackend ty =
     (case find (\<lambda>b. bd_type b = ty) BACKENDS of
        None \<Rightarrow> Inl (PlainError (''Unknown backend type: '' @ ty))
      | Some d \<Rightarrow> Inr d)"

definition backendCatalog :: "(string \<times> backend_field list) list" where
  "backendCatalog =
     map (\<lambda>b. (bd_type b, bd_fields b)) (filter (\<lambda>b. \<not> bd_standalone b) BACKENDS)"

definition field_scope_of :: "backend_field \<Rightarrow> field_scope" where
  "field_scope_of f = (case bf_scope f of None \<Rightarrow> ScopeTarget | Some sc \<Rightarrow> sc)"

text \<open>One iteration of the loop of \<open>splitConfig\<close>, on the two objects built so far.\<close>

definition split_step ::
  "field_scope \<Rightarrow> form \<Rightarrow> backend_field \<Rightarrow> form \<times> creds \<Rightarrow> form \<times> creds" where
  "split_step scope vals field acc =
     (let own = field_scope_of field = scope in
      if \<not> own \<and> \<not> (scope = ScopeJob \<and> bf_overridable field) then acc
      else case map_of vals (bf_name field) of
             None \<Rightarrow> acc
           | Some v \<Rightarrow>
               (if v = JStr [] then acc
                else if bf_secret field
                     then (fst acc, snd acc @ [(bf_name field, js_string v)])
                     else (fst acc @ [(bf_name field, v)], snd acc)))"

definition splitConfig :: "string \<Rightarrow> form \<Rightarrow> field_scope \<Rightarrow> (form \<times> creds) result" where
  "splitConfig ty vals scope =
     (case getBackend ty of
        Inl e \<Rightarrow> Inl e
      | Inr def \<Rightarrow> Inr (fold (split_step scope vals) (bd_fields def) ([], [])))"

definition overridableFields :: "string \<Rightarrow> string list result" where
  "overridableFields ty =
     (case getBackend ty of
        Inl e \<Rightarrow> Inl e
      | Inr def \<Rightarrow> Inr (map bf_name (filter bf_overridable (bd_fields def))))"

definition requiredJobFields :: "string \<Rightarrow> string list result" where
  "requiredJobFields ty =
     (case getBackend ty of
        Inl e \<Rightarrow> Inl e
      | Inr def \<Rightarrow>
          Inr (map bf_name
                 (filter (\<lambda>f. bf_scope f = Some ScopeJob \<and> bf_required f) (bd_fields def))))"

definition secretFieldNames :: "string list" where
  "secretFieldNames =
     rev (remdups (rev (concat (map (\<lambda>b. map bf_name (filter bf_secret (bd_fields b))) BACKENDS))))"

section \<open>The SFTP command has no room for extra arguments\<close>

text \<open>Characters that neither split an argument, start an option, nor quote anything.\<close>

definition argv_safe_char :: "char \<Rightarrow> bool" where
  "argv_safe_char c \<longleftrightarrow> is_alnum c \<or> c \<in> set ''._-[]:@''"

lemma is_hex_alnum: "is_hex c \<Longrightarrow> is_alnum c"
  by (auto simp: is_hex_def is_alnum_def)

lemma sftp_user_safe: "SFTP_USER_RE s \<Longrightarrow> list_all argv_safe_char s"
  by (auto simp: SFTP_USER_RE_def list_all_iff sftp_token_char_def argv_safe_char_def)

lemma bracketed_safe:
  assumes "length s \<ge> 3" "hd s = CHR ''[''" "last s = CHR '']''"
    "list_all (\<lambda>c. is_hex c \<or> c = CHR '':'') (butlast (tl s))"
  shows "list_all argv_safe_char s"
proof -
  from assms(1) have "s \<noteq> []" "tl s \<noteq> []" by (cases s; force)+
  then have s: "s = hd s # butlast (tl s) @ [last s]"
    by (metis append_butlast_last_id last_tl list.collapse)
  have "list_all argv_safe_char (butlast (tl s))"
    using assms(4) by (auto simp: list_all_iff argv_safe_char_def dest: is_hex_alnum)
  then show ?thesis using assms(2,3)
    by (subst s) (simp add: argv_safe_char_def)
qed

lemma sftp_host_safe: "SFTP_HOST_RE s \<Longrightarrow> list_all argv_safe_char s"
  unfolding SFTP_HOST_RE_def using bracketed_safe sftp_user_safe by blast

lemma sftp_port_safe: "sftp_port_ok s \<Longrightarrow> list_all argv_safe_char s"
  by (auto simp: sftp_port_ok_def list_all_iff argv_safe_char_def is_alnum_def)

lemma safe_sftp_parts:
  assumes "assertSafeSftpConfig config = Inr ()"
  shows "list_all argv_safe_char (str_field config ''host'')"
    "list_all argv_safe_char (str_field config ''user'')"
    "list_all argv_safe_char (str_field config ''port'')"
  using assms sftp_host_safe sftp_user_safe sftp_port_safe
  by (auto simp: assertSafeSftpConfig_def Let_def split: if_splits)

lemma safe_no_special:
  "list_all argv_safe_char s \<Longrightarrow> c \<in> {CHR '' '', CHR ''{'', CHR 0x22, CHR 0x27} \<Longrightarrow> c \<notin> set s"
  by (auto simp: list_all_iff argv_safe_char_def is_alnum_def is_digit_def)

lemma ssh_destination_not_option:
  assumes "assertSafeSftpConfig config = Inr ()"
  shows "hd (str_field config ''user'' @ ''@'' @ str_field config ''host'') \<noteq> CHR ''-''"
proof (cases "str_field config ''user'' = []")
  case False
  with assms have "is_alnum (hd (str_field config ''user''))"
    by (auto simp: assertSafeSftpConfig_def SFTP_USER_RE_def Let_def split: if_splits)
  with False show ?thesis by (auto simp: is_alnum_def is_digit_def)
qed simp

lemma ssh_argv_no_space:
  assumes "list_all argv_safe_char user" "list_all argv_safe_char host" "list_all argv_safe_char port"
  shows "\<forall>x \<in> set (ssh_argv user host port). CHR '' '' \<notin> set x"
proof -
  from assms have "CHR '' '' \<notin> set user" "CHR '' '' \<notin> set host" "CHR '' '' \<notin> set port"
    by (simp_all add: safe_no_special)
  then show ?thesis
    by (cases "port = []")
      (simp_all add: ssh_argv_def credentialFileRef_def ref_open_def SFTP_KEY_FILENAME_def)
qed

lemma build_sftp_key:
  assumes "build_sftp config cs repo = Inr rb" "rb_extra_args rb \<noteq> []"
  shows "assertSafeSftpConfig config = Inr ()"
    "rb_extra_args rb =
       [''-o'', ''sftp.command='' @ join_with '' ''
          (ssh_argv (str_field config ''user'') (str_field config ''host'') (str_field config ''port''))]"
  using assms
  by (auto simp: build_sftp_def Let_def plain_backend_def split: sum.splits if_splits)

section \<open>Placeholders resolve to the written file\<close>

lemma substitute_plain:
  "CHR ''{'' \<notin> set pre \<Longrightarrow> substitute_refs paths (pre @ s) = pre @ substitute_refs paths s"
proof (induction pre)
  case (Cons c pre)
  then have "\<not> starts_with ref_open (c # pre @ s)"
    by (auto simp: starts_with_def ref_open_def)
  with Cons show ?case
    by (simp add: substitute_refs.simps [of paths "c # pre @ s"])
qed simp

lemma substitute_ref:
  assumes "name \<noteq> []" "CHR ''}'' \<notin> set name"
  shows "substitute_refs paths (credentialFileRef name @ s) =
    (case map_of paths name of Some p \<Rightarrow> p | None \<Rightarrow> credentialFileRef name) @ substitute_refs paths s"
proof -
  let ?t = "credentialFileRef name @ s"
  have t: "?t = ref_open @ name @ ''}}'' @ s" by (simp add: credentialFileRef_def)
  have tw: "takeWhile (\<lambda>d. d \<noteq> CHR ''}'') (name @ ''}}'' @ s) = name"
    using assms(2) by (subst takeWhile_append2) auto
  obtain c cs where c: "?t = c # cs" by (simp add: t ref_open_def)
  have sw: "starts_with ref_open ?t" and dr: "drop (length ref_open) ?t = name @ ''}}'' @ s"
    by (simp_all add: t del: append_Cons)
  show ?thesis
    apply (subst substitute_refs.simps)
    using c sw dr tw assms(1)
    apply (simp add: Let_def starts_with_def [of "''}}''"] credentialFileRef_def [symmetric]
        split: option.splits)
    done
qed

lemma substitute_nil [simp]: "substitute_refs paths [] = []"
  by (simp add: substitute_refs.simps)

lemma substitute_no_brace: "CHR ''{'' \<notin> set s \<Longrightarrow> substitute_refs paths s = s"
  using substitute_plain [of s paths "[]"] by simp

section \<open>Splitting a form\<close>

definition field_selected :: "field_scope \<Rightarrow> backend_field \<Rightarrow> bool" where
  "field_selected scope f \<longleftrightarrow>
     field_scope_of f = scope \<or> scope = ScopeJob \<and> bf_overridable f"

definition field_supplied :: "form \<Rightarrow> backend_field \<Rightarrow> bool" where
  "field_supplied vals f \<longleftrightarrow>
     (\<exists>v. map_of vals (bf_name f) = Some v \<and> v \<noteq> JStr [])"

definition taken_fields :: "field_scope \<Rightarrow> form \<Rightarrow> backend_field list \<Rightarrow> backend_field list" where
  "taken_fields scope vals fs =
     filter (\<lambda>f. field_selected scope f \<and> field_supplied vals f) fs"

text \<open>The two objects in closed form: the taken fields, divided by \<open>secret\<close>.\<close>

lemma fold_split_step:
  "fold (split_step scope vals) fs acc =
     (fst acc @ map (\<lambda>f. (bf_name f, the (map_of vals (bf_name f))))
                  (filter (\<lambda>f. \<not> bf_secret f) (taken_fields scope vals fs)),
      snd acc @ map (\<lambda>f. (bf_name f, js_string (the (map_of vals (bf_name f)))))
                  (filter bf_secret (taken_fields scope vals fs)))"
proof (induction fs arbitrary: acc)
  case Nil
  then show ?case by (simp add: taken_fields_def)
next
  case (Cons f fs)
  show ?case
    by (simp add: Cons.IH)
      (auto simp: split_step_def taken_fields_def field_selected_def field_supplied_def Let_def
        split: option.splits)
qed

lemma splitConfig_eq:
  "splitConfig ty vals scope =
     (case getBackend ty of
        Inl e \<Rightarrow> Inl e
      | Inr def \<Rightarrow>
          Inr (map (\<lambda>f. (bf_name f, the (map_of vals (bf_name f))))
                 (filter (\<lambda>f. \<not> bf_secret f) (taken_fields scope vals (bd_fields def))),
               map (\<lambda>f. (bf_name f, js_string (the (map_of vals (bf_name f)))))
                 (filter bf_secret (taken_fields scope vals (bd_fields def)))))"
  by (simp add: splitConfig_def fold_split_step split: sum.splits)

lemma getBackend_in: "getBackend ty = Inr d \<Longrightarrow> d \<in> set BACKENDS \<and> bd_type d = ty"
  by (auto simp: getBackend_def find_Some_iff split: option.splits)

section \<open>Theorems\<close>

text \<open>
  C19: No argument injection through an SFTP connection: whenever a repository on an SFTP
  connection is assembled with a key, splitting the \<open>sftp.command\<close> at blanks, as restic
  does, gives back exactly the intended argument vector, and the destination argument does
  not start with a dash, so ssh cannot read it as an option.
\<close>

theorem sftp_command_argv:
  assumes "build_sftp config cs repo = Inr rb" "rb_extra_args rb \<noteq> []"
  shows "\<exists>cmd. rb_extra_args rb = [''-o'', ''sftp.command='' @ cmd] \<and>
    split_on CHR '' '' cmd =
      ssh_argv (str_field config ''user'') (str_field config ''host'') (str_field config ''port'') \<and>
    hd (ssh_argv (str_field config ''user'') (str_field config ''host'') (str_field config ''port'') ! 1) \<noteq> CHR ''-''"
proof -
  let ?argv = "ssh_argv (str_field config ''user'') (str_field config ''host'') (str_field config ''port'')"
  have safe: "assertSafeSftpConfig config = Inr ()" using assms by (rule build_sftp_key(1))
  then have "\<forall>x \<in> set ?argv. CHR '' '' \<notin> set x" by (intro ssh_argv_no_space safe_sftp_parts)
  then have "split_on CHR '' '' (join_with '' '' ?argv) = ?argv"
    by (intro split_on_join) (auto simp: ssh_argv_def)
  with build_sftp_key(2) [OF assms] ssh_destination_not_option [OF safe] show ?thesis
    by (simp add: ssh_argv_def)
qed

theorem sftp_command_argv_witness:
  "\<exists>rb cmd. build_sftp [(''host'', JStr ''nas''), (''user'', JStr ''bk'')] [(''privateKey'', ''K'')] [] = Inr rb \<and>
     rb_extra_args rb = [''-o'', ''sftp.command='' @ cmd] \<and>
     split_on CHR '' '' cmd = ssh_argv ''bk'' ''nas'' []"
proof -
  obtain rb where rb: "build_sftp [(''host'', JStr ''nas''), (''user'', JStr ''bk'')] [(''privateKey'', ''K'')] [] = Inr rb"
    "rb_extra_args rb \<noteq> []"
    by (simp add: build_sftp_def assertSafeSftpConfig_def SFTP_HOST_RE_def SFTP_USER_RE_def str_field_def
        str_def is_alnum_def sftp_token_char_def cred_def js_string.simps Let_def)
  from sftp_command_argv [OF rb] rb(1) show ?thesis by (auto simp: str_field_def str_def)
qed

text \<open>
  Splitting a form into stored values and credentials is exact for every backend type:
  the two parts list the fields of the type that belong to the scope and were filled in, in
  schema order, a field is in the credentials exactly when it is declared secret, and no
  field outside the schema is stored at all.
\<close>

theorem splitConfig_partition:
  assumes "splitConfig ty vals scope = Inr (config, credentials)"
  shows "\<exists>def \<in> set BACKENDS. bd_type def = ty \<and>
    map fst config = map bf_name (filter (\<lambda>f. \<not> bf_secret f) (taken_fields scope vals (bd_fields def))) \<and>
    map fst credentials = map bf_name (filter bf_secret (taken_fields scope vals (bd_fields def))) \<and>
    (\<forall>(n, v) \<in> set config. map_of vals n = Some v) \<and>
    (\<forall>(n, v) \<in> set credentials. \<exists>w. map_of vals n = Some w \<and> v = js_string w)"
proof -
  obtain def where def: "getBackend ty = Inr def"
    using assms by (cases "getBackend ty") (auto simp: splitConfig_eq)
  then have parts: "config = map (\<lambda>f. (bf_name f, the (map_of vals (bf_name f))))
        (filter (\<lambda>f. \<not> bf_secret f) (taken_fields scope vals (bd_fields def)))"
    "credentials = map (\<lambda>f. (bf_name f, js_string (the (map_of vals (bf_name f)))))
        (filter bf_secret (taken_fields scope vals (bd_fields def)))"
    using assms by (auto simp: splitConfig_eq)
  have supplied: "\<exists>w. map_of vals (bf_name f) = Some w" if "f \<in> set (taken_fields scope vals (bd_fields def))" for f
    using that by (auto simp: taken_fields_def field_supplied_def split: option.splits)
  from parts have "\<forall>(n, v) \<in> set config. map_of vals n = Some v"
    "\<forall>(n, v) \<in> set credentials. \<exists>w. map_of vals n = Some w \<and> v = js_string w"
    using supplied by fastforce+
  with parts getBackend_in [OF def] show ?thesis by (intro bexI [of _ def]) (simp_all add: comp_def)
qed

theorem splitConfig_partition_witness:
  "\<exists>config credentials. splitConfig ''rest'' [(''url'', JStr ''h''), (''password'', JStr ''x''), (''path'', JStr ''r'')] ScopeTarget
      = Inr (config, credentials) \<and> (\<forall>(n, v) \<in> set config. map_of [(''url'', JStr ''h''), (''password'', JStr ''x''), (''path'', JStr ''r'')] n = Some v)"
proof -
  let ?f = "[(''url'', JStr ''h''), (''password'', JStr ''x''), (''path'', JStr ''r'')]"
  obtain config credentials where s: "splitConfig ''rest'' ?f ScopeTarget = Inr (config, credentials)"
    by (simp add: splitConfig_eq getBackend_def BACKENDS_def mk_backend_def)
  from splitConfig_partition [OF s] s show ?thesis by blast
qed

text \<open>
  Placeholders for credential files are replaced by the file's path wherever they stand in
  an argument and left alone when no such file was written; text without braces around them
  is not touched.
\<close>

theorem credential_placeholder:
  assumes "CHR ''{'' \<notin> set pre" "CHR ''{'' \<notin> set post" "name \<noteq> []" "CHR ''}'' \<notin> set name"
  shows "substituteCredentialPaths [pre @ credentialFileRef name @ post] paths =
    [pre @ (case map_of paths name of Some p \<Rightarrow> p | None \<Rightarrow> credentialFileRef name) @ post]"
  using assms by (simp add: substituteCredentialPaths_def substitute_plain substitute_ref substitute_no_brace)

theorem credential_placeholder_witness:
  "substituteCredentialPaths [''-i '' @ credentialFileRef SFTP_KEY_FILENAME @ '' -s''] [(SFTP_KEY_FILENAME, ''/tmp/k'')] =
     [''-i /tmp/k -s'']"
  by (subst credential_placeholder) (simp_all add: SFTP_KEY_FILENAME_def)

end
