(* ===== verification/Slug.thy ===== *)
theory Slug
  imports Database
begin

text \<open>
  Name-derived slugs: \<open>server/src/common/slug.ts\<close> and
  \<open>server/src/common/slug-resolver.service.ts\<close>. A slug table is given by the pairs
  \<open>(id, slug)\<close> of its rows. The lemmas show the shape of a slug, that slugifying a slug
  changes nothing, that the suffix search always finds a free slug, and that a slug resolves
  to its own row.
\<close>

section \<open>Definitions\<close>

definition is_hex_ci :: "char \<Rightarrow> bool" where
  "is_hex_ci c \<longleftrightarrow> is_digit c \<or> c \<in> set ''abcdefABCDEF''"

text \<open>\<open>UUID_RE\<close>: groups of 8, 4, 4, 4 and 12 hexadecimal digits, joined by dashes.\<close>

definition isUuid :: "string \<Rightarrow> bool" where
  "isUuid s \<longleftrightarrow>
     map length (split_on CHR ''-'' s) = [8, 4, 4, 4, 12] \<and>
     list_all (list_all is_hex_ci) (split_on CHR ''-'' s)"

text \<open>\<open>replace(/[^a-z0-9]+/g, '-')\<close>\<close>

function dash_runs :: "string \<Rightarrow> string" where
  "dash_runs [] = []"
| "dash_runs (c # cs) =
     (if is_lower_alnum c then c # dash_runs cs
      else CHR ''-'' # dash_runs (dropWhile (\<lambda>d. \<not> is_lower_alnum d) cs))"
  by pat_completeness auto
termination
  by (relation "measure length") (auto simp: le_imp_less_Suc length_dropWhile_le)

text \<open>\<open>replace(/^-+|-+$/g, '')\<close>\<close>

definition strip_dashes :: "string \<Rightarrow> string" where
  "strip_dashes s =
     rev (dropWhile (\<lambda>c. c = CHR ''-'') (rev (dropWhile (\<lambda>c. c = CHR ''-'') s)))"

definition slugify :: "string \<Rightarrow> string" where
  "slugify name =
     (let slug = strip_dashes (dash_runs (to_lower name))
      in if slug = [] then ''entity'' else slug)"

text \<open>The digits after \<open>base-\<close>, when the slug is of that form (\<open>suffixRe\<close>).\<close>

definition suffix_of :: "string \<Rightarrow> string \<Rightarrow> nat option" where
  "suffix_of base slug =
     (let d = drop (length base + 1) slug in
      if starts_with (base @ ''-'') slug \<and> d \<noteq> [] \<and> list_all is_digit d
      then Some (digits_value d) else None)"

text \<open>One iteration of the loop over the rows: \<open>baseTaken\<close> and \<open>maxSuffix\<close>.\<close>

definition slug_step :: "string \<Rightarrow> string \<Rightarrow> bool \<times> nat \<Rightarrow> bool \<times> nat" where
  "slug_step base slug acc =
     (if slug = base then (True, snd acc)
      else case suffix_of base slug of
             None \<Rightarrow> acc
           | Some n \<Rightarrow> (fst acc, max (snd acc) n))"

definition uniqueSlug :: "(uuid \<times> string) list \<Rightarrow> string \<Rightarrow> uuid option \<Rightarrow> string" where
  "uniqueSlug table name excludeId =
     (let base = slugify name;
          rows = filter (\<lambda>(i, slug). slug = base \<or> starts_with (base @ ''-'') slug) table;
          rows' = (case excludeId of
                     None \<Rightarrow> rows
                   | Some e \<Rightarrow> if e = [] then rows else filter (\<lambda>(i, slug). i \<noteq> e) rows);
          (baseTaken, maxSuffix) = fold (slug_step base) (map snd rows') (False, 1)
      in if baseTaken then base @ ''-'' @ show_nat (maxSuffix + 1) else base)"

definition slug_resolve :: "(uuid \<times> string) list \<Rightarrow> string \<Rightarrow> uuid result" where
  "slug_resolve table idOrSlug =
     (if isUuid idOrSlug then Inr idOrSlug
      else case select_first (\<lambda>(i, slug). slug = idOrSlug) table of
             None \<Rightarrow> Inl (NotFound (''No entity with slug '' @ quote @ idOrSlug @ quote))
           | Some row \<Rightarrow> Inr (fst row))"

section \<open>The shape of a slug\<close>

text \<open>No two dashes in a row.\<close>

fun single_dashes :: "string \<Rightarrow> bool" where
  "single_dashes (a # b # s) \<longleftrightarrow> \<not> (a = CHR ''-'' \<and> b = CHR ''-'') \<and> single_dashes (b # s)"
| "single_dashes _ \<longleftrightarrow> True"

definition slug_char :: "char \<Rightarrow> bool" where
  "slug_char c \<longleftrightarrow> is_lower_alnum c \<or> c = CHR ''-''"

definition slug_shape :: "string \<Rightarrow> bool" where
  "slug_shape s \<longleftrightarrow>
     s \<noteq> [] \<and> list_all slug_char s \<and> is_lower_alnum (hd s) \<and> is_lower_alnum (last s) \<and>
     single_dashes s"

lemma dash_not_alnum [simp]: "\<not> is_lower_alnum CHR ''-''"
  by (simp add: is_lower_alnum_def is_digit_def)

lemma dash_runs_chars: "list_all slug_char (dash_runs s)"
  by (induction s rule: dash_runs.induct) (auto simp: slug_char_def)

lemma dash_runs_hd: "s = [] \<or> is_lower_alnum (hd s) \<Longrightarrow> dash_runs s = [] \<or> hd (dash_runs s) \<noteq> CHR ''-''"
  by (cases s) auto

lemma dropWhile_head: "dropWhile P s = [] \<or> \<not> P (hd (dropWhile P s))"
  using hd_dropWhile by blast

lemma single_dashes_Cons:
  "single_dashes (c # s) \<longleftrightarrow> single_dashes s \<and> (s = [] \<or> \<not> (c = CHR ''-'' \<and> hd s = CHR ''-''))"
  by (cases s) auto

lemma dash_runs_single: "single_dashes (dash_runs s)"
proof (induction s rule: dash_runs.induct)
  case (2 c cs)
  let ?r = "dropWhile (\<lambda>d. \<not> is_lower_alnum d) cs"
  have "dash_runs ?r = [] \<or> hd (dash_runs ?r) \<noteq> CHR ''-''"
    using dash_runs_hd [of ?r] dropWhile_head [of "\<lambda>d. \<not> is_lower_alnum d" cs] by auto
  with 2 show ?case by (auto simp: single_dashes_Cons)
qed simp

lemma single_dashes_append: "single_dashes (a @ b) \<Longrightarrow> single_dashes a \<and> single_dashes b"
  by (induction a) (auto simp: single_dashes_Cons)

lemma strip_dashes_split: "\<exists>a b. s = a @ strip_dashes s @ b \<and> set a \<subseteq> {CHR ''-''} \<and> set b \<subseteq> {CHR ''-''}"
proof -
  let ?P = "\<lambda>c. c = CHR ''-''"
  have 1: "s = takeWhile ?P s @ dropWhile ?P s" by simp
  have 2: "dropWhile ?P s = strip_dashes s @ rev (takeWhile ?P (rev (dropWhile ?P s)))"
    unfolding strip_dashes_def by (metis rev_append rev_rev_ident takeWhile_dropWhile_id)
  have "set (takeWhile ?P xs) \<subseteq> {CHR ''-''}" for xs by (auto dest: set_takeWhileD)
  with 1 2 show ?thesis by (metis append_assoc set_rev)
qed

lemma strip_dashes_last: "strip_dashes s = [] \<or> last (strip_dashes s) \<noteq> CHR ''-''"
proof -
  let ?P = "\<lambda>c. c = CHR ''-''"
  let ?d = "dropWhile ?P (rev (dropWhile ?P s))"
  have "strip_dashes s = rev ?d" by (simp add: strip_dashes_def)
  moreover have "?d = [] \<or> hd ?d \<noteq> CHR ''-''" by (rule dropWhile_head)
  ultimately show ?thesis by (metis last_rev rev_is_Nil_conv)
qed

lemma strip_dashes_hd: "strip_dashes s = [] \<or> hd (strip_dashes s) \<noteq> CHR ''-''"
proof -
  let ?P = "\<lambda>c. c = CHR ''-''"
  have "dropWhile ?P s = strip_dashes s @ rev (takeWhile ?P (rev (dropWhile ?P s)))"
    unfolding strip_dashes_def by (metis rev_append rev_rev_ident takeWhile_dropWhile_id)
  then show ?thesis using dropWhile_head [of ?P s] by (metis Nil_is_append_conv hd_append2)
qed

lemma strip_dashes_id:
  assumes "s \<noteq> []" "hd s \<noteq> CHR ''-''" "last s \<noteq> CHR ''-''"
  shows "strip_dashes s = s"
proof -
  from assms have "dropWhile (\<lambda>c. c = CHR ''-'') s = s" by (cases s) auto
  moreover from assms have "dropWhile (\<lambda>c. c = CHR ''-'') (rev s) = rev s"
    by (metis (mono_tags) dropWhile_eq_self_iff hd_rev)
  ultimately show ?thesis by (simp add: strip_dashes_def)
qed

lemma slug_shape_strip:
  assumes "strip_dashes (dash_runs s) \<noteq> []"
  shows "slug_shape (strip_dashes (dash_runs s))"
proof -
  let ?t = "strip_dashes (dash_runs s)"
  obtain a b where ab: "dash_runs s = a @ ?t @ b" using strip_dashes_split by blast
  have c: "list_all slug_char ?t" using dash_runs_chars [of s] ab by (metis list_all_append)
  have d: "single_dashes ?t" using dash_runs_single [of s] ab by (metis single_dashes_append)
  have "slug_char (hd ?t)" "slug_char (last ?t)" using c assms by (auto simp: list_all_iff)
  then show ?thesis
    using assms c d strip_dashes_hd [of "dash_runs s"] strip_dashes_last [of "dash_runs s"]
    by (auto simp: slug_shape_def slug_char_def)
qed

lemma slugify_shape: "slug_shape (slugify name)"
  using slug_shape_strip by (auto simp: slugify_def Let_def slug_shape_def slug_char_def
      is_lower_alnum_def)

lemma lower_slug_char: "slug_char c \<Longrightarrow> lower_char c = c"
  by (auto simp: slug_char_def lower_char_def is_lower_alnum_def is_digit_def Let_def)

lemma dash_runs_id: "list_all slug_char s \<Longrightarrow> single_dashes s \<Longrightarrow> dash_runs s = s"
proof (induction s)
  case (Cons c s)
  then have IH: "dash_runs s = s" by (simp add: single_dashes_Cons)
  show ?case
  proof (cases "is_lower_alnum c")
    case False
    with Cons.prems have c: "c = CHR ''-''" by (simp add: slug_char_def)
    have "dropWhile (\<lambda>d. \<not> is_lower_alnum d) s = s"
      using Cons.prems c by (cases s) (auto simp: slug_char_def single_dashes_Cons)
    with False c IH show ?thesis by simp
  qed (simp add: IH)
qed simp

lemma slugify_of_slug:
  assumes "slug_shape s"
  shows "slugify s = s"
proof -
  have "to_lower s = s"
    using assms by (auto simp: to_lower_def slug_shape_def list_all_iff lower_slug_char intro!: map_idI)
  moreover have "dash_runs s = s" using assms by (simp add: slug_shape_def dash_runs_id)
  moreover have "strip_dashes s = s" using assms by (intro strip_dashes_id) (auto simp: slug_shape_def)
  ultimately show ?thesis using assms by (simp add: slugify_def slug_shape_def)
qed

section \<open>Freshness\<close>

lemma suffix_of_numbered: "suffix_of base (base @ ''-'' @ show_nat n) = Some n"
  by (simp add: suffix_of_def starts_with_def list_all_iff show_nat_digits)

lemma slug_fold_bound:
  assumes "fold (slug_step base) slugs acc = (taken, m)"
  shows "snd acc \<le> m" "\<And>n. \<exists>g \<in> set slugs. g \<noteq> base \<and> suffix_of base g = Some n \<Longrightarrow> n \<le> m"
    "taken \<longleftrightarrow> fst acc \<or> base \<in> set slugs"
proof -
  have "snd acc \<le> m \<and> (\<forall>g \<in> set slugs. \<forall>n. g \<noteq> base \<longrightarrow> suffix_of base g = Some n \<longrightarrow> n \<le> m)
        \<and> (taken \<longleftrightarrow> fst acc \<or> base \<in> set slugs)"
    using assms
  proof (induction slugs arbitrary: acc)
    case (Cons g slugs)
    from Cons.IH [of "slug_step base g acc"] Cons.prems
    have *: "snd (slug_step base g acc) \<le> m"
      "\<forall>g \<in> set slugs. \<forall>n. g \<noteq> base \<longrightarrow> suffix_of base g = Some n \<longrightarrow> n \<le> m"
      "taken \<longleftrightarrow> fst (slug_step base g acc) \<or> base \<in> set slugs" by auto
    from *(1,2) have "snd acc \<le> m" "\<forall>n. g \<noteq> base \<longrightarrow> suffix_of base g = Some n \<longrightarrow> n \<le> m"
      by (auto simp: slug_step_def split: if_splits option.splits)
    moreover from *(3) have "taken \<longleftrightarrow> fst acc \<or> base \<in> set (g # slugs)"
      by (auto simp: slug_step_def split: if_splits option.splits)
    ultimately show ?case using *(2) by simp
  qed simp
  then show "snd acc \<le> m"
    "\<And>n. \<exists>g \<in> set slugs. g \<noteq> base \<and> suffix_of base g = Some n \<Longrightarrow> n \<le> m"
    "taken \<longleftrightarrow> fst acc \<or> base \<in> set slugs" by blast+
qed

text \<open>The rows the collision check looks at.\<close>

definition slug_rivals :: "(uuid \<times> string) list \<Rightarrow> uuid option \<Rightarrow> (uuid \<times> string) list" where
  "slug_rivals table excludeId =
     (case excludeId of None \<Rightarrow> table
      | Some e \<Rightarrow> if e = [] then table else filter (\<lambda>(i, slug). i \<noteq> e) table)"

definition near_base :: "string \<Rightarrow> (uuid \<times> string) list \<Rightarrow> string list" where
  "near_base base rows =
     map snd (filter (\<lambda>(i, slug). slug = base \<or> starts_with (base @ ''-'') slug) rows)"

lemma uniqueSlug_eq:
  obtains taken m where
    "fold (slug_step (slugify name)) (near_base (slugify name) (slug_rivals table excludeId))
       (False, 1) = (taken, m)"
    "uniqueSlug table name excludeId =
       (if taken then slugify name @ ''-'' @ show_nat (m + 1) else slugify name)"
proof -
  define base where "base = slugify name"
  define near where
    "near = filter (\<lambda>(i :: uuid, slug). slug = base \<or> starts_with (base @ ''-'') slug)"
  have rows: "(case excludeId of None \<Rightarrow> near table
      | Some e \<Rightarrow> if e = [] then near table else filter (\<lambda>(i, slug). i \<noteq> e) (near table)) =
      near (slug_rivals table excludeId)"
    by (auto simp: near_def slug_rivals_def conj_commute case_prod_beta'
        split: option.splits intro!: filter_cong)
  obtain taken m where
    f: "fold (slug_step base) (map snd (near (slug_rivals table excludeId))) (False, 1) = (taken, m)"
    by (cases "fold (slug_step base) (map snd (near (slug_rivals table excludeId))) (False, 1)")
  have "uniqueSlug table name excludeId =
      (if taken then base @ ''-'' @ show_nat (m + 1) else base)"
    unfolding uniqueSlug_def Let_def base_def [symmetric] near_def [symmetric] rows f by simp
  then show ?thesis
    using that f by (simp add: base_def near_def near_base_def)
qed

lemma near_base_in:
  "g \<in> snd ` set rows \<Longrightarrow> g = base \<or> starts_with (base @ ''-'') g \<Longrightarrow> g \<in> set (near_base base rows)"
  by (force simp: near_base_def)

lemma near_base_sub: "set (near_base base rows) \<subseteq> snd ` set rows"
  by (auto simp: near_base_def)

lemma uniqueSlug_fresh: "uniqueSlug table name excludeId \<notin> snd ` set (slug_rivals table excludeId)"
proof -
  let ?base = "slugify name" and ?rivals = "slug_rivals table excludeId"
  obtain taken m where f: "fold (slug_step ?base) (near_base ?base ?rivals) (False, 1) = (taken, m)"
    and u: "uniqueSlug table name excludeId =
       (if taken then ?base @ ''-'' @ show_nat (m + 1) else ?base)"
    by (rule uniqueSlug_eq)
  show ?thesis
  proof (cases taken)
    case False
    with u slug_fold_bound(3) [OF f] near_base_in [of ?base ?rivals ?base] show ?thesis by auto
  next
    case True
    let ?g = "?base @ ''-'' @ show_nat (m + 1)"
    have "?g \<notin> set (near_base ?base ?rivals)"
      using slug_fold_bound(2) [OF f, of "m + 1"] suffix_of_numbered [of ?base "m + 1"] by fastforce
    moreover have "starts_with (?base @ ''-'') ?g" by (simp add: starts_with_def)
    ultimately show ?thesis using u True near_base_in by metis
  qed
qed

text \<open>A row saved under a name whose base slug no other row holds gets exactly that slug.\<close>

lemma uniqueSlug_base_free:
  assumes "slugify name \<notin> snd ` set (slug_rivals table excludeId)"
  shows "uniqueSlug table name excludeId = slugify name"
proof -
  obtain taken m where
    f: "fold (slug_step (slugify name)) (near_base (slugify name) (slug_rivals table excludeId))
       (False, 1) = (taken, m)"
    and u: "uniqueSlug table name excludeId =
       (if taken then slugify name @ ''-'' @ show_nat (m + 1) else slugify name)"
    by (rule uniqueSlug_eq)
  from assms near_base_sub slug_fold_bound(3) [OF f] have "\<not> taken" by auto
  with u show ?thesis by simp
qed

lemma slug_resolve_own:
  assumes "distinct (map snd table)" "(i, slug) \<in> set table" "\<not> isUuid slug"
  shows "slug_resolve table slug = Inr i"
proof -
  have "select_first (\<lambda>(j, g). g = slug) table = Some (i, slug)"
    using assms(1,2) by (induction table) (auto simp: select_first_def image_iff)
  with assms(3) show ?thesis by (simp add: slug_resolve_def)
qed

section \<open>Theorems\<close>

text \<open>
  \<open>slugify\<close> is total and idempotent: for every name it gives a non-empty string of
  lower-case letters, digits and single inner dashes, and a string of that form is its own slug.
\<close>

theorem slugify_normal_form:
  "slug_shape (slugify name) \<and> slugify (slugify name) = slugify name"
  using slugify_shape slugify_of_slug by blast

text \<open>
  The slug chosen for a new or renamed row collides with no other row of its table, is the
  plain slug of the name when that is free, and resolves to the row again once it is stored.
\<close>

theorem uniqueSlug_correct:
  fixes table :: "(uuid \<times> string) list"
  assumes "distinct (map snd table)" "g = uniqueSlug table name None"
  shows "g \<notin> snd ` set table \<and> (slugify name \<notin> snd ` set table \<longrightarrow> g = slugify name) \<and>
    (\<not> isUuid g \<longrightarrow> slug_resolve (table @ [(i, g)]) g = Inr i)"
proof -
  have r: "slug_rivals table None = table" by (simp add: slug_rivals_def)
  have f: "g \<notin> snd ` set table" using uniqueSlug_fresh [of table name None] by (simp add: r assms(2))
  moreover have "slugify name \<notin> snd ` set table \<longrightarrow> g = slugify name"
    using uniqueSlug_base_free [of name table None] by (simp add: r assms(2))
  moreover have "\<not> isUuid g \<longrightarrow> slug_resolve (table @ [(i, g)]) g = Inr i"
    using f assms(1) by (intro impI slug_resolve_own) (auto simp: image_iff)
  ultimately show ?thesis by blast
qed

theorem uniqueSlug_correct_witness:
  "uniqueSlug [(''a'', ''nas'')] ''NAS'' None \<notin> {''nas''}"
  using uniqueSlug_correct [of "[(''a'', ''nas'')]" "uniqueSlug [(''a'', ''nas'')] ''NAS'' None" "''NAS''"] by simp

end
