(* ===== verification/Targets.thy ===== *)
theory Targets
  imports AccessControl Secrets Backends Slug
begin

text \<open>
  Connections: \<open>server/src/targets/targets.service.ts\<close>. Every handler returns the new state
  together with its result, so that a call that throws after a write shows both. Fresh ids,
  initialisation vectors and the generated SSH key pair are inputs.
  The lemmas show that what is stored when a connection is created is what a repository on
  it is later resolved with, that stored SFTP connections are always safe to run, and that a
  connection in use cannot be removed.
\<close>

section \<open>Requests\<close>

record create_target =
  ct_name :: string
  ct_backend_type :: string
  ct_config :: form

record update_target =
  ut_name :: "string option"
  ut_config :: "form option"

text \<open>What a handler draws from outside: ids, IVs, the key pair of \<open>ssh-keygen\<close>.\<close>

record fresh =
  fr_row_id :: uuid
  fr_secret_id :: uuid
  fr_grant_id :: uuid
  fr_iv :: string
  fr_private_key :: string
  fr_public_key :: string

record resolved_target =
  rv_target_id :: uuid
  rv_repository :: string
  rv_password :: plaintext
  rv_env :: "(string \<times> string) list"
  rv_credential_files :: "credential_file list"
  rv_extra_args :: "string list"

type_synonym 'a handler = "server \<Rightarrow> 'a result \<times> server"

section \<open>Reading\<close>

text \<open>The public view drops the credential reference.\<close>

definition toPublic :: "target \<Rightarrow> target" where
  "toPublic t = t\<lparr>tg_credential_secret_id := None\<rparr>"

definition target_slugs :: "server \<Rightarrow> (uuid \<times> string) list" where
  "target_slugs s = map (\<lambda>t. (tg_id t, tg_slug t)) (targets s)"

definition getRow :: "server \<Rightarrow> uuid \<Rightarrow> target result" where
  "getRow s i =
     (case target_by_id i s of None \<Rightarrow> Inl (NotFound ''Target not found'') | Some t \<Rightarrow> Inr t)"

definition target_list :: "request_user \<Rightarrow> server \<Rightarrow> target list" where
  "target_list u s =
     (case visibleResourceIds s u RtTarget of
        None \<Rightarrow> map toPublic (targets s)
      | Some ids \<Rightarrow> map toPublic (select_where (\<lambda>t. tg_id t \<in> set ids) (targets s)))"

definition target_get :: "request_user \<Rightarrow> uuid \<Rightarrow> server \<Rightarrow> target result" where
  "target_get u i s =
     (case acl_assert s u RtTarget i AlView of
        Inl e \<Rightarrow> Inl e
      | Inr _ \<Rightarrow> (case getRow s i of Inl e \<Rightarrow> Inl e | Inr t \<Rightarrow> Inr (toPublic t)))"

section \<open>Writing\<close>

text \<open>The message of a plain exception (\<open>(e as Error).message\<close>).\<close>

fun error_message :: "error \<Rightarrow> string" where
  "error_message (BadRequest m) = m"
| "error_message (Unauthorized m) = m"
| "error_message (Forbidden m) = m"
| "error_message (NotFound m) = m"
| "error_message (Conflict m) = m"
| "error_message (PlainError m) = m"

definition check_sftp :: "string \<Rightarrow> form \<Rightarrow> unit result" where
  "check_sftp ty config =
     (if ty = ''sftp''
      then (case assertSafeSftpConfig config of
              Inl e \<Rightarrow> Inl (BadRequest (error_message e)) | Inr _ \<Rightarrow> Inr ())
      else Inr ())"

definition store_credentials ::
  "crypto \<Rightarrow> fresh \<Rightarrow> creds \<Rightarrow> server \<Rightarrow> uuid option \<times> server" where
  "store_credentials c f cs s =
     (if cs \<noteq> []
      then (let (i, s') = secret_create c (fr_secret_id f) (fr_iv f) StBackendCredential (PJson cs) s
            in (Some i, s'))
      else (None, s))"

definition target_create ::
  "crypto \<Rightarrow> fresh \<Rightarrow> request_user \<Rightarrow> create_target \<Rightarrow> target handler" where
  "target_create c f u dto s =
     (case splitConfig (ct_backend_type dto) (ct_config dto) ScopeTarget of
        Inl e \<Rightarrow> (Inl e, s)
      | Inr (config, credentials) \<Rightarrow>
          (case check_sftp (ct_backend_type dto) config of
             Inl e \<Rightarrow> (Inl e, s)
           | Inr _ \<Rightarrow>
               (let keygen = ct_backend_type dto = ''sftp'' \<and> cred credentials ''privateKey'' = [];
                    credentials' = (if keygen
                       then credentials @ [(''privateKey'', fr_private_key f)] else credentials);
                    config' = (if keygen
                       then config @ [(''publicKey'', JStr (fr_public_key f))] else config);
                    (sid, s1) = store_credentials c f credentials' s;
                    row = \<lparr>tg_id = fr_row_id f, tg_name = ct_name dto,
                           tg_slug = uniqueSlug (target_slugs s1) (ct_name dto) None,
                           tg_backend_type = ct_backend_type dto, tg_config = config',
                           tg_credential_secret_id = sid, tg_owner_id = ru_id u,
                           tg_status = TsUnknown, tg_last_check_at = None,
                           tg_last_check_error = None\<rparr>;
                    s2 = s1\<lparr>targets := insert_row row (targets s1)\<rparr>
                in (Inr (toPublic row), grant_owner u RtTarget (fr_row_id f) (fr_grant_id f) s2))))"

text \<open>The part of \<open>update\<close> that handles \<open>dto.config\<close>: the patched row and the stored secret.\<close>

definition target_patch_config ::
  "crypto \<Rightarrow> fresh \<Rightarrow> target \<Rightarrow> form \<Rightarrow> (target \<Rightarrow> target) handler" where
  "target_patch_config c f t frm s =
     (case splitConfig (tg_backend_type t) frm ScopeTarget of
        Inl e \<Rightarrow> (Inl e, s)
      | Inr (config, credentials) \<Rightarrow>
          (case check_sftp (tg_backend_type t) config of
             Inl e \<Rightarrow> (Inl e, s)
           | Inr _ \<Rightarrow>
               (let config' =
                      (if tg_backend_type t = ''sftp''
                       then (case map_of (tg_config t) ''publicKey'' of
                               Some v \<Rightarrow> if truthy v then config @ [(''publicKey'', v)] else config
                             | None \<Rightarrow> config)
                       else config)
                in if credentials = [] then (Inr (tg_config_update (\<lambda>_. config')), s)
                   else case tg_credential_secret_id t of
                          Some i \<Rightarrow>
                            (Inr (tg_config_update (\<lambda>_. config')),
                             secret_update c (fr_iv f) i (PJson credentials) s)
                        | None \<Rightarrow>
                            (let (sid, s1) = store_credentials c f credentials s
                             in (Inr (\<lambda>r. r\<lparr>tg_config := config',
                                             tg_credential_secret_id := sid\<rparr>), s1)))))"

definition target_update ::
  "crypto \<Rightarrow> fresh \<Rightarrow> request_user \<Rightarrow> uuid \<Rightarrow> update_target \<Rightarrow> target handler" where
  "target_update c f u i dto s =
     (case acl_assert s u RtTarget i AlManage of
        Inl e \<Rightarrow> (Inl e, s)
      | Inr _ \<Rightarrow>
          (case getRow s i of
             Inl e \<Rightarrow> (Inl e, s)
           | Inr t \<Rightarrow>
               (let rename = (case ut_name dto of
                       None \<Rightarrow> id
                     | Some n \<Rightarrow> (\<lambda>r. r\<lparr>tg_name := n,
                                      tg_slug := uniqueSlug (target_slugs s) n (Some i)\<rparr>));
                    (patched, s1) = (case ut_config dto of
                       None \<Rightarrow> (Inr id, s)
                     | Some frm \<Rightarrow> target_patch_config c f t frm s)
                in case patched of
                     Inl e \<Rightarrow> (Inl e, s1)
                   | Inr p \<Rightarrow>
                       (let s2 = s1\<lparr>targets := update_where (\<lambda>r. tg_id r = i) (p \<circ> rename)
                                     (targets s1)\<rparr>
                        in (Inr (toPublic (p (rename t))), s2)))))"

text \<open>
  Deleting the row also applies the schema's \<open>on delete set null\<close> on the restore history.
\<close>

definition target_remove :: "request_user \<Rightarrow> uuid \<Rightarrow> unit handler" where
  "target_remove u i s =
     (case acl_assert s u RtTarget i AlManage of
        Inl e \<Rightarrow> (Inl e, s)
      | Inr _ \<Rightarrow>
          (case getRow s i of
             Inl e \<Rightarrow> (Inl e, s)
           | Inr t \<Rightarrow>
               (if \<exists>r \<in> set (repositories s). re_target_id r = Some i
                then (Inl (Conflict ''This connection is still used by one or more backup jobs''), s)
                else let s1 = s\<lparr>targets := delete_where (\<lambda>r. tg_id r = i) (targets s),
                                 restore_runs := update_where (\<lambda>r. rr_target_id r = Some i)
                                   (\<lambda>r. r\<lparr>rr_target_id := None\<rparr>) (restore_runs s)\<rparr>
                     in (Inr (), case tg_credential_secret_id t of
                                   None \<Rightarrow> s1 | Some sid \<Rightarrow> secret_remove sid s1))))"

section \<open>Resolving a repository\<close>

definition assemble ::
  "string \<Rightarrow> form \<Rightarrow> creds \<Rightarrow> form \<Rightarrow> plaintext \<Rightarrow> uuid \<Rightarrow> creds \<Rightarrow> resolved_target result" where
  "assemble ty config credentials repoConfig password targetId overrides =
     (case getBackend ty of
        Inl e \<Rightarrow> Inl e
      | Inr def \<Rightarrow>
          (case bd_build def config (overrides @ credentials) repoConfig of
             Inl e \<Rightarrow> Inl e
           | Inr b \<Rightarrow> Inr \<lparr>rv_target_id = targetId, rv_repository = rb_repository b,
                           rv_password = password, rv_env = rb_env b,
                           rv_credential_files = rb_credential_files b,
                           rv_extra_args = rb_extra_args b\<rparr>))"

text \<open>\<open>JSON.parse\<close> of a revealed secret; credentials are always stored as a JSON map.\<close>

definition revealCredentials :: "crypto \<Rightarrow> server \<Rightarrow> uuid option \<Rightarrow> creds result" where
  "revealCredentials c s sid =
     (case sid of
        None \<Rightarrow> Inr []
      | Some i \<Rightarrow>
          (if i = [] then Inr []
           else case reveal c s i of
                  Inl e \<Rightarrow> Inl e
                | Inr (PJson kvs) \<Rightarrow> Inr kvs
                | Inr (PText _) \<Rightarrow> Inl (PlainError ''Unexpected token in JSON'')))"

definition resolveRepo ::
  "crypto \<Rightarrow> server \<Rightarrow> uuid option \<Rightarrow> form \<Rightarrow> uuid \<Rightarrow> uuid option \<Rightarrow> resolved_target result" where
  "resolveRepo c s targetId repoConfig pwSecret credSecret =
     (case reveal c s pwSecret of
        Inl e \<Rightarrow> Inl e
      | Inr password \<Rightarrow>
          (case targetId of
             None \<Rightarrow> assemble ''local'' [] [] repoConfig password ''local'' []
           | Some tid \<Rightarrow>
               (case getRow s tid of
                  Inl e \<Rightarrow> Inl e
                | Inr t \<Rightarrow>
                    (case revealCredentials c s (tg_credential_secret_id t) of
                       Inl e \<Rightarrow> Inl e
                     | Inr credentials \<Rightarrow>
                         (case revealCredentials c s credSecret of
                            Inl e \<Rightarrow> Inl e
                          | Inr overrides \<Rightarrow>
                              assemble (tg_backend_type t) (tg_config t) credentials repoConfig
                                password tid overrides)))))"

definition resolveForJob :: "crypto \<Rightarrow> server \<Rightarrow> repository \<Rightarrow> resolved_target result" where
  "resolveForJob c s repo =
     resolveRepo c s (re_target_id repo) (re_repo_config repo) (re_repo_password_secret_id repo)
       (re_credential_secret_id repo)"

definition resolveForRestore :: "crypto \<Rightarrow> server \<Rightarrow> restore_run \<Rightarrow> resolved_target result" where
  "resolveForRestore c s run =
     resolveRepo c s (rr_target_id run) (rr_repo_config run) (rr_repo_password_secret_id run)
       (rr_credential_secret_id run)"

record ad_hoc_repo =
  ah_target_id :: "uuid option"
  ah_backend_type :: "string option"
  ah_target_config :: "form option"
  ah_repo_config :: "form option"
  ah_repo_credentials :: "creds option"
  ah_repo_password :: string

definition or_empty :: "'a list option \<Rightarrow> 'a list" where
  "or_empty x = (case x of None \<Rightarrow> [] | Some l \<Rightarrow> l)"

definition resolveRepoAdHoc :: "crypto \<Rightarrow> server \<Rightarrow> ad_hoc_repo \<Rightarrow> resolved_target result" where
  "resolveRepoAdHoc c s input =
     (let repoConfig = or_empty (ah_repo_config input);
          overrides = or_empty (ah_repo_credentials input);
          pw = PText (ah_repo_password input)
      in if or_empty (ah_target_id input) \<noteq> []
         then (case getRow s (or_empty (ah_target_id input)) of
                 Inl e \<Rightarrow> Inl e
               | Inr t \<Rightarrow>
                   (case revealCredentials c s (tg_credential_secret_id t) of
                      Inl e \<Rightarrow> Inl e
                    | Inr credentials \<Rightarrow>
                        assemble (tg_backend_type t) (tg_config t) credentials repoConfig pw
                          (tg_id t) overrides))
         else (let backendType = (case ah_backend_type input of None \<Rightarrow> ''local'' | Some b \<Rightarrow> b)
               in case splitConfig backendType (or_empty (ah_target_config input)) ScopeTarget of
                    Inl e \<Rightarrow> Inl e
                  | Inr (config, credentials) \<Rightarrow>
                      assemble backendType config credentials repoConfig pw ''adhoc'' overrides))"

definition assertOperate :: "server \<Rightarrow> request_user \<Rightarrow> uuid \<Rightarrow> unit result" where
  "assertOperate s u i =
     (if \<not> can s u RtTarget i AlOperate then Inl (Forbidden ''Missing operate access on target'')
      else Inr ())"

section \<open>What is created is what is resolved\<close>

interpretation trow: row_format tg_id "\<lambda>f. \<forall>r. tg_id (f r) = tg_id r"
  by unfold_locales simp

lemma target_by_id_key: "target_by_id i s = trow.by_key i (targets s)"
  by (simp add: target_by_id_def trow.by_key_def)

lemma sftp_schema_split:
  "splitConfig ''sftp'' frm ScopeTarget = Inr (config, credentials) \<Longrightarrow> credentials = []"
  by (auto simp: splitConfig_eq getBackend_def BACKENDS_def mk_backend_def tfield_def jfield_def
      taken_fields_def)

text \<open>The row and the stored credentials of a created connection.\<close>

definition key_config :: "string \<Rightarrow> fresh \<Rightarrow> form" where
  "key_config ty f = (if ty = ''sftp'' then [(''publicKey'', JStr (fr_public_key f))] else [])"

definition key_credentials :: "string \<Rightarrow> fresh \<Rightarrow> creds" where
  "key_credentials ty f = (if ty = ''sftp'' then [(''privateKey'', fr_private_key f)] else [])"

lemma store_credentials_simps:
  "store_credentials c f [] s = (None, s)"
  "cs \<noteq> [] \<Longrightarrow> store_credentials c f cs s =
     (Some (fr_secret_id f),
      snd (secret_create c (fr_secret_id f) (fr_iv f) StBackendCredential (PJson cs) s))"
  by (simp_all add: store_credentials_def secret_create_def Let_def)

lemma store_credentials_keeps:
  "targets (snd (store_credentials c f cs s)) = targets s"
  "repositories (snd (store_credentials c f cs s)) = repositories s"
  "resource_grants (snd (store_credentials c f cs s)) = resource_grants s"
  by (simp_all add: store_credentials_def secret_create_def Let_def)

lemma target_create_ok:
  assumes "target_create c f u dto s = (Inr row, s')"
  obtains config credentials t where
    "splitConfig (ct_backend_type dto) (ct_config dto) ScopeTarget = Inr (config, credentials)"
    "check_sftp (ct_backend_type dto) config = Inr ()"
    "row = toPublic t" "tg_id t = fr_row_id f" "tg_backend_type t = ct_backend_type dto"
    "tg_config t = config @ key_config (ct_backend_type dto) f"
    "tg_credential_secret_id t =
       fst (store_credentials c f (credentials @ key_credentials (ct_backend_type dto) f) s)"
    "targets s' = insert_row t (targets s)"
    "secrets s' = secrets (snd (store_credentials c f
       (credentials @ key_credentials (ct_backend_type dto) f) s))"
    "repositories s' = repositories s"
proof -
  let ?ty = "ct_backend_type dto"
  obtain config credentials where sp:
    "splitConfig ?ty (ct_config dto) ScopeTarget = Inr (config, credentials)"
    and ck: "check_sftp ?ty config = Inr ()"
    using assms by (auto simp: target_create_def split: sum.splits prod.splits)
  have k: "?ty = ''sftp'' \<Longrightarrow> credentials = []" using sp sftp_schema_split by metis
  obtain sid s1 where st: "store_credentials c f (credentials @ key_credentials ?ty f) s = (sid, s1)"
    by (cases "store_credentials c f (credentials @ key_credentials ?ty f) s")
  define t where "t = \<lparr>tg_id = fr_row_id f, tg_name = ct_name dto,
                           tg_slug = uniqueSlug (target_slugs s1) (ct_name dto) None,
                           tg_backend_type = ?ty, tg_config = config @ key_config ?ty f,
                           tg_credential_secret_id = sid, tg_owner_id = ru_id u,
                           tg_status = TsUnknown, tg_last_check_at = None,
                           tg_last_check_error = None\<rparr>"
  have "row = toPublic t" and
    "s' = grant_owner u RtTarget (fr_row_id f) (fr_grant_id f) (s1\<lparr>targets := insert_row t (targets s1)\<rparr>)"
    using assms sp ck k st
    by (auto simp: target_create_def Let_def key_config_def key_credentials_def cred_def t_def
        split: if_splits)
  moreover have "targets s1 = targets s" "repositories s1 = repositories s"
    using store_credentials_keeps [of c f "credentials @ key_credentials ?ty f" s] st by simp_all
  ultimately show ?thesis using that [of config credentials t] sp ck st by (simp add: t_def)
qed

lemma reveal_secrets_cong: "secrets s = secrets s' \<Longrightarrow> reveal c s i = reveal c s' i"
  by (simp add: reveal_def secret_by_id_def)

lemma revealCredentials_stored:
  assumes "gcm_correct c" "secret_by_id (fr_secret_id f) s = None" "fr_secret_id f \<noteq> []"
    "secrets s' = secrets (snd (store_credentials c f cs s))"
  shows "revealCredentials c s' (fst (store_credentials c f cs s)) = Inr cs"
proof (cases "cs = []")
  case True
  then show ?thesis by (simp add: store_credentials_simps revealCredentials_def)
next
  case False
  then have "reveal c s' (fr_secret_id f) = Inr (PJson cs)"
    using assms reveal_after_create [OF assms(1,2)] reveal_secrets_cong [OF assms(4)]
    by (simp add: store_credentials_simps)
  with False assms(3) show ?thesis by (simp add: store_credentials_simps revealCredentials_def)
qed

lemma created_target_resolves:
  assumes laws: "gcm_correct c" and fresh: "target_by_id (fr_row_id f) s = None"
      "secret_by_id (fr_secret_id f) s = None" "fr_secret_id f \<noteq> []"
    and ok: "target_create c f u dto s = (Inr row, s')"
    and split: "splitConfig (ct_backend_type dto) (ct_config dto) ScopeTarget = Inr (config, credentials)"
    and pw: "reveal c s' pwid = Inr pw"
  shows "resolveRepo c s' (Some (tg_id row)) rc pwid None =
    assemble (ct_backend_type dto) (config @ key_config (ct_backend_type dto) f)
      (credentials @ key_credentials (ct_backend_type dto) f) rc pw (fr_row_id f) []"
proof -
  from target_create_ok [OF ok] obtain t where
    t: "row = toPublic t" "tg_id t = fr_row_id f" "tg_backend_type t = ct_backend_type dto"
    "tg_config t = config @ key_config (ct_backend_type dto) f"
    "tg_credential_secret_id t =
       fst (store_credentials c f (credentials @ key_credentials (ct_backend_type dto) f) s)"
    "targets s' = insert_row t (targets s)"
    "secrets s' = secrets (snd (store_credentials c f
       (credentials @ key_credentials (ct_backend_type dto) f) s))"
    by (rule target_create_ok [OF ok, unfolded split]) auto
  have "getRow s' (fr_row_id f) = Inr t"
    using fresh(1) t(2,6) by (simp add: getRow_def target_by_id_key trow.by_key_insert)
  moreover have "revealCredentials c s' (tg_credential_secret_id t) =
      Inr (credentials @ key_credentials (ct_backend_type dto) f)"
    using revealCredentials_stored [OF laws fresh(2,3) t(7)] t(5) by simp
  ultimately show ?thesis
    using pw t(1-4) by (simp add: resolveRepo_def toPublic_def revealCredentials_def)
qed

section \<open>Stored SFTP connections are safe\<close>

definition sftp_targets_safe :: "server \<Rightarrow> bool" where
  "sftp_targets_safe s \<longleftrightarrow>
     (\<forall>t \<in> set (targets s). tg_backend_type t = ''sftp'' \<longrightarrow>
        assertSafeSftpConfig (tg_config t) = Inr ())"

lemma safe_sftp_public_key:
  "assertSafeSftpConfig (config @ [(''publicKey'', v)]) = assertSafeSftpConfig config"
proof -
  have "map_of (config @ [(''publicKey'', v)]) k = map_of config k" if "k \<noteq> ''publicKey''" for k
    using that by (simp add: map_add_def split: option.splits)
  then show ?thesis by (simp add: assertSafeSftpConfig_def str_field_def)
qed

lemma check_sftp_safe:
  "check_sftp ''sftp'' config = Inr () \<Longrightarrow> assertSafeSftpConfig config = Inr ()"
  by (simp add: check_sftp_def split: sum.splits)

lemma target_create_error_state: "target_create c f u dto s = (Inl e, s') \<Longrightarrow> s' = s"
  by (auto simp: target_create_def Let_def split: sum.splits prod.splits)

lemma sftp_safe_create:
  assumes "sftp_targets_safe s"
  shows "sftp_targets_safe (snd (target_create c f u dto s))"
proof -
  obtain res s' where e: "target_create c f u dto s = (res, s')" by fastforce
  show ?thesis
  proof (cases res)
    case (Inl x)
    with e assms target_create_error_state show ?thesis by fastforce
  next
    case (Inr row)
    obtain config t where
      t: "check_sftp (ct_backend_type dto) config = Inr ()"
      "tg_backend_type t = ct_backend_type dto"
      "tg_config t = config @ key_config (ct_backend_type dto) f"
      "targets s' = insert_row t (targets s)"
      by (rule target_create_ok [OF e [unfolded Inr]])
    then have "tg_backend_type t = ''sftp'' \<Longrightarrow> assertSafeSftpConfig (tg_config t) = Inr ()"
      using check_sftp_safe by (simp add: key_config_def safe_sftp_public_key)
    with assms t(4) show ?thesis by (auto simp: e sftp_targets_safe_def set_insert_row)
  qed
qed

lemma target_patch_config_ok:
  assumes "target_patch_config c f t frm s = (Inr p, s')" "tg_backend_type t = ''sftp''"
  shows "assertSafeSftpConfig (tg_config (p r)) = Inr ()" "tg_backend_type (p r) = tg_backend_type r"
  using assms
  by (auto simp: target_patch_config_def Let_def store_credentials_simps safe_sftp_public_key
      split: sum.splits prod.splits option.splits if_splits dest: check_sftp_safe)

lemma target_patch_config_keeps:
  assumes "target_patch_config c f t frm s = (r, s')"
  shows "targets s' = targets s" "repositories s' = repositories s"
  using assms
  by (auto simp: target_patch_config_def Let_def store_credentials_def secret_create_def secret_update_def
      split: sum.splits prod.splits option.splits if_splits)

lemma target_patch_config_type:
  assumes "target_patch_config c f t frm s = (Inr p, s')"
  shows "tg_backend_type (p r) = tg_backend_type r" "tg_id (p r) = tg_id r"
  using assms
  by (auto simp: target_patch_config_def Let_def store_credentials_simps
      split: sum.splits prod.splits option.splits if_splits)

lemma target_update_state:
  assumes "target_update c f u i dto s = (res, s')"
  obtains (unchanged) "targets s' = targets s" "repositories s' = repositories s" "is_error res"
  | (patched) t p rename s1 where "can s u RtTarget i AlManage" "target_by_id i s = Some t"
      "p = id \<or> (\<exists>frm. target_patch_config c f t frm s = (Inr p, s1))"
      "\<forall>r. tg_config (rename r) = tg_config r \<and> tg_backend_type (rename r) = tg_backend_type r
           \<and> tg_id (rename r) = tg_id r"
      "targets s' = update_where (\<lambda>r. tg_id r = i) (p \<circ> rename) (targets s)"
      "repositories s' = repositories s"
proof (cases "\<exists>t. acl_assert s u RtTarget i AlManage = Inr () \<and> target_by_id i s = Some t")
  case False
  then have "s' = s \<and> is_error res"
    using assms acl_assert_cases [of s u RtTarget i AlManage]
    by (auto simp: target_update_def getRow_def split: option.splits)
  with unchanged show ?thesis by blast
next
  case True
  then obtain t where t: "acl_assert s u RtTarget i AlManage = Inr ()" "target_by_id i s = Some t"
    by blast
  define rename :: "target \<Rightarrow> target" where "rename = (case ut_name dto of
                       None \<Rightarrow> id
                     | Some n \<Rightarrow> (\<lambda>r. r\<lparr>tg_name := n,
                                      tg_slug := uniqueSlug (target_slugs s) n (Some i)\<rparr>))"
  have rn: "\<forall>r. tg_config (rename r) = tg_config r \<and> tg_backend_type (rename r) = tg_backend_type r
           \<and> tg_id (rename r) = tg_id r" by (auto simp: rename_def split: option.splits)
  obtain pa s1 where pa: "(case ut_config dto of None \<Rightarrow> (Inr id, s)
      | Some frm \<Rightarrow> target_patch_config c f t frm s) = (pa, s1)" by fastforce
  have keep: "targets s1 = targets s" "repositories s1 = repositories s"
    using pa target_patch_config_keeps by (auto split: option.splits)
  show ?thesis
  proof (cases pa)
    case (Inl e)
    then have "res = Inl e" "s' = s1"
      using assms t pa
      by (simp_all add: target_update_def getRow_def rename_def [symmetric] Let_def)
    with keep unchanged show ?thesis by simp
  next
    case (Inr p)
    then have "s' = s1\<lparr>targets := update_where (\<lambda>r. tg_id r = i) (p \<circ> rename) (targets s1)\<rparr>"
      using assms t pa
      by (simp add: target_update_def getRow_def rename_def [symmetric] Let_def)
    moreover have "p = id \<or> (\<exists>frm. target_patch_config c f t frm s = (Inr p, s1))"
      using pa Inr by (auto split: option.splits)
    ultimately show ?thesis using patched t rn keep acl_assert_iff by simp
  qed
qed

definition target_ids_unique :: "server \<Rightarrow> bool" where
  "target_ids_unique s \<longleftrightarrow> distinct (trow.keys (targets s))"

lemma patched_row_safe:
  assumes "p = id \<or> (\<exists>frm. target_patch_config c f t frm s = (Inr p, s1))"
    "tg_backend_type t = ''sftp'' \<longrightarrow> assertSafeSftpConfig (tg_config t) = Inr ()"
    "tg_config r = tg_config t" "tg_backend_type r = tg_backend_type t"
    "tg_backend_type (p r) = ''sftp''"
  shows "assertSafeSftpConfig (tg_config (p r)) = Inr ()"
  using assms(1)
proof
  assume "p = id"
  with assms show ?thesis by simp
next
  assume "\<exists>frm. target_patch_config c f t frm s = (Inr p, s1)"
  then obtain frm where p: "target_patch_config c f t frm s = (Inr p, s1)" by blast
  then have "tg_backend_type t = ''sftp''" using assms(4,5) target_patch_config_type by metis
  then show ?thesis using target_patch_config_ok [OF p] by simp
qed

lemma sftp_safe_update:
  assumes "sftp_targets_safe s" "target_ids_unique s"
  shows "sftp_targets_safe (snd (target_update c f u i dto s))"
proof -
  obtain res s' where e: "target_update c f u i dto s = (res, s')" by fastforce
  then show ?thesis
  proof (cases rule: target_update_state)
    case unchanged
    with assms e show ?thesis by (simp add: sftp_targets_safe_def)
  next
    case (patched t p rename s1)
    have row: "r = t" if "r \<in> set (targets s)" "tg_id r = i" for r
      using that assms(2) patched(2) trow.by_key_unique [of "targets s" r]
      by (simp add: target_ids_unique_def target_by_id_key)
    have t: "t \<in> set (targets s)"
      using patched(2) trow.by_key_in [of i "targets s" t] by (simp add: target_by_id_key)
    with assms(1) have ts: "tg_backend_type t = ''sftp'' \<longrightarrow> assertSafeSftpConfig (tg_config t) = Inr ()"
      by (simp add: sftp_targets_safe_def)
    have "assertSafeSftpConfig (tg_config (p (rename t))) = Inr ()"
      if "tg_backend_type (p (rename t)) = ''sftp''"
      by (rule patched_row_safe [OF patched(3) ts]) (use patched(4) that in auto)
    then show ?thesis
      using assms(1) row e patched(5) by (auto simp: sftp_targets_safe_def set_update_where)
  qed
qed

lemma sftp_safe_remove: "sftp_targets_safe s \<Longrightarrow> sftp_targets_safe (snd (target_remove u i s))"
  by (auto simp: target_remove_def sftp_targets_safe_def secret_remove_def Let_def set_delete_where
      split: sum.splits option.splits)

section \<open>Connections in use stay\<close>

text \<open>The foreign key from repositories to targets.\<close>

definition targets_exist :: "server \<Rightarrow> bool" where
  "targets_exist s \<longleftrightarrow>
     (\<forall>r \<in> set (repositories s). \<forall>i. re_target_id r = Some i \<longrightarrow> (\<exists>t \<in> set (targets s). tg_id t = i))"

lemma target_remove_keeps_used:
  assumes "targets_exist s"
  shows "targets_exist (snd (target_remove u i s))"
proof (cases "\<exists>r \<in> set (repositories s). re_target_id r = Some i")
  case True
  with assms show ?thesis by (auto simp: target_remove_def split: sum.splits)
next
  case False
  then have *: "targets_exist s'"
    if "repositories s' = repositories s" "targets s' = delete_where (\<lambda>r. tg_id r = i) (targets s)" for s'
    using assms that unfolding targets_exist_def by (fastforce simp: set_delete_where)
  from assms show ?thesis
    by (auto simp: target_remove_def secret_remove_def Let_def intro!: * split: sum.splits option.splits)
qed

lemma target_remove_unused_only:
  assumes "target_remove u i s = (Inr (), s')"
  shows "can s u RtTarget i AlManage" "\<forall>r \<in> set (repositories s). re_target_id r \<noteq> Some i"
    "target_by_id i s' = None"
proof -
  show "can s u RtTarget i AlManage" "\<forall>r \<in> set (repositories s). re_target_id r \<noteq> Some i"
    using assms acl_assert_iff
    by (auto simp: target_remove_def Let_def split: sum.splits if_splits option.splits)
  have "targets s' = delete_where (\<lambda>r. tg_id r = i) (targets s)"
    using assms
    by (auto simp: target_remove_def secret_remove_def Let_def split: sum.splits if_splits option.splits)
  then show "target_by_id i s' = None"
    by (simp add: target_by_id_def select_first_None set_delete_where)
qed

section \<open>Theorems\<close>

definition sample_target :: target where
  "sample_target =
     \<lparr>tg_id = ''t1'', tg_name = ''NAS'', tg_slug = ''nas'', tg_backend_type = ''sftp'',
      tg_config = [(''host'', JStr ''nas''), (''user'', JStr ''bk'')], tg_credential_secret_id = None,
      tg_owner_id = ''u1'', tg_status = TsUnknown, tg_last_check_at = None, tg_last_check_error = None\<rparr>"

definition connected_server :: server where
  "connected_server = (sample_server [])\<lparr>targets := [sample_target],
     repositories := [sample_repository\<lparr>re_target_id := Some ''t1''\<rparr>]\<rparr>"

lemma connected_server_ok:
  "sftp_targets_safe connected_server" "target_ids_unique connected_server" "targets_exist connected_server"
  by (simp_all add: connected_server_def sftp_targets_safe_def target_ids_unique_def targets_exist_def
      sample_target_def assertSafeSftpConfig_def SFTP_HOST_RE_def SFTP_USER_RE_def str_field_def str_def
      is_alnum_def sftp_token_char_def sample_server_def sample_repository_def trow.keys_def)

definition sample_connection :: create_target where
  "sample_connection = \<lparr>ct_name = ''cloud'', ct_backend_type = ''rest'',
     ct_config = [(''url'', JStr ''h''), (''username'', JStr ''u''), (''password'', JStr ''x'')]\<rparr>"

definition sample_fresh :: fresh where
  "sample_fresh = \<lparr>fr_row_id = ''t2'', fr_secret_id = ''s2'', fr_grant_id = ''g2'', fr_iv = ''iv'',
     fr_private_key = ''priv'', fr_public_key = ''pub''\<rparr>"

text \<open>
  C33: A connection that was created is usable: resolving a repository on it assembles the
  backend from exactly the values and credentials of the request (plus the generated key
  pair of an SFTP connection), although the credentials were stored encrypted.
\<close>

theorem created_connection_resolves:
  assumes "gcm_correct c" "target_by_id (fr_row_id f) s = None"
    "secret_by_id (fr_secret_id f) s = None" "fr_secret_id f \<noteq> []"
    "target_create c f u dto s = (Inr row, s')"
    "splitConfig (ct_backend_type dto) (ct_config dto) ScopeTarget = Inr (config, credentials)"
    "reveal c s' pwid = Inr pw"
  shows "resolveRepo c s' (Some (tg_id row)) rc pwid None =
    assemble (ct_backend_type dto) (config @ key_config (ct_backend_type dto) f)
      (credentials @ key_credentials (ct_backend_type dto) f) rc pw (fr_row_id f) []"
  using assms by (rule created_target_resolves)

theorem created_connection_resolves_witness:
  "\<exists>row s'. target_create sample_crypto sample_fresh (sample_user True) sample_connection
        (snd (secret_create sample_crypto ''s1'' ''iv'' StRepoPassword (PText ''pw'') connected_server)) = (Inr row, s') \<and>
     resolveRepo sample_crypto s' (Some (tg_id row)) [] ''s1'' None =
       assemble ''rest'' [(''url'', JStr ''h'')] [(''username'', ''u''), (''password'', ''x'')] [] (PText ''pw'') ''t2'' []"
proof -
  let ?s = "snd (secret_create sample_crypto ''s1'' ''iv'' StRepoPassword (PText ''pw'') connected_server)"
  have sp: "splitConfig ''rest'' (ct_config sample_connection) ScopeTarget =
      Inr ([(''url'', JStr ''h'')], [(''username'', ''u''), (''password'', ''x'')])"
    by (simp add: sample_connection_def splitConfig_def getBackend_def BACKENDS_def mk_backend_def
        select_first_def split_step_def tfield_def ofield_def jfield_def field_scope_of_def)
  obtain row s' where c: "target_create sample_crypto sample_fresh (sample_user True) sample_connection ?s = (Inr row, s')"
    using sp by (cases "store_credentials sample_crypto sample_fresh [(''username'', ''u''), (''password'', ''x'')] ?s")
      (simp add: target_create_def sample_connection_def check_sftp_def Let_def)
  have d: "target_by_id ''t2'' ?s = None" "secret_by_id ''s2'' ?s = None"
    by (simp_all add: target_by_id_def secret_by_id_def select_first_def secret_create_def connected_server_def
        sample_target_def sample_server_def empty_server_def insert_row_def Let_def)
  have "reveal sample_crypto ?s ''s1'' = Inr (PText ''pw'')"
    by (rule reveal_after_create)
      (simp_all add: sample_crypto_laws secret_by_id_def select_first_def connected_server_def sample_server_def empty_server_def)
  moreover have "secrets s' = secrets (snd (store_credentials sample_crypto sample_fresh
      [(''username'', ''u''), (''password'', ''x'')] ?s))"
    by (rule target_create_ok [OF c]) (use sp in \<open>auto simp: sample_connection_def key_credentials_def\<close>)
  ultimately have pw: "reveal sample_crypto s' ''s1'' = Inr (PText ''pw'')"
    by (simp add: reveal_def secret_by_id_def store_credentials_simps secret_create_def Let_def insert_row_def
        select_first_def sample_fresh_def connected_server_def sample_server_def empty_server_def)
  have "resolveRepo sample_crypto s' (Some (tg_id row)) [] ''s1'' None =
       assemble ''rest'' [(''url'', JStr ''h'')] [(''username'', ''u''), (''password'', ''x'')] [] (PText ''pw'') ''t2'' []"
    using created_connection_resolves [OF sample_crypto_laws(1) _ _ _ c _ pw] d sp
    by (simp add: sample_fresh_def sample_connection_def key_config_def key_credentials_def)
  with c show ?thesis by blast
qed

text \<open>
  No request sequence can leave an unsafe SFTP connection behind: creating, editing and
  removing connections keeps every stored SFTP host, user and port within the safe alphabet.
\<close>

theorem sftp_connections_stay_safe:
  assumes "sftp_targets_safe s" "target_ids_unique s"
  shows "sftp_targets_safe (snd (target_create c f u dto s)) \<and>
    sftp_targets_safe (snd (target_update c f u i dto' s)) \<and>
    sftp_targets_safe (snd (target_remove u i s))"
  using assms by (simp add: sftp_safe_create sftp_safe_update sftp_safe_remove)

theorem sftp_connections_stay_safe_witness:
  "sftp_targets_safe (snd (target_create sample_crypto sample_fresh (sample_user True) sample_connection connected_server))"
  using sftp_connections_stay_safe [OF connected_server_ok(1,2)] by blast

text \<open>
  A connection can be removed only by someone who manages it and only while no
  repository uses it, so every repository's connection keeps existing.
\<close>

theorem connection_removal_safe:
  assumes "targets_exist s" "target_remove u i s = (res, s')"
  shows "targets_exist s' \<and>
    (res = Inr () \<longrightarrow> can s u RtTarget i AlManage \<and>
       (\<forall>r \<in> set (repositories s). re_target_id r \<noteq> Some i) \<and> target_by_id i s' = None)"
  using target_remove_keeps_used [OF assms(1), of u i] target_remove_unused_only assms(2) by fastforce

theorem connection_removal_safe_witness:
  "targets_exist (snd (target_remove (sample_user True) ''t1'' connected_server)) \<and>
   fst (target_remove (sample_user True) ''t1'' connected_server) \<noteq> Inr ()"
proof -
  obtain res s' where r: "target_remove (sample_user True) ''t1'' connected_server = (res, s')" by fastforce
  have "\<exists>r \<in> set (repositories connected_server). re_target_id r = Some ''t1''"
    by (simp add: connected_server_def)
  with connection_removal_safe [OF connected_server_ok(3) r] r show ?thesis by auto
qed

end
