(* ===== verification/Channels.thy ===== *)
theory Channels
  imports Targets
begin

text \<open>
  The registry of notification providers, \<open>server/src/notifications/channel-registry.ts\<close>:
  field schemas, the split of a form into configuration and secrets, the escaping functions,
  and the request each provider sends for a message, as the value \<open>outgoing\<close> (the network
  call itself is outside the model). The e-mail's HTML rendering is not modelled: the e-mail
  request carries the message it is rendered from.
  The lemmas show that escaping leaves no markup character, so that job names and error
  texts cannot inject links into a Slack message.
\<close>

section \<open>Escaping\<close>

definition escape_with :: "(char \<Rightarrow> string option) \<Rightarrow> string \<Rightarrow> string" where
  "escape_with f s = concat (map (\<lambda>c. case f c of None \<Rightarrow> [c] | Some t \<Rightarrow> t) s)"

text \<open>
  The sources chain one global replacement per character, ampersand first; since no
  replacement text contains a character replaced later, that is one pass over the string
  (lemma \<open>slackEscape_chain\<close>).
\<close>

definition replace_char :: "char \<Rightarrow> string \<Rightarrow> string \<Rightarrow> string" where
  "replace_char c t s = escape_with (\<lambda>d. if d = c then Some t else None) s"

definition slackEscape :: "string \<Rightarrow> string" where
  "slackEscape s =
     replace_char CHR ''>'' ''&gt;'' (replace_char CHR ''<'' ''&lt;'' (replace_char CHR ''&'' ''&amp;'' s))"

definition escapeHtml :: "string \<Rightarrow> string" where
  "escapeHtml s =
     replace_char CHR 0x22 ''&quot;''
       (replace_char CHR ''>'' ''&gt;'' (replace_char CHR ''<'' ''&lt;'' (replace_char CHR ''&'' ''&amp;'' s)))"

section \<open>Schema\<close>

record channel_field =
  chf_name :: string
  chf_required :: bool
  chf_secret :: bool

text \<open>What a provider sends: an HTTP POST of a JSON body, or an e-mail.\<close>

datatype outgoing =
    HttpPost string json "(string \<times> string) list"
  | SmtpMail string nat string "(string \<times> string) option" string string notification_message

record channel_definition =
  cd_type :: string
  cd_fields :: "channel_field list"
  cd_send :: "form \<Rightarrow> creds \<Rightarrow> notification_message \<Rightarrow> outgoing"

definition nl :: string where
  "nl = [CHR 0x0A]"

definition show_success :: "bool \<Rightarrow> string" where
  "show_success b = (if b then ''success'' else ''failed'')"

text \<open>
  \<open>Number(s) || 587\<close> for the port field: a decimal number, or the default for a blank or
  non-numeric entry. Fractional and hexadecimal entries are not distinguished from those.
\<close>

definition smtp_port :: "string \<Rightarrow> nat" where
  "smtp_port s =
     (let t = trim s in
      if t \<noteq> [] \<and> list_all is_digit t \<and> digits_value t \<noteq> 0 then digits_value t else 587)"

definition send_email :: "form \<Rightarrow> creds \<Rightarrow> notification_message \<Rightarrow> outgoing" where
  "send_email config sec m =
     SmtpMail (str_field config ''host'') (smtp_port (str_field config ''port''))
       (if str_field config ''security'' = [] then ''starttls'' else str_field config ''security'')
       (if cred sec ''username'' \<noteq> [] then Some (cred sec ''username'', cred sec ''password'') else None)
       (str_field config ''from'') (str_field config ''to'') m"

text \<open>\<open>undefined\<close> secrets render as the word in a template string.\<close>

definition secret_text :: "creds \<Rightarrow> string \<Rightarrow> string" where
  "secret_text sec n = (case map_of sec n of None \<Rightarrow> ''undefined'' | Some v \<Rightarrow> v)"

definition send_webhook :: "form \<Rightarrow> creds \<Rightarrow> notification_message \<Rightarrow> outgoing" where
  "send_webhook config sec m =
     (let name = str_field config ''headerName'' in
      HttpPost (secret_text sec ''url'')
        (JObj [(''status'', JStr (show_success (nm_success m))), (''title'', JStr (nm_title m)),
               (''text'', JStr (nm_body m)), (''job'', JStr (nm_job_name m)),
               (''url'', JStr (nm_url m))])
        (if name \<noteq> [] \<and> cred sec ''headerValue'' \<noteq> [] then [(name, cred sec ''headerValue'')] else []))"

definition send_slack :: "form \<Rightarrow> creds \<Rightarrow> notification_message \<Rightarrow> outgoing" where
  "send_slack config sec m =
     (let emoji = (if nm_success m then '':white_check_mark:'' else '':x:'') in
      HttpPost (secret_text sec ''webhookUrl'')
        (JObj [(''text'', JStr (emoji @ '' *'' @ slackEscape (nm_title m) @ ''*'' @ nl @
                                slackEscape (nm_body m) @ nl @ ''<'' @ nm_url m @
                                ''|Open Amber Backup>''))]) [])"

definition teams_row :: "bool \<Rightarrow> bool \<Rightarrow> string list \<Rightarrow> json" where
  "teams_row header is_total cells =
     JObj [(''type'', JStr ''ColumnSet''), (''separator'', JBool (\<not> header)),
           (''spacing'', JStr (if header then ''None'' else ''Small'')),
           (''columns'', JArr (map (\<lambda>(i, cell).
              JObj [(''type'', JStr ''Column''),
                    (''width'', JStr (if i = 0 then ''stretch'' else ''54px'')),
                    (''verticalContentAlignment'', JStr ''Center''),
                    (''items'', JArr [JObj
                       [(''type'', JStr ''TextBlock''), (''text'', JStr cell),
                        (''wrap'', JBool (i = 0)), (''spacing'', JStr ''None''),
                        (''horizontalAlignment'', JStr (if i = 0 then ''Left'' else ''Center'')),
                        (''weight'', JStr (if header \<or> is_total then ''Bolder'' else ''Default'')),
                        (''isSubtle'', JBool header)]])])
              (enumerate 0 cells)))]"

definition renderTeamsCard :: "notification_message \<Rightarrow> json" where
  "renderTeamsCard m =
     (let meta = or_empty (nm_meta m);
          head_block = [JObj [(''type'', JStr ''TextBlock''), (''text'', JStr (nm_title m)),
                              (''size'', JStr ''Large''), (''weight'', JStr ''Bolder''),
                              (''wrap'', JBool True),
                              (''color'', JStr (if nm_success m then ''Good'' else ''Attention''))]];
          facts = (if meta \<noteq> []
                   then [JObj [(''type'', JStr ''FactSet''), (''spacing'', JStr ''Small''),
                               (''facts'', JArr (map (\<lambda>(l, v). JObj [(''title'', JStr l),
                                                                     (''value'', JStr v)]) meta))]]
                   else []);
          tbl = (case nm_table m of
                   None \<Rightarrow> []
                 | Some t \<Rightarrow>
                     if mt_rows t = [] then []
                     else [JObj [(''type'', JStr ''Container''), (''spacing'', JStr ''Medium''),
                                 (''items'', JArr (teams_row True False (mt_head t)
                                    # map (teams_row False False) (mt_rows t)
                                    @ (case mt_foot t of None \<Rightarrow> []
                                       | Some ft \<Rightarrow> [teams_row False True ft])))]]);
          plain = (if meta = [] \<and> nm_table m = None
                   then [JObj [(''type'', JStr ''TextBlock''), (''text'', JStr (nm_body m)),
                               (''wrap'', JBool True)]]
                   else [])
      in JObj [(''type'', JStr ''message''),
               (''attachments'', JArr [JObj
                  [(''contentType'', JStr ''application/vnd.microsoft.card.adaptive''),
                   (''contentUrl'', JNull),
                   (''content'', JObj
                      [(''$schema'', JStr ''http://adaptivecards.io/schemas/adaptive-card.json''),
                       (''type'', JStr ''AdaptiveCard''), (''version'', JStr ''1.4''),
                       (''msteams'', JObj [(''width'', JStr ''Full'')]),
                       (''body'', JArr (head_block @ facts @ tbl @ plain)),
                       (''actions'', JArr [JObj
                          [(''type'', JStr ''Action.OpenUrl''),
                           (''title'', JStr ''Open Amber Backup''), (''url'', JStr (nm_url m))]])])]])])"

definition send_teams :: "form \<Rightarrow> creds \<Rightarrow> notification_message \<Rightarrow> outgoing" where
  "send_teams config sec m = HttpPost (secret_text sec ''webhookUrl'') (renderTeamsCard m) []"

text \<open>The colours \<open>4FB98A\<close> and \<open>E8756E\<close>, read as hexadecimal numbers.\<close>

definition send_discord :: "form \<Rightarrow> creds \<Rightarrow> notification_message \<Rightarrow> outgoing" where
  "send_discord config sec m =
     HttpPost (secret_text sec ''webhookUrl'')
       (JObj [(''allowed_mentions'', JObj [(''parse'', JArr [])]),
              (''embeds'', JArr [JObj
                 [(''title'', JStr (nm_title m)),
                  (''description'', JStr (nm_body m @ nl @ nl @ ''[Open Amber Backup]('' @ nm_url m @ '')'')),
                  (''color'', JNum (if nm_success m then 0x4FB98A else 0xE8756E))]])]) []"

definition send_telegram :: "form \<Rightarrow> creds \<Rightarrow> notification_message \<Rightarrow> outgoing" where
  "send_telegram config sec m =
     HttpPost (''https://api.telegram.org/bot'' @ secret_text sec ''botToken'' @ ''/sendMessage'')
       (JObj [(''chat_id'', JStr (str_field config ''chatId'')),
              (''text'', JStr (nm_title m @ nl @ nm_body m @ nl @ nm_url m)),
              (''disable_web_page_preview'', JBool True)]) []"

definition send_gotify :: "form \<Rightarrow> creds \<Rightarrow> notification_message \<Rightarrow> outgoing" where
  "send_gotify config sec m =
     HttpPost (strip_one_slash (str_field config ''serverUrl'') @ ''/message?token=''
               @ encodeURIComponent (secret_text sec ''appToken''))
       (JObj [(''title'', JStr (nm_title m)),
              (''message'', JStr (nm_body m @ nl @ nl @ nm_url m)),
              (''priority'', JNum (if nm_success m then 4 else 8))]) []"

definition send_ntfy :: "form \<Rightarrow> creds \<Rightarrow> notification_message \<Rightarrow> outgoing" where
  "send_ntfy config sec m =
     (let url = str_field config ''serverUrl'';
          base = strip_one_slash (if url = [] then ''https://ntfy.sh'' else url) in
      HttpPost (base @ ''/'')
        (JObj [(''topic'', JStr (str_field config ''topic'')), (''title'', JStr (nm_title m)),
               (''message'', JStr (nm_body m @ nl @ nl @ nm_url m)),
               (''priority'', JNum (if nm_success m then 3 else 5)),
               (''tags'', JArr [JStr (if nm_success m then ''white_check_mark'' else ''rotating_light'')]),
               (''click'', JStr (nm_url m))])
        (if cred sec ''accessToken'' \<noteq> []
         then [(''Authorization'', ''Bearer '' @ cred sec ''accessToken'')] else []))"

definition cfield :: "string \<Rightarrow> bool \<Rightarrow> bool \<Rightarrow> channel_field" where
  "cfield n req sec = \<lparr>chf_name = n, chf_required = req, chf_secret = sec\<rparr>"

definition CHANNELS :: "channel_definition list" where
  "CHANNELS =
     [\<lparr>cd_type = ''email'',
       cd_fields = [cfield ''host'' True False, cfield ''port'' True False,
                    cfield ''security'' False False, cfield ''from'' True False,
                    cfield ''to'' True False, cfield ''username'' False True,
                    cfield ''password'' False True],
       cd_send = send_email\<rparr>,
      \<lparr>cd_type = ''webhook'',
       cd_fields = [cfield ''url'' True True, cfield ''headerName'' False False,
                    cfield ''headerValue'' False True],
       cd_send = send_webhook\<rparr>,
      \<lparr>cd_type = ''slack'', cd_fields = [cfield ''webhookUrl'' True True], cd_send = send_slack\<rparr>,
      \<lparr>cd_type = ''teams'', cd_fields = [cfield ''webhookUrl'' True True], cd_send = send_teams\<rparr>,
      \<lparr>cd_type = ''discord'', cd_fields = [cfield ''webhookUrl'' True True], cd_send = send_discord\<rparr>,
      \<lparr>cd_type = ''telegram'',
       cd_fields = [cfield ''botToken'' True True, cfield ''chatId'' True False],
       cd_send = send_telegram\<rparr>,
      \<lparr>cd_type = ''gotify'',
       cd_fields = [cfield ''serverUrl'' True False, cfield ''appToken'' True True],
       cd_send = send_gotify\<rparr>,
      \<lparr>cd_type = ''ntfy'',
       cd_fields = [cfield ''serverUrl'' False False, cfield ''topic'' True False,
                    cfield ''accessToken'' False True],
       cd_send = send_ntfy\<rparr>]"

definition getChannel :: "string \<Rightarrow> channel_definition result" where
  "getChannel ty =
     (case find (\<lambda>c. cd_type c = ty) CHANNELS of
        None \<Rightarrow> Inl (PlainError (''Unknown notification channel type: '' @ ty))
      | Some d \<Rightarrow> Inr d)"

definition secretChannelFieldNames :: "string list" where
  "secretChannelFieldNames =
     rev (remdups (rev (concat (map (\<lambda>c. map chf_name (filter chf_secret (cd_fields c))) CHANNELS))))"

definition split_channel_step :: "form \<Rightarrow> channel_field \<Rightarrow> form \<times> creds \<Rightarrow> form \<times> creds" where
  "split_channel_step vals field acc =
     (case map_of vals (chf_name field) of
        None \<Rightarrow> acc
      | Some v \<Rightarrow>
          (if v = JStr [] then acc
           else if chf_secret field then (fst acc, snd acc @ [(chf_name field, js_string v)])
           else (fst acc @ [(chf_name field, v)], snd acc)))"

definition splitChannelConfig :: "string \<Rightarrow> form \<Rightarrow> (form \<times> creds) result" where
  "splitChannelConfig ty vals =
     (case getChannel ty of
        Inl e \<Rightarrow> Inl e
      | Inr def \<Rightarrow> Inr (fold (split_channel_step vals) (cd_fields def) ([], [])))"

section \<open>Escaping removes markup\<close>

lemma escape_with_simps [simp]:
  "escape_with f [] = []"
  "escape_with f (c # s) = (case f c of None \<Rightarrow> [c] | Some t \<Rightarrow> t) @ escape_with f s"
  by (simp_all add: escape_with_def)

lemma replace_char_append [simp]: "replace_char c t (a @ b) = replace_char c t a @ replace_char c t b"
  by (simp add: replace_char_def escape_with_def)

lemma replace_char_simps [simp]:
  "replace_char c t [] = []"
  "replace_char c t (d # s) = (if d = c then t else [d]) @ replace_char c t s"
  by (simp_all add: replace_char_def)

definition slack_reserved :: "char \<Rightarrow> string option" where
  "slack_reserved c =
     (if c = CHR ''&'' then Some ''&amp;'' else if c = CHR ''<'' then Some ''&lt;''
      else if c = CHR ''>'' then Some ''&gt;'' else None)"

lemma slackEscape_chain: "slackEscape s = escape_with slack_reserved s"
  by (induction s) (simp_all add: slackEscape_def slack_reserved_def)

lemma replace_char_gone: "c \<notin> set t \<Longrightarrow> c \<notin> set (replace_char c t s)"
  by (induction s) auto

lemma replace_char_absent: "d \<notin> set s \<Longrightarrow> d \<notin> set t \<Longrightarrow> d \<notin> set (replace_char c t s)"
  by (induction s) auto

lemma slackEscape_no_angle: "CHR ''<'' \<notin> set (slackEscape s)" "CHR ''>'' \<notin> set (slackEscape s)"
  by (simp_all add: slackEscape_def replace_char_gone replace_char_absent)

lemma escapeHtml_no_markup:
  "CHR ''<'' \<notin> set (escapeHtml s)" "CHR ''>'' \<notin> set (escapeHtml s)" "CHR 0x22 \<notin> set (escapeHtml s)"
  by (simp_all add: escapeHtml_def replace_char_gone replace_char_absent)

text \<open>Undoing the escape: every escaped text has one original.\<close>

lemma replace_amp_decode:
  "slackEscape (c # s) = (case slack_reserved c of None \<Rightarrow> [c] | Some t \<Rightarrow> t) @ slackEscape s"
  by (simp add: slackEscape_chain)

lemma slackEscape_inject: "slackEscape a = slackEscape b \<Longrightarrow> a = b"
proof (induction a arbitrary: b)
  case Nil
  then show ?case by (cases b) (auto simp: replace_amp_decode slack_reserved_def slackEscape_def split: if_splits)
next
  case (Cons c a)
  then obtain d b' where b: "b = d # b'"
    by (cases b) (auto simp: replace_amp_decode slack_reserved_def slackEscape_def split: if_splits)
  with Cons.prems have "c = d \<and> slackEscape a = slackEscape b'"
    by (auto simp: replace_amp_decode slack_reserved_def split: if_splits)
  with Cons.IH b show ?case by simp
qed

section \<open>Splitting a channel form\<close>

definition supplied :: "form \<Rightarrow> channel_field list \<Rightarrow> channel_field list" where
  "supplied vals fs = filter (\<lambda>f. \<exists>v. map_of vals (chf_name f) = Some v \<and> v \<noteq> JStr []) fs"

lemma fold_split_channel:
  "fold (split_channel_step vals) fs acc =
     (fst acc @ map (\<lambda>f. (chf_name f, the (map_of vals (chf_name f))))
                  (filter (\<lambda>f. \<not> chf_secret f) (supplied vals fs)),
      snd acc @ map (\<lambda>f. (chf_name f, js_string (the (map_of vals (chf_name f)))))
                  (filter chf_secret (supplied vals fs)))"
proof (induction fs arbitrary: acc)
  case Nil
  then show ?case by (simp add: supplied_def)
next
  case (Cons f fs)
  show ?case
    by (simp add: Cons.IH) (auto simp: split_channel_step_def supplied_def split: option.splits)
qed

section \<open>Theorems\<close>

text \<open>
  Text put into a Slack message cannot start a link or a mention: the escaped text has no
  angle bracket left, and nothing is lost, since different texts stay different.
\<close>

theorem slack_text_inert:
  "CHR ''<'' \<notin> set (slackEscape s) \<and> CHR ''>'' \<notin> set (slackEscape s) \<and> inj slackEscape"
  using slackEscape_no_angle slackEscape_inject by (auto intro: injI)

end
