(* ===== verification/Notifications.thy ===== *)
theory Notifications
  imports Channels "HOL-Library.AList"
begin

text \<open>
  \<open>server/src/notifications/notifications.service.ts\<close>: channels and the messages a finished
  run produces. A delivery that reaches the provider's \<open>send\<close> is an entry of \<open>outbox\<close>;
  whether the provider then answers does not change the server's state. The lemmas say for
  which runs a message leaves the server, to whom, and how often.
\<close>

section \<open>Channels\<close>

record create_channel =
  cc_name :: string
  cc_type :: string
  cc_config :: form
  cc_enabled :: "bool option"

record update_channel =
  uc_name :: "string option"
  uc_enabled :: "bool option"
  uc_config :: "form option"

definition channel_toPublic :: "notification_channel \<Rightarrow> notification_channel" where
  "channel_toPublic c = c\<lparr>ch_secret_id := None\<rparr>"

definition channel_slugs :: "server \<Rightarrow> (uuid \<times> string) list" where
  "channel_slugs s = map (\<lambda>c. (ch_id c, ch_slug c)) (notification_channels s)"

definition channel_getRow :: "server \<Rightarrow> uuid \<Rightarrow> notification_channel result" where
  "channel_getRow s i =
     (case select_first (\<lambda>c. ch_id c = i) (notification_channels s) of
        None \<Rightarrow> Inl (NotFound ''Notification channel not found'')
      | Some c \<Rightarrow> Inr c)"

definition revealSecrets :: "crypto \<Rightarrow> server \<Rightarrow> notification_channel \<Rightarrow> creds result" where
  "revealSecrets c s ch = revealCredentials c s (ch_secret_id ch)"

definition store_channel_secrets ::
  "crypto \<Rightarrow> fresh \<Rightarrow> creds \<Rightarrow> server \<Rightarrow> uuid option \<times> server" where
  "store_channel_secrets c f cs s =
     (if cs \<noteq> []
      then (let (i, s') = secret_create c (fr_secret_id f) (fr_iv f) StNotificationCredential (PJson cs) s
            in (Some i, s'))
      else (None, s))"

definition channel_create ::
  "crypto \<Rightarrow> fresh \<Rightarrow> request_user \<Rightarrow> create_channel \<Rightarrow> notification_channel handler" where
  "channel_create c f u dto s =
     (case splitChannelConfig (cc_type dto) (cc_config dto) of
        Inl e \<Rightarrow> (Inl e, s)
      | Inr (config, sec) \<Rightarrow>
          (let (sid, s1) = store_channel_secrets c f sec s;
               row = \<lparr>ch_id = fr_row_id f, ch_name = cc_name dto,
                      ch_slug = uniqueSlug (channel_slugs s1) (cc_name dto) None,
                      ch_type = cc_type dto, ch_config = config, ch_secret_id = sid,
                      ch_enabled = (case cc_enabled dto of None \<Rightarrow> True | Some b \<Rightarrow> b),
                      ch_owner_id = ru_id u\<rparr>
           in (Inr (channel_toPublic row),
               s1\<lparr>notification_channels := insert_row row (notification_channels s1)\<rparr>)))"

text \<open>\<open>dto.config\<close>: both halves are merged over what is stored.\<close>

definition channel_patch_config ::
  "crypto \<Rightarrow> fresh \<Rightarrow> notification_channel \<Rightarrow> form
   \<Rightarrow> (notification_channel \<Rightarrow> notification_channel) handler" where
  "channel_patch_config c f ch frm s =
     (case splitChannelConfig (ch_type ch) frm of
        Inl e \<Rightarrow> (Inl e, s)
      | Inr (config, sec) \<Rightarrow>
          (let merged_config = AList.merge (ch_config ch) config
           in if sec = [] then (Inr (ch_config_update (\<lambda>_. merged_config)), s)
              else case revealSecrets c s ch of
                     Inl e \<Rightarrow> (Inl e, s)
                   | Inr old \<Rightarrow>
                       (let merged = AList.merge old sec in
                        case ch_secret_id ch of
                          Some i \<Rightarrow> (Inr (ch_config_update (\<lambda>_. merged_config)),
                                     secret_update c (fr_iv f) i (PJson merged) s)
                        | None \<Rightarrow>
                            (let (sid, s1) = store_channel_secrets c f merged s
                             in (Inr (\<lambda>r. r\<lparr>ch_config := merged_config, ch_secret_id := sid\<rparr>), s1)))))"

definition channel_update ::
  "crypto \<Rightarrow> fresh \<Rightarrow> uuid \<Rightarrow> update_channel \<Rightarrow> notification_channel handler" where
  "channel_update c f i dto s =
     (case channel_getRow s i of
        Inl e \<Rightarrow> (Inl e, s)
      | Inr ch \<Rightarrow>
          (let rename = (case uc_name dto of
                  None \<Rightarrow> id
                | Some n \<Rightarrow> (\<lambda>r. r\<lparr>ch_name := n, ch_slug := uniqueSlug (channel_slugs s) n (Some i)\<rparr>));
               enable = (case uc_enabled dto of None \<Rightarrow> id | Some b \<Rightarrow> ch_enabled_update (\<lambda>_. b));
               (patched, s1) = (case uc_config dto of
                  None \<Rightarrow> (Inr id, s)
                | Some frm \<Rightarrow> channel_patch_config c f ch frm s)
           in case patched of
                Inl e \<Rightarrow> (Inl e, s1)
              | Inr p \<Rightarrow>
                  (Inr (channel_toPublic (p (enable (rename ch)))),
                   s1\<lparr>notification_channels :=
                        update_where (\<lambda>r. ch_id r = i) (p \<circ> enable \<circ> rename)
                          (notification_channels s1)\<rparr>)))"

definition pruneChannelFromJobs :: "uuid \<Rightarrow> server \<Rightarrow> server" where
  "pruneChannelFromJobs i s =
     s\<lparr>backup_jobs :=
         update_where (\<lambda>j. i \<in> set (nc_channel_ids (bj_notify j)))
           (\<lambda>j. j\<lparr>bj_notify := (bj_notify j)\<lparr>nc_channel_ids :=
                     filter (\<lambda>x. x \<noteq> i) (nc_channel_ids (bj_notify j))\<rparr>\<rparr>)
           (backup_jobs s)\<rparr>"

definition channel_remove :: "uuid \<Rightarrow> unit handler" where
  "channel_remove i s =
     (case channel_getRow s i of
        Inl e \<Rightarrow> (Inl e, s)
      | Inr ch \<Rightarrow>
          (let s1 = s\<lparr>notification_channels :=
                        delete_where (\<lambda>r. ch_id r = i) (notification_channels s)\<rparr>;
               s2 = (case ch_secret_id ch of None \<Rightarrow> s1 | Some sid \<Rightarrow> secret_remove sid s1)
           in (Inr (), pruneChannelFromJobs i s2)))"

section \<open>Messages\<close>

definition emoji_ok :: string where
  "emoji_ok = [CHR 0xE2, CHR 0x9C, CHR 0x85]"

definition emoji_fail :: string where
  "emoji_fail = [CHR 0xE2, CHR 0x9D, CHR 0x8C]"

definition emoji_alarm :: string where
  "emoji_alarm = [CHR 0xF0, CHR 0x9F, CHR 0x9A, CHR 0xA8]"

definition base_url :: "config \<Rightarrow> string" where
  "base_url cfg = strip_one_slash (cf_public_base_url cfg)"

definition render_meta :: "(string \<times> string) list \<Rightarrow> string" where
  "render_meta meta = join_with nl (map (\<lambda>(l, v). l @ '': '' @ v) meta)"

text \<open>\<open>Math.max(0, Math.round((finished - started) / 1000))\<close>\<close>

definition duration_meta :: "time option \<Rightarrow> time option \<Rightarrow> (string \<times> string) list" where
  "duration_meta started finished =
     (case (started, finished) of
        (Some a, Some b) \<Rightarrow> [(''Duration'', show_int (max 0 ((b - a + 500) div 1000)) @ ''s'')]
      | _ \<Rightarrow> [])"

definition error_meta :: "bool \<Rightarrow> string option \<Rightarrow> (string \<times> string) list" where
  "error_meta ok err =
     (if ok then [] else case err of None \<Rightarrow> [] | Some e \<Rightarrow> if e = [] then [] else [(''Error'', e)])"

definition buildMessage :: "config \<Rightarrow> bool \<Rightarrow> string \<Rightarrow> string option \<Rightarrow> string option \<Rightarrow>
    time option \<Rightarrow> time option \<Rightarrow> nat \<Rightarrow> notification_message" where
  "buildMessage cfg ok jobName snapshotId err started finished attempt =
     (let meta = [(''Job'', jobName), (''Status'', if ok then ''Success'' else ''Failed'')]
            @ duration_meta started finished
            @ (case snapshotId of
                 None \<Rightarrow> []
               | Some i \<Rightarrow> if ok \<and> i \<noteq> [] then [(''Snapshot'', take 8 i)] else [])
            @ (if attempt > 1 then [(''Attempts'', show_nat attempt)] else [])
            @ error_meta ok err
      in \<lparr>nm_success = ok,
          nm_title = (if ok then emoji_ok else emoji_fail) @ '' Backup ''
            @ (if ok then ''succeeded'' else ''failed'') @ '': '' @ jobName,
          nm_body = render_meta meta, nm_job_name = jobName,
          nm_url = base_url cfg @ ''/#/jobs'', nm_meta = Some meta, nm_table = None\<rparr>)"

definition show_part :: "nat option \<Rightarrow> string" where
  "show_part p = (case p of None \<Rightarrow> ''undefined'' | Some n \<Rightarrow> show_nat n)"

definition level_label :: "check_info option \<Rightarrow> string" where
  "level_label info =
     (case map_option ci_level info of
        Some LvFull \<Rightarrow> ''Full (all data read)''
      | Some LvRotating \<Rightarrow> ''Rotating (data part '' @ show_part (ci_part (the info)) @ ''/''
                             @ show_part (ci_parts (the info)) @ '')''
      | _ \<Rightarrow> ''Quick (structure only)'')"

definition info_damaged :: "check_info option \<Rightarrow> bool" where
  "info_damaged info = (case info of None \<Rightarrow> False | Some i \<Rightarrow> ci_damaged i = Some True)"

definition buildCheckMessage :: "config \<Rightarrow> bool \<Rightarrow> string \<Rightarrow> check_info option \<Rightarrow> string option \<Rightarrow>
    time option \<Rightarrow> time option \<Rightarrow> notification_message" where
  "buildCheckMessage cfg ok jobName info err started finished =
     (let damaged = \<not> ok \<and> info_damaged info;
          meta = [(''Job'', jobName),
                  (''Result'', if ok then ''No errors found''
                               else if damaged then ''Repository damaged''
                               else ''Check could not complete''),
                  (''Level'', level_label info)]
            @ duration_meta started finished @ error_meta ok err;
          title = (if ok then emoji_ok @ '' Integrity check passed: ''
                   else if damaged then emoji_alarm @ '' Repository damaged: ''
                   else emoji_fail @ '' Integrity check failed: '') @ jobName
      in \<lparr>nm_success = ok, nm_title = title, nm_body = render_meta meta, nm_job_name = jobName,
          nm_url = base_url cfg @ ''/#/snapshots'', nm_meta = Some meta, nm_table = None\<rparr>)"

section \<open>Delivery\<close>

text \<open>\<open>deliver\<close> up to the provider's network call: the request it is asked to send.\<close>

definition deliver ::
  "crypto \<Rightarrow> server \<Rightarrow> notification_channel \<Rightarrow> notification_message \<Rightarrow> outgoing result" where
  "deliver c s ch m =
     (case getChannel (ch_type ch) of
        Inl e \<Rightarrow> Inl e
      | Inr def \<Rightarrow>
          (case revealSecrets c s ch of
             Inl e \<Rightarrow> Inl e
           | Inr sec \<Rightarrow> Inr (cd_send def (ch_config ch) sec m)))"

definition deliver_all ::
  "crypto \<Rightarrow> notification_channel list \<Rightarrow> notification_message \<Rightarrow> server \<Rightarrow> server" where
  "deliver_all c chs m s =
     s\<lparr>outbox := outbox s @
         map (\<lambda>ch. (ch_id ch, m)) (filter (\<lambda>ch. \<not> is_error (deliver c s ch m)) chs)\<rparr>"

definition sendToChannels ::
  "crypto \<Rightarrow> uuid list \<Rightarrow> notification_message \<Rightarrow> server \<Rightarrow> server" where
  "sendToChannels c ids m s =
     (if ids = [] then s
      else deliver_all c
             (select_where (\<lambda>ch. ch_id ch \<in> set ids \<and> ch_enabled ch) (notification_channels s)) m s)"

text \<open>The inner join of \<open>job_runs\<close> with \<open>backup_jobs\<close> that several services start from.\<close>

definition run_with_job :: "uuid \<Rightarrow> server \<Rightarrow> (job_run \<times> backup_job) option" where
  "run_with_job i s =
     (case job_run_by_id i s of
        None \<Rightarrow> None
      | Some r \<Rightarrow> map_option (Pair r) (backup_job_by_id (jr_job_id r) s))"

definition run_message :: "config \<Rightarrow> job_run \<Rightarrow> backup_job \<Rightarrow> notification_message" where
  "run_message cfg r j =
     (if jr_kind r = KCheck
      then buildCheckMessage cfg (jr_status r = Success) (bj_name j) (jr_check_info r) (jr_error r)
             (jr_started_at r) (jr_finished_at r)
      else buildMessage cfg (jr_status r = Success) (bj_name j) (jr_snapshot_id r) (jr_error r)
             (jr_started_at r) (jr_finished_at r) (jr_attempt r))"

definition notifyJobRun :: "crypto \<Rightarrow> config \<Rightarrow> uuid \<Rightarrow> server \<Rightarrow> server" where
  "notifyJobRun c cfg i s =
     (case run_with_job i s of
        None \<Rightarrow> s
      | Some (r, j) \<Rightarrow>
          (if jr_status r \<noteq> Success \<and> jr_status r \<noteq> Failed then s
           else let notify = bj_notify j;
                    wanted = (if jr_status r = Success then nc_on_success notify else nc_on_failure notify)
                in if \<not> wanted \<or> nc_channel_ids notify = [] then s
                   else let chs = select_where
                                    (\<lambda>ch. ch_id ch \<in> set (nc_channel_ids notify) \<and> ch_enabled ch)
                                    (notification_channels s)
                        in if chs = [] then s else deliver_all c chs (run_message cfg r j) s))"

section \<open>Who is told what\<close>

text \<open>The channels a run's message goes to: selected by the job, enabled, with usable secrets.\<close>

definition recipients :: "crypto \<Rightarrow> config \<Rightarrow> job_run \<Rightarrow> backup_job \<Rightarrow> server \<Rightarrow> uuid list" where
  "recipients c cfg r j s =
     (if jr_status r = Success \<and> nc_on_success (bj_notify j)
         \<or> jr_status r = Failed \<and> nc_on_failure (bj_notify j)
      then map ch_id
             (filter (\<lambda>ch. ch_id ch \<in> set (nc_channel_ids (bj_notify j)) \<and> ch_enabled ch
                       \<and> \<not> is_error (deliver c s ch (run_message cfg r j)))
                (notification_channels s))
      else [])"

lemma notifyJobRun_eq:
  "notifyJobRun c cfg i s =
     (case run_with_job i s of
        None \<Rightarrow> s
      | Some (r, j) \<Rightarrow>
          s\<lparr>outbox := outbox s @ map (\<lambda>ch. (ch, run_message cfg r j)) (recipients c cfg r j s)\<rparr>)"
proof (cases "run_with_job i s")
  case None
  then show ?thesis by (simp add: notifyJobRun_def)
next
  case (Some rj)
  obtain r j where rj: "rj = (r, j)" by (cases rj)
  show ?thesis
    using Some rj
    by (auto simp: notifyJobRun_def recipients_def deliver_all_def select_where_def Let_def
        filter_empty_conv conj_assoc intro!: server.equality)
qed

lemma notifyJobRun_only_outbox: "\<exists>ms. notifyJobRun c cfg i s = s\<lparr>outbox := outbox s @ ms\<rparr>"
  by (auto simp: notifyJobRun_eq split: option.splits intro: exI [of _ "[]"])

lemma notifyJobRun_tables [simp]:
  "job_runs (notifyJobRun c cfg i s) = job_runs s"
  "backup_jobs (notifyJobRun c cfg i s) = backup_jobs s"
  "background (notifyJobRun c cfg i s) = background s"
  "repositories (notifyJobRun c cfg i s) = repositories s"
  "job_running (notifyJobRun c cfg i s) = job_running s"
  "restore_runs (notifyJobRun c cfg i s) = restore_runs s"
  using notifyJobRun_only_outbox [of c cfg i s] by auto

lemma run_with_jobD:
  "run_with_job i s = Some (r, j) \<Longrightarrow>
     job_run_by_id i s = Some r \<and> backup_job_by_id (jr_job_id r) s = Some j \<and> jr_id r = i"
  by (auto simp: run_with_job_def job_run_by_id_key dest: jrow.by_key_in split: option.splits)

section \<open>Theorems\<close>

text \<open>
  Notifying about a run sends one message, built from the run and its job, to exactly the
  enabled channels the job lists whose delivery can be assembled, in the order of the channel
  table, when the job asks for messages about that outcome, and changes nothing else. A run
  that is not finished or was cancelled notifies nobody.
\<close>

theorem notification_recipients:
  "notifyJobRun c cfg i s =
     (case run_with_job i s of
        None \<Rightarrow> s
      | Some (r, j) \<Rightarrow>
          s\<lparr>outbox := outbox s @ map (\<lambda>ch. (ch, run_message cfg r j)) (recipients c cfg r j s)\<rparr>)"
  by (rule notifyJobRun_eq)

text \<open>
  Removing a channel leaves no trace of it: the row is gone and no job lists it any more,
  while every job keeps its other channels.
\<close>

theorem channel_removed_everywhere:
  assumes "channel_remove i s = (Inr (), s')"
  shows "(\<forall>ch \<in> set (notification_channels s'). ch_id ch \<noteq> i) \<and>
    map (nc_channel_ids \<circ> bj_notify) (backup_jobs s') =
    map (filter (\<lambda>x. x \<noteq> i) \<circ> nc_channel_ids \<circ> bj_notify) (backup_jobs s)"
proof -
  obtain ch where ch: "channel_getRow s i = Inr ch"
    using assms by (cases "channel_getRow s i") (auto simp: channel_remove_def)
  then have "notification_channels s' = delete_where (\<lambda>r. ch_id r = i) (notification_channels s)"
    "backup_jobs s' = backup_jobs (pruneChannelFromJobs i s)"
    using assms by (auto simp: channel_remove_def pruneChannelFromJobs_def secret_remove_def Let_def split: option.splits)
  moreover have "filter (\<lambda>x. x \<noteq> i) xs = xs" if "i \<notin> set xs" for xs
    using that by (simp add: filter_id_conv) blast
  ultimately show ?thesis
    by (simp add: pruneChannelFromJobs_def update_where_def set_delete_where)
qed

definition sample_channel :: notification_channel where
  "sample_channel = \<lparr>ch_id = ''c1'', ch_name = ''Ops'', ch_slug = ''ops'', ch_type = ''slack'', ch_config = [],
     ch_secret_id = None, ch_enabled = True, ch_owner_id = ''u1''\<rparr>"

theorem channel_removed_everywhere_witness:
  "map (nc_channel_ids \<circ> bj_notify)
     (backup_jobs (snd (channel_remove ''c1'' ((sample_server [])\<lparr>notification_channels := [sample_channel]\<rparr>)))) = [[]]"
proof -
  have "fst (channel_remove ''c1'' ((sample_server [])\<lparr>notification_channels := [sample_channel]\<rparr>)) = Inr ()"
    by (simp add: channel_remove_def channel_getRow_def select_first_def sample_channel_def Let_def)
  then show ?thesis
    using channel_removed_everywhere [of "''c1''" "(sample_server [])\<lparr>notification_channels := [sample_channel]\<rparr>"]
    by (simp add: prod_eq_iff sample_defs)
qed

end
