(* ===== verification/RunRetry.thy ===== *)
theory RunRetry
  imports Notifications
begin

text \<open>
  \<open>server/src/jobs/run-retry.service.ts\<close>: a failed backup is queued again while its job
  allows another attempt, every other outcome is notified. The lemmas give the exact
  condition of a retry, the new row, that a job's attempts are bounded by its setting, and
  that a run is notified exactly when no retry follows.
\<close>

definition DEFAULT_RETRY_DELAY_SECONDS :: nat where
  "DEFAULT_RETRY_DELAY_SECONDS = 300"

text \<open>A row of \<open>job_runs\<close> with the column defaults of the schema.\<close>

definition default_run :: "uuid \<Rightarrow> uuid \<Rightarrow> run_kind \<Rightarrow> run_trigger \<Rightarrow> run_status \<Rightarrow> time \<Rightarrow> job_run" where
  "default_run i job kind trig st now =
     \<lparr>jr_id = i, jr_job_id = job, jr_kind = kind, jr_parent_run_id = None, jr_check_info = None,
      jr_trigger = trig, jr_status = st, jr_attempt = 1, jr_retry_of_run_id = None,
      jr_not_before = None, jr_agent_id = None, jr_started_at = None, jr_finished_at = None,
      jr_snapshot_id = None, jr_stats = None, jr_forget_result = None, jr_log = None,
      jr_error = None, jr_created_at = now\<rparr>"

definition other_active_backup :: "server \<Rightarrow> uuid \<Rightarrow> uuid \<Rightarrow> bool" where
  "other_active_backup s job i =
     (select_first (\<lambda>r. jr_job_id r = job \<and> jr_kind r = KBackup \<and> active_status (jr_status r)
                        \<and> jr_id r \<noteq> i) (job_runs s) \<noteq> None)"

definition retry_row :: "time \<Rightarrow> uuid \<Rightarrow> job_run \<Rightarrow> backup_job \<Rightarrow> job_run" where
  "retry_row now new_id r j =
     (default_run new_id (jr_job_id r) KBackup (jr_trigger r) Queued now)
       \<lparr>jr_attempt := jr_attempt r + 1, jr_retry_of_run_id := Some (jr_id r),
        jr_not_before := Some (now + int (bj_retry_delay_seconds j) * 1000)\<rparr>"

definition scheduleRetry :: "time \<Rightarrow> uuid \<Rightarrow> uuid \<Rightarrow> server \<Rightarrow> uuid option \<times> server" where
  "scheduleRetry now new_id i s =
     (case run_with_job i s of
        None \<Rightarrow> (None, s)
      | Some (r, j) \<Rightarrow>
          (if jr_kind r \<noteq> KBackup \<or> jr_status r \<noteq> Failed then (None, s)
           else if jr_attempt r > bj_retry_max j then (None, s)
           else if other_active_backup s (jr_job_id r) i then (None, s)
           else (Some new_id, s\<lparr>job_runs := insert_row (retry_row now new_id r j) (job_runs s)\<rparr>)))"

definition finalize :: "crypto \<Rightarrow> config \<Rightarrow> time \<Rightarrow> uuid \<Rightarrow> uuid \<Rightarrow> server \<Rightarrow> server" where
  "finalize c cfg now new_id i s =
     (case scheduleRetry now new_id i s of
        (Some _, s') \<Rightarrow> s'
      | (None, s') \<Rightarrow> notifyJobRun c cfg i s')"

section \<open>When a retry follows\<close>

definition retry_due :: "server \<Rightarrow> uuid \<Rightarrow> bool" where
  "retry_due s i \<longleftrightarrow>
     (\<exists>r j. run_with_job i s = Some (r, j) \<and> jr_kind r = KBackup \<and> jr_status r = Failed \<and>
        jr_attempt r \<le> bj_retry_max j \<and>
        (\<forall>q \<in> set (job_runs s). jr_job_id q = jr_job_id r \<and> jr_kind q = KBackup \<and>
            active_status (jr_status q) \<longrightarrow> jr_id q = i))"

lemma other_active_backup_iff:
  "other_active_backup s job i \<longleftrightarrow>
     (\<exists>q \<in> set (job_runs s). jr_job_id q = job \<and> jr_kind q = KBackup \<and>
        active_status (jr_status q) \<and> jr_id q \<noteq> i)"
  by (auto simp: other_active_backup_def select_first_None)

lemma scheduleRetry_cases:
  obtains (retry) r j where "retry_due s i" "run_with_job i s = Some (r, j)"
      "scheduleRetry now new_id i s =
         (Some new_id, s\<lparr>job_runs := insert_row (retry_row now new_id r j) (job_runs s)\<rparr>)"
  | (none) "\<not> retry_due s i" "scheduleRetry now new_id i s = (None, s)"
proof (cases "retry_due s i")
  case True
  then obtain r j where rj: "run_with_job i s = Some (r, j)" "jr_kind r = KBackup"
    "jr_status r = Failed" "jr_attempt r \<le> bj_retry_max j"
    "\<not> other_active_backup s (jr_job_id r) i"
    unfolding retry_due_def other_active_backup_iff by blast
  then show ?thesis using retry True by (simp add: scheduleRetry_def)
next
  case False
  then have "scheduleRetry now new_id i s = (None, s)"
    unfolding scheduleRetry_def retry_due_def other_active_backup_iff
    by (auto split: option.splits)
  with none False show ?thesis by blast
qed

lemma scheduleRetry_iff: "fst (scheduleRetry now new_id i s) \<noteq> None \<longleftrightarrow> retry_due s i"
  by (rule scheduleRetry_cases [of s i now new_id]) simp_all

lemma scheduleRetry_only_runs:
  "snd (scheduleRetry now new_id i s) =
     s\<lparr>job_runs := job_runs (snd (scheduleRetry now new_id i s))\<rparr>"
  by (rule scheduleRetry_cases [of s i now new_id]) simp_all

lemma finalize_retry:
  assumes "retry_due s i"
  shows "finalize c cfg now new_id i s = snd (scheduleRetry now new_id i s)"
  by (rule scheduleRetry_cases [of s i now new_id]) (use assms in \<open>simp_all add: finalize_def\<close>)

lemma finalize_notify:
  assumes "\<not> retry_due s i"
  shows "finalize c cfg now new_id i s = notifyJobRun c cfg i s"
  by (rule scheduleRetry_cases [of s i now new_id]) (use assms in \<open>simp_all add: finalize_def\<close>)

lemma finalize_cases:
  obtains (retry) r j where "retry_due s i" "run_with_job i s = Some (r, j)"
      "finalize c cfg now new_id i s = s\<lparr>job_runs := insert_row (retry_row now new_id r j) (job_runs s)\<rparr>"
  | (notify) "\<not> retry_due s i" "finalize c cfg now new_id i s = notifyJobRun c cfg i s"
proof (cases "retry_due s i")
  case True
  show ?thesis
  proof (cases rule: scheduleRetry_cases [of s i now new_id])
    case (retry r j)
    then show ?thesis using that(1) [OF True] finalize_retry [OF True] by simp
  qed (use True in simp)
next
  case False
  then show ?thesis by (intro that(2)) (simp_all add: finalize_notify)
qed

section \<open>Retries come to an end\<close>

text \<open>
  The worst case for a job: the retry is started and fails again, and is finalised again.
  \<open>fail_again\<close> is that step on a run; it is repeated as long as a retry is queued.
\<close>

definition fail_run :: "time \<Rightarrow> uuid \<Rightarrow> server \<Rightarrow> server" where
  "fail_run now i s =
     s\<lparr>job_runs := update_where (\<lambda>r. jr_id r = i)
         (\<lambda>r. r\<lparr>jr_status := Failed, jr_finished_at := Some now\<rparr>) (job_runs s)\<rparr>"

fun failing_attempts :: "nat \<Rightarrow> time \<Rightarrow> (nat \<Rightarrow> uuid) \<Rightarrow> uuid \<Rightarrow> server \<Rightarrow> nat option" where
  "failing_attempts 0 now ids i s = None"
| "failing_attempts (Suc n) now ids i s =
     (case scheduleRetry now (ids n) i (fail_run now i s) of
        (None, s') \<Rightarrow> Some 0
      | (Some k, s') \<Rightarrow> map_option Suc (failing_attempts n now ids k s'))"

lemma job_run_by_id_fail:
  "job_run_by_id i (fail_run now k s) =
     map_option (\<lambda>r. if jr_id r = k then r\<lparr>jr_status := Failed, jr_finished_at := Some now\<rparr> else r)
       (job_run_by_id i s)"
  by (simp add: job_run_by_id_key fail_run_def jrow.by_key_update)

lemma fail_run_jobs [simp]: "backup_jobs (fail_run now i s) = backup_jobs s"
  by (simp add: fail_run_def)

lemma backup_job_by_id_cong: "backup_jobs s = backup_jobs s' \<Longrightarrow> backup_job_by_id i s = backup_job_by_id i s'"
  by (simp add: backup_job_by_id_def)

lemma failing_attempts_bound:
  assumes "run_with_job i s = Some (r, j)" "bj_retry_max j + 1 - jr_attempt r < n"
    "\<forall>m < n. job_run_by_id (ids m) s = None" "inj_on ids {..<n}"
  shows "\<exists>m. failing_attempts n now ids i s = Some m \<and> m \<le> bj_retry_max j + 1 - jr_attempt r"
  using assms
proof (induction n arbitrary: i s r)
  case (Suc n)
  let ?s = "fail_run now i s"
  let ?r = "r\<lparr>jr_status := Failed, jr_finished_at := Some now\<rparr>"
  from Suc.prems(1) have r: "job_run_by_id i s = Some r" "jr_id r = i"
    and j: "backup_job_by_id (jr_job_id r) s = Some j"
    using run_with_jobD by blast+
  have rj: "run_with_job i ?s = Some (?r, j)"
    using r j by (simp add: run_with_job_def job_run_by_id_fail backup_job_by_id_cong [OF fail_run_jobs])
  show ?case
  proof (cases rule: scheduleRetry_cases [of ?s i now "ids n"])
    case none
    then show ?thesis by simp
  next
    case (retry r' j')
    let ?new = "retry_row now (ids n) ?r j"
    let ?s' = "?s\<lparr>job_runs := insert_row ?new (job_runs ?s)\<rparr>"
    from retry(2) rj have eqs: "r' = ?r" "j' = j" by simp_all
    from retry(1) rj have le: "jr_attempt r \<le> bj_retry_max j" by (auto simp: retry_due_def)
    have freshn: "job_run_by_id (ids m) ?s = None" if "m < Suc n" for m
      using Suc.prems(3) that by (simp add: job_run_by_id_fail)
    have new: "jr_id ?new = ids n" "jr_job_id ?new = jr_job_id r" "jr_attempt ?new = jr_attempt r + 1"
      by (simp_all add: retry_row_def default_run_def)
    have by_id: "job_run_by_id k ?s' =
        (case job_run_by_id k ?s of Some q \<Rightarrow> Some q | None \<Rightarrow> if ids n = k then Some ?new else None)" for k
      using new(1) by (simp add: job_run_by_id_key jrow.by_key_insert)
    have "run_with_job (ids n) ?s' = Some (?new, j)"
      using j freshn [of n] by_id [of "ids n"] new
      by (simp add: run_with_job_def backup_job_by_id_def)
    moreover have "\<forall>m < n. job_run_by_id (ids m) ?s' = None"
    proof (intro allI impI)
      fix m assume "m < n"
      with Suc.prems(4) have "ids n \<noteq> ids m" by (auto dest: inj_onD)
      with \<open>m < n\<close> show "job_run_by_id (ids m) ?s' = None" using freshn [of m] by_id [of "ids m"] by simp
    qed
    moreover have "inj_on ids {..<n}" using Suc.prems(4) by (auto simp: inj_on_def)
    moreover have "bj_retry_max j + 1 - jr_attempt ?new < n"
      using Suc.prems(2) le by (simp add: new(3))
    ultimately obtain m where m: "failing_attempts n now ids (ids n) ?s' = Some m"
      "m \<le> bj_retry_max j + 1 - jr_attempt ?new"
      using Suc.IH [of "ids n" ?s' ?new] by blast
    then show ?thesis using retry(3) eqs new le by auto
  qed
qed simp

section \<open>Theorems\<close>

text \<open>
  A retry is queued exactly when the run is a failed backup whose attempt number has not
  passed the job's retries and no other backup of the job is queued or running; the new run
  then continues the count, names the failed run, repeats its trigger and waits out the delay.
  Nothing else changes.
\<close>

theorem retry_exactly_when_due:
  "scheduleRetry now new_id i s =
     (if retry_due s i
      then (Some new_id,
            s\<lparr>job_runs := insert_row
               (retry_row now new_id (fst (the (run_with_job i s))) (snd (the (run_with_job i s)))) (job_runs s)\<rparr>)
      else (None, s))"
  by (rule scheduleRetry_cases [of s i now new_id]) auto

text \<open>
  Settling a finished run either queues a retry or notifies, never both and never neither:
  a retry keeps the outbox as it is, and a run that is not retried is notified about while the
  run table stays as it is.
\<close>

theorem settled_once:
  "finalize c cfg now new_id i s =
     (if retry_due s i then snd (scheduleRetry now new_id i s) else notifyJobRun c cfg i s) \<and>
   outbox (snd (scheduleRetry now new_id i s)) = outbox s \<and>
   job_runs (notifyJobRun c cfg i s) = job_runs s"
proof -
  have "outbox (snd (scheduleRetry now new_id i s)) = outbox s"
    by (subst scheduleRetry_only_runs) simp
  then show ?thesis by (simp add: finalize_retry finalize_notify)
qed

text \<open>
  C16: Retries come to an end: from a run of attempt \<open>a\<close> of a job with \<open>m\<close> retries, if every
  attempt fails, at most \<open>m + 1 - a\<close> further runs are queued, and enough fuel shows it.
\<close>

theorem retries_bounded:
  assumes "run_with_job i s = Some (r, j)" "bj_retry_max j + 1 - jr_attempt r < n"
    "\<forall>m < n. job_run_by_id (ids m) s = None" "inj_on ids {..<n}"
  shows "\<exists>m. failing_attempts n now ids i s = Some m \<and> m \<le> bj_retry_max j + 1 - jr_attempt r"
  using assms by (rule failing_attempts_bound)

theorem retries_bounded_witness:
  "\<exists>m. failing_attempts 3 0 (\<lambda>n. replicate (n + 3) CHR ''x'') ''r1'' (sample_server [sample_run ''r1'' KBackup Running]) = Some m \<and> m \<le> 2"
proof -
  have r: "run_with_job ''r1'' (sample_server [sample_run ''r1'' KBackup Running]) = Some (sample_run ''r1'' KBackup Running, sample_job)"
    by (simp add: run_with_job_def job_run_by_id_def backup_job_by_id_def select_first_def sample_defs)
  have "job_run_by_id (replicate (n + 3) CHR ''x'') (sample_server [sample_run ''r1'' KBackup Running]) = None" for n
    by (simp add: job_run_by_id_def select_first_def sample_defs numeral_3_eq_3)
  then show ?thesis
    using retries_bounded [OF r, of 3 "\<lambda>n. replicate (n + 3) CHR ''x''" 0]
    by (auto simp: sample_run_def sample_job_def inj_on_def dest: arg_cong [where f = length])
qed

end
