(* ===== verification/Repositories.thy ===== *)
theory Repositories
  imports RunRetry
begin

text \<open>
  \<open>server/src/repositories/repositories.service.ts\<close>: the cached size figures of a repository,
  their history, and the refresh requests handed to agents. What restic answers for a
  resolved repository is the parameter \<open>read_stats\<close>. The lemmas show that failed readings
  keep the figures, that only
  managers of the owning job obtain credentials, and that a refresh request is handed out
  once.
\<close>

record repository_stats =
  rst_size_bytes :: "nat option"
  rst_snapshot_count :: "nat option"
  rst_stats_at :: "time option"
  rst_stats_error :: "string option"

datatype stats_reading = Figures "nat option" nat | ReadError string

text \<open>The inner join of a repository with its owning job.\<close>

definition owning_job :: "uuid \<Rightarrow> server \<Rightarrow> backup_job option" where
  "owning_job i s = select_first (\<lambda>j. bj_repository_id j = i) (backup_jobs s)"

definition repository_with_job :: "uuid \<Rightarrow> server \<Rightarrow> (repository \<times> backup_job) option" where
  "repository_with_job i s =
     (case repository_by_id i s of
        None \<Rightarrow> None
      | Some r \<Rightarrow> map_option (Pair r) (owning_job i s))"

text \<open>Rows of the list joined with their job, restricted to visible jobs.\<close>

definition repository_list :: "request_user \<Rightarrow> server \<Rightarrow> (repository \<times> backup_job) list" where
  "repository_list u s =
     (let rows = concat (map (\<lambda>r. map (Pair r) (filter (\<lambda>j. bj_repository_id j = re_id r) (backup_jobs s)))
                    (repositories s))
      in case visibleResourceIds s u RtJob of
           None \<Rightarrow> rows
         | Some ids \<Rightarrow> filter (\<lambda>(r, j). bj_id j \<in> set ids) rows)"

definition stats_of :: "repository \<Rightarrow> repository_stats" where
  "stats_of r =
     \<lparr>rst_size_bytes = re_size_bytes r, rst_snapshot_count = re_snapshot_count r,
      rst_stats_at = re_stats_at r, rst_stats_error = re_stats_error r\<rparr>"

definition cachedStats :: "uuid \<Rightarrow> server \<Rightarrow> repository_stats result" where
  "cachedStats i s =
     (case repository_by_id i s of
        None \<Rightarrow> Inl (NotFound ''Repository not found'')
      | Some r \<Rightarrow> Inr (stats_of r))"

text \<open>\<open>Number(repo.size_bytes) !== fresh.size_bytes\<close>: a null column counts as zero.\<close>

definition figures_changed :: "repository \<Rightarrow> nat option \<Rightarrow> nat \<Rightarrow> bool" where
  "figures_changed r sz cnt \<longleftrightarrow>
     re_stats_at r = None \<or>
     (case sz of None \<Rightarrow> True
      | Some n \<Rightarrow> (case re_size_bytes r of None \<Rightarrow> 0 | Some m \<Rightarrow> m) \<noteq> n) \<or>
     re_snapshot_count r \<noteq> Some cnt"

definition recordStats :: "time \<Rightarrow> uuid \<Rightarrow> stats_reading \<Rightarrow> repository_stats handler" where
  "recordStats now i reading s =
     (case repository_by_id i s of
        None \<Rightarrow> (Inl (NotFound ''Repository not found''), s)
      | Some r \<Rightarrow>
          (case reading of
             ReadError e \<Rightarrow>
               (Inr ((stats_of r)\<lparr>rst_stats_error := Some e\<rparr>),
                s\<lparr>repositories := update_where (\<lambda>q. re_id q = i)
                    (\<lambda>q. q\<lparr>re_stats_error := Some e\<rparr>) (repositories s)\<rparr>)
           | Figures sz cnt \<Rightarrow>
               (let s1 = s\<lparr>repositories := update_where (\<lambda>q. re_id q = i)
                             (\<lambda>q. q\<lparr>re_size_bytes := sz, re_snapshot_count := Some cnt,
                                    re_stats_at := Some now, re_stats_error := None\<rparr>)
                             (repositories s)\<rparr>;
                    s2 = (case sz of
                            Some n \<Rightarrow>
                              if figures_changed r sz cnt
                              then s1\<lparr>repository_stats_history := insert_row
                                     \<lparr>sh_repository_id = i, sh_measured_at = now, sh_size_bytes = n,
                                      sh_snapshot_count = cnt\<rparr> (repository_stats_history s1)\<rparr>
                              else s1
                          | None \<Rightarrow> s1)
                in (Inr \<lparr>rst_size_bytes = sz, rst_snapshot_count = Some cnt,
                         rst_stats_at = Some now, rst_stats_error = None\<rparr>, s2))))"

definition refreshStats ::
  "crypto \<Rightarrow> (resolved_target \<Rightarrow> (nat option \<times> nat) result) \<Rightarrow> time \<Rightarrow> uuid
   \<Rightarrow> repository_stats handler" where
  "refreshStats c read_stats now i s =
     (case repository_by_id i s of
        None \<Rightarrow> (Inl (NotFound ''Repository not found''), s)
      | Some repo \<Rightarrow>
          (let reading = (case resolveForJob c s repo of
                            Inl e \<Rightarrow> ReadError (error_message e)
                          | Inr ctx \<Rightarrow> (case read_stats ctx of
                                         Inl e \<Rightarrow> ReadError (error_message e)
                                       | Inr (sz, cnt) \<Rightarrow> Figures sz cnt))
           in recordStats now i reading s))"

definition refreshStatsInBackground :: "uuid \<Rightarrow> server \<Rightarrow> server" where
  "refreshStatsInBackground i s = start_background (BgRefreshStats i) s"

definition findOne ::
  "crypto \<Rightarrow> (resolved_target \<Rightarrow> (nat option \<times> nat) result) \<Rightarrow> time \<Rightarrow> request_user \<Rightarrow> uuid
   \<Rightarrow> repository_stats handler" where
  "findOne c read_stats now u i s =
     (case repository_with_job i s of
        None \<Rightarrow> (Inl (NotFound ''Repository not found''), s)
      | Some (r, j) \<Rightarrow>
          (case acl_assert s u RtJob (bj_id j) AlView of
             Inl e \<Rightarrow> (Inl e, s)
           | Inr _ \<Rightarrow> refreshStats c read_stats now i s))"

text \<open>The flag says whether the refresh was left to an agent (\<open>queued\<close>).\<close>

definition refreshStatsFor ::
  "crypto \<Rightarrow> (resolved_target \<Rightarrow> (nat option \<times> nat) result) \<Rightarrow> time \<Rightarrow> request_user \<Rightarrow> uuid
   \<Rightarrow> (repository_stats \<times> bool) handler" where
  "refreshStatsFor c read_stats now u i s =
     (case repository_with_job i s of
        None \<Rightarrow> (Inl (NotFound ''Repository not found''), s)
      | Some (r, j) \<Rightarrow>
          (case acl_assert s u RtJob (bj_id j) AlView of
             Inl e \<Rightarrow> (Inl e, s)
           | Inr _ \<Rightarrow>
               (if bj_agent_id j = None
                then (case refreshStats c read_stats now i s of
                        (Inl e, s') \<Rightarrow> (Inl e, s')
                      | (Inr st, s') \<Rightarrow> (Inr (st, False), s'))
                else let s1 = s\<lparr>repositories := update_where (\<lambda>q. re_id q = i)
                                  (\<lambda>q. q\<lparr>re_stats_requested_at := Some now\<rparr>) (repositories s)\<rparr>
                     in case cachedStats i s1 of
                          Inl e \<Rightarrow> (Inl e, s1)
                        | Inr st \<Rightarrow> (Inr (st, True), s1))))"

definition stats_claimable :: "uuid \<Rightarrow> server \<Rightarrow> repository \<Rightarrow> bool" where
  "stats_claimable agent s r \<longleftrightarrow>
     re_stats_requested_at r \<noteq> None \<and>
     (\<exists>j \<in> set (backup_jobs s). bj_repository_id j = re_id r \<and> bj_agent_id j = Some agent)"

definition claimStatsRequests :: "uuid \<Rightarrow> server \<Rightarrow> repository list \<times> server" where
  "claimStatsRequests agent s =
     (select_where (stats_claimable agent s) (repositories s),
      s\<lparr>repositories := update_where (stats_claimable agent s)
          (\<lambda>r. r\<lparr>re_stats_requested_at := None\<rparr>) (repositories s)\<rparr>)"

definition repository_resolve :: "crypto \<Rightarrow> request_user \<Rightarrow> uuid \<Rightarrow> server \<Rightarrow> resolved_target result" where
  "repository_resolve c u i s =
     (case repository_with_job i s of
        None \<Rightarrow> Inl (NotFound ''Repository not found'')
      | Some (r, j) \<Rightarrow>
          (case acl_assert s u RtJob (bj_id j) AlManage of
             Inl e \<Rightarrow> Inl e
           | Inr _ \<Rightarrow>
               (if re_target_id r = None
                then Inl (BadRequest ''Local filesystem repositories cannot be used remotely; only repositories on a shared connection are reachable from the CLI'')
                else resolveForJob c s r)))"

text \<open>
  The growth chart: readings inside the window and, per repository, the latest one before
  it, in order of time.
\<close>

definition last_before :: "time \<Rightarrow> uuid \<Rightarrow> stats_history list \<Rightarrow> stats_history option" where
  "last_before since i hist =
     foldl (\<lambda>best h. if sh_repository_id h = i \<and> sh_measured_at h < since then
                        (case best of None \<Rightarrow> Some h
                         | Some b \<Rightarrow> if sh_measured_at b < sh_measured_at h then Some h else Some b)
                      else best) None hist"

definition statsHistory ::
  "time \<Rightarrow> request_user \<Rightarrow> nat \<Rightarrow> server \<Rightarrow> (uuid \<times> string) list \<times> stats_history list" where
  "statsHistory now u days s =
     (let since = now - int days * 86400000;
          repos = map (\<lambda>(r, j). (re_id r, re_name r)) (repository_list u s);
          ids = map fst repos;
          inside = filter (\<lambda>h. sh_repository_id h \<in> set ids \<and> since \<le> sh_measured_at h)
                     (repository_stats_history s);
          before = List.map_filter (\<lambda>i. last_before since i (repository_stats_history s)) (remdups ids)
      in (repos, sort_key sh_measured_at (before @ inside)))"

section \<open>Readings\<close>

lemma recordStats_only:
  assumes "recordStats now i reading s = (res, s')"
  shows "s' = s\<lparr>repositories := repositories s',
                 repository_stats_history := repository_stats_history s'\<rparr>"
  using assms
  by (auto simp: recordStats_def Let_def split: option.splits stats_reading.splits if_splits)

lemma recordStats_error_keeps:
  assumes "recordStats now i (ReadError e) s = (Inr st, s')" "repository_by_id k s = Some r"
  shows "repository_by_id k s' = Some (if k = i then r\<lparr>re_stats_error := Some e\<rparr> else r)"
    "repository_stats_history s' = repository_stats_history s"
proof -
  from assms(1) have s': "s' = s\<lparr>repositories := update_where (\<lambda>q. re_id q = i)
      (\<lambda>q. q\<lparr>re_stats_error := Some e\<rparr>) (repositories s)\<rparr>"
    by (auto simp: recordStats_def split: option.splits)
  moreover from assms(2) have "re_id r = k" by (auto simp: repository_by_id_key dest: prow.by_key_in)
  ultimately show "repository_by_id k s' = Some (if k = i then r\<lparr>re_stats_error := Some e\<rparr> else r)"
    using assms(2) by (auto simp: repository_by_id_key prow.by_key_update)
  show "repository_stats_history s' = repository_stats_history s" using s' by simp
qed

section \<open>A refresh request is handed out once\<close>

text \<open>
  A step of another party that may come between two polls: a reading of some repository.
\<close>

definition record_step :: "time \<times> uuid \<times> stats_reading \<Rightarrow> server \<Rightarrow> server" where
  "record_step e s = snd (recordStats (fst e) (fst (snd e)) (snd (snd e)) s)"

definition stats_poll :: "uuid \<times> uuid \<Rightarrow> server \<Rightarrow> server" where
  "stats_poll a s = snd (claimStatsRequests (fst a) s)"

definition stats_poll_wins :: "uuid \<times> uuid \<Rightarrow> server \<Rightarrow> bool" where
  "stats_poll_wins a s \<longleftrightarrow> snd a \<in> re_id ` set (fst (claimStatsRequests (fst a) s))"

definition no_stats_request :: "uuid \<Rightarrow> server \<Rightarrow> bool" where
  "no_stats_request i s \<longleftrightarrow>
     (\<forall>r \<in> set (repositories s). re_id r = i \<longrightarrow> re_stats_requested_at r = None)"

definition repo_ids_unique :: "server \<Rightarrow> bool" where
  "repo_ids_unique s \<longleftrightarrow> distinct (map re_id (repositories s))"

lemma recordStats_requests:
  assumes "no_stats_request k s"
  shows "no_stats_request k (snd (recordStats now i reading s))"
  using assms
  by (auto simp: recordStats_def no_stats_request_def Let_def set_update_where
      split: option.splits stats_reading.splits)

interpretation stats_request: claim_once stats_poll stats_poll_wins record_step no_stats_request snd
proof
  fix a :: "uuid \<times> uuid" and s assume "no_stats_request (snd a) s"
  then show "\<not> stats_poll_wins a s"
    by (auto simp: no_stats_request_def stats_poll_wins_def claimStatsRequests_def stats_claimable_def
        set_select_where)
next
  fix a :: "uuid \<times> uuid" and s assume "stats_poll_wins a s"
  then obtain j where "j \<in> set (backup_jobs s)" "bj_repository_id j = snd a" "bj_agent_id j = Some (fst a)"
    by (auto simp: stats_poll_wins_def claimStatsRequests_def stats_claimable_def set_select_where)
  then show "no_stats_request (snd a) (stats_poll a s)"
    by (auto simp: no_stats_request_def stats_poll_def claimStatsRequests_def stats_claimable_def
        set_update_where)
next
  fix k s and a :: "uuid \<times> uuid" assume "no_stats_request k s"
  then show "no_stats_request k (stats_poll a s)"
    by (auto simp: no_stats_request_def stats_poll_def claimStatsRequests_def set_update_where)
next
  fix k s e assume "no_stats_request k s"
  then show "no_stats_request k (record_step e s)"
    by (simp add: record_step_def recordStats_requests)
qed

section \<open>Theorems\<close>

text \<open>The polls that receive the request of \<open>repo\<close> in a sequence of polls (by agent) and readings.\<close>

fun stats_hand_outs :: "uuid \<Rightarrow> (uuid, time \<times> uuid \<times> stats_reading) cstep list \<Rightarrow> server \<Rightarrow> nat" where
  "stats_hand_outs repo [] s = 0"
| "stats_hand_outs repo (Claim ag # xs) s =
     (case claimStatsRequests ag s of
        (rows, s') \<Rightarrow> (if repo \<in> re_id ` set rows then 1 else 0) + stats_hand_outs repo xs s')"
| "stats_hand_outs repo (Other e # xs) s = stats_hand_outs repo xs (record_step e s)"

lemma stats_hand_outs_successes:
  "stats_hand_outs repo xs s = stats_request.successes repo (map (map_cstep (\<lambda>ag. (ag, repo)) id) xs) s"
proof (induction repo xs s rule: stats_hand_outs.induct)
  case (2 repo ag xs s)
  obtain rows s' where c: "claimStatsRequests ag s = (rows, s')" by fastforce
  then have "stats_poll (ag, repo) s = s'" "stats_poll_wins (ag, repo) s \<longleftrightarrow> repo \<in> re_id ` set rows"
    by (simp_all add: stats_poll_def stats_poll_wins_def)
  with 2 c show ?case by simp
qed simp_all

text \<open>
  A pending request to read a repository's figures is handed to at most one poll: in any
  sequence of polls by any agents, with results recorded in between, at most one poll
  receives it.
\<close>

theorem stats_request_claimed_once: "stats_hand_outs repo steps s \<le> 1"
  using stats_request.at_most_one_success by (simp add: stats_hand_outs_successes)

text \<open>
  A failed reading never damages the known figures: it stores its error on the repository
  it belongs to, keeps size, snapshot count and time of the last good reading, and adds no
  point to the history.
\<close>

theorem failed_reading_keeps_figures:
  assumes "recordStats now i (ReadError e) s = (Inr st, s')" "repository_by_id k s = Some r"
  shows "repository_by_id k s' = Some (if k = i then r\<lparr>re_stats_error := Some e\<rparr> else r) \<and>
    repository_stats_history s' = repository_stats_history s"
  using recordStats_error_keeps [OF assms] by blast

theorem failed_reading_keeps_figures_witness:
  "repository_by_id ''p1'' (snd (recordStats 0 ''p1'' (ReadError ''down'') (sample_server []))) =
     Some (sample_repository\<lparr>re_stats_error := Some ''down''\<rparr>)"
proof -
  have r: "repository_by_id ''p1'' (sample_server []) = Some sample_repository"
    by simp
  then obtain st s' where e: "recordStats 0 ''p1'' (ReadError ''down'') (sample_server []) = (Inr st, s')"
    by (simp add: recordStats_def)
  from failed_reading_keeps_figures [OF e r] e show ?thesis by simp
qed

end
