(* ===== verification/Jobs.thy ===== *)
theory Jobs
  imports Repositories
begin

text \<open>
  \<open>server/src/jobs/jobs.service.ts\<close>: backup jobs with their repository and secrets. Cron
  expressions are validated by a third-party parser, the parameter \<open>valid_cron\<close>. Deleting a
  row applies the foreign keys of the schema: runs of a deleted job go with it, restore
  history keeps its row without the job, and a password secret still referenced by restore
  history cannot be deleted.
  The lemmas show who may define what runs on a host, that jobs and repositories stay
  paired, and how deletion and partial updates behave.
\<close>

section \<open>Requests\<close>

record create_job =
  cj_name :: string
  cj_location :: source_location
  cj_agent_id :: "uuid option"
  cj_paths :: "string list"
  cj_target_id :: "uuid option"
  cj_repo_config :: "form option"
  cj_repo_credentials :: "form option"
  cj_repo_password :: string
  cj_cron_expr :: string
  cj_restic_options :: "restic_options option"
  cj_notify :: "job_notify_config option"
  cj_retry_max :: "nat option"
  cj_retry_delay_seconds :: "nat option"
  cj_enabled :: "bool option"

text \<open>For fields that may also be \<open>null\<close>, the inner option is \<open>null\<close>.\<close>

record update_job =
  uj_name :: "string option"
  uj_location :: "source_location option"
  uj_agent_id :: "uuid option option"
  uj_paths :: "string list option"
  uj_target_id :: "uuid option option"
  uj_repo_config :: "form option"
  uj_repo_credentials :: "form option option"
  uj_repo_password :: "string option"
  uj_cron_expr :: "string option"
  uj_restic_options :: "restic_options option"
  uj_notify :: "job_notify_config option"
  uj_retry_max :: "nat option"
  uj_retry_delay_seconds :: "nat option"
  uj_enabled :: "bool option"

definition empty_restic_options :: restic_options where
  "empty_restic_options =
     \<lparr>ro_tags = [], ro_exclude = [], ro_iexclude = [], ro_exclude_file = [],
      ro_one_file_system = False, ro_exclude_caches = False, ro_exclude_larger_than = None,
      ro_compression = None, ro_read_concurrency = None, ro_retention = None,
      ro_pre_script = None, ro_post_success_script = None, ro_post_failure_script = None,
      ro_time_limit_seconds = None\<rparr>"

definition empty_notify :: job_notify_config where
  "empty_notify = \<lparr>nc_channel_ids = [], nc_on_success = False, nc_on_failure = False\<rparr>"

definition empty_integrity :: integrity_check_config where
  "empty_integrity = \<lparr>ic_enabled = None, ic_cron_expr = None, ic_level = None, ic_subset_parts = None\<rparr>"

text \<open>Ids and IVs the handlers draw.\<close>

record job_fresh =
  jf_job_id :: uuid
  jf_repo_id :: uuid
  jf_password_secret :: uuid
  jf_credential_secret :: uuid
  jf_iv :: string
  jf_iv2 :: string

section \<open>Validation\<close>

definition validateCron :: "(string \<Rightarrow> bool) \<Rightarrow> string \<Rightarrow> unit result" where
  "validateCron valid_cron e =
     (if valid_cron e then Inr () else Inl (BadRequest (''Invalid cron expression: '' @ e)))"

definition resolveBackendType :: "server \<Rightarrow> request_user \<Rightarrow> uuid option \<Rightarrow> string result" where
  "resolveBackendType s u targetId =
     (if or_empty targetId = [] then Inr ''local''
      else case acl_assert s u RtTarget (or_empty targetId) AlOperate of
             Inl e \<Rightarrow> Inl e
           | Inr _ \<Rightarrow> (case target_by_id (or_empty targetId) s of
                         None \<Rightarrow> Inl (BadRequest ''Unknown target'')
                       | Some t \<Rightarrow> Inr (tg_backend_type t)))"

definition assertRepoAllowed :: "source_location \<Rightarrow> uuid option \<Rightarrow> unit result" where
  "assertRepoAllowed loc targetId =
     (if or_empty targetId = [] \<and> loc = LocAgent
      then Inl (BadRequest ''A local filesystem repository is only supported when the job runs on the server'')
      else Inr ())"

fun first_missing :: "form \<Rightarrow> string list \<Rightarrow> string option" where
  "first_missing config [] = None"
| "first_missing config (n # ns) =
     (if map_of config n = None \<or> map_of config n = Some (JStr []) then Some n
      else first_missing config ns)"

definition buildRepoConfig :: "string \<Rightarrow> form \<Rightarrow> form result" where
  "buildRepoConfig ty vals =
     (case splitConfig ty vals ScopeJob of
        Inl e \<Rightarrow> Inl e
      | Inr (config, _) \<Rightarrow>
          (case requiredJobFields ty of
             Inl e \<Rightarrow> Inl e
           | Inr req \<Rightarrow>
               (case first_missing config req of
                  Some n \<Rightarrow> Inl (BadRequest (''Missing required repository field: '' @ n))
                | None \<Rightarrow> Inr config)))"

fun collect_overrides :: "string \<Rightarrow> string list \<Rightarrow> form \<Rightarrow> creds result" where
  "collect_overrides ty allowed [] = Inr []"
| "collect_overrides ty allowed ((name, v) # rest) =
     (if name \<notin> set allowed
      then Inl (BadRequest (''Field '' @ quote @ name @ quote @ '' cannot be overridden per job on a ''
                            @ ty @ '' connection''))
      else case collect_overrides ty allowed rest of
             Inl e \<Rightarrow> Inl e
           | Inr out \<Rightarrow> if v = JNull \<or> v = JStr [] then Inr out else Inr ((name, js_string v) # out))"

definition buildCredentialOverride :: "string \<Rightarrow> form \<Rightarrow> creds result" where
  "buildCredentialOverride ty vals =
     (case overridableFields ty of Inl e \<Rightarrow> Inl e | Inr allowed \<Rightarrow> collect_overrides ty allowed vals)"

section \<open>Reading\<close>

type_synonym job_row = "backup_job \<times> repository"

definition job_getRow :: "server \<Rightarrow> uuid \<Rightarrow> job_row result" where
  "job_getRow s i =
     (case backup_job_by_id i s of
        None \<Rightarrow> Inl (NotFound ''Job not found'')
      | Some j \<Rightarrow> (case repository_by_id (bj_repository_id j) s of
                    None \<Rightarrow> Inl (NotFound ''Job not found'')
                  | Some r \<Rightarrow> Inr (j, r)))"

definition job_rows :: "server \<Rightarrow> job_row list" where
  "job_rows s =
     List.map_filter (\<lambda>j. map_option (Pair j) (repository_by_id (bj_repository_id j) s)) (backup_jobs s)"

definition job_list :: "request_user \<Rightarrow> server \<Rightarrow> job_row list" where
  "job_list u s =
     (case visibleResourceIds s u RtJob of
        None \<Rightarrow> job_rows s
      | Some ids \<Rightarrow> filter (\<lambda>(j, r). bj_id j \<in> set ids) (job_rows s))"

definition listEnabled :: "server \<Rightarrow> job_row list" where
  "listEnabled s = filter (\<lambda>(j, r). bj_enabled j) (job_rows s)"

definition job_get :: "request_user \<Rightarrow> uuid \<Rightarrow> server \<Rightarrow> job_row result" where
  "job_get u i s =
     (case acl_assert s u RtJob i AlView of Inl e \<Rightarrow> Inl e | Inr _ \<Rightarrow> job_getRow s i)"

definition job_assertOperate :: "server \<Rightarrow> request_user \<Rightarrow> uuid \<Rightarrow> unit result" where
  "job_assertOperate s u i =
     (if \<not> can s u RtJob i AlOperate then Inl (Forbidden ''Missing operate access on job'') else Inr ())"

text \<open>The newest finished backup of a job (\<open>distinct on ... order by finished_at desc\<close>).\<close>

definition newer_finish :: "job_run option \<Rightarrow> job_run \<Rightarrow> job_run option" where
  "newer_finish best r =
     (case best of
        None \<Rightarrow> Some r
      | Some b \<Rightarrow> if the (jr_finished_at b) < the (jr_finished_at r) then Some r else Some b)"

definition lastBackupRun :: "uuid \<Rightarrow> server \<Rightarrow> job_run option" where
  "lastBackupRun i s =
     foldl newer_finish None
       (filter (\<lambda>r. jr_job_id r = i \<and> jr_kind r = KBackup \<and> jr_finished_at r \<noteq> None) (job_runs s))"

section \<open>Creating\<close>

definition job_slugs :: "server \<Rightarrow> (uuid \<times> string) list" where
  "job_slugs s = map (\<lambda>j. (bj_id j, bj_slug j)) (backup_jobs s)"

definition repo_slugs :: "server \<Rightarrow> (uuid \<times> string) list" where
  "repo_slugs s = map (\<lambda>r. (re_id r, re_slug r)) (repositories s)"

definition new_repository :: "uuid \<Rightarrow> string \<Rightarrow> string \<Rightarrow> uuid option \<Rightarrow> form \<Rightarrow> uuid \<Rightarrow> uuid option \<Rightarrow> repository" where
  "new_repository i name slug tid cfg pw cr =
     \<lparr>re_id = i, re_name = name, re_slug = slug, re_target_id = tid, re_repo_config = cfg,
      re_repo_password_secret_id = pw, re_credential_secret_id = cr, re_size_bytes = None,
      re_snapshot_count = None, re_stats_at = None, re_stats_error = None,
      re_stats_requested_at = None, re_check_status = None, re_check_at = None,
      re_check_level = None, re_check_error = None, re_data_verified_at = None,
      re_check_subset_next = 1, re_check_subset_parts = None\<rparr>"

definition or_default :: "'a \<Rightarrow> 'a option \<Rightarrow> 'a" where
  "or_default d x = (case x of None \<Rightarrow> d | Some v \<Rightarrow> v)"

definition check_agent :: "server \<Rightarrow> source_location \<Rightarrow> uuid option \<Rightarrow> unit result" where
  "check_agent s loc agent =
     (if loc \<noteq> LocAgent then Inr ()
      else if or_empty agent = [] then Inl (BadRequest ''agentId is required for agent jobs'')
      else if agent_by_id (or_empty agent) s = None then Inl (BadRequest ''Unknown agent'')
      else Inr ())"

text \<open>The checks of \<open>create\<close>, in their order; the repository config and the override.\<close>

definition validate_create ::
  "(string \<Rightarrow> bool) \<Rightarrow> request_user \<Rightarrow> create_job \<Rightarrow> server \<Rightarrow> (form \<times> creds) result" where
  "validate_create valid_cron u dto s =
     (if \<not> ru_is_admin u then Inl (Forbidden ''Creating a backup job requires administrator access'')
      else case validateCron valid_cron (cj_cron_expr dto) of Inl e \<Rightarrow> Inl e | Inr _ \<Rightarrow>
        (case assertRepoAllowed (cj_location dto) (cj_target_id dto) of Inl e \<Rightarrow> Inl e | Inr _ \<Rightarrow>
        (case resolveBackendType s u (cj_target_id dto) of Inl e \<Rightarrow> Inl e | Inr ty \<Rightarrow>
        (case buildRepoConfig ty (or_empty (cj_repo_config dto)) of Inl e \<Rightarrow> Inl e | Inr cfg \<Rightarrow>
        (case buildCredentialOverride ty (or_empty (cj_repo_credentials dto)) of Inl e \<Rightarrow> Inl e | Inr ov \<Rightarrow>
        (case check_agent s (cj_location dto) (cj_agent_id dto) of Inl e \<Rightarrow> Inl e | Inr _ \<Rightarrow>
           Inr (cfg, ov)))))))"

definition store_job_secrets ::
  "crypto \<Rightarrow> job_fresh \<Rightarrow> string \<Rightarrow> creds \<Rightarrow> server \<Rightarrow> (uuid \<times> uuid option) \<times> server" where
  "store_job_secrets c f password ov s =
     (let (pw, s1) = secret_create c (jf_password_secret f) (jf_iv f) StRepoPassword (PText password) s
      in if ov \<noteq> []
         then (let (cr, s2) = secret_create c (jf_credential_secret f) (jf_iv2 f)
                                StBackendCredential (PJson ov) s1
               in ((pw, Some cr), s2))
         else ((pw, None), s1))"

definition new_job :: "job_fresh \<Rightarrow> request_user \<Rightarrow> create_job \<Rightarrow> string \<Rightarrow> backup_job" where
  "new_job f u dto slug =
     \<lparr>bj_id = jf_job_id f, bj_name = cj_name dto, bj_slug = slug,
      bj_location = cj_location dto,
      bj_agent_id = (if cj_location dto = LocAgent then cj_agent_id dto else None),
      bj_paths = cj_paths dto, bj_repository_id = jf_repo_id f, bj_cron_expr = cj_cron_expr dto,
      bj_restic_options = or_default empty_restic_options (cj_restic_options dto),
      bj_notify = or_default empty_notify (cj_notify dto), bj_integrity_check = empty_integrity,
      bj_retry_max = or_default 0 (cj_retry_max dto),
      bj_retry_delay_seconds = or_default DEFAULT_RETRY_DELAY_SECONDS (cj_retry_delay_seconds dto),
      bj_enabled = or_default True (cj_enabled dto), bj_owner_id = ru_id u\<rparr>"

definition job_create ::
  "crypto \<Rightarrow> (string \<Rightarrow> bool) \<Rightarrow> job_fresh \<Rightarrow> request_user \<Rightarrow> create_job \<Rightarrow> job_row handler" where
  "job_create c valid_cron f u dto s =
     (case validate_create valid_cron u dto s of
        Inl e \<Rightarrow> (Inl e, s)
      | Inr (cfg, ov) \<Rightarrow>
          (let ((pw, cr), s2) = store_job_secrets c f (cj_repo_password dto) ov s;
               job = new_job f u dto (uniqueSlug (job_slugs s2) (cj_name dto) None);
               repo = new_repository (jf_repo_id f) (cj_name dto)
                        (uniqueSlug (repo_slugs s2) (cj_name dto) None) (cj_target_id dto) cfg pw cr;
               s3 = s2\<lparr>repositories := insert_row repo (repositories s2),
                       backup_jobs := insert_row job (backup_jobs s2)\<rparr>;
               s4 = grant_owner u RtJob (jf_job_id f) (jf_job_id f) s3
           in (job_getRow s4 (jf_job_id f), s4)))"

section \<open>Updating\<close>

definition touchesHost :: "update_job \<Rightarrow> bool" where
  "touchesHost dto \<longleftrightarrow>
     uj_location dto \<noteq> None \<or> uj_agent_id dto \<noteq> None \<or> uj_paths dto \<noteq> None \<or>
     uj_restic_options dto \<noteq> None"

definition set_opt :: "('a \<Rightarrow> 'r \<Rightarrow> 'r) \<Rightarrow> 'a option \<Rightarrow> 'r \<Rightarrow> 'r" where
  "set_opt upd x r = (case x of None \<Rightarrow> r | Some v \<Rightarrow> upd v r)"

text \<open>The patch of the job row (\<open>jobPatch\<close>), assignments in the order of the source.\<close>

definition job_patch :: "server \<Rightarrow> uuid \<Rightarrow> update_job \<Rightarrow> backup_job \<Rightarrow> backup_job" where
  "job_patch s i dto =
     set_opt (\<lambda>v. bj_enabled_update (\<lambda>_. v)) (uj_enabled dto)
     \<circ> set_opt (\<lambda>v. bj_retry_delay_seconds_update (\<lambda>_. v)) (uj_retry_delay_seconds dto)
     \<circ> set_opt (\<lambda>v. bj_retry_max_update (\<lambda>_. v)) (uj_retry_max dto)
     \<circ> set_opt (\<lambda>v. bj_notify_update (\<lambda>_. v)) (uj_notify dto)
     \<circ> set_opt (\<lambda>v. bj_restic_options_update (\<lambda>_. v)) (uj_restic_options dto)
     \<circ> set_opt (\<lambda>v. bj_cron_expr_update (\<lambda>_. v)) (uj_cron_expr dto)
     \<circ> set_opt (\<lambda>v. bj_paths_update (\<lambda>_. v)) (uj_paths dto)
     \<circ> (if uj_location dto = Some LocLocal then bj_agent_id_update (\<lambda>_. None) else id)
     \<circ> set_opt (\<lambda>v. bj_agent_id_update (\<lambda>_. v)) (uj_agent_id dto)
     \<circ> set_opt (\<lambda>v. bj_location_update (\<lambda>_. v)) (uj_location dto)
     \<circ> set_opt (\<lambda>n j. j\<lparr>bj_name := n, bj_slug := uniqueSlug (job_slugs s) n (Some i)\<rparr>) (uj_name dto)"

definition repo_rename :: "server \<Rightarrow> uuid \<Rightarrow> update_job \<Rightarrow> repository \<Rightarrow> repository" where
  "repo_rename s rid dto =
     set_opt (\<lambda>n r. r\<lparr>re_name := n, re_slug := uniqueSlug (repo_slugs s) n (Some rid)\<rparr>) (uj_name dto)"

text \<open>Switching the connection or editing the repository fields.\<close>

definition repo_location_patch ::
  "server \<Rightarrow> request_user \<Rightarrow> update_job \<Rightarrow> repository \<Rightarrow> (repository \<Rightarrow> repository) result" where
  "repo_location_patch s u dto repo =
     (if uj_target_id dto = None \<and> uj_repo_config dto = None then Inr id
      else let targetId = or_default (re_target_id repo) (uj_target_id dto) in
           case resolveBackendType s u targetId of
             Inl e \<Rightarrow> Inl e
           | Inr ty \<Rightarrow>
               (case buildRepoConfig ty (or_default (re_repo_config repo) (uj_repo_config dto)) of
                  Inl e \<Rightarrow> Inl e
                | Inr cfg \<Rightarrow> Inr (\<lambda>r. r\<lparr>re_target_id := targetId, re_repo_config := cfg\<rparr>)))"

text \<open>
  The credential override of the repository: the patch of the row, the secret that is no
  longer referenced, and the state with the secrets written.
\<close>

definition override_patch ::
  "crypto \<Rightarrow> job_fresh \<Rightarrow> request_user \<Rightarrow> update_job \<Rightarrow> repository
   \<Rightarrow> ((repository \<Rightarrow> repository) \<times> uuid option) handler" where
  "override_patch c f u dto repo s =
     (let moves = (case uj_target_id dto of None \<Rightarrow> False | Some t \<Rightarrow> t \<noteq> re_target_id repo);
          old = re_credential_secret_id repo;
          clear = re_credential_secret_id_update (\<lambda>_. None)
      in case uj_repo_credentials dto of
           None \<Rightarrow> (if moves \<and> old \<noteq> None then (Inr (clear, old), s) else (Inr (id, None), s))
         | Some None \<Rightarrow> (Inr (clear, old), s)
         | Some (Some vals) \<Rightarrow>
             (case resolveBackendType s u (or_default (re_target_id repo) (uj_target_id dto)) of
                Inl e \<Rightarrow> (Inl e, s)
              | Inr ty \<Rightarrow>
                  (case buildCredentialOverride ty vals of
                     Inl e \<Rightarrow> (Inl e, s)
                   | Inr ov \<Rightarrow>
                       (case (old, moves) of
                          (Some sid, False) \<Rightarrow>
                            (case revealCredentials c s (Some sid) of
                               Inl e \<Rightarrow> (Inl e, s)
                             | Inr current \<Rightarrow>
                                 (Inr (id, None),
                                  secret_update c (jf_iv2 f) sid (PJson (AList.merge current ov)) s))
                        | _ \<Rightarrow>
                            (if ov \<noteq> []
                             then (let (sid, s') = secret_create c (jf_credential_secret f) (jf_iv2 f)
                                                     StBackendCredential (PJson ov) s
                                   in (Inr (re_credential_secret_id_update (\<lambda>_. Some sid),
                                            if moves then old else None), s'))
                             else if moves \<and> old \<noteq> None then (Inr (clear, old), s)
                             else (Inr (id, None), s))))))"

text \<open>\<open>delete from secrets\<close>: the reference from restore history is set to null.\<close>

definition remove_credential_secret :: "uuid \<Rightarrow> server \<Rightarrow> server" where
  "remove_credential_secret sid s =
     (secret_remove sid s)\<lparr>restore_runs := update_where (\<lambda>r. rr_credential_secret_id r = Some sid)
        (\<lambda>r. r\<lparr>rr_credential_secret_id := None\<rparr>) (restore_runs s)\<rparr>"

definition job_update ::
  "crypto \<Rightarrow> (string \<Rightarrow> bool) \<Rightarrow> job_fresh \<Rightarrow> request_user \<Rightarrow> uuid \<Rightarrow> update_job \<Rightarrow> job_row handler" where
  "job_update c valid_cron f u i dto s =
     (case acl_assert s u RtJob i AlManage of Inl e \<Rightarrow> (Inl e, s) | Inr _ \<Rightarrow>
      if touchesHost dto \<and> \<not> ru_is_admin u
      then (Inl (Forbidden (''Editing a job'' @ quote @ ''s execution host, paths or scripts requires administrator access'')), s)
      else case (if or_empty (uj_cron_expr dto) \<noteq> [] then validateCron valid_cron (or_empty (uj_cron_expr dto))
                 else Inr ()) of Inl e \<Rightarrow> (Inl e, s) | Inr _ \<Rightarrow>
      (case job_getRow s i of Inl e \<Rightarrow> (Inl e, s) | Inr (job, repo) \<Rightarrow>
      (case assertRepoAllowed (or_default (bj_location job) (uj_location dto))
              (or_default (re_target_id repo) (uj_target_id dto)) of Inl e \<Rightarrow> (Inl e, s) | Inr _ \<Rightarrow>
      (case repo_location_patch s u dto repo of Inl e \<Rightarrow> (Inl e, s) | Inr locp \<Rightarrow>
       (let s1 = (case uj_repo_password dto of
                    None \<Rightarrow> s
                  | Some pw \<Rightarrow> secret_update c (jf_iv f) (re_repo_password_secret_id repo) (PText pw) s)
        in case override_patch c f u dto repo s1 of
             (Inl e, s2) \<Rightarrow> (Inl e, s2)
           | (Inr (ovp, orphan), s2) \<Rightarrow>
               (let s3 = s2\<lparr>repositories := update_where (\<lambda>r. re_id r = bj_repository_id job)
                              (ovp \<circ> locp \<circ> repo_rename s (bj_repository_id job) dto) (repositories s2),
                            backup_jobs := update_where (\<lambda>j. bj_id j = i) (job_patch s i dto)
                              (backup_jobs s2)\<rparr>;
                    s4 = (case orphan of None \<Rightarrow> s3 | Some sid \<Rightarrow> remove_credential_secret sid s3)
                in (job_getRow s4 i, s4)))))))"

section \<open>Removing\<close>

text \<open>
  \<open>restore_runs.repo_password_secret_id\<close> is a foreign key without a delete rule, so the
  database refuses to delete a password secret that restore history refers to.
\<close>

definition password_secret_in_use :: "uuid \<Rightarrow> server \<Rightarrow> bool" where
  "password_secret_in_use sid s \<longleftrightarrow> sid \<in> rr_repo_password_secret_id ` set (restore_runs s)"

definition job_remove :: "request_user \<Rightarrow> uuid \<Rightarrow> unit handler" where
  "job_remove u i s =
     (case acl_assert s u RtJob i AlManage of
        Inl e \<Rightarrow> (Inl e, s)
      | Inr _ \<Rightarrow>
          (case job_getRow s i of
             Inl e \<Rightarrow> (Inl e, s)
           | Inr (job, repo) \<Rightarrow>
               (let s1 = s\<lparr>backup_jobs := delete_where (\<lambda>j. bj_id j = i) (backup_jobs s),
                           job_runs := delete_where (\<lambda>r. jr_job_id r = i) (job_runs s),
                           restore_runs := update_where (\<lambda>r. rr_job_id r = Some i)
                             (\<lambda>r. r\<lparr>rr_job_id := None\<rparr>) (restore_runs s)\<rparr>;
                    s2 = s1\<lparr>repositories := delete_where (\<lambda>r. re_id r = bj_repository_id job) (repositories s1),
                            repository_stats_history := delete_where
                              (\<lambda>h. sh_repository_id h = bj_repository_id job) (repository_stats_history s1)\<rparr>
                in if password_secret_in_use (re_repo_password_secret_id repo) s2
                   then (Inl (PlainError ''update or delete on table secrets violates foreign key constraint''), s2)
                   else let s3 = secret_remove (re_repo_password_secret_id repo) s2
                        in (Inr (), case re_credential_secret_id repo of
                                      None \<Rightarrow> s3 | Some sid \<Rightarrow> remove_credential_secret sid s3))))"

section \<open>Schedules and runs\<close>

record integrity_dto =
  id_enabled :: bool
  id_cron_expr :: "string option"
  id_level :: integrity_level
  id_subset_parts :: "nat option"

definition setIntegrityCheck ::
  "(string \<Rightarrow> bool) \<Rightarrow> request_user \<Rightarrow> uuid \<Rightarrow> integrity_dto \<Rightarrow> job_row handler" where
  "setIntegrityCheck valid_cron u i dto s =
     (case acl_assert s u RtJob i AlManage of Inl e \<Rightarrow> (Inl e, s) | Inr _ \<Rightarrow>
      (case job_getRow s i of Inl e \<Rightarrow> (Inl e, s) | Inr _ \<Rightarrow>
       (if id_enabled dto \<and> or_empty (id_cron_expr dto) = []
        then (Inl (BadRequest ''A schedule needs a cron expression''), s)
        else case (if id_enabled dto then validateCron valid_cron (or_empty (id_cron_expr dto)) else Inr ()) of
               Inl e \<Rightarrow> (Inl e, s)
             | Inr _ \<Rightarrow>
                 (let s1 = s\<lparr>backup_jobs := update_where (\<lambda>j. bj_id j = i)
                        (\<lambda>j. j\<lparr>bj_integrity_check :=
                           \<lparr>ic_enabled = Some (id_enabled dto), ic_cron_expr = id_cron_expr dto,
                            ic_level = Some (id_level dto),
                            ic_subset_parts = (if id_level dto = LvRotating then id_subset_parts dto else None)\<rparr>\<rparr>)
                        (backup_jobs s)\<rparr>
                  in (job_getRow s1 i, s1)))))"

definition createRun :: "time \<Rightarrow> uuid \<Rightarrow> uuid \<Rightarrow> run_trigger \<Rightarrow> server \<Rightarrow> server" where
  "createRun now new_id jobId trig s =
     s\<lparr>job_runs := insert_row (default_run new_id jobId KBackup trig Queued now) (job_runs s)\<rparr>"

section \<open>The host boundary\<close>

text \<open>What a job does to a host's file system: where it runs, what it reads, its scripts.\<close>

definition host_fields :: "backup_job \<Rightarrow> source_location \<times> uuid option \<times> string list \<times> restic_options" where
  "host_fields j = (bj_location j, bj_agent_id j, bj_paths j, bj_restic_options j)"

lemma set_opt_simps [simp]: "set_opt upd None = id" "set_opt upd (Some v) = upd v"
  by (simp_all add: set_opt_def fun_eq_iff)

lemma job_patch_host:
  assumes "\<not> touchesHost dto"
  shows "host_fields (job_patch s i dto j) = host_fields j"
proof -
  have keep: "host_fields (set_opt upd x j) = host_fields j"
    if "\<And>v j. host_fields (upd v j) = host_fields j" for upd :: "'z \<Rightarrow> backup_job \<Rightarrow> backup_job" and x j
    using that by (cases x) simp_all
  from assms have "uj_location dto = None" "uj_agent_id dto = None" "uj_paths dto = None"
    "uj_restic_options dto = None" by (simp_all add: touchesHost_def)
  then show ?thesis
    by (simp add: job_patch_def keep [unfolded host_fields_def] host_fields_def set_opt_def split: option.split)
qed

lemma job_patch_keys:
  "bj_id (job_patch s i dto j) = bj_id j" "bj_repository_id (job_patch s i dto j) = bj_repository_id j"
  by (simp_all add: job_patch_def set_opt_def split: option.split)

lemma override_patch_tables:
  assumes "override_patch c f u dto repo s = (res, s')"
  shows "backup_jobs s' = backup_jobs s" "repositories s' = repositories s" "job_runs s' = job_runs s"
    "restore_runs s' = restore_runs s" "targets s' = targets s"
  using assms
  by (auto simp: override_patch_def Let_def secret_update_def secret_create_def
      split: option.splits sum.splits if_splits bool.splits prod.splits)

lemma job_update_jobs:
  assumes "job_update c vc f u i dto s = (res, s')"
  shows "backup_jobs s' = backup_jobs s \<or>
    can s u RtJob i AlManage \<and> (touchesHost dto \<longrightarrow> ru_is_admin u) \<and>
    backup_jobs s' = update_where (\<lambda>j. bj_id j = i) (job_patch s i dto) (backup_jobs s)"
  using assms override_patch_tables
  by (fastforce simp: job_update_def Let_def secret_update_def remove_credential_secret_def secret_remove_def
      acl_assert_iff split: sum.splits if_splits prod.splits option.splits)

lemma job_update_host:
  assumes "\<not> ru_is_admin u"
  shows "map host_fields (backup_jobs (snd (job_update c vc f u i dto s))) =
    map host_fields (backup_jobs s)"
proof -
  obtain res s' where e: "job_update c vc f u i dto s = (res, s')" by fastforce
  show ?thesis
  proof (cases "touchesHost dto")
    case True
    with job_update_jobs [OF e] assms e show ?thesis by auto
  next
    case False
    then have "map host_fields (update_where (\<lambda>j. bj_id j = i) (job_patch s i dto) js) = map host_fields js" for js
      by (simp add: update_where_def job_patch_host)
    with job_update_jobs [OF e] e show ?thesis by auto
  qed
qed

lemma setIntegrityCheck_host:
  "map host_fields (backup_jobs (snd (setIntegrityCheck vc u i dto s))) = map host_fields (backup_jobs s)"
  by (auto simp: setIntegrityCheck_def Let_def update_where_def host_fields_def split: sum.splits if_splits)

lemma job_create_admin_only:
  "\<not> ru_is_admin u \<Longrightarrow> \<exists>m. job_create c vc f u dto s = (Inl (Forbidden m), s)"
  by (simp add: job_create_def validate_create_def)

section \<open>Jobs and repositories stay paired\<close>

definition jobs_paired :: "server \<Rightarrow> bool" where
  "jobs_paired s \<longleftrightarrow>
     distinct (map bj_id (backup_jobs s)) \<and> distinct (map re_id (repositories s)) \<and>
     distinct (map bj_repository_id (backup_jobs s)) \<and>
     bj_repository_id ` set (backup_jobs s) = re_id ` set (repositories s)"

lemma jobs_paired_cong:
  "map (\<lambda>j. (bj_id j, bj_repository_id j)) (backup_jobs s') = map (\<lambda>j. (bj_id j, bj_repository_id j)) (backup_jobs s) \<Longrightarrow>
   map re_id (repositories s') = map re_id (repositories s) \<Longrightarrow> jobs_paired s' = jobs_paired s"
proof -
  assume a: "map (\<lambda>j. (bj_id j, bj_repository_id j)) (backup_jobs s') = map (\<lambda>j. (bj_id j, bj_repository_id j)) (backup_jobs s)"
    and b: "map re_id (repositories s') = map re_id (repositories s)"
  from arg_cong [OF a, of "map fst"] arg_cong [OF a, of "map snd"]
  have "map bj_id (backup_jobs s') = map bj_id (backup_jobs s)"
    "map bj_repository_id (backup_jobs s') = map bj_repository_id (backup_jobs s)" by (simp_all add: comp_def)
  then show ?thesis unfolding jobs_paired_def using b by (metis list.set_map)
qed

lemma job_getRow_ok:
  "job_getRow s i = Inr (j, r) \<Longrightarrow>
     j \<in> set (backup_jobs s) \<and> bj_id j = i \<and> r \<in> set (repositories s) \<and> re_id r = bj_repository_id j"
  by (auto simp: job_getRow_def backup_job_by_id_def repository_by_id_def
      dest: select_first_Some split: option.splits)

lemma distinct_map_delete: "distinct (map f xs) \<Longrightarrow> distinct (map f (delete_where P xs))"
  by (simp add: delete_where_def distinct_map_filter)

lemma paired_delete:
  assumes "jobs_paired s" "j \<in> set (backup_jobs s)" "bj_id j = i"
    and s': "backup_jobs s' = delete_where (\<lambda>k. bj_id k = i) (backup_jobs s)"
    "repositories s' = delete_where (\<lambda>r. re_id r = bj_repository_id j) (repositories s)"
  shows "jobs_paired s'"
proof -
  have uniq: "k = j" if "k \<in> set (backup_jobs s)" "bj_id k = i \<or> bj_repository_id k = bj_repository_id j" for k
    using assms(1-3) that unfolding jobs_paired_def distinct_map inj_on_def by blast
  have "bj_repository_id ` set (backup_jobs s') =
      bj_repository_id ` set (backup_jobs s) - {bj_repository_id j}"
    using uniq assms(2,3) by (auto simp: s' set_delete_where)
  moreover have "re_id ` set (repositories s') = re_id ` set (repositories s) - {bj_repository_id j}"
    by (auto simp: s' set_delete_where)
  ultimately show ?thesis
    using assms(1) unfolding jobs_paired_def by (simp add: s' distinct_map_delete)
qed

lemma job_remove_tables:
  assumes "job_remove u i s = (res, s')"
  shows "(s' = s \<and> is_error res) \<or>
    (\<exists>j r. can s u RtJob i AlManage \<and> job_getRow s i = Inr (j, r) \<and>
       backup_jobs s' = delete_where (\<lambda>k. bj_id k = i) (backup_jobs s) \<and>
       repositories s' = delete_where (\<lambda>q. re_id q = bj_repository_id j) (repositories s) \<and>
       (is_error res \<longleftrightarrow> password_secret_in_use (re_repo_password_secret_id r) s))"
proof (cases "acl_assert s u RtJob i AlManage")
  case (Inl e)
  with assms have "res = Inl e \<and> s' = s" by (simp add: job_remove_def)
  then show ?thesis by simp
next
  case (Inr x)
  show ?thesis
  proof (cases "job_getRow s i")
    case (Inl e)
    with assms Inr have "res = Inl e \<and> s' = s" by (simp add: job_remove_def)
    then show ?thesis by simp
  next
    case r: (Inr jr)
    obtain j r where jr: "jr = (j, r)" by (cases jr)
    have "password_secret_in_use p (s\<lparr>backup_jobs := a, job_runs := b, restore_runs :=
        update_where (\<lambda>r. rr_job_id r = Some i) (\<lambda>r. r\<lparr>rr_job_id := None\<rparr>) (restore_runs s),
        repositories := d, repository_stats_history := e\<rparr>) = password_secret_in_use p s" for p a b d e
      by (simp add: password_secret_in_use_def image_update_where)
    with assms Inr r jr show ?thesis
      by (auto simp: job_remove_def Let_def secret_remove_def remove_credential_secret_def acl_assert_iff
          split: if_splits option.splits)
  qed
qed

lemma job_remove_paired:
  assumes "jobs_paired s"
  shows "jobs_paired (snd (job_remove u i s))"
proof -
  obtain res s' where e: "job_remove u i s = (res, s')" by fastforce
  from job_remove_tables [OF e] show ?thesis
    using assms e paired_delete [OF assms] job_getRow_ok by fastforce
qed

lemma store_job_secrets_tables:
  assumes "store_job_secrets c f pw ov s = (ids, s2)"
  shows "backup_jobs s2 = backup_jobs s" "repositories s2 = repositories s"
  using assms by (auto simp: store_job_secrets_def secret_create_def Let_def split: if_splits)

lemma job_create_paired:
  assumes "jobs_paired s" "jf_job_id f \<notin> bj_id ` set (backup_jobs s)"
    "jf_repo_id f \<notin> re_id ` set (repositories s)"
  shows "jobs_paired (snd (job_create c vc f u dto s))"
proof -
  show ?thesis
  proof (cases "validate_create vc u dto s")
    case (Inl e)
    with assms(1) show ?thesis by (simp add: job_create_def)
  next
    case (Inr x)
    obtain cfg ov where x: "x = (cfg, ov)" by (cases x)
    obtain pw cr s2 where st: "store_job_secrets c f (cj_repo_password dto) ov s = ((pw, cr), s2)"
      by (metis prod.exhaust)
    have keep: "backup_jobs s2 = backup_jobs s" "repositories s2 = repositories s"
      using store_job_secrets_tables [OF st] .
    obtain j r where "backup_jobs (snd (job_create c vc f u dto s)) = insert_row j (backup_jobs s)"
      "repositories (snd (job_create c vc f u dto s)) = insert_row r (repositories s)"
      "bj_id j = jf_job_id f" "bj_repository_id j = jf_repo_id f" "re_id r = jf_repo_id f"
    proof
      show "bj_id (new_job f u dto (uniqueSlug (job_slugs s2) (cj_name dto) None)) = jf_job_id f"
        "bj_repository_id (new_job f u dto (uniqueSlug (job_slugs s2) (cj_name dto) None)) = jf_repo_id f"
        "re_id (new_repository (jf_repo_id f) (cj_name dto)
           (uniqueSlug (repo_slugs s2) (cj_name dto) None) (cj_target_id dto) cfg pw cr) = jf_repo_id f"
        by (simp_all add: new_job_def new_repository_def)
    qed (simp_all add: job_create_def Inr x st keep Let_def)
    then show ?thesis
      using assms unfolding jobs_paired_def by (auto simp: insert_row_def)
  qed
qed

lemma repo_patch_key:
  assumes "override_patch c f u dto repo s = (Inr (ovp, orphan), s')" "repo_location_patch s0 u dto repo = Inr locp"
  shows "re_id ((ovp \<circ> locp \<circ> repo_rename s0 rid dto) r) = re_id r"
proof -
  have "re_id (ovp q) = re_id q" for q
    using assms(1)
    by (auto simp: override_patch_def Let_def split: option.splits sum.splits if_splits bool.splits prod.splits)
  moreover have "re_id (locp q) = re_id q" for q
    using assms(2) by (auto simp: repo_location_patch_def Let_def split: sum.splits if_splits)
  ultimately show ?thesis by (simp add: repo_rename_def set_opt_def split: option.split)
qed

section \<open>Theorems\<close>

text \<open>
  Only administrators decide what is read from a host: no request of another user, with
  whatever grants and API key, changes where a job runs, which paths it reads or which scripts
  it executes, and none creates a job.
\<close>

theorem host_boundary:
  assumes "\<not> ru_is_admin u"
  shows "map host_fields (backup_jobs (snd (job_update c vc f u i dto s))) = map host_fields (backup_jobs s) \<and>
    map host_fields (backup_jobs (snd (setIntegrityCheck vc u i ic s))) = map host_fields (backup_jobs s) \<and>
    (\<exists>m. job_create c vc f u nw s = (Inl (Forbidden m), s))"
  using assms job_update_host setIntegrityCheck_host job_create_admin_only by blast

definition sample_new_job :: create_job where
  "sample_new_job = \<lparr>cj_name = ''Etc'', cj_location = LocLocal, cj_agent_id = None, cj_paths = [''/etc''],
     cj_target_id = None, cj_repo_config = Some [(''path'', JStr ''/repo2'')], cj_repo_credentials = None,
     cj_repo_password = ''pw'', cj_cron_expr = ''0 3 * * *'', cj_restic_options = None, cj_notify = None,
     cj_retry_max = None, cj_retry_delay_seconds = None, cj_enabled = None\<rparr>"

definition sample_job_fresh :: job_fresh where
  "sample_job_fresh = \<lparr>jf_job_id = ''j2'', jf_repo_id = ''p2'', jf_password_secret = ''s2'',
     jf_credential_secret = ''s3'', jf_iv = ''iv'', jf_iv2 = ''iv2''\<rparr>"

lemma sample_job_row [simp]: "job_getRow (sample_server rows) ''j1'' = Inr (sample_job, sample_repository)"
  by (simp add: job_getRow_def)

theorem host_boundary_witness:
  "\<exists>m. job_create sample_crypto (\<lambda>_. True) sample_job_fresh (sample_user False) sample_new_job (sample_server []) =
     (Inl (Forbidden m), sample_server [])"
  using host_boundary [of "sample_user False"] by (simp add: sample_user_def)

lemma job_update_repos:
  assumes "job_update c vc f u i dto s = (res, s')"
  shows "map re_id (repositories s') = map re_id (repositories s)"
proof -
  have "map re_id (update_where P (ovp \<circ> locp \<circ> repo_rename s rid dto) (repositories s2)) = map re_id (repositories s1)"
    if "override_patch c f u dto repo s1 = (Inr (ovp, orphan), s2)" "repo_location_patch s u dto repo = Inr locp"
    for ovp locp rid repo s1 s2 orphan P
    using that repo_patch_key [OF that] override_patch_tables(2) [OF that(1)] by (subst map_update_where) simp_all
  with assms override_patch_tables show ?thesis
    by (fastforce simp: job_update_def Let_def secret_update_def remove_credential_secret_def secret_remove_def
        split: sum.splits if_splits prod.splits option.splits)
qed

lemma job_update_paired:
  assumes "jobs_paired s"
  shows "jobs_paired (snd (job_update c vc f u i dto s))"
proof -
  obtain res s' where u: "job_update c vc f u i dto s = (res, s')" by fastforce
  have "map (\<lambda>j. (bj_id j, bj_repository_id j)) (backup_jobs s') = map (\<lambda>j. (bj_id j, bj_repository_id j)) (backup_jobs s)"
    using job_update_jobs [OF u] by (auto intro!: map_update_where simp: job_patch_keys)
  from jobs_paired_cong [OF this job_update_repos [OF u]] assms u show ?thesis by simp
qed

text \<open>
  C38: Jobs and repositories stay paired: each job has its own repository and each repository
  belongs to one job, after creating, editing and removing jobs in any order.
\<close>

theorem jobs_stay_paired:
  assumes "jobs_paired s" "jf_job_id f \<notin> bj_id ` set (backup_jobs s)" "jf_repo_id f \<notin> re_id ` set (repositories s)"
  shows "jobs_paired (snd (job_create c vc f u nw s)) \<and>
    jobs_paired (snd (job_update c vc f u i dto s)) \<and>
    jobs_paired (snd (job_remove u i s))"
  using assms by (simp add: job_create_paired job_update_paired job_remove_paired)

lemma sample_paired: "jobs_paired (sample_server [])"
  by (simp add: jobs_paired_def)

theorem jobs_stay_paired_witness:
  "jobs_paired (snd (job_create sample_crypto (\<lambda>_. True) sample_job_fresh (sample_user True) sample_new_job (sample_server [])))"
  using jobs_stay_paired [OF sample_paired, of sample_job_fresh]
  by (simp add: sample_job_fresh_def)

text \<open>
  C39: What removing a job does on every path: either nothing happened and an error is
  returned, or the job and its repository are gone, and then the request still fails exactly
  when a restore still refers to the repository's password.
\<close>

theorem job_removal_outcome:
  assumes "job_remove u i s = (res, s')"
  shows "(s' = s \<and> is_error res) \<or>
    (\<exists>j r. can s u RtJob i AlManage \<and> job_getRow s i = Inr (j, r) \<and>
       backup_jobs s' = delete_where (\<lambda>k. bj_id k = i) (backup_jobs s) \<and>
       repositories s' = delete_where (\<lambda>q. re_id q = bj_repository_id j) (repositories s) \<and>
       (is_error res \<longleftrightarrow> password_secret_in_use (re_repo_password_secret_id r) s))"
  using assms by (rule job_remove_tables)

theorem job_removal_outcome_witness:
  "backup_jobs (snd (job_remove (sample_user True) ''j1'' (sample_server []))) = []"
proof -
  obtain res s' where r: "job_remove (sample_user True) ''j1'' (sample_server []) = (res, s')" by fastforce
  then have "\<not> is_error res"
    by (auto simp: job_remove_def acl_assert_def can_def apiKeyAllows_def sample_user_def Let_def
        password_secret_in_use_def secret_remove_def update_where_def)
  with job_removal_outcome [OF r] r show ?thesis by (auto simp: delete_where_def)
qed

end
