(* ===== verification/PruneRunner.thy ===== *)
theory PruneRunner
  imports Jobs
begin

text \<open>
  \<open>server/src/jobs/prune-runner.service.ts\<close>, and the log buffer and abort registry that all
  runners share. Starting a prune inserts its row, registers its abort controller and leaves
  restic running (\<open>BgExecutePrune\<close>); \<open>prune_finish\<close> is what happens when restic returns or
  throws. The lemmas show that a log keeps exactly the last thousand lines and that a prune
  always ends in a final state that tells an abort from a failure.
\<close>

section \<open>Log buffer\<close>

definition MAX_LOG_LINES :: nat where
  "MAX_LOG_LINES = 1000"

definition append_log :: "string list \<Rightarrow> string \<Rightarrow> string list" where
  "append_log lines line =
     (let l = lines @ [line] in if length l > MAX_LOG_LINES then tl l else l)"

definition log_text :: "string list \<Rightarrow> string" where
  "log_text lines = join_with nl (foldl append_log [] lines)"

lemma foldl_append_log:
  "length acc \<le> MAX_LOG_LINES \<Longrightarrow>
   foldl append_log acc lines = drop (length acc + length lines - MAX_LOG_LINES) (acc @ lines)"
proof (induction lines arbitrary: acc)
  case Nil
  then show ?case by simp
next
  case (Cons l ls)
  show ?case
  proof (cases "length acc < MAX_LOG_LINES")
    case True
    then have a: "append_log acc l = acc @ [l]" by (simp add: append_log_def)
    from True show ?thesis by (simp add: a Cons.IH)
  next
    case False
    with Cons.prems have len: "length acc = MAX_LOG_LINES" by simp
    then have a: "append_log acc l = tl (acc @ [l])" by (simp add: append_log_def)
    obtain x xs where acc: "acc = x # xs" using len by (cases acc) (auto simp: MAX_LOG_LINES_def)
    with a have a': "append_log (x # xs) l = xs @ [l]" by simp
    from acc len have m: "MAX_LOG_LINES = Suc (length xs)" by simp
    with Cons.IH [of "xs @ [l]"] show ?thesis by (simp add: a' acc)
  qed
qed

section \<open>Abort controllers\<close>

type_synonym registry = "(uuid \<times> bool) list"

definition registry_set :: "uuid \<Rightarrow> registry \<Rightarrow> registry" where
  "registry_set i r = AList.update i False r"

definition registry_abort :: "uuid \<Rightarrow> registry \<Rightarrow> registry" where
  "registry_abort i r = (if map_of r i = None then r else AList.update i True r)"

definition registry_delete :: "uuid \<Rightarrow> registry \<Rightarrow> registry" where
  "registry_delete i r = AList.delete i r"

definition registered :: "uuid \<Rightarrow> registry \<Rightarrow> bool" where
  "registered i r \<longleftrightarrow> map_of r i \<noteq> None"

definition signal_aborted :: "uuid \<Rightarrow> registry \<Rightarrow> bool" where
  "signal_aborted i r \<longleftrightarrow> map_of r i = Some True"

lemma registry_simps [simp]:
  "registered i (registry_set j r) \<longleftrightarrow> i = j \<or> registered i r"
  "registered i (registry_abort j r) \<longleftrightarrow> registered i r"
  "registered i (registry_delete j r) \<longleftrightarrow> i \<noteq> j \<and> registered i r"
  by (auto simp: registered_def registry_set_def registry_abort_def registry_delete_def
      update_conv' delete_conv' split: if_splits)

lemma signal_aborted_simps [simp]:
  "\<not> signal_aborted i (registry_set i r)"
  "registered i r \<Longrightarrow> signal_aborted i (registry_abort i r)"
  by (auto simp: registered_def signal_aborted_def registry_set_def registry_abort_def update_conv')

section \<open>Prunes\<close>

record prune_run_options =
  po_job_id :: uuid
  po_repository_id :: uuid
  po_trigger :: run_trigger
  po_parent_run_id :: "uuid option"

record prune_outcome =
  pc_job_id :: uuid
  pc_repository_id :: uuid
  pc_trigger :: run_trigger
  pc_parent_run_id :: "uuid option"
  pc_agent_id :: uuid
  pc_success :: bool
  pc_started_at :: time
  pc_finished_at :: time
  pc_error :: "string option"
  pc_log :: "string option"
  pc_stats_reported :: bool

definition prune_cancel :: "uuid \<Rightarrow> server \<Rightarrow> bool \<times> server" where
  "prune_cancel i s =
     (if \<not> registered i (prune_running s) then (False, s)
      else (True, s\<lparr>prune_running := registry_abort i (prune_running s)\<rparr>))"

definition prune_createRow :: "time \<Rightarrow> uuid \<Rightarrow> prune_run_options \<Rightarrow> server \<Rightarrow> server" where
  "prune_createRow now i opts s =
     s\<lparr>job_runs := insert_row
         ((default_run i (po_job_id opts) KPrune (po_trigger opts) Running now)
            \<lparr>jr_parent_run_id := po_parent_run_id opts, jr_started_at := Some now\<rparr>)
         (job_runs s)\<rparr>"

definition prune_start :: "time \<Rightarrow> uuid \<Rightarrow> prune_run_options \<Rightarrow> server \<Rightarrow> server" where
  "prune_start now i opts s =
     (let s1 = prune_createRow now i opts s in
      start_background (BgExecutePrune i (po_repository_id opts))
        (s1\<lparr>prune_running := registry_set i (prune_running s1)\<rparr>))"

text \<open>The rest of \<open>execute\<close>, once \<open>restic.prune\<close> has returned or thrown.\<close>

definition prune_finish :: "time \<Rightarrow> uuid \<Rightarrow> uuid \<Rightarrow> string list \<Rightarrow> unit result \<Rightarrow> server \<Rightarrow> server" where
  "prune_finish now i repo logs res s =
     (let s1 = (case res of
                  Inr _ \<Rightarrow>
                    refreshStatsInBackground repo
                      (s\<lparr>job_runs := update_where (\<lambda>r. jr_id r = i)
                           (\<lambda>r. r\<lparr>jr_status := Success, jr_finished_at := Some now,
                                  jr_log := Some (log_text logs)\<rparr>) (job_runs s)\<rparr>)
                | Inl e \<Rightarrow>
                    s\<lparr>job_runs := update_where (\<lambda>r. jr_id r = i)
                        (\<lambda>r. r\<lparr>jr_status := (if signal_aborted i (prune_running s) then Cancelled else Failed),
                               jr_finished_at := Some now, jr_error := Some (error_message e),
                               jr_log := Some (log_text logs)\<rparr>) (job_runs s)\<rparr>)
      in s1\<lparr>prune_running := registry_delete i (prune_running s1)\<rparr>)"

text \<open>
  \<open>run\<close>: start and wait for the outcome (the caller is a backup with retention). The flag
  says whether the prune is cancelled while it runs.
\<close>

definition prune_run ::
  "time \<Rightarrow> time \<Rightarrow> uuid \<Rightarrow> prune_run_options \<Rightarrow> bool \<Rightarrow> string list \<Rightarrow> unit result \<Rightarrow> server \<Rightarrow> server" where
  "prune_run now later i opts cancelled logs res s =
     (let s1 = prune_createRow now i opts s;
          s2 = s1\<lparr>prune_running := registry_set i (prune_running s1)\<rparr>;
          s3 = (if cancelled then snd (prune_cancel i s2) else s2)
      in prune_finish later i (po_repository_id opts) logs res s3)"

definition prune_record :: "time \<Rightarrow> uuid \<Rightarrow> prune_outcome \<Rightarrow> server \<Rightarrow> server" where
  "prune_record now i oc s =
     (let s1 = s\<lparr>job_runs := insert_row
                   ((default_run i (pc_job_id oc) KPrune (pc_trigger oc)
                       (if pc_success oc then Success else Failed) now)
                      \<lparr>jr_parent_run_id := pc_parent_run_id oc, jr_agent_id := Some (pc_agent_id oc),
                       jr_started_at := Some (pc_started_at oc),
                       jr_finished_at := Some (pc_finished_at oc),
                       jr_error := pc_error oc, jr_log := pc_log oc\<rparr>) (job_runs s)\<rparr>
      in if pc_success oc \<and> \<not> pc_stats_reported oc
         then refreshStatsInBackground (pc_repository_id oc) s1 else s1)"

section \<open>Every prune ends\<close>

lemma prune_finish_run:
  assumes "job_run_by_id k s = Some r"
  shows "job_run_by_id k (prune_finish now i repo logs res s) = Some
    (if k \<noteq> i then r
     else case res of
       Inr _ \<Rightarrow> r\<lparr>jr_status := Success, jr_finished_at := Some now, jr_log := Some (log_text logs)\<rparr>
     | Inl e \<Rightarrow> r\<lparr>jr_status := (if signal_aborted i (prune_running s) then Cancelled else Failed),
                  jr_finished_at := Some now, jr_error := Some (error_message e),
                  jr_log := Some (log_text logs)\<rparr>)"
proof -
  from assms have "jr_id r = k" by (auto simp: job_run_by_id_key dest: jrow.by_key_in)
  with assms show ?thesis
    by (auto simp: prune_finish_def Let_def refreshStatsInBackground_def start_background_def
        job_run_by_id_key jrow.by_key_update split: sum.splits)
qed

lemma prune_run_ends:
  assumes "job_run_by_id i s = None"
  shows "\<exists>r. job_run_by_id i (prune_run now later i opts cancelled logs res s) = Some r \<and>
    jr_finished_at r = Some later \<and>
    jr_status r = (if \<not> is_error res then Success else if cancelled then Cancelled else Failed) \<and>
    \<not> registered i (prune_running (prune_run now later i opts cancelled logs res s))"
proof -
  let ?s1 = "prune_createRow now i opts s"
  let ?s2 = "?s1\<lparr>prune_running := registry_set i (prune_running ?s1)\<rparr>"
  let ?s3 = "if cancelled then snd (prune_cancel i ?s2) else ?s2"
  have "job_runs ?s3 = job_runs ?s1" by (simp add: prune_cancel_def)
  then have "\<exists>r. job_run_by_id i ?s3 = Some r"
    using assms by (simp add: prune_createRow_def default_run_def job_run_by_id_key jrow.by_key_insert)
  then obtain r where "job_run_by_id i ?s3 = Some r" by blast
  from prune_finish_run [OF this, of later i "po_repository_id opts" logs res] show ?thesis
    by (cases res) (simp_all add: prune_run_def Let_def prune_finish_def prune_cancel_def)
qed

section \<open>Theorems\<close>

text \<open>
  The log kept of a run is exactly its last 1000 lines in order, however many lines were
  written, so it cannot grow without bound and never drops a line too early.
\<close>

theorem log_keeps_last_lines:
  "foldl append_log [] lines = drop (length lines - MAX_LOG_LINES) lines \<and>
   length (foldl append_log [] lines) = min MAX_LOG_LINES (length lines)"
  using foldl_append_log [of "[]" lines] by simp

text \<open>
  A prune the server runs always ends in a final state, whatever restic does: success when
  it worked, cancelled when it failed after a cancel request, failed otherwise, with its finish
  time set and its process entry removed.
\<close>

theorem prune_always_settles:
  assumes "job_run_by_id i s = None"
  shows "\<exists>r. job_run_by_id i (prune_run now later i opts cancelled logs res s) = Some r \<and>
    jr_finished_at r = Some later \<and>
    jr_status r = (if \<not> is_error res then Success else if cancelled then Cancelled else Failed) \<and>
    \<not> registered i (prune_running (prune_run now later i opts cancelled logs res s))"
  using assms by (rule prune_run_ends)

definition sample_prune :: prune_run_options where
  "sample_prune = \<lparr>po_job_id = ''j1'', po_repository_id = ''p1'', po_trigger = TrSchedule, po_parent_run_id = None\<rparr>"

theorem prune_always_settles_witness:
  "\<exists>r. job_run_by_id ''x'' (prune_run 1 2 ''x'' sample_prune True [] (Inl (PlainError ''killed'')) (sample_server [])) = Some r
     \<and> jr_status r = Cancelled"
  using prune_always_settles [of "''x''" "sample_server []" 1 2 sample_prune True "[]" "Inl (PlainError ''killed'')"]
  by (auto simp: job_run_by_id_def select_first_def is_error_def)

end
