(* ===== verification/CheckRunner.thy ===== *)
theory CheckRunner
  imports PruneRunner
begin

text \<open>
  \<open>server/src/jobs/check-runner.service.ts\<close>: integrity checks of a repository, on the server
  or on an agent. What \<open>restic check\<close> reports for a resolved repository is the parameter
  \<open>restic_check\<close> (damaged or not, or an error).
  The lemmas show that a check only starts on an idle job, that only a run still \<open>running\<close>
  changes the repository's verdict, that a completed rotation has read every part, and that
  the version comparison is the lexicographic order.
\<close>

section \<open>Definitions\<close>

definition DEFAULT_SUBSET_PARTS :: nat where
  "DEFAULT_SUBSET_PARTS = 12"

definition CHECK_MIN_AGENT_VERSION :: string where
  "CHECK_MIN_AGENT_VERSION = ''1.26.0''"

definition DAMAGED_MESSAGE :: string where
  "DAMAGED_MESSAGE = ''Integrity errors found '' @ em_dash @ '' the log lists the damaged data and how to repair it''"

definition CANCELLED_ON_AGENT_MESSAGE :: string where
  "CANCELLED_ON_AGENT_MESSAGE = ''Cancelled on the agent.''"

text \<open>The status of an outcome is \<open>Success\<close>, \<open>Failed\<close> or \<open>Cancelled\<close>.\<close>

record check_outcome =
  co_status :: run_status
  co_damaged :: bool
  co_error :: "string option"
  co_log :: "string option"

definition parseInfo :: "check_info option \<Rightarrow> check_info" where
  "parseInfo v =
     (case v of
        None \<Rightarrow> \<lparr>ci_level = LvQuick, ci_part = None, ci_parts = None, ci_damaged = None\<rparr>
      | Some i \<Rightarrow> i)"

text \<open>\<open>parseInt(p, 10) || 0\<close>\<close>

definition parse_int :: "string \<Rightarrow> int" where
  "parse_int p =
     (let t = trim_start p;
          neg = (t \<noteq> [] \<and> hd t = CHR ''-'');
          u = (if t \<noteq> [] \<and> (hd t = CHR ''-'' \<or> hd t = CHR ''+'') then tl t else t);
          n = int (digits_value (takeWhile is_digit u))
      in if neg then - n else n)"

definition parse_version :: "string \<Rightarrow> int list" where
  "parse_version s =
     (let t = trim s;
          u = (if t \<noteq> [] \<and> hd t = CHR ''v'' then tl t else t)
      in map parse_int (take 3 (split_on CHR ''.'' u)))"

definition version_part :: "int list \<Rightarrow> nat \<Rightarrow> int" where
  "version_part v i = (if i < length v then v ! i else 0)"

text \<open>The comparison loop from index \<open>i\<close>.\<close>

function version_loop :: "int list \<Rightarrow> int list \<Rightarrow> nat \<Rightarrow> bool" where
  "version_loop pa pb i =
     (if i \<ge> 3 then False
      else if version_part pa i \<noteq> version_part pb i then version_part pa i < version_part pb i
      else version_loop pa pb (i + 1))"
  by pat_completeness auto
termination
  by (relation "measure (\<lambda>(pa, pb, i). 3 - i)") auto

declare version_loop.simps [simp del]

definition versionLess :: "string \<Rightarrow> string \<Rightarrow> bool" where
  "versionLess a b = version_loop (parse_version a) (parse_version b) 0"

definition planCheck :: "backup_job \<Rightarrow> repository \<Rightarrow> integrity_level option \<Rightarrow> check_info" where
  "planCheck job repo level =
     (let config = bj_integrity_check job;
          chosen = or_default (or_default LvQuick (ic_level config)) level
      in if chosen \<noteq> LvRotating
         then \<lparr>ci_level = chosen, ci_part = None, ci_parts = None, ci_damaged = None\<rparr>
         else let parts = or_default DEFAULT_SUBSET_PARTS (ic_subset_parts config);
                  next_part = re_check_subset_next repo;
                  part = (if re_check_subset_parts repo = Some parts \<and> 1 \<le> next_part \<and> next_part \<le> parts
                          then next_part else 1)
              in \<lparr>ci_level = LvRotating, ci_part = Some part, ci_parts = Some parts, ci_damaged = None\<rparr>)"

definition truthy_nat :: "nat option \<Rightarrow> bool" where
  "truthy_nat n \<longleftrightarrow> n \<noteq> None \<and> n \<noteq> Some 0"

definition repositoryPatch :: "time \<Rightarrow> check_info \<Rightarrow> check_outcome \<Rightarrow> repository \<Rightarrow> repository" where
  "repositoryPatch now info oc r =
     (if co_damaged oc
      then r\<lparr>re_check_status := Some CkDamaged, re_check_at := Some now,
             re_check_level := Some (ci_level info), re_check_error := None\<rparr>
      else if co_status oc \<noteq> Success
      then r\<lparr>re_check_error := Some (or_default ''Check failed'' (co_error oc))\<rparr>
      else let r1 = r\<lparr>re_check_status := Some CkPassed, re_check_at := Some now,
                      re_check_level := Some (ci_level info), re_check_error := None\<rparr>;
               r2 = (if ci_level info = LvFull then r1\<lparr>re_data_verified_at := Some now\<rparr> else r1)
           in if ci_level info = LvRotating \<and> truthy_nat (ci_part info) \<and> truthy_nat (ci_parts info)
              then let part = the (ci_part info); parts = the (ci_parts info);
                       r3 = r2\<lparr>re_check_subset_parts := Some parts,
                               re_check_subset_next := part mod parts + 1\<rparr>
                   in if part = parts then r3\<lparr>re_data_verified_at := Some now\<rparr> else r3
              else r2)"

definition check_cancel :: "uuid \<Rightarrow> server \<Rightarrow> bool \<times> server" where
  "check_cancel i s =
     (if \<not> registered i (check_running s) then (False, s)
      else (True, s\<lparr>check_running := registry_abort i (check_running s)\<rparr>))"

definition assertAgentCanCheck :: "server \<Rightarrow> backup_job \<Rightarrow> unit result" where
  "assertAgentCanCheck s job =
     (case bj_agent_id job of
        None \<Rightarrow> Inr ()
      | Some aid \<Rightarrow>
          (case agent_by_id aid s of
             None \<Rightarrow> Inr ()
           | Some a \<Rightarrow>
               (let v = or_default [] (ag_agent_version a) in
                if v \<noteq> [] \<and> versionLess v CHECK_MIN_AGENT_VERSION
                then Inl (Conflict (''Agent '' @ ag_name a @ '' runs version '' @ v
                       @ '', which cannot run integrity checks '' @ em_dash @ '' update it to ''
                       @ CHECK_MIN_AGENT_VERSION @ '' or newer''))
                else Inr ())))"

definition assertIdle :: "server \<Rightarrow> uuid \<Rightarrow> unit result" where
  "assertIdle s jobId =
     (case select_first (\<lambda>r. jr_job_id r = jobId \<and> active_status (jr_status r)) (job_runs s) of
        Some a \<Rightarrow> Inl (Conflict (''A '' @ show_kind (jr_kind a) @ '' of this job is ''
                     @ show_status (jr_status a) @ '' '' @ em_dash
                     @ '' start the check once it has finished''))
      | None \<Rightarrow>
          (case select_first (\<lambda>r. rr_job_id r = Some jobId \<and> active_status (rr_status r)) (restore_runs s) of
             Some _ \<Rightarrow> Inl (Conflict (''A restore from this repository is in progress '' @ em_dash
                         @ '' start the check once it has finished''))
           | None \<Rightarrow> Inr ()))"

definition check_start ::
  "time \<Rightarrow> uuid \<Rightarrow> uuid \<Rightarrow> run_trigger \<Rightarrow> integrity_level option \<Rightarrow> uuid handler" where
  "check_start now i jobId trig level s =
     (case job_getRow s jobId of Inl e \<Rightarrow> (Inl e, s) | Inr (job, repo) \<Rightarrow>
      (let is_local = bj_location job = LocLocal in
       case (if is_local then Inr () else assertAgentCanCheck s job) of Inl e \<Rightarrow> (Inl e, s) | Inr _ \<Rightarrow>
       (case assertIdle s jobId of Inl e \<Rightarrow> (Inl e, s) | Inr _ \<Rightarrow>
        (let info = planCheck job repo level;
             row = (default_run i jobId KCheck trig (if is_local then Running else Queued) now)
                     \<lparr>jr_started_at := (if is_local then Some now else None), jr_check_info := Some info\<rparr>;
             s1 = s\<lparr>job_runs := insert_row row (job_runs s)\<rparr>
         in (Inr i, if is_local
                    then start_background (BgExecuteCheck i (re_id repo) info)
                           (s1\<lparr>check_running := registry_set i (check_running s1)\<rparr>)
                    else s1)))))"

definition check_settle ::
  "time \<Rightarrow> uuid \<Rightarrow> check_info \<Rightarrow> uuid \<Rightarrow> check_outcome \<Rightarrow> server \<Rightarrow> server" where
  "check_settle now i info repoId oc s =
     (let hit = (\<lambda>r. jr_id r = i \<and> jr_status r = Running);
          s1 = s\<lparr>job_runs := update_where hit
                   (\<lambda>r. r\<lparr>jr_status := co_status oc, jr_finished_at := Some now, jr_error := co_error oc,
                          jr_log := co_log oc,
                          jr_check_info := Some (info\<lparr>ci_damaged := Some (co_damaged oc)\<rparr>)\<rparr>)
                   (job_runs s)\<rparr>
      in if count_where hit (job_runs s) = 0 then s1
         else if co_status oc = Cancelled then s1
         else start_background (BgNotifyJobRun i)
                (s1\<lparr>repositories := update_where (\<lambda>r. re_id r = repoId) (repositoryPatch now info oc)
                      (repositories s1)\<rparr>))"

text \<open>
  The rest of \<open>execute\<close>, once restic has answered: \<open>resolved\<close> is what \<open>resolveForJob\<close>
  returned for the job's repository, \<open>restic_check\<close> what restic reports for it. An abort is
  told from a failure.
\<close>

definition check_execute ::
  "(resolved_target \<Rightarrow> check_info \<Rightarrow> bool result) \<Rightarrow> time \<Rightarrow> uuid \<Rightarrow> uuid \<Rightarrow> resolved_target result
   \<Rightarrow> check_info \<Rightarrow> string list \<Rightarrow> server \<Rightarrow> server" where
  "check_execute restic_check now i repoId resolved info logs s =
     (let res = (case resolved of Inl e \<Rightarrow> Inl e | Inr ctx \<Rightarrow> restic_check ctx info);
          oc = (case res of
                  Inr damaged \<Rightarrow>
                    \<lparr>co_status = (if damaged then Failed else Success), co_damaged = damaged,
                     co_error = (if damaged then Some DAMAGED_MESSAGE else None),
                     co_log = Some (log_text logs)\<rparr>
                | Inl e \<Rightarrow>
                    \<lparr>co_status = (if signal_aborted i (check_running s) then Cancelled else Failed),
                     co_damaged = False, co_error = Some (error_message e),
                     co_log = Some (log_text logs)\<rparr>);
          s1 = check_settle now i info repoId oc s
      in s1\<lparr>check_running := registry_delete i (check_running s1)\<rparr>)"

definition recordAgentResult :: "time \<Rightarrow> uuid \<Rightarrow> uuid \<Rightarrow> check_outcome \<Rightarrow> server \<Rightarrow> server" where
  "recordAgentResult now agentId i oc s =
     (case run_with_job i s of
        None \<Rightarrow> s
      | Some (r, j) \<Rightarrow>
          (if jr_agent_id r \<noteq> Some agentId \<or> jr_kind r \<noteq> KCheck then s
           else if co_status oc = Cancelled
           then s\<lparr>job_runs := update_where
                   (\<lambda>q. jr_id q = i \<and> (jr_status q = Running \<or> jr_status q = Cancelled))
                   (\<lambda>q. q\<lparr>jr_status := Cancelled,
                          jr_finished_at := Some (or_default now (jr_finished_at q)),
                          jr_error := Some CANCELLED_ON_AGENT_MESSAGE, jr_log := co_log oc\<rparr>)
                   (job_runs s)\<rparr>
           else check_settle now i (parseInfo (jr_check_info r)) (bj_repository_id j) oc s))"

section \<open>Versions\<close>

definition version_triple :: "string \<Rightarrow> int \<times> int \<times> int" where
  "version_triple s =
     (let v = parse_version s in (version_part v 0, version_part v 1, version_part v 2))"

definition lex3 :: "int \<times> int \<times> int \<Rightarrow> int \<times> int \<times> int \<Rightarrow> bool" where
  "lex3 a b \<longleftrightarrow>
     fst a < fst b \<or> fst a = fst b \<and>
       (fst (snd a) < fst (snd b) \<or> fst (snd a) = fst (snd b) \<and> snd (snd a) < snd (snd b))"

lemma versionLess_lex: "versionLess a b \<longleftrightarrow> lex3 (version_triple a) (version_triple b)"
  unfolding versionLess_def version_triple_def lex3_def Let_def
  by (subst version_loop.simps, subst version_loop.simps, subst version_loop.simps,
      subst version_loop.simps) (auto simp: numeral_2_eq_2)

lemma versionLess_trans: "versionLess a b \<Longrightarrow> versionLess b c \<Longrightarrow> versionLess a c"
  by (auto simp: versionLess_lex lex3_def)

lemma versionLess_irrefl: "\<not> versionLess a a"
  by (simp add: versionLess_lex lex3_def)

section \<open>A check starts on an idle job\<close>

definition job_idle :: "server \<Rightarrow> uuid \<Rightarrow> bool" where
  "job_idle s jobId \<longleftrightarrow>
     (\<forall>r \<in> set (job_runs s). jr_job_id r = jobId \<longrightarrow> terminal_status (jr_status r)) \<and>
     (\<forall>r \<in> set (restore_runs s). rr_job_id r = Some jobId \<longrightarrow> terminal_status (rr_status r))"

lemma assertIdle_iff: "assertIdle s jobId = Inr () \<longleftrightarrow> job_idle s jobId"
  unfolding assertIdle_def job_idle_def terminal_iff_not_active
  by (auto simp: select_first_None dest: select_first_Some split: option.splits)

lemma check_start_ok:
  assumes "check_start now i jobId trig level s = (Inr k, s')"
  obtains job repo row where "k = i" "job_getRow s jobId = Inr (job, repo)" "job_idle s jobId"
    "job_runs s' = insert_row row (job_runs s)" "jr_id row = i" "jr_job_id row = jobId"
    "jr_kind row = KCheck" "jr_check_info row = Some (planCheck job repo level)"
    "jr_status row = (if bj_location job = LocLocal then Running else Queued)"
    "jr_started_at row = (if bj_location job = LocLocal then Some now else None)"
    "jr_finished_at row = None" "jr_attempt row = 1" "jr_retry_of_run_id row = None"
  using assms
  by (auto simp: check_start_def Let_def default_run_def start_background_def assertIdle_iff
      split: sum.splits if_splits)

lemma check_start_error_state:
  "check_start now i jobId trig level s = (Inl e, s') \<Longrightarrow> s' = s"
  by (auto simp: check_start_def Let_def split: sum.splits if_splits)

section \<open>Only a running check changes the verdict\<close>

lemma check_settle_not_running:
  assumes "\<forall>r \<in> set (job_runs s). jr_id r = i \<longrightarrow> jr_status r \<noteq> Running"
  shows "check_settle now i info repoId oc s = s"
proof -
  from assms have "count_where (\<lambda>r. jr_id r = i \<and> jr_status r = Running) (job_runs s) = 0" by auto
  moreover from assms
  have "update_where (\<lambda>r. jr_id r = i \<and> jr_status r = Running) f (job_runs s) = job_runs s" for f
    by (intro update_where_none) auto
  ultimately show ?thesis by (simp add: check_settle_def)
qed

section \<open>A completed rotation has read every part\<close>

text \<open>
  The life of a repository under rotating checks with a fixed number of parts: each check is
  planned from the repository's columns and its outcome is applied to them. Beside the row,
  the list of the parts that passed, in order.
\<close>

type_synonym rotation = "repository \<times> nat list"

definition passed :: "check_outcome \<Rightarrow> bool" where
  "passed oc \<longleftrightarrow> co_status oc = Success \<and> \<not> co_damaged oc"

definition rotate :: "time \<Rightarrow> backup_job \<Rightarrow> check_outcome \<Rightarrow> rotation \<Rightarrow> rotation" where
  "rotate now job oc st =
     (let info = planCheck job (fst st) (Some LvRotating)
      in (repositoryPatch now info oc (fst st),
          if passed oc then snd st @ [the (ci_part info)] else snd st))"

fun rotations :: "backup_job \<Rightarrow> (time \<times> check_outcome) list \<Rightarrow> rotation \<Rightarrow> rotation" where
  "rotations job [] st = st"
| "rotations job ((now, oc) # xs) st = rotations job xs (rotate now job oc st)"

definition rotation_parts :: "backup_job \<Rightarrow> nat" where
  "rotation_parts job = or_default DEFAULT_SUBSET_PARTS (ic_subset_parts (bj_integrity_check job))"

definition ends_with :: "nat list \<Rightarrow> nat list \<Rightarrow> bool" where
  "ends_with xs suf \<longleftrightarrow> (\<exists>pre. xs = pre @ suf)"

definition rotation_inv :: "backup_job \<Rightarrow> rotation \<Rightarrow> bool" where
  "rotation_inv job st \<longleftrightarrow>
     (re_check_subset_parts (fst st) = Some (rotation_parts job) \<and>
       1 \<le> re_check_subset_next (fst st) \<and> re_check_subset_next (fst st) \<le> rotation_parts job \<longrightarrow>
      ends_with (snd st) [1 ..< re_check_subset_next (fst st)])"

lemma plan_rotating:
  "planCheck job repo (Some LvRotating) =
     \<lparr>ci_level = LvRotating,
      ci_part = Some (if re_check_subset_parts repo = Some (rotation_parts job)
                         \<and> 1 \<le> re_check_subset_next repo \<and> re_check_subset_next repo \<le> rotation_parts job
                      then re_check_subset_next repo else 1),
      ci_parts = Some (rotation_parts job), ci_damaged = None\<rparr>"
  by (simp add: planCheck_def or_default_def rotation_parts_def Let_def)

lemma rotation_step:
  assumes inv: "rotation_inv job st" and pos: "0 < rotation_parts job"
  shows "rotation_inv job (rotate now job oc st)"
    "re_data_verified_at (fst (rotate now job oc st)) = re_data_verified_at (fst st) \<or>
     ends_with (snd (rotate now job oc st)) [1 ..< rotation_parts job + 1]"
proof -
  let ?n = "rotation_parts job" and ?r = "fst st"
  define part where "part = (if re_check_subset_parts ?r = Some ?n \<and> 1 \<le> re_check_subset_next ?r
      \<and> re_check_subset_next ?r \<le> ?n then re_check_subset_next ?r else 1)"
  have range: "1 \<le> part" "part \<le> ?n" using pos by (auto simp: part_def)
  have plan: "planCheck job ?r (Some LvRotating) =
      \<lparr>ci_level = LvRotating, ci_part = Some part, ci_parts = Some ?n, ci_damaged = None\<rparr>"
    by (simp add: plan_rotating part_def)
  have "ends_with (snd st) [1 ..< part]"
    using inv by (auto simp: rotation_inv_def part_def ends_with_def split: if_splits)
  then have seen: "ends_with (snd st @ [part]) [1 ..< part + 1]"
    using range by (auto simp: ends_with_def)
  have list: "snd (rotate now job oc st) = (if passed oc then snd st @ [part] else snd st)"
    by (simp add: rotate_def plan Let_def)
  have row: "fst (rotate now job oc st) =
      repositoryPatch now \<lparr>ci_level = LvRotating, ci_part = Some part, ci_parts = Some ?n, ci_damaged = None\<rparr> oc ?r"
    by (simp add: rotate_def plan Let_def)
  show "rotation_inv job (rotate now job oc st)"
  proof (cases "passed oc")
    case True
    then have "re_check_subset_next (fst (rotate now job oc st)) = (if part = ?n then 1 else part + 1)"
      using range by (auto simp: row passed_def repositoryPatch_def truthy_nat_def Let_def)
    with True seen show ?thesis by (simp add: rotation_inv_def list ends_with_def)
  next
    case False
    then have "re_check_subset_parts (fst (rotate now job oc st)) = re_check_subset_parts ?r"
      "re_check_subset_next (fst (rotate now job oc st)) = re_check_subset_next ?r"
      by (auto simp: row passed_def repositoryPatch_def Let_def)
    with inv False show ?thesis by (simp add: rotation_inv_def list)
  qed
  show "re_data_verified_at (fst (rotate now job oc st)) = re_data_verified_at ?r \<or>
     ends_with (snd (rotate now job oc st)) [1 ..< ?n + 1]"
  proof (cases "passed oc \<and> part = ?n")
    case True
    then show ?thesis using seen by (simp add: list)
  next
    case False
    then show ?thesis by (auto simp: row passed_def repositoryPatch_def Let_def)
  qed
qed

lemma rotations_inv:
  "rotation_inv job st \<Longrightarrow> 0 < rotation_parts job \<Longrightarrow> rotation_inv job (rotations job xs st)"
  by (induction job xs st rule: rotations.induct) (simp_all add: rotation_step)

section \<open>Theorems\<close>

text \<open>
  A check is started only while its job is idle: if a check of the job is accepted, no run
  of the job and no restore from it was queued or running, exactly one row is added, queued
  for the agent of an agent job and running for a local one; when it is refused, nothing changes.
\<close>

theorem check_starts_only_idle:
  assumes "check_start now i jobId trig level s = (res, s')"
  shows "(\<exists>e. res = Inl e \<and> s' = s) \<or>
    (res = Inr i \<and> job_idle s jobId \<and>
     (\<exists>job repo row. job_getRow s jobId = Inr (job, repo) \<and> job_runs s' = insert_row row (job_runs s) \<and>
        jr_id row = i \<and> jr_kind row = KCheck \<and> jr_check_info row = Some (planCheck job repo level) \<and>
        jr_status row = (if bj_location job = LocLocal then Running else Queued)))"
proof (cases res)
  case (Inl e)
  with assms check_start_error_state show ?thesis by blast
next
  case (Inr k)
  show ?thesis by (rule check_start_ok [OF assms [unfolded Inr]]) (use Inr in auto)
qed

theorem check_starts_only_idle_witness:
  "check_start 0 ''x'' ''j1'' TrManual None (sample_server [sample_run ''r1'' KBackup Running]) =
     (fst (check_start 0 ''x'' ''j1'' TrManual None (sample_server [sample_run ''r1'' KBackup Running])),
      sample_server [sample_run ''r1'' KBackup Running])"
proof -
  let ?s = "sample_server [sample_run ''r1'' KBackup Running]"
  obtain res s' where r: "check_start 0 ''x'' ''j1'' TrManual None ?s = (res, s')" by fastforce
  have "\<not> job_idle ?s ''j1''" by (simp add: job_idle_def terminal_status_def)
  with check_starts_only_idle [OF r] r show ?thesis by auto
qed

text \<open>
  A late verdict is ignored: once a check run is no longer running (cancelled, or already
  settled by an earlier result), settling it changes neither the run nor the repository and
  notifies nobody.
\<close>

theorem late_check_result_ignored:
  assumes "\<forall>r \<in> set (job_runs s). jr_id r = i \<longrightarrow> jr_status r \<noteq> Running"
  shows "check_settle now i info repoId oc s = s"
  using assms by (rule check_settle_not_running)

definition sample_outcome :: check_outcome where
  "sample_outcome = \<lparr>co_status = Success, co_damaged = False, co_error = None, co_log = None\<rparr>"

theorem late_check_result_ignored_witness:
  "check_settle 0 ''x'' \<lparr>ci_level = LvFull, ci_part = None, ci_parts = None, ci_damaged = None\<rparr> ''p1'' sample_outcome
      (sample_server [sample_run ''x'' KCheck Cancelled]) = sample_server [sample_run ''x'' KCheck Cancelled]"
  by (rule late_check_result_ignored) simp

text \<open>
  A rotation verifies everything before it says so: starting from a repository without
  progress, after any sequence of rotating checks with any outcomes, whenever a check sets the
  date of full verification, the last passed checks read the parts 1 to n in order, and a part
  that failed or was cut off is read again.
\<close>

theorem rotation_covers_all_parts:
  assumes "re_check_subset_parts repo \<noteq> Some (rotation_parts job)" "0 < rotation_parts job"
    "re_data_verified_at (fst (rotations job (xs @ [(now, oc)]) (repo, []))) \<noteq>
     re_data_verified_at (fst (rotations job xs (repo, [])))"
  shows "ends_with (snd (rotations job (xs @ [(now, oc)]) (repo, []))) [1 ..< rotation_parts job + 1]"
proof -
  have app: "rotations job (ys @ zs) st = rotations job zs (rotations job ys st)" for ys zs st
    by (induction job ys st rule: rotations.induct) simp_all
  have "rotation_inv job (repo, [])" using assms(1) by (simp add: rotation_inv_def)
  then have "rotation_inv job (rotations job xs (repo, []))" using assms(2) by (rule rotations_inv)
  from rotation_step(2) [OF this assms(2), of now oc] assms(3) show ?thesis by (auto simp: app)
qed

theorem rotation_covers_all_parts_witness:
  "ends_with (snd (rotations sample_job [(1, sample_outcome), (2, sample_outcome), (3, sample_outcome)] (sample_repository, []))) [1 ..< 4]"
proof -
  have "ends_with (snd (rotations sample_job ([(1, sample_outcome), (2, sample_outcome)] @ [(3, sample_outcome)])
      (sample_repository, []))) [1 ..< rotation_parts sample_job + 1]"
    by (rule rotation_covers_all_parts)
      (simp_all add: rotation_parts_def rotate_def repositoryPatch_def passed_def plan_rotating sample_outcome_def
        sample_job_def sample_repository_def or_default_def truthy_nat_def Let_def)
  then show ?thesis by (simp add: rotation_parts_def sample_job_def or_default_def)
qed

text \<open>
  Comparing agent versions is the lexicographic order on (major, minor, patch) read from
  the version texts, so it is a strict order: never reflexive, and transitive.
\<close>

theorem version_order:
  "(versionLess a b \<longleftrightarrow> lex3 (version_triple a) (version_triple b)) \<and>
   \<not> versionLess a a \<and> (versionLess a b \<and> versionLess b c \<longrightarrow> versionLess a c)"
  using versionLess_lex versionLess_irrefl versionLess_trans by blast

theorem version_order_witness: "versionLess ''1.9.0'' ''1.26.0'' \<and> \<not> versionLess ''1.26.0'' ''1.26.0''"
proof -
  have "lex3 (version_triple ''1.9.0'') (version_triple ''1.26.0'')" by code_simp
  then show ?thesis using version_order [of "''1.9.0''" "''1.26.0''"] version_order [of "''1.26.0''" "''1.26.0''"] by blast
qed

end
