(* ===== verification/JobRunner.thy ===== *)
theory JobRunner
  imports CheckRunner
begin

text \<open>
  \<open>server/src/jobs/job-runner.service.ts\<close> and \<open>server/src/jobs/scheduler.service.ts\<close>.
  A local backup is three steps, between which other requests are served: \<open>local_begin\<close>
  (load, register, mark running), \<open>local_body\<close> (scripts and restic, computed from what
  they answer), \<open>local_finish\<close> (record the outcome, prune, settle). The answers of scripts
  and restic are the record \<open>exec_env\<close>.
  The lemmas give the outcome of a local run on every branch, which queued runs time out,
  and that a due retry is started once.
\<close>

section \<open>Dispatch\<close>

definition dispatch :: "uuid \<Rightarrow> server \<Rightarrow> server" where
  "dispatch i s =
     (case run_with_job i s of
        None \<Rightarrow> s
      | Some (r, j) \<Rightarrow>
          if bj_location j = LocLocal then start_background (BgExecuteLocal i) s else s)"

definition stale_run :: "config \<Rightarrow> time \<Rightarrow> run_kind \<Rightarrow> job_run \<Rightarrow> bool" where
  "stale_run cfg now kind r \<longleftrightarrow>
     jr_kind r = kind \<and> jr_status r = Queued \<and>
     or_default (jr_created_at r) (jr_not_before r) < now - cf_run_queue_timeout_seconds cfg * 1000"

definition fail_stale :: "config \<Rightarrow> time \<Rightarrow> run_kind \<Rightarrow> string \<Rightarrow> server \<Rightarrow> uuid list \<times> server" where
  "fail_stale cfg now kind reason s =
     (let minutes = (cf_run_queue_timeout_seconds cfg + 30) div 60;
          msg = ''Not picked up within '' @ show_int minutes @ '' min '' @ em_dash @ '' '' @ reason
      in (map jr_id (select_where (stale_run cfg now kind) (job_runs s)),
          s\<lparr>job_runs := update_where (stale_run cfg now kind)
              (\<lambda>r. r\<lparr>jr_status := Failed, jr_finished_at := Some now, jr_error := Some msg\<rparr>)
              (job_runs s)\<rparr>))"

definition failStaleQueuedRuns :: "config \<Rightarrow> time \<Rightarrow> server \<Rightarrow> server" where
  "failStaleQueuedRuns cfg now s =
     (if cf_run_queue_timeout_seconds cfg \<le> 0 then s
      else let (b, s1) = fail_stale cfg now KBackup ''is the agent offline?'' s;
               (k, s2) = fail_stale cfg now KCheck
                           ''is the agent offline or too old for integrity checks?'' s1
           in s2\<lparr>background := background s2 @ map BgFinalize (b @ k)\<rparr>)"

definition due_retry :: "time \<Rightarrow> server \<Rightarrow> job_run \<Rightarrow> bool" where
  "due_retry now s r \<longleftrightarrow>
     jr_kind r = KBackup \<and> jr_status r = Queued \<and>
     (case jr_not_before r of None \<Rightarrow> False | Some t \<Rightarrow> t \<le> now) \<and>
     (\<exists>j \<in> set (backup_jobs s). bj_id j = jr_job_id r \<and> bj_location j = LocLocal)"

definition claim_retries :: "time \<Rightarrow> server \<Rightarrow> uuid list \<times> server" where
  "claim_retries now s =
     (map jr_id (select_where (due_retry now s) (job_runs s)),
      s\<lparr>job_runs := update_where (due_retry now s) (\<lambda>r. r\<lparr>jr_not_before := None\<rparr>) (job_runs s)\<rparr>)"

definition startDueRetries :: "time \<Rightarrow> server \<Rightarrow> server" where
  "startDueRetries now s =
     (let (due, s1) = claim_retries now s in fold dispatch due s1)"

definition runner_cancel :: "uuid \<Rightarrow> server \<Rightarrow> bool \<times> server" where
  "runner_cancel i s =
     (if registered i (job_running s)
      then (True, s\<lparr>job_running := registry_abort i (job_running s)\<rparr>)
      else (False, s))"

section \<open>A local run\<close>

record script_result =
  sr_stdout :: string
  sr_stderr :: string
  sr_error :: "string option"

record backup_result =
  br_snapshot_id :: "string option"
  br_stats :: json

text \<open>What scripts and restic answer during one run, with the lines restic logs.\<close>

record exec_env =
  ee_pre :: script_result
  ee_init :: "unit result"
  ee_backup :: "backup_result result"
  ee_backup_log :: "string list"
  ee_forget :: "(json \<times> nat) result"
  ee_forget_log :: "string list"
  ee_post_success :: script_result
  ee_post_failure :: script_result
  ee_prune :: "unit result"
  ee_prune_log :: "string list"
  ee_prune_cancelled :: bool

text \<open>\<open>runScript\<close>: the lines it logs, and the error it throws.\<close>

definition runScript :: "script_result \<Rightarrow> string list \<times> unit result" where
  "runScript r =
     ((if trim (sr_stdout r) \<noteq> [] then [trim (sr_stdout r)] else []) @
      (if trim (sr_stderr r) \<noteq> [] then [trim (sr_stderr r)] else []),
      case sr_error r of None \<Rightarrow> Inr () | Some m \<Rightarrow> Inl (PlainError (''Script failed: '' @ m)))"

text \<open>\<open>String(err)\<close>\<close>

fun show_error :: "error \<Rightarrow> string" where
  "show_error (BadRequest m) = ''BadRequestException: '' @ m"
| "show_error (Unauthorized m) = ''UnauthorizedException: '' @ m"
| "show_error (Forbidden m) = ''ForbiddenException: '' @ m"
| "show_error (NotFound m) = ''NotFoundException: '' @ m"
| "show_error (Conflict m) = ''ConflictException: '' @ m"
| "show_error (PlainError m) = ''Error: '' @ m"

definition some_tags :: "string list option \<Rightarrow> bool" where
  "some_tags t = (case t of None \<Rightarrow> False | Some l \<Rightarrow> l \<noteq> [])"

definition hasRetention :: "retention \<Rightarrow> bool" where
  "hasRetention r \<longleftrightarrow>
     rt_keep_last r \<noteq> None \<or> rt_keep_hourly r \<noteq> None \<or> rt_keep_daily r \<noteq> None \<or>
     rt_keep_weekly r \<noteq> None \<or> rt_keep_monthly r \<noteq> None \<or> rt_keep_yearly r \<noteq> None \<or>
     rt_keep_within r \<noteq> None \<or> some_tags (rt_keep_tags r) \<or> rt_prune r = Some True"

definition wants_forget :: "restic_options \<Rightarrow> bool" where
  "wants_forget opts = (case ro_retention opts of None \<Rightarrow> False | Some r \<Rightarrow> hasRetention r)"

definition wants_prune :: "restic_options \<Rightarrow> bool" where
  "wants_prune opts = (case ro_retention opts of None \<Rightarrow> False | Some r \<Rightarrow> rt_prune r = Some True)"

record local_success =
  ls_snapshot_id :: "string option"
  ls_stats :: json
  ls_forget :: "json option"

text \<open>
  The stages of the \<open>try\<close> block up to the successful record. Each returns the log so far,
  and the stage's value or the error that leaves the block.
\<close>

definition stage_pre :: "restic_options \<Rightarrow> exec_env \<Rightarrow> string list \<times> unit result" where
  "stage_pre opts e =
     (if or_empty (ro_pre_script opts) = [] then ([], Inr ())
      else let (out, res) = runScript (ee_pre e)
           in ((''[pre-script] '' @ or_empty (ro_pre_script opts)) # out, res))"

definition stage_forget :: "restic_options \<Rightarrow> exec_env \<Rightarrow> string list \<times> json option result" where
  "stage_forget opts e =
     (if \<not> wants_forget opts then ([], Inr None)
      else case ee_forget e of
             Inl er \<Rightarrow> (ee_forget_log e, Inl er)
           | Inr (raw, n) \<Rightarrow>
               (ee_forget_log e @ [''[forget] removed '' @ show_nat n @ '' snapshot(s)''], Inr (Some raw)))"

definition stage_post :: "restic_options \<Rightarrow> exec_env \<Rightarrow> string list" where
  "stage_post opts e =
     (if or_empty (ro_post_success_script opts) = [] then []
      else let (out, res) = runScript (ee_post_success e)
           in (''[post-success-script] '' @ or_empty (ro_post_success_script opts)) # out @
              (case res of Inr _ \<Rightarrow> [] | Inl er \<Rightarrow> [''[post-success-script] '' @ error_message er]))"

definition local_body ::
  "resolved_target result \<Rightarrow> restic_options \<Rightarrow> exec_env \<Rightarrow> string list \<times> local_success result" where
  "local_body resolved opts e =
     (case resolved of Inl er \<Rightarrow> ([], Inl er) | Inr ctx \<Rightarrow>
      (case stage_pre opts e of (l1, Inl er) \<Rightarrow> (l1, Inl er) | (l1, Inr _) \<Rightarrow>
      (case ee_init e of Inl er \<Rightarrow> (l1, Inl er) | Inr _ \<Rightarrow>
      (case ee_backup e of Inl er \<Rightarrow> (l1 @ ee_backup_log e, Inl er) | Inr b \<Rightarrow>
      (case stage_forget opts e of
         (l2, Inl er) \<Rightarrow> (l1 @ ee_backup_log e @ l2, Inl er)
       | (l2, Inr fr) \<Rightarrow>
           (l1 @ ee_backup_log e @ l2 @ stage_post opts e,
            Inr \<lparr>ls_snapshot_id = br_snapshot_id b, ls_stats = br_stats b, ls_forget = fr\<rparr>))))))"

definition loadRunContext :: "uuid \<Rightarrow> server \<Rightarrow> (job_run \<times> backup_job \<times> repository) option" where
  "loadRunContext i s =
     (case run_with_job i s of
        None \<Rightarrow> None
      | Some (r, j) \<Rightarrow>
          (case repository_by_id (bj_repository_id j) s of
             None \<Rightarrow> None
           | Some p \<Rightarrow> if bj_location j \<noteq> LocLocal then None else Some (r, j, p)))"

definition local_begin :: "time \<Rightarrow> uuid \<Rightarrow> server \<Rightarrow> server" where
  "local_begin now i s =
     (case loadRunContext i s of
        None \<Rightarrow> s
      | Some _ \<Rightarrow>
          s\<lparr>job_running := registry_set i (job_running s),
            job_runs := update_where (\<lambda>r. jr_id r = i)
              (\<lambda>r. r\<lparr>jr_status := Running, jr_started_at := Some now\<rparr>) (job_runs s)\<rparr>)"

text \<open>
  The context loaded by \<open>local_begin\<close> is kept by the running process: the rows \<open>r\<close>, \<open>j\<close>,
  \<open>p\<close>, and what \<open>resolveForJob\<close> returned for \<open>p\<close> right after.
\<close>

definition finish_success ::
  "time \<Rightarrow> time \<Rightarrow> uuid \<Rightarrow> job_run \<Rightarrow> backup_job \<Rightarrow> repository \<Rightarrow> exec_env
   \<Rightarrow> string list \<Rightarrow> local_success \<Rightarrow> server \<Rightarrow> server" where
  "finish_success now later prune_id r j p e logs ok s =
     (let s1 = s\<lparr>job_runs := update_where (\<lambda>q. jr_id q = jr_id r)
                   (\<lambda>q. q\<lparr>jr_status := Success, jr_finished_at := Some now,
                          jr_snapshot_id := ls_snapshot_id ok, jr_stats := Some (ls_stats ok),
                          jr_forget_result := ls_forget ok, jr_log := Some (log_text logs)\<rparr>)
                   (job_runs s)\<rparr>;
          s2 = refreshStatsInBackground (re_id p) s1
      in if wants_prune (bj_restic_options j)
         then prune_run now later prune_id
                \<lparr>po_job_id = bj_id j, po_repository_id = re_id p, po_trigger = jr_trigger r,
                 po_parent_run_id = Some (jr_id r)\<rparr>
                (ee_prune_cancelled e) (ee_prune_log e) (ee_prune e) s2
         else s2)"

definition failure_log :: "bool \<Rightarrow> restic_options \<Rightarrow> exec_env \<Rightarrow> string list \<Rightarrow> error \<Rightarrow> string list" where
  "failure_log aborted opts e logs er =
     logs @ [show_error er] @
     (if aborted \<or> or_empty (ro_post_failure_script opts) = [] then []
      else let (out, res) = runScript (ee_post_failure e)
           in (''[post-failure-script] '' @ or_empty (ro_post_failure_script opts)) # out @
              (case res of Inr _ \<Rightarrow> [] | Inl e' \<Rightarrow> [''[post-failure-script] '' @ error_message e']))"

definition finish_failure ::
  "time \<Rightarrow> uuid \<Rightarrow> restic_options \<Rightarrow> exec_env \<Rightarrow> string list \<Rightarrow> error \<Rightarrow> server \<Rightarrow> server" where
  "finish_failure now i opts e logs er s =
     (let aborted = signal_aborted i (job_running s) in
      s\<lparr>job_runs := update_where (\<lambda>q. jr_id q = i)
          (\<lambda>q. q\<lparr>jr_status := (if aborted then Cancelled else Failed), jr_finished_at := Some now,
                 jr_error := Some (error_message er),
                 jr_log := Some (log_text (failure_log aborted opts e logs er))\<rparr>) (job_runs s)\<rparr>)"

definition local_finish ::
  "time \<Rightarrow> time \<Rightarrow> uuid \<Rightarrow> job_run \<Rightarrow> backup_job \<Rightarrow> repository \<Rightarrow> resolved_target result
   \<Rightarrow> exec_env \<Rightarrow> server \<Rightarrow> server" where
  "local_finish now later prune_id r j p resolved e s =
     (let s1 = (case local_body resolved (bj_restic_options j) e of
                  (logs, Inr ok) \<Rightarrow> finish_success now later prune_id r j p e logs ok s
                | (logs, Inl er) \<Rightarrow> finish_failure now (jr_id r) (bj_restic_options j) e logs er s)
      in start_background (BgFinalize (jr_id r))
           (s1\<lparr>job_running := registry_delete (jr_id r) (job_running s1)\<rparr>))"

definition writeStats :: "uuid \<Rightarrow> json \<Rightarrow> server \<Rightarrow> server" where
  "writeStats i st s =
     s\<lparr>job_runs := update_where (\<lambda>r. jr_id r = i) (\<lambda>r. r\<lparr>jr_stats := Some st\<rparr>) (job_runs s)\<rparr>"

section \<open>Schedules\<close>

text \<open>The registered cron jobs: name and expression.\<close>

type_synonym cron_registry = "(string \<times> string) list"

definition cronName :: "uuid \<Rightarrow> string" where
  "cronName i = ''backup-job:'' @ i"

definition checkCronName :: "uuid \<Rightarrow> string" where
  "checkCronName i = ''check-job:'' @ i"

definition register :: "(string \<Rightarrow> bool) \<Rightarrow> string \<Rightarrow> string \<Rightarrow> cron_registry \<Rightarrow> cron_registry" where
  "register valid_cron name e reg = (if valid_cron e then reg @ [(name, e)] else reg)"

definition registerAll :: "(string \<Rightarrow> bool) \<Rightarrow> backup_job \<Rightarrow> cron_registry \<Rightarrow> cron_registry" where
  "registerAll valid_cron j reg =
     (let reg1 = register valid_cron (cronName (bj_id j)) (bj_cron_expr j) reg;
          check = bj_integrity_check j
      in if ic_enabled check = Some True \<and> or_empty (ic_cron_expr check) \<noteq> []
         then register valid_cron (checkCronName (bj_id j)) (or_empty (ic_cron_expr check)) reg1
         else reg1)"

definition ours :: "string \<Rightarrow> bool" where
  "ours name \<longleftrightarrow> starts_with ''backup-job:'' name \<or> starts_with ''check-job:'' name"

definition syncAll :: "(string \<Rightarrow> bool) \<Rightarrow> server \<Rightarrow> cron_registry \<Rightarrow> cron_registry" where
  "syncAll valid_cron s reg =
     fold (registerAll valid_cron) (map fst (listEnabled s)) (filter (\<lambda>(n, e). \<not> ours n) reg)"

definition unregister :: "uuid \<Rightarrow> cron_registry \<Rightarrow> cron_registry" where
  "unregister i reg = filter (\<lambda>(n, e). n \<noteq> cronName i \<and> n \<noteq> checkCronName i) reg"

definition sync :: "(string \<Rightarrow> bool) \<Rightarrow> server \<Rightarrow> uuid \<Rightarrow> cron_registry \<Rightarrow> cron_registry" where
  "sync valid_cron s i reg =
     (case job_getRow s i of
        Inr (j, r) \<Rightarrow> if bj_enabled j then registerAll valid_cron j (unregister i reg) else unregister i reg
      | Inl _ \<Rightarrow> unregister i reg)"

definition trigger :: "time \<Rightarrow> uuid \<Rightarrow> uuid \<Rightarrow> server \<Rightarrow> server" where
  "trigger now new_id jobId s = dispatch new_id (createRun now new_id jobId TrSchedule s)"

definition triggerCheck :: "time \<Rightarrow> uuid \<Rightarrow> uuid \<Rightarrow> server \<Rightarrow> server" where
  "triggerCheck now new_id jobId s = snd (check_start now new_id jobId TrSchedule None s)"

section \<open>The outcome of a local run\<close>

definition script_ok :: "string option \<Rightarrow> script_result \<Rightarrow> bool" where
  "script_ok path r \<longleftrightarrow> or_empty path = [] \<or> sr_error r = None"

lemma stage_pre_ok: "snd (stage_pre opts e) = Inr () \<longleftrightarrow> script_ok (ro_pre_script opts) (ee_pre e)"
  by (auto simp: stage_pre_def script_ok_def runScript_def split: option.splits)

lemma stage_forget_ok: "is_error (snd (stage_forget opts e)) \<longleftrightarrow> wants_forget opts \<and> is_error (ee_forget e)"
  by (auto simp: stage_forget_def split: sum.splits)

lemma local_body_ok:
  "is_error (snd (local_body resolved opts e)) \<longleftrightarrow>
     is_error resolved \<or> \<not> script_ok (ro_pre_script opts) (ee_pre e) \<or> is_error (ee_init e) \<or>
     is_error (ee_backup e) \<or> wants_forget opts \<and> is_error (ee_forget e)"
proof -
  obtain l1 p where p: "stage_pre opts e = (l1, p)" by fastforce
  obtain l2 f where f: "stage_forget opts e = (l2, f)" by fastforce
  have 1: "is_error p \<longleftrightarrow> \<not> script_ok (ro_pre_script opts) (ee_pre e)"
    using stage_pre_ok [of opts e] p by (cases p) simp_all
  have 2: "is_error f \<longleftrightarrow> wants_forget opts \<and> is_error (ee_forget e)"
    using stage_forget_ok [of opts e] f by simp
  show ?thesis unfolding 1 [symmetric] 2 [symmetric]
    by (cases resolved; cases p; cases "ee_init e"; cases "ee_backup e"; cases f)
      (simp_all add: local_body_def p f)
qed

lemma local_body_snapshot:
  "snd (local_body resolved opts e) = Inr ok \<Longrightarrow>
     \<exists>b. ee_backup e = Inr b \<and> ls_snapshot_id ok = br_snapshot_id b \<and> ls_stats ok = br_stats b"
  by (auto simp: local_body_def split: sum.splits prod.splits)

lemma job_run_by_id_update:
  assumes "\<And>r. jr_id (f r) = jr_id r" "job_run_by_id k s = Some q"
  shows "job_run_by_id k (s\<lparr>job_runs := update_where P f (job_runs s)\<rparr>) = Some (if P q then f q else q)"
  using assms by (simp add: job_run_by_id_key jrow.by_key_update)

lemma prune_run_other:
  assumes "job_run_by_id k s = Some q" "k \<noteq> i"
  shows "job_run_by_id k (prune_run now later i opts cancelled logs res s) = Some q"
proof -
  let ?s1 = "prune_createRow now i opts s"
  let ?s2 = "?s1\<lparr>prune_running := registry_set i (prune_running ?s1)\<rparr>"
  let ?s3 = "if cancelled then snd (prune_cancel i ?s2) else ?s2"
  have "job_runs ?s3 = job_runs ?s1" by (simp add: prune_cancel_def)
  then have "job_run_by_id k ?s3 = Some q"
    using assms(1) by (simp add: prune_createRow_def job_run_by_id_key jrow.by_key_insert)
  from prune_finish_run [OF this, of later i "po_repository_id opts" logs res] assms(2)
  show ?thesis by (simp add: prune_run_def Let_def)
qed

lemma prune_run_job_running [simp]:
  "job_running (prune_run now later i opts cancelled logs res s) = job_running s"
  by (simp add: prune_run_def prune_finish_def prune_createRow_def prune_cancel_def Let_def
      refreshStatsInBackground_def start_background_def split: sum.split)

lemma local_finish_run:
  assumes "job_run_by_id (jr_id r) s = Some q" "prune_id \<noteq> jr_id r"
    and body: "local_body resolved (bj_restic_options j) e = (logs, res)"
  shows "\<exists>q'. job_run_by_id (jr_id r) (local_finish now later prune_id r j p resolved e s) = Some q' \<and>
    jr_finished_at q' = Some now \<and>
    jr_status q' = (if \<not> is_error res then Success
                    else if signal_aborted (jr_id r) (job_running s) then Cancelled else Failed) \<and>
    (\<forall>ok. res = Inr ok \<longrightarrow> jr_snapshot_id q' = ls_snapshot_id ok \<and> jr_stats q' = Some (ls_stats ok)) \<and>
    (\<forall>er. res = Inl er \<longrightarrow> jr_error q' = Some (error_message er))"
proof -
  have id: "jr_id q = jr_id r" using assms(1) by (auto simp: job_run_by_id_key dest: jrow.by_key_in)
  have fin: "job_run_by_id k (start_background b (s1\<lparr>job_running := x\<rparr>)) = job_run_by_id k s1" for k b s1 x
    by (simp add: start_background_def job_run_by_id_def)
  show ?thesis
  proof (cases res)
    case (Inl er)
    show ?thesis
      using job_run_by_id_update [OF _ assms(1)] id
      by (simp add: local_finish_def body Inl fin finish_failure_def Let_def)
  next
    case (Inr ok)
    let ?f = "\<lambda>q. q\<lparr>jr_status := Success, jr_finished_at := Some now,
        jr_snapshot_id := ls_snapshot_id ok, jr_stats := Some (ls_stats ok),
        jr_forget_result := ls_forget ok, jr_log := Some (log_text logs)\<rparr>"
    let ?s1 = "s\<lparr>job_runs := update_where (\<lambda>q. jr_id q = jr_id r) ?f (job_runs s)\<rparr>"
    have "job_run_by_id (jr_id r) ?s1 = Some (?f q)"
      using job_run_by_id_update [OF _ assms(1), of ?f "\<lambda>q. jr_id q = jr_id r"] id by simp
    then have "job_run_by_id (jr_id r) (refreshStatsInBackground (re_id p) ?s1) = Some (?f q)"
      by (simp add: refreshStatsInBackground_def start_background_def job_run_by_id_def)
    then have "job_run_by_id (jr_id r) (finish_success now later prune_id r j p e logs ok s) = Some (?f q)"
      using assms(2) by (simp add: finish_success_def Let_def prune_run_other)
    then show ?thesis by (simp add: local_finish_def body Inr fin Let_def)
  qed
qed

lemma local_finish_settles:
  "BgFinalize (jr_id r) \<in> set (background (local_finish now later prune_id r j p resolved e s))"
  "\<not> registered (jr_id r) (job_running (local_finish now later prune_id r j p resolved e s))"
  by (simp_all add: local_finish_def start_background_def Let_def)

section \<open>Time-outs in the queue\<close>

lemma fail_stale_run:
  assumes "job_run_by_id k s = Some q"
  shows "\<exists>m. job_run_by_id k (snd (fail_stale cfg now kind reason s)) =
    Some (if stale_run cfg now kind q
          then q\<lparr>jr_status := Failed, jr_finished_at := Some now, jr_error := Some m\<rparr> else q)"
  using assms by (auto simp: fail_stale_def Let_def job_run_by_id_key jrow.by_key_update)

definition timed_out :: "config \<Rightarrow> time \<Rightarrow> job_run \<Rightarrow> bool" where
  "timed_out cfg now r \<longleftrightarrow>
     0 < cf_run_queue_timeout_seconds cfg \<and> jr_kind r \<noteq> KPrune \<and> jr_status r = Queued \<and>
     or_default (jr_created_at r) (jr_not_before r) < now - cf_run_queue_timeout_seconds cfg * 1000"

lemma failStale_run:
  assumes "job_run_by_id k s = Some q"
  shows "\<exists>m. job_run_by_id k (failStaleQueuedRuns cfg now s) =
    Some (if timed_out cfg now q
          then q\<lparr>jr_status := Failed, jr_finished_at := Some now, jr_error := Some m\<rparr> else q)"
proof (cases "cf_run_queue_timeout_seconds cfg \<le> 0")
  case True
  with assms show ?thesis by (simp add: failStaleQueuedRuns_def timed_out_def)
next
  case False
  let ?s1 = "snd (fail_stale cfg now KBackup ''is the agent offline?'' s)"
  let ?r2 = "''is the agent offline or too old for integrity checks?''"
  obtain m where m: "job_run_by_id k ?s1 = Some (if stale_run cfg now KBackup q
      then q\<lparr>jr_status := Failed, jr_finished_at := Some now, jr_error := Some m\<rparr> else q)"
    using fail_stale_run [OF assms] by blast
  have bg: "job_run_by_id k (t\<lparr>background := b\<rparr>) = job_run_by_id k t" for t b
    by (simp add: job_run_by_id_def)
  have eq: "job_run_by_id k (failStaleQueuedRuns cfg now s) = job_run_by_id k (snd (fail_stale cfg now KCheck ?r2 ?s1))"
    using False by (simp add: failStaleQueuedRuns_def split_beta Let_def bg)
  show ?thesis unfolding eq
    using fail_stale_run [OF m, of cfg now KCheck ?r2] False
    by (cases "jr_kind q") (auto simp: stale_run_def timed_out_def)
qed

lemma failStale_finalized:
  assumes "q \<in> set (job_runs s)" "timed_out cfg now q"
  shows "BgFinalize (jr_id q) \<in> set (background (failStaleQueuedRuns cfg now s))"
proof -
  let ?s1 = "snd (fail_stale cfg now KBackup ''is the agent offline?'' s)"
  have pos: "\<not> cf_run_queue_timeout_seconds cfg \<le> 0" using assms(2) by (simp add: timed_out_def)
  have "jr_id q \<in> set (fst (fail_stale cfg now KBackup ''is the agent offline?'' s)) \<or>
      jr_id q \<in> set (fst (fail_stale cfg now KCheck ''is the agent offline or too old for integrity checks?'' ?s1))"
  proof (cases "jr_kind q")
    case KBackup
    with assms show ?thesis by (auto simp: fail_stale_def timed_out_def stale_run_def set_select_where Let_def)
  next
    case KCheck
    with assms have "q \<in> set (job_runs ?s1)" "stale_run cfg now KCheck q"
      by (auto simp: fail_stale_def timed_out_def stale_run_def set_update_where Let_def)
    then show ?thesis by (auto simp: fail_stale_def set_select_where Let_def)
  qed (use assms in \<open>simp add: timed_out_def\<close>)
  then show ?thesis using pos by (auto simp: failStaleQueuedRuns_def split_beta Let_def)
qed

section \<open>A due retry is started once\<close>

definition retry_claim :: "time \<times> uuid \<Rightarrow> server \<Rightarrow> server" where
  "retry_claim a s = snd (claim_retries (fst a) s)"

text \<open>Rows are addressed by their primary key.\<close>

definition retry_claim_wins :: "time \<times> uuid \<Rightarrow> server \<Rightarrow> bool" where
  "retry_claim_wins a s \<longleftrightarrow> (\<exists>r. job_run_by_id (snd a) s = Some r \<and> due_retry (fst a) s r)"

definition run_ids_unique :: "server \<Rightarrow> bool" where
  "run_ids_unique s \<longleftrightarrow> distinct (map jr_id (job_runs s))"

lemma retry_claim_wins_claimed:
  assumes "run_ids_unique s"
  shows "retry_claim_wins a s \<longleftrightarrow> snd a \<in> set (fst (claim_retries (fst a) s))"
proof
  assume "retry_claim_wins a s"
  then obtain r where r: "jrow.by_key (snd a) (job_runs s) = Some r" "due_retry (fst a) s r"
    by (auto simp: retry_claim_wins_def job_run_by_id_key)
  from jrow.by_key_in [OF r(1)] r(2) show "snd a \<in> set (fst (claim_retries (fst a) s))"
    by (force simp: claim_retries_def set_select_where)
next
  assume "snd a \<in> set (fst (claim_retries (fst a) s))"
  then obtain r where "r \<in> set (job_runs s)" "jr_id r = snd a" "due_retry (fst a) s r"
    by (auto simp: claim_retries_def set_select_where)
  with assms show "retry_claim_wins a s"
    using jrow.by_key_unique [of "job_runs s" r]
    by (auto simp: retry_claim_wins_def run_ids_unique_def job_run_by_id_key jrow.keys_def)
qed

definition retry_taken :: "uuid \<Rightarrow> server \<Rightarrow> bool" where
  "retry_taken i s \<longleftrightarrow>
     (\<forall>r. job_run_by_id i s = Some r \<longrightarrow> jr_not_before r = None \<or> jr_status r \<noteq> Queued)"

text \<open>What else happens to queued and running backups between two ticks.\<close>

datatype runner_event =
    RunnerBegin time uuid
  | RunnerStale config time
  | RunnerStats uuid json
  | RunnerFail time uuid restic_options exec_env "string list" error

fun run_event :: "runner_event \<Rightarrow> server \<Rightarrow> server" where
  "run_event (RunnerBegin now i) s = local_begin now i s"
| "run_event (RunnerStale cfg now) s = failStaleQueuedRuns cfg now s"
| "run_event (RunnerStats i st) s = writeStats i st s"
| "run_event (RunnerFail now i opts e logs er) s = finish_failure now i opts e logs er s"

lemma retry_taken_update:
  assumes "retry_taken k s" "\<And>r. jr_id (f r) = jr_id r"
    "\<And>r. jr_not_before (f r) = None \<or> jr_status (f r) \<noteq> Queued \<or>
         jr_not_before (f r) = jr_not_before r \<and> jr_status (f r) = jr_status r"
    "job_runs s' = update_where P f (job_runs s)"
  shows "retry_taken k s'"
proof -
  have keep: "jr_not_before (f r) = None \<or> jr_status (f r) \<noteq> Queued"
    if "jr_not_before r = None \<or> jr_status r \<noteq> Queued" for r
    using assms(3) [of r] that by auto
  have eq: "job_run_by_id k s' = map_option (\<lambda>r. if P r then f r else r) (job_run_by_id k s)"
    by (simp add: job_run_by_id_key assms(2,4) jrow.by_key_update)
  show ?thesis unfolding retry_taken_def
  proof (intro allI impI)
    fix r assume "job_run_by_id k s' = Some r"
    then obtain q where q: "job_run_by_id k s = Some q" "r = (if P q then f q else q)" using eq by auto
    with assms(1) have "jr_not_before q = None \<or> jr_status q \<noteq> Queued" by (simp add: retry_taken_def)
    with keep [of q] q(2) show "jr_not_before r = None \<or> jr_status r \<noteq> Queued" by auto
  qed
qed

lemma retry_taken_event:
  assumes "retry_taken k s"
  shows "retry_taken k (run_event e s)"
proof (cases e)
  case (RunnerBegin now i)
  have "retry_taken k (s\<lparr>job_running := x, job_runs := update_where (\<lambda>r. jr_id r = i)
      (\<lambda>r. r\<lparr>jr_status := Running, jr_started_at := Some now\<rparr>) (job_runs s)\<rparr>)" for x
    by (rule retry_taken_update [OF assms]) simp_all
  with assms RunnerBegin show ?thesis by (simp add: local_begin_def split: option.splits)
next
  case (RunnerStale cfg now)
  have st: "retry_taken k (snd (fail_stale cfg now kind reason t))" if "retry_taken k t" for kind reason t
    by (rule retry_taken_update [OF that]) (simp_all add: fail_stale_def Let_def)
  have bg: "retry_taken k (t\<lparr>background := b\<rparr>) = retry_taken k t" for t b
    by (simp add: retry_taken_def job_run_by_id_def)
  from assms RunnerStale st show ?thesis
    by (simp add: failStaleQueuedRuns_def split_beta Let_def bg)
next
  case (RunnerStats i st)
  have "retry_taken k (writeStats i st s)"
    by (rule retry_taken_update [OF assms]) (simp_all add: writeStats_def)
  with RunnerStats show ?thesis by simp
next
  case (RunnerFail now i opts ev logs er)
  have "retry_taken k (finish_failure now i opts ev logs er s)"
    by (rule retry_taken_update [OF assms]) (simp_all add: finish_failure_def Let_def)
  with RunnerFail show ?thesis by simp
qed

lemma claim_retries_run:
  "job_run_by_id i (snd (claim_retries now s)) =
     map_option (\<lambda>r. if due_retry now s r then r\<lparr>jr_not_before := None\<rparr> else r) (job_run_by_id i s)"
  by (simp add: claim_retries_def job_run_by_id_key jrow.by_key_update)

interpretation due_retries: claim_once retry_claim retry_claim_wins run_event retry_taken snd
proof
  fix a :: "time \<times> uuid" and s assume "retry_taken (snd a) s"
  then show "\<not> retry_claim_wins a s"
    by (auto simp: retry_taken_def retry_claim_wins_def due_retry_def split: option.splits)
next
  fix a :: "time \<times> uuid" and s assume "retry_claim_wins a s"
  then show "retry_taken (snd a) (retry_claim a s)"
    by (auto simp: retry_taken_def retry_claim_wins_def retry_claim_def claim_retries_run)
next
  fix k s and a :: "time \<times> uuid" assume "retry_taken k s"
  then show "retry_taken k (retry_claim a s)"
    by (auto simp: retry_taken_def retry_claim_def claim_retries_run)
next
  fix k s e assume "retry_taken k s"
  then show "retry_taken k (run_event e s)" by (rule retry_taken_event)
qed

section \<open>Schedules follow the jobs\<close>

definition wanted_crons :: "(string \<Rightarrow> bool) \<Rightarrow> backup_job \<Rightarrow> cron_registry" where
  "wanted_crons valid_cron j = registerAll valid_cron j []"

lemma registerAll_append: "registerAll vc j reg = reg @ wanted_crons vc j"
  by (simp add: wanted_crons_def registerAll_def register_def Let_def)

lemma fold_registerAll: "fold (registerAll vc) js reg = reg @ concat (map (wanted_crons vc) js)"
  by (induction js arbitrary: reg) (simp_all add: registerAll_append)

lemma wanted_crons_ours: "(n, e) \<in> set (wanted_crons vc j) \<Longrightarrow> ours n"
  by (auto simp: wanted_crons_def registerAll_def register_def ours_def cronName_def checkCronName_def
      starts_with_def Let_def split: if_splits)

lemma syncAll_exact:
  "filter (\<lambda>(n, e). ours n) (syncAll vc s reg) =
     concat (map (wanted_crons vc) (map fst (listEnabled s)))"
  "filter (\<lambda>(n, e). \<not> ours n) (syncAll vc s reg) = filter (\<lambda>(n, e). \<not> ours n) reg"
proof -
  let ?new = "concat (map (wanted_crons vc) (map fst (listEnabled s)))"
  have "\<forall>(n, e) \<in> set ?new. ours n" using wanted_crons_ours by auto
  then have "filter (\<lambda>(n, e). ours n) ?new = ?new" "filter (\<lambda>(n, e). \<not> ours n) ?new = []"
    by (auto simp: filter_id_conv filter_empty_conv)
  then show "filter (\<lambda>(n, e). ours n) (syncAll vc s reg) = ?new"
    "filter (\<lambda>(n, e). \<not> ours n) (syncAll vc s reg) = filter (\<lambda>(n, e). \<not> ours n) reg"
    by (auto simp: syncAll_def fold_registerAll filter_empty_conv case_prod_beta')
qed

section \<open>Theorems\<close>


definition sample_env :: "backup_result result \<Rightarrow> exec_env" where
  "sample_env b =
     \<lparr>ee_pre = \<lparr>sr_stdout = [], sr_stderr = [], sr_error = None\<rparr>, ee_init = Inr (), ee_backup = b, ee_backup_log = [],
      ee_forget = Inr (JNull, 0), ee_forget_log = [], ee_post_success = \<lparr>sr_stdout = [], sr_stderr = [], sr_error = None\<rparr>,
      ee_post_failure = \<lparr>sr_stdout = [], sr_stderr = [], sr_error = None\<rparr>, ee_prune = Inr (), ee_prune_log = [],
      ee_prune_cancelled = False\<rparr>"


text \<open>
  The queue timeout fails exactly the runs that waited too long: a queued backup or check
  whose due time (creation, or the end of its retry delay) lies further back than the limit is
  failed and handed on to be retried or notified about; every other run is left alone, and
  with the limit switched off nothing is.
\<close>

theorem stale_runs_exact:
  assumes "job_run_by_id k s = Some q"
  shows "(\<exists>m. job_run_by_id k (failStaleQueuedRuns cfg now s) =
     Some (if timed_out cfg now q
           then q\<lparr>jr_status := Failed, jr_finished_at := Some now, jr_error := Some m\<rparr> else q)) \<and>
    (timed_out cfg now q \<longrightarrow> BgFinalize k \<in> set (background (failStaleQueuedRuns cfg now s)))"
proof -
  have "q \<in> set (job_runs s) \<and> jr_id q = k"
    using assms by (auto simp: job_run_by_id_key dest: jrow.by_key_in)
  with failStale_run [OF assms] failStale_finalized show ?thesis by blast
qed

theorem stale_runs_exact_witness:
  "\<exists>m. job_run_by_id ''r1'' (failStaleQueuedRuns sample_config 100000
        (sample_server [sample_run ''r1'' KBackup Queued])) =
     Some ((sample_run ''r1'' KBackup Queued)\<lparr>jr_status := Failed, jr_finished_at := Some 100000, jr_error := Some m\<rparr>)"
proof -
  have "timed_out sample_config 100000 (sample_run ''r1'' KBackup Queued)"
    by (simp add: timed_out_def or_default_def sample_run_def sample_config_def)
  then show ?thesis
    using stale_runs_exact [of "''r1''" "sample_server [sample_run ''r1'' KBackup Queued]" _ sample_config 100000] by simp
qed

text \<open>The ticks that claim run \<open>k\<close> in a sequence of ticks (by time) and other steps of the runner.\<close>

fun retry_starts :: "uuid \<Rightarrow> (time, runner_event) cstep list \<Rightarrow> server \<Rightarrow> nat" where
  "retry_starts k [] s = 0"
| "retry_starts k (Claim now # xs) s =
     (if k \<in> set (fst (claim_retries now s)) then 1 else 0) + retry_starts k xs (snd (claim_retries now s))"
| "retry_starts k (Other e # xs) s = retry_starts k xs (run_event e s)"

lemma run_event_ids: "map jr_id (job_runs (run_event e s)) = map jr_id (job_runs s)"
  by (cases e)
    (auto simp: local_begin_def failStaleQueuedRuns_def fail_stale_def writeStats_def finish_failure_def Let_def
      map_update_where split: option.splits)

lemma retry_starts_successes:
  "run_ids_unique s \<Longrightarrow>
   retry_starts k xs s = due_retries.successes k (map (map_cstep (\<lambda>now. (now, k)) id) xs) s"
proof (induction k xs s rule: retry_starts.induct)
  case (2 k now xs s)
  then have "run_ids_unique (snd (claim_retries now s))"
    by (simp add: run_ids_unique_def claim_retries_def map_update_where)
  moreover have "retry_claim (now, k) s = snd (claim_retries now s)"
    "retry_claim_wins (now, k) s \<longleftrightarrow> k \<in> set (fst (claim_retries now s))"
    using retry_claim_wins_claimed [OF "2.prems", of "(now, k)"] by (simp_all add: retry_claim_def)
  ultimately show ?case using "2.IH" by simp
next
  case (3 k e xs s)
  then have "run_ids_unique (run_event e s)" by (simp add: run_ids_unique_def run_event_ids)
  with 3 show ?case by simp
qed simp

text \<open>
  A due retry is started once: however the ticks that start retries interleave with runs
  beginning, failing and timing out, at most one tick claims a given queued retry.
\<close>

theorem due_retry_started_once:
  assumes "run_ids_unique s"
  shows "retry_starts k steps s \<le> 1"
  using due_retries.at_most_one_success by (simp add: retry_starts_successes [OF assms])

theorem due_retry_started_once_witness:
  "retry_starts ''r1'' [Claim 10, Claim 20] (sample_server [(sample_run ''r1'' KBackup Queued)\<lparr>jr_not_before := Some 5\<rparr>]) \<le> 1"
  by (rule due_retry_started_once) (simp add: run_ids_unique_def)

text \<open>
  After a resync the schedule is exactly what the database says: the registered cron
  entries of the program are, in order, those of the enabled jobs, old ones are gone, and
  entries of others are untouched.
\<close>

theorem schedule_matches_jobs:
  "filter (\<lambda>(n, e). ours n) (syncAll vc s reg) = concat (map (wanted_crons vc) (map fst (listEnabled s))) \<and>
   filter (\<lambda>(n, e). \<not> ours n) (syncAll vc s reg) = filter (\<lambda>(n, e). \<not> ours n) reg"
  using syncAll_exact by blast

end
