(* ===== verification/Agents.thy ===== *)
theory Agents
  imports JobRunner
begin

text \<open>
  \<open>server/src/agents/agents.service.ts\<close>: enrollment, polling and task hand-out, progress and
  results, cancellation state and liveness of agents. Generated tokens, keys and ids are
  inputs. Serving the installer script and the agent binary is not modelled.
\<close>

section \<open>Requests and tasks\<close>

record request_agent =
  ra_id :: uuid
  ra_ip :: "string option"

record enroll_dto =
  en_token :: string
  en_agent_name :: "string option"
  en_hostname :: "string option"
  en_os :: "string option"
  en_pubkey :: "string option"
  en_agent_version :: "string option"

record poll_dto =
  pd_restic_version :: "string option"
  pd_agent_version :: "string option"
  pd_capabilities :: "string list option"

record prune_report =
  pr_success :: bool
  pr_started_at :: time
  pr_finished_at :: time
  pr_error :: "string option"
  pr_log :: "string option"

text \<open>The status of a result is \<open>Success\<close>, \<open>Failed\<close> or \<open>Cancelled\<close>.\<close>

record task_result =
  td_status :: run_status
  td_snapshot_id :: "string option"
  td_stats :: "json option"
  td_forget_result :: "json option"
  td_error :: "string option"
  td_log :: "string option"
  td_damaged :: "bool option"
  td_repo_stats :: "(nat option \<times> nat) option"
  td_repo_stats_error :: "string option"
  td_prune :: "prune_report option"

datatype task_type = TaskBackup | TaskRestore | TaskCheck | TaskStats

record agent_task =
  at_type :: task_type
  at_task_id :: string
  at_resolved :: resolved_target
  at_job_id :: "uuid option"
  at_job_name :: "string option"
  at_paths :: "string list option"
  at_options :: "restic_options option"
  at_snapshot_id :: "string option"
  at_target_path :: "string option"
  at_included_paths :: "string list option"
  at_restore_options :: "restore_options option"
  at_check_level :: "integrity_level option"
  at_check_subset :: "string option"

definition blank_task :: "task_type \<Rightarrow> string \<Rightarrow> resolved_target \<Rightarrow> agent_task" where
  "blank_task ty i rv =
     \<lparr>at_type = ty, at_task_id = i, at_resolved = rv, at_job_id = None, at_job_name = None,
      at_paths = None, at_options = None, at_snapshot_id = None, at_target_path = None,
      at_included_paths = None, at_restore_options = None, at_check_level = None,
      at_check_subset = None\<rparr>"

definition STATS_TASK_PREFIX :: string where
  "STATS_TASK_PREFIX = ''stats-''"

section \<open>Enrollment\<close>

definition agent_toPublic :: "agent \<Rightarrow> agent" where
  "agent_toPublic a = a\<lparr>ag_agent_key_hash := [], ag_server_privkey := None\<rparr>"

definition agent_slugs :: "server \<Rightarrow> (uuid \<times> string) list" where
  "agent_slugs s = map (\<lambda>a. (ag_id a, ag_slug a)) (agents s)"

definition double_quoted :: "string \<Rightarrow> string" where
  "double_quoted s = [CHR 0x22] @ s @ [CHR 0x22]"

datatype deploy_method = DmBinary | DmDocker | DmDockerCompose

definition installCommand :: "deploy_method \<Rightarrow> string \<Rightarrow> string \<Rightarrow> string option \<Rightarrow> string" where
  "installCommand method baseUrl token name =
     (let image = ''devpatf/amber-backup-agent:latest'';
          nameVal = or_empty name
      in case method of
           DmDocker \<Rightarrow>
             ''docker run -d --restart unless-stopped '' @
             ''-e AMBER_URL='' @ baseUrl @ '' -e AMBER_TOKEN='' @ token @ '' -e AMBER_NAME='' @ double_quoted nameVal @
             '' -v amber-agent:/var/lib/amber-agent '' @ image
         | DmDockerCompose \<Rightarrow>
             join_with [CHR 0x0A]
               [''services:'', ''  amber-agent:'', ''    image: '' @ image, ''    restart: unless-stopped'',
                ''    environment:'', ''      AMBER_URL: '' @ baseUrl, ''      AMBER_TOKEN: '' @ token,
                ''      AMBER_NAME: '' @ double_quoted nameVal, ''    volumes:'',
                ''      - amber-agent:/var/lib/amber-agent'', ''volumes:'', ''  amber-agent:'']
         | DmBinary \<Rightarrow>
             ''curl -sSL '' @ baseUrl @ ''/api/agents/install.sh | AMBER_URL='' @ baseUrl @
             '' AMBER_TOKEN='' @ token @ '' AMBER_NAME='' @ double_quoted nameVal @ '' sh'')"

record enrollment_response =
  er_token :: string
  er_expires_at :: time
  er_deploy_method :: deploy_method
  er_install_command :: string

definition createEnrollmentToken ::
  "crypto \<Rightarrow> config \<Rightarrow> time \<Rightarrow> uuid \<Rightarrow> string \<Rightarrow> uuid \<Rightarrow> string option \<Rightarrow> nat option \<Rightarrow> deploy_method option
   \<Rightarrow> server \<Rightarrow> enrollment_response \<times> server" where
  "createEnrollmentToken c cfg now i token userId name mins dm s =
     (let expires = now + int (or_default 60 mins) * 60000;
          method = or_default DmBinary dm
      in (\<lparr>er_token = token, er_expires_at = expires, er_deploy_method = method,
           er_install_command = installCommand method (base_url cfg) token name\<rparr>,
          s\<lparr>enrollment_tokens := insert_row
             \<lparr>et_id = i, et_token_hash = hashToken c token, et_intended_agent_name = name,
              et_expires_at = expires, et_used_at = None, et_created_by = userId\<rparr> (enrollment_tokens s)\<rparr>))"

text \<open>
  The decrypted view of the setting: whether it is enabled, and its token. Only
  \<open>writeGlobal\<close> writes it, always a text.
\<close>

type_synonym global_view = "bool \<times> string option"

definition readGlobal :: "crypto \<Rightarrow> server \<Rightarrow> global_view result" where
  "readGlobal c s =
     (case app_global_enrollment s of
        None \<Rightarrow> Inr (False, None)
      | Some v \<Rightarrow>
          (if or_empty (ge_ciphertext v) = [] \<or> or_empty (ge_nonce v) = [] then Inr (ge_enabled v, None)
           else case decrypt c \<lparr>ep_ciphertext = or_empty (ge_ciphertext v), ep_nonce = or_empty (ge_nonce v)\<rparr> None of
                  Inl e \<Rightarrow> Inl e
                | Inr (PText t) \<Rightarrow> Inr (ge_enabled v, Some t)
                | Inr (PJson _) \<Rightarrow> Inl (PlainError ''Not a token'')))"

text \<open>An empty token is stored as none; \<open>iv\<close> is the random nonce.\<close>

definition writeGlobal :: "crypto \<Rightarrow> string \<Rightarrow> bool \<Rightarrow> string option \<Rightarrow> server \<Rightarrow> server" where
  "writeGlobal c iv enabled token s =
     (let enc = (if or_empty token = [] then None
                 else Some (encrypt c iv (PText (or_empty token)) None))
      in s\<lparr>app_global_enrollment :=
             Some \<lparr>ge_enabled = enabled, ge_ciphertext = map_option ep_ciphertext enc,
                   ge_nonce = map_option ep_nonce enc\<rparr>\<rparr>)"

definition getGlobalEnrollment :: "crypto \<Rightarrow> server \<Rightarrow> global_view result" where
  "getGlobalEnrollment c s =
     (case readGlobal c s of
        Inl e \<Rightarrow> Inl e
      | Inr (enabled, token) \<Rightarrow> Inr (enabled, if enabled then token else None))"

definition setGlobalEnrollment :: "crypto \<Rightarrow> string \<Rightarrow> string \<Rightarrow> bool \<Rightarrow> global_view handler" where
  "setGlobalEnrollment c iv fresh_token enabled s =
     (case readGlobal c s of
        Inl e \<Rightarrow> (Inl e, s)
      | Inr (_, tok) \<Rightarrow>
          (let token = (if enabled then Some (or_default fresh_token tok) else tok)
           in (Inr (enabled, if enabled then token else None), writeGlobal c iv enabled token s)))"

definition rotateGlobalToken :: "crypto \<Rightarrow> string \<Rightarrow> string \<Rightarrow> server \<Rightarrow> global_view \<times> server" where
  "rotateGlobalToken c iv fresh_token s =
     ((True, Some fresh_token), writeGlobal c iv True (Some fresh_token) s)"

definition NAME_PLACEHOLDER :: string where
  "NAME_PLACEHOLDER = ''__AGENT_NAME__''"

text \<open>The rollout commands per method, or none while self-registration is off.\<close>

definition globalEnrollmentInfo ::
  "crypto \<Rightarrow> config \<Rightarrow> server \<Rightarrow> (bool \<times> string option \<times> (string \<times> string) list option) result" where
  "globalEnrollmentInfo c cfg s =
     (case readGlobal c s of
        Inl e \<Rightarrow> Inl e
      | Inr (enabled, token) \<Rightarrow>
          (if \<not> enabled \<or> or_empty token = [] then Inr (False, None, None)
           else let cmd = (\<lambda>m. installCommand m (base_url cfg) (or_empty token) (Some NAME_PLACEHOLDER))
                in Inr (True, token, Some [(''binary'', cmd DmBinary), (''docker'', cmd DmDocker),
                                           (''docker-compose'', cmd DmDockerCompose)])))"

definition matchesGlobalToken :: "crypto \<Rightarrow> string \<Rightarrow> server \<Rightarrow> bool result" where
  "matchesGlobalToken c presented s =
     (case readGlobal c s of
        Inl e \<Rightarrow> Inl e
      | Inr (enabled, token) \<Rightarrow>
          Inr (enabled \<and> or_empty token \<noteq> [] \<and>
               safeCompareHash (hashToken c presented) (hashToken c (or_empty token))))"

text \<open>\<open>enroll\<close> up to the claim: the one-time token to consume, if any, and the agent's name.\<close>

definition enroll_check :: "crypto \<Rightarrow> time \<Rightarrow> enroll_dto \<Rightarrow> server \<Rightarrow> (uuid option \<times> string) result" where
  "enroll_check c now dto s =
     (let given = trim (or_empty (en_agent_name dto)) in
      case matchesGlobalToken c (en_token dto) s of
        Inl e \<Rightarrow> Inl e
      | Inr viaGlobal \<Rightarrow>
      if viaGlobal
      then (if given = [] then Inl (BadRequest ''Agent name is required for enrollment'')
            else Inr (None, given))
      else case select_first (\<lambda>t. et_token_hash t = hashToken c (en_token dto)) (enrollment_tokens s) of
             None \<Rightarrow> Inl (Forbidden ''Invalid enrollment token'')
           | Some t \<Rightarrow>
               (if et_used_at t \<noteq> None then Inl (Forbidden ''Token already used'')
                else if et_expires_at t < now then Inl (Forbidden ''Enrollment token expired'')
                else let pinned = trim (or_empty (et_intended_agent_name t));
                         name = (if pinned \<noteq> [] then pinned else given)
                     in if name = [] then Inl (BadRequest ''Agent name is required for enrollment'')
                        else Inr (Some (et_id t), name)))"

record enroll_fresh =
  ef_agent_id :: uuid
  ef_agent_key :: string
  ef_server_privkey :: string

text \<open>The conditional update that consumes a one-time token.\<close>

definition token_unused :: "uuid \<Rightarrow> enrollment_token \<Rightarrow> bool" where
  "token_unused i t \<longleftrightarrow> et_id t = i \<and> et_used_at t = None"

definition claim_token :: "time \<Rightarrow> uuid \<Rightarrow> server \<Rightarrow> bool \<times> server" where
  "claim_token now i s =
     (count_where (token_unused i) (enrollment_tokens s) \<noteq> 0,
      s\<lparr>enrollment_tokens := update_where (token_unused i) (\<lambda>t. t\<lparr>et_used_at := Some now\<rparr>)
          (enrollment_tokens s)\<rparr>)"

definition insert_agent :: "crypto \<Rightarrow> time \<Rightarrow> enroll_fresh \<Rightarrow> enroll_dto \<Rightarrow> string \<Rightarrow> server \<Rightarrow> server" where
  "insert_agent c now f dto name s =
     s\<lparr>agents := insert_row
         \<lparr>ag_id = ef_agent_id f, ag_name = name, ag_slug = uniqueSlug (agent_slugs s) name None,
          ag_hostname = en_hostname dto, ag_os = en_os dto, ag_deploy_method = ''binary'', ag_status = AgEnrolled,
          ag_last_seen_at = None, ag_agent_key_hash = hashToken c (ef_agent_key f),
          ag_agent_pubkey = en_pubkey dto, ag_server_privkey = Some (ef_server_privkey f),
          ag_agent_version = en_agent_version dto, ag_restic_version = None,
          ag_poll_interval_seconds = 30, ag_labels = [], ag_allowed_ips = [], ag_last_ip = None,
          ag_updated_at = now\<rparr> (agents s)\<rparr>"

text \<open>The rest of \<open>enroll\<close>, which may run after other requests were served.\<close>

definition enroll_commit ::
  "crypto \<Rightarrow> time \<Rightarrow> enroll_fresh \<Rightarrow> enroll_dto \<Rightarrow> uuid option \<times> string \<Rightarrow> (uuid \<times> string) handler" where
  "enroll_commit c now f dto chk s =
     (case fst chk of
        None \<Rightarrow> (Inr (ef_agent_id f, ef_agent_key f), insert_agent c now f dto (snd chk) s)
      | Some tid \<Rightarrow>
          (case claim_token now tid s of
             (False, s1) \<Rightarrow> (Inl (Forbidden ''Token already used''), s1)
           | (True, s1) \<Rightarrow> (Inr (ef_agent_id f, ef_agent_key f), insert_agent c now f dto (snd chk) s1)))"

definition enroll :: "crypto \<Rightarrow> time \<Rightarrow> enroll_fresh \<Rightarrow> enroll_dto \<Rightarrow> (uuid \<times> string) handler" where
  "enroll c now f dto s =
     (case enroll_check c now dto s of
        Inl e \<Rightarrow> (Inl e, s)
      | Inr chk \<Rightarrow> enroll_commit c now f dto chk s)"

section \<open>Managing agents\<close>

record update_agent =
  ua_name :: "string option"
  ua_poll_interval :: "nat option"
  ua_labels :: "string list option"
  ua_allowed_ips :: "string list option"

text \<open>\<open>[...new Set(values.map(trim).filter(Boolean))]\<close>\<close>

definition uniqueTrimmed :: "string list \<Rightarrow> string list" where
  "uniqueTrimmed vs = rev (remdups (rev (filter (\<lambda>v. v \<noteq> []) (map trim vs))))"

definition agent_update :: "time \<Rightarrow> uuid \<Rightarrow> update_agent \<Rightarrow> agent handler" where
  "agent_update now i dto s =
     (let patch = set_opt (\<lambda>v. ag_allowed_ips_update (\<lambda>_. uniqueTrimmed v)) (ua_allowed_ips dto)
                \<circ> set_opt (\<lambda>v. ag_labels_update (\<lambda>_. uniqueTrimmed v)) (ua_labels dto)
                \<circ> set_opt (\<lambda>v. ag_poll_interval_seconds_update (\<lambda>_. v)) (ua_poll_interval dto)
                \<circ> set_opt (\<lambda>n a. a\<lparr>ag_name := n, ag_slug := uniqueSlug (agent_slugs s) n (Some i)\<rparr>) (ua_name dto)
                \<circ> ag_updated_at_update (\<lambda>_. now);
          s1 = s\<lparr>agents := update_where (\<lambda>a. ag_id a = i) patch (agents s)\<rparr>
      in case agent_by_id i s1 of
           None \<Rightarrow> (Inl (NotFound ''Agent not found''), s1)
         | Some a \<Rightarrow> (Inr (agent_toPublic a), s1))"

text \<open>Deleting an agent sets the references to it to null (jobs, runs, restores).\<close>

definition agent_remove :: "uuid \<Rightarrow> server \<Rightarrow> server" where
  "agent_remove i s =
     s\<lparr>agents := delete_where (\<lambda>a. ag_id a = i) (agents s),
       backup_jobs := update_where (\<lambda>j. bj_agent_id j = Some i) (\<lambda>j. j\<lparr>bj_agent_id := None\<rparr>) (backup_jobs s),
       job_runs := update_where (\<lambda>r. jr_agent_id r = Some i) (\<lambda>r. r\<lparr>jr_agent_id := None\<rparr>) (job_runs s),
       restore_runs := update_where (\<lambda>r. rr_agent_id r = Some i) (\<lambda>r. r\<lparr>rr_agent_id := None\<rparr>) (restore_runs s)\<rparr>"

section \<open>Polling\<close>

definition claimable_backup :: "time \<Rightarrow> uuid \<Rightarrow> server \<Rightarrow> job_run \<Rightarrow> bool" where
  "claimable_backup now agentId s r \<longleftrightarrow>
     jr_kind r = KBackup \<and> jr_status r = Queued \<and>
     (case jr_not_before r of None \<Rightarrow> True | Some t \<Rightarrow> t \<le> now) \<and>
     (\<exists>j \<in> set (backup_jobs s). bj_id j = jr_job_id r \<and> bj_agent_id j = Some agentId)"

definition claimable_check :: "uuid \<Rightarrow> server \<Rightarrow> job_run \<Rightarrow> bool" where
  "claimable_check agentId s r \<longleftrightarrow>
     jr_kind r = KCheck \<and> jr_status r = Queued \<and>
     (\<exists>j \<in> set (backup_jobs s). bj_id j = jr_job_id r \<and> bj_agent_id j = Some agentId)"

text \<open>The conditional update that hands a run to an agent.\<close>

definition queued_row :: "uuid \<Rightarrow> job_run \<Rightarrow> bool" where
  "queued_row i r \<longleftrightarrow> jr_id r = i \<and> jr_status r = Queued"

definition claim_run :: "time \<Rightarrow> uuid \<Rightarrow> uuid \<Rightarrow> server \<Rightarrow> bool \<times> server" where
  "claim_run now agentId i s =
     (count_where (queued_row i) (job_runs s) \<noteq> 0,
      s\<lparr>job_runs := update_where (queued_row i)
          (\<lambda>r. r\<lparr>jr_status := Running, jr_agent_id := Some agentId, jr_started_at := Some now\<rparr>)
          (job_runs s)\<rparr>)"

text \<open>
  The loop over the selected runs: claim, resolve, build the task. A repository that cannot
  be resolved ends the loop with an error; what was claimed stays claimed.
\<close>

fun claim_loop ::
  "crypto \<Rightarrow> time \<Rightarrow> uuid \<Rightarrow> (job_run \<times> backup_job \<times> repository \<Rightarrow> resolved_target \<Rightarrow> agent_task)
   \<Rightarrow> (job_run \<times> backup_job \<times> repository) list \<Rightarrow> agent_task list handler" where
  "claim_loop c now agentId mk [] s = (Inr [], s)"
| "claim_loop c now agentId mk (x # xs) s =
     (case claim_run now agentId (jr_id (fst x)) s of
        (False, s1) \<Rightarrow> claim_loop c now agentId mk xs s1
      | (True, s1) \<Rightarrow>
          (case resolveForJob c s1 (snd (snd x)) of
             Inl e \<Rightarrow> (Inl e, s1)
           | Inr rv \<Rightarrow>
               (case claim_loop c now agentId mk xs s1 of
                  (Inl e, s2) \<Rightarrow> (Inl e, s2)
                | (Inr ts, s2) \<Rightarrow> (Inr (mk x rv # ts), s2))))"

definition joined_runs :: "(job_run \<Rightarrow> bool) \<Rightarrow> server \<Rightarrow> (job_run \<times> backup_job \<times> repository) list" where
  "joined_runs P s =
     List.map_filter
       (\<lambda>r. case backup_job_by_id (jr_job_id r) s of
              None \<Rightarrow> None
            | Some j \<Rightarrow> map_option (\<lambda>p. (r, j, p)) (repository_by_id (bj_repository_id j) s))
       (select_where P (job_runs s))"

definition backup_task :: "job_run \<times> backup_job \<times> repository \<Rightarrow> resolved_target \<Rightarrow> agent_task" where
  "backup_task x rv =
     (let r = fst x; j = fst (snd x) in
      (blank_task TaskBackup (jr_id r) rv)
        \<lparr>at_job_id := Some (bj_id j), at_job_name := Some (bj_name j), at_paths := Some (bj_paths j),
         at_options := Some (bj_restic_options j)\<rparr>)"

definition check_task :: "job_run \<times> backup_job \<times> repository \<Rightarrow> resolved_target \<Rightarrow> agent_task" where
  "check_task x rv =
     (let r = fst x; j = fst (snd x); info = parseInfo (jr_check_info r) in
      (blank_task TaskCheck (jr_id r) rv)
        \<lparr>at_job_id := Some (bj_id j), at_job_name := Some (bj_name j),
         at_check_level := Some (ci_level info),
         at_check_subset :=
           (if ci_level info = LvRotating \<and> truthy_nat (ci_part info) \<and> truthy_nat (ci_parts info)
            then Some (show_part (ci_part info) @ ''/'' @ show_part (ci_parts info)) else None)\<rparr>)"

definition claimBackupTasks :: "crypto \<Rightarrow> time \<Rightarrow> uuid \<Rightarrow> agent_task list handler" where
  "claimBackupTasks c now agentId s =
     claim_loop c now agentId backup_task (joined_runs (claimable_backup now agentId s) s) s"

definition claimCheckTasks :: "crypto \<Rightarrow> time \<Rightarrow> uuid \<Rightarrow> agent_task list handler" where
  "claimCheckTasks c now agentId s =
     claim_loop c now agentId check_task (joined_runs (claimable_check agentId s) s) s"

fun resolve_requests :: "crypto \<Rightarrow> server \<Rightarrow> repository list \<Rightarrow> agent_task list result" where
  "resolve_requests c s [] = Inr []"
| "resolve_requests c s (r # rs) =
     (case resolveForJob c s r of
        Inl e \<Rightarrow> Inl e
      | Inr rv \<Rightarrow>
          (case resolve_requests c s rs of
             Inl e \<Rightarrow> Inl e
           | Inr ts \<Rightarrow> Inr (blank_task TaskStats (STATS_TASK_PREFIX @ re_id r) rv # ts)))"

definition claimStatsTasks :: "crypto \<Rightarrow> uuid \<Rightarrow> bool \<Rightarrow> agent_task list handler" where
  "claimStatsTasks c agentId capable s =
     (let (reqs, s1) = claimStatsRequests agentId s in
      if \<not> capable
      then (Inr [], fold (\<lambda>r. refreshStatsInBackground (re_id r)) reqs s1)
      else (resolve_requests c s1 reqs, s1))"

definition queued_restore :: "uuid \<Rightarrow> restore_run \<Rightarrow> bool" where
  "queued_restore i r \<longleftrightarrow> rr_id r = i \<and> rr_status r = Queued"

definition claim_restore :: "time \<Rightarrow> uuid \<Rightarrow> server \<Rightarrow> bool \<times> server" where
  "claim_restore now i s =
     (count_where (queued_restore i) (restore_runs s) \<noteq> 0,
      s\<lparr>restore_runs := update_where (queued_restore i)
          (\<lambda>r. r\<lparr>rr_status := Running, rr_started_at := Some now\<rparr>) (restore_runs s)\<rparr>)"

definition restore_task :: "restore_run \<Rightarrow> resolved_target \<Rightarrow> agent_task" where
  "restore_task r rv =
     (blank_task TaskRestore (rr_id r) rv)
       \<lparr>at_snapshot_id := Some (rr_snapshot_id r),
        at_target_path := Some (or_slash (or_empty (rd_path (rr_destination r)))),
        at_included_paths := rr_included_paths r, at_restore_options := Some (rr_options r)\<rparr>"

fun restore_loop :: "crypto \<Rightarrow> time \<Rightarrow> restore_run list \<Rightarrow> agent_task list handler" where
  "restore_loop c now [] s = (Inr [], s)"
| "restore_loop c now (r # rs) s =
     (case claim_restore now (rr_id r) s of
        (False, s1) \<Rightarrow> restore_loop c now rs s1
      | (True, s1) \<Rightarrow>
          (case resolveForRestore c s1 r of
             Inl e \<Rightarrow> (Inl e, s1)
           | Inr rv \<Rightarrow>
               (case restore_loop c now rs s1 of
                  (Inl e, s2) \<Rightarrow> (Inl e, s2)
                | (Inr ts, s2) \<Rightarrow> (Inr (restore_task r rv # ts), s2))))"

definition claimRestoreTasks :: "crypto \<Rightarrow> time \<Rightarrow> uuid \<Rightarrow> agent_task list handler" where
  "claimRestoreTasks c now agentId s =
     restore_loop c now
       (select_where (\<lambda>r. rr_agent_id r = Some agentId \<and> rr_status r = Queued) (restore_runs s)) s"

definition heartbeat :: "time \<Rightarrow> request_agent \<Rightarrow> poll_dto \<Rightarrow> server \<Rightarrow> server" where
  "heartbeat now ra dto s =
     s\<lparr>agents := update_where (\<lambda>a. ag_id a = ra_id ra)
         (\<lambda>a. a\<lparr>ag_last_seen_at := Some now, ag_status := AgOnline,
                ag_restic_version := pd_restic_version dto, ag_agent_version := pd_agent_version dto,
                ag_last_ip := ra_ip ra, ag_updated_at := now\<rparr>) (agents s)\<rparr>"

text \<open>Tasks, the poll interval, and the version of the bundled agent.\<close>

definition poll ::
  "crypto \<Rightarrow> time \<Rightarrow> string option \<Rightarrow> request_agent \<Rightarrow> poll_dto
   \<Rightarrow> (agent_task list \<times> nat \<times> string option) handler" where
  "poll c now latest ra dto s =
     (let s0 = heartbeat now ra dto s;
          interval = (case agent_by_id (ra_id ra) s0 of None \<Rightarrow> 30 | Some a \<Rightarrow> ag_poll_interval_seconds a);
          caps = or_empty (pd_capabilities dto)
      in case claimBackupTasks c now (ra_id ra) s0 of (Inl e, s1) \<Rightarrow> (Inl e, s1) | (Inr bs, s1) \<Rightarrow>
         (case claimRestoreTasks c now (ra_id ra) s1 of (Inl e, s2) \<Rightarrow> (Inl e, s2) | (Inr rs, s2) \<Rightarrow>
         (case (if ''check'' \<in> set caps then claimCheckTasks c now (ra_id ra) s2 else (Inr [], s2)) of
            (Inl e, s3) \<Rightarrow> (Inl e, s3) | (Inr cs, s3) \<Rightarrow>
         (case claimStatsTasks c (ra_id ra) (''stats'' \<in> set caps) s3 of
            (Inl e, s4) \<Rightarrow> (Inl e, s4)
          | (Inr ss, s4) \<Rightarrow> (Inr (bs @ rs @ cs @ ss, interval, latest), s4)))))"

section \<open>Progress and results\<close>

definition touchAgent :: "time \<Rightarrow> uuid \<Rightarrow> server \<Rightarrow> server" where
  "touchAgent now agentId s =
     s\<lparr>agents := update_where (\<lambda>a. ag_id a = agentId)
         (\<lambda>a. a\<lparr>ag_last_seen_at := Some now, ag_status := AgOnline, ag_updated_at := now\<rparr>) (agents s)\<rparr>"

definition backupProgress :: "uuid \<Rightarrow> uuid \<Rightarrow> json \<Rightarrow> server \<Rightarrow> server" where
  "backupProgress agentId i st s =
     s\<lparr>job_runs := update_where
         (\<lambda>r. jr_id r = i \<and> jr_agent_id r = Some agentId \<and> jr_status r = Running)
         (\<lambda>r. r\<lparr>jr_stats := Some st\<rparr>) (job_runs s)\<rparr>"

definition toStatsReading :: "task_result \<Rightarrow> stats_reading" where
  "toStatsReading dto =
     (case td_repo_stats dto of
        Some (sz, n) \<Rightarrow> Figures sz n
      | None \<Rightarrow> ReadError (or_default (or_default ''stats failed'' (td_error dto)) (td_repo_stats_error dto)))"

definition cancelledOnAgent :: "time \<Rightarrow> task_result \<Rightarrow> job_run \<Rightarrow> job_run" where
  "cancelledOnAgent now dto r =
     r\<lparr>jr_status := Cancelled, jr_finished_at := Some (or_default now (jr_finished_at r)),
       jr_error := Some CANCELLED_ON_AGENT_MESSAGE, jr_log := td_log dto\<rparr>"

definition store_result :: "time \<Rightarrow> task_result \<Rightarrow> job_run \<Rightarrow> job_run" where
  "store_result now dto r =
     r\<lparr>jr_status := td_status dto, jr_finished_at := Some now, jr_snapshot_id := td_snapshot_id dto,
       jr_stats := td_stats dto, jr_forget_result := td_forget_result dto, jr_error := td_error dto,
       jr_log := td_log dto\<rparr>"

definition record_prune ::
  "time \<Rightarrow> uuid \<Rightarrow> uuid \<Rightarrow> job_run \<Rightarrow> backup_job \<Rightarrow> bool \<Rightarrow> prune_report option \<Rightarrow> server \<Rightarrow> server" where
  "record_prune now prune_id agentId r j reported p s =
     (case p of
        None \<Rightarrow> s
      | Some pr \<Rightarrow>
          prune_record now prune_id
            \<lparr>pc_job_id = jr_job_id r, pc_repository_id = bj_repository_id j, pc_trigger = jr_trigger r,
             pc_parent_run_id = Some (jr_id r), pc_agent_id = agentId, pc_success = pr_success pr,
             pc_started_at = pr_started_at pr, pc_finished_at = pr_finished_at pr,
             pc_error = pr_error pr, pc_log = pr_log pr, pc_stats_reported = reported\<rparr> s)"

definition submitBackupResult :: "time \<Rightarrow> uuid \<Rightarrow> uuid \<Rightarrow> uuid \<Rightarrow> task_result \<Rightarrow> unit handler" where
  "submitBackupResult now prune_id agentId i dto s =
     (case run_with_job i s of
        None \<Rightarrow> (Inl (NotFound ''Task not found for this agent''), s)
      | Some (r, j) \<Rightarrow>
          (if jr_agent_id r \<noteq> Some agentId then (Inl (NotFound ''Task not found for this agent''), s)
           else if td_status dto = Cancelled
           then (Inr (), s\<lparr>job_runs := update_where
                   (\<lambda>q. jr_id q = i \<and> (jr_status q = Running \<or> jr_status q = Cancelled))
                   (cancelledOnAgent now dto) (job_runs s)\<rparr>)
           else
             (let s1 = s\<lparr>job_runs := update_where (\<lambda>q. jr_id q = i \<and> jr_status q = Running)
                           (store_result now dto) (job_runs s)\<rparr>;
                  reported = td_repo_stats dto \<noteq> None \<or> td_repo_stats_error dto \<noteq> None;
                  (res, s2) = (if reported
                     then (case recordStats now (bj_repository_id j) (toStatsReading dto) s1 of
                             (Inl e, t) \<Rightarrow> (Inl e, t) | (Inr _, t) \<Rightarrow> (Inr (), t))
                     else if td_status dto = Success
                     then (Inr (), refreshStatsInBackground (bj_repository_id j) s1)
                     else (Inr (), s1))
              in case res of
                   Inl e \<Rightarrow> (Inl e, s2)
                 | Inr _ \<Rightarrow>
                     (Inr (), start_background (BgFinalize i)
                        (record_prune now prune_id agentId r j reported (td_prune dto) s2)))))"

definition restoreProgress :: "uuid \<Rightarrow> uuid \<Rightarrow> json \<Rightarrow> server \<Rightarrow> server" where
  "restoreProgress agentId i st s =
     s\<lparr>restore_runs := update_where
         (\<lambda>r. rr_id r = i \<and> rr_agent_id r = Some agentId \<and> rr_status r = Running)
         (\<lambda>r. r\<lparr>rr_stats := Some st\<rparr>) (restore_runs s)\<rparr>"

definition submitRestoreResult :: "time \<Rightarrow> uuid \<Rightarrow> uuid \<Rightarrow> task_result \<Rightarrow> unit handler" where
  "submitRestoreResult now agentId i dto s =
     (case restore_run_by_id i s of
        None \<Rightarrow> (Inl (NotFound ''Task not found for this agent''), s)
      | Some r \<Rightarrow>
          (if rr_agent_id r \<noteq> Some agentId then (Inl (NotFound ''Task not found for this agent''), s)
           else if td_status dto = Cancelled
           then (Inr (), s\<lparr>restore_runs := update_where
                   (\<lambda>q. rr_id q = i \<and> (rr_status q = Running \<or> rr_status q = Cancelled))
                   (\<lambda>q. q\<lparr>rr_status := Cancelled, rr_finished_at := Some (or_default now (rr_finished_at q)),
                          rr_error := Some CANCELLED_ON_AGENT_MESSAGE, rr_log := td_log dto\<rparr>)
                   (restore_runs s)\<rparr>)
           else (Inr (), s\<lparr>restore_runs := update_where (\<lambda>q. rr_id q = i \<and> rr_status q = Running)
                   (\<lambda>q. q\<lparr>rr_status := td_status dto, rr_finished_at := Some now, rr_stats := td_stats dto,
                          rr_error := td_error dto, rr_log := td_log dto\<rparr>) (restore_runs s)\<rparr>)))"

definition submitStatsResult :: "time \<Rightarrow> uuid \<Rightarrow> uuid \<Rightarrow> task_result \<Rightarrow> unit handler" where
  "submitStatsResult now agentId repoId dto s =
     (if \<not> (\<exists>j \<in> set (backup_jobs s). bj_repository_id j = repoId \<and> bj_agent_id j = Some agentId)
      then (Inl (NotFound ''Task not found for this agent''), s)
      else case recordStats now repoId (toStatsReading dto) s of
             (Inl e, t) \<Rightarrow> (Inl e, t) | (Inr _, t) \<Rightarrow> (Inr (), t))"

definition submitResult :: "time \<Rightarrow> uuid \<Rightarrow> uuid \<Rightarrow> string \<Rightarrow> task_result \<Rightarrow> unit handler" where
  "submitResult now prune_id agentId taskId dto s =
     (let s0 = touchAgent now agentId s in
      if starts_with STATS_TASK_PREFIX taskId
      then submitStatsResult now agentId (drop (length STATS_TASK_PREFIX) taskId) dto s0
      else case select_first (\<lambda>r. jr_id r = taskId \<and> jr_agent_id r = Some agentId) (job_runs s0) of
             None \<Rightarrow> submitRestoreResult now agentId taskId dto s0
           | Some r \<Rightarrow>
               (if jr_kind r = KCheck
                then (Inr (), recordAgentResult now agentId taskId
                        \<lparr>co_status = td_status dto, co_damaged = or_default False (td_damaged dto),
                         co_error = td_error dto, co_log = td_log dto\<rparr> s0)
                else submitBackupResult now prune_id agentId taskId dto s0))"

definition submitProgress :: "time \<Rightarrow> uuid \<Rightarrow> string \<Rightarrow> json \<Rightarrow> server \<Rightarrow> server" where
  "submitProgress now agentId taskId st s =
     (let s0 = touchAgent now agentId s in
      case select_first (\<lambda>r. jr_id r = taskId \<and> jr_agent_id r = Some agentId) (job_runs s0) of
        Some _ \<Rightarrow> backupProgress agentId taskId st s0
      | None \<Rightarrow> restoreProgress agentId taskId st s0)"

definition taskState :: "time \<Rightarrow> uuid \<Rightarrow> string \<Rightarrow> bool handler" where
  "taskState now agentId taskId s =
     (let s0 = touchAgent now agentId s;
          verdict = (\<lambda>st ag. if ag \<noteq> Some agentId then Inl (NotFound ''Task not found for this agent'')
                             else Inr (st = Cancelled))
      in if \<not> isUuid taskId then (Inl (NotFound ''Task not found for this agent''), s0)
         else case job_run_by_id taskId s0 of
                Some r \<Rightarrow> (verdict (jr_status r) (jr_agent_id r), s0)
              | None \<Rightarrow> (case restore_run_by_id taskId s0 of
                          Some r \<Rightarrow> (verdict (rr_status r) (rr_agent_id r), s0)
                        | None \<Rightarrow> (Inr True, s0)))"

section \<open>Liveness\<close>

definition offlineTimeoutSeconds :: "server \<Rightarrow> nat" where
  "offlineTimeoutSeconds s = or_default 120 (app_offline_seconds s)"

definition sweepOffline :: "time \<Rightarrow> server \<Rightarrow> server" where
  "sweepOffline now s =
     (let cutoff = now - int (offlineTimeoutSeconds s) * 1000 in
      s\<lparr>agents := update_where
          (\<lambda>a. ag_status a = AgOnline \<and>
               (case ag_last_seen_at a of None \<Rightarrow> False | Some t \<Rightarrow> t < cutoff))
          (\<lambda>a. a\<lparr>ag_status := AgOffline\<rparr>) (agents s)\<rparr>)"

section \<open>A one-time token enrolls one agent\<close>

text \<open>
  Enrollments are checked first and committed later, so commits of the same token may
  interleave with other commits and with everything else that touches the tables involved.
\<close>

record enroll_attempt =
  at_now :: time
  at_fresh :: enroll_fresh
  at_dto :: enroll_dto
  at_token_id :: uuid
  at_name :: string

definition attempt_commit :: "crypto \<Rightarrow> enroll_attempt \<Rightarrow> (uuid \<times> string) handler" where
  "attempt_commit c a s = enroll_commit c (at_now a) (at_fresh a) (at_dto a) (Some (at_token_id a), at_name a) s"

definition commit_step :: "crypto \<times> enroll_attempt \<Rightarrow> server \<Rightarrow> server" where
  "commit_step a s = snd (attempt_commit (fst a) (snd a) s)"

definition commit_wins :: "crypto \<times> enroll_attempt \<Rightarrow> server \<Rightarrow> bool" where
  "commit_wins a s \<longleftrightarrow> \<not> is_error (fst (attempt_commit (fst a) (snd a) s))"

definition token_spent :: "uuid \<Rightarrow> server \<Rightarrow> bool" where
  "token_spent i s \<longleftrightarrow> (\<forall>t \<in> set (enrollment_tokens s). et_id t = i \<longrightarrow> et_used_at t \<noteq> None)
     \<and> i \<in> et_id ` set (enrollment_tokens s)"

datatype admin_event =
    NewToken crypto config time uuid string uuid "string option" "nat option" "deploy_method option"
  | SetGlobal crypto string string bool
  | RotateGlobal crypto string string
  | AgentEdit time uuid update_agent
  | AgentDelete uuid
  | AgentTouch time uuid
  | OfflineSweep time

text \<open>New tokens get ids that are not in use.\<close>

fun admin_step :: "admin_event \<Rightarrow> server \<Rightarrow> server" where
  "admin_step (NewToken c cfg now i token u name mins dm) s =
     (if i \<in> et_id ` set (enrollment_tokens s) then s
      else snd (createEnrollmentToken c cfg now i token u name mins dm s))"
| "admin_step (SetGlobal c iv tok b) s = snd (setGlobalEnrollment c iv tok b s)"
| "admin_step (RotateGlobal c iv tok) s = snd (rotateGlobalToken c iv tok s)"
| "admin_step (AgentEdit now i dto) s = snd (agent_update now i dto s)"
| "admin_step (AgentDelete i) s = agent_remove i s"
| "admin_step (AgentTouch now i) s = touchAgent now i s"
| "admin_step (OfflineSweep now) s = sweepOffline now s"

lemma admin_step_tokens:
  "enrollment_tokens (admin_step e s) = enrollment_tokens s \<or>
   (\<exists>t. et_id t \<notin> et_id ` set (enrollment_tokens s) \<and> enrollment_tokens (admin_step e s) = insert_row t (enrollment_tokens s))"
proof (cases e)
  case (NewToken c cfg now i token u name mins dm)
  then show ?thesis
    by (cases "i \<in> et_id ` set (enrollment_tokens s)")
      (simp_all add: createEnrollmentToken_def Let_def,
        intro disjI2 exI [of _ "\<lparr>et_id = i, et_token_hash = hashToken c token, et_intended_agent_name = name,
              et_expires_at = now + int (or_default 60 mins) * 60000, et_used_at = None, et_created_by = u\<rparr>"], simp)
qed (auto simp: setGlobalEnrollment_def rotateGlobalToken_def writeGlobal_def
      agent_update_def agent_remove_def touchAgent_def sweepOffline_def Let_def split: sum.splits option.splits)

lemma attempt_commit_tokens:
  "enrollment_tokens (snd (attempt_commit c a s)) =
     update_where (token_unused (at_token_id a)) (\<lambda>t. t\<lparr>et_used_at := Some (at_now a)\<rparr>) (enrollment_tokens s)"
  "\<not> is_error (fst (attempt_commit c a s)) \<longleftrightarrow> (\<exists>t \<in> set (enrollment_tokens s). token_unused (at_token_id a) t)"
  by (auto simp: attempt_commit_def enroll_commit_def claim_token_def insert_agent_def is_error_def count_where_0
      split: bool.split)

lemma claimed_token_spent:
  assumes "t \<in> set (enrollment_tokens s)" "et_id t = i"
    "enrollment_tokens s' = update_where (token_unused i) (\<lambda>t. t\<lparr>et_used_at := Some now\<rparr>) (enrollment_tokens s)"
  shows "token_spent i s'"
proof -
  have "et_id ` set (enrollment_tokens s') = et_id ` set (enrollment_tokens s)"
    unfolding assms(3) by (rule image_update_where) simp
  then show ?thesis unfolding token_spent_def
    using assms by (auto simp: token_unused_def set_update_where simp del: image_update_where)
qed

interpretation enrollments: claim_once commit_step commit_wins admin_step token_spent "\<lambda>a. at_token_id (snd a)"
proof
  fix a :: "crypto \<times> enroll_attempt" and s assume "token_spent (at_token_id (snd a)) s"
  then show "\<not> commit_wins a s"
    by (auto simp: commit_wins_def attempt_commit_tokens token_spent_def token_unused_def)
next
  fix a :: "crypto \<times> enroll_attempt" and s assume "commit_wins a s"
  then obtain t where "t \<in> set (enrollment_tokens s)" "et_id t = at_token_id (snd a)"
    by (auto simp: commit_wins_def attempt_commit_tokens token_unused_def)
  then show "token_spent (at_token_id (snd a)) (commit_step a s)"
    by (auto intro: claimed_token_spent simp: commit_step_def attempt_commit_tokens)
next
  fix k s and a :: "crypto \<times> enroll_attempt" assume "token_spent k s"
  moreover have "et_id ` set (enrollment_tokens (commit_step a s)) = et_id ` set (enrollment_tokens s)"
    unfolding commit_step_def attempt_commit_tokens by (rule image_update_where) simp
  ultimately show "token_spent k (commit_step a s)" unfolding token_spent_def
    by (auto simp: commit_step_def attempt_commit_tokens set_update_where)
next
  fix k s e assume "token_spent k s"
  then show "token_spent k (admin_step e s)"
    using admin_step_tokens [of e s] by (auto simp: token_spent_def set_insert_row)
qed

lemma enroll_check_token:
  assumes "enroll_check c now dto s = Inr (Some tid, name)"
  obtains t where "t \<in> set (enrollment_tokens s)" "et_token_hash t = hashToken c (en_token dto)"
    "et_used_at t = None" "now \<le> et_expires_at t" "et_id t = tid"
proof (cases "select_first (\<lambda>t. et_token_hash t = hashToken c (en_token dto)) (enrollment_tokens s)")
  case None
  with assms show ?thesis by (auto simp: enroll_check_def Let_def split: sum.splits if_splits)
next
  case (Some t)
  with assms have "et_used_at t = None" "now \<le> et_expires_at t" "et_id t = tid"
    by (auto simp: enroll_check_def Let_def split: sum.splits if_splits)
  with select_first_Some [OF Some] that show ?thesis by blast
qed

lemma readGlobal_write:
  assumes "gcm_correct c"
  shows "readGlobal c (writeGlobal c iv enabled token s) =
    Inr (enabled, if or_empty token = [] \<or> iv = [] \<or> gcm_seal c iv None (PText (or_empty token)) = [] then None else token)"
  using assms
  by (auto simp: writeGlobal_def readGlobal_def encrypt_def decrypt_def gcm_correct_def or_empty_def Let_def split: option.splits)

section \<open>Theorems\<close>

text \<open>The successful commits of token \<open>tok\<close> in a sequence of commits and administration.\<close>

fun enrolled :: "uuid \<Rightarrow> (crypto \<times> enroll_attempt, admin_event) cstep list \<Rightarrow> server \<Rightarrow> nat" where
  "enrolled tok [] s = 0"
| "enrolled tok (Claim a # xs) s =
     (case attempt_commit (fst a) (snd a) s of
        (res, s') \<Rightarrow> (if at_token_id (snd a) = tok \<and> \<not> is_error res then 1 else 0) + enrolled tok xs s')"
| "enrolled tok (Other e # xs) s = enrolled tok xs (admin_step e s)"

lemma enrolled_successes: "enrolled tok xs s = enrollments.successes tok xs s"
proof (induction tok xs s rule: enrolled.induct)
  case (2 tok a xs s)
  obtain res s' where c: "attempt_commit (fst a) (snd a) s = (res, s')" by fastforce
  then have "commit_step a s = s'" "commit_wins a s \<longleftrightarrow> \<not> is_error res"
    by (simp_all add: commit_step_def commit_wins_def)
  with 2 c show ?case by simp
qed simp_all

text \<open>
  A one-time enrollment token enrolls at most one agent: among any number of enrollment
  commits for a token, interleaved with one another and with administration, at most one
  succeeds.
\<close>

theorem enrollment_token_once: "enrolled tok steps s \<le> 1"
  using enrollments.at_most_one_success [of tok steps s] by (simp add: enrolled_successes)

text \<open>
  Who gets enrolled: a successful enrollment presented the active global token or the
  unused, unexpired one-time token with that hash, which is used up afterwards; it adds one
  agent whose stored key hash is that of the key returned, under a non-empty name.
\<close>

theorem enroll_outcome:
  assumes "enroll c now f dto s = (Inr (aid, key), s')"
  shows "(matchesGlobalToken c (en_token dto) s = Inr True \<and> enrollment_tokens s' = enrollment_tokens s \<or>
      (\<exists>t \<in> set (enrollment_tokens s). et_token_hash t = hashToken c (en_token dto) \<and> et_used_at t = None \<and>
         now \<le> et_expires_at t \<and> token_spent (et_id t) s')) \<and>
    (\<exists>a. agents s' = insert_row a (agents s) \<and> ag_id a = aid \<and> ag_agent_key_hash a = hashToken c key \<and> ag_name a \<noteq> [])"
proof -
  obtain chk where chk: "enroll_check c now dto s = Inr chk" and cm: "enroll_commit c now f dto chk s = (Inr (aid, key), s')"
    using assms by (auto simp: enroll_def split: sum.splits)
  have name: "snd chk \<noteq> []"
    using chk by (auto simp: enroll_check_def Let_def split: sum.splits if_splits option.splits)
  show ?thesis
  proof (cases "fst chk")
    case None
    then have "matchesGlobalToken c (en_token dto) s = Inr True"
      using chk by (auto simp: enroll_check_def Let_def split: sum.splits if_splits option.splits)
    with None cm name show ?thesis by (auto simp: enroll_commit_def insert_agent_def)
  next
    case (Some tid)
    with chk have "enroll_check c now dto s = Inr (Some tid, snd chk)" by (metis prod.collapse)
    then obtain t where t: "t \<in> set (enrollment_tokens s)" "et_token_hash t = hashToken c (en_token dto)"
      and t2: "et_used_at t = None" "now \<le> et_expires_at t" "et_id t = tid"
      by (rule enroll_check_token)
    from cm Some have s': "s' = insert_agent c now f dto (snd chk) (snd (claim_token now tid s))" "aid = ef_agent_id f" "key = ef_agent_key f"
      by (auto simp: enroll_commit_def split: prod.splits bool.splits)
    then have "token_spent tid s'"
      using t(1) t2(3) by (intro claimed_token_spent [of t s]) (auto simp: insert_agent_def claim_token_def)
    with t t2 s' name show ?thesis by (auto simp: insert_agent_def claim_token_def)
  qed
qed

definition sample_token :: enrollment_token where
  "sample_token = \<lparr>et_id = ''e1'', et_token_hash = hashToken sample_crypto ''tok'', et_intended_agent_name = Some ''nas'',
     et_expires_at = 1000, et_used_at = None, et_created_by = ''u1''\<rparr>"

theorem enroll_outcome_witness:
  "\<exists>aid key s'. enroll sample_crypto 5 \<lparr>ef_agent_id = ''a1'', ef_agent_key = ''k'', ef_server_privkey = ''sp''\<rparr>
      \<lparr>en_token = ''tok'', en_agent_name = None, en_hostname = None, en_os = None, en_pubkey = None, en_agent_version = None\<rparr>
      (empty_server\<lparr>enrollment_tokens := [sample_token]\<rparr>) = (Inr (aid, key), s') \<and> length (agents s') = 1"
proof -
  let ?f = "\<lparr>ef_agent_id = ''a1'', ef_agent_key = ''k'', ef_server_privkey = ''sp''\<rparr>"
  let ?dto = "\<lparr>en_token = ''tok'', en_agent_name = None, en_hostname = None, en_os = None, en_pubkey = None, en_agent_version = None\<rparr>"
  let ?s = "empty_server\<lparr>enrollment_tokens := [sample_token]\<rparr>"
  obtain aid key s' where e: "enroll sample_crypto 5 ?f ?dto ?s = (Inr (aid, key), s')"
    by (simp add: enroll_def enroll_check_def matchesGlobalToken_def readGlobal_def select_first_def sample_token_def
        enroll_commit_def claim_token_def count_where_def token_unused_def empty_server_def trim_def trim_start_def js_space_def or_empty_def Let_def)
  from enroll_outcome [OF e] e show ?thesis by (auto simp: insert_row_def empty_server_def)
qed

text \<open>
  The rollout token survives encryption: after rotating it, a presented token is accepted
  exactly when its hash is that of the new token, and after switching self-registration off
  nothing is accepted. Sealed texts are never empty (they carry an authentication tag).
\<close>

theorem global_token_roundtrip:
  assumes "gcm_correct c" "\<forall>iv p. gcm_seal c iv None p \<noteq> []" "iv \<noteq> []" "token \<noteq> []"
    "s1 = snd (rotateGlobalToken c iv token s)"
  shows "matchesGlobalToken c presented s1 = Inr (hashToken c presented = hashToken c token) \<and>
    matchesGlobalToken c presented (snd (setGlobalEnrollment c iv' fresh_token False s1)) = Inr False"
proof -
  have "readGlobal c s1 = Inr (True, Some token)"
    using assms by (simp add: rotateGlobalToken_def readGlobal_write or_empty_def)
  moreover from this have "\<exists>tok. readGlobal c (snd (setGlobalEnrollment c iv' fresh_token False s1)) = Inr (False, tok)"
    using assms(1) by (simp add: setGlobalEnrollment_def readGlobal_write Let_def)
  ultimately show ?thesis using assms(4) by (auto simp: matchesGlobalToken_def or_empty_def)
qed

theorem global_token_roundtrip_witness:
  "matchesGlobalToken sample_crypto ''t'' (snd (rotateGlobalToken sample_crypto ''iv'' ''t'' empty_server)) = Inr True"
  using global_token_roundtrip [OF sample_crypto_laws(1), of "''iv''" "''t''" _ empty_server "''t''"]
  by (simp add: sample_crypto_def enc_aad_def)


definition sample_agent :: agent where
  "sample_agent = \<lparr>ag_id = ''a1'', ag_name = ''nas'', ag_slug = ''nas'', ag_hostname = None, ag_os = None,
     ag_deploy_method = ''binary'', ag_status = AgOnline, ag_last_seen_at = Some 0, ag_agent_key_hash = [],
     ag_agent_pubkey = None, ag_server_privkey = None, ag_agent_version = None, ag_restic_version = None,
     ag_poll_interval_seconds = 30, ag_labels = [], ag_allowed_ips = [], ag_last_ip = None, ag_updated_at = 0\<rparr>"


lemma job_run_by_id_runs: "job_runs s' = job_runs s \<Longrightarrow> job_run_by_id i s' = job_run_by_id i s"
  by (simp add: job_run_by_id_def)

lemma recordStats_keeps_runs: "job_runs (snd (recordStats now i rd s)) = job_runs s"
  by (simp add: recordStats_def Let_def split: option.split stats_reading.split)

lemma record_prune_by_id:
  assumes "pid \<noteq> i" "job_run_by_id i s = Some r"
  shows "job_run_by_id i (record_prune now pid ag q j rep p s) = Some r"
  using assms
  by (auto simp: record_prune_def prune_record_def job_run_by_id_key jrow.by_key_insert refreshStatsInBackground_def
      start_background_def default_run_def Let_def split: option.splits)

lemma submitBackupResult_cancelled:
  assumes "job_run_by_id i s = Some r" "jr_status r = Cancelled" "pid \<noteq> i"
  shows "job_run_by_id i (snd (submitBackupResult now pid ag i dto s)) = Some r \<or>
    job_run_by_id i (snd (submitBackupResult now pid ag i dto s)) = Some (cancelledOnAgent now dto r)"
proof (cases "run_with_job i s")
  case None
  with assms show ?thesis by (simp add: submitBackupResult_def)
next
  case (Some rj)
  obtain q j where rj: "rj = (q, j)" by (cases rj)
  have id: "jr_id r = i" using assms(1) by (auto simp: job_run_by_id_key dest: jrow.by_key_in)
  let ?s1 = "s\<lparr>job_runs := update_where (\<lambda>q. jr_id q = i \<and> jr_status q = Running) (store_result now dto) (job_runs s)\<rparr>"
  have 1: "job_run_by_id i ?s1 = Some r"
    using assms by (simp add: job_run_by_id_key jrow.by_key_update store_result_def)
  have 2: "job_run_by_id i (s\<lparr>job_runs := update_where (\<lambda>q. jr_id q = i \<and> (jr_status q = Running \<or> jr_status q = Cancelled))
      (cancelledOnAgent now dto) (job_runs s)\<rparr>) = Some (cancelledOnAgent now dto r)"
    using assms id by (simp add: job_run_by_id_key jrow.by_key_update cancelledOnAgent_def)
  have 3: "job_run_by_id i (record_prune now pid ag q j rep p t) = Some r" if "job_runs t = job_runs ?s1" for rep p t
    using record_prune_by_id [OF assms(3)] 1 job_run_by_id_runs [OF that] by simp
  obtain res t where rs: "recordStats now (bj_repository_id j) (toStatsReading dto) ?s1 = (res, t)" by fastforce
  then have t: "job_runs t = job_runs ?s1" using recordStats_keeps_runs by (metis snd_conv)
  have rf: "job_runs (refreshStatsInBackground x ?s1) = job_runs ?s1" for x
    by (simp add: refreshStatsInBackground_def start_background_def)
  have sb: "job_run_by_id i (start_background b x) = job_run_by_id i x" for b x
    by (simp add: start_background_def job_run_by_id_def)
  show ?thesis
  proof (cases "jr_agent_id q \<noteq> Some ag \<or> td_status dto = Cancelled")
    case True
    then show ?thesis using 2 assms(1) by (auto simp: submitBackupResult_def Some rj)
  next
    case False
    then show ?thesis
      using 3 [OF t] 3 [OF rf] 3 [OF refl] 1 job_run_by_id_runs [OF t]
      by (cases res) (simp_all add: submitBackupResult_def Some rj Let_def rs sb)
  qed
qed

end
