(* ===== verification/Runs.thy ===== *)
theory Runs
  imports Agents
begin

text \<open>
  \<open>server/src/runs/runs.service.ts\<close> (the activity feed, cancelling, the dashboard),
  \<open>server/src/restore/restore.service.ts\<close> and \<open>server/src/restore/restore-runner.service.ts\<close>.
  What restic and \<open>tar\<close> answer during a local restore is the record \<open>restore_env\<close>.
\<close>

section \<open>Cancel messages\<close>

definition CANCELLED_ON_SERVER_AGENT_MESSAGE :: string where
  "CANCELLED_ON_SERVER_AGENT_MESSAGE =
     ''Cancelled on the server '' @ em_dash @ '' the agent may still be running this task.''"

definition CANCELLED_NO_PROCESS_MESSAGE :: string where
  "CANCELLED_NO_PROCESS_MESSAGE = ''Cancelled '' @ em_dash @ '' no running process found.''"

section \<open>The activity feed\<close>

text \<open>A row of the union of job runs and restores, with the columns the feed filters by.\<close>

datatype activity_kind = AkRun run_kind | AkRestore

record activity =
  ac_id :: uuid
  ac_job_id :: "uuid option"
  ac_kind :: activity_kind
  ac_status :: run_status
  ac_attempt :: nat
  ac_created_at :: time
  ac_job_name :: "string option"

definition jobRunsQuery :: "server \<Rightarrow> activity list" where
  "jobRunsQuery s =
     List.map_filter
       (\<lambda>r. case backup_job_by_id (jr_job_id r) s of
              None \<Rightarrow> None
            | Some j \<Rightarrow>
                (case repository_by_id (bj_repository_id j) s of
                   None \<Rightarrow> None
                 | Some p \<Rightarrow>
                     Some \<lparr>ac_id = jr_id r, ac_job_id = Some (jr_job_id r), ac_kind = AkRun (jr_kind r),
                           ac_status = jr_status r, ac_attempt = jr_attempt r,
                           ac_created_at = jr_created_at r, ac_job_name = Some (bj_name j)\<rparr>))
       (job_runs s)"

text \<open>The creation time of a restore is not a column of the model; it is given by \<open>created\<close>.\<close>

definition restoreRunsQuery :: "(uuid \<Rightarrow> time) \<Rightarrow> server \<Rightarrow> activity list" where
  "restoreRunsQuery created s =
     map (\<lambda>r. \<lparr>ac_id = rr_id r, ac_job_id = rr_job_id r, ac_kind = AkRestore, ac_status = rr_status r,
                ac_attempt = 1, ac_created_at = created (rr_id r),
                ac_job_name = (case rr_job_id r of None \<Rightarrow> None
                               | Some ji \<Rightarrow> map_option bj_name (backup_job_by_id ji s))\<rparr>)
       (restore_runs s)"

record feed_opts =
  fo_limit :: "nat option"
  fo_offset :: "nat option"
  fo_job_id :: "uuid option"
  fo_status :: "run_status option"
  fo_kinds :: "activity_kind list"
  fo_search :: "string option"

fun is_substring :: "string \<Rightarrow> string \<Rightarrow> bool" where
  "is_substring p [] = (p = [])"
| "is_substring p (c # s) = (starts_with p (c # s) \<or> is_substring p s)"

text \<open>\<open>ilike '%term%'\<close> with the wildcards of the term escaped; a null name never matches.\<close>

definition name_matches :: "string option \<Rightarrow> string option \<Rightarrow> bool" where
  "name_matches term name =
     (if or_empty term = [] then True
      else case name of None \<Rightarrow> False | Some n \<Rightarrow> is_substring (to_lower (or_empty term)) (to_lower n))"

definition feed_filter :: "uuid list option \<Rightarrow> feed_opts \<Rightarrow> activity \<Rightarrow> bool" where
  "feed_filter ids opts a \<longleftrightarrow>
     (fo_kinds opts = [] \<or> ac_kind a \<in> set (fo_kinds opts)) \<and>
     (case ids of None \<Rightarrow> True | Some l \<Rightarrow> ac_job_id a \<in> Some ` set l) \<and>
     (or_empty (fo_job_id opts) = [] \<or> ac_job_id a = fo_job_id opts) \<and>
     (fo_status opts = None \<or> fo_status opts = Some (ac_status a)) \<and>
     name_matches (fo_search opts) (ac_job_name a)"

text \<open>Newest first; rows of equal time by descending id.\<close>

fun bytes_less :: "nat list \<Rightarrow> nat list \<Rightarrow> bool" where
  "bytes_less _ [] = False"
| "bytes_less [] (_ # _) = True"
| "bytes_less (x # xs) (y # ys) = (x < y \<or> x = y \<and> bytes_less xs ys)"

definition feed_before :: "activity \<Rightarrow> activity \<Rightarrow> bool" where
  "feed_before a b \<longleftrightarrow>
     ac_created_at b < ac_created_at a \<or>
     ac_created_at a = ac_created_at b \<and>
       \<not> bytes_less (map of_char (ac_id a)) (map of_char (ac_id b))"

fun feed_insert :: "activity \<Rightarrow> activity list \<Rightarrow> activity list" where
  "feed_insert a [] = [a]"
| "feed_insert a (b # bs) = (if feed_before a b then a # b # bs else b # feed_insert a bs)"

definition feed_sort :: "activity list \<Rightarrow> activity list" where
  "feed_sort as = foldr feed_insert as []"

definition runs_list :: "(uuid \<Rightarrow> time) \<Rightarrow> request_user \<Rightarrow> feed_opts \<Rightarrow> server \<Rightarrow> activity list" where
  "runs_list created u opts s =
     (let ids = visibleResourceIds s u RtJob in
      if ids = Some [] then []
      else take (min (or_default 50 (fo_limit opts)) 200)
             (drop (or_default 0 (fo_offset opts))
                (feed_sort (filter (feed_filter ids opts) (jobRunsQuery s @ restoreRunsQuery created s)))))"

definition run_get :: "request_user \<Rightarrow> uuid \<Rightarrow> server \<Rightarrow> job_run result" where
  "run_get u i s =
     (case job_run_by_id i s of
        None \<Rightarrow> Inl (NotFound ''Run not found'')
      | Some r \<Rightarrow> (case acl_assert s u RtJob (jr_job_id r) AlView of Inl e \<Rightarrow> Inl e | Inr _ \<Rightarrow> Inr r))"

section \<open>Cancelling a run\<close>

definition cancel_error :: "run_status \<Rightarrow> uuid option \<Rightarrow> string option" where
  "cancel_error st ag =
     (if st = Queued then None
      else if ag \<noteq> None then Some CANCELLED_ON_SERVER_AGENT_MESSAGE
      else Some CANCELLED_NO_PROCESS_MESSAGE)"

text \<open>The three runners are asked in turn; the first that knows the run aborts it.\<close>

definition abort_process :: "uuid \<Rightarrow> server \<Rightarrow> bool \<times> server" where
  "abort_process i s =
     (case runner_cancel i s of
        (True, s1) \<Rightarrow> (True, s1)
      | (False, s1) \<Rightarrow>
          (case prune_cancel i s1 of
             (True, s2) \<Rightarrow> (True, s2)
           | (False, s2) \<Rightarrow> check_cancel i s2))"

text \<open>The statement that settles the row, with the run as it was read.\<close>

definition force_cancel :: "time \<Rightarrow> job_run \<Rightarrow> server \<Rightarrow> server" where
  "force_cancel now r s =
     s\<lparr>job_runs := update_where (\<lambda>q. jr_id q = jr_id r)
         (\<lambda>q. q\<lparr>jr_status := Cancelled, jr_finished_at := Some now,
                jr_error := cancel_error (jr_status r) (jr_agent_id r)\<rparr>) (job_runs s)\<rparr>"

definition run_cancel :: "time \<Rightarrow> request_user \<Rightarrow> uuid \<Rightarrow> unit handler" where
  "run_cancel now u i s =
     (case run_get u i s of Inl e \<Rightarrow> (Inl e, s) | Inr r \<Rightarrow>
      (case acl_assert s u RtJob (jr_job_id r) AlOperate of Inl e \<Rightarrow> (Inl e, s) | Inr _ \<Rightarrow>
       (if \<not> active_status (jr_status r)
        then (Inl (BadRequest (''Run is already '' @ show_status (jr_status r))), s)
        else case abort_process i s of
               (True, s1) \<Rightarrow> (Inr (), s1)
             | (False, s1) \<Rightarrow> (Inr (), force_cancel now r s1))))"

record dashboard_figures =
  df_recent :: "activity list"
  df_running :: nat
  df_failed_last_week :: nat
  df_success_total :: nat

definition visible_backups :: "request_user \<Rightarrow> server \<Rightarrow> job_run list" where
  "visible_backups u s =
     filter (\<lambda>r. jr_kind r = KBackup \<and> backup_job_by_id (jr_job_id r) s \<noteq> None \<and>
               (case visibleResourceIds s u RtJob of None \<Rightarrow> True | Some ids \<Rightarrow> jr_job_id r \<in> set ids))
       (job_runs s)"

definition dashboard :: "(uuid \<Rightarrow> time) \<Rightarrow> time \<Rightarrow> request_user \<Rightarrow> server \<Rightarrow> dashboard_figures" where
  "dashboard created now u s =
     (let recent = runs_list created u
            \<lparr>fo_limit = Some 10, fo_offset = None, fo_job_id = None, fo_status = None, fo_kinds = [],
             fo_search = None\<rparr> s
      in \<lparr>df_recent = recent,
          df_running = length (filter (\<lambda>a. ac_status a = Running) recent),
          df_failed_last_week = length (filter
             (\<lambda>r. jr_status r = Failed \<and> jr_created_at r > now - 7 * 86400000) (visible_backups u s)),
          df_success_total = length (filter (\<lambda>r. jr_status r = Success) (visible_backups u s))\<rparr>)"

section \<open>Restores\<close>

record create_restore =
  cr_job_id :: uuid
  cr_snapshot_id :: string
  cr_included_paths :: "string list option"
  cr_mode :: restore_mode
  cr_destination :: "restore_destination option"
  cr_options :: "restore_options option"

definition empty_destination :: restore_destination where
  "empty_destination = \<lparr>rd_path = None, rd_agent_id = None, rd_download_ref = None\<rparr>"

definition empty_restore_options :: restore_options where
  "empty_restore_options =
     \<lparr>rs_overwrite = None, rs_verify = False, rs_delete = False, rs_dry_run = False,
      rs_include = None, rs_exclude = None\<rparr>"

definition restore_dispatch :: "uuid \<Rightarrow> server \<Rightarrow> server" where
  "restore_dispatch i s =
     (case restore_run_by_id i s of
        None \<Rightarrow> s
      | Some r \<Rightarrow>
          if or_empty (rd_agent_id (rr_destination r)) \<noteq> [] then s
          else start_background (BgExecuteRestore i) s)"

definition restore_create :: "uuid \<Rightarrow> request_user \<Rightarrow> create_restore \<Rightarrow> restore_run handler" where
  "restore_create i u dto s =
     (case acl_assert s u RtJob (cr_job_id dto) AlOperate of Inl e \<Rightarrow> (Inl e, s) | Inr _ \<Rightarrow>
      (if cr_mode dto \<noteq> RmDownload \<and> \<not> ru_is_admin u
       then (Inl (Forbidden ''Restoring to a filesystem path requires administrator access''), s)
       else case job_getRow s (cr_job_id dto) of Inl e \<Rightarrow> (Inl e, s) | Inr (j, p) \<Rightarrow>
         (let dest = or_default empty_destination (cr_destination dto);
              row = \<lparr>rr_id = i, rr_target_id = re_target_id p, rr_job_id = Some (bj_id j),
                     rr_repo_config = re_repo_config p,
                     rr_repo_password_secret_id = re_repo_password_secret_id p,
                     rr_credential_secret_id = re_credential_secret_id p,
                     rr_snapshot_id = cr_snapshot_id dto, rr_included_paths = cr_included_paths dto,
                     rr_mode = cr_mode dto, rr_destination = dest,
                     rr_options = or_default empty_restore_options (cr_options dto),
                     rr_status = Queued, rr_agent_id = rd_agent_id dest, rr_started_at = None,
                     rr_finished_at = None, rr_stats = None, rr_download_expires_at = None,
                     rr_log = None, rr_error = None, rr_initiated_by = ru_id u\<rparr>;
              s1 = s\<lparr>restore_runs := insert_row row (restore_runs s)\<rparr>
          in (Inr row, restore_dispatch i s1))))"

definition restore_get :: "request_user \<Rightarrow> uuid \<Rightarrow> server \<Rightarrow> restore_run result" where
  "restore_get u i s =
     (case restore_run_by_id i s of
        None \<Rightarrow> Inl (NotFound ''Restore run not found'')
      | Some r \<Rightarrow>
          (if or_empty (rr_job_id r) = []
           then (if ru_is_admin u then Inr r else Inl (NotFound ''Restore run not found''))
           else case acl_assert s u RtJob (or_empty (rr_job_id r)) AlView of
                  Inl e \<Rightarrow> Inl e | Inr _ \<Rightarrow> Inr r))"

definition restore_runner_cancel :: "uuid \<Rightarrow> server \<Rightarrow> bool \<times> server" where
  "restore_runner_cancel i s =
     (if registered i (restore_running s)
      then (True, s\<lparr>restore_running := registry_abort i (restore_running s)\<rparr>)
      else (False, s))"

definition restore_force_cancel :: "time \<Rightarrow> restore_run \<Rightarrow> server \<Rightarrow> server" where
  "restore_force_cancel now r s =
     s\<lparr>restore_runs := update_where (\<lambda>q. rr_id q = rr_id r \<and> active_status (rr_status q))
         (\<lambda>q. q\<lparr>rr_status := Cancelled, rr_finished_at := Some now,
                rr_error := cancel_error (rr_status r) (rr_agent_id r)\<rparr>) (restore_runs s)\<rparr>"

definition restore_cancel :: "time \<Rightarrow> request_user \<Rightarrow> uuid \<Rightarrow> unit handler" where
  "restore_cancel now u i s =
     (case restore_get u i s of Inl e \<Rightarrow> (Inl e, s) | Inr r \<Rightarrow>
      (case (if or_empty (rr_job_id r) = [] then Inr ()
             else acl_assert s u RtJob (or_empty (rr_job_id r)) AlOperate) of Inl e \<Rightarrow> (Inl e, s) | Inr _ \<Rightarrow>
       (if \<not> active_status (rr_status r)
        then (Inl (BadRequest (''Restore is already '' @ show_status (rr_status r))), s)
        else case restore_runner_cancel i s of
               (True, s1) \<Rightarrow> (Inr (), s1)
             | (False, s1) \<Rightarrow> (Inr (), restore_force_cancel now r s1))))"

text \<open>\<open>exists\<close> says whether the artifact is still on disk.\<close>

definition getDownload ::
  "time \<Rightarrow> (string \<Rightarrow> bool) \<Rightarrow> request_user \<Rightarrow> uuid \<Rightarrow> server \<Rightarrow> (string \<times> string) result" where
  "getDownload now file_exists u i s =
     (case restore_get u i s of Inl e \<Rightarrow> Inl e | Inr r \<Rightarrow>
      (if rr_mode r \<noteq> RmDownload then Inl (NotFound ''Run is not a download restore'')
       else if (case rr_download_expires_at r of None \<Rightarrow> False | Some t \<Rightarrow> t < now)
       then Inl (NotFound ''Download expired'')
       else if or_empty (rd_download_ref (rr_destination r)) = []
       then Inl (NotFound ''No download available'')
       else if \<not> file_exists (or_empty (rd_download_ref (rr_destination r)))
       then Inl (NotFound ''Download artifact missing'')
       else Inr (or_empty (rd_download_ref (rr_destination r)), ''restore-'' @ i @ ''.tar.gz'')))"

definition DOWNLOAD_TTL_MS :: int where
  "DOWNLOAD_TTL_MS = 24 * 3600000"

record restore_env =
  re_mkdir :: "unit result"
  re_restore :: "json result"
  re_restore_log :: "string list"
  re_archive :: "unit result"

definition restore_begin :: "time \<Rightarrow> uuid \<Rightarrow> server \<Rightarrow> server" where
  "restore_begin now i s =
     (case restore_run_by_id i s of
        None \<Rightarrow> s
      | Some r \<Rightarrow>
          s\<lparr>restore_running := registry_set i (restore_running s),
            restore_runs := update_where (\<lambda>q. rr_id q = i)
              (\<lambda>q. q\<lparr>rr_status := Running, rr_started_at := Some now\<rparr>) (restore_runs s)\<rparr>)"

definition path_join :: "string \<Rightarrow> string \<Rightarrow> string" where
  "path_join d f = strip_trailing_slashes d @ ''/'' @ f"

text \<open>
  The \<open>try\<close> block after resolving: where the files go, and the archive of a download with
  the log line that announces it. The temporary directory is an absolute path.
\<close>

definition restore_target :: "string \<Rightarrow> restore_run \<Rightarrow> restore_env \<Rightarrow> string result" where
  "restore_target tmp r e =
     (case rr_mode r of
        RmDownload \<Rightarrow> (case re_mkdir e of Inl er \<Rightarrow> Inl er
                       | Inr _ \<Rightarrow> Inr (path_join tmp (''restore-'' @ rr_id r)))
      | RmOriginal \<Rightarrow> Inr (or_slash (or_empty (rd_path (rr_destination r))))
      | RmAlternatePath \<Rightarrow>
          (if or_empty (rd_path (rr_destination r)) = []
           then Inl (PlainError ''alternate_path requires a path'')
           else Inr (or_empty (rd_path (rr_destination r)))))"

definition restore_body ::
  "string \<Rightarrow> restore_run \<Rightarrow> resolved_target result \<Rightarrow> restore_env
   \<Rightarrow> string list \<times> (json \<times> string option) result" where
  "restore_body tmp r resolved e =
     (case resolved of Inl er \<Rightarrow> ([], Inl er) | Inr ctx \<Rightarrow>
      (case restore_target tmp r e of Inl er \<Rightarrow> ([], Inl er) | Inr path \<Rightarrow>
      (case re_restore e of Inl er \<Rightarrow> (re_restore_log e, Inl er) | Inr stats \<Rightarrow>
       (if rr_mode r = RmDownload \<and> \<not> rs_dry_run (rr_options r)
        then (case re_archive e of
                Inl er \<Rightarrow> (re_restore_log e, Inl er)
              | Inr _ \<Rightarrow> (re_restore_log e @ [''[download] archive ready: restore-'' @ rr_id r @ ''.tar.gz''],
                          Inr (stats, Some (path @ ''.tar.gz''))))
        else (re_restore_log e, Inr (stats, None))))))"

definition restore_finish ::
  "time \<Rightarrow> string \<Rightarrow> restore_run \<Rightarrow> resolved_target result \<Rightarrow> restore_env \<Rightarrow> server \<Rightarrow> server" where
  "restore_finish now tmp r resolved e s =
     (let aborted = signal_aborted (rr_id r) (restore_running s);
          f = (case restore_body tmp r resolved e of
                 (logs, Inr (stats, ref)) \<Rightarrow>
                   (\<lambda>q. q\<lparr>rr_status := Success, rr_finished_at := Some now, rr_stats := Some stats,
                          rr_destination := (rr_destination r)\<lparr>rd_download_ref := ref\<rparr>,
                          rr_download_expires_at :=
                            (if ref = None then None else Some (now + DOWNLOAD_TTL_MS)),
                          rr_log := Some (log_text logs)\<rparr>)
               | (logs, Inl er) \<Rightarrow>
                   (\<lambda>q. q\<lparr>rr_status := (if aborted then Cancelled else Failed), rr_finished_at := Some now,
                          rr_error := Some (error_message er),
                          rr_log := Some (log_text (logs @ [show_error er]))\<rparr>))
      in s\<lparr>restore_runs := update_where (\<lambda>q. rr_id q = rr_id r) f (restore_runs s),
           restore_running := registry_delete (rr_id r) (restore_running s)\<rparr>)"

definition restore_writeStats :: "uuid \<Rightarrow> json \<Rightarrow> server \<Rightarrow> server" where
  "restore_writeStats i st s =
     s\<lparr>restore_runs := update_where (\<lambda>r. rr_id r = i \<and> rr_status r = Running)
         (\<lambda>r. r\<lparr>rr_stats := Some st\<rparr>) (restore_runs s)\<rparr>"

section \<open>Theorems\<close>

text \<open>
  Cancelling a run: it succeeds only for a user who may view and operate the job and only
  while the run is queued or running; then either the process this server runs is told to
  stop and the row is left to it, or the row is cancelled with its finish time. A refused
  request changes nothing.
\<close>

theorem cancel_outcome:
  assumes "run_cancel now u i s = (res, s')"
  shows "(is_error res \<and> s' = s) \<or>
    (res = Inr () \<and> (\<exists>r. job_run_by_id i s = Some r \<and> active_status (jr_status r) \<and>
       can s u RtJob (jr_job_id r) AlOperate \<and>
       (job_runs s' = job_runs s \<and>
          (signal_aborted i (job_running s') \<or> signal_aborted i (prune_running s') \<or> signal_aborted i (check_running s')) \<or>
        job_run_by_id i s' = Some (r\<lparr>jr_status := Cancelled, jr_finished_at := Some now,
             jr_error := cancel_error (jr_status r) (jr_agent_id r)\<rparr>))))"
proof (cases "run_get u i s")
  case (Inl e)
  with assms show ?thesis by (auto simp: run_cancel_def is_error_def)
next
  case (Inr r)
  then have r: "job_run_by_id i s = Some r" by (auto simp: run_get_def split: option.splits sum.splits)
  then have "jr_id r = i" by (auto simp: job_run_by_id_key dest: jrow.by_key_in)
  obtain b s1 where ab: "abort_process i s = (b, s1)" by fastforce
  then have keep: "job_runs s1 = job_runs s" and hit: "b \<Longrightarrow> signal_aborted i (job_running s1) \<or>
      signal_aborted i (prune_running s1) \<or> signal_aborted i (check_running s1)"
    by (auto simp: abort_process_def runner_cancel_def prune_cancel_def check_cancel_def split: if_splits)
  have "job_run_by_id i (force_cancel now r s1) = Some (r\<lparr>jr_status := Cancelled, jr_finished_at := Some now,
             jr_error := cancel_error (jr_status r) (jr_agent_id r)\<rparr>)"
    using r keep \<open>jr_id r = i\<close> by (simp add: force_cancel_def job_run_by_id_key jrow.by_key_update)
  with assms Inr r keep hit ab show ?thesis
    by (cases b) (auto simp: run_cancel_def is_error_def acl_assert_iff split: sum.splits if_splits)
qed

theorem cancel_outcome_witness:
  "\<exists>r. job_run_by_id ''r1'' (snd (run_cancel 9 (sample_user True) ''r1'' (sample_server [sample_run ''r1'' KBackup Queued]))) = Some r \<and>
     jr_status r = Cancelled"
proof -
  let ?s = "sample_server [sample_run ''r1'' KBackup Queued]"
  obtain res s' where c: "run_cancel 9 (sample_user True) ''r1'' ?s = (res, s')" by fastforce
  have "res = Inr () \<and> job_running s' = [] \<and> prune_running s' = [] \<and> check_running s' = []"
    using c by (auto simp: run_cancel_def run_get_def acl_assert_def can_def apiKeyAllows_def sample_user_def active_status_def
        abort_process_def runner_cancel_def prune_cancel_def check_cancel_def registered_def force_cancel_def)
  with cancel_outcome [OF c] c show ?thesis by (auto simp: is_error_def signal_aborted_def)
qed

text \<open>
  Restores respect the host boundary: a restore is accepted only from a user who may
  operate the job and, unless it is a download, only from an administrator; it is queued with
  the job's repository, password and credentials as they are now and a refused request changes
  nothing.
\<close>

theorem restore_authorised:
  assumes "restore_create i u dto s = (res, s')"
  shows "(is_error res \<and> s' = s) \<or>
    (\<exists>row j p. res = Inr row \<and> job_getRow s (cr_job_id dto) = Inr (j, p) \<and>
       can s u RtJob (cr_job_id dto) AlOperate \<and> (cr_mode dto = RmDownload \<or> ru_is_admin u) \<and>
       restore_runs s' = insert_row row (restore_runs s) \<and> rr_status row = Queued \<and>
       rr_target_id row = re_target_id p \<and> rr_repo_config row = re_repo_config p \<and>
       rr_repo_password_secret_id row = re_repo_password_secret_id p \<and>
       rr_credential_secret_id row = re_credential_secret_id p)"
proof -
  have "restore_runs (restore_dispatch i t) = restore_runs t" for t
    by (simp add: restore_dispatch_def start_background_def split: option.split)
  with assms show ?thesis
    by (auto simp: restore_create_def is_error_def acl_assert_iff Let_def split: sum.splits if_splits prod.splits)
qed

definition sample_restore :: create_restore where
  "sample_restore = \<lparr>cr_job_id = ''j1'', cr_snapshot_id = ''abc'', cr_included_paths = None, cr_mode = RmOriginal,
     cr_destination = None, cr_options = None\<rparr>"

theorem restore_authorised_witness:
  "snd (restore_create ''x'' (sample_user False) sample_restore (sample_server [])) = sample_server []"
proof -
  obtain res s' where r: "restore_create ''x'' (sample_user False) sample_restore (sample_server []) = (res, s')" by fastforce
  from restore_authorised [OF r] r show ?thesis by (auto simp: sample_restore_def sample_user_def)
qed

lemma set_feed_sort: "set (feed_sort as) = set as"
proof -
  have "set (feed_insert a bs) = insert a (set bs)" for a bs by (induction bs) auto
  then show ?thesis by (induction as) (simp_all add: feed_sort_def)
qed

text \<open>
  The activity feed shows nobody more than they may see: every entry of the feed belongs
  to a job that is listed for the requesting user; only administrators without a key
  restricted to resources also see restores whose job is gone.
\<close>

theorem feed_only_visible:
  assumes "a \<in> set (runs_list created u opts s)"
  shows "(\<exists>j. ac_job_id a = Some j \<and> listed s u RtJob j) \<or> ru_is_admin u \<and> visibleResourceIds s u RtJob = None"
proof -
  have f: "feed_filter (visibleResourceIds s u RtJob) opts a"
    using assms by (auto simp: runs_list_def Let_def set_feed_sort dest!: in_set_takeD in_set_dropD split: if_splits)
  show ?thesis
  proof (cases "visibleResourceIds s u RtJob")
    case None
    then show ?thesis by (auto simp: visibleResourceIds_def Let_def split: if_splits)
  next
    case (Some l)
    with f show ?thesis by (auto simp: feed_filter_def listed_def)
  qed
qed

definition granted_server :: server where
  "granted_server = (sample_server [sample_run ''r1'' KBackup Queued])\<lparr>resource_grants := [sample_grant ''j1'' AlView]\<rparr>"

lemma granted_server_rows:
  "backup_job_by_id ''j1'' granted_server = Some sample_job" "repository_by_id ''p1'' granted_server = Some sample_repository"
  "job_runs granted_server = [sample_run ''r1'' KBackup Queued]" "restore_runs granted_server = []"
  "visibleResourceIds granted_server (sample_user False) RtJob = Some [''j1'']"
  by (simp_all add: granted_server_def backup_job_by_id_def repository_by_id_def select_first_def visibleResourceIds_def
      sample_user_def select_where_def sample_grant_def Let_def)

theorem feed_only_visible_witness:
  "\<exists>a. a \<in> set (runs_list (\<lambda>_. 0) (sample_user False) \<lparr>fo_limit = None, fo_offset = None, fo_job_id = None, fo_status = None,
        fo_kinds = [], fo_search = None\<rparr> granted_server) \<and> ac_job_id a = Some ''j1''"
proof -
  let ?o = "\<lparr>fo_limit = None, fo_offset = None, fo_job_id = None, fo_status = None, fo_kinds = [], fo_search = None\<rparr> :: feed_opts"
  obtain a where a: "a \<in> set (runs_list (\<lambda>_. 0) (sample_user False) ?o granted_server)"
    by (simp add: runs_list_def granted_server_rows jobRunsQuery_def restoreRunsQuery_def feed_filter_def feed_sort_def
        name_matches_def or_empty_def or_default_def map_filter_simps Let_def)
  have "\<not> ru_is_admin (sample_user False)" by (simp add: sample_user_def)
  with feed_only_visible [OF a] a show ?thesis by (auto simp: listed_def granted_server_rows)
qed

end
