(* ===== verification/RunLifecycle.thy ===== *)
theory RunLifecycle
  imports Runs
begin

text \<open>
  The life of a run across all services. \<open>event\<close> lists every operation of the job runner,
  the check and prune runners, the retry service, the runs service and the agents service
  that touches \<open>job_runs\<close>; \<open>apply_event\<close> performs it. An execution is any sequence of
  events, so requests, timers and background calls interleave in every order.
  Every operation changes the table only by legal row updates and legal insertions
  (\<open>run_change\<close>), from which the invariant of reachable tables and the at-most-once hand-out
  to agents follow.
\<close>

section \<open>Well-formed rows and legal changes\<close>

definition row_ok :: "job_run \<Rightarrow> bool" where
  "row_ok r \<longleftrightarrow>
     (terminal_status (jr_status r) \<longrightarrow> jr_finished_at r \<noteq> None) \<and>
     (jr_status r = Queued \<longrightarrow> jr_started_at r = None \<and> jr_finished_at r = None) \<and>
     (jr_status r = Running \<longrightarrow> jr_started_at r \<noteq> None) \<and>
     1 \<le> jr_attempt r \<and> (jr_attempt r > 1 \<longleftrightarrow> jr_retry_of_run_id r \<noteq> None) \<and>
     (jr_retry_of_run_id r \<noteq> None \<longrightarrow> jr_kind r = KBackup)"

definition same_identity :: "job_run \<Rightarrow> job_run \<Rightarrow> bool" where
  "same_identity r r' \<longleftrightarrow>
     jr_id r' = jr_id r \<and> jr_job_id r' = jr_job_id r \<and> jr_kind r' = jr_kind r \<and>
     jr_attempt r' = jr_attempt r \<and> jr_retry_of_run_id r' = jr_retry_of_run_id r \<and>
     jr_parent_run_id r' = jr_parent_run_id r \<and> jr_trigger r' = jr_trigger r \<and>
     jr_created_at r' = jr_created_at r"

definition legal_update :: "job_run \<Rightarrow> job_run \<Rightarrow> bool" where
  "legal_update r r' \<longleftrightarrow>
     same_identity r r' \<and> (jr_status r \<noteq> Queued \<longrightarrow> jr_status r' \<noteq> Queued) \<and> (row_ok r \<longrightarrow> row_ok r')"

text \<open>A retry names a run of the same job that is no longer queued, and counts on from it.\<close>

definition retry_link :: "job_run list \<Rightarrow> job_run \<Rightarrow> bool" where
  "retry_link rows r \<longleftrightarrow>
     (\<forall>p. jr_retry_of_run_id r = Some p \<longrightarrow>
        (\<exists>q \<in> set rows. jr_id q = p \<and> jr_job_id q = jr_job_id r \<and> jr_kind q = KBackup \<and>
           jr_status q \<noteq> Queued \<and> jr_attempt r = jr_attempt q + 1))"

definition legal_insert :: "job_run list \<Rightarrow> job_run \<Rightarrow> bool" where
  "legal_insert rows r \<longleftrightarrow> jr_id r \<notin> jr_id ` set rows \<and> row_ok r \<and> retry_link rows r"

definition table_ok :: "job_run list \<Rightarrow> bool" where
  "table_ok rows \<longleftrightarrow>
     distinct (map jr_id rows) \<and> (\<forall>r \<in> set rows. row_ok r \<and> retry_link rows r)"

inductive run_change :: "job_run list \<Rightarrow> job_run list \<Rightarrow> bool" where
  rc_refl: "run_change rows rows"
| rc_update: "(\<And>r. r \<in> set rows \<Longrightarrow> P r \<Longrightarrow> legal_update r (f r)) \<Longrightarrow> (\<And>r. jr_id (f r) = jr_id r) \<Longrightarrow>
           run_change rows (update_where P f rows)"
| rc_insert: "(table_ok rows \<Longrightarrow> legal_insert rows r) \<Longrightarrow> run_change rows (insert_row r rows)"
| rc_trans: "run_change a b \<Longrightarrow> run_change b c \<Longrightarrow> run_change a c"

declare rc_trans [trans]

lemma legal_update_refl: "legal_update r r"
  by (simp add: legal_update_def same_identity_def)

lemma retry_link_update:
  assumes "retry_link rows r" "\<And>q. q \<in> set rows \<Longrightarrow> P q \<Longrightarrow> legal_update q (f q)" "same_identity r r'"
  shows "retry_link (update_where P f rows) r'"
  unfolding retry_link_def
proof (intro allI impI)
  fix p assume "jr_retry_of_run_id r' = Some p"
  with assms(3) have "jr_retry_of_run_id r = Some p" by (simp add: same_identity_def)
  with assms(1) obtain q where q: "q \<in> set rows" "jr_id q = p" "jr_job_id q = jr_job_id r"
    "jr_kind q = KBackup" "jr_status q \<noteq> Queued" "jr_attempt r = jr_attempt q + 1"
    unfolding retry_link_def by blast
  let ?q = "if P q then f q else q"
  have "legal_update q ?q" using assms(2) q(1) legal_update_refl by simp
  moreover have "?q \<in> set (update_where P f rows)" using q(1) by (auto simp: set_update_where)
  ultimately show "\<exists>q \<in> set (update_where P f rows). jr_id q = p \<and> jr_job_id q = jr_job_id r' \<and>
      jr_kind q = KBackup \<and> jr_status q \<noteq> Queued \<and> jr_attempt r' = jr_attempt q + 1"
    using q(2-6) assms(3) unfolding legal_update_def same_identity_def by metis
qed

lemma retry_link_mono: "retry_link rows r \<Longrightarrow> set rows \<subseteq> set rows' \<Longrightarrow> retry_link rows' r"
  unfolding retry_link_def by (meson subsetD)

lemma run_change_ok: "run_change rows rows' \<Longrightarrow> table_ok rows \<Longrightarrow> table_ok rows'"
proof (induction rule: run_change.induct)
  case (rc_update rows P f)
  have "map jr_id (update_where P f rows) = map jr_id rows"
    by (rule map_update_where) (simp add: rc_update.hyps(2))
  moreover have "row_ok r' \<and> retry_link (update_where P f rows) r'" if "r' \<in> set (update_where P f rows)" for r'
  proof -
    from that obtain r where r: "r \<in> set rows" "r' = (if P r then f r else r)"
      by (auto simp: set_update_where)
    then have "legal_update r r'" using rc_update.hyps(1) legal_update_refl by simp
    with r(1) rc_update.prems retry_link_update [of rows r P f r'] rc_update.hyps(1) show ?thesis
      by (auto simp: table_ok_def legal_update_def)
  qed
  ultimately show ?case using rc_update.prems by (simp add: table_ok_def)
next
  case (rc_insert rows r)
  have "retry_link (insert_row r rows) q" if "retry_link rows q" for q
    using that by (rule retry_link_mono) (auto simp: set_insert_row)
  with rc_insert show ?case by (auto simp: table_ok_def legal_insert_def insert_row_def)
qed simp_all

lemma run_change_not_queued:
  assumes "run_change rows rows'"
    and "jrow.by_key i rows = Some r" "jr_status r \<noteq> Queued"
  shows "\<exists>r'. jrow.by_key i rows' = Some r' \<and> jr_status r' \<noteq> Queued"
  using assms
proof (induction arbitrary: r rule: run_change.induct)
  case (rc_update rows P f)
  from rc_update.prems(1) have "r \<in> set rows" using jrow.by_key_in by blast
  with rc_update show ?case by (auto simp: jrow.by_key_update legal_update_def)
next
  case (rc_insert rows q)
  then show ?case by (simp add: jrow.by_key_insert)
next
  case (rc_trans a b c)
  then show ?case by metis
qed auto

section \<open>Each operation is a legal change\<close>

named_theorems runc "operations as legal changes of the run table"

lemma change_update:
  assumes "job_runs s' = update_where P f (job_runs s)" "\<And>r. jr_id (f r) = jr_id r"
    "\<And>r. P r \<Longrightarrow> legal_update r (f r)"
  shows "run_change (job_runs s) (job_runs s')"
  using assms rc_update [of "job_runs s" P f] by simp

lemma job_runs_set: "job_runs (s\<lparr>job_runs := rows\<rparr>) = rows"
  by simp

lemma change_same: "job_runs s' = job_runs s \<Longrightarrow> run_change (job_runs s) (job_runs s')"
  by (simp add: rc_refl)

lemma change_insert:
  "job_runs s' = insert_row r (job_runs s) \<Longrightarrow> (table_ok (job_runs s) \<Longrightarrow> legal_insert (job_runs s) r) \<Longrightarrow>
   run_change (job_runs s) (job_runs s')"
  by (simp add: rc_insert)

lemmas legal_defs = legal_update_def same_identity_def row_ok_def terminal_status_def

lemma fresh_row_legal:
  assumes "jr_id r \<notin> jr_id ` set rows" "jr_attempt r = 1" "jr_retry_of_run_id r = None"
    "terminal_status (jr_status r) \<longrightarrow> jr_finished_at r \<noteq> None"
    "jr_status r = Queued \<longrightarrow> jr_started_at r = None \<and> jr_finished_at r = None"
    "jr_status r = Running \<longrightarrow> jr_started_at r \<noteq> None"
  shows "legal_insert rows r"
  using assms by (simp add: legal_insert_def row_ok_def retry_link_def)

definition fresh_run :: "uuid \<Rightarrow> server \<Rightarrow> bool" where
  "fresh_run i s \<longleftrightarrow> i \<notin> jr_id ` set (job_runs s)"

lemma createRun_change [runc]:
  "fresh_run i s \<Longrightarrow> run_change (job_runs s) (job_runs (createRun now i job trig s))"
  by (rule change_insert [of _ "default_run i job KBackup trig Queued now"])
    (auto simp: createRun_def fresh_run_def default_run_def terminal_status_def intro!: fresh_row_legal)

lemma dispatch_runs [simp]: "job_runs (dispatch i s) = job_runs s"
  by (simp add: dispatch_def start_background_def split: option.splits)

lemma fold_dispatch_runs [simp]: "job_runs (fold dispatch is s) = job_runs s"
  by (induction "is" arbitrary: s) simp_all

lemma finalize_change [runc]:
  assumes "fresh_run new_id s"
  shows "run_change (job_runs s) (job_runs (finalize c cfg now new_id i s))"
proof (cases rule: finalize_cases [of s i c cfg now new_id])
  case (retry r j)
  then have r: "job_run_by_id i s = Some r" "jr_id r = i" using run_with_jobD by blast+
  then have rin: "r \<in> set (job_runs s)" by (auto simp: job_run_by_id_key dest: jrow.by_key_in)
  have "jr_status r = Failed" "jr_kind r = KBackup" using retry(1,2) by (auto simp: retry_due_def)
  with rin r assms have "legal_insert (job_runs s) (retry_row now new_id r j)" if "table_ok (job_runs s)"
    using that
    by (auto simp: legal_insert_def row_ok_def retry_link_def retry_row_def default_run_def
        fresh_run_def terminal_status_def table_ok_def)
  with retry(3) show ?thesis by (intro change_insert [of _ "retry_row now new_id r j"]) simp_all
next
  case notify
  then show ?thesis by (intro change_same) simp
qed

lemma check_settle_change [runc]:
  "terminal_status (co_status oc) \<Longrightarrow> run_change (job_runs s) (job_runs (check_settle now i info repo oc s))"
  by (rule change_update [of _ "\<lambda>r. jr_id r = i \<and> jr_status r = Running"
        "\<lambda>r. r\<lparr>jr_status := co_status oc, jr_finished_at := Some now, jr_error := co_error oc,
               jr_log := co_log oc, jr_check_info := Some (info\<lparr>ci_damaged := Some (co_damaged oc)\<rparr>)\<rparr>"])
    (auto simp: check_settle_def Let_def start_background_def legal_defs)

lemma check_start_change [runc]:
  assumes "fresh_run i s"
  shows "run_change (job_runs s) (job_runs (snd (check_start now i job trig level s)))"
proof -
  obtain res s' where e: "check_start now i job trig level s = (res, s')" by fastforce
  show ?thesis
  proof (cases res)
    case (Inl x)
    with e have "s' = s" using check_start_error_state by blast
    with e show ?thesis by (simp add: rc_refl)
  next
    case (Inr k)
    obtain jb :: backup_job and row :: job_run where row: "job_runs s' = insert_row row (job_runs s)" "jr_id row = i"
      "jr_status row = (if bj_location jb = LocLocal then Running else Queued)"
      "jr_started_at row = (if bj_location jb = LocLocal then Some now else None)"
      "jr_finished_at row = None" "jr_attempt row = 1" "jr_retry_of_run_id row = None"
      by (rule check_start_ok [OF e [unfolded Inr]]) blast
    then show ?thesis using assms e
      by (intro change_insert [of _ row] fresh_row_legal) (simp_all add: fresh_run_def terminal_status_def)
  qed
qed

lemma registry_runs [simp]: "job_runs (s\<lparr>check_running := x\<rparr>) = job_runs s"
  by simp

lemma check_execute_change [runc]:
  "run_change (job_runs s) (job_runs (check_execute restic now i repo resolved info logs s))"
proof -
  have "run_change (job_runs s) (job_runs (check_settle now i info repo oc s))"
    if "terminal_status (co_status oc)" for oc using that by (rule check_settle_change)
  then show ?thesis
    by (auto simp: check_execute_def Let_def terminal_status_def split: sum.splits)
qed

lemma recordAgentResult_change [runc]:
  assumes "terminal_status (co_status oc)"
  shows "run_change (job_runs s) (job_runs (recordAgentResult now agent i oc s))"
proof -
  have "run_change (job_runs s) (job_runs (s\<lparr>job_runs := update_where
      (\<lambda>q. jr_id q = i \<and> (jr_status q = Running \<or> jr_status q = Cancelled))
      (\<lambda>q. q\<lparr>jr_status := Cancelled, jr_finished_at := Some (or_default now (jr_finished_at q)),
             jr_error := Some CANCELLED_ON_AGENT_MESSAGE, jr_log := co_log oc\<rparr>) (job_runs s)\<rparr>))"
    by (rule change_update [OF job_runs_set]) (auto simp: legal_defs)
  with check_settle_change [OF assms] show ?thesis
    by (auto simp: recordAgentResult_def rc_refl split: option.splits)
qed

lemma prune_createRow_change [runc]:
  "fresh_run i s \<Longrightarrow> run_change (job_runs s) (job_runs (prune_createRow now i opts s))"
  by (rule change_insert [OF _ fresh_row_legal])
    (auto simp: prune_createRow_def fresh_run_def default_run_def terminal_status_def)

lemma prune_start_change [runc]:
  "fresh_run i s \<Longrightarrow> run_change (job_runs s) (job_runs (prune_start now i opts s))"
  using prune_createRow_change by (simp add: prune_start_def start_background_def Let_def)

lemma prune_finish_change [runc]:
  "run_change (job_runs s) (job_runs (prune_finish now i repo logs res s))"
proof (cases res)
  case (Inl e)
  show ?thesis
    by (rule change_update [of _ "\<lambda>r. jr_id r = i"
        "\<lambda>r. r\<lparr>jr_status := (if signal_aborted i (prune_running s) then Cancelled else Failed),
               jr_finished_at := Some now, jr_error := Some (error_message e),
               jr_log := Some (log_text logs)\<rparr>"])
      (auto simp: prune_finish_def Inl Let_def legal_defs)
next
  case (Inr u)
  show ?thesis
    by (rule change_update [of _ "\<lambda>r. jr_id r = i"
        "\<lambda>r. r\<lparr>jr_status := Success, jr_finished_at := Some now, jr_log := Some (log_text logs)\<rparr>"])
      (auto simp: prune_finish_def Inr Let_def refreshStatsInBackground_def start_background_def legal_defs)
qed

lemma prune_run_change [runc]:
  assumes "fresh_run i s"
  shows "run_change (job_runs s) (job_runs (prune_run now later i opts cancelled logs res s))"
proof -
  let ?s1 = "prune_createRow now i opts s"
  let ?s2 = "?s1\<lparr>prune_running := registry_set i (prune_running ?s1)\<rparr>"
  let ?s3 = "if cancelled then snd (prune_cancel i ?s2) else ?s2"
  have "job_runs ?s3 = job_runs ?s1" by (simp add: prune_cancel_def)
  then have "run_change (job_runs s) (job_runs ?s3)" using prune_createRow_change [OF assms] by simp
  also have "run_change (job_runs ?s3) (job_runs (prune_run now later i opts cancelled logs res s))"
    unfolding prune_run_def Let_def by (rule prune_finish_change)
  finally show ?thesis .
qed

lemma prune_record_change [runc]:
  "fresh_run i s \<Longrightarrow> run_change (job_runs s) (job_runs (prune_record now i oc s))"
  by (rule change_insert [of _ "(default_run i (pc_job_id oc) KPrune (pc_trigger oc)
        (if pc_success oc then Success else Failed) now)
        \<lparr>jr_parent_run_id := pc_parent_run_id oc, jr_agent_id := Some (pc_agent_id oc),
         jr_started_at := Some (pc_started_at oc), jr_finished_at := Some (pc_finished_at oc),
         jr_error := pc_error oc, jr_log := pc_log oc\<rparr>"], unfold prune_record_def)
    (auto intro!: fresh_row_legal simp: Let_def refreshStatsInBackground_def start_background_def
      fresh_run_def default_run_def terminal_status_def split: if_splits)

lemma fail_stale_change [runc]:
  "run_change (job_runs s) (job_runs (snd (fail_stale cfg now kind reason s)))"
  unfolding fail_stale_def Let_def snd_conv
  by (rule change_update [OF job_runs_set]) (auto simp: legal_defs stale_run_def)

lemma failStale_change [runc]:
  "run_change (job_runs s) (job_runs (failStaleQueuedRuns cfg now s))"
proof -
  let ?s1 = "snd (fail_stale cfg now KBackup ''is the agent offline?'' s)"
  have "run_change (job_runs s) (job_runs ?s1)" by (rule fail_stale_change)
  also have "run_change (job_runs ?s1) (job_runs (snd (fail_stale cfg now KCheck
      ''is the agent offline or too old for integrity checks?'' ?s1)))" by (rule fail_stale_change)
  finally show ?thesis
    by (simp add: failStaleQueuedRuns_def split_beta Let_def rc_refl)
qed

lemma startDueRetries_change [runc]:
  "run_change (job_runs s) (job_runs (startDueRetries now s))"
  unfolding startDueRetries_def claim_retries_def Let_def split_beta fold_dispatch_runs snd_conv
  by (rule change_update [OF job_runs_set]) (auto simp: legal_defs)

lemma local_begin_change [runc]:
  "run_change (job_runs s) (job_runs (local_begin now i s))"
proof (cases "loadRunContext i s")
  case None
  then show ?thesis by (simp add: local_begin_def rc_refl)
next
  case (Some x)
  show ?thesis
    by (rule change_update [of _ "\<lambda>r. jr_id r = i" "\<lambda>r. r\<lparr>jr_status := Running, jr_started_at := Some now\<rparr>"])
      (auto simp: local_begin_def Some legal_defs)
qed

lemma fresh_update: "fresh_run k (s\<lparr>job_runs := update_where P f (job_runs s)\<rparr>) \<longleftrightarrow> fresh_run k s"
  if "\<And>r. jr_id (f r) = jr_id r"
  using that by (simp add: fresh_run_def image_update_where)

lemma finish_success_change [runc]:
  assumes "fresh_run pid s"
  shows "run_change (job_runs s) (job_runs (finish_success now later pid r j p e logs ok s))"
proof -
  let ?f = "\<lambda>q. q\<lparr>jr_status := Success, jr_finished_at := Some now,
                          jr_snapshot_id := ls_snapshot_id ok, jr_stats := Some (ls_stats ok),
                          jr_forget_result := ls_forget ok, jr_log := Some (log_text logs)\<rparr>"
  let ?s1 = "s\<lparr>job_runs := update_where (\<lambda>q. jr_id q = jr_id r) ?f (job_runs s)\<rparr>"
  let ?s2 = "refreshStatsInBackground (re_id p) ?s1"
  have rs: "job_runs ?s2 = job_runs ?s1" by (simp add: refreshStatsInBackground_def start_background_def)
  have "fresh_run pid ?s1" using assms by (subst fresh_update) simp_all
  then have fr: "fresh_run pid ?s2" using rs by (simp add: fresh_run_def)
  have "run_change (job_runs s) (job_runs ?s1)"
    by (rule change_update [OF job_runs_set]) (auto simp: legal_defs)
  then have *: "run_change (job_runs s) (job_runs ?s2)" by (simp only: rs)
  show ?thesis
  proof (cases "wants_prune (bj_restic_options j)")
    case True
    note *
    also have "run_change (job_runs ?s2) (job_runs (finish_success now later pid r j p e logs ok s))"
      unfolding finish_success_def Let_def using True prune_run_change [OF fr] by simp
    finally show ?thesis .
  next
    case False
    with * show ?thesis by (simp add: finish_success_def Let_def)
  qed
qed

lemma finish_failure_change [runc]:
  "run_change (job_runs s) (job_runs (finish_failure now i opts e logs er s))"
  unfolding finish_failure_def Let_def
  by (rule change_update [OF job_runs_set]) (auto simp: legal_defs)

lemma local_finish_change [runc]:
  "fresh_run pid s \<Longrightarrow>
   run_change (job_runs s) (job_runs (local_finish now later pid r j p resolved e s))"
  using finish_success_change finish_failure_change
  by (auto simp: local_finish_def start_background_def Let_def split: prod.splits sum.splits)

lemma writeStats_change [runc]: "run_change (job_runs s) (job_runs (writeStats i st s))"
  unfolding writeStats_def by (rule change_update [OF job_runs_set]) (auto simp: legal_defs)

lemma claim_run_change [runc]: "run_change (job_runs s) (job_runs (snd (claim_run now ag i s)))"
  unfolding claim_run_def snd_conv
  by (rule change_update [OF job_runs_set]) (auto simp: legal_defs)

lemma claim_loop_change [runc]:
  "run_change (job_runs s) (job_runs (snd (claim_loop c now ag mk xs s)))"
proof (induction xs arbitrary: s)
  case Nil
  then show ?case by (simp add: rc_refl)
next
  case (Cons x xs)
  obtain b s1 where cl: "claim_run now ag (jr_id (fst x)) s = (b, s1)" by fastforce
  have "run_change (job_runs s) (job_runs s1)" using claim_run_change [of s now ag "jr_id (fst x)"] cl by simp
  moreover have "run_change (job_runs s1) (job_runs (snd (claim_loop c now ag mk xs s1)))" by (rule Cons.IH)
  ultimately show ?case
    by (auto simp: cl split: bool.splits sum.splits prod.splits intro: rc_trans)
qed

lemma restore_loop_runs: "job_runs (snd (restore_loop c now rs s)) = job_runs s"
proof (induction rs arbitrary: s)
  case (Cons r rs)
  obtain b s1 where cl: "claim_restore now (rr_id r) s = (b, s1)" by fastforce
  then have "job_runs s1 = job_runs s" by (auto simp: claim_restore_def)
  with Cons.IH [of s1] show ?case by (auto simp: cl split: bool.splits sum.splits prod.splits)
qed simp

lemma fold_refresh_runs: "job_runs (fold (\<lambda>r. refreshStatsInBackground (re_id r)) rs s) = job_runs s"
  by (induction rs arbitrary: s) (simp_all add: refreshStatsInBackground_def start_background_def)

lemma claimStatsTasks_runs: "job_runs (snd (claimStatsTasks c ag cap s)) = job_runs s"
  by (simp add: claimStatsTasks_def claimStatsRequests_def fold_refresh_runs)

lemma poll_change [runc]: "run_change (job_runs s) (job_runs (snd (poll c now latest ra dto s)))"
proof -
  let ?a = "ra_id ra"
  let ?s0 = "heartbeat now ra dto s"
  obtain b s1 where 1: "claimBackupTasks c now ?a ?s0 = (b, s1)" by fastforce
  obtain r s2 where 2: "claimRestoreTasks c now ?a s1 = (r, s2)" by fastforce
  obtain k s3 where 3: "(if ''check'' \<in> set (or_empty (pd_capabilities dto))
      then claimCheckTasks c now ?a s2 else (Inr [], s2)) = (k, s3)" by fastforce
  obtain t s4 where 4: "claimStatsTasks c ?a (''stats'' \<in> set (or_empty (pd_capabilities dto))) s3 = (t, s4)"
    by fastforce
  have e0: "job_runs ?s0 = job_runs s" by (simp add: heartbeat_def)
  have c1: "run_change (job_runs s) (job_runs s1)"
    using claim_loop_change [of ?s0 c now ?a backup_task "joined_runs (claimable_backup now ?a ?s0) ?s0"] 1 e0
    by (simp add: claimBackupTasks_def)
  have e2: "job_runs s2 = job_runs s1"
    using restore_loop_runs 2 by (metis claimRestoreTasks_def snd_conv)
  have c3: "run_change (job_runs s2) (job_runs s3)"
    using claim_loop_change [of s2 c now ?a check_task "joined_runs (claimable_check ?a s2) s2"] 3
    by (auto simp: claimCheckTasks_def rc_refl split: if_splits)
  have e4: "job_runs s4 = job_runs s3" using claimStatsTasks_runs 4 by (metis snd_conv)
  from c1 c3 have "run_change (job_runs s) (job_runs s3)" by (simp add: e2 rc_trans)
  with c1 e2 e4 show ?thesis
    unfolding poll_def Let_def 1 prod.case
    by (cases b; cases r; cases k; cases t) (simp_all add: 2 3 4 del: if_split)
qed

lemma backupProgress_change [runc]: "run_change (job_runs s) (job_runs (backupProgress ag i st s))"
  unfolding backupProgress_def by (rule change_update [OF job_runs_set]) (auto simp: legal_defs)

lemma recordStats_runs: "job_runs (snd (recordStats now i rd s)) = job_runs s"
  by (simp add: recordStats_def Let_def split: option.split stats_reading.split)

lemma record_prune_change:
  assumes "fresh_run pid s"
  shows "run_change (job_runs s) (job_runs (record_prune now pid ag r j rep p s))"
  using prune_record_change [OF assms] by (cases p) (simp_all add: record_prune_def rc_refl)

lemma submitBackupResult_change [runc]:
  assumes "fresh_run pid s" "terminal_status (td_status dto)"
  shows "run_change (job_runs s) (job_runs (snd (submitBackupResult now pid ag i dto s)))"
proof (cases "run_with_job i s")
  case None
  then show ?thesis by (simp add: submitBackupResult_def rc_refl)
next
  case (Some rj)
  obtain r j where rj: "rj = (r, j)" by (cases rj)
  let ?s1 = "s\<lparr>job_runs := update_where (\<lambda>q. jr_id q = i \<and> jr_status q = Running)
                           (store_result now dto) (job_runs s)\<rparr>"
  have c1: "run_change (job_runs s) (job_runs ?s1)"
    by (rule change_update [OF job_runs_set]) (use assms(2) in \<open>auto simp: store_result_def legal_defs\<close>)
  have c2: "run_change (job_runs s) (job_runs (s\<lparr>job_runs := update_where
      (\<lambda>q. jr_id q = i \<and> (jr_status q = Running \<or> jr_status q = Cancelled))
      (cancelledOnAgent now dto) (job_runs s)\<rparr>))"
    by (rule change_update [OF job_runs_set]) (auto simp: cancelledOnAgent_def legal_defs)
  have f1: "fresh_run pid ?s1" using assms(1) by (subst fresh_update) (simp_all add: store_result_def)
  have c3: "run_change (job_runs s) (job_runs (record_prune now pid ag r j rep p t))"
    if "job_runs t = job_runs ?s1" for t rep p
  proof -
    have "fresh_run pid t" using f1 that by (simp add: fresh_run_def)
    from record_prune_change [OF this] that have
      "run_change (job_runs ?s1) (job_runs (record_prune now pid ag r j rep p t))" by simp
    with c1 show ?thesis by (rule rc_trans)
  qed
  obtain res t where rs: "recordStats now (bj_repository_id j) (toStatsReading dto) ?s1 = (res, t)" by fastforce
  then have t: "job_runs t = job_runs ?s1" using recordStats_runs by (metis snd_conv)
  have rf: "job_runs (refreshStatsInBackground x ?s1) = job_runs ?s1" for x
    by (simp add: refreshStatsInBackground_def start_background_def)
  have sb: "job_runs (start_background b x) = job_runs x" for b x by (simp add: start_background_def)
  show ?thesis
  proof (cases "jr_agent_id r \<noteq> Some ag \<or> td_status dto = Cancelled")
    case True
    then show ?thesis using c2 by (auto simp: submitBackupResult_def Some rj rc_refl)
  next
    case False
    then show ?thesis
      using c3 [OF t] c3 [OF rf] c3 [OF refl] c1 t
      by (cases res) (simp_all add: submitBackupResult_def Some rj Let_def rs sb)
  qed
qed

lemma touchAgent_runs [simp]: "job_runs (touchAgent now ag s) = job_runs s"
  by (simp add: touchAgent_def)

lemma submitResult_change [runc]:
  assumes "fresh_run pid s" "terminal_status (td_status dto)"
  shows "run_change (job_runs s) (job_runs (snd (submitResult now pid ag i dto s)))"
proof -
  let ?s0 = "touchAgent now ag s"
  have f: "fresh_run pid ?s0" using assms(1) by (simp add: fresh_run_def)
  have 1: "run_change (job_runs s) (job_runs (snd (submitBackupResult now pid ag i dto ?s0)))"
    using submitBackupResult_change [OF f assms(2)] by simp
  have 2: "run_change (job_runs s) (job_runs (recordAgentResult now ag i oc ?s0))"
    if "terminal_status (co_status oc)" for oc
    using recordAgentResult_change [OF that] by (metis touchAgent_runs)
  have 3: "job_runs (snd (submitRestoreResult now ag i dto ?s0)) = job_runs s"
    by (simp add: submitRestoreResult_def split: option.split)
  have 4: "job_runs (snd (submitStatsResult now ag k dto ?s0)) = job_runs s" for k
    using recordStats_runs [of now k "toStatsReading dto" ?s0]
    by (auto simp: submitStatsResult_def split: prod.splits sum.splits)
  show ?thesis
    using 1 2 assms(2) by (simp add: submitResult_def Let_def 3 4 rc_refl split: option.split)
qed

lemma submitProgress_change [runc]:
  "run_change (job_runs s) (job_runs (submitProgress now ag i st s))"
proof -
  have "job_runs (restoreProgress ag i st (touchAgent now ag s)) = job_runs s"
    by (simp add: restoreProgress_def)
  moreover have "run_change (job_runs s) (job_runs (backupProgress ag i st (touchAgent now ag s)))"
    using backupProgress_change by (metis touchAgent_runs)
  ultimately show ?thesis
    by (simp add: submitProgress_def Let_def rc_refl split: option.split)
qed

lemma taskState_runs: "job_runs (snd (taskState now ag i s)) = job_runs s"
  by (simp add: taskState_def Let_def split: option.split)

lemma agent_remove_change [runc]: "run_change (job_runs s) (job_runs (agent_remove i s))"
  by (rule change_update [of _ "\<lambda>r. jr_agent_id r = Some i" "\<lambda>r. r\<lparr>jr_agent_id := None\<rparr>"])
    (auto simp: agent_remove_def legal_defs)

lemma force_cancel_change [runc]: "run_change (job_runs s) (job_runs (force_cancel now r s))"
  unfolding force_cancel_def by (rule change_update [OF job_runs_set]) (auto simp: legal_defs)

lemma abort_process_runs: "job_runs (snd (abort_process i s)) = job_runs s"
  by (simp add: abort_process_def runner_cancel_def prune_cancel_def check_cancel_def)

lemma run_cancel_change [runc]: "run_change (job_runs s) (job_runs (snd (run_cancel now u i s)))"
proof -
  obtain b s1 where a: "abort_process i s = (b, s1)" by fastforce
  then have "job_runs s1 = job_runs s" using abort_process_runs by (metis snd_conv)
  then have "run_change (job_runs s) (job_runs (force_cancel now r s1))" for r
    using force_cancel_change [of s1 now r] by simp
  with \<open>job_runs s1 = job_runs s\<close> show ?thesis
    by (cases b) (simp_all add: run_cancel_def a rc_refl split: sum.split)
qed

section \<open>Events and executions\<close>

datatype event =
    EvCreateRun time uuid uuid run_trigger
  | EvCheckStart time uuid uuid run_trigger "integrity_level option"
  | EvDispatch uuid
  | EvLocalBegin time uuid
  | EvLocalFinish time time uuid job_run backup_job repository "resolved_target result" exec_env
  | EvWriteStats uuid json
  | EvFailStale config time
  | EvStartDueRetries time
  | EvFinalize crypto config time uuid uuid
  | EvNotify crypto config uuid
  | EvCheckExecute "resolved_target \<Rightarrow> check_info \<Rightarrow> bool result" time uuid uuid "resolved_target result"
      check_info "string list"
  | EvPruneStart time uuid prune_run_options
  | EvPruneFinish time uuid uuid "string list" "unit result"
  | EvCancel time request_user uuid
  | EvForceCancel time job_run
  | EvPoll crypto time "string option" request_agent poll_dto
  | EvResult time uuid uuid string task_result
  | EvProgress time uuid string json
  | EvTaskState time uuid string
  | EvAgentRemove uuid

text \<open>
  New rows get ids that are not in use (random UUIDs), and an agent's result has one of the
  three statuses its schema allows; an event that violates this does not happen.
  \<open>EvForceCancel\<close> is the last statement of a cancel whose row was read earlier.
\<close>

fun apply_event :: "event \<Rightarrow> server \<Rightarrow> server" where
  "apply_event (EvCreateRun now i job trig) s =
     (if fresh_run i s then createRun now i job trig s else s)"
| "apply_event (EvCheckStart now i job trig lv) s =
     (if fresh_run i s then snd (check_start now i job trig lv s) else s)"
| "apply_event (EvDispatch i) s = dispatch i s"
| "apply_event (EvLocalBegin now i) s = local_begin now i s"
| "apply_event (EvLocalFinish now later pid r j p rv e) s =
     (if fresh_run pid s then local_finish now later pid r j p rv e s else s)"
| "apply_event (EvWriteStats i st) s = writeStats i st s"
| "apply_event (EvFailStale cfg now) s = failStaleQueuedRuns cfg now s"
| "apply_event (EvStartDueRetries now) s = startDueRetries now s"
| "apply_event (EvFinalize c cfg now new_id i) s =
     (if fresh_run new_id s then finalize c cfg now new_id i s else s)"
| "apply_event (EvNotify c cfg i) s = notifyJobRun c cfg i s"
| "apply_event (EvCheckExecute rc now i repo rv info logs) s = check_execute rc now i repo rv info logs s"
| "apply_event (EvPruneStart now i opts) s = (if fresh_run i s then prune_start now i opts s else s)"
| "apply_event (EvPruneFinish now i repo logs res) s = prune_finish now i repo logs res s"
| "apply_event (EvCancel now u i) s = snd (run_cancel now u i s)"
| "apply_event (EvForceCancel now r) s = force_cancel now r s"
| "apply_event (EvPoll c now latest ra dto) s = snd (poll c now latest ra dto s)"
| "apply_event (EvResult now pid ag i dto) s =
     (if fresh_run pid s \<and> terminal_status (td_status dto)
      then snd (submitResult now pid ag i dto s) else s)"
| "apply_event (EvProgress now ag i st) s = submitProgress now ag i st s"
| "apply_event (EvTaskState now ag i) s = snd (taskState now ag i s)"
| "apply_event (EvAgentRemove i) s = agent_remove i s"

lemma event_change: "run_change (job_runs s) (job_runs (apply_event e s))"
  by (cases e) (auto intro: runc rc_refl simp: taskState_runs)

inductive reachable :: "server \<Rightarrow> bool" where
  init: "job_runs s = [] \<Longrightarrow> reachable s"
| event: "reachable s \<Longrightarrow> reachable (apply_event e s)"
| job_removed: "reachable s \<Longrightarrow> reachable (snd (job_remove u i s))"

lemma delete_job_ok:
  assumes "table_ok rows"
  shows "table_ok (delete_where (\<lambda>r. jr_job_id r = i) rows)"
proof -
  have "retry_link (delete_where (\<lambda>r. jr_job_id r = i) rows) r"
    if "retry_link rows r" "jr_job_id r \<noteq> i" for r
    using that unfolding retry_link_def set_delete_where by fastforce
  with assms show ?thesis by (auto simp: table_ok_def set_delete_where distinct_map_delete)
qed

lemma job_remove_runs:
  "job_runs (snd (job_remove u i s)) = job_runs s \<or>
   job_runs (snd (job_remove u i s)) = delete_where (\<lambda>r. jr_job_id r = i) (job_runs s)"
  by (auto simp: job_remove_def Let_def secret_remove_def remove_credential_secret_def
      split: sum.splits option.splits)

lemma reachable_table_ok: "reachable s \<Longrightarrow> table_ok (job_runs s)"
proof (induction rule: reachable.induct)
  case (init s)
  then show ?case by (simp add: table_ok_def)
next
  case (event s e)
  then show ?case using event_change run_change_ok by blast
next
  case (job_removed s u i)
  then show ?case using job_remove_runs [of u i s] delete_job_ok by auto
qed

section \<open>A queued run is handed out once\<close>

definition hand_out :: "time \<times> uuid \<times> uuid \<Rightarrow> server \<Rightarrow> server" where
  "hand_out a s = snd (claim_run (fst a) (fst (snd a)) (snd (snd a)) s)"

definition hand_out_wins :: "time \<times> uuid \<times> uuid \<Rightarrow> server \<Rightarrow> bool" where
  "hand_out_wins a s \<longleftrightarrow> (\<exists>r. job_run_by_id (snd (snd a)) s = Some r \<and> jr_status r = Queued)"

definition left_queue :: "uuid \<Rightarrow> server \<Rightarrow> bool" where
  "left_queue i s \<longleftrightarrow> (\<exists>r. job_run_by_id i s = Some r \<and> jr_status r \<noteq> Queued)"

lemma hand_out_wins_claimed:
  assumes "table_ok (job_runs s)"
  shows "hand_out_wins a s \<longleftrightarrow> fst (claim_run (fst a) (fst (snd a)) (snd (snd a)) s)"
proof -
  have d: "distinct (jrow.keys (job_runs s))" using assms by (simp add: table_ok_def jrow.keys_def)
  have "jrow.by_key i (job_runs s) = Some r" if "r \<in> set (job_runs s)" "jr_id r = i" for r i
    using jrow.by_key_unique [OF d that(1)] that(2) by simp
  then show ?thesis
    using jrow.by_key_in [of "snd (snd a)" "job_runs s"]
    unfolding hand_out_wins_def claim_run_def queued_row_def job_run_by_id_key fst_conv count_where_0 by blast
qed

interpretation run_claims: claim_once hand_out hand_out_wins apply_event left_queue "\<lambda>a. snd (snd a)"
proof
  fix a :: "time \<times> uuid \<times> uuid" and s assume "left_queue (snd (snd a)) s"
  then show "\<not> hand_out_wins a s" by (auto simp: left_queue_def hand_out_wins_def)
next
  fix a :: "time \<times> uuid \<times> uuid" and s assume "hand_out_wins a s"
  then obtain r where r: "jrow.by_key (snd (snd a)) (job_runs s) = Some r" "jr_status r = Queued"
    by (auto simp: hand_out_wins_def job_run_by_id_key)
  moreover from r(1) have "jr_id r = snd (snd a)" by (auto dest: jrow.by_key_in)
  ultimately show "left_queue (snd (snd a)) (hand_out a s)"
    by (simp add: left_queue_def hand_out_def claim_run_def queued_row_def job_run_by_id_key
        jrow.by_key_update)
next
  fix k s and a :: "time \<times> uuid \<times> uuid" assume "left_queue k s"
  then show "left_queue k (hand_out a s)"
    using run_change_not_queued [OF claim_run_change]
    by (auto simp: left_queue_def hand_out_def job_run_by_id_key)
next
  fix k s e assume "left_queue k s"
  then show "left_queue k (apply_event e s)"
    using run_change_not_queued [OF event_change] by (auto simp: left_queue_def job_run_by_id_key)
qed

section \<open>Hand-out by a poll\<close>

definition held :: "uuid \<Rightarrow> uuid \<Rightarrow> server \<Rightarrow> bool" where
  "held ag i s \<longleftrightarrow> (\<exists>r. job_run_by_id i s = Some r \<and> jr_status r = Running \<and> jr_agent_id r = Some ag)"

lemma claim_run_ok: "table_ok (job_runs s) \<Longrightarrow> table_ok (job_runs (snd (claim_run now ag i s)))"
  using run_change_ok claim_run_change by blast

lemma claim_run_held:
  assumes "table_ok (job_runs s)" "fst (claim_run now ag i s)"
  shows "held ag i (snd (claim_run now ag i s))"
proof -
  obtain r where r: "jrow.by_key i (job_runs s) = Some r" "jr_status r = Queued"
    using hand_out_wins_claimed [OF assms(1), of "(now, ag, i)"] assms(2)
    by (auto simp: hand_out_wins_def job_run_by_id_key)
  then have "jr_id r = i" by (auto dest: jrow.by_key_in)
  with r show ?thesis by (simp add: held_def claim_run_def queued_row_def job_run_by_id_key jrow.by_key_update)
qed

lemma claim_run_keeps_held: "held ag i s \<Longrightarrow> held ag i (snd (claim_run now ag' k s))"
proof -
  assume "held ag i s"
  then obtain r where "jrow.by_key i (job_runs s) = Some r" "jr_status r = Running" "jr_agent_id r = Some ag"
    by (auto simp: held_def job_run_by_id_key)
  then show ?thesis by (simp add: held_def claim_run_def queued_row_def job_run_by_id_key jrow.by_key_update)
qed

lemma claim_loop_keeps_held: "held ag i s \<Longrightarrow> held ag i (snd (claim_loop c now ag' mk xs s))"
proof (induction xs arbitrary: s)
  case (Cons x xs)
  obtain b s1 where b: "claim_run now ag' (jr_id (fst x)) s = (b, s1)" by fastforce
  with Cons.prems have "held ag i s1" using claim_run_keeps_held by (metis snd_conv)
  with Cons.IH [of s1] b show ?case
    by (cases b) (auto split: sum.splits prod.splits)
qed simp

lemma claim_loop_tasks:
  assumes "claim_loop c now ag mk xs s = (Inr ts, s')" "t \<in> set ts" "table_ok (job_runs s)"
    and ids: "\<And>x rv. at_task_id (mk x rv) = jr_id (fst x)"
  shows "at_task_id t \<in> (jr_id \<circ> fst) ` set xs \<and> held ag (at_task_id t) s'"
  using assms(1-3)
proof (induction xs arbitrary: s ts)
  case (Cons x xs)
  obtain b s1 where b: "claim_run now ag (jr_id (fst x)) s = (b, s1)" by fastforce
  then have ok: "table_ok (job_runs s1)" using claim_run_ok [OF Cons.prems(3)] by (metis snd_conv)
  show ?case
  proof (cases b)
    case False
    with Cons b ok show ?thesis by fastforce
  next
    case True
    then obtain rv ts' where rest: "claim_loop c now ag mk xs s1 = (Inr ts', s')" "ts = mk x rv # ts'"
      using Cons.prems(1) b by (auto split: sum.splits prod.splits)
    have "held ag (jr_id (fst x)) s1" using claim_run_held [OF Cons.prems(3)] b True by (metis fst_conv snd_conv)
    then have "held ag (jr_id (fst x)) s'" using claim_loop_keeps_held rest(1) by (metis snd_conv)
    with Cons.IH [OF rest(1) _ ok] Cons.prems(2) rest(2) ids [of x rv] show ?thesis by auto
  qed
qed simp

lemma joined_runs_sub: "x \<in> set (joined_runs P s) \<Longrightarrow> fst x \<in> set (job_runs s) \<and> P (fst x)"
  by (auto simp: joined_runs_def map_filter_def select_where_def split: option.splits)

section \<open>Theorems\<close>



text \<open>
  The successful hand-outs of run \<open>k\<close> in a sequence of conditional updates (each for some time,
  agent and run) and other events.
\<close>

fun hand_outs :: "uuid \<Rightarrow> (time \<times> uuid \<times> uuid, event) cstep list \<Rightarrow> server \<Rightarrow> nat" where
  "hand_outs k [] s = 0"
| "hand_outs k (Claim a # xs) s =
     (if snd (snd a) = k \<and> fst (claim_run (fst a) (fst (snd a)) (snd (snd a)) s) then 1 else 0) +
     hand_outs k xs (snd (claim_run (fst a) (fst (snd a)) (snd (snd a)) s))"
| "hand_outs k (Other e # xs) s = hand_outs k xs (apply_event e s)"

lemma hand_outs_successes: "table_ok (job_runs s) \<Longrightarrow> hand_outs k xs s = run_claims.successes k xs s"
proof (induction k xs s rule: hand_outs.induct)
  case (2 k a xs s)
  have "hand_out a s = snd (claim_run (fst a) (fst (snd a)) (snd (snd a)) s)" by (simp add: hand_out_def)
  moreover from "2.prems" have "table_ok (job_runs (snd (claim_run (fst a) (fst (snd a)) (snd (snd a)) s)))"
    by (rule claim_run_ok)
  ultimately show ?case using "2.IH" hand_out_wins_claimed [OF "2.prems", of a] by simp
next
  case (3 k e xs s)
  with run_change_ok [OF event_change] show ?case by simp
qed simp



text \<open>
  C6: A poll hands out only what is due and belongs to the agent: every backup task of a poll
  is for a run that was queued, whose delay had passed and whose job is assigned to the
  polling agent, and that run is running under this agent afterwards.
\<close>

theorem poll_hands_out_own_due_runs:
  assumes "reachable s" "claimBackupTasks c now ag s = (Inr ts, s')" "t \<in> set ts"
  shows "\<exists>r j. job_run_by_id (at_task_id t) s = Some r \<and> jr_kind r = KBackup \<and> jr_status r = Queued \<and>
      (\<forall>due. jr_not_before r = Some due \<longrightarrow> due \<le> now) \<and>
      j \<in> set (backup_jobs s) \<and> bj_id j = jr_job_id r \<and> bj_agent_id j = Some ag \<and>
    (\<exists>r'. job_run_by_id (at_task_id t) s' = Some r' \<and> jr_status r' = Running \<and> jr_agent_id r' = Some ag)"
proof -
  have ok: "table_ok (job_runs s)" using assms(1) by (rule reachable_table_ok)
  have "at_task_id (backup_task x rv) = jr_id (fst x)" for x rv
    by (simp add: backup_task_def blank_task_def Let_def)
  with claim_loop_tasks [OF assms(2) [unfolded claimBackupTasks_def] assms(3) ok] obtain x where
    x: "x \<in> set (joined_runs (claimable_backup now ag s) s)" "at_task_id t = jr_id (fst x)" "held ag (at_task_id t) s'"
    by auto
  from joined_runs_sub [OF x(1)] ok x(2) have "job_run_by_id (at_task_id t) s = Some (fst x)"
    using jrow.by_key_unique [of "job_runs s" "fst x"] by (simp add: job_run_by_id_key table_ok_def jrow.keys_def)
  moreover have "claimable_backup now ag s (fst x)" using joined_runs_sub [OF x(1)] by blast
  ultimately show ?thesis using x(3) by (auto simp: claimable_backup_def held_def split: option.splits)
qed

definition agent_server :: server where
  "agent_server = snd (secret_create sample_crypto ''s1'' ''iv'' StRepoPassword (PText ''pw'')
     ((sample_server [])\<lparr>backup_jobs := [sample_job\<lparr>bj_location := LocAgent, bj_agent_id := Some ''a1''\<rparr>]\<rparr>))"

lemma agent_server_resolves:
  "\<exists>rv. resolveForJob sample_crypto (agent_server\<lparr>job_runs := rows\<rparr>) sample_repository = Inr rv"
proof -
  have "reveal sample_crypto agent_server ''s1'' = Inr (PText ''pw'')"
    unfolding agent_server_def
    by (rule reveal_after_create) (simp_all add: sample_crypto_laws secret_by_id_def select_first_def)
  then have "reveal sample_crypto (agent_server\<lparr>job_runs := rows\<rparr>) ''s1'' = Inr (PText ''pw'')"
    using reveal_secrets_cong [of "agent_server\<lparr>job_runs := rows\<rparr>" agent_server] by simp
  then show ?thesis
    by (simp add: resolveForJob_def resolveRepo_def sample_repository_def assemble_def getBackend_def BACKENDS_def
        mk_backend_def select_first_def build_local_def plain_backend_def)
qed

theorem poll_hands_out_own_due_runs_witness:
  "\<exists>ts s'. claimBackupTasks sample_crypto 5 ''a1'' (apply_event (EvCreateRun 0 ''r1'' ''j1'' TrManual) agent_server) = (Inr ts, s') \<and>
     (\<exists>t \<in> set ts. held ''a1'' (at_task_id t) s')"
proof -
  let ?s = "apply_event (EvCreateRun 0 ''r1'' ''j1'' TrManual) agent_server"
  let ?r = "default_run ''r1'' ''j1'' KBackup TrManual Queued 0"
  have runs: "job_runs agent_server = []" "backup_jobs agent_server = [sample_job\<lparr>bj_location := LocAgent, bj_agent_id := Some ''a1''\<rparr>]"
    "repositories agent_server = [sample_repository]"
    by (simp_all add: agent_server_def secret_create_def Let_def)
  then have reach: "reachable ?s" by (intro reachable.intros)
  have s: "?s = agent_server\<lparr>job_runs := [?r]\<rparr>"
    using runs by (simp add: fresh_run_def createRun_def insert_row_def)
  have j: "joined_runs (claimable_backup 5 ''a1'' ?s) ?s =
      [(?r, sample_job\<lparr>bj_location := LocAgent, bj_agent_id := Some ''a1''\<rparr>, sample_repository)]"
    unfolding s using runs by (simp add: joined_runs_def select_where_def claimable_backup_def default_run_def map_filter_simps
        backup_job_by_id_def repository_by_id_def select_first_def)
  obtain rv where "resolveForJob sample_crypto (snd (claim_run 5 ''a1'' ''r1'' ?s)) sample_repository = Inr rv"
    unfolding s using agent_server_resolves by (auto simp: claim_run_def)
  then obtain t s' where t: "claimBackupTasks sample_crypto 5 ''a1'' ?s = (Inr [t], s')"
    unfolding claimBackupTasks_def j unfolding s
    by (simp add: claim_run_def count_where_def queued_row_def default_run_def)
  from poll_hands_out_own_due_runs [OF reach t, of t] t show ?thesis by (auto simp: held_def)
qed

end
