(* ===== verification/NetAddr.thy ===== *)
theory NetAddr
  imports Prelude "HOL-Library.Word"
begin

text \<open>
  Addresses: \<open>server/src/common/ip-allowlist.ts\<close> (the allowlists of agents and
  administrators) and \<open>server/src/common/net-guard.ts\<close> (hosts the server itself connects
  to). Of Node's \<open>net\<close> module the sources use \<open>isIP\<close> and \<open>BlockList\<close>: addresses are
  parsed into 128-bit words, an IPv4 address as its IPv4-mapped IPv6 address, which is how
  \<open>BlockList\<close> compares the two families. DNS and the URL parser are parameters.
  The lemmas characterise the allowlist decision bit by bit and the IPv4 part of the
  guard by the address ranges its comments name.
\<close>

unbundle bit_operations_syntax

section \<open>Parsing addresses\<close>

type_synonym ip128 = "128 word"

definition parse_octet :: "string \<Rightarrow> nat option" where
  "parse_octet s =
     (if s \<noteq> [] \<and> length s \<le> 3 \<and> list_all is_digit s \<and> (length s = 1 \<or> hd s \<noteq> CHR ''0'') \<and>
         digits_value s \<le> 255
      then Some (digits_value s) else None)"

definition parse_ipv4 :: "string \<Rightarrow> 32 word option" where
  "parse_ipv4 s =
     (case map parse_octet (split_on (CHR ''.'') s) of
        [Some a, Some b, Some c, Some d] \<Rightarrow> Some (of_nat (((a * 256 + b) * 256 + c) * 256 + d))
      | _ \<Rightarrow> None)"

definition hex_digit :: "char \<Rightarrow> nat option" where
  "hex_digit c =
     (let n = of_char (lower_char c) :: nat in
      if 48 \<le> n \<and> n \<le> 57 then Some (n - 48)
      else if 97 \<le> n \<and> n \<le> 102 then Some (n - 87) else None)"

definition parse_group :: "string \<Rightarrow> nat option" where
  "parse_group s =
     (if s \<noteq> [] \<and> length s \<le> 4 \<and> list_all (\<lambda>c. hex_digit c \<noteq> None) s
      then Some (foldl (\<lambda>acc c. 16 * acc + the (hex_digit c)) 0 s) else None)"

text \<open>The 16-bit groups of a colon-separated text; the last piece may be an IPv4 address.\<close>

fun parse_pieces :: "bool \<Rightarrow> string list \<Rightarrow> nat list option" where
  "parse_pieces tail4 [] = Some []"
| "parse_pieces tail4 [p] =
     (case parse_group p of
        Some g \<Rightarrow> Some [g]
      | None \<Rightarrow>
          (if tail4
           then map_option (\<lambda>w. [unat w div 65536, unat w mod 65536]) (parse_ipv4 p)
           else None))"
| "parse_pieces tail4 (p # ps) =
     (case parse_group p of
        None \<Rightarrow> None
      | Some g \<Rightarrow> map_option ((#) g) (parse_pieces tail4 ps))"

definition parse_groups :: "bool \<Rightarrow> string \<Rightarrow> nat list option" where
  "parse_groups tail4 s = (if s = [] then Some [] else parse_pieces tail4 (split_on (CHR '':'') s))"

text \<open>The text before and after the first \<open>::\<close>.\<close>

fun split_dcolon :: "string \<Rightarrow> (string \<times> string) option" where
  "split_dcolon (a # b # s) =
     (if a = CHR '':'' \<and> b = CHR '':'' then Some ([], s)
      else map_option (\<lambda>(l, r). (a # l, r)) (split_dcolon (b # s)))"
| "split_dcolon _ = None"

definition groups_value :: "nat list \<Rightarrow> ip128" where
  "groups_value gs = of_nat (foldl (\<lambda>acc g. 65536 * acc + g) 0 gs)"

definition zone_char :: "char \<Rightarrow> bool" where
  "zone_char c \<longleftrightarrow> is_lower_alnum (lower_char c) \<or> c \<in> {CHR ''-'', CHR ''.'', CHR '':''}"

text \<open>An IPv6 address, with an optional zone after a percent sign.\<close>

definition parse_ipv6 :: "string \<Rightarrow> ip128 option" where
  "parse_ipv6 s =
     (let addr = takeWhile (\<lambda>c. c \<noteq> CHR ''%'') s; zone = dropWhile (\<lambda>c. c \<noteq> CHR ''%'') s in
      if zone \<noteq> [] \<and> (tl zone = [] \<or> \<not> list_all zone_char (tl zone)) then None
      else case split_dcolon addr of
        None \<Rightarrow>
          (case parse_groups True addr of
             Some gs \<Rightarrow> if length gs = 8 then Some (groups_value gs) else None
           | None \<Rightarrow> None)
      | Some (l, r) \<Rightarrow>
          (case (parse_groups False l, parse_groups True r) of
             (Some ls, Some rs) \<Rightarrow>
               if length ls + length rs \<le> 7
               then Some (groups_value (ls @ replicate (8 - (length ls + length rs)) 0 @ rs))
               else None
           | _ \<Rightarrow> None))"

text \<open>\<open>isIP\<close> of the \<open>net\<close> module: 4, 6, or 0.\<close>

definition isIP :: "string \<Rightarrow> nat" where
  "isIP s = (if parse_ipv4 s \<noteq> None then 4 else if parse_ipv6 s \<noteq> None then 6 else 0)"

definition mapped4 :: "32 word \<Rightarrow> ip128" where
  "mapped4 w = 0xFFFF00000000 + ucast w"

definition addr128 :: "string \<Rightarrow> ip128 option" where
  "addr128 s = (case parse_ipv4 s of Some w \<Rightarrow> Some (mapped4 w) | None \<Rightarrow> parse_ipv6 s)"

section \<open>Allowlists\<close>

text \<open>\<open>/^::ffff:(\d{1,3}(?:\.\d{1,3}){3})$/i\<close>: the captured text, if the pattern matches.\<close>

definition dotted_quad :: "string \<Rightarrow> bool" where
  "dotted_quad s \<longleftrightarrow>
     (let ps = split_on (CHR ''.'') s in
      length ps = 4 \<and> list_all (\<lambda>p. p \<noteq> [] \<and> length p \<le> 3 \<and> list_all is_digit p) ps)"

definition mapped_match :: "string \<Rightarrow> string option" where
  "mapped_match s =
     (let rest = drop 7 s in
      if to_lower (take 7 s) = ''::ffff:'' \<and> dotted_quad rest then Some rest else None)"

definition normalizeIp :: "string \<Rightarrow> string" where
  "normalizeIp ip = (case mapped_match ip of Some m \<Rightarrow> m | None \<Rightarrow> ip)"

record allow_entry =
  en_address :: string
  en_prefix :: "nat option"
  en_family :: nat

definition parseEntry :: "string \<Rightarrow> allow_entry option" where
  "parseEntry raw =
     (case split_on (CHR ''/'') (trim raw) of
        address # ps \<Rightarrow>
          (if length ps > 1 then None
           else let version = isIP address in
             if version = 0 then None
             else case ps of
               [] \<Rightarrow> Some \<lparr>en_address = address, en_prefix = None, en_family = version\<rparr>
             | prefixText # _ \<Rightarrow>
                 (if \<not> (prefixText \<noteq> [] \<and> length prefixText \<le> 3 \<and> list_all is_digit prefixText) then None
                  else let p = digits_value prefixText in
                    if p > (if version = 4 then 32 else 128) then None
                    else Some \<lparr>en_address = address, en_prefix = Some p, en_family = version\<rparr>))
      | [] \<Rightarrow> None)"

definition isValidAllowlistEntry :: "string \<Rightarrow> bool" where
  "isValidAllowlistEntry raw \<longleftrightarrow> parseEntry raw \<noteq> None"

text \<open>
  A \<open>BlockList\<close> is the list of its networks: a 128-bit network address with the number of
  leading bits that count. \<open>addAddress\<close> adds a network of one address.
\<close>

type_synonym block_list = "(ip128 \<times> nat) list"

definition family_bits :: "nat \<Rightarrow> nat \<Rightarrow> nat" where
  "family_bits family p = (if family = 4 then 96 + p else p)"

definition addAddress :: "string \<Rightarrow> block_list \<Rightarrow> block_list" where
  "addAddress a l = (case addr128 a of None \<Rightarrow> l | Some n \<Rightarrow> l @ [(n, 128)])"

definition addSubnet :: "string \<Rightarrow> nat \<Rightarrow> nat \<Rightarrow> block_list \<Rightarrow> block_list" where
  "addSubnet a p family l = (case addr128 a of None \<Rightarrow> l | Some n \<Rightarrow> l @ [(n, family_bits family p)])"

definition in_network :: "ip128 \<Rightarrow> ip128 \<times> nat \<Rightarrow> bool" where
  "in_network a np = (drop_bit (128 - snd np) a = drop_bit (128 - snd np) (fst np))"

definition block_list_check :: "block_list \<Rightarrow> string \<Rightarrow> bool" where
  "block_list_check l addr = (case addr128 addr of None \<Rightarrow> False | Some a \<Rightarrow> list_ex (in_network a) l)"

definition add_entry :: "block_list \<Rightarrow> string \<Rightarrow> block_list" where
  "add_entry l raw =
     (case parseEntry raw of
        None \<Rightarrow> l
      | Some e \<Rightarrow>
          (case en_prefix e of
             None \<Rightarrow> addAddress (en_address e) l
           | Some p \<Rightarrow> addSubnet (en_address e) p (en_family e) l))"

definition ipAllowed :: "string list \<Rightarrow> string option \<Rightarrow> bool" where
  "ipAllowed allowlist ip =
     (if allowlist = [] then True
      else case ip of
        None \<Rightarrow> False
      | Some i \<Rightarrow>
          (if i = [] then False
           else let addr = normalizeIp i in
             if isIP addr = 0 then False
             else block_list_check (foldl add_entry [] allowlist) addr))"

section \<open>Hosts the server may connect to\<close>

text \<open>\<open>Number(s)\<close> on the pieces of a dotted address: digits, or not a number.\<close>

definition js_number :: "string \<Rightarrow> nat option" where
  "js_number s = (if list_all is_digit s then Some (digits_value s) else None)"

definition ipv4Blocked :: "string \<Rightarrow> bool" where
  "ipv4Blocked ip =
     (case map js_number (split_on (CHR ''.'') ip) of
        [Some a, Some b, Some _, Some _] \<Rightarrow>
          (if a = 127 then True else if a = 0 then True else if a = 169 \<and> b = 254 then True else False)
      | _ \<Rightarrow> True)"

definition ipv6Blocked :: "string \<Rightarrow> bool" where
  "ipv6Blocked ip =
     (let s = to_lower ip in
      if s = ''::1'' \<or> s = ''::'' then True
      else if starts_with ''fe80'' s then True
      else if starts_with ''fec0'' s then True
      else case mapped_match s of Some m \<Rightarrow> ipv4Blocked m | None \<Rightarrow> False)"

definition addressBlocked :: "string \<Rightarrow> nat \<Rightarrow> bool" where
  "addressBlocked address family = (if family = 6 then ipv6Blocked address else ipv4Blocked address)"

definition blocked_error :: "string \<Rightarrow> error" where
  "blocked_error host =
     PlainError (''Refusing to connect to '' @ [CHR 0x22] @ host @ [CHR 0x22] @
       '': it resolves to a loopback, link-local or unspecified address'')"

definition strip_brackets :: "string \<Rightarrow> string" where
  "strip_brackets h =
     (let a = (if h \<noteq> [] \<and> hd h = CHR ''['' then tl h else h) in
      if a \<noteq> [] \<and> last a = CHR '']'' then butlast a else a)"

text \<open>
  \<open>dns\<close> is \<open>lookup(name, {all: true})\<close>: every address of the name with its family, or
  \<open>None\<close> when the lookup fails.
\<close>

definition assertSafeHost :: "(string \<Rightarrow> (string \<times> nat) list option) \<Rightarrow> string \<Rightarrow> unit result" where
  "assertSafeHost dns host =
     (let clean = strip_brackets host;
          literal = isIP clean;
          addresses = (if literal \<noteq> 0 then [(clean, literal)]
                       else case dns clean of None \<Rightarrow> [] | Some as \<Rightarrow> as)
      in if list_ex (\<lambda>a. addressBlocked (fst a) (snd a)) addresses
         then Inl (blocked_error host) else Inr ())"

text \<open>\<open>url_parse\<close> is \<open>new URL(raw)\<close>, reduced to the protocol and the host name it gives.\<close>

definition assertSafeFetchUrl ::
  "(string \<Rightarrow> (string \<times> string) option) \<Rightarrow> (string \<Rightarrow> (string \<times> nat) list option) \<Rightarrow> string
    \<Rightarrow> (string \<times> string) result" where
  "assertSafeFetchUrl url_parse dns raw =
     (case url_parse raw of
        None \<Rightarrow> Inl (PlainError ''Invalid URL'')
      | Some (protocol, hostname) \<Rightarrow>
          (if protocol \<noteq> ''http:'' \<and> protocol \<noteq> ''https:''
           then Inl (PlainError ''Only http(s) URLs are allowed'')
           else case assertSafeHost dns hostname of
             Inl e \<Rightarrow> Inl e
           | Inr _ \<Rightarrow> Inr (protocol, hostname)))"


section \<open>What an allowlist admits\<close>

text \<open>The network a list entry stands for.\<close>

definition entry_network :: "string \<Rightarrow> (ip128 \<times> nat) option" where
  "entry_network raw =
     (case parseEntry raw of
        None \<Rightarrow> None
      | Some e \<Rightarrow>
          map_option (\<lambda>n. (n, case en_prefix e of None \<Rightarrow> 128 | Some p \<Rightarrow> family_bits (en_family e) p))
            (addr128 (en_address e)))"

text \<open>The leading \<open>p\<close> bits of two addresses agree.\<close>

definition same_prefix :: "nat \<Rightarrow> ip128 \<Rightarrow> ip128 \<Rightarrow> bool" where
  "same_prefix p a n \<longleftrightarrow> (\<forall>i. 128 - p \<le> i \<and> i < 128 \<longrightarrow> (bit a i \<longleftrightarrow> bit n i))"

lemma in_network_iff: "in_network a (n, p) \<longleftrightarrow> same_prefix p a n"
proof
  assume "in_network a (n, p)"
  then have eq: "drop_bit (128 - p) a = drop_bit (128 - p) n" by (simp add: in_network_def)
  have "bit a (128 - p + j) \<longleftrightarrow> bit n (128 - p + j)" for j
    using arg_cong [OF eq, of "\<lambda>w. bit w j"] by (simp add: bit_drop_bit_eq)
  then show "same_prefix p a n"
    unfolding same_prefix_def by (metis le_add_diff_inverse)
next
  assume p: "same_prefix p a n"
  have "bit a (128 - p + j) \<longleftrightarrow> bit n (128 - p + j)" for j
  proof (cases "128 - p + j < 128")
    case True
    with p show ?thesis by (simp add: same_prefix_def)
  next
    case False
    then show ?thesis using bit_imp_le_length [of a] bit_imp_le_length [of n] by fastforce
  qed
  then have "drop_bit (128 - p) a = drop_bit (128 - p) n"
    by (intro bit_eqI) (simp add: bit_drop_bit_eq)
  then show "in_network a (n, p)" by (simp add: in_network_def)
qed

lemma isIP_addr128: "isIP s \<noteq> 0 \<longleftrightarrow> (\<exists>a. addr128 s = Some a)"
  by (auto simp: isIP_def addr128_def split: option.splits)

lemma parseEntry_address: "parseEntry raw = Some e \<Longrightarrow> \<exists>n. addr128 (en_address e) = Some n"
  unfolding isIP_addr128 [symmetric]
  by (auto simp: parseEntry_def Let_def split: list.splits if_splits)

lemma set_add_entry: "set (add_entry l raw) = set l \<union> set_option (entry_network raw)"
  by (auto simp: add_entry_def entry_network_def addAddress_def addSubnet_def split: option.splits
      dest: parseEntry_address)

lemma set_add_entries:
  "set (foldl add_entry l raws) = set l \<union> (\<Union>raw \<in> set raws. set_option (entry_network raw))"
  by (induction raws arbitrary: l) (auto simp: set_add_entry)

lemma ipAllowed_iff:
  "ipAllowed allowlist ip \<longleftrightarrow>
     allowlist = [] \<or>
     (\<exists>i a. ip = Some i \<and> addr128 (normalizeIp i) = Some a \<and>
        (\<exists>raw \<in> set allowlist. \<exists>n p. entry_network raw = Some (n, p) \<and> same_prefix p a n))"
proof -
  have empty: "addr128 (normalizeIp []) = None" by code_simp
  show ?thesis
  proof (cases ip)
    case None
    then show ?thesis by (simp add: ipAllowed_def)
  next
    case (Some i)
    then show ?thesis
      using isIP_addr128 [of "normalizeIp i"] empty
      by (cases "addr128 (normalizeIp i)")
        (auto simp: ipAllowed_def block_list_check_def Let_def list_ex_iff set_add_entries
          in_network_iff [symmetric] simp del: not_gr_zero intro!: bexI)
  qed
qed

lemma invalid_entries_admit_nobody:
  "\<not> isValidAllowlistEntry raw \<Longrightarrow> entry_network raw = None"
  by (simp add: isValidAllowlistEntry_def entry_network_def)

text \<open>A single address admits exactly itself.\<close>

lemma same_prefix_full: "same_prefix 128 a n \<longleftrightarrow> a = n"
  unfolding same_prefix_def by (auto intro!: bit_eqI dest: bit_imp_le_length)

lemma same_prefix_mono: "same_prefix q a n \<Longrightarrow> p \<le> q \<Longrightarrow> same_prefix p a n"
  by (auto simp: same_prefix_def)

section \<open>IPv4 texts\<close>

definition octets :: "32 word \<Rightarrow> nat list" where
  "octets w = (let n = unat w in [n div 256 div 256 div 256, n div 256 div 256 mod 256, n div 256 mod 256, n mod 256])"

definition show_ipv4 :: "32 word \<Rightarrow> string" where
  "show_ipv4 w = join_with [CHR ''.''] (map show_nat (octets w))"

lemma show_nat_small:
  "n < 10 \<Longrightarrow> show_nat n = [char_of (48 + n)]"
  "10 \<le> n \<Longrightarrow> show_nat n = show_nat (n div 10) @ [char_of (48 + n mod 10)]"
  by (simp_all add: show_nat.simps [of n])

lemma length_show_nat:
  "n < 1000 \<Longrightarrow> length (show_nat n) \<le> 3"
  by (simp add: show_nat.simps [of n] show_nat.simps [of "n div 10"] show_nat.simps [of "n div 10 div 10"])

lemma hd_show_nat: "n \<noteq> 0 \<Longrightarrow> hd (show_nat n) \<noteq> CHR ''0''"
proof (induction n rule: show_nat.induct)
  case (1 n)
  show ?case
  proof (cases "n < 10")
    case True
    then have "(of_char (char_of (48 + n) :: char) :: nat) = 48 + n" by (rule of_char_digit)
    then have "char_of (48 + n) \<noteq> CHR ''0''" using "1.prems" by fastforce
    with True show ?thesis by (simp add: show_nat_small)
  next
    case False
    with 1 show ?thesis by (simp add: show_nat_small hd_append)
  qed
qed

lemma parse_octet_show: "n < 256 \<Longrightarrow> parse_octet (show_nat n) = Some n"
proof -
  assume n: "n < 256"
  have "list_all is_digit (show_nat n)"
    by (auto simp: list_all_iff dest: show_nat_digits)
  moreover have "length (show_nat n) = 1 \<or> hd (show_nat n) \<noteq> CHR ''0''"
    using hd_show_nat by (cases "n = 0") (simp_all add: show_nat_small)
  moreover have "length (show_nat n) \<le> 3" using n by (simp add: length_show_nat)
  ultimately show ?thesis using n by (simp add: parse_octet_def)
qed

lemma dot_not_digit: "CHR ''.'' \<notin> set (show_nat n)"
  using show_nat_digits [of "CHR ''.''" n] by (auto simp: is_digit_def)

lemma split_show_ipv4: "split_on (CHR ''.'') (show_ipv4 w) = map show_nat (octets w)"
  unfolding show_ipv4_def by (rule split_on_join) (auto simp: dot_not_digit octets_def Let_def)

lemma octets_bounds: "\<forall>n \<in> set (octets w). n < 256"
proof -
  have "unat w < 2 ^ LENGTH(32)" by (rule unsigned_less)
  then show ?thesis by (auto simp: octets_def Let_def)
qed

lemma octets_value:
  assumes "octets w = [a, b, c, d]"
  shows "((a * 256 + b) * 256 + c) * 256 + d = unat w"
proof -
  from assms have "a = unat w div 256 div 256 div 256" "b = unat w div 256 div 256 mod 256"
    "c = unat w div 256 mod 256" "d = unat w mod 256"
    by (simp_all add: octets_def Let_def)
  then show ?thesis by (simp only: div_mult_mod_eq)
qed

lemma octets_cases: obtains a b c d where "octets w = [a, b, c, d]"
  by (simp add: octets_def Let_def)

lemma parse_ipv4_show: "parse_ipv4 (show_ipv4 w) = Some w"
proof -
  obtain a b c d where o4: "octets w = [a, b, c, d]" by (rule octets_cases)
  with octets_bounds [of w] have "a < 256" "b < 256" "c < 256" "d < 256" by simp_all
  then have "map parse_octet (split_on (CHR ''.'') (show_ipv4 w)) = [Some a, Some b, Some c, Some d]"
    by (simp add: split_show_ipv4 o4 parse_octet_show)
  then have "parse_ipv4 (show_ipv4 w) = Some (of_nat (((a * 256 + b) * 256 + c) * 256 + d))"
    by (simp add: parse_ipv4_def)
  also have "\<dots> = Some w" unfolding octets_value [OF o4] by simp
  finally show ?thesis .
qed

lemma isIP_show_ipv4 [simp]: "isIP (show_ipv4 w) = 4"
  by (simp add: isIP_def parse_ipv4_show)


lemma set_join_with: "set (join_with sep xs) \<subseteq> set sep \<union> (\<Union>x \<in> set xs. set x)"
  by (induction sep xs rule: join_with.induct) auto

lemma set_show_ipv4: "c \<in> set (show_ipv4 w) \<Longrightarrow> is_digit c \<or> c = CHR ''.''"
  using set_join_with [of "[CHR ''.'']" "map show_nat (octets w)"]
  by (auto simp: show_ipv4_def dest: show_nat_digits)

lemma strip_brackets_id:
  "CHR ''['' \<notin> set h \<Longrightarrow> CHR '']'' \<notin> set h \<Longrightarrow> strip_brackets h = h"
proof (cases "h = []")
  case False
  assume "CHR ''['' \<notin> set h" "CHR '']'' \<notin> set h"
  then have "hd h \<noteq> CHR ''[''" "last h \<noteq> CHR '']''"
    using False last_in_set [of h] hd_in_set [of h] by metis+
  then show ?thesis by (simp add: strip_brackets_def)
qed (simp add: strip_brackets_def)

lemma strip_show_ipv4: "strip_brackets (show_ipv4 w) = show_ipv4 w"
  by (rule strip_brackets_id) (auto simp: is_digit_def dest: set_show_ipv4)

section \<open>The guard on IPv4 addresses\<close>

definition in_range4 :: "32 word \<Rightarrow> 32 word \<Rightarrow> nat \<Rightarrow> bool" where
  "in_range4 net w p \<longleftrightarrow> drop_bit (32 - p) w = drop_bit (32 - p) net"

text \<open>Loopback 127.0.0.0/8, this network 0.0.0.0/8, link-local 169.254.0.0/16.\<close>

definition reserved4 :: "32 word \<Rightarrow> bool" where
  "reserved4 w \<longleftrightarrow>
     in_range4 0x7F000000 w 8 \<or> in_range4 0 w 8 \<or> in_range4 0xA9FE0000 w 16"

lemma js_number_show: "js_number (show_nat n) = Some n"
  by (auto simp: js_number_def list_all_iff dest: show_nat_digits)

lemma ipv4Blocked_show:
  assumes "octets w = [a, b, c, d]"
  shows "ipv4Blocked (show_ipv4 w) \<longleftrightarrow> a = 127 \<or> a = 0 \<or> a = 169 \<and> b = 254"
  by (simp add: ipv4Blocked_def split_show_ipv4 assms js_number_show)

lemma drop_bit_unat: "drop_bit k (w :: 32 word) = drop_bit k n \<longleftrightarrow> unat w div 2 ^ k = unat n div 2 ^ k"
proof -
  have "take_bit 32 (unat v) = unat v" for v :: "32 word"
    using unsigned_less [of v] by (simp add: take_bit_nat_eq_self_iff)
  then show ?thesis
    unfolding word_unat_eq_iff unsigned_drop_bit_eq by (simp add: drop_bit_eq_div)
qed

lemma reserved4_octets:
  assumes "octets w = [a, b, c, d]"
  shows "reserved4 w \<longleftrightarrow> a = 127 \<or> a = 0 \<or> a = 169 \<and> b = 254"
proof -
  have "a = unat w div 16777216" "b = unat w div 65536 mod 256"
    using assms by (auto simp: octets_def Let_def div_mult2_eq [symmetric])
  moreover have "unat w div 65536 = unat w div 16777216 * 256 + unat w div 65536 mod 256"
    by (simp add: div_mult2_eq [of _ 65536 256, simplified])
  ultimately have ab: "unat w div 16777216 = a" "unat w div 65536 = a * 256 + b" "b < 256"
    by simp_all
  have "a * 256 + b = 43518 \<longleftrightarrow> a = 169 \<and> b = 254" using ab(3) by presburger
  then show ?thesis
    unfolding reserved4_def in_range4_def drop_bit_unat by (simp add: ab)
qed

lemma addressBlocked_ipv4: "addressBlocked (show_ipv4 w) 4 \<longleftrightarrow> reserved4 w"
  by (rule octets_cases [of w]) (simp add: addressBlocked_def ipv4Blocked_show reserved4_octets)


lemma replicate_5: "replicate 5 x = [x, x, x, x, x]"
  by (simp add: numeral_eq_Suc)

lemmas ip_eval =
  addr128_def isIP_def parse_ipv6_def parse_ipv4_def parse_groups_def parse_group_def parse_octet_def
  hex_digit_def groups_value_def mapped4_def digits_value_def replicate_5 is_digit_def lower_char_def Let_def

section \<open>Theorems\<close>

text \<open>
  An allowlist admits exactly the addresses its entries cover: an empty list admits
  every request; otherwise the request must have an address, and the address (read from
  its IPv4-mapped form if need be) agrees with some valid entry on every bit of the
  entry's prefix. Entries that do not parse admit nobody.
\<close>

theorem allowlist_decision:
  "ipAllowed allowlist ip \<longleftrightarrow>
     allowlist = [] \<or>
     (\<exists>i a. ip = Some i \<and> addr128 (normalizeIp i) = Some a \<and>
        (\<exists>raw n p. raw \<in> set allowlist \<and> entry_network raw = Some (n, p) \<and> same_prefix p a n))"
  by (subst ipAllowed_iff) blast

text \<open>
  On IPv4 the guard is exact: a host given as an IPv4 address is refused exactly when the
  address lies in loopback 127.0.0.0/8, in 0.0.0.0/8 or in the link-local range
  169.254.0.0/16, and a name is refused as soon as one of the addresses it resolves to
  does; private addresses stay reachable.
\<close>

theorem ipv4_guard_exact:
  "(assertSafeHost dns (show_ipv4 w) = Inr () \<longleftrightarrow> \<not> reserved4 w) \<and>
   (isIP (strip_brackets name) = 0 \<and> dns (strip_brackets name) = Some (map (\<lambda>v. (show_ipv4 v, 4)) ws) \<longrightarrow>
    (assertSafeHost dns name = Inr () \<longleftrightarrow> (\<forall>v \<in> set ws. \<not> reserved4 v)))"
  by (simp add: assertSafeHost_def Let_def strip_show_ipv4 addressBlocked_ipv4 list_ex_iff)


definition sample_dns :: "string \<Rightarrow> (string \<times> nat) list option" where
  "sample_dns h = (if h = ''metadata.local'' then Some [(show_ipv4 0xA9FEA9FE, 4)] else None)"

theorem ipv4_guard_exact_witness:
  "is_error (assertSafeHost sample_dns ''metadata.local'')"
proof -
  have "strip_brackets ''metadata.local'' = ''metadata.local''" by (simp add: strip_brackets_def)
  moreover have "isIP ''metadata.local'' = 0" by (simp add: ip_eval)
  moreover have "reserved4 0xA9FEA9FE" by (simp add: reserved4_def in_range4_def drop_bit_unat)
  ultimately have "assertSafeHost sample_dns ''metadata.local'' \<noteq> Inr ()"
    using ipv4_guard_exact [of sample_dns 0 "''metadata.local''" "[0xA9FEA9FE]"]
    by (simp add: sample_dns_def)
  then show ?thesis by (cases "assertSafeHost sample_dns ''metadata.local''") simp_all
qed

text \<open>
  The IPv6 part compares texts, so it knows the IPv4-mapped loopback address only in its
  dotted form. \<open>new URL\<close> writes the host of \<open>http://[::ffff:127.0.0.1]/\<close> as
  \<open>[::ffff:7f00:1]\<close>, which passes although it is the same address.
\<close>

theorem mapped_loopback_passes:
  "addr128 ''::ffff:7f00:1'' = addr128 ''::ffff:127.0.0.1'' \<and>
   addr128 ''::ffff:7f00:1'' = addr128 ''127.0.0.1'' \<and>
   is_error (assertSafeHost dns ''[::ffff:127.0.0.1]'') \<and>
   assertSafeHost dns ''[::ffff:7f00:1]'' = Inr ()"
proof -
  have "addr128 ''::ffff:7f00:1'' = Some 0xFFFF7F000001" by (simp add: ip_eval)
  moreover have "addr128 ''::ffff:127.0.0.1'' = Some 0xFFFF7F000001" by (simp add: ip_eval)
  moreover have "addr128 ''127.0.0.1'' = Some 0xFFFF7F000001" by (simp add: ip_eval)
  moreover have "strip_brackets ''[::ffff:127.0.0.1]'' = ''::ffff:127.0.0.1''" by code_simp
  moreover have "isIP ''::ffff:127.0.0.1'' = 6" by (simp add: ip_eval)
  moreover have "addressBlocked ''::ffff:127.0.0.1'' 6" by code_simp
  moreover have "strip_brackets ''[::ffff:7f00:1]'' = ''::ffff:7f00:1''" by code_simp
  moreover have "isIP ''::ffff:7f00:1'' = 6" by (simp add: ip_eval)
  moreover have "\<not> addressBlocked ''::ffff:7f00:1'' 6" by code_simp
  ultimately show ?thesis by (simp add: assertSafeHost_def)
qed

end
