(* ===== verification/Settings.thy ===== *)
theory Settings
  imports Backends Secrets NetAddr
begin

text \<open>
  Runtime settings: \<open>server/src/settings/settings.service.ts\<close> (offline timeout, time zone,
  local login, SSO providers) and \<open>server/src/common/admin-ip-allowlist.service.ts\<close>. The
  stored SSO value is JSON, read back through \<open>normalizeStored\<close>; \<open>Intl\<close>'s zone check and
  the server's own zone are the record \<open>tz_env\<close>, fresh ids and IVs are arguments.
  The lemmas show that the stored form reads back as it was written, that no sequence of
  settings changes switches off every way to log in, and that an administrator cannot save
  an allowlist that shuts themselves out.
\<close>

section \<open>Time zone and offline timeout\<close>

record tz_env =
  tz_valid :: "string \<Rightarrow> bool"
  tz_server :: string

definition serverTimezone :: "tz_env \<Rightarrow> string" where
  "serverTimezone env = (if tz_server env = [] then ''UTC'' else tz_server env)"

definition DEFAULT_OFFLINE_SECONDS :: nat where
  "DEFAULT_OFFLINE_SECONDS = 120"

definition getAgentOfflineTimeout :: "server \<Rightarrow> nat" where
  "getAgentOfflineTimeout s =
     (case app_offline_seconds s of None \<Rightarrow> DEFAULT_OFFLINE_SECONDS | Some n \<Rightarrow> n)"

definition setAgentOfflineTimeout :: "nat \<Rightarrow> server \<Rightarrow> server" where
  "setAgentOfflineTimeout seconds s = s\<lparr>app_offline_seconds := Some seconds\<rparr>"

definition readTimezone :: "tz_env \<Rightarrow> server \<Rightarrow> string \<times> server" where
  "readTimezone env s =
     (let tz = (case app_timezone s of
                  None \<Rightarrow> serverTimezone env
                | Some t \<Rightarrow> if t \<noteq> [] \<and> tz_valid env t then t else serverTimezone env)
      in (tz, s\<lparr>settings_tz := tz\<rparr>))"

definition getTimezone :: "server \<Rightarrow> string" where
  "getTimezone s = settings_tz s"

text \<open>The listeners are the callbacks registered with \<open>onTimezoneChange\<close>, in order.\<close>

definition setTimezone ::
  "tz_env \<Rightarrow> (string \<Rightarrow> server \<Rightarrow> server) list \<Rightarrow> string \<Rightarrow> server \<Rightarrow> unit result \<times> server" where
  "setTimezone env listeners timezone s =
     (let tz = trim timezone in
      if \<not> tz_valid env tz then (Inl (BadRequest (''Unknown timezone: '' @ timezone)), s)
      else let changed = (tz \<noteq> settings_tz s);
               s1 = s\<lparr>app_timezone := Some tz, settings_tz := tz\<rparr>
           in (Inr (), if changed then foldl (\<lambda>st l. l tz st) s1 listeners else s1))"

section \<open>Stored SSO configuration\<close>

datatype sso_provider_type = PtOidc | PtEntra | PtGoogle | PtGithub

fun show_provider_type :: "sso_provider_type \<Rightarrow> string" where
  "show_provider_type PtOidc = ''oidc''"
| "show_provider_type PtEntra = ''entra''"
| "show_provider_type PtGoogle = ''google''"
| "show_provider_type PtGithub = ''github''"

definition SSO_PROVIDER_TYPES :: "sso_provider_type list" where
  "SSO_PROVIDER_TYPES = [PtOidc, PtEntra, PtGoogle, PtGithub]"

definition read_provider_type :: "json option \<Rightarrow> sso_provider_type option" where
  "read_provider_type v = find (\<lambda>t. v = Some (JStr (show_provider_type t))) SSO_PROVIDER_TYPES"

text \<open>The \<open>secret\<close> of a stored provider is the JSON of an encrypted payload, or null.\<close>

record stored_provider =
  sp_id :: string
  sp_type :: sso_provider_type
  sp_label :: string
  sp_client_id :: string
  sp_issuer_url :: string
  sp_tenant_id :: string
  sp_secret :: "json option"

record stored_sso =
  ss_enabled :: bool
  ss_providers :: "stored_provider list"

record resolved_provider =
  rv_id :: string
  rv_type :: sso_provider_type
  rv_label :: string
  rv_client_id :: string
  rv_client_secret :: string
  rv_issuer_url :: string
  rv_tenant_id :: string

record sso_provider_update =
  pu_id :: "string option"
  pu_type :: sso_provider_type
  pu_label :: "string option"
  pu_client_id :: "string option"
  pu_issuer_url :: "string option"
  pu_tenant_id :: "string option"
  pu_client_secret :: "string option"

definition EMPTY_SSO :: stored_sso where
  "EMPTY_SSO = \<lparr>ss_enabled = False, ss_providers = []\<rparr>"

text \<open>\<open>v.k\<close> for a JSON value that may not be an object.\<close>

fun json_field :: "json \<Rightarrow> string \<Rightarrow> json option" where
  "json_field (JObj kvs) k = map_of kvs k"
| "json_field _ k = None"

fun json_object :: "json \<Rightarrow> bool" where
  "json_object (JObj _) = True"
| "json_object (JArr _) = True"
| "json_object _ = False"

definition truthy_field :: "json option \<Rightarrow> bool" where
  "truthy_field v = (case v of None \<Rightarrow> False | Some j \<Rightarrow> truthy j)"

definition non_null :: "json option \<Rightarrow> json option" where
  "non_null v = (if v = Some JNull then None else v)"

text \<open>\<open>new_id\<close> is the \<open>randomUUID()\<close> a provider without a usable id gets.\<close>

definition coerceProvider :: "string \<Rightarrow> json \<Rightarrow> stored_provider option" where
  "coerceProvider new_id raw =
     (if \<not> json_object raw then None
      else case read_provider_type (json_field raw ''type'') of
        None \<Rightarrow> None
      | Some ty \<Rightarrow>
          Some \<lparr>sp_id = (case json_field raw ''id'' of
                          Some (JStr i) \<Rightarrow> if i \<noteq> [] then i else new_id | _ \<Rightarrow> new_id),
                sp_type = ty,
                sp_label = str (json_field raw ''label''),
                sp_client_id = str (json_field raw ''clientId''),
                sp_issuer_url = str (json_field raw ''issuerUrl''),
                sp_tenant_id = str (json_field raw ''tenantId''),
                sp_secret = non_null (json_field raw ''secret'')\<rparr>)"

definition legacy_provider :: "json \<Rightarrow> sso_provider_type \<Rightarrow> stored_provider list" where
  "legacy_provider raw ty =
     (case json_field raw (show_provider_type ty) of
        None \<Rightarrow> []
      | Some b \<Rightarrow>
          if \<not> truthy b then []
          else [\<lparr>sp_id = show_provider_type ty, sp_type = ty, sp_label = [],
                 sp_client_id = str (json_field b ''clientId''),
                 sp_issuer_url = str (json_field b ''issuerUrl''),
                 sp_tenant_id = str (json_field b ''tenantId''),
                 sp_secret = non_null (json_field b ''secret'')\<rparr>])"

definition legacy_enabled :: "json \<Rightarrow> sso_provider_type \<Rightarrow> bool" where
  "legacy_enabled raw ty =
     (case json_field raw (show_provider_type ty) of
        None \<Rightarrow> False
      | Some b \<Rightarrow> truthy_field (json_field b ''enabled''))"

text \<open>\<open>gen i\<close> is the id drawn for the \<open>i\<close>-th stored provider.\<close>

definition normalizeStored :: "(nat \<Rightarrow> string) \<Rightarrow> json option \<Rightarrow> stored_sso" where
  "normalizeStored gen v =
     (case v of
        None \<Rightarrow> EMPTY_SSO
      | Some raw \<Rightarrow>
          if \<not> json_object raw then EMPTY_SSO
          else case json_field raw ''providers'' of
            Some (JArr ps) \<Rightarrow>
              \<lparr>ss_enabled = truthy_field (json_field raw ''enabled''),
               ss_providers = List.map_filter (\<lambda>(i, p). coerceProvider (gen i) p) (List.enumerate 0 ps)\<rparr>
          | _ \<Rightarrow>
              \<lparr>ss_enabled = legacy_enabled raw PtOidc \<or> legacy_enabled raw PtEntra,
               ss_providers = legacy_provider raw PtOidc @ legacy_provider raw PtEntra\<rparr>)"

text \<open>\<open>JSON.stringify\<close> of the stored value.\<close>

definition provider_json :: "stored_provider \<Rightarrow> json" where
  "provider_json p =
     JObj [(''id'', JStr (sp_id p)), (''type'', JStr (show_provider_type (sp_type p))),
           (''label'', JStr (sp_label p)), (''clientId'', JStr (sp_client_id p)),
           (''issuerUrl'', JStr (sp_issuer_url p)), (''tenantId'', JStr (sp_tenant_id p)),
           (''secret'', case sp_secret p of None \<Rightarrow> JNull | Some j \<Rightarrow> j)]"

definition sso_json :: "stored_sso \<Rightarrow> json" where
  "sso_json c = JObj [(''enabled'', JBool (ss_enabled c)),
                      (''providers'', JArr (map provider_json (ss_providers c)))]"

section \<open>Ways to log in\<close>

definition isProviderConfigured :: "stored_provider \<Rightarrow> bool" where
  "isProviderConfigured p =
     (if sp_client_id p = [] \<or> \<not> truthy_field (sp_secret p) then False
      else if sp_type p = PtOidc then sp_issuer_url p \<noteq> []
      else if sp_type p = PtEntra then sp_tenant_id p \<noteq> []
      else True)"

definition readSso :: "(nat \<Rightarrow> string) \<Rightarrow> server \<Rightarrow> stored_sso" where
  "readSso gen s = normalizeStored gen (app_sso s)"

definition hasUsableSso :: "(nat \<Rightarrow> string) \<Rightarrow> server \<Rightarrow> bool" where
  "hasUsableSso gen s =
     (let sso = readSso gen s in ss_enabled sso \<and> list_ex isProviderConfigured (ss_providers sso))"

definition getLocalLoginEnabled :: "server \<Rightarrow> bool" where
  "getLocalLoginEnabled s = (case app_local_login s of None \<Rightarrow> True | Some b \<Rightarrow> b)"

definition setLocalLoginEnabled ::
  "(nat \<Rightarrow> string) \<Rightarrow> bool \<Rightarrow> server \<Rightarrow> unit result \<times> server" where
  "setLocalLoginEnabled gen enabled s =
     (if \<not> enabled \<and> \<not> hasUsableSso gen s
      then (Inl (BadRequest ''Enable SSO with at least one fully configured provider before disabling local login''), s)
      else (Inr (), s\<lparr>app_local_login := Some enabled\<rparr>))"

text \<open>\<open>crypto.decrypt(p.secret)\<close>: the payload's two fields must be texts.\<close>

definition decrypt_secret :: "crypto \<Rightarrow> json \<Rightarrow> string result" where
  "decrypt_secret c j =
     (case (json_field j ''ciphertext'', json_field j ''nonce'') of
        (Some (JStr ct), Some (JStr n)) \<Rightarrow>
          (case decrypt c \<lparr>ep_ciphertext = ct, ep_nonce = n\<rparr> None of
             Inl e \<Rightarrow> Inl e
           | Inr (PText t) \<Rightarrow> Inr t
           | Inr (PJson _) \<Rightarrow> Inl (PlainError ''unexpected plaintext''))
      | _ \<Rightarrow> Inl (PlainError ''The first argument must be of type string''))"

definition resolve_stored :: "crypto \<Rightarrow> stored_provider \<Rightarrow> resolved_provider result" where
  "resolve_stored c p =
     (case (case sp_secret p of
              Some j \<Rightarrow> if truthy j then decrypt_secret c j else Inr []
            | None \<Rightarrow> Inr []) of
        Inl e \<Rightarrow> Inl e
      | Inr sec \<Rightarrow>
          Inr \<lparr>rv_id = sp_id p, rv_type = sp_type p, rv_label = sp_label p, rv_client_id = sp_client_id p,
               rv_client_secret = sec, rv_issuer_url = sp_issuer_url p, rv_tenant_id = sp_tenant_id p\<rparr>)"

fun map_result :: "('a \<Rightarrow> 'b result) \<Rightarrow> 'a list \<Rightarrow> 'b list result" where
  "map_result f [] = Inr []"
| "map_result f (x # xs) =
     (case f x of Inl e \<Rightarrow> Inl e
      | Inr y \<Rightarrow> (case map_result f xs of Inl e \<Rightarrow> Inl e | Inr ys \<Rightarrow> Inr (y # ys)))"

definition getResolvedSso ::
  "crypto \<Rightarrow> (nat \<Rightarrow> string) \<Rightarrow> server \<Rightarrow> (bool \<times> resolved_provider list) result" where
  "getResolvedSso c gen s =
     (let sso = readSso gen s in
      case map_result (resolve_stored c) (ss_providers sso) of
        Inl e \<Rightarrow> Inl e | Inr ps \<Rightarrow> Inr (ss_enabled sso, ps))"

definition payload_json :: "encrypted_payload \<Rightarrow> json" where
  "payload_json pl = JObj [(''ciphertext'', JStr (ep_ciphertext pl)), (''nonce'', JStr (ep_nonce pl))]"

text \<open>The first text that is present: \<open>(a ?? b ?? '').trim()\<close>.\<close>

definition first_text :: "string option \<Rightarrow> string option \<Rightarrow> string" where
  "first_text a b = trim (case a of Some t \<Rightarrow> t | None \<Rightarrow> (case b of Some t \<Rightarrow> t | None \<Rightarrow> []))"

definition updated_provider ::
  "crypto \<Rightarrow> string \<Rightarrow> string \<Rightarrow> stored_provider list \<Rightarrow> sso_provider_update \<Rightarrow> stored_provider" where
  "updated_provider c new_id iv cur p =
     (let existing = (case pu_id p of
                        None \<Rightarrow> None
                      | Some i \<Rightarrow> if i = [] then None else find (\<lambda>q. sp_id q = i) (rev cur))
      in \<lparr>sp_id = (case existing of Some q \<Rightarrow> sp_id q | None \<Rightarrow> new_id),
          sp_type = pu_type p,
          sp_label = first_text (pu_label p) (map_option sp_label existing),
          sp_client_id = first_text (pu_client_id p) (map_option sp_client_id existing),
          sp_issuer_url = first_text (pu_issuer_url p) (map_option sp_issuer_url existing),
          sp_tenant_id = first_text (pu_tenant_id p) (map_option sp_tenant_id existing),
          sp_secret = (case pu_client_secret p of
                         Some sec \<Rightarrow>
                           if sec \<noteq> [] then Some (payload_json (encrypt c iv (PText sec) None))
                           else Option.bind existing sp_secret
                       | None \<Rightarrow> Option.bind existing sp_secret)\<rparr>)"

text \<open>
  \<open>gen\<close> names the ids drawn while reading, \<open>fresh i\<close> and \<open>ivs i\<close> the id and IV drawn for
  the \<open>i\<close>-th submitted provider.
\<close>

definition updateSso ::
  "crypto \<Rightarrow> (nat \<Rightarrow> string) \<Rightarrow> (nat \<Rightarrow> string) \<Rightarrow> (nat \<Rightarrow> string) \<Rightarrow>
   bool option \<Rightarrow> sso_provider_update list option \<Rightarrow> server \<Rightarrow> unit result \<times> server" where
  "updateSso c gen fresh ivs enabled upd s =
     (let cur = readSso gen s;
          providers = (case upd of
                         None \<Rightarrow> ss_providers cur
                       | Some us \<Rightarrow> map (\<lambda>(i, p). updated_provider c (fresh i) (ivs i) (ss_providers cur) p)
                                     (List.enumerate 0 us));
          nxt = \<lparr>ss_enabled = (case enabled of None \<Rightarrow> ss_enabled cur | Some b \<Rightarrow> b), ss_providers = providers\<rparr>
      in if \<not> (ss_enabled nxt \<and> list_ex isProviderConfigured (ss_providers nxt)) \<and> \<not> getLocalLoginEnabled s
         then (Inl (BadRequest ''Local login is disabled, so SSO must keep at least one fully configured provider''), s)
         else (Inr (), s\<lparr>app_sso := Some (sso_json nxt)\<rparr>))"

section \<open>The settings view\<close>

record provider_view =
  pv_id :: string
  pv_type :: sso_provider_type
  pv_label :: string
  pv_client_id :: string
  pv_issuer_url :: string
  pv_tenant_id :: string
  pv_client_secret_set :: bool

record system_view =
  sv_offline_seconds :: nat
  sv_timezone :: string
  sv_local_login :: bool
  sv_sso_enabled :: bool
  sv_providers :: "provider_view list"
  sv_redirect_uri :: string

definition view_provider :: "stored_provider \<Rightarrow> provider_view" where
  "view_provider p =
     \<lparr>pv_id = sp_id p, pv_type = sp_type p, pv_label = sp_label p, pv_client_id = sp_client_id p,
      pv_issuer_url = sp_issuer_url p, pv_tenant_id = sp_tenant_id p,
      pv_client_secret_set = truthy_field (sp_secret p)\<rparr>"


definition getSystemView :: "config \<Rightarrow> tz_env \<Rightarrow> (nat \<Rightarrow> string) \<Rightarrow> server \<Rightarrow> system_view \<times> server" where
  "getSystemView cfg env gen s =
     (let (tz, s1) = readTimezone env s; sso = readSso gen s in
      (\<lparr>sv_offline_seconds = getAgentOfflineTimeout s, sv_timezone = tz,
        sv_local_login = getLocalLoginEnabled s, sv_sso_enabled = ss_enabled sso,
        sv_providers = map view_provider (ss_providers sso),
        sv_redirect_uri = strip_one_slash (cf_public_base_url cfg) @ ''/api/auth/callback''\<rparr>, s1))"

section \<open>The administrators' allowlist\<close>

definition CACHE_MS :: int where
  "CACHE_MS = 5000"

definition entries_of :: "json option \<Rightarrow> string list" where
  "entries_of v =
     (case Option.bind v (\<lambda>raw. json_field raw ''entries'') of
        Some (JArr es) \<Rightarrow> List.map_filter (\<lambda>e. case e of JStr t \<Rightarrow> Some t | _ \<Rightarrow> None) es
      | _ \<Rightarrow> [])"

definition storedEntries :: "time \<Rightarrow> server \<Rightarrow> string list \<times> server" where
  "storedEntries now s =
     (let read = (let es = entries_of (app_admin_ips s) in (es, s\<lparr>admin_ip_cache := Some (es, now)\<rparr>)) in
      case admin_ip_cache s of
        None \<Rightarrow> read
      | Some (es, at) \<Rightarrow> if now - at < CACHE_MS then (es, s) else read)"

definition effective :: "config \<Rightarrow> time \<Rightarrow> server \<Rightarrow> string list \<times> server" where
  "effective cfg now s =
     (let (es, s1) = storedEntries now s in (cf_admin_allowed_ips cfg @ es, s1))"

definition isAllowed :: "config \<Rightarrow> time \<Rightarrow> string option \<Rightarrow> server \<Rightarrow> bool \<times> server" where
  "isAllowed cfg now ip s = (let (l, s1) = effective cfg now s in (ipAllowed l ip, s1))"

definition assertAllowed :: "config \<Rightarrow> time \<Rightarrow> string option \<Rightarrow> server \<Rightarrow> unit result \<times> server" where
  "assertAllowed cfg now ip s =
     (let (ok, s1) = isAllowed cfg now ip s in
      (if ok then Inr () else Inl (Forbidden ''Administrator access is not allowed from this address''), s1))"

record allowlist_view =
  lv_entries :: "string list"
  lv_env_entries :: "string list"
  lv_current_ip :: "string option"

definition allowlist_view_of :: "config \<Rightarrow> time \<Rightarrow> string option \<Rightarrow> server \<Rightarrow> allowlist_view \<times> server" where
  "allowlist_view_of cfg now ip s =
     (let (es, s1) = storedEntries now s in
      (\<lparr>lv_entries = es, lv_env_entries = cf_admin_allowed_ips cfg,
        lv_current_ip = (case ip of None \<Rightarrow> None | Some i \<Rightarrow> if i = [] then None else Some (normalizeIp i))\<rparr>, s1))"

text \<open>\<open>[...new Set(xs)]\<close>: the first occurrence of each element.\<close>

definition dedup :: "'a list \<Rightarrow> 'a list" where
  "dedup xs = rev (remdups (rev xs))"

definition update_allowlist ::
  "config \<Rightarrow> time \<Rightarrow> string list \<Rightarrow> string option \<Rightarrow> server \<Rightarrow> allowlist_view result \<times> server" where
  "update_allowlist cfg now entries ip s =
     (let nxt = dedup (filter (\<lambda>e. e \<noteq> []) (map trim entries));
          invalid = filter (\<lambda>e. \<not> isValidAllowlistEntry e) nxt
      in if invalid \<noteq> []
         then (Inl (BadRequest (''Not an IP address or CIDR range: '' @ join_with '', '' invalid)), s)
         else if \<not> ipAllowed (cf_admin_allowed_ips cfg @ nxt) ip
         then (Inl (BadRequest (''The allowlist must include your current address ('' @
                 (case ip of None \<Rightarrow> ''unknown'' | Some i \<Rightarrow> if i = [] then ''unknown'' else normalizeIp i) @
                 ''), or you would lock yourself out'')), s)
         else let s1 = s\<lparr>app_admin_ips := Some (JObj [(''entries'', JArr (map JStr nxt))]),
                         admin_ip_cache := Some (nxt, now)\<rparr>;
                  (v, s2) = allowlist_view_of cfg now ip s1
              in (Inr v, s2))"

section \<open>Reading back what was stored\<close>

lemma read_type_show [simp]: "read_provider_type (Some (JStr (show_provider_type t))) = Some t"
  by (cases t) (simp_all add: read_provider_type_def SSO_PROVIDER_TYPES_def)

lemma coerce_provider_json:
  "coerceProvider g (provider_json p) =
     Some (p\<lparr>sp_id := (if sp_id p = [] then g else sp_id p), sp_secret := non_null (sp_secret p)\<rparr>)"
  by (cases p) (simp add: coerceProvider_def provider_json_def non_null_def str_def split: option.splits)

text \<open>A stored configuration whose providers have ids reads back unchanged.\<close>

definition storable :: "stored_provider \<Rightarrow> bool" where
  "storable p \<longleftrightarrow> sp_id p \<noteq> [] \<and> sp_secret p \<noteq> Some JNull"

lemma coerce_storable: "storable p \<Longrightarrow> coerceProvider g (provider_json p) = Some p"
  by (cases p) (simp add: coerce_provider_json storable_def non_null_def)

lemma map_filter_all:
  "(\<And>x. x \<in> set xs \<Longrightarrow> f x = Some (g x)) \<Longrightarrow> List.map_filter f xs = map g xs"
  by (induction xs) (simp_all add: List.map_filter_simps)

lemma coerce_all:
  "\<forall>p \<in> set ps. storable p \<Longrightarrow>
   List.map_filter (\<lambda>(i, p). coerceProvider (gen i) p) (List.enumerate n (map provider_json ps)) = ps"
  by (induction ps arbitrary: n) (simp_all add: List.map_filter_simps coerce_storable)

lemma normalize_sso_json:
  assumes "\<forall>p \<in> set (ss_providers c). storable p"
  shows "normalizeStored gen (Some (sso_json c)) = c"
  using coerce_all [OF assms, of gen 0]
  by (cases c) (simp add: normalizeStored_def sso_json_def truthy_field_def)

section \<open>Some way to log in remains\<close>

lemma configured_coerced:
  "isProviderConfigured (p\<lparr>sp_id := i, sp_secret := non_null (sp_secret p)\<rparr>) = isProviderConfigured p"
  by (cases "sp_secret p = Some JNull") (simp_all add: isProviderConfigured_def non_null_def truthy_field_def)

lemma list_ex_map_filter:
  "list_ex P (List.map_filter f xs) \<longleftrightarrow> list_ex (\<lambda>x. case f x of None \<Rightarrow> False | Some y \<Rightarrow> P y) xs"
  by (induction xs) (simp_all add: List.map_filter_simps split: option.splits)

lemma usable_sso_json:
  "hasUsableSso gen (s\<lparr>app_sso := Some (sso_json c)\<rparr>) \<longleftrightarrow>
     ss_enabled c \<and> list_ex isProviderConfigured (ss_providers c)"
proof -
  have "list_ex isProviderConfigured
      (List.map_filter (\<lambda>(i, p). coerceProvider (gen i) p) (List.enumerate n (map provider_json ps))) =
    list_ex isProviderConfigured ps" for ps n
    unfolding list_ex_map_filter
    by (induction ps arbitrary: n) (simp_all add: coerce_provider_json configured_coerced)
  then show ?thesis
    by (simp add: hasUsableSso_def readSso_def normalizeStored_def sso_json_def truthy_field_def)
qed

lemma coerce_id_indep:
  "(case coerceProvider g raw of None \<Rightarrow> False | Some p \<Rightarrow> isProviderConfigured p) =
   (case coerceProvider h raw of None \<Rightarrow> False | Some p \<Rightarrow> isProviderConfigured p)"
  by (cases "read_provider_type (json_field raw ''type'')")
    (simp_all add: coerceProvider_def isProviderConfigured_def)

lemma hasUsableSso_gen: "hasUsableSso gen s = hasUsableSso gen' s"
proof -
  note same = coerce_id_indep [of "gen n" _ "gen' n" for n]
  have "list_ex isProviderConfigured (List.map_filter (\<lambda>(i, p). coerceProvider (gen i) p) (List.enumerate n ps)) =
    list_ex isProviderConfigured (List.map_filter (\<lambda>(i, p). coerceProvider (gen' i) p) (List.enumerate n ps))" for n ps
    unfolding list_ex_map_filter
    by (induction ps arbitrary: n) (simp_all add: same)
  then show ?thesis
    by (simp add: hasUsableSso_def readSso_def normalizeStored_def Let_def split: option.splits json.splits)
qed

definition login_possible :: "(nat \<Rightarrow> string) \<Rightarrow> server \<Rightarrow> bool" where
  "login_possible gen s \<longleftrightarrow> getLocalLoginEnabled s \<or> hasUsableSso gen s"

lemma login_possible_gen: "login_possible gen s = login_possible gen' s"
  unfolding login_possible_def by (subst hasUsableSso_gen [of gen s gen']) (rule refl)

text \<open>A change an administrator can make on the settings page.\<close>

datatype settings_change =
    SetOfflineTimeout nat
  | SetTimezone string
  | SetLocalLogin bool
  | SetSso "bool option" "sso_provider_update list option"
  | SetAllowlist "string list" "string option"

record settings_env =
  sx_crypto :: crypto
  sx_config :: config
  sx_tz :: tz_env
  sx_listeners :: "(string \<Rightarrow> server \<Rightarrow> server) list"

text \<open>
  The ids and IVs a change draws are the functions \<open>gen\<close>, \<open>fresh\<close> and \<open>ivs\<close>.
\<close>

fun apply_settings ::
  "settings_env \<Rightarrow> (nat \<Rightarrow> string) \<Rightarrow> (nat \<Rightarrow> string) \<Rightarrow> (nat \<Rightarrow> string) \<Rightarrow> time
    \<Rightarrow> settings_change \<Rightarrow> server \<Rightarrow> server" where
  "apply_settings x gen fresh ivs now (SetOfflineTimeout n) s = setAgentOfflineTimeout n s"
| "apply_settings x gen fresh ivs now (SetTimezone tz) s = snd (setTimezone (sx_tz x) (sx_listeners x) tz s)"
| "apply_settings x gen fresh ivs now (SetLocalLogin b) s = snd (setLocalLoginEnabled gen b s)"
| "apply_settings x gen fresh ivs now (SetSso en us) s = snd (updateSso (sx_crypto x) gen fresh ivs en us s)"
| "apply_settings x gen fresh ivs now (SetAllowlist es ip) s = snd (update_allowlist (sx_config x) now es ip s)"

definition quiet_listener :: "(string \<Rightarrow> server \<Rightarrow> server) \<Rightarrow> bool" where
  "quiet_listener l \<longleftrightarrow>
     (\<forall>tz s. app_local_login (l tz s) = app_local_login s \<and> app_sso (l tz s) = app_sso s)"

lemma login_possible_cong:
  "app_local_login s' = app_local_login s \<Longrightarrow> app_sso s' = app_sso s \<Longrightarrow>
   login_possible gen s' = login_possible gen s"
  by (simp add: login_possible_def getLocalLoginEnabled_def hasUsableSso_def readSso_def)

lemma foldl_listeners:
  "\<forall>l \<in> set ls. quiet_listener l \<Longrightarrow>
   app_local_login (foldl (\<lambda>st l. l tz st) s ls) = app_local_login s \<and>
   app_sso (foldl (\<lambda>st l. l tz st) s ls) = app_sso s"
  by (induction ls arbitrary: s) (simp_all add: quiet_listener_def)

lemma apply_settings_keeps_login:
  assumes "\<forall>l \<in> set (sx_listeners x). quiet_listener l" "login_possible gen s"
  shows "login_possible gen (apply_settings x gen fresh ivs now ch s)"
proof (cases ch)
  case (SetLocalLogin b)
  with assms(2) show ?thesis
    by (auto simp: setLocalLoginEnabled_def login_possible_def getLocalLoginEnabled_def hasUsableSso_def readSso_def)
next
  case (SetTimezone tz)
  have "login_possible gen (apply_settings x gen fresh ivs now ch s) = login_possible gen s"
    by (rule login_possible_cong)
      (simp_all add: SetTimezone setTimezone_def Let_def foldl_listeners [OF assms(1)])
  with assms(2) show ?thesis by simp
next
  case (SetSso en us)
  show ?thesis
    unfolding SetSso apply_settings.simps updateSso_def Let_def
    using assms(2)
    by (auto simp: login_possible_def usable_sso_json getLocalLoginEnabled_def)
next
  case (SetOfflineTimeout n)
  have "login_possible gen (apply_settings x gen fresh ivs now ch s) = login_possible gen s"
    by (rule login_possible_cong) (simp_all add: SetOfflineTimeout setAgentOfflineTimeout_def)
  with assms(2) show ?thesis by simp
next
  case (SetAllowlist es ip)
  have "login_possible gen (apply_settings x gen fresh ivs now ch s) = login_possible gen s"
    by (rule login_possible_cong)
      (simp_all add: SetAllowlist update_allowlist_def allowlist_view_of_def storedEntries_def Let_def
        split: prod.splits option.splits)
  with assms(2) show ?thesis by simp
qed

section \<open>Saving an allowlist keeps the caller in\<close>

lemma entries_roundtrip [simp]: "entries_of (Some (JObj [(''entries'', JArr (map JStr xs))])) = xs"
  by (induction xs) (simp_all add: entries_of_def List.map_filter_simps)

lemma update_allowlist_cases:
  "update_allowlist cfg now entries ip s = (r, s') \<Longrightarrow>
   (\<exists>m. r = Inl (BadRequest m) \<and> s' = s) \<or>
   (\<exists>v nxt. r = Inr v \<and> s' = s\<lparr>app_admin_ips := Some (JObj [(''entries'', JArr (map JStr nxt))]),
                           admin_ip_cache := Some (nxt, now)\<rparr> \<and>
      list_all isValidAllowlistEntry nxt \<and> ipAllowed (cf_admin_allowed_ips cfg @ nxt) ip)"
  by (auto simp: update_allowlist_def allowlist_view_of_def storedEntries_def CACHE_MS_def Let_def
      filter_empty_conv list_all_iff split: if_splits)

lemma effective_after_update:
  assumes "app_admin_ips s = Some (JObj [(''entries'', JArr (map JStr nxt))])"
    "admin_ip_cache s = Some (nxt, t)"
  shows "fst (effective cfg now s) = cf_admin_allowed_ips cfg @ nxt"
  using assms by (simp add: effective_def storedEntries_def Let_def del: list.map)


section \<open>Theorems\<close>

text \<open>A run of changes, each with the ids and IVs it draws.\<close>

type_synonym settings_step = "(nat \<Rightarrow> string) \<times> (nat \<Rightarrow> string) \<times> (nat \<Rightarrow> string) \<times> time \<times> settings_change"

fun run_settings :: "settings_env \<Rightarrow> settings_step list \<Rightarrow> server \<Rightarrow> server" where
  "run_settings x [] s = s"
| "run_settings x ((gen, fresh, ivs, now, ch) # cs) s =
     run_settings x cs (apply_settings x gen fresh ivs now ch s)"

text \<open>
  C28: No sequence of settings changes, in whatever order, switches off every way to log in:
  as long as local login is on or SSO has a fully configured provider at the start, the
  same holds after every change. The callbacks on a time zone change leave the login
  settings alone.
\<close>

theorem login_never_switched_off:
  assumes "\<forall>l \<in> set (sx_listeners x). quiet_listener l" "login_possible gen s"
  shows "login_possible gen (run_settings x steps s)"
  using assms(2)
proof (induction steps arbitrary: s)
  case (Cons st steps)
  obtain gen' fresh ivs now ch where st: "st = (gen', fresh, ivs, now, ch)" by (cases st)
  from Cons.prems have "login_possible gen' s" by (subst login_possible_gen [of _ _ gen])
  then have "login_possible gen' (apply_settings x gen' fresh ivs now ch s)"
    by (rule apply_settings_keeps_login [OF assms(1)])
  then have "login_possible gen (apply_settings x gen' fresh ivs now ch s)"
    by (subst login_possible_gen [of _ _ gen'])
  then show ?case using Cons.IH by (simp add: st)
qed simp

definition sample_settings_env :: settings_env where
  "sample_settings_env =
     \<lparr>sx_crypto = sample_crypto, sx_config = sample_config,
      sx_tz = \<lparr>tz_valid = (\<lambda>t. t = ''UTC''), tz_server = ''UTC''\<rparr>, sx_listeners = []\<rparr>"

theorem login_never_switched_off_witness:
  "login_possible (\<lambda>_. ''id'')
     (run_settings sample_settings_env
        [(\<lambda>_. ''id'', \<lambda>_. ''p1'', \<lambda>_. ''iv'', 0,
          SetSso (Some True) (Some [\<lparr>pu_id = None, pu_type = PtGithub, pu_label = None, pu_client_id = Some ''app'',
            pu_issuer_url = None, pu_tenant_id = None, pu_client_secret = Some ''sec''\<rparr>])),
         (\<lambda>_. ''id'', \<lambda>_. ''p2'', \<lambda>_. ''iv'', 1, SetLocalLogin False),
         (\<lambda>_. ''id'', \<lambda>_. ''p3'', \<lambda>_. ''iv'', 2, SetSso (Some False) None)] empty_server)"
  by (rule login_never_switched_off)
    (simp_all add: sample_settings_env_def login_possible_def getLocalLoginEnabled_def empty_server_def)

text \<open>
  An administrator cannot save an allowlist that shuts themselves out: when the change
  is accepted, every entry is valid and the address it came from is admitted from then on,
  whether the list comes from the cache or is read again; a refused change leaves
  everything as it was.
\<close>

theorem allowlist_admits_its_author:
  assumes "update_allowlist cfg now entries ip s = (r, s')"
  shows "(is_error r \<longrightarrow> s' = s) \<and>
    (\<not> is_error r \<longrightarrow> fst (assertAllowed cfg later ip s') = Inr () \<and>
       list_all isValidAllowlistEntry (entries_of (app_admin_ips s')))"
proof -
  from update_allowlist_cases [OF assms] show ?thesis
  proof (elim disjE exE conjE)
    fix v nxt
    assume r: "r = Inr v" and s': "s' = s\<lparr>app_admin_ips := Some (JObj [(''entries'', JArr (map JStr nxt))]),
        admin_ip_cache := Some (nxt, now)\<rparr>"
      and ok: "list_all isValidAllowlistEntry nxt" "ipAllowed (cf_admin_allowed_ips cfg @ nxt) ip"
    have "fst (effective cfg later s') = cf_admin_allowed_ips cfg @ nxt"
      by (rule effective_after_update) (simp_all add: s')
    then show ?thesis
      using ok by (simp add: r s' assertAllowed_def isAllowed_def split_beta)
  qed simp
qed

theorem allowlist_admits_its_author_witness:
  "\<exists>v s'. update_allowlist sample_config 0 [''10.0.0.0/8''] (Some ''10.1.2.3'') empty_server = (Inr v, s') \<and>
     fst (assertAllowed sample_config 9000 (Some ''10.1.2.3'') s') = Inr ()"
proof -
  let ?r = "update_allowlist sample_config 0 [''10.0.0.0/8''] (Some ''10.1.2.3'') empty_server"
  have t: "trim ''10.0.0.0/8'' = ''10.0.0.0/8''" by code_simp
  have e: "parseEntry ''10.0.0.0/8'' = Some \<lparr>en_address = ''10.0.0.0'', en_prefix = Some 8, en_family = 4\<rparr>"
    by (simp add: parseEntry_def t ip_eval)
  have "ipAllowed [''10.0.0.0/8''] (Some ''10.1.2.3'')"
    by (simp add: ipAllowed_def normalizeIp_def mapped_match_def to_lower_def add_entry_def addSubnet_def e
        block_list_check_def in_network_def family_bits_def ip_eval drop_bit_eq_div)
  then have "\<not> is_error (fst ?r)"
    by (simp add: t e update_allowlist_def dedup_def isValidAllowlistEntry_def sample_config_def split_beta Let_def)
  then have "\<exists>v. fst ?r = Inr v" by (cases "fst ?r") simp_all
  moreover have "?r = (fst ?r, snd ?r)" by simp
  ultimately show ?thesis
    using allowlist_admits_its_author [of sample_config 0 _ _ empty_server "fst ?r" "snd ?r" 9000]
    by (metis is_error_simps(2))
qed

end
