(* ===== verification/Users.thy ===== *)
theory Users
  imports Settings AccessControl
begin

text \<open>
  Accounts: \<open>server/src/auth/users.service.ts\<close>. Argon2 is the record \<open>argon\<close>: hashing takes
  the salt as an argument, verification returns \<open>None\<close> where the library throws. Updating an
  account is split where the code awaits: \<open>update_check\<close> reads and validates, and
  \<open>update_commit\<close> is the final \<open>update\<close> statement. Deleting a user follows the foreign keys
  of the migrations: keys, grants, reports, passkeys, SSO identities and pairings go with the
  user, owned resources refuse the deletion.
  The lemmas show the shape every account keeps (a password hash exactly for local accounts,
  no second factor without one) and that the last usable administrator stays.
\<close>

section \<open>Passwords\<close>

record argon =
  ar_hash :: "string \<Rightarrow> string \<Rightarrow> string"
  ar_verify :: "string \<Rightarrow> string \<Rightarrow> bool option"

definition argon_correct :: "argon \<Rightarrow> bool" where
  "argon_correct ar \<longleftrightarrow> (\<forall>salt p q. ar_verify ar (ar_hash ar salt p) q = Some (p = q))"

definition verifyPassword :: "argon \<Rightarrow> user \<Rightarrow> string \<Rightarrow> bool" where
  "verifyPassword ar u password =
     (case us_password_hash u of
        None \<Rightarrow> False
      | Some h \<Rightarrow> if h = [] then False
                 else (case ar_verify ar h password of Some b \<Rightarrow> b | None \<Rightarrow> False))"

section \<open>What clients see of an account\<close>

record public_user =
  pb_id :: uuid
  pb_email :: string
  pb_display_name :: string
  pb_auth_source :: auth_source
  pb_is_admin :: bool
  pb_disabled :: bool
  pb_session_epoch :: nat
  pb_totp_enabled :: bool
  pb_locale :: "user_locale option"

definition toPublic :: "user \<Rightarrow> public_user" where
  "toPublic u =
     \<lparr>pb_id = us_id u, pb_email = us_email u, pb_display_name = us_display_name u,
      pb_auth_source = us_auth_source u, pb_is_admin = us_is_admin u, pb_disabled = us_disabled u,
      pb_session_epoch = us_session_epoch u, pb_totp_enabled = us_totp_enabled u, pb_locale = us_locale u\<rparr>"

section \<open>Lookups\<close>

definition users_list :: "server \<Rightarrow> public_user list" where
  "users_list s = map toPublic (users s)"

definition findById :: "server \<Rightarrow> uuid \<Rightarrow> public_user result" where
  "findById s i =
     (case user_by_id i s of None \<Rightarrow> Inl (NotFound ''User not found'') | Some u \<Rightarrow> Inr (toPublic u))"

definition findByEmailRaw :: "server \<Rightarrow> string \<Rightarrow> user option" where
  "findByEmailRaw s email = select_first (\<lambda>u. us_email u = to_lower email) (users s)"

definition findByIdRaw :: "server \<Rightarrow> uuid \<Rightarrow> user option" where
  "findByIdRaw s i = user_by_id i s"

definition sessionEpoch :: "server \<Rightarrow> uuid \<Rightarrow> nat" where
  "sessionEpoch s i = (case user_by_id i s of None \<Rightarrow> 0 | Some u \<Rightarrow> us_session_epoch u)"

section \<open>Creating accounts\<close>

record create_user_dto =
  cu_email :: string
  cu_display_name :: string
  cu_password :: string
  cu_is_admin :: "bool option"

definition create_user ::
  "argon \<Rightarrow> string \<Rightarrow> uuid \<Rightarrow> create_user_dto \<Rightarrow> auth_source \<Rightarrow> server \<Rightarrow> public_user result \<times> server" where
  "create_user ar salt new_id dto src s =
     (let email = to_lower (cu_email dto) in
      if findByEmailRaw s email \<noteq> None then (Inl (Conflict ''Email already in use''), s)
      else let u = \<lparr>us_id = new_id, us_email = email, us_display_name = cu_display_name dto,
                    us_auth_source = src,
                    us_password_hash = (if src = AsLocal then Some (ar_hash ar salt (cu_password dto)) else None),
                    us_is_admin = (case cu_is_admin dto of None \<Rightarrow> False | Some b \<Rightarrow> b),
                    us_disabled = (src \<noteq> AsLocal), us_session_epoch = 0,
                    us_totp_secret_ciphertext = None, us_totp_secret_nonce = None, us_totp_enabled = False,
                    us_totp_recovery_codes = None, us_locale = None\<rparr>
           in (Inr (toPublic u), s\<lparr>users := insert_row u (users s)\<rparr>))"

definition bootstrap_admin :: "config \<Rightarrow> argon \<Rightarrow> string \<Rightarrow> uuid \<Rightarrow> server \<Rightarrow> server" where
  "bootstrap_admin cfg ar salt new_id s =
     (if cf_bootstrap_admin_email cfg = [] \<or> cf_bootstrap_admin_password cfg = [] then s
      else if users s \<noteq> [] then s
      else snd (create_user ar salt new_id
                  \<lparr>cu_email = cf_bootstrap_admin_email cfg, cu_display_name = ''Administrator'',
                   cu_password = cf_bootstrap_admin_password cfg, cu_is_admin = Some True\<rparr> AsLocal s))"

section \<open>Changing accounts\<close>

definition updatePreferences :: "uuid \<Rightarrow> user_locale option option \<Rightarrow> server \<Rightarrow> public_user result \<times> server" where
  "updatePreferences i locale s =
     (let s1 = (case locale of
                  None \<Rightarrow> s
                | Some l \<Rightarrow> s\<lparr>users := update_where (\<lambda>u. us_id u = i) (\<lambda>u. u\<lparr>us_locale := l\<rparr>) (users s)\<rparr>)
      in (findById s1 i, s1))"

definition isLastActiveAdmin :: "server \<Rightarrow> uuid \<Rightarrow> bool" where
  "isLastActiveAdmin s i =
     (case user_by_id i s of
        None \<Rightarrow> False
      | Some u \<Rightarrow>
          if \<not> us_is_admin u \<or> us_disabled u then False
          else select_first (\<lambda>v. us_is_admin v \<and> \<not> us_disabled v \<and> us_id v \<noteq> i) (users s) = None)"

datatype login_source = SrcLocal | SrcSso

record update_user_dto =
  uu_display_name :: "string option"
  uu_is_admin :: "bool option"
  uu_disabled :: "bool option"
  uu_password :: "string option"
  uu_auth_source :: "login_source option"

definition set_if :: "'a option \<Rightarrow> ('a \<Rightarrow> 'r \<Rightarrow> 'r) \<Rightarrow> 'r \<Rightarrow> 'r" where
  "set_if v f r = (case v of None \<Rightarrow> r | Some x \<Rightarrow> f x r)"

definition plain_patch :: "update_user_dto \<Rightarrow> user \<Rightarrow> user" where
  "plain_patch dto u =
     set_if (uu_disabled dto) (\<lambda>b r. r\<lparr>us_disabled := b\<rparr>)
       (set_if (uu_is_admin dto) (\<lambda>b r. r\<lparr>us_is_admin := b\<rparr>)
         (set_if (uu_display_name dto) (\<lambda>n r. r\<lparr>us_display_name := n\<rparr>) u))"

definition drop_local_factors :: "user \<Rightarrow> user" where
  "drop_local_factors u =
     u\<lparr>us_auth_source := AsSso, us_password_hash := None, us_totp_enabled := False,
       us_totp_secret_ciphertext := None, us_totp_secret_nonce := None, us_totp_recovery_codes := None\<rparr>"

definition bump_epoch :: "user \<Rightarrow> user" where
  "bump_epoch u = u\<lparr>us_session_epoch := us_session_epoch u + 1\<rparr>"

definition remove_passkeys_of :: "uuid \<Rightarrow> server \<Rightarrow> server" where
  "remove_passkeys_of i s =
     s\<lparr>webauthn_credentials := delete_where (\<lambda>w. wa_user_id w = i) (webauthn_credentials s)\<rparr>"

definition switch_patch :: "bool \<Rightarrow> bool \<Rightarrow> user \<Rightarrow> user" where
  "switch_patch wasLocal willBeLocal r =
     (if willBeLocal = wasLocal then r
      else if willBeLocal then r\<lparr>us_auth_source := AsLocal\<rparr>
      else drop_local_factors r)"

text \<open>A credential change also moves the session generation on.\<close>

definition update_patch :: "argon \<Rightarrow> string \<Rightarrow> update_user_dto \<Rightarrow> bool \<Rightarrow> bool \<Rightarrow> user \<Rightarrow> user" where
  "update_patch ar salt dto wasLocal willBeLocal r =
     (let r1 = switch_patch wasLocal willBeLocal (plain_patch dto r);
          r2 = set_if (uu_password dto) (\<lambda>p q. q\<lparr>us_password_hash := Some (ar_hash ar salt p)\<rparr>) r1
      in if uu_password dto \<noteq> None \<or> willBeLocal \<noteq> wasLocal then bump_epoch r2 else r2)"

text \<open>
  The part before the last statement: the guards, and the patch as a function of the row.
  Moving an account to SSO deletes its passkeys on the way.
\<close>

definition update_check ::
  "argon \<Rightarrow> string \<Rightarrow> (nat \<Rightarrow> string) \<Rightarrow> uuid \<Rightarrow> update_user_dto \<Rightarrow> server \<Rightarrow> (user \<Rightarrow> user) result \<times> server" where
  "update_check ar salt gen i dto s =
     (case user_by_id i s of
        None \<Rightarrow> (Inl (NotFound ''User not found''), s)
      | Some u \<Rightarrow>
          (let losesAdmin = us_is_admin u \<and> (uu_is_admin dto = Some False \<or> uu_disabled dto = Some True);
               wasLocal = (us_auth_source u = AsLocal);
               willBeLocal = (case uu_auth_source dto of None \<Rightarrow> wasLocal | Some src \<Rightarrow> src = SrcLocal);
               no_password = (uu_password dto = None \<or> uu_password dto = Some [])
           in if losesAdmin \<and> isLastActiveAdmin s i
              then (Inl (BadRequest ''Cannot demote or disable the last remaining administrator''), s)
              else if willBeLocal \<and> \<not> wasLocal \<and> no_password
              then (Inl (BadRequest ''A password is required to switch this account to local login''), s)
              else if \<not> willBeLocal \<and> wasLocal \<and> \<not> hasUsableSso gen s
              then (Inl (BadRequest ''Enable SSO with at least one fully configured provider before switching accounts to it''), s)
              else
                let s1 = (if wasLocal \<and> \<not> willBeLocal then remove_passkeys_of i s else s)
                in if uu_password dto \<noteq> None \<and> \<not> willBeLocal
                   then (Inl (BadRequest ''Cannot set password on SSO account''), s1)
                   else (Inr (update_patch ar salt dto wasLocal willBeLocal), s1)))"

definition update_commit :: "uuid \<Rightarrow> (user \<Rightarrow> user) \<Rightarrow> server \<Rightarrow> public_user result \<times> server" where
  "update_commit i patch s =
     (let s1 = s\<lparr>users := update_where (\<lambda>u. us_id u = i) patch (users s)\<rparr> in
      case user_by_id i s1 of
        None \<Rightarrow> (Inl (PlainError ''no result''), s1)
      | Some u \<Rightarrow> (Inr (toPublic u), s1))"

definition update_user ::
  "argon \<Rightarrow> string \<Rightarrow> (nat \<Rightarrow> string) \<Rightarrow> uuid \<Rightarrow> update_user_dto \<Rightarrow> server \<Rightarrow> public_user result \<times> server" where
  "update_user ar salt gen i dto s =
     (case update_check ar salt gen i dto s of
        (Inl e, s1) \<Rightarrow> (Inl e, s1)
      | (Inr patch, s1) \<Rightarrow> update_commit i patch s1)"

definition enable_dto :: update_user_dto where
  "enable_dto = \<lparr>uu_display_name = None, uu_is_admin = None, uu_disabled = Some False, uu_password = None,
                 uu_auth_source = None\<rparr>"

definition enable_user ::
  "argon \<Rightarrow> string \<Rightarrow> (nat \<Rightarrow> string) \<Rightarrow> uuid \<Rightarrow> server \<Rightarrow> public_user result \<times> server" where
  "enable_user ar salt gen i s = update_user ar salt gen i enable_dto s"

section \<open>Removing accounts\<close>

text \<open>Rows whose foreign key to the user has no \<open>on delete\<close> action.\<close>

definition owns_rows :: "server \<Rightarrow> uuid \<Rightarrow> bool" where
  "owns_rows s i \<longleftrightarrow>
     list_ex (\<lambda>t. tg_owner_id t = i) (targets s) \<or> list_ex (\<lambda>j. bj_owner_id j = i) (backup_jobs s) \<or>
     list_ex (\<lambda>t. et_created_by t = i) (enrollment_tokens s) \<or> list_ex (\<lambda>r. rr_initiated_by r = i) (restore_runs s) \<or>
     list_ex (\<lambda>c. ch_owner_id c = i) (notification_channels s)"

definition cascade_user :: "uuid \<Rightarrow> server \<Rightarrow> server" where
  "cascade_user i s =
     s\<lparr>users := delete_where (\<lambda>u. us_id u = i) (users s),
       api_keys := delete_where (\<lambda>k. ak_user_id k = i) (api_keys s),
       resource_grants := delete_where (\<lambda>g. gr_user_id g = i) (resource_grants s),
       reports := delete_where (\<lambda>r. rp_owner_id r = i) (reports s),
       webauthn_credentials := delete_where (\<lambda>w. wa_user_id w = i) (webauthn_credentials s),
       sso_identities := delete_where (\<lambda>d. si_user_id d = i) (sso_identities s),
       device_authorizations := delete_where (\<lambda>d. da_user_id d = Some i) (device_authorizations s)\<rparr>"

definition remove_user :: "uuid \<Rightarrow> server \<Rightarrow> unit result \<times> server" where
  "remove_user i s =
     (if isLastActiveAdmin s i then (Inl (BadRequest ''Cannot delete the last remaining administrator''), s)
      else if owns_rows s i then (Inl (PlainError ''violates foreign key constraint''), s)
      else (Inr (), cascade_user i s))"

section \<open>Grants\<close>

definition listGrants :: "server \<Rightarrow> uuid \<Rightarrow> resource_grant list" where
  "listGrants s uid = select_where (\<lambda>g. gr_user_id g = uid) (resource_grants s)"

definition addGrant ::
  "uuid \<Rightarrow> uuid \<Rightarrow> resource_type \<Rightarrow> uuid \<Rightarrow> access_level \<Rightarrow> server \<Rightarrow> unit result \<times> server" where
  "addGrant new_id uid ty rid level s =
     (case findById s uid of
        Inl e \<Rightarrow> (Inl e, s)
      | Inr _ \<Rightarrow>
          (let same = (\<lambda>g. gr_user_id g = uid \<and> gr_resource_type g = ty \<and> gr_resource_id g = rid) in
           (Inr (), s\<lparr>resource_grants :=
              (if list_ex same (resource_grants s)
               then update_where same (\<lambda>g. g\<lparr>gr_access_level := level\<rparr>) (resource_grants s)
               else insert_row \<lparr>gr_id = new_id, gr_user_id = uid, gr_resource_type = ty, gr_resource_id = rid,
                                gr_access_level = level\<rparr> (resource_grants s))\<rparr>)))"

definition removeGrant :: "uuid \<Rightarrow> uuid \<Rightarrow> server \<Rightarrow> server" where
  "removeGrant uid grant_id s =
     s\<lparr>resource_grants := delete_where (\<lambda>g. gr_id g = grant_id \<and> gr_user_id g = uid) (resource_grants s)\<rparr>"

section \<open>SSO identities\<close>

definition findBySsoIdentity :: "server \<Rightarrow> string \<Rightarrow> string \<Rightarrow> user option" where
  "findBySsoIdentity s provider subject =
     (case select_first (\<lambda>d. si_provider_id d = provider \<and> si_subject d = subject \<and>
                            user_by_id (si_user_id d) s \<noteq> None) (sso_identities s) of
        None \<Rightarrow> None
      | Some d \<Rightarrow> user_by_id (si_user_id d) s)"

definition linkSsoIdentity :: "uuid \<Rightarrow> string \<Rightarrow> string \<Rightarrow> server \<Rightarrow> server" where
  "linkSsoIdentity uid provider subject s =
     (let same = (\<lambda>d. si_provider_id d = provider \<and> si_subject d = subject) in
      s\<lparr>sso_identities :=
          (if list_ex same (sso_identities s)
           then update_where same (\<lambda>d. d\<lparr>si_user_id := uid\<rparr>) (sso_identities s)
           else insert_row \<lparr>si_user_id = uid, si_provider_id = provider, si_subject = subject,
                            si_last_login_at = None\<rparr> (sso_identities s))\<rparr>)"

definition touchSsoIdentity :: "time \<Rightarrow> string \<Rightarrow> string \<Rightarrow> server \<Rightarrow> server" where
  "touchSsoIdentity now provider subject s =
     s\<lparr>sso_identities := update_where (\<lambda>d. si_provider_id d = provider \<and> si_subject d = subject)
         (\<lambda>d. d\<lparr>si_last_login_at := Some now\<rparr>) (sso_identities s)\<rparr>"

section \<open>Changing one's own password\<close>

definition changePassword ::
  "argon \<Rightarrow> string \<Rightarrow> uuid \<Rightarrow> string \<Rightarrow> string \<Rightarrow> server \<Rightarrow> unit result \<times> server" where
  "changePassword ar salt i current new s =
     (case user_by_id i s of
        None \<Rightarrow> (Inl (NotFound ''User not found''), s)
      | Some u \<Rightarrow>
          if us_auth_source u \<noteq> AsLocal
          then (Inl (BadRequest ''Password is managed by your identity provider''), s)
          else if \<not> verifyPassword ar u current
          then (Inl (Unauthorized ''Current password is incorrect''), s)
          else (Inr (), s\<lparr>users := update_where (\<lambda>v. us_id v = i)
                  (\<lambda>v. bump_epoch (v\<lparr>us_password_hash := Some (ar_hash ar salt new)\<rparr>)) (users s)\<rparr>))"

section \<open>The shape of an account\<close>

text \<open>
  A local account has a password hash, an account of an identity provider has neither
  password nor second factor; ids and (lower-case) e-mail addresses are unique.
\<close>

definition account_ok :: "user \<Rightarrow> bool" where
  "account_ok u \<longleftrightarrow>
     (us_auth_source u = AsLocal \<longleftrightarrow> us_password_hash u \<noteq> None) \<and>
     (us_auth_source u \<noteq> AsLocal \<longrightarrow>
        \<not> us_totp_enabled u \<and> us_totp_secret_ciphertext u = None \<and> us_totp_secret_nonce u = None \<and>
        us_totp_recovery_codes u = None) \<and>
     to_lower (us_email u) = us_email u"

definition accounts_ok :: "server \<Rightarrow> bool" where
  "accounts_ok s \<longleftrightarrow>
     distinct (map us_id (users s)) \<and> distinct (map us_email (users s)) \<and> list_all account_ok (users s)"

definition active_admin :: "user \<Rightarrow> bool" where
  "active_admin u \<longleftrightarrow> us_is_admin u \<and> \<not> us_disabled u"

definition has_active_admin :: "server \<Rightarrow> bool" where
  "has_active_admin s \<longleftrightarrow> list_ex active_admin (users s)"

text \<open>Operations on accounts, each with the ids and salts it draws.\<close>

inductive users_step :: "argon \<Rightarrow> server \<Rightarrow> server \<Rightarrow> bool" for ar where
  step_create: "user_by_id i s = None \<Longrightarrow> users_step ar s (snd (create_user ar salt i dto src s))"
| step_bootstrap: "user_by_id i s = None \<Longrightarrow> users_step ar s (bootstrap_admin cfg ar salt i s)"
| step_update: "users_step ar s (snd (update_user ar salt gen i dto s))"
| step_remove: "users_step ar s (snd (remove_user i s))"
| step_password: "users_step ar s (snd (changePassword ar salt i p q s))"
| step_preferences: "users_step ar s (snd (updatePreferences i l s))"
| step_grant: "users_step ar s (snd (addGrant g i ty rid lv s))"
| step_revoke: "users_step ar s (removeGrant i g s)"
| step_link: "users_step ar s (linkSsoIdentity i pr sub s)"
| step_touch: "users_step ar s (touchSsoIdentity now pr sub s)"

inductive_cases users_stepE: "users_step ar s s'"

lemma lower_lower [simp]: "to_lower (to_lower t) = to_lower t"
proof -
  have "lower_char (lower_char c) = lower_char c" for c
  proof (cases "65 \<le> (of_char c :: nat) \<and> (of_char c :: nat) \<le> 90")
    case True
    then have "(of_char (char_of (of_char c + 32 :: nat) :: char) :: nat) = of_char c + 32"
      by (simp add: of_char_of)
    with True show ?thesis by (simp add: lower_char_def Let_def)
  qed (auto simp: lower_char_def Let_def)
  then show ?thesis by (simp add: to_lower_def)
qed

lemma users_by_id: "accounts_ok s \<Longrightarrow> u \<in> set (users s) \<Longrightarrow> user_by_id (us_id u) s = Some u"
  by (simp add: accounts_ok_def user_by_id_key urow.by_key_unique urow.keys_def)

lemma user_id_inject:
  "accounts_ok s \<Longrightarrow> u \<in> set (users s) \<Longrightarrow> v \<in> set (users s) \<Longrightarrow> us_id u = us_id v \<Longrightarrow> u = v"
  by (metis option.inject users_by_id)

lemma list_ex_update_where:
  "(\<And>r. P (f r) = P r) \<Longrightarrow> list_ex P (update_where Q f rows) = list_ex P rows"
  by (induction rows) (simp_all add: update_where_def)

lemma user_by_idD: "user_by_id i s = Some u \<Longrightarrow> u \<in> set (users s) \<and> us_id u = i"
  by (auto simp: user_by_id_key dest: urow.by_key_in)

text \<open>An update that keeps ids and e-mail addresses keeps the accounts in shape.\<close>

lemma accounts_ok_update:
  assumes "accounts_ok s"
    and key: "\<And>r. us_id (f r) = us_id r" and mail: "\<And>r. us_email (f r) = us_email r"
    and shape: "\<And>r. r \<in> set (users s) \<Longrightarrow> us_id r = i \<Longrightarrow> account_ok r \<Longrightarrow> account_ok (f r)"
  shows "accounts_ok (s\<lparr>users := update_where (\<lambda>u. us_id u = i) f (users s)\<rparr>)"
  using assms(1) shape
  by (auto simp: accounts_ok_def map_update_where [of us_id f, OF key] map_update_where [of us_email f, OF mail] list_all_iff tbl)

lemma plain_patch_fields [simp]:
  "us_id (plain_patch dto u) = us_id u" "us_email (plain_patch dto u) = us_email u"
  "us_auth_source (plain_patch dto u) = us_auth_source u"
  "us_password_hash (plain_patch dto u) = us_password_hash u"
  "us_totp_enabled (plain_patch dto u) = us_totp_enabled u"
  "us_totp_secret_ciphertext (plain_patch dto u) = us_totp_secret_ciphertext u"
  "us_totp_secret_nonce (plain_patch dto u) = us_totp_secret_nonce u"
  "us_totp_recovery_codes (plain_patch dto u) = us_totp_recovery_codes u"
  "us_is_admin (plain_patch dto u) = (case uu_is_admin dto of None \<Rightarrow> us_is_admin u | Some b \<Rightarrow> b)"
  "us_disabled (plain_patch dto u) = (case uu_disabled dto of None \<Rightarrow> us_disabled u | Some b \<Rightarrow> b)"
  by (simp_all add: plain_patch_def set_if_def split: option.splits)

lemma bump_fields [simp]:
  "us_id (bump_epoch u) = us_id u" "us_email (bump_epoch u) = us_email u"
  "us_auth_source (bump_epoch u) = us_auth_source u" "us_password_hash (bump_epoch u) = us_password_hash u"
  "us_is_admin (bump_epoch u) = us_is_admin u" "us_disabled (bump_epoch u) = us_disabled u"
  "account_ok (bump_epoch u) = account_ok u" "active_admin (bump_epoch u) = active_admin u"
  "us_session_epoch (bump_epoch u) = Suc (us_session_epoch u)"
  "us_totp_enabled (bump_epoch u) = us_totp_enabled u"
  "us_totp_secret_ciphertext (bump_epoch u) = us_totp_secret_ciphertext u"
  "us_totp_secret_nonce (bump_epoch u) = us_totp_secret_nonce u"
  "us_totp_recovery_codes (bump_epoch u) = us_totp_recovery_codes u"
  by (simp_all add: bump_epoch_def account_ok_def active_admin_def)

lemma drop_fields [simp]:
  "us_id (drop_local_factors u) = us_id u" "us_email (drop_local_factors u) = us_email u"
  "us_is_admin (drop_local_factors u) = us_is_admin u" "us_disabled (drop_local_factors u) = us_disabled u"
  by (simp_all add: drop_local_factors_def)

lemma update_patch_fields [simp]:
  "us_id (update_patch ar salt dto w b u) = us_id u" "us_email (update_patch ar salt dto w b u) = us_email u"
  "us_is_admin (update_patch ar salt dto w b u) = us_is_admin (plain_patch dto u)"
  "us_disabled (update_patch ar salt dto w b u) = us_disabled (plain_patch dto u)"
  by (simp_all add: update_patch_def switch_patch_def set_if_def Let_def split: option.splits)

lemma update_patch_shape:
  assumes "account_ok u" "w = (us_auth_source u = AsLocal)" "b \<and> \<not> w \<Longrightarrow> uu_password dto \<noteq> None"
    "uu_password dto \<noteq> None \<Longrightarrow> b"
  shows "account_ok (update_patch ar salt dto w b u)"
  using assms
  by (auto simp: update_patch_def switch_patch_def set_if_def Let_def account_ok_def drop_local_factors_def
      split: option.splits)

text \<open>What a successful check returns.\<close>

lemma update_check_ok:
  assumes "update_check ar salt gen i dto s = (Inr patch, s1)"
  shows "\<exists>u b. user_by_id i s = Some u \<and>
    \<not> (us_is_admin u \<and> (uu_is_admin dto = Some False \<or> uu_disabled dto = Some True) \<and> isLastActiveAdmin s i) \<and>
    patch = update_patch ar salt dto (us_auth_source u = AsLocal) b \<and>
    (b \<and> us_auth_source u \<noteq> AsLocal \<longrightarrow> uu_password dto \<noteq> None) \<and> (uu_password dto \<noteq> None \<longrightarrow> b)"
proof -
  from assms obtain u where u: "user_by_id i s = Some u"
    by (cases "user_by_id i s") (simp_all add: update_check_def)
  with assms show ?thesis
    by (auto simp: update_check_def Let_def split: if_splits)
qed

lemma update_check_users: "users (snd (update_check ar salt gen i dto s)) = users s"
  by (simp add: update_check_def remove_passkeys_of_def Let_def split: option.splits)

lemma snd_update_commit:
  "snd (update_commit i patch s) = s\<lparr>users := update_where (\<lambda>u. us_id u = i) patch (users s)\<rparr>"
  by (simp add: update_commit_def Let_def split: option.splits)

section \<open>Every operation keeps the shape and an administrator\<close>

lemma update_user_cases:
  obtains (refused) s1 e where "update_user ar salt gen i dto s = (Inl e, s1)" "users s1 = users s"
  | (changed) u b where "user_by_id i s = Some u"
    "\<not> (us_is_admin u \<and> (uu_is_admin dto = Some False \<or> uu_disabled dto = Some True) \<and> isLastActiveAdmin s i)"
    "b \<and> us_auth_source u \<noteq> AsLocal \<Longrightarrow> uu_password dto \<noteq> None" "uu_password dto \<noteq> None \<Longrightarrow> b"
    "users (snd (update_user ar salt gen i dto s)) =
       update_where (\<lambda>u. us_id u = i) (update_patch ar salt dto (us_auth_source u = AsLocal) b) (users s)"
proof (cases "update_check ar salt gen i dto s")
  case (Pair r s1)
  have us: "users s1 = users s" using update_check_users [of ar salt gen i dto s] Pair by simp
  show thesis
  proof (cases r)
    case (Inl e)
    with Pair us show thesis by (intro refused [of e s1]) (simp_all add: update_user_def)
  next
    case (Inr patch)
    with Pair obtain u b where "user_by_id i s = Some u"
      "\<not> (us_is_admin u \<and> (uu_is_admin dto = Some False \<or> uu_disabled dto = Some True) \<and> isLastActiveAdmin s i)"
      "patch = update_patch ar salt dto (us_auth_source u = AsLocal) b"
      "b \<and> us_auth_source u \<noteq> AsLocal \<longrightarrow> uu_password dto \<noteq> None" "uu_password dto \<noteq> None \<longrightarrow> b"
      using update_check_ok by blast
    with Pair Inr us show thesis
      by (intro changed) (auto simp: update_user_def snd_update_commit)
  qed
qed

lemma accounts_ok_users: "users s' = users s \<Longrightarrow> accounts_ok s \<Longrightarrow> accounts_ok s'"
  by (simp add: accounts_ok_def)

lemma update_user_ok:
  assumes "accounts_ok s"
  shows "accounts_ok (snd (update_user ar salt gen i dto s))"
proof (cases rule: update_user_cases [of ar salt gen i dto s])
  case (refused s1 e)
  then have "users (snd (update_user ar salt gen i dto s)) = users s" by simp
  then show ?thesis using assms by (rule accounts_ok_users)
next
  case (changed u b)
  let ?f = "update_patch ar salt dto (us_auth_source u = AsLocal) b"
  have "accounts_ok (s\<lparr>users := update_where (\<lambda>u. us_id u = i) ?f (users s)\<rparr>)"
  proof (rule accounts_ok_update [OF assms])
    fix r assume r: "r \<in> set (users s)" "us_id r = i" "account_ok r"
    with changed(1) users_by_id [OF assms r(1)] have "r = u" by simp
    with r(3) changed(3,4) show "account_ok (?f r)" by (auto intro: update_patch_shape)
  qed simp_all
  then show ?thesis by (simp add: accounts_ok_def changed(5))
qed

lemma create_user_ok:
  assumes "accounts_ok s" "user_by_id i s = None"
  shows "accounts_ok (snd (create_user ar salt i dto src s))"
proof -
  have "i \<notin> us_id ` set (users s)"
    using assms(2) by (auto simp: user_by_id_def select_first_None)
  moreover have "to_lower (cu_email dto) \<notin> us_email ` set (users s)"
    if "findByEmailRaw s (to_lower (cu_email dto)) = None"
    using that by (auto simp: findByEmailRaw_def select_first_None)
  ultimately show ?thesis
    using assms(1) by (auto simp: create_user_def Let_def accounts_ok_def insert_row_def account_ok_def)
qed

lemma remove_user_ok: "accounts_ok s \<Longrightarrow> accounts_ok (snd (remove_user i s))"
  by (auto simp: remove_user_def cascade_user_def accounts_ok_def delete_where_def list_all_iff
      distinct_map_filter)

lemma changePassword_ok:
  assumes "accounts_ok s"
  shows "accounts_ok (snd (changePassword ar salt i p q s))"
proof (cases "user_by_id i s")
  case (Some u)
  have "accounts_ok (s\<lparr>users := update_where (\<lambda>v. us_id v = i)
      (\<lambda>v. bump_epoch (v\<lparr>us_password_hash := Some (ar_hash ar salt q)\<rparr>)) (users s)\<rparr>)"
    if "us_auth_source u = AsLocal"
  proof (rule accounts_ok_update [OF assms])
    fix r assume r: "r \<in> set (users s)" "us_id r = i" "account_ok r"
    with Some users_by_id [OF assms r(1)] have "r = u" by simp
    with r(3) that show "account_ok (bump_epoch (r\<lparr>us_password_hash := Some (ar_hash ar salt q)\<rparr>))"
      by (simp add: account_ok_def)
  qed simp_all
  with Some assms show ?thesis by (auto simp: changePassword_def)
qed (use assms in \<open>simp add: changePassword_def\<close>)

lemma preferences_ok: "accounts_ok s \<Longrightarrow> accounts_ok (snd (updatePreferences i l s))"
  by (auto simp: updatePreferences_def Let_def split: option.splits
      intro!: accounts_ok_update simp: account_ok_def)

lemma grants_keep_users [simp]:
  "users (snd (addGrant g i ty rid lv s)) = users s" "users (removeGrant i g s) = users s"
  "users (linkSsoIdentity i pr sub s) = users s" "users (touchSsoIdentity now pr sub s) = users s"
  by (simp_all add: addGrant_def removeGrant_def linkSsoIdentity_def touchSsoIdentity_def Let_def
      split: sum.splits)

lemma users_step_ok:
  assumes "users_step ar s s'" "accounts_ok s"
  shows "accounts_ok s'"
  using assms
proof (cases rule: users_step.cases)
  case (step_bootstrap i cfg salt)
  with assms(2) show ?thesis by (simp add: bootstrap_admin_def create_user_ok)
qed (simp_all add: create_user_ok update_user_ok remove_user_ok changePassword_ok preferences_ok
    accounts_ok_users [OF grants_keep_users(1)] accounts_ok_users [OF grants_keep_users(2)]
    accounts_ok_users [OF grants_keep_users(3)] accounts_ok_users [OF grants_keep_users(4)])

section \<open>The last administrator\<close>

lemma isLast_iff:
  assumes "accounts_ok s" "u \<in> set (users s)"
  shows "isLastActiveAdmin s (us_id u) \<longleftrightarrow> active_admin u \<and> (\<forall>v \<in> set (users s). active_admin v \<longrightarrow> v = u)"
proof -
  have "v = u \<longleftrightarrow> us_id v = us_id u" if "v \<in> set (users s)" for v
    using user_id_inject [OF assms(1)] that assms(2) by blast
  then show ?thesis
    by (auto simp: isLastActiveAdmin_def users_by_id [OF assms] select_first_None active_admin_def)
qed

lemma active_admin_survives:
  assumes "accounts_ok s" "has_active_admin s" "\<not> isLastActiveAdmin s i"
  shows "(\<exists>v \<in> set (users s). active_admin v \<and> us_id v \<noteq> i)"
proof -
  from assms(2) obtain v where v: "v \<in> set (users s)" "active_admin v"
    by (auto simp: has_active_admin_def list_ex_iff)
  show ?thesis
  proof (cases "us_id v = i")
    case True
    with v assms(3) isLast_iff [OF assms(1) v(1)] obtain w
      where w: "w \<in> set (users s)" "active_admin w" "w \<noteq> v" by blast
    have "us_id w \<noteq> us_id v" using user_id_inject [OF assms(1)] v(1) w(1,3) by blast
    with w True show ?thesis by blast
  qed (use v in blast)
qed

lemma update_user_admin:
  assumes "accounts_ok s" "has_active_admin s"
  shows "has_active_admin (snd (update_user ar salt gen i dto s))"
proof (cases rule: update_user_cases [of ar salt gen i dto s])
  case (refused s1 e)
  with assms(2) show ?thesis by (simp add: has_active_admin_def)
next
  case (changed u b)
  let ?f = "update_patch ar salt dto (us_auth_source u = AsLocal) b"
  let ?us = "users (snd (update_user ar salt gen i dto s))"
  have in_new: "(if us_id v = i then ?f v else v) \<in> set ?us" if "v \<in> set (users s)" for v
    using that by (simp add: changed(5) tbl)
  consider "\<not> isLastActiveAdmin s i" | "isLastActiveAdmin s i" by blast
  then show ?thesis
  proof cases
    case 1
    then obtain v where v: "v \<in> set (users s)" "active_admin v" "us_id v \<noteq> i"
      using active_admin_survives [OF assms] by blast
    with in_new [OF v(1)] show ?thesis by (auto simp: has_active_admin_def list_ex_iff)
  next
    case 2
    with changed(1) have u: "u \<in> set (users s)" "us_id u = i" "active_admin u"
      using user_by_idD [OF changed(1)] isLast_iff [OF assms(1)] by auto
    with changed(2) 2 have "active_admin (?f u)"
      by (auto simp: active_admin_def split: option.splits)
    with in_new [OF u(1)] u(2) show ?thesis by (auto simp: has_active_admin_def list_ex_iff)
  qed
qed

lemma remove_user_admin:
  assumes "accounts_ok s" "has_active_admin s"
  shows "has_active_admin (snd (remove_user i s))"
  using active_admin_survives [OF assms, of i] assms(2)
  by (auto simp: remove_user_def cascade_user_def has_active_admin_def list_ex_iff delete_where_def)

lemma users_step_admin:
  assumes "users_step ar s s'" "accounts_ok s" "has_active_admin s"
  shows "has_active_admin s'"
  using assms
proof (cases rule: users_step.cases)
  case (step_create i salt dto src)
  with assms(3) show ?thesis by (auto simp: create_user_def Let_def has_active_admin_def list_ex_iff insert_row_def)
next
  case (step_bootstrap i cfg salt)
  with assms(3) show ?thesis by (auto simp: bootstrap_admin_def create_user_def Let_def has_active_admin_def list_ex_iff insert_row_def)
next
  case (step_password salt i p q)
  with assms(3) show ?thesis
    by (simp add: changePassword_def has_active_admin_def list_ex_update_where active_admin_def split: option.splits)
next
  case (step_preferences i l)
  with assms(3) show ?thesis
    by (simp add: updatePreferences_def Let_def has_active_admin_def list_ex_update_where active_admin_def split: option.splits)
qed (use assms update_user_admin remove_user_admin in \<open>simp_all add: has_active_admin_def\<close>)

section \<open>Theorems\<close>

text \<open>An ideal hash that keeps the password readable, and an account.\<close>

definition sample_argon :: argon where
  "sample_argon = \<lparr>ar_hash = (\<lambda>salt p. CHR ''#'' # p), ar_verify = (\<lambda>h p. Some (h = CHR ''#'' # p))\<rparr>"

lemma sample_argon_correct: "argon_correct sample_argon"
  by (simp add: argon_correct_def sample_argon_def)

definition sample_account :: "uuid \<Rightarrow> string \<Rightarrow> bool \<Rightarrow> user" where
  "sample_account i email admin =
     \<lparr>us_id = i, us_email = email, us_display_name = i, us_auth_source = AsLocal,
      us_password_hash = Some ''#pw'', us_is_admin = admin, us_disabled = False, us_session_epoch = 0,
      us_totp_secret_ciphertext = None, us_totp_secret_nonce = None, us_totp_enabled = False,
      us_totp_recovery_codes = None, us_locale = None\<rparr>"

definition demote_dto :: update_user_dto where
  "demote_dto = \<lparr>uu_display_name = None, uu_is_admin = Some False, uu_disabled = None, uu_password = None,
                 uu_auth_source = None\<rparr>"

definition two_admins :: server where
  "two_admins = empty_server\<lparr>users := [sample_account ''u1'' ''a@x'' True, sample_account ''u2'' ''b@x'' True]\<rparr>"

lemma two_admins_ok: "accounts_ok two_admins" "has_active_admin two_admins"
proof -
  have "to_lower ''a@x'' = ''a@x''" "to_lower ''b@x'' = ''b@x''" by code_simp+
  then show "accounts_ok two_admins"
    by (simp add: accounts_ok_def two_admins_def sample_account_def account_ok_def)
  show "has_active_admin two_admins"
    by (simp add: has_active_admin_def two_admins_def sample_account_def active_admin_def)
qed

text \<open>
  C26: Accounts keep their shape through every operation of the user service: ids and
  lower-case e-mail addresses stay unique, an account has a password hash exactly when it
  is a local one, and an account of an identity provider has no TOTP secret, no recovery
  codes and no enabled second factor. New accounts get ids that are not in use.
\<close>

theorem accounts_keep_shape:
  assumes "(users_step ar)\<^sup>*\<^sup>* s s'" "accounts_ok s"
  shows "accounts_ok s'"
  using assms by (induction rule: rtranclp_induct) (auto intro: users_step_ok)

theorem accounts_keep_shape_witness:
  "accounts_ok (snd (create_user sample_argon ''salt'' ''u3''
     \<lparr>cu_email = ''C@X'', cu_display_name = ''C'', cu_password = ''pw'', cu_is_admin = None\<rparr> AsSso two_admins))"
proof (rule accounts_keep_shape [OF _ two_admins_ok(1)])
  show "(users_step sample_argon)\<^sup>*\<^sup>* two_admins (snd (create_user sample_argon ''salt'' ''u3''
     \<lparr>cu_email = ''C@X'', cu_display_name = ''C'', cu_password = ''pw'', cu_is_admin = None\<rparr> AsSso two_admins))"
    by (intro r_into_rtranclp users_step.step_create)
      (simp add: two_admins_def user_by_id_def select_first_def sample_account_def)
qed

text \<open>
  C7: The last usable administrator stays: starting from well-formed accounts with at least
  one administrator who is not disabled, no sequence of operations on accounts (demoting,
  disabling, deleting, switching the login source, in any order) ends without one.
\<close>

theorem last_admin_stays:
  assumes "(users_step ar)\<^sup>*\<^sup>* s s'" "accounts_ok s" "has_active_admin s"
  shows "has_active_admin s'"
proof -
  from assms(1) have "accounts_ok s' \<and> has_active_admin s'"
    by (induction rule: rtranclp_induct) (use assms(2,3) in \<open>auto intro: users_step_ok users_step_admin\<close>)
  then show ?thesis ..
qed

theorem last_admin_stays_witness:
  "has_active_admin (snd (remove_user ''u2'' (snd (update_user sample_argon ''salt'' (\<lambda>_. ''id'') ''u1'' demote_dto two_admins))))"
proof (rule last_admin_stays [of sample_argon, OF _ two_admins_ok])
  let ?s1 = "snd (update_user sample_argon ''salt'' (\<lambda>_. ''id'') ''u1'' demote_dto two_admins)"
  have "users_step sample_argon two_admins ?s1" by (rule users_step.step_update)
  moreover have "users_step sample_argon ?s1 (snd (remove_user ''u2'' ?s1))" by (rule users_step.step_remove)
  ultimately show "(users_step sample_argon)\<^sup>*\<^sup>* two_admins (snd (remove_user ''u2'' ?s1))"
    by (meson converse_rtranclp_into_rtranclp r_into_rtranclp)
qed

text \<open>
  The guard and the statement it protects are separate database calls. When the checks of
  two requests both run before either writes, each sees the other administrator, and both
  demotions go through.
\<close>

theorem concurrent_demotions_race:
  "\<exists>p q. update_check sample_argon ''salt'' (\<lambda>_. ''id'') ''u1'' demote_dto two_admins = (Inr p, two_admins) \<and>
     update_check sample_argon ''salt'' (\<lambda>_. ''id'') ''u2'' demote_dto two_admins = (Inr q, two_admins) \<and>
     \<not> has_active_admin (snd (update_commit ''u2'' q (snd (update_commit ''u1'' p two_admins))))"
  by (simp add: update_check_def two_admins_def user_by_id_def select_first_def sample_account_def demote_dto_def
      isLastActiveAdmin_def snd_update_commit has_active_admin_def update_where_def active_admin_def
      update_patch_def switch_patch_def plain_patch_def set_if_def)

text \<open>
  A request that moves an account to SSO and sets a password is refused, but only after the
  account's passkeys have been deleted.
\<close>

theorem refused_switch_loses_passkeys:
  assumes "user_by_id i s = Some u" "us_auth_source u = AsLocal" "\<not> us_is_admin u" "hasUsableSso gen s"
    "uu_auth_source dto = Some SrcSso" "uu_password dto = Some p"
  shows "is_error (fst (update_user ar salt gen i dto s)) \<and>
    webauthn_credentials (snd (update_user ar salt gen i dto s)) =
      delete_where (\<lambda>w. wa_user_id w = i) (webauthn_credentials s)"
  using assms by (simp add: update_user_def update_check_def remove_passkeys_of_def Let_def)

end
