(* ===== verification/Guard.thy ===== *)
theory Guard
  imports Users
begin

text \<open>
  Who a request comes from: \<open>server/src/common/guards/auth.guard.ts\<close> (sessions and API
  keys), \<open>common/guards/agent-auth.guard.ts\<close> (agents), the route metadata of
  \<open>common/decorators/public.decorator.ts\<close> and the key service
  \<open>server/src/auth/api-keys.service.ts\<close>. The JWT library is the record \<open>jwt_lib\<close>: tokens are
  signed with a secret and an expiry time and verified at a time; what the code relies on are
  the predicates \<open>jwt_correct\<close> and \<open>jwt_separate\<close>. Payloads are JSON objects, as the guard reads
  them without checking their kind.
  The lemmas characterise what the guard lets through, and follow an API key from its
  creation to its removal.
\<close>

section \<open>Tokens\<close>

type_synonym claims = "(string \<times> json) list"

record jwt_lib =
  jw_sign :: "string \<Rightarrow> claims \<Rightarrow> time \<Rightarrow> string"
  jw_verify :: "string \<Rightarrow> time \<Rightarrow> string \<Rightarrow> claims option"

definition jwt_correct :: "jwt_lib \<Rightarrow> bool" where
  "jwt_correct j \<longleftrightarrow>
     (\<forall>k p e now. jw_verify j k now (jw_sign j k p e) = (if now < e then Some p else None))"

definition jwt_separate :: "jwt_lib \<Rightarrow> bool" where
  "jwt_separate j \<longleftrightarrow> (\<forall>k k' p e now. k \<noteq> k' \<longrightarrow> jw_verify j k' now (jw_sign j k p e) = None)"

text \<open>No session token is mistaken for an API key.\<close>

definition jwt_not_key :: "jwt_lib \<Rightarrow> bool" where
  "jwt_not_key j \<longleftrightarrow> (\<forall>k p e. jw_sign j k p e \<noteq> [] \<and> \<not> starts_with ''ak_'' (jw_sign j k p e) \<and>
                          trim (jw_sign j k p e) = jw_sign j k p e)"

definition hash_injective :: "crypto \<Rightarrow> bool" where
  "hash_injective cr \<longleftrightarrow> inj (hashToken cr)"

section \<open>Requests and routes\<close>

record http_request =
  rq_authorization :: "string option"
  rq_cookies :: "(string \<times> string) list"
  rq_method :: string
  rq_ip :: "string option"

record route_meta =
  rm_public :: bool
  rm_admin :: bool
  rm_admin_key :: bool
  rm_action :: "string option"
  rm_no_key :: bool
  rm_any_scope :: bool

definition SESSION_COOKIE :: string where
  "SESSION_COOKIE = ''amber_session''"

definition API_KEY_PREFIX :: string where
  "API_KEY_PREFIX = ''ak_''"

definition bearer :: "string option \<Rightarrow> string option" where
  "bearer auth =
     (case auth of
        None \<Rightarrow> None
      | Some a \<Rightarrow> if starts_with ''Bearer '' a then Some (trim (drop 7 a)) else None)"

definition extractToken :: "http_request \<Rightarrow> string option" where
  "extractToken req =
     (case bearer (rq_authorization req) of
        Some t \<Rightarrow> Some t
      | None \<Rightarrow> map_of (rq_cookies req) SESSION_COOKIE)"

section \<open>Principals\<close>

definition fromJwt :: "config \<Rightarrow> jwt_lib \<Rightarrow> time \<Rightarrow> string \<Rightarrow> server \<Rightarrow> request_user result" where
  "fromJwt cfg j now token s =
     (case jw_verify j (cf_jwt_secret cfg) now token of
        None \<Rightarrow> Inl (Unauthorized ''Invalid or expired session'')
      | Some payload \<Rightarrow>
          (case (case map_of payload ''sub'' of Some (JStr i) \<Rightarrow> user_by_id i s | _ \<Rightarrow> None) of
             None \<Rightarrow> Inl (Unauthorized ''Account disabled or missing'')
           | Some u \<Rightarrow>
               if us_disabled u then Inl (Unauthorized ''Account disabled or missing'')
               else if (case map_of payload ''se'' of Some (JNum n) \<Rightarrow> n \<noteq> int (us_session_epoch u) | _ \<Rightarrow> False)
               then Inl (Unauthorized (''Session expired '' @ em_dash @ '' sign in again''))
               else Inr \<lparr>ru_id = us_id u, ru_email = us_email u, ru_is_admin = us_is_admin u,
                         ru_auth_via = ViaSession, ru_api_key_scopes = None, ru_api_key_id = None\<rparr>))"

text \<open>The key joined with its user, as one query.\<close>

definition key_by_hash :: "server \<Rightarrow> string \<Rightarrow> (api_key \<times> user) option" where
  "key_by_hash s h =
     (case select_first (\<lambda>k. ak_key_hash k = h \<and> user_by_id (ak_user_id k) s \<noteq> None) (api_keys s) of
        None \<Rightarrow> None
      | Some k \<Rightarrow> map_option (\<lambda>u. (k, u)) (user_by_id (ak_user_id k) s))"

definition fromApiKey :: "crypto \<Rightarrow> time \<Rightarrow> string \<Rightarrow> server \<Rightarrow> request_user result \<times> server" where
  "fromApiKey cr now token s =
     (case key_by_hash s (hashToken cr token) of
        None \<Rightarrow> (Inl (Unauthorized ''Invalid API key''), s)
      | Some (k, u) \<Rightarrow>
          if (case ak_expires_at k of None \<Rightarrow> False | Some e \<Rightarrow> e < now)
          then (Inl (Unauthorized ''API key expired''), s)
          else if us_disabled u then (Inl (Unauthorized ''Account disabled''), s)
          else (Inr \<lparr>ru_id = us_id u, ru_email = us_email u, ru_is_admin = us_is_admin u,
                     ru_auth_via = ViaApiKey, ru_api_key_scopes = Some (ak_scopes k),
                     ru_api_key_id = Some (ak_id k)\<rparr>,
                s\<lparr>api_keys := update_where (\<lambda>r. ak_id r = ak_id k)
                    (\<lambda>r. r\<lparr>ak_last_used_at := Some now\<rparr>) (api_keys s)\<rparr>))"

definition authenticate ::
  "config \<Rightarrow> jwt_lib \<Rightarrow> crypto \<Rightarrow> time \<Rightarrow> string \<Rightarrow> server \<Rightarrow> request_user result \<times> server" where
  "authenticate cfg j cr now token s =
     (if starts_with API_KEY_PREFIX token then fromApiKey cr now token s
      else (fromJwt cfg j now token s, s))"

section \<open>The guard\<close>

definition mutating :: "string \<Rightarrow> bool" where
  "mutating m \<longleftrightarrow> to_upper m \<notin> {''GET'', ''HEAD'', ''OPTIONS''}"

definition scope_actions :: "request_user \<Rightarrow> string list" where
  "scope_actions u = (case ru_api_key_scopes u of None \<Rightarrow> [] | Some sc \<Rightarrow> sc_actions sc)"

definition check_admin :: "route_meta \<Rightarrow> http_request \<Rightarrow> request_user \<Rightarrow> error option" where
  "check_admin m req u =
     (if \<not> rm_admin m then None
      else if ru_auth_via u = ViaApiKey \<and> \<not> rm_admin_key m
      then Some (Forbidden ''Administrator operations require an interactive session, not an API key'')
      else if ru_auth_via u = ViaApiKey \<and> ru_api_key_scopes u \<noteq> None \<and> mutating (rq_method req) \<and>
              ''*'' \<notin> set (scope_actions u)
      then Some (Forbidden ''Administrator operations via an API key require a full-access key'')
      else if \<not> ru_is_admin u then Some (Forbidden ''Administrator access required'')
      else None)"

definition check_no_key :: "route_meta \<Rightarrow> request_user \<Rightarrow> error option" where
  "check_no_key m u =
     (if rm_no_key m \<and> ru_auth_via u = ViaApiKey
      then Some (Forbidden ''This operation is not permitted for API keys'') else None)"

definition check_write_scope :: "route_meta \<Rightarrow> http_request \<Rightarrow> request_user \<Rightarrow> error option" where
  "check_write_scope m req u =
     (if ru_api_key_scopes u \<noteq> None \<and> \<not> rm_any_scope m \<and> ''*'' \<notin> set (scope_actions u) \<and>
         mutating (rq_method req) \<and> \<not> list_ex (\<lambda>a. a \<noteq> ''read'') (scope_actions u)
      then Some (Forbidden ''API key lacks a write scope'') else None)"

definition check_action :: "route_meta \<Rightarrow> request_user \<Rightarrow> error option" where
  "check_action m u =
     (case rm_action m of
        None \<Rightarrow> None
      | Some a \<Rightarrow>
          if a \<noteq> [] \<and> ru_api_key_scopes u \<noteq> None \<and> ''*'' \<notin> set (scope_actions u) \<and> a \<notin> set (scope_actions u)
          then Some (Forbidden (''API key lacks '' @ quote @ a @ quote @ '' scope'')) else None)"

definition first_error :: "error option list \<Rightarrow> error option" where
  "first_error es = (case filter (\<lambda>e. e \<noteq> None) es of [] \<Rightarrow> None | e # _ \<Rightarrow> e)"

text \<open>The user the request gets, \<open>None\<close> on a public route.\<close>

definition canActivate ::
  "config \<Rightarrow> jwt_lib \<Rightarrow> crypto \<Rightarrow> route_meta \<Rightarrow> time \<Rightarrow> http_request \<Rightarrow> server
    \<Rightarrow> request_user option result \<times> server" where
  "canActivate cfg j cr m now req s =
     (if rm_public m then (Inr None, s)
      else case extractToken req of
        None \<Rightarrow> (Inl (Unauthorized ''Missing credentials''), s)
      | Some token \<Rightarrow>
          if token = [] then (Inl (Unauthorized ''Missing credentials''), s)
          else case authenticate cfg j cr now token s of
            (Inl e, s1) \<Rightarrow> (Inl e, s1)
          | (Inr u, s1) \<Rightarrow>
              (case (if ru_is_admin u then assertAllowed cfg now (rq_ip req) s1 else (Inr (), s1)) of
                 (Inl e, s2) \<Rightarrow> (Inl e, s2)
               | (Inr _, s2) \<Rightarrow>
                   (case first_error [check_admin m req u, check_no_key m u, check_write_scope m req u, check_action m u] of
                      Some e \<Rightarrow> (Inl e, s2)
                    | None \<Rightarrow> (Inr (Some u), s2))))"

section \<open>Agents\<close>

record request_agent =
  ra_id :: uuid
  ra_name :: string
  ra_ip :: "string option"

definition agent_canActivate :: "crypto \<Rightarrow> http_request \<Rightarrow> server \<Rightarrow> request_agent result" where
  "agent_canActivate cr req s =
     (case bearer (rq_authorization req) of
        None \<Rightarrow> Inl (Unauthorized ''Missing agent credential'')
      | Some token \<Rightarrow>
          (case select_first (\<lambda>a. ag_agent_key_hash a = hashToken cr token) (agents s) of
             None \<Rightarrow> Inl (Unauthorized ''Invalid agent credential'')
           | Some a \<Rightarrow>
               (let ip = (case rq_ip req of None \<Rightarrow> None | Some i \<Rightarrow> if i = [] then None else Some (normalizeIp i)) in
                if \<not> ipAllowed (ag_allowed_ips a) ip
                then Inl (Forbidden ''Request address not allowed for this agent'')
                else Inr \<lparr>ra_id = ag_id a, ra_name = ag_name a, ra_ip = ip\<rparr>)))"

section \<open>API keys\<close>

definition keys_list :: "server \<Rightarrow> uuid \<Rightarrow> api_key list" where
  "keys_list s uid = rev (select_where (\<lambda>k. ak_user_id k = uid) (api_keys s))"

record created_key =
  ck_id :: uuid
  ck_name :: string
  ck_key :: string
  ck_prefix :: string
  ck_expires_at :: "time option"

text \<open>\<open>secret\<close> is the generated token, \<open>new_id\<close> the id of the row.\<close>

definition create_key ::
  "crypto \<Rightarrow> uuid \<Rightarrow> string \<Rightarrow> time \<Rightarrow> uuid \<Rightarrow> string \<Rightarrow> api_key_scopes option \<Rightarrow> nat option \<Rightarrow> server
    \<Rightarrow> created_key \<times> server" where
  "create_key cr new_id secret now uid name scopes days s =
     (let key = API_KEY_PREFIX @ secret;
          prefix = take 12 key;
          sc = (case scopes of None \<Rightarrow> \<lparr>sc_actions = [''*''], sc_resources = None\<rparr> | Some x \<Rightarrow> x);
          expires = (case days of
                       None \<Rightarrow> None
                     | Some d \<Rightarrow> if d = 0 then None else Some (now + int d * 86400000))
      in (\<lparr>ck_id = new_id, ck_name = name, ck_key = key, ck_prefix = prefix, ck_expires_at = expires\<rparr>,
          s\<lparr>api_keys := insert_row
              \<lparr>ak_id = new_id, ak_user_id = uid, ak_name = name, ak_key_hash = hashToken cr key,
               ak_prefix = prefix, ak_scopes = sc, ak_expires_at = expires, ak_last_used_at = None\<rparr>
              (api_keys s)\<rparr>))"

text \<open>Pairings keep no reference to a removed key (\<open>on delete set null\<close>).\<close>

definition remove_key :: "uuid \<Rightarrow> uuid \<Rightarrow> server \<Rightarrow> unit result \<times> server" where
  "remove_key uid key_id s =
     (let gone = (\<lambda>k. ak_id k = key_id \<and> ak_user_id k = uid) in
      if \<not> list_ex gone (api_keys s) then (Inl (NotFound ''API key not found''), s)
      else (Inr (), s\<lparr>api_keys := delete_where gone (api_keys s),
                      device_authorizations := update_where (\<lambda>d. da_api_key_id d = Some key_id)
                        (\<lambda>d. d\<lparr>da_api_key_id := None\<rparr>) (device_authorizations s)\<rparr>))"

section \<open>What the guard lets through\<close>

lemma first_error_None: "first_error es = None \<longleftrightarrow> (\<forall>e \<in> set es. e = None)"
  unfolding first_error_def by (induction es) auto

text \<open>The account behind a principal, and the credential that proves it.\<close>

definition proven_by :: "config \<Rightarrow> jwt_lib \<Rightarrow> crypto \<Rightarrow> time \<Rightarrow> string \<Rightarrow> server \<Rightarrow> request_user \<Rightarrow> user \<Rightarrow> bool" where
  "proven_by cfg j cr now token s u acc \<longleftrightarrow>
     acc \<in> set (users s) \<and> us_id acc = ru_id u \<and> \<not> us_disabled acc \<and> us_is_admin acc = ru_is_admin u \<and>
     us_email acc = ru_email u \<and>
     (case ru_auth_via u of
        ViaSession \<Rightarrow>
          ru_api_key_scopes u = None \<and>
          (\<exists>payload. jw_verify j (cf_jwt_secret cfg) now token = Some payload \<and>
             map_of payload ''sub'' = Some (JStr (us_id acc)) \<and>
             (\<forall>n. map_of payload ''se'' = Some (JNum n) \<longrightarrow> n = int (us_session_epoch acc)))
      | ViaApiKey \<Rightarrow>
          (\<exists>k \<in> set (api_keys s). ak_key_hash k = hashToken cr token \<and> ak_user_id k = us_id acc \<and>
             ru_api_key_id u = Some (ak_id k) \<and> ru_api_key_scopes u = Some (ak_scopes k) \<and>
             (\<forall>e. ak_expires_at k = Some e \<longrightarrow> now \<le> e)))"

lemma fromJwt_proven:
  assumes "fromJwt cfg j now token s = Inr u"
  shows "\<exists>acc. proven_by cfg j cr now token s u acc"
proof -
  from assms obtain payload where p: "jw_verify j (cf_jwt_secret cfg) now token = Some payload"
    by (cases "jw_verify j (cf_jwt_secret cfg) now token") (simp_all add: fromJwt_def)
  with assms obtain i acc where i: "map_of payload ''sub'' = Some (JStr i)" "user_by_id i s = Some acc"
    by (auto simp: fromJwt_def split: option.splits json.splits)
  have "acc \<in> set (users s)" "us_id acc = i" using user_by_idD [OF i(2)] by simp_all
  with assms p i show ?thesis
    by (intro exI [of _ acc]) (auto simp: fromJwt_def proven_by_def split: if_splits json.splits option.splits)
qed

lemma key_by_hashD:
  assumes "key_by_hash s h = Some (k, u)"
  shows "k \<in> set (api_keys s)" "ak_key_hash k = h" "user_by_id (ak_user_id k) s = Some u"
  using assms by (auto simp: key_by_hash_def split: option.splits dest: select_first_Some)

lemma fromApiKey_proven:
  assumes "fromApiKey cr now token s = (Inr u, s')"
  shows "\<exists>acc. proven_by cfg j cr now token s u acc"
proof -
  from assms obtain k acc where k: "key_by_hash s (hashToken cr token) = Some (k, acc)"
    by (cases "key_by_hash s (hashToken cr token)") (auto simp: fromApiKey_def)
  note kd = key_by_hashD [OF k] and acc = user_by_idD [OF key_by_hashD(3) [OF k]]
  have "\<not> (case ak_expires_at k of None \<Rightarrow> False | Some e \<Rightarrow> e < now)" "\<not> us_disabled acc"
    and u: "u = \<lparr>ru_id = us_id acc, ru_email = us_email acc, ru_is_admin = us_is_admin acc,
       ru_auth_via = ViaApiKey, ru_api_key_scopes = Some (ak_scopes k), ru_api_key_id = Some (ak_id k)\<rparr>"
    using assms k by (auto simp: fromApiKey_def split: if_splits)
  with kd acc show ?thesis
    by (intro exI [of _ acc]) (fastforce simp: proven_by_def u)
qed

lemma authenticate_proven:
  "authenticate cfg j cr now token s = (Inr u, s') \<Longrightarrow> \<exists>acc. proven_by cfg j cr now token s u acc"
  by (auto simp: authenticate_def fromJwt_proven fromApiKey_proven split: if_splits)

lemma authenticate_settings:
  "app_admin_ips (snd (authenticate cfg j cr now token s)) = app_admin_ips s"
  "admin_ip_cache (snd (authenticate cfg j cr now token s)) = admin_ip_cache s"
  by (simp_all add: authenticate_def fromApiKey_def split: option.splits)

lemma effective_cong:
  "app_admin_ips s' = app_admin_ips s \<Longrightarrow> admin_ip_cache s' = admin_ip_cache s \<Longrightarrow>
   fst (effective cfg now s') = fst (effective cfg now s)"
  by (simp add: effective_def storedEntries_def Let_def split: option.splits)

lemma assertAllowed_iff:
  "fst (assertAllowed cfg now ip s) = Inr () \<longleftrightarrow> ipAllowed (fst (effective cfg now s)) ip"
  by (simp add: assertAllowed_def isAllowed_def split_beta)

text \<open>The rules of a route, for an authenticated user.\<close>

definition route_allows :: "route_meta \<Rightarrow> http_request \<Rightarrow> request_user \<Rightarrow> bool" where
  "route_allows m req u \<longleftrightarrow>
     (rm_admin m \<longrightarrow> ru_is_admin u) \<and>
     (ru_auth_via u = ViaApiKey \<longrightarrow>
        \<not> rm_no_key m \<and>
        (rm_admin m \<longrightarrow> rm_admin_key m \<and> (mutating (rq_method req) \<longrightarrow> ''*'' \<in> set (scope_actions u))) \<and>
        (mutating (rq_method req) \<longrightarrow> rm_any_scope m \<or> (\<exists>a \<in> set (scope_actions u). a \<noteq> ''read'')) \<and>
        (\<forall>a. rm_action m = Some a \<and> a \<noteq> [] \<longrightarrow> ''*'' \<in> set (scope_actions u) \<or> a \<in> set (scope_actions u)))"

lemma route_checks:
  assumes "ru_auth_via u = ViaApiKey \<longleftrightarrow> ru_api_key_scopes u \<noteq> None"
  shows "first_error [check_admin m req u, check_no_key m u, check_write_scope m req u, check_action m u] = None
     \<longleftrightarrow> route_allows m req u"
  using assms
  by (auto simp: first_error_None check_admin_def check_no_key_def check_write_scope_def check_action_def
      route_allows_def list_ex_iff split: option.splits)

lemma canActivate_cases:
  assumes "canActivate cfg j cr m now req s = (Inr (Some u), s')"
  obtains token s1 where "extractToken req = Some token" "authenticate cfg j cr now token s = (Inr u, s1)"
    "ru_is_admin u \<longrightarrow> fst (assertAllowed cfg now (rq_ip req) s1) = Inr ()"
    "first_error [check_admin m req u, check_no_key m u, check_write_scope m req u, check_action m u] = None"
proof -
  from assms obtain token where t: "extractToken req = Some token"
    by (cases "extractToken req") (auto simp: canActivate_def split: if_splits)
  with assms obtain v s1 where a: "authenticate cfg j cr now token s = (Inr v, s1)"
    by (cases "authenticate cfg j cr now token s")
      (auto simp: canActivate_def split: if_splits sum.splits)
  with assms t have "v = u" "ru_is_admin u \<longrightarrow> fst (assertAllowed cfg now (rq_ip req) s1) = Inr ()"
    "first_error [check_admin m req u, check_no_key m u, check_write_scope m req u, check_action m u] = None"
    by (auto simp: canActivate_def split: if_splits sum.splits prod.splits option.splits)
  with t a that show thesis by blast
qed

lemma proven_scopes:
  "proven_by cfg j cr now token s u acc \<Longrightarrow> ru_auth_via u = ViaApiKey \<longleftrightarrow> ru_api_key_scopes u \<noteq> None"
  by (auto simp: proven_by_def split: auth_via.splits)

section \<open>The life of an API key\<close>

lemma find_append: "find P (xs @ ys) = (case find P xs of None \<Rightarrow> find P ys | Some x \<Rightarrow> Some x)"
  by (induction xs) auto

lemma key_by_hash_created:
  assumes "user_by_id uid s = Some u" "\<forall>k \<in> set (api_keys s). ak_key_hash k \<noteq> hashToken cr (API_KEY_PREFIX @ secret)"
  shows "\<exists>k. key_by_hash (snd (create_key cr i secret now uid name sc d s)) (hashToken cr (API_KEY_PREFIX @ secret))
      = Some (k, u) \<and> ak_id k = i \<and> ak_user_id k = uid \<and>
    ak_scopes k = (case sc of None \<Rightarrow> \<lparr>sc_actions = [''*''], sc_resources = None\<rparr> | Some x \<Rightarrow> x) \<and>
    ak_expires_at k = ck_expires_at (fst (create_key cr i secret now uid name sc d s))"
proof -
  have "find (\<lambda>k. ak_key_hash k = hashToken cr (API_KEY_PREFIX @ secret) \<and> Q k) (api_keys s) = None" for Q
    using assms(2) by (auto simp: find_None_iff)
  then have find_snoc: "find (\<lambda>k. ak_key_hash k = hashToken cr (API_KEY_PREFIX @ secret) \<and> Q k) (api_keys s @ [k]) =
    (if ak_key_hash k = hashToken cr (API_KEY_PREFIX @ secret) \<and> Q k then Some k else None)" for Q k
    by (simp add: find_append)
  have same: "user_by_id v (snd (create_key cr i secret now uid name sc d s)) = user_by_id v s" for v
    by (simp add: create_key_def user_by_id_def Let_def)
  show ?thesis
    unfolding key_by_hash_def same select_first_def
    by (simp add: create_key_def Let_def insert_row_def find_snoc assms(1))
qed

lemma ck_key_create [simp]: "ck_key (fst (create_key cr i secret now uid name sc d s)) = API_KEY_PREFIX @ secret"
  by (simp add: create_key_def Let_def)

lemma key_gone:
  assumes "\<forall>k \<in> set (api_keys s). ak_key_hash k \<noteq> hashToken cr (API_KEY_PREFIX @ secret)"
  shows "key_by_hash (snd (remove_key uid i (snd (create_key cr i secret now uid name sc d s))))
    (hashToken cr (API_KEY_PREFIX @ secret)) = None"
proof -
  have "find (\<lambda>k. ak_key_hash k = hashToken cr (API_KEY_PREFIX @ secret) \<and> Q k)
      (delete_where (\<lambda>k. ak_id k = i \<and> ak_user_id k = uid) (api_keys s @ [r])) = None"
    if "ak_id r = i" "ak_user_id r = uid" for Q r
    using assms that by (auto simp: find_None_iff delete_where_def)
  then show ?thesis
    by (simp add: key_by_hash_def select_first_def remove_key_def create_key_def Let_def insert_row_def)
qed

section \<open>Theorems\<close>

lemma canActivate_admits:
  assumes "canActivate cfg j cr m now req s = (Inr (Some u), s')"
  shows "\<exists>token acc. extractToken req = Some token \<and> proven_by cfg j cr now token s u acc \<and>
    (ru_is_admin u \<longrightarrow> ipAllowed (fst (effective cfg now s)) (rq_ip req)) \<and> route_allows m req u"
proof -
  from assms obtain token s1 where c: "extractToken req = Some token"
    "authenticate cfg j cr now token s = (Inr u, s1)"
    "ru_is_admin u \<longrightarrow> fst (assertAllowed cfg now (rq_ip req) s1) = Inr ()"
    "first_error [check_admin m req u, check_no_key m u, check_write_scope m req u, check_action m u] = None"
    by (rule canActivate_cases)
  then obtain acc where acc: "proven_by cfg j cr now token s u acc" using authenticate_proven by blast
  have "fst (effective cfg now s1) = fst (effective cfg now s)"
    by (rule effective_cong) (use authenticate_settings [of cfg j cr now token s] c(2) in simp_all)
  with c(3) have "ru_is_admin u \<longrightarrow> ipAllowed (fst (effective cfg now s)) (rq_ip req)"
    by (simp add: assertAllowed_iff)
  moreover have "route_allows m req u" using c(4) route_checks [OF proven_scopes [OF acc]] by simp
  ultimately show ?thesis using c(1) acc by blast
qed


definition sample_key :: api_key where
  "sample_key = \<lparr>ak_id = ''k1'', ak_user_id = ''u1'', ak_name = ''cli'', ak_key_hash = ''ak_s'', ak_prefix = ''ak_s'',
     ak_scopes = \<lparr>sc_actions = [''read''], sc_resources = None\<rparr>, ak_expires_at = Some 100, ak_last_used_at = None\<rparr>"

definition read_route :: route_meta where
  "read_route = \<lparr>rm_public = False, rm_admin = False, rm_admin_key = False, rm_action = None, rm_no_key = False,
                 rm_any_scope = False\<rparr>"

definition key_request :: http_request where
  "key_request = \<lparr>rq_authorization = Some ''Bearer ak_s'', rq_cookies = [], rq_method = ''GET'', rq_ip = None\<rparr>"

definition no_jwt :: jwt_lib where
  "no_jwt = \<lparr>jw_sign = (\<lambda>k p e. ''t''), jw_verify = (\<lambda>k now t. None)\<rparr>"

definition key_server :: server where
  "key_server = empty_server\<lparr>users := [sample_account ''u1'' ''a@x'' False], api_keys := [sample_key]\<rparr>"


text \<open>
  An API key works from its creation until it expires or is removed: presented at any
  time up to its expiry it authenticates its user with the scopes it was created with;
  later it is refused, and from the moment its owner removes it it is unknown. The hash of
  the new key is not in use.
\<close>

theorem api_key_lifecycle:
  assumes "user_by_id uid s = Some acc" "\<not> us_disabled acc"
    "\<forall>k \<in> set (api_keys s). ak_key_hash k \<noteq> hashToken cr (API_KEY_PREFIX @ secret)"
    "create_key cr i secret now uid name sc d s = (ck, s1)"
  shows "(\<exists>u. fst (fromApiKey cr t (ck_key ck) s1) =
      (if (case ck_expires_at ck of None \<Rightarrow> False | Some e \<Rightarrow> e < t) then Inl (Unauthorized ''API key expired'') else Inr u) \<and>
      ru_id u = uid \<and>
      ru_api_key_scopes u = Some (case sc of None \<Rightarrow> \<lparr>sc_actions = [''*''], sc_resources = None\<rparr> | Some x \<Rightarrow> x)) \<and>
    fst (fromApiKey cr t (ck_key ck) (snd (remove_key uid i s1))) = Inl (Unauthorized ''Invalid API key'')"
proof -
  have eqs: "ck = fst (create_key cr i secret now uid name sc d s)" "s1 = snd (create_key cr i secret now uid name sc d s)"
    using assms(4) by simp_all
  from key_by_hash_created [OF assms(1,3), of i now name sc d] obtain k where
    k: "key_by_hash s1 (hashToken cr (API_KEY_PREFIX @ secret)) = Some (k, acc)"
    "ak_scopes k = (case sc of None \<Rightarrow> \<lparr>sc_actions = [''*''], sc_resources = None\<rparr> | Some x \<Rightarrow> x)"
    "ak_expires_at k = ck_expires_at ck"
    unfolding eqs by blast
  have "us_id acc = uid" using user_by_idD [OF assms(1)] by simp
  moreover have "ck_key ck = API_KEY_PREFIX @ secret" by (simp add: eqs)
  ultimately have "\<exists>u. fst (fromApiKey cr t (ck_key ck) s1) =
      (if (case ck_expires_at ck of None \<Rightarrow> False | Some e \<Rightarrow> e < t) then Inl (Unauthorized ''API key expired'') else Inr u) \<and>
      ru_id u = uid \<and> ru_api_key_scopes u = Some (ak_scopes k)"
    using k(1,3) assms(2)
    by (intro exI [of _ "\<lparr>ru_id = us_id acc, ru_email = us_email acc, ru_is_admin = us_is_admin acc,
       ru_auth_via = ViaApiKey, ru_api_key_scopes = Some (ak_scopes k), ru_api_key_id = Some (ak_id k)\<rparr>"])
      (simp add: fromApiKey_def)
  moreover have "fst (fromApiKey cr t (ck_key ck) (snd (remove_key uid i s1))) = Inl (Unauthorized ''Invalid API key'')"
    unfolding eqs ck_key_create fromApiKey_def using key_gone [OF assms(3), of uid i now name sc d] by simp
  ultimately show ?thesis using k(2) by simp
qed

theorem api_key_lifecycle_witness:
  "fst (fromApiKey sample_crypto 99 ''ak_x'' (snd (remove_key ''u1'' ''k2''
     (snd (create_key sample_crypto ''k2'' ''x'' 0 ''u1'' ''cli'' None (Some 1) key_server))))) = Inl (Unauthorized ''Invalid API key'')"
proof -
  let ?c = "create_key sample_crypto ''k2'' ''x'' 0 ''u1'' ''cli'' None (Some 1) key_server"
  have "ck_key (fst ?c) = ''ak_x''" by (simp add: API_KEY_PREFIX_def)
  then show ?thesis
    using api_key_lifecycle [of "''u1''" key_server "sample_account ''u1'' ''a@x'' False" sample_crypto "''x''"
        "''k2''" 0 "''cli''" None "Some 1" "fst ?c" "snd ?c" 99]
    by (simp add: key_server_def user_by_id_def select_first_def sample_account_def sample_key_def hashToken_def
        sample_crypto_def API_KEY_PREFIX_def)
qed

end
