(* ===== verification/AuditLog.thy ===== *)
theory AuditLog
  imports Channels Guard
begin

text \<open>
  The audit log: \<open>server/src/audit/audit.util.ts\<close> (redaction, action labels),
  \<open>audit.service.ts\<close> (storing, listing, retention) and \<open>audit.interceptor.ts\<close> (which
  requests are recorded and with which details).
  The lemmas show that no secret-bearing field within the redaction depth reaches the log
  and that everything else is recorded unchanged, that the pages of a listing are exactly
  the matching entries, and that every authenticated change leaves one entry.
\<close>

section \<open>Redaction\<close>

fun tails :: "string \<Rightarrow> string list" where
  "tails [] = [[]]"
| "tails (c # s) = (c # s) # tails s"

definition contains :: "string \<Rightarrow> string \<Rightarrow> bool" where
  "contains p s = list_ex (starts_with p) (tails s)"

text \<open>\<open>/a.?b/\<close>: at most one character, not a line break, between the two texts.\<close>

definition starts_gap :: "string \<Rightarrow> string \<Rightarrow> string \<Rightarrow> bool" where
  "starts_gap a b s =
     (starts_with a s \<and>
      (let r = drop (length a) s in
       starts_with b r \<or>
       (case r of [] \<Rightarrow> False | c # r' \<Rightarrow> c \<notin> {CHR 0x0A, CHR 0x0D} \<and> starts_with b r')))"

definition contains_gap :: "string \<Rightarrow> string \<Rightarrow> string \<Rightarrow> bool" where
  "contains_gap a b s = list_ex (starts_gap a b) (tails s)"

definition SECRET_KEY_RE :: "string \<Rightarrow> bool" where
  "SECRET_KEY_RE k =
     (let s = to_lower k in
      contains ''pass'' s \<or> contains ''secret'' s \<or> contains ''token'' s \<or> contains ''credential'' s \<or>
      contains_gap ''priv'' ''key'' s \<or> contains_gap ''api'' ''key'' s \<or> contains_gap ''access'' ''key'' s \<or>
      contains ''webhook'' s)"

definition EXPLICIT_SECRET_FIELDS :: "string list" where
  "EXPLICIT_SECRET_FIELDS = map to_lower (secretFieldNames @ secretChannelFieldNames @ [''code''])"

definition secret_key :: "string \<Rightarrow> bool" where
  "secret_key k \<longleftrightarrow> SECRET_KEY_RE k \<or> to_lower k \<in> set EXPLICIT_SECRET_FIELDS"

definition MAX_REDACT_DEPTH :: nat where
  "MAX_REDACT_DEPTH = 6"

definition marker :: json where
  "marker = JStr ''[redacted]''"

lemma json_member_size [termination_simp]:
  "(k, v) \<in> set kvs \<Longrightarrow> size v < Suc (size_list (size_prod (\<lambda>_. 0) size) kvs)"
  by (induction kvs) auto

fun redactSecrets :: "nat \<Rightarrow> json \<Rightarrow> json" where
  "redactSecrets d (JArr xs) =
     (if d > MAX_REDACT_DEPTH then JArr xs else JArr (map (redactSecrets (d + 1)) xs))"
| "redactSecrets d (JObj kvs) =
     (if d > MAX_REDACT_DEPTH then JObj kvs
      else JObj (map (\<lambda>(k, v). (k, if secret_key k then marker else redactSecrets (d + 1) v)) kvs))"
| "redactSecrets d v = v"

section \<open>Action labels\<close>

definition ACTION_VERBS :: "(string \<times> string) list" where
  "ACTION_VERBS =
     [(''run'', ''Run''), (''cancel'', ''Cancel''), (''rotate'', ''Rotate token for''), (''enable'', ''Enable''),
      (''disable'', ''Disable''), (''restore'', ''Restore''), (''retry'', ''Retry''), (''test'', ''Test''),
      (''resend'', ''Resend''), (''duplicate'', ''Duplicate''), (''check'', ''Check integrity of'')]"

definition METHOD_VERBS :: "(string \<times> string) list" where
  "METHOD_VERBS = [(''POST'', ''Create''), (''PUT'', ''Update''), (''PATCH'', ''Update''), (''DELETE'', ''Delete'')]"

definition AUTH_ACTIONS :: "(string \<times> string) list" where
  "AUTH_ACTIONS =
     [(''logout'', ''Log out''), (''change-password'', ''Change password''),
      (''approve'', ''Approve CLI device login''), (''deny'', ''Deny CLI device login'')]"

definition ends_with :: "string \<Rightarrow> string \<Rightarrow> bool" where
  "ends_with p s = starts_with (rev p) (rev s)"

definition singular :: "string \<Rightarrow> string" where
  "singular w =
     (if ends_with ''ies'' w then take (length w - 3) w @ ''y''
      else if ends_with ''ses'' w then take (length w - 2) w
      else if ends_with ''s'' w then take (length w - 1) w
      else w)"

record action_meta =
  am_action :: string
  am_resource_type :: "string option"
  am_resource_id :: "string option"

definition or_else :: "'a option \<Rightarrow> 'a option \<Rightarrow> 'a option" where
  "or_else a b = (case a of None \<Rightarrow> b | Some x \<Rightarrow> Some x)"

definition deriveAction :: "string \<Rightarrow> string \<Rightarrow> (string \<times> string) list \<Rightarrow> action_meta" where
  "deriveAction meth path params =
     (let vals = map snd params;
          parts0 = filter (\<lambda>p. p \<noteq> []) (split_on (CHR ''/'') path);
          parts = (if parts0 \<noteq> [] \<and> hd parts0 = ''api'' then tl parts0 else parts0);
          static = filter (\<lambda>p. p \<notin> set vals) parts;
          collection = (if static = [] then ''resource'' else hd static);
          tail = tl static;
          lst = (if tail = [] then None else Some (last tail));
          rid = or_else (map_of params ''id'') (or_else (map_of params ''jobId'')
                 (or_else (map_of params ''targetId'') (if vals = [] then None else Some (hd vals))))
      in if collection = ''auth''
         then \<lparr>am_action = (case Option.bind lst (map_of AUTH_ACTIONS) of
                              Some a \<Rightarrow> a
                            | None \<Rightarrow> ''Account: '' @ (let t = join_with '' '' tail in if t = [] then ''action'' else t)),
               am_resource_type = Some ''auth'', am_resource_id = None\<rparr>
         else \<lparr>am_action =
                 (case Option.bind lst (map_of ACTION_VERBS) of
                    Some v \<Rightarrow> v @ '' '' @ singular collection
                  | None \<Rightarrow>
                      (case map_of METHOD_VERBS meth of Some v \<Rightarrow> v | None \<Rightarrow> meth) @ '' '' @
                      (if tail \<noteq> [] then singular collection @ '' '' @ join_with '' '' tail else singular collection)),
               am_resource_type = (if collection \<noteq> ''resource'' then Some (singular collection) else None),
               am_resource_id = rid\<rparr>)"

definition clientIp :: "string option \<Rightarrow> string option \<Rightarrow> string option" where
  "clientIp ip remote =
     (case or_else ip remote of None \<Rightarrow> None | Some i \<Rightarrow> if i = [] then None else Some (normalizeIp i))"

section \<open>Storing entries\<close>

record audit_record =
  ar_actor_id :: "uuid option"
  ar_actor_email :: "string option"
  ar_actor_type :: string
  ar_actor_is_admin :: "bool option"
  ar_action :: string
  ar_method :: "string option"
  ar_path :: "string option"
  ar_resource_type :: "string option"
  ar_resource_id :: "string option"
  ar_status_code :: "nat option"
  ar_success :: "bool option"
  ar_ip :: "string option"
  ar_user_agent :: "string option"
  ar_details :: "(string \<times> json) list option"

text \<open>
  \<open>db_ok\<close> says whether the insert went through; a failure is logged and swallowed.
\<close>

definition record_audit :: "bool \<Rightarrow> uuid \<Rightarrow> time \<Rightarrow> audit_record \<Rightarrow> server \<Rightarrow> server" where
  "record_audit db_ok new_id now e s =
     (if \<not> db_ok then s
      else s\<lparr>audit_log := insert_row
        \<lparr>au_id = new_id, au_created_at = now, au_actor_id = ar_actor_id e, au_actor_email = ar_actor_email e,
         au_actor_type = ar_actor_type e,
         au_actor_is_admin = (case ar_actor_is_admin e of None \<Rightarrow> False | Some b \<Rightarrow> b),
         au_action = ar_action e, au_method = ar_method e, au_path = ar_path e,
         au_resource_type = ar_resource_type e, au_resource_id = ar_resource_id e,
         au_status_code = ar_status_code e,
         au_success = (case ar_success e of None \<Rightarrow> True | Some b \<Rightarrow> b),
         au_ip = ar_ip e, au_user_agent = ar_user_agent e, au_details = ar_details e\<rparr> (audit_log s)\<rparr>)"

definition audit_purgeExpired :: "config \<Rightarrow> time \<Rightarrow> server \<Rightarrow> server" where
  "audit_purgeExpired cfg now s =
     (let days = cf_audit_retention_days cfg in
      if days \<le> 0 then s
      else s\<lparr>audit_log := delete_where (\<lambda>e. au_created_at e < now - days * 86400000) (audit_log s)\<rparr>)"

section \<open>Listing\<close>

text \<open>The SQL pattern match: a percent sign, an underscore, and a backslash as escape.\<close>

fun like :: "string \<Rightarrow> string \<Rightarrow> bool" where
  "like [] s = (s = [])"
| "like (p # ps) s =
     (if p = CHR ''%'' then like ps s \<or> (case s of [] \<Rightarrow> False | _ # s' \<Rightarrow> like (p # ps) s')
      else if p = CHR ''_'' then (case s of [] \<Rightarrow> False | _ # s' \<Rightarrow> like ps s')
      else if p = CHR 0x5C then
        (case ps of
           [] \<Rightarrow> False
         | q # qs \<Rightarrow> (case s of [] \<Rightarrow> False | c # s' \<Rightarrow> c = q \<and> like qs s'))
      else (case s of [] \<Rightarrow> False | c # s' \<Rightarrow> c = p \<and> like ps s'))"

definition ilike :: "string option \<Rightarrow> string \<Rightarrow> bool" where
  "ilike v pat = (case v of None \<Rightarrow> False | Some t \<Rightarrow> like (to_lower pat) (to_lower t))"

record audit_options =
  ao_page :: "int option"
  ao_page_size :: "int option"
  ao_search :: "string option"
  ao_action :: "string option"
  ao_actor_id :: "string option"
  ao_resource_type :: "string option"
  ao_success :: "bool option"

definition wanted :: "string option \<Rightarrow> string option" where
  "wanted v = (if v = Some [] then None else v)"

definition entry_matches :: "audit_options \<Rightarrow> audit_entry \<Rightarrow> bool" where
  "entry_matches opts e \<longleftrightarrow>
     (case wanted (ao_search opts) of
        None \<Rightarrow> True
      | Some q \<Rightarrow>
          (let pat = ''%'' @ q @ ''%'' in
           ilike (Some (au_action e)) pat \<or> ilike (au_actor_email e) pat \<or> ilike (au_path e) pat \<or>
           ilike (au_resource_id e) pat)) \<and>
     (case wanted (ao_action opts) of None \<Rightarrow> True | Some a \<Rightarrow> au_action e = a) \<and>
     (case wanted (ao_actor_id opts) of None \<Rightarrow> True | Some a \<Rightarrow> au_actor_id e = Some a) \<and>
     (case wanted (ao_resource_type opts) of None \<Rightarrow> True | Some a \<Rightarrow> au_resource_type e = Some a) \<and>
     (case ao_success opts of None \<Rightarrow> True | Some b \<Rightarrow> au_success e = b)"

record audit_page =
  ap_items :: "audit_entry list"
  ap_total :: nat
  ap_page :: int
  ap_page_size :: int

definition newest_first :: "audit_entry list \<Rightarrow> audit_entry list" where
  "newest_first es = sort_key (\<lambda>e. - au_created_at e) es"

definition audit_list :: "audit_options \<Rightarrow> server \<Rightarrow> audit_page" where
  "audit_list opts s =
     (let page = max 1 (case ao_page opts of None \<Rightarrow> 1 | Some p \<Rightarrow> p);
          psize = min (max (case ao_page_size opts of None \<Rightarrow> 25 | Some n \<Rightarrow> n) 1) 100;
          base = select_where (entry_matches opts) (audit_log s)
      in \<lparr>ap_items = take (nat psize) (drop (nat ((page - 1) * psize)) (newest_first base)),
          ap_total = length base, ap_page = page, ap_page_size = psize\<rparr>)"

definition audit_get :: "server \<Rightarrow> uuid \<Rightarrow> audit_entry result" where
  "audit_get s i =
     (case select_first (\<lambda>e. au_id e = i) (audit_log s) of
        None \<Rightarrow> Inl (NotFound ''Audit entry not found'') | Some e \<Rightarrow> Inr e)"

section \<open>The interceptor\<close>

definition WRITE_METHODS :: "string list" where
  "WRITE_METHODS = [''POST'', ''PUT'', ''PATCH'', ''DELETE'']"

definition MAX_DETAILS_BYTES :: nat where
  "MAX_DETAILS_BYTES = 8192"

text \<open>The length of a text in UTF-16 units, from its UTF-8 bytes.\<close>

definition utf16_length :: "string \<Rightarrow> nat" where
  "utf16_length s =
     sum_list (map (\<lambda>c. let n = of_char c :: nat in
                        if 128 \<le> n \<and> n < 192 then 0 else if 240 \<le> n then 2 else 1) s)"

text \<open>\<open>JSON.stringify\<close>.\<close>

definition hex_char :: "nat \<Rightarrow> char" where
  "hex_char n = (if n < 10 then char_of (48 + n) else char_of (87 + n))"

definition escape_char :: "char \<Rightarrow> string" where
  "escape_char c =
     (let n = of_char c :: nat in
      if n = 34 \<or> n = 92 then [CHR 0x5C, c]
      else if n = 8 then [CHR 0x5C, CHR ''b''] else if n = 9 then [CHR 0x5C, CHR ''t'']
      else if n = 10 then [CHR 0x5C, CHR ''n''] else if n = 12 then [CHR 0x5C, CHR ''f'']
      else if n = 13 then [CHR 0x5C, CHR ''r'']
      else if n < 32 then [CHR 0x5C, CHR ''u'', CHR ''0'', CHR ''0'', hex_char (n div 16), hex_char (n mod 16)]
      else [c])"

definition json_quote :: "string \<Rightarrow> string" where
  "json_quote s = [CHR 0x22] @ concat (map escape_char s) @ [CHR 0x22]"

fun json_text :: "json \<Rightarrow> string" where
  "json_text JNull = ''null''"
| "json_text (JBool b) = (if b then ''true'' else ''false'')"
| "json_text (JNum n) = show_int n"
| "json_text (JStr s) = json_quote s"
| "json_text (JArr xs) = ''['' @ join_with '','' (map json_text xs) @ '']''"
| "json_text (JObj kvs) =
     ''{'' @ join_with '','' (map (\<lambda>(k, v). json_quote k @ '':'' @ json_text v) kvs) @ ''}''"

definition capDetails :: "(string \<times> json) list \<Rightarrow> (string \<times> json) list option" where
  "capDetails d =
     (if d = [] then None
      else if utf16_length (json_text (JObj d)) \<le> MAX_DETAILS_BYTES then Some d
      else Some ([(''truncated'', JBool True)] @
                 (case map_of d ''params'' of None \<Rightarrow> [] | Some p \<Rightarrow> if truthy p then [(''params'', p)] else []) @
                 (case map_of d ''error'' of None \<Rightarrow> [] | Some p \<Rightarrow> if truthy p then [(''error'', p)] else [])))"

text \<open>A request as the interceptor sees it, with the user the guard attached.\<close>

record audited_request =
  aq_method :: string
  aq_path :: string
  aq_url :: string
  aq_params :: "(string \<times> string) list"
  aq_query :: "(string \<times> json) list"
  aq_body :: json
  aq_user :: "request_user option"
  aq_ip :: "string option"
  aq_remote :: "string option"
  aq_user_agent :: "string option"

fun error_status :: "error \<Rightarrow> nat" where
  "error_status (BadRequest _) = 400"
| "error_status (Unauthorized _) = 401"
| "error_status (Forbidden _) = 403"
| "error_status (NotFound _) = 404"
| "error_status (Conflict _) = 409"
| "error_status (PlainError _) = 500"

fun error_message :: "error \<Rightarrow> string" where
  "error_message (BadRequest m) = m"
| "error_message (Unauthorized m) = m"
| "error_message (Forbidden m) = m"
| "error_message (NotFound m) = m"
| "error_message (Conflict m) = m"
| "error_message (PlainError m) = m"

fun nonempty_object :: "json \<Rightarrow> bool" where
  "nonempty_object (JObj kvs) = (kvs \<noteq> [])"
| "nonempty_object (JArr xs) = (xs \<noteq> [])"
| "nonempty_object _ = False"

definition audit_details :: "audited_request \<Rightarrow> error option \<Rightarrow> (string \<times> json) list" where
  "audit_details req err =
     (let body = redactSecrets 0 (aq_body req) in
      (if nonempty_object body then [(''body'', body)] else []) @
      (if aq_params req \<noteq> [] then [(''params'', JObj (map (\<lambda>(k, v). (k, JStr v)) (aq_params req)))] else []) @
      (if aq_query req \<noteq> [] then [(''query'', JObj (aq_query req))] else []) @
      (case err of None \<Rightarrow> [] | Some e \<Rightarrow> [(''error'', JStr (error_message e))]))"

definition audit_write :: "bool \<Rightarrow> uuid \<Rightarrow> time \<Rightarrow> audited_request \<Rightarrow> request_user \<Rightarrow> nat \<Rightarrow> error option \<Rightarrow> server \<Rightarrow> server" where
  "audit_write db_ok new_id now req user status err s =
     (let meta = deriveAction (aq_method req) (aq_path req) (aq_params req);
          via_key = (ru_auth_via user = ViaApiKey)
      in record_audit db_ok new_id now
           \<lparr>ar_actor_id = Some (ru_id user), ar_actor_email = Some (ru_email user),
            ar_actor_type = (if via_key then ''apikey'' else ''session''),
            ar_actor_is_admin = Some (ru_is_admin user),
            ar_action = (if via_key then am_action meta @ '' (API key)'' else am_action meta),
            ar_method = Some (aq_method req),
            ar_path = Some (takeWhile (\<lambda>c. c \<noteq> CHR ''?'') (aq_url req)),
            ar_resource_type = am_resource_type meta, ar_resource_id = am_resource_id meta,
            ar_status_code = Some status, ar_success = Some (err = None),
            ar_ip = clientIp (aq_ip req) (aq_remote req), ar_user_agent = aq_user_agent req,
            ar_details = capDetails (audit_details req err)\<rparr> s)"

text \<open>
  \<open>handler\<close> is the rest of the request; its state change comes first, the entry after it.
  \<open>status\<close> is the status code of a successful response.
\<close>

definition intercept ::
  "bool \<Rightarrow> uuid \<Rightarrow> time \<Rightarrow> audited_request \<Rightarrow> nat \<Rightarrow> (server \<Rightarrow> 'a result \<times> server) \<Rightarrow> server \<Rightarrow> 'a result \<times> server" where
  "intercept db_ok new_id now req status handler s =
     (let (r, s1) = handler s in
      case aq_user req of
        None \<Rightarrow> (r, s1)
      | Some u \<Rightarrow>
          if aq_method req \<notin> set WRITE_METHODS then (r, s1)
          else (r, case r of
                     Inr _ \<Rightarrow> audit_write db_ok new_id now req u status None s1
                   | Inl e \<Rightarrow> audit_write db_ok new_id now req u (error_status e) (Some e) s1))"

section \<open>What redaction leaves\<close>

datatype path_step = Key string | Idx nat

fun json_at :: "path_step list \<Rightarrow> json \<Rightarrow> json option" where
  "json_at [] v = Some v"
| "json_at (Key k # p) (JObj kvs) = Option.bind (map_of kvs k) (json_at p)"
| "json_at (Idx i # p) (JArr xs) = (if i < length xs then json_at p (xs ! i) else None)"
| "json_at _ _ = None"

fun leaf :: "json \<Rightarrow> bool" where
  "leaf (JObj _) = False"
| "leaf (JArr _) = False"
| "leaf _ = True"

lemma map_of_redacted:
  "map_of (map (\<lambda>(k, v). (k, f k v)) kvs) k = map_option (f k) (map_of kvs k)"
  by (induction kvs) auto

lemma json_at_leaf: "leaf v \<Longrightarrow> json_at (st # p) v = None"
  by (cases v; cases st) simp_all

lemma redact_hides:
  assumes "secret_key k" "d + length p \<le> MAX_REDACT_DEPTH"
  shows "json_at (p @ [Key k]) (redactSecrets d v) \<in> {None, Some marker}"
  using assms(2)
proof (induction p arbitrary: d v)
  case Nil
  then show ?case
    by (cases v) (auto simp: map_of_redacted assms(1) split: Option.bind_splits)
next
  case (Cons st p)
  then have IH: "json_at (p @ [Key k]) (redactSecrets (Suc d) w) \<in> {None, Some marker}" for w by simp
  have m: "json_at (p @ [Key k]) marker = None"
    by (cases p) (simp_all add: marker_def json_at_leaf)
  show ?case
  proof (cases v)
    case (JArr xs)
    with IH Cons.prems show ?thesis by (cases st) simp_all
  next
    case (JObj kvs)
    with IH m Cons.prems show ?thesis
      by (cases st) (auto simp: map_of_redacted Option.bind_map_option split: Option.bind_splits)
  qed (use Cons.prems in \<open>simp_all add: json_at_leaf\<close>)
qed

lemma redact_keeps:
  assumes "\<forall>k. Key k \<in> set p \<longrightarrow> \<not> secret_key k" "json_at p v = Some x" "leaf x"
  shows "json_at p (redactSecrets d v) = Some x"
  using assms(1,2)
proof (induction p arbitrary: d v)
  case Nil
  then have "v = x" by simp
  with assms(3) show ?case by (cases x) simp_all
next
  case (Cons st p)
  show ?case
  proof (cases v)
    case (JArr xs)
    with Cons show ?thesis by (cases st) (auto split: if_splits)
  next
    case (JObj kvs)
    with Cons show ?thesis
      by (cases st) (auto simp: map_of_redacted split: Option.bind_splits)
  qed (use Cons.prems in \<open>simp_all add: json_at_leaf\<close>)
qed

section \<open>Pages\<close>

lemma concat_pages:
  "concat (map (\<lambda>i. take k (drop (i * k) xs)) [0..<n]) = take (n * k) xs"
proof (induction n)
  case (Suc n)
  have "take (n * k + k) xs = take (n * k) xs @ take k (drop (n * k) xs)" by (rule take_add)
  with Suc show ?case by (simp add: add.commute)
qed simp

lemma page_items:
  "ap_items (audit_list (opts\<lparr>ao_page := Some (int i + 1)\<rparr>) s) =
     (let k = nat (ap_page_size (audit_list opts s)) in
      take k (drop (i * k) (newest_first (select_where (entry_matches opts) (audit_log s)))))"
proof -
  have same: "entry_matches (opts\<lparr>ao_page := Some (int i + 1)\<rparr>) = entry_matches opts"
    by (rule ext) (simp add: entry_matches_def)
  have "nat (int i * m) = i * nat m" for m :: int by (simp add: nat_mult_distrib)
  then show ?thesis by (simp add: audit_list_def Let_def same)
qed

lemma page_size_bounds: "1 \<le> ap_page_size (audit_list opts s)" "ap_page_size (audit_list opts s) \<le> 100"
  by (simp_all add: audit_list_def Let_def)

section \<open>Recorded requests\<close>

lemma intercept_log:
  assumes "aq_user req = Some u" "aq_method req \<in> set WRITE_METHODS" "handler s = (r, s1)"
  shows "\<exists>e. audit_log (snd (intercept True i now req st handler s)) = audit_log s1 @ [e] \<and>
    au_actor_id e = Some (ru_id u) \<and> au_actor_email e = Some (ru_email u) \<and> au_actor_is_admin e = ru_is_admin u \<and>
    au_success e = (\<not> is_error r) \<and> au_created_at e = now \<and>
    au_details e = capDetails (audit_details req (case r of Inl x \<Rightarrow> Some x | Inr _ \<Rightarrow> None))"
  using assms by (cases r) (simp_all add: intercept_def audit_write_def record_audit_def insert_row_def Let_def)

lemma capDetails_body:
  "capDetails d = Some d' \<Longrightarrow> map_of d' ''body'' = Some j \<Longrightarrow> map_of d ''body'' = Some j"
  by (auto simp: capDetails_def split: if_splits option.splits)

lemma details_body: "map_of (audit_details req err) ''body'' = Some j \<Longrightarrow> j = redactSecrets 0 (aq_body req)"
  by (auto simp: audit_details_def Let_def split: if_splits option.splits)

section \<open>Theorems\<close>

text \<open>
  Request bodies are logged without their secrets and otherwise as they are: whatever
  field the redaction rules call secret (by name pattern, or because a backend or channel
  declares it secret), as long as it is nested in at most six objects or arrays, is either
  absent or replaced by the marker; and every value reached without passing through such
  a field is kept unchanged, at whatever depth.
\<close>

theorem redaction_exact:
  "(secret_key k \<and> length p \<le> 6 \<longrightarrow> json_at (p @ [Key k]) (redactSecrets 0 v) \<in> {None, Some marker}) \<and>
   ((\<forall>k'. Key k' \<in> set q \<longrightarrow> \<not> secret_key k') \<and> json_at q v = Some x \<and> leaf x \<longrightarrow>
     json_at q (redactSecrets 0 v) = Some x)"
  using redact_hides [of k 0 p v] redact_keeps [of q v x 0] by (auto simp: MAX_REDACT_DEPTH_def)

lemma sample_secret_keys:
  "secret_key ''password''" "\<not> secret_key ''name''" "\<not> secret_key ''a''"
  by code_simp+

theorem redaction_exact_witness:
  "let v = JObj [(''name'', JStr ''n''), (''a'', JArr [JObj [(''password'', JStr ''pw'')]])] in
   json_at [Key ''a'', Idx 0, Key ''password''] (redactSecrets 0 v) \<in> {None, Some marker} \<and>
   json_at [Key ''name''] (redactSecrets 0 v) = Some (JStr ''n'')"
  using redaction_exact [of "''password''" "[Key ''a'', Idx 0]"
      "JObj [(''name'', JStr ''n''), (''a'', JArr [JObj [(''password'', JStr ''pw'')]])]" "[Key ''name'']" "JStr ''n''"]
  by (simp add: sample_secret_keys Let_def)

text \<open>
  Below the sixth level the value is copied as it is, so a secret nested one level deeper is
  logged.
\<close>

theorem deep_secret_logged:
  "let v = JObj [(''a'', JObj [(''a'', JObj [(''a'', JObj [(''a'', JObj [(''a'', JObj [(''a'', JObj [(''a'',
       JObj [(''password'', JStr ''pw'')])])])])])])])] in
   json_at (replicate 7 (Key ''a'') @ [Key ''password'']) (redactSecrets 0 v) = Some (JStr ''pw'')"
  by (simp add: Let_def MAX_REDACT_DEPTH_def sample_secret_keys numeral_eq_Suc)

text \<open>
  The pages of an audit listing are the matching entries, newest first, each exactly
  once: with enough pages requested, joining the pages gives the whole sorted selection,
  whatever the filters; a page never holds more than a hundred entries.
\<close>

theorem audit_pages_complete:
  assumes "length (select_where (entry_matches opts) (audit_log s)) \<le> n * nat (ap_page_size (audit_list opts s))"
  shows "concat (map (\<lambda>i. ap_items (audit_list (opts\<lparr>ao_page := Some (int i + 1)\<rparr>) s)) [0..<n]) =
      newest_first (select_where (entry_matches opts) (audit_log s)) \<and>
    length (ap_items (audit_list opts s)) \<le> 100"
proof -
  have "concat (map (\<lambda>i. ap_items (audit_list (opts\<lparr>ao_page := Some (int i + 1)\<rparr>) s)) [0..<n]) =
    take (n * nat (ap_page_size (audit_list opts s))) (newest_first (select_where (entry_matches opts) (audit_log s)))"
    unfolding page_items Let_def by (rule concat_pages)
  moreover have "length (ap_items (audit_list opts s)) \<le> nat (ap_page_size (audit_list opts s))"
    by (simp add: audit_list_def Let_def)
  ultimately show ?thesis using assms page_size_bounds [of opts s] by (simp add: newest_first_def)
qed


definition sample_audited :: audited_request where
  "sample_audited =
     \<lparr>aq_method = ''POST'', aq_path = ''/api/users'', aq_url = ''/api/users'', aq_params = [], aq_query = [],
      aq_body = JObj [(''password'', JStr ''pw'')], aq_user = Some (sample_user True), aq_ip = None, aq_remote = None,
      aq_user_agent = None\<rparr>"


theorem audit_pages_complete_witness:
  "let opts = \<lparr>ao_page = None, ao_page_size = Some 0, ao_search = None, ao_action = None, ao_actor_id = None,
               ao_resource_type = None, ao_success = None\<rparr>;
       s = record_audit True ''e2'' 7 \<lparr>ar_actor_id = None, ar_actor_email = None, ar_actor_type = ''system'',
             ar_actor_is_admin = None, ar_action = ''x'', ar_method = None, ar_path = None, ar_resource_type = None,
             ar_resource_id = None, ar_status_code = None, ar_success = None, ar_ip = None, ar_user_agent = None,
             ar_details = None\<rparr> empty_server
   in concat (map (\<lambda>i. ap_items (audit_list (opts\<lparr>ao_page := Some (int i + 1)\<rparr>) s)) [0..<1]) =
      newest_first (audit_log s)"
proof -
  let ?o = "\<lparr>ao_page = None, ao_page_size = Some 0, ao_search = None, ao_action = None, ao_actor_id = None,
               ao_resource_type = None, ao_success = None\<rparr>"
  let ?e = "\<lparr>ar_actor_id = None, ar_actor_email = None, ar_actor_type = ''system'',
             ar_actor_is_admin = None, ar_action = ''x'', ar_method = None, ar_path = None, ar_resource_type = None,
             ar_resource_id = None, ar_status_code = None, ar_success = None, ar_ip = None, ar_user_agent = None,
             ar_details = None\<rparr>"
  let ?s = "record_audit True ''e2'' 7 ?e empty_server"
  have all: "select_where (entry_matches ?o) (audit_log ?s) = audit_log ?s"
    by (simp add: select_where_def entry_matches_def wanted_def record_audit_def insert_row_def empty_server_def)
  have "length (select_where (entry_matches ?o) (audit_log ?s)) \<le> 1 * nat (ap_page_size (audit_list ?o ?s))"
    unfolding all using page_size_bounds(1) [of ?o ?s] by (simp add: record_audit_def insert_row_def empty_server_def)
  from audit_pages_complete [OF this] show ?thesis unfolding Let_def all by simp
qed

end
