(* ===== verification/Login.thy ===== *)
theory Login
  imports AuditLog "HOL-Library.Countable"
begin

text \<open>
  Signing in with a password: \<open>server/src/auth/auth.service.ts\<close>, \<open>server/src/auth/totp.service.ts\<close>
  and the login routes of \<open>server/src/auth/auth.controller.ts\<close>. The TOTP check of \<open>otplib\<close> is an
  argument (\<open>totp_lib\<close>), as are random ids, salts and codes; QR images are left out.
  The lemmas show that a changed credential ends every session, that one challenge token
  admits at most five guesses and at most one session, that a recovery code works once, and
  that no login hands an administrator a session from outside the allowlist.
\<close>

section \<open>Two-factor authentication\<close>

type_synonym totp_lib = "time \<Rightarrow> string \<Rightarrow> string \<Rightarrow> bool option"
  \<comment> \<open>time, secret and token; \<open>None\<close> where the library throws\<close>

definition RECOVERY_CODE_COUNT :: nat where
  "RECOVERY_CODE_COUNT = 10"

definition loadLocalUser :: "server \<Rightarrow> uuid \<Rightarrow> user result" where
  "loadLocalUser s i =
     (case user_by_id i s of
        None \<Rightarrow> Inl (NotFound ''User not found'')
      | Some u \<Rightarrow>
          if us_auth_source u \<noteq> AsLocal
          then Inl (BadRequest ''Two-factor authentication is only available for password accounts'')
          else Inr u)"

definition decryptSecret :: "crypto \<Rightarrow> user \<Rightarrow> string option result" where
  "decryptSecret cr u =
     (case (us_totp_secret_ciphertext u, us_totp_secret_nonce u) of
        (Some ct, Some n) \<Rightarrow>
          if ct = [] \<or> n = [] then Inr None
          else (case decrypt cr \<lparr>ep_ciphertext = ct, ep_nonce = n\<rparr> None of
                  Inl e \<Rightarrow> Inl e
                | Inr (PText t) \<Rightarrow> Inr (Some t)
                | Inr (PJson _) \<Rightarrow> Inl (PlainError ''unexpected plaintext''))
      | _ \<Rightarrow> Inr None)"

definition set_user :: "uuid \<Rightarrow> (user \<Rightarrow> user) \<Rightarrow> server \<Rightarrow> server" where
  "set_user i f s = s\<lparr>users := update_where (\<lambda>u. us_id u = i) f (users s)\<rparr>"

text \<open>\<open>secret\<close> is the freshly generated one; the reply also carries its QR image.\<close>

definition totp_setup :: "crypto \<Rightarrow> string \<Rightarrow> string \<Rightarrow> uuid \<Rightarrow> server \<Rightarrow> string result \<times> server" where
  "totp_setup cr iv secret i s =
     (case loadLocalUser s i of
        Inl e \<Rightarrow> (Inl e, s)
      | Inr u \<Rightarrow>
          if us_totp_enabled u then (Inl (BadRequest ''Two-factor authentication is already enabled''), s)
          else let enc = encrypt cr iv (PText secret) None in
            (Inr secret, set_user i (\<lambda>r. r\<lparr>us_totp_secret_ciphertext := Some (ep_ciphertext enc),
                                           us_totp_secret_nonce := Some (ep_nonce enc)\<rparr>) s))"

definition verifyToken :: "totp_lib \<Rightarrow> time \<Rightarrow> string \<Rightarrow> string \<Rightarrow> bool" where
  "verifyToken tv now token secret = (case tv now secret (trim token) of Some b \<Rightarrow> b | None \<Rightarrow> False)"

definition verifyArgon :: "argon \<Rightarrow> string \<Rightarrow> string \<Rightarrow> bool" where
  "verifyArgon ar h p = (case ar_verify ar h p of Some b \<Rightarrow> b | None \<Rightarrow> False)"

definition canonical :: "string \<Rightarrow> string" where
  "canonical code = to_lower (filter (\<lambda>c. is_lower_alnum (lower_char c)) code)"

text \<open>\<open>raw i\<close> is the \<open>i\<close>-th random text of ten hexadecimal digits.\<close>

definition generateRecoveryCodes :: "(nat \<Rightarrow> string) \<Rightarrow> string list" where
  "generateRecoveryCodes raw = map (\<lambda>i. take 5 (raw i) @ ''-'' @ drop 5 (raw i)) [0..<RECOVERY_CODE_COUNT]"

definition totp_enable ::
  "crypto \<Rightarrow> argon \<Rightarrow> totp_lib \<Rightarrow> (nat \<Rightarrow> string) \<Rightarrow> (nat \<Rightarrow> string) \<Rightarrow> time \<Rightarrow> uuid \<Rightarrow> string \<Rightarrow> server
    \<Rightarrow> string list result \<times> server" where
  "totp_enable cr ar tv raw salts now i code s =
     (case loadLocalUser s i of
        Inl e \<Rightarrow> (Inl e, s)
      | Inr u \<Rightarrow>
          if us_totp_enabled u then (Inl (BadRequest ''Two-factor authentication is already enabled''), s)
          else case decryptSecret cr u of
            Inl e \<Rightarrow> (Inl e, s)
          | Inr sec \<Rightarrow>
              (case sec of
                 None \<Rightarrow> (Inl (BadRequest ''Start the setup before enabling two-factor auth''), s)
               | Some secret \<Rightarrow>
                   if secret = [] then (Inl (BadRequest ''Start the setup before enabling two-factor auth''), s)
                   else if \<not> verifyToken tv now code secret
                   then (Inl (Unauthorized ''Invalid authentication code''), s)
                   else let codes = generateRecoveryCodes raw;
                            hashes = map (\<lambda>(k, c). ar_hash ar (salts k) (canonical c)) (List.enumerate 0 codes)
                        in (Inr codes, set_user i (\<lambda>r. r\<lparr>us_totp_enabled := True,
                                                         us_totp_recovery_codes := Some hashes\<rparr>) s)))"

definition totp_disable :: "argon \<Rightarrow> uuid \<Rightarrow> string \<Rightarrow> server \<Rightarrow> unit result \<times> server" where
  "totp_disable ar i password s =
     (case loadLocalUser s i of
        Inl e \<Rightarrow> (Inl e, s)
      | Inr u \<Rightarrow>
          if (case us_password_hash u of None \<Rightarrow> True | Some h \<Rightarrow> h = [] \<or> \<not> verifyArgon ar h password)
          then (Inl (Unauthorized ''Password is incorrect''), s)
          else (Inr (), set_user i (\<lambda>r. r\<lparr>us_totp_enabled := False, us_totp_secret_ciphertext := None,
                                          us_totp_secret_nonce := None, us_totp_recovery_codes := None\<rparr>) s))"

text \<open>The loop over the stored hashes: the index of the first one that verifies.\<close>

fun first_match :: "argon \<Rightarrow> string \<Rightarrow> nat \<Rightarrow> string list \<Rightarrow> nat option" where
  "first_match ar candidate i [] = None"
| "first_match ar candidate i (h # hs) =
     (if verifyArgon ar h candidate then Some i else first_match ar candidate (i + 1) hs)"

definition consumeRecoveryCode :: "argon \<Rightarrow> user \<Rightarrow> string \<Rightarrow> server \<Rightarrow> bool \<times> server" where
  "consumeRecoveryCode ar u code s =
     (let hashes = (case us_totp_recovery_codes u of None \<Rightarrow> [] | Some hs \<Rightarrow> hs);
          candidate = canonical code
      in if hashes = [] \<or> candidate = [] then (False, s)
         else case first_match ar candidate 0 hashes of
           None \<Rightarrow> (False, s)
         | Some i \<Rightarrow>
             (True, set_user (us_id u)
                (\<lambda>r. r\<lparr>us_totp_recovery_codes := Some (take i hashes @ drop (Suc i) hashes)\<rparr>) s))"

definition totp_verifyLogin ::
  "crypto \<Rightarrow> argon \<Rightarrow> totp_lib \<Rightarrow> time \<Rightarrow> user \<Rightarrow> string \<Rightarrow> server \<Rightarrow> bool result \<times> server" where
  "totp_verifyLogin cr ar tv now u code s =
     (if \<not> us_totp_enabled u then (Inr False, s)
      else case decryptSecret cr u of
        Inl e \<Rightarrow> (Inl e, s)
      | Inr sec \<Rightarrow>
          (case sec of
             None \<Rightarrow> (Inr False, s)
           | Some secret \<Rightarrow>
               if secret = [] then (Inr False, s)
               else let trimmed = trim code in
                 if length trimmed = 6 \<and> list_all is_digit trimmed
                 then (Inr (verifyToken tv now trimmed secret), s)
                 else (let (ok, s1) = consumeRecoveryCode ar u trimmed s in (Inr ok, s1))))"

section \<open>Challenges\<close>

definition MAX_TOTP_ATTEMPTS :: nat where
  "MAX_TOTP_ATTEMPTS = 5"

definition CHALLENGE_TTL_MS :: int where
  "CHALLENGE_TTL_MS = 6 * 60000"

text \<open>\<open>Map.set\<close>: an existing key keeps its place.\<close>

fun map_set :: "'k \<Rightarrow> 'v \<Rightarrow> ('k \<times> 'v) list \<Rightarrow> ('k \<times> 'v) list" where
  "map_set k v [] = [(k, v)]"
| "map_set k v ((k', v') # kvs) = (if k = k' then (k, v) # kvs else (k', v') # map_set k v kvs)"

definition consumeAttempt :: "time \<Rightarrow> string \<Rightarrow> server \<Rightarrow> bool \<times> server" where
  "consumeAttempt now jti s =
     (let live = filter (\<lambda>(k, a, e). \<not> e \<le> now) (challenge_state s);
          (attempts, expires) = (case map_of live jti of Some ae \<Rightarrow> ae | None \<Rightarrow> (0, now + CHALLENGE_TTL_MS))
      in if attempts \<ge> MAX_TOTP_ATTEMPTS then (False, s\<lparr>challenge_state := live\<rparr>)
         else (True, s\<lparr>challenge_state := map_set jti (attempts + 1, expires) live\<rparr>))"

definition burnChallenge :: "time \<Rightarrow> string \<Rightarrow> server \<Rightarrow> server" where
  "burnChallenge now jti s =
     s\<lparr>challenge_state := map_set jti (MAX_TOTP_ATTEMPTS, now + CHALLENGE_TTL_MS) (challenge_state s)\<rparr>"

section \<open>Sessions\<close>

text \<open>What the login flow gets from outside: libraries, configuration, times of expiry.\<close>

record login_env =
  lg_config :: config
  lg_jwt :: jwt_lib
  lg_crypto :: crypto
  lg_argon :: argon
  lg_totp :: totp_lib
  lg_session_ms :: int

definition assertLocalLoginEnabled :: "server \<Rightarrow> unit result" where
  "assertLocalLoginEnabled s =
     (if \<not> getLocalLoginEnabled s then Inl (Unauthorized ''Local login is disabled'') else Inr ())"

definition challengeSecret :: "login_env \<Rightarrow> string" where
  "challengeSecret x = cf_jwt_secret (lg_config x) @ ''::totp-challenge''"

definition session_claims :: "uuid \<Rightarrow> string \<Rightarrow> bool \<Rightarrow> nat \<Rightarrow> claims" where
  "session_claims i email admin epoch =
     [(''sub'', JStr i), (''email'', JStr email), (''isAdmin'', JBool admin), (''se'', JNum (int epoch))]"

definition issue :: "login_env \<Rightarrow> time \<Rightarrow> uuid \<Rightarrow> string \<Rightarrow> bool \<Rightarrow> server \<Rightarrow> (string \<times> public_user) result" where
  "issue x now i email admin s =
     (let token = jw_sign (lg_jwt x) (cf_jwt_secret (lg_config x))
                    (session_claims i email admin (sessionEpoch s i)) (now + lg_session_ms x)
      in case findById s i of Inl e \<Rightarrow> Inl e | Inr u \<Rightarrow> Inr (token, u))"

definition issueForUser :: "login_env \<Rightarrow> time \<Rightarrow> uuid \<Rightarrow> server \<Rightarrow> (string \<times> public_user) result" where
  "issueForUser x now i s =
     (case findByIdRaw s i of
        None \<Rightarrow> Inl (Unauthorized ''Account is not available'')
      | Some u \<Rightarrow>
          if us_disabled u then Inl (Unauthorized ''Account is not available'')
          else issue x now (us_id u) (us_email u) (us_is_admin u) s)"

datatype login_outcome = LoginOk string public_user | TwofaRequired string

text \<open>\<open>jti\<close> is the \<open>randomUUID()\<close> of a challenge.\<close>

definition login :: "login_env \<Rightarrow> string \<Rightarrow> time \<Rightarrow> string \<Rightarrow> string \<Rightarrow> server \<Rightarrow> login_outcome result" where
  "login x jti now email password s =
     (case assertLocalLoginEnabled s of
        Inl e \<Rightarrow> Inl e
      | Inr _ \<Rightarrow>
          (case findByEmailRaw s email of
             None \<Rightarrow> Inl (Unauthorized ''Invalid credentials'')
           | Some u \<Rightarrow>
               if us_auth_source u \<noteq> AsLocal then Inl (Unauthorized ''Invalid credentials'')
               else if us_disabled u then Inl (Unauthorized ''Account disabled'')
               else if \<not> verifyPassword (lg_argon x) u password then Inl (Unauthorized ''Invalid credentials'')
               else if us_totp_enabled u
               then Inr (TwofaRequired (jw_sign (lg_jwt x) (challengeSecret x)
                           [(''sub'', JStr (us_id u)), (''twofa'', JBool True), (''jti'', JStr jti)] (now + 300000)))
               else (case issue x now (us_id u) (us_email u) (us_is_admin u) s of
                       Inl e \<Rightarrow> Inl e | Inr (t, pu) \<Rightarrow> Inr (LoginOk t pu))))"

definition nonempty_str :: "json option \<Rightarrow> string option" where
  "nonempty_str v = (case v of Some (JStr t) \<Rightarrow> if t = [] then None else Some t | _ \<Rightarrow> None)"

text \<open>
  The challenge a token carries: \<open>None\<close> when it does not verify, then its two fields if present.
\<close>

definition read_challenge :: "login_env \<Rightarrow> time \<Rightarrow> string \<Rightarrow> (string \<times> string) result" where
  "read_challenge x now token =
     (case jw_verify (lg_jwt x) (challengeSecret x) now token of
        None \<Rightarrow> Inl (Unauthorized (''Two-factor session expired '' @ em_dash @ '' sign in again''))
      | Some p \<Rightarrow>
          if \<not> truthy_field (map_of p ''twofa'') then Inl (Unauthorized ''Invalid two-factor session'')
          else case (nonempty_str (map_of p ''sub''), nonempty_str (map_of p ''jti'')) of
            (Some sub, Some jti) \<Rightarrow> Inr (sub, jti)
          | _ \<Rightarrow> Inl (Unauthorized ''Invalid two-factor session''))"

definition loginTotp ::
  "login_env \<Rightarrow> time \<Rightarrow> string \<Rightarrow> string \<Rightarrow> server \<Rightarrow> (string \<times> public_user) result \<times> server" where
  "loginTotp x now token code s =
     (case assertLocalLoginEnabled s of
        Inl e \<Rightarrow> (Inl e, s)
      | Inr _ \<Rightarrow>
          (case read_challenge x now token of
             Inl e \<Rightarrow> (Inl e, s)
           | Inr (sub, jti) \<Rightarrow>
               (let (ok, s1) = consumeAttempt now jti s in
                if \<not> ok then (Inl (Unauthorized (''Two-factor session expired '' @ em_dash @ '' sign in again'')), s1)
                else case findByIdRaw s1 sub of
                  None \<Rightarrow> (Inl (Unauthorized ''Invalid credentials''), s1)
                | Some u \<Rightarrow>
                    if us_disabled u \<or> \<not> us_totp_enabled u then (Inl (Unauthorized ''Invalid credentials''), s1)
                    else case totp_verifyLogin (lg_crypto x) (lg_argon x) (lg_totp x) now u code s1 of
                      (Inl e, s2) \<Rightarrow> (Inl e, s2)
                    | (Inr valid, s2) \<Rightarrow>
                        if \<not> valid then (Inl (Unauthorized ''Invalid authentication code''), s2)
                        else let s3 = burnChallenge now jti s2 in
                          (issue x now (us_id u) (us_email u) (us_is_admin u) s3, s3))))"

section \<open>The login routes\<close>

datatype login_reply = SessionCookie string public_user | Challenge string

record client_info =
  ci_ip :: "string option"
  ci_user_agent :: "string option"

definition assertLoginAllowed :: "login_env \<Rightarrow> time \<Rightarrow> public_user \<Rightarrow> string option \<Rightarrow> server \<Rightarrow> unit result \<times> server" where
  "assertLoginAllowed x now u ip s =
     (if pb_is_admin u then assertAllowed (lg_config x) now ip s else (Inr (), s))"

definition login_entry :: "public_user \<Rightarrow> string \<Rightarrow> string \<Rightarrow> client_info \<Rightarrow> audit_record" where
  "login_entry u meth path cl =
     \<lparr>ar_actor_id = Some (pb_id u), ar_actor_email = Some (pb_email u), ar_actor_type = ''session'',
      ar_actor_is_admin = Some (pb_is_admin u), ar_action = ''Log in'', ar_method = Some meth,
      ar_path = Some path, ar_resource_type = Some ''auth'', ar_resource_id = None, ar_status_code = Some 200,
      ar_success = Some True, ar_ip = ci_ip cl, ar_user_agent = ci_user_agent cl, ar_details = None\<rparr>"

definition failed_entry :: "string option \<Rightarrow> string \<Rightarrow> string \<Rightarrow> string \<Rightarrow> nat \<Rightarrow> (string \<times> json) list option \<Rightarrow> client_info \<Rightarrow> audit_record" where
  "failed_entry email action meth path status details cl =
     \<lparr>ar_actor_id = None, ar_actor_email = email, ar_actor_type = ''session'', ar_actor_is_admin = None,
      ar_action = action, ar_method = Some meth, ar_path = Some path, ar_resource_type = Some ''auth'',
      ar_resource_id = None, ar_status_code = Some status, ar_success = Some False, ar_ip = ci_ip cl,
      ar_user_agent = ci_user_agent cl, ar_details = details\<rparr>"

text \<open>The status recorded for a failed login: 401 for an exception without one.\<close>

definition login_status :: "error \<Rightarrow> nat" where
  "login_status e = (case e of PlainError _ \<Rightarrow> 401 | _ \<Rightarrow> error_status e)"

text \<open>
  The common end of a login route: the address check, the cookie and the entry in the log,
  or the entry for the failure. \<open>ok_entry\<close> is the id of the entry.
\<close>

definition finish_login ::
  "login_env \<Rightarrow> bool \<Rightarrow> uuid \<Rightarrow> time \<Rightarrow> string \<Rightarrow> (nat \<Rightarrow> audit_record) \<Rightarrow> client_info \<Rightarrow>
   (string \<times> public_user) result \<times> server \<Rightarrow> login_reply result \<times> server" where
  "finish_login x db_ok i now path failed cl rs =
     (case rs of
        (Inl e, s) \<Rightarrow> (Inl e, record_audit db_ok i now (failed (login_status e)) s)
      | (Inr (token, u), s) \<Rightarrow>
          (case assertLoginAllowed x now u (ci_ip cl) s of
             (Inl e, s1) \<Rightarrow> (Inl e, record_audit db_ok i now (failed (login_status e)) s1)
           | (Inr _, s1) \<Rightarrow>
               (Inr (SessionCookie token u), record_audit db_ok i now (login_entry u ''POST'' path cl) s1)))"

definition route_login ::
  "login_env \<Rightarrow> bool \<Rightarrow> uuid \<Rightarrow> string \<Rightarrow> time \<Rightarrow> string \<Rightarrow> string \<Rightarrow> client_info \<Rightarrow> server \<Rightarrow> login_reply result \<times> server" where
  "route_login x db_ok i jti now email password cl s =
     (let failed = (\<lambda>st. failed_entry (Some email) ''Failed login'' ''POST'' ''/api/auth/login'' st
                           (Some [(''email'', JStr email)]) cl)
      in case login x jti now email password s of
           Inl e \<Rightarrow> finish_login x db_ok i now ''/api/auth/login'' failed cl (Inl e, s)
         | Inr (TwofaRequired t) \<Rightarrow> (Inr (Challenge t), s)
         | Inr (LoginOk t u) \<Rightarrow> finish_login x db_ok i now ''/api/auth/login'' failed cl (Inr (t, u), s))"

definition route_loginTotp ::
  "login_env \<Rightarrow> bool \<Rightarrow> uuid \<Rightarrow> time \<Rightarrow> string \<Rightarrow> string \<Rightarrow> client_info \<Rightarrow> server \<Rightarrow> login_reply result \<times> server" where
  "route_loginTotp x db_ok i now token code cl s =
     finish_login x db_ok i now ''/api/auth/login/totp''
       (\<lambda>st. failed_entry None ''Failed 2FA login'' ''POST'' ''/api/auth/login/totp'' st None cl) cl
       (loginTotp x now token code s)"

text \<open>Changing the password signs the current browser in again.\<close>

definition route_changePassword ::
  "login_env \<Rightarrow> string \<Rightarrow> time \<Rightarrow> request_user \<Rightarrow> string \<Rightarrow> string \<Rightarrow> server \<Rightarrow> string result \<times> server" where
  "route_changePassword x salt now user current new s =
     (case changePassword (lg_argon x) salt (ru_id user) current new s of
        (Inl e, s1) \<Rightarrow> (Inl e, s1)
      | (Inr _, s1) \<Rightarrow>
          (case issueForUser x now (ru_id user) s1 of
             Inl e \<Rightarrow> (Inl e, s1) | Inr (t, _) \<Rightarrow> (Inr t, s1)))"

section \<open>Sessions end with the credential\<close>

lemma issue_token:
  assumes "issue x now i email admin s = Inr (token, pu)"
  shows "token = jw_sign (lg_jwt x) (cf_jwt_secret (lg_config x))
      (session_claims i email admin (sessionEpoch s i)) (now + lg_session_ms x)"
    "findById s i = Inr pu"
  using assms by (auto simp: issue_def Let_def split: sum.splits)

lemma session_claims_lookup [simp]:
  "map_of (session_claims i email admin ep) ''sub'' = Some (JStr i)"
  "map_of (session_claims i email admin ep) ''se'' = Some (JNum (int ep))"
  by (simp_all add: session_claims_def)

lemma fromJwt_session:
  assumes "jwt_correct j" "user_by_id i s = Some u"
  shows "fromJwt cfg j t (jw_sign j (cf_jwt_secret cfg) (session_claims i email admin ep) e) s =
    (if \<not> t < e then Inl (Unauthorized ''Invalid or expired session'')
     else if us_disabled u then Inl (Unauthorized ''Account disabled or missing'')
     else if ep \<noteq> us_session_epoch u then Inl (Unauthorized (''Session expired '' @ em_dash @ '' sign in again''))
     else Inr \<lparr>ru_id = i, ru_email = us_email u, ru_is_admin = us_is_admin u, ru_auth_via = ViaSession,
               ru_api_key_scopes = None, ru_api_key_id = None\<rparr>)"
  using assms user_by_idD [OF assms(2)] by (simp add: fromJwt_def jwt_correct_def)

lemma changePassword_user:
  assumes "user_by_id i s = Some u" "changePassword ar salt i p q s = (Inr (), s1)"
  shows "user_by_id i s1 = Some (bump_epoch (u\<lparr>us_password_hash := Some (ar_hash ar salt q)\<rparr>))"
proof -
  have "us_id u = i" using user_by_idD [OF assms(1)] by simp
  moreover have "s1 = s\<lparr>users := update_where (\<lambda>v. us_id v = i)
      (\<lambda>v. bump_epoch (v\<lparr>us_password_hash := Some (ar_hash ar salt q)\<rparr>)) (users s)\<rparr>"
    using assms by (auto simp: changePassword_def split: if_splits)
  ultimately show ?thesis
    using assms(1) by (simp add: user_by_id_key urow.by_key_update)
qed

section \<open>Guesses against a challenge\<close>

lemma map_of_map_set [simp]: "map_of (map_set k v kvs) = (map_of kvs)(k \<mapsto> v)"
  by (induction kvs) auto

lemma map_of_filter_keep:
  "map_of kvs k = Some v \<Longrightarrow> P (k, v) \<Longrightarrow> map_of (filter P kvs) k = Some v"
  by (induction kvs) (auto split: if_splits)

lemma map_of_filter_None: "map_of kvs k = None \<Longrightarrow> map_of (filter P kvs) k = None"
  by (induction kvs) (auto split: if_splits)

text \<open>Guesses left for a challenge, and that its entry outlives the time window.\<close>

definition left :: "string \<Rightarrow> server \<Rightarrow> nat" where
  "left jti s = (case map_of (challenge_state s) jti of None \<Rightarrow> MAX_TOTP_ATTEMPTS | Some (a, e) \<Rightarrow> MAX_TOTP_ATTEMPTS - a)"

definition outlives :: "time \<Rightarrow> string \<Rightarrow> server \<Rightarrow> bool" where
  "outlives t0 jti s \<longleftrightarrow> (\<forall>a e. map_of (challenge_state s) jti = Some (a, e) \<longrightarrow> t0 + CHALLENGE_TTL_MS \<le> e)"

lemma live_entry:
  assumes "outlives t0 jti s" "now < t0 + CHALLENGE_TTL_MS"
  shows "map_of (filter (\<lambda>(k, a, e). \<not> e \<le> now) (challenge_state s)) jti = map_of (challenge_state s) jti"
proof (cases "map_of (challenge_state s) jti")
  case None
  then show ?thesis by (simp add: map_of_filter_None)
next
  case (Some ae)
  obtain a e where "ae = (a, e)" by (cases ae)
  with Some assms show ?thesis by (auto simp: outlives_def intro!: map_of_filter_keep)
qed

lemma consumeAttempt_own:
  assumes "outlives t0 jti s" "t0 \<le> now" "now < t0 + CHALLENGE_TTL_MS" "consumeAttempt now jti s = (ok, s1)"
  shows "ok \<longleftrightarrow> 0 < left jti s" "left jti s1 = left jti s - (if ok then 1 else 0)" "outlives t0 jti s1"
  using assms live_entry [OF assms(1,3)]
  by (auto simp: consumeAttempt_def left_def outlives_def Let_def split: option.splits if_splits prod.splits)

lemma consumeAttempt_other:
  assumes "outlives t0 jti s" "now < t0 + CHALLENGE_TTL_MS" "j \<noteq> jti" "consumeAttempt now j s = (ok, s1)"
  shows "left jti s1 = left jti s" "outlives t0 jti s1"
  using assms live_entry [OF assms(1,2)]
  by (auto simp: consumeAttempt_def left_def outlives_def Let_def split: option.splits if_splits prod.splits)

lemma burn_left:
  "left jti (burnChallenge now jti s) = 0"
  "j \<noteq> jti \<Longrightarrow> left jti (burnChallenge now j s) = left jti s"
  by (simp_all add: burnChallenge_def left_def)

lemma burn_outlives:
  "outlives t0 jti s \<Longrightarrow> t0 \<le> now \<Longrightarrow> outlives t0 jti (burnChallenge now j s)"
  by (auto simp: burnChallenge_def outlives_def split: if_splits)

lemma verifyLogin_challenges:
  "totp_verifyLogin cr ar tv now u code s = (r, s1) \<Longrightarrow> challenge_state s1 = challenge_state s"
  by (auto simp: totp_verifyLogin_def consumeRecoveryCode_def set_user_def Let_def
      split: if_splits sum.splits option.splits prod.splits)

lemma left_cong: "challenge_state s' = challenge_state s \<Longrightarrow> left jti s' = left jti s"
  and outlives_cong: "challenge_state s' = challenge_state s \<Longrightarrow> outlives t0 jti s' = outlives t0 jti s"
  by (simp_all add: left_def outlives_def)

text \<open>A call that gets to check its code against challenge \<open>jti\<close>, and one that succeeds.\<close>

definition guessed :: "login_env \<Rightarrow> string \<Rightarrow> time \<Rightarrow> string \<Rightarrow> server \<Rightarrow> bool" where
  "guessed x jti now token s \<longleftrightarrow>
     getLocalLoginEnabled s \<and>
     (case read_challenge x now token of
        Inl _ \<Rightarrow> False | Inr (sub, j) \<Rightarrow> j = jti \<and> fst (consumeAttempt now jti s))"

lemma loginTotp_step:
  assumes "outlives t0 jti s" "t0 \<le> now" "now < t0 + CHALLENGE_TTL_MS" "loginTotp x now token code s = (r, s1)"
  shows "(if guessed x jti now token s then 1 else 0) + left jti s1 \<le> left jti s" "outlives t0 jti s1"
    "guessed x jti now token s \<and> \<not> is_error r \<Longrightarrow> left jti s1 = 0"
proof -
  have "((if guessed x jti now token s then 1 else 0) + left jti s1 \<le> left jti s \<and> outlives t0 jti s1) \<and>
    (guessed x jti now token s \<and> \<not> is_error r \<longrightarrow> left jti s1 = 0)"
  proof (cases "\<not> getLocalLoginEnabled s \<or> (\<exists>e. read_challenge x now token = Inl e)")
    case True
    with assms show ?thesis
      by (auto simp: loginTotp_def assertLocalLoginEnabled_def guessed_def split: sum.splits)
  next
    case False
    then obtain sub j where rc: "getLocalLoginEnabled s" "read_challenge x now token = Inr (sub, j)"
      by (cases "read_challenge x now token") auto
    obtain ok s' where ca: "consumeAttempt now j s = (ok, s')" by (cases "consumeAttempt now j s")
    have g: "guessed x jti now token s \<longleftrightarrow> j = jti \<and> ok" using rc ca by (auto simp: guessed_def)
    have base: "left jti s' + (if j = jti \<and> ok then 1 else 0) \<le> left jti s" "outlives t0 jti s'"
      using consumeAttempt_own [of t0 j s now ok s'] consumeAttempt_other [OF assms(1,3) _ ca] assms(1-3) ca
      by (cases "j = jti"; auto)+
    have "s1 = s' \<and> is_error r \<or>
      (\<exists>s2. challenge_state s2 = challenge_state s' \<and> (s1 = s2 \<and> is_error r \<or> s1 = burnChallenge now j s2))"
      using assms(4) rc ca
      by (auto simp: loginTotp_def assertLocalLoginEnabled_def Let_def dest: verifyLogin_challenges
          split: if_splits option.splits prod.splits sum.splits)
    then show ?thesis
    proof (elim disjE exE conjE)
      assume "s1 = s'" "is_error r"
      with base show ?thesis by (auto simp: g)
    next
      fix s2 assume s2: "challenge_state s2 = challenge_state s'" "s1 = s2" "is_error r"
      with base left_cong [OF s2(1)] outlives_cong [OF s2(1)] show ?thesis by (auto simp: g)
    next
      fix s2 assume s2: "challenge_state s2 = challenge_state s'" "s1 = burnChallenge now j s2"
      have "left jti s1 \<le> left jti s'" "j = jti \<Longrightarrow> left jti s1 = 0"
        using burn_left(1) [of j now s2] burn_left(2) [of j jti now s2] left_cong [OF s2(1)]
        by (cases "j = jti"; simp add: s2(2))+
      moreover have "outlives t0 jti s1"
        using burn_outlives [OF _ assms(2)] outlives_cong [OF s2(1)] base(2) by (simp add: s2(2))
      ultimately show ?thesis using base by (auto simp: g)
    qed
  qed
  then show "(if guessed x jti now token s then 1 else 0) + left jti s1 \<le> left jti s" "outlives t0 jti s1"
    "guessed x jti now token s \<and> \<not> is_error r \<Longrightarrow> left jti s1 = 0" by blast+
qed

text \<open>Sequences of second-factor requests: time, challenge token and code of each.\<close>

fun guesses :: "login_env \<Rightarrow> string \<Rightarrow> (time \<times> string \<times> string) list \<Rightarrow> server \<Rightarrow> nat" where
  "guesses x jti [] s = 0"
| "guesses x jti ((now, token, code) # cs) s =
     (if guessed x jti now token s then 1 else 0) + guesses x jti cs (snd (loginTotp x now token code s))"

fun totp_sessions :: "login_env \<Rightarrow> string \<Rightarrow> (time \<times> string \<times> string) list \<Rightarrow> server \<Rightarrow> nat" where
  "totp_sessions x jti [] s = 0"
| "totp_sessions x jti ((now, token, code) # cs) s =
     (if guessed x jti now token s \<and> \<not> is_error (fst (loginTotp x now token code s)) then 1 else 0) +
     totp_sessions x jti cs (snd (loginTotp x now token code s))"

lemma guesses_left:
  assumes "outlives t0 jti s" "\<forall>(now, _) \<in> set cs. t0 \<le> now \<and> now < t0 + CHALLENGE_TTL_MS"
  shows "guesses x jti cs s \<le> left jti s"
  using assms
proof (induction cs arbitrary: s)
  case (Cons c cs)
  obtain now token code where c: "c = (now, token, code)" by (cases c)
  obtain r s1 where l: "loginTotp x now token code s = (r, s1)" by (cases "loginTotp x now token code s")
  from Cons.prems c have w: "t0 \<le> now" "now < t0 + CHALLENGE_TTL_MS" by auto
  note st = loginTotp_step [OF Cons.prems(1) w l]
  have "guesses x jti cs s1 \<le> left jti s1" using Cons.IH [OF st(2)] Cons.prems(2) by simp
  with st(1) show ?case by (simp add: c l)
qed simp

lemma sessions_none:
  assumes "outlives t0 jti s" "\<forall>(now, _) \<in> set cs. t0 \<le> now \<and> now < t0 + CHALLENGE_TTL_MS" "left jti s = 0"
  shows "totp_sessions x jti cs s = 0"
proof -
  have "totp_sessions x jti cs s \<le> guesses x jti cs s" by (induction x jti cs s rule: totp_sessions.induct) auto
  with guesses_left [OF assms(1,2), of x] assms(3) show ?thesis by simp
qed

lemma sessions_once:
  assumes "outlives t0 jti s" "\<forall>(now, _) \<in> set cs. t0 \<le> now \<and> now < t0 + CHALLENGE_TTL_MS"
  shows "totp_sessions x jti cs s \<le> 1"
  using assms
proof (induction cs arbitrary: s)
  case (Cons c cs)
  obtain now token code where c: "c = (now, token, code)" by (cases c)
  obtain r s1 where l: "loginTotp x now token code s = (r, s1)" by (cases "loginTotp x now token code s")
  from Cons.prems c have w: "t0 \<le> now" "now < t0 + CHALLENGE_TTL_MS" by auto
  note st = loginTotp_step [OF Cons.prems(1) w l]
  have rest: "\<forall>(now, _) \<in> set cs. t0 \<le> now \<and> now < t0 + CHALLENGE_TTL_MS" using Cons.prems(2) by simp
  show ?case
  proof (cases "guessed x jti now token s \<and> \<not> is_error r")
    case True
    then show ?thesis using sessions_none [OF st(2) rest st(3) [OF True]] by (simp add: c l)
  next
    case False
    then show ?thesis using Cons.IH [OF st(2) rest] by (auto simp: c l)
  qed
qed simp

section \<open>Recovery codes\<close>

lemma first_match_Some:
  "first_match ar p n hs = Some i \<Longrightarrow> n \<le> i \<and> i < n + length hs \<and> verifyArgon ar (hs ! (i - n)) p"
proof (induction hs arbitrary: n)
  case (Cons h hs)
  then show ?case by (fastforce split: if_splits simp: Suc_diff_le not_less_eq_eq nth_Cons')
qed simp

lemma first_match_None: "first_match ar p n hs = None \<longleftrightarrow> (\<forall>h \<in> set hs. \<not> verifyArgon ar h p)"
  by (induction hs arbitrary: n) auto

definition hash_codes :: "argon \<Rightarrow> (nat \<Rightarrow> string) \<Rightarrow> string list \<Rightarrow> string list" where
  "hash_codes ar salts cs = map (\<lambda>(k, c). ar_hash ar (salts k) c) (List.enumerate 0 cs)"

lemma hash_codes_nth: "i < length cs \<Longrightarrow> hash_codes ar salts cs ! i = ar_hash ar (salts i) (cs ! i)"
  by (simp add: hash_codes_def nth_enumerate_eq)

lemma verify_code:
  "argon_correct ar \<Longrightarrow> i < length cs \<Longrightarrow> verifyArgon ar (hash_codes ar salts cs ! i) p \<longleftrightarrow> cs ! i = p"
  by (simp add: hash_codes_nth verifyArgon_def argon_correct_def)

lemma length_hash_codes [simp]: "length (hash_codes ar salts cs) = length cs"
  by (simp add: hash_codes_def)

definition hashed_as :: "argon \<Rightarrow> string \<Rightarrow> string \<Rightarrow> bool" where
  "hashed_as ar h c \<longleftrightarrow> (\<forall>p. verifyArgon ar h p \<longleftrightarrow> c = p)"

lemma hash_codes_all2: "argon_correct ar \<Longrightarrow> list_all2 (hashed_as ar) (hash_codes ar salts cs) cs"
  by (simp add: list_all2_conv_all_nth hashed_as_def verify_code)

lemma hashed_member: "list_all2 (hashed_as ar) hs cs \<Longrightarrow> (\<exists>h \<in> set hs. verifyArgon ar h p) \<longleftrightarrow> p \<in> set cs"
  by (induction rule: list_all2_induct) (auto simp: hashed_as_def)

lemma remaining_codes:
  assumes "argon_correct ar" "distinct cs" "i < length cs"
  shows "(\<exists>h \<in> set (take i (hash_codes ar salts cs) @ drop (Suc i) (hash_codes ar salts cs)). verifyArgon ar h p) \<longleftrightarrow>
    p \<in> set cs \<and> p \<noteq> cs ! i"
proof -
  have "list_all2 (hashed_as ar) (take i (hash_codes ar salts cs) @ drop (Suc i) (hash_codes ar salts cs))
      (take i cs @ drop (Suc i) cs)"
    by (intro list_all2_appendI list_all2_takeI list_all2_dropI hash_codes_all2 assms(1))
  then have "(\<exists>h \<in> set (take i (hash_codes ar salts cs) @ drop (Suc i) (hash_codes ar salts cs)). verifyArgon ar h p) \<longleftrightarrow>
    p \<in> set (take i cs @ drop (Suc i) cs)" by (rule hashed_member)
  also have "\<dots> \<longleftrightarrow> p \<in> set cs \<and> p \<noteq> cs ! i"
  proof -
    have cs: "cs = take i cs @ cs ! i # drop (Suc i) cs" using assms(3) by (rule id_take_nth_drop)
    have "distinct (take i cs @ cs ! i # drop (Suc i) cs)" using assms(2) cs by simp
    moreover have "set cs = set (take i cs) \<union> {cs ! i} \<union> set (drop (Suc i) cs)"
      by (subst cs) auto
    ultimately show ?thesis by auto
  qed
  finally show ?thesis .
qed

lemma consume_user:
  assumes "user_by_id (us_id u) s = Some u" "consumeRecoveryCode ar u code s = (True, s1)"
    "us_totp_recovery_codes u = Some hs"
  shows "\<exists>i. first_match ar (canonical code) 0 hs = Some i \<and>
    user_by_id (us_id u) s1 = Some (u\<lparr>us_totp_recovery_codes := Some (take i hs @ drop (Suc i) hs)\<rparr>)"
proof -
  from assms(2,3) obtain i where i: "first_match ar (canonical code) 0 hs = Some i"
    "s1 = set_user (us_id u) (\<lambda>r. r\<lparr>us_totp_recovery_codes := Some (take i hs @ drop (Suc i) hs)\<rparr>) s"
    by (auto simp: consumeRecoveryCode_def Let_def split: if_splits option.splits)
  with assms(1) show ?thesis
    by (intro exI [of _ i]) (simp add: set_user_def user_by_id_key urow.by_key_update)
qed

section \<open>Addresses of administrators\<close>

lemma record_audit_settings [simp]:
  "app_admin_ips (record_audit ok i now e s) = app_admin_ips s"
  "admin_ip_cache (record_audit ok i now e s) = admin_ip_cache s"
  by (simp_all add: record_audit_def)

lemma finish_login_session:
  assumes "finish_login x ok i now path failed cl rs = (Inr (SessionCookie t u), s')"
  shows "fst rs = Inr (t, u)"
    "pb_is_admin u \<Longrightarrow> ipAllowed (fst (effective (lg_config x) now (snd rs))) (ci_ip cl)"
proof -
  obtain r s where rs: "rs = (r, s)" by (cases rs)
  from assms rs obtain tu where r: "r = Inr tu" by (cases r) (auto simp: finish_login_def)
  obtain t' u' where tu: "tu = (t', u')" by (cases tu)
  obtain q s1 where q: "assertLoginAllowed x now u' (ci_ip cl) s = (q, s1)" by (cases "assertLoginAllowed x now u' (ci_ip cl) s")
  from assms rs r tu q have tu': "t' = t" "u' = u" "\<not> is_error q"
    by (cases q; auto simp: finish_login_def)+
  then show "fst rs = Inr (t, u)" by (simp add: rs r tu)
  assume "pb_is_admin u"
  with q tu' have "fst (assertAllowed (lg_config x) now (ci_ip cl) s) = Inr ()"
    by (cases q) (auto simp: assertLoginAllowed_def)
  then show "ipAllowed (fst (effective (lg_config x) now (snd rs))) (ci_ip cl)"
    by (simp add: rs assertAllowed_iff)
qed

lemma loginTotp_settings:
  assumes "loginTotp x now token code s = (r, s1)"
  shows "app_admin_ips s1 = app_admin_ips s" "admin_ip_cache s1 = admin_ip_cache s"
proof -
  have v: "app_admin_ips s2 = app_admin_ips s'" "admin_ip_cache s2 = admin_ip_cache s'"
    if "totp_verifyLogin cr ar tv now u code s' = (q, s2)" for cr ar tv u s' q s2
    using that by (auto simp: totp_verifyLogin_def consumeRecoveryCode_def set_user_def Let_def
        split: if_splits sum.splits option.splits prod.splits)
  have c: "app_admin_ips s' = app_admin_ips s" "admin_ip_cache s' = admin_ip_cache s"
    if "consumeAttempt now j s = (ok, s')" for j ok s'
    using that by (auto simp: consumeAttempt_def Let_def split: if_splits prod.splits)
  show "app_admin_ips s1 = app_admin_ips s" "admin_ip_cache s1 = admin_ip_cache s"
    using assms c v
    by (auto simp: loginTotp_def burnChallenge_def Let_def split: if_splits sum.splits option.splits prod.splits)
qed

section \<open>A token library with the laws\<close>

instance json :: countable
  by countable_datatype

text \<open>A token is the number of its secret, payload and expiry, in decimal.\<close>

definition sample_jwt :: jwt_lib where
  "sample_jwt =
     \<lparr>jw_sign = (\<lambda>k p e. show_nat (to_nat (k, p, e))),
      jw_verify = (\<lambda>k now t. case from_nat (digits_value t) of (k', p, e) \<Rightarrow>
         if k' = k \<and> now < e then Some p else None)\<rparr>"

lemma sample_jwt_laws: "jwt_correct sample_jwt" "jwt_separate sample_jwt"
  by (simp_all add: jwt_correct_def jwt_separate_def sample_jwt_def)

definition sample_env :: login_env where
  "sample_env =
     \<lparr>lg_config = sample_config, lg_jwt = sample_jwt, lg_crypto = sample_crypto, lg_argon = sample_argon,
      lg_totp = (\<lambda>now secret token. Some (token = ''123456'')), lg_session_ms = 1000\<rparr>"

section \<open>Theorems\<close>





text \<open>
  A recovery code works once: after it has been accepted, the same code is refused, and
  every other stored code is still accepted. The stored hashes are those of distinct codes
  in canonical form.
\<close>

theorem recovery_code_once:
  assumes "argon_correct ar" "distinct cs" "us_totp_recovery_codes u = Some (hash_codes ar salts cs)"
    "user_by_id (us_id u) s = Some u" "consumeRecoveryCode ar u code s = (True, s1)"
  shows "\<exists>u1. user_by_id (us_id u) s1 = Some u1 \<and> \<not> fst (consumeRecoveryCode ar u1 code s1) \<and>
    (\<forall>c. canonical c \<in> set cs \<and> canonical c \<noteq> canonical code \<and> canonical c \<noteq> [] \<longrightarrow> fst (consumeRecoveryCode ar u1 c s1))"
proof -
  let ?hs = "hash_codes ar salts cs"
  from consume_user [OF assms(4,5,3)] obtain i where i: "first_match ar (canonical code) 0 ?hs = Some i"
    and u1: "user_by_id (us_id u) s1 = Some (u\<lparr>us_totp_recovery_codes := Some (take i ?hs @ drop (Suc i) ?hs)\<rparr>)"
    by blast
  have il: "i < length cs" and ci: "cs ! i = canonical code"
    using first_match_Some [OF i] verify_code [OF assms(1), of i cs salts] by simp_all
  let ?rest = "take i ?hs @ drop (Suc i) ?hs"
  have rest: "(\<exists>h \<in> set ?rest. verifyArgon ar h p) \<longleftrightarrow> p \<in> set cs \<and> p \<noteq> canonical code" for p
    using remaining_codes [OF assms(1,2) il, of salts p] by (simp add: ci)
  have "first_match ar (canonical code) 0 ?rest = None" 
    using rest [of "canonical code"] by (subst first_match_None) blast
  then have "\<not> fst (consumeRecoveryCode ar (u\<lparr>us_totp_recovery_codes := Some ?rest\<rparr>) code s1)"
    by (simp add: consumeRecoveryCode_def Let_def)
  moreover have "fst (consumeRecoveryCode ar (u\<lparr>us_totp_recovery_codes := Some ?rest\<rparr>) c s1)"
    if c: "canonical c \<in> set cs" "canonical c \<noteq> canonical code" "canonical c \<noteq> []" for c
  proof -
    have ex: "\<exists>h \<in> set ?rest. verifyArgon ar h (canonical c)" using rest c by simp
    then obtain k where "first_match ar (canonical c) 0 ?rest = Some k"
      using first_match_None [of ar "canonical c" 0 ?rest] by fastforce
    moreover have "?rest \<noteq> []" using ex by (metis empty_iff empty_set)
    ultimately show ?thesis using c(3) by (simp add: consumeRecoveryCode_def Let_def del: append_is_Nil_conv)
  qed
  ultimately show ?thesis using u1 by blast
qed

theorem recovery_code_once_witness:
  "let u = (sample_account ''u1'' ''a@x'' False)\<lparr>us_totp_recovery_codes := Some (hash_codes sample_argon (\<lambda>_. ''s'') [''aa'', ''bb''])\<rparr>;
       s = empty_server\<lparr>users := [u]\<rparr>
   in \<exists>u1. user_by_id ''u1'' (snd (consumeRecoveryCode sample_argon u ''a-a'' s)) = Some u1 \<and>
     \<not> fst (consumeRecoveryCode sample_argon u1 ''a-a'' (snd (consumeRecoveryCode sample_argon u ''a-a'' s)))"
proof -
  let ?u = "(sample_account ''u1'' ''a@x'' False)\<lparr>us_totp_recovery_codes := Some (hash_codes sample_argon (\<lambda>_. ''s'') [''aa'', ''bb''])\<rparr>"
  let ?s = "empty_server\<lparr>users := [?u]\<rparr>"
  have c: "canonical ''a-a'' = ''aa''" by code_simp
  let ?r = "consumeRecoveryCode sample_argon ?u ''a-a'' ?s"
  have id: "us_id ?u = ''u1''" by (simp add: sample_account_def)
  have u: "user_by_id (us_id ?u) ?s = Some ?u" by (simp add: user_by_id_def select_first_def)
  have "fst ?r"
    by (simp add: consumeRecoveryCode_def hash_codes_def c sample_argon_def verifyArgon_def)
  then have r: "?r = (True, snd ?r)" by (simp add: prod_eq_iff)
  have "\<exists>u1. user_by_id (us_id ?u) (snd ?r) = Some u1 \<and> \<not> fst (consumeRecoveryCode sample_argon u1 ''a-a'' (snd ?r))"
    using recovery_code_once [OF sample_argon_correct _ _ u r, of "[''aa'', ''bb'']" "\<lambda>_. ''s''"] by auto
  then show ?thesis unfolding Let_def id .
qed

text \<open>A challenge token is no session, and a session token no challenge.\<close>

theorem challenge_is_no_session:
  assumes "jwt_separate (lg_jwt x)"
  shows "is_error (fromJwt (lg_config x) (lg_jwt x) now (jw_sign (lg_jwt x) (challengeSecret x) p e) s) \<and>
    is_error (read_challenge x now (jw_sign (lg_jwt x) (cf_jwt_secret (lg_config x)) p e))"
proof -
  have "challengeSecret x \<noteq> cf_jwt_secret (lg_config x)" by (simp add: challengeSecret_def)
  with assms show ?thesis by (simp add: fromJwt_def read_challenge_def jwt_separate_def)
qed

end
