(* ===== verification/Base64.thy ===== *)
theory Base64
  imports Prelude
begin

text \<open>
  Base64 as Node's \<open>Buffer\<close> writes and reads it, used for the public keys of passkeys, the
  segments of an id token and the random texts of a login (\<open>Buffer.toString('base64')\<close>,
  \<open>Buffer.from(text, 'base64')\<close> and their \<open>base64url\<close> variants): the writer pads with \<open>=\<close> or,
  for \<open>base64url\<close>, not at all; the reader takes both alphabets, skips other characters and
  ends at a padding sign. The lemmas show that what was written reads back.
\<close>

definition b64_alphabet :: string where
  "b64_alphabet = ''ABCDEFGHIJKLMNOPQRSTUVWXYZabcdefghijklmnopqrstuvwxyz0123456789+/''"

definition b64url_alphabet :: string where
  "b64url_alphabet = ''ABCDEFGHIJKLMNOPQRSTUVWXYZabcdefghijklmnopqrstuvwxyz0123456789-_''"

definition byte :: "char \<Rightarrow> nat" where
  "byte c = of_char c"

text \<open>The 6-bit groups of a byte sequence.\<close>

fun sextets :: "string \<Rightarrow> nat list" where
  "sextets [] = []"
| "sextets [a] = [byte a div 4, byte a mod 4 * 16]"
| "sextets [a, b] = [byte a div 4, byte a mod 4 * 16 + byte b div 16, byte b mod 16 * 4]"
| "sextets (a # b # c # cs) =
     [byte a div 4, byte a mod 4 * 16 + byte b div 16, byte b mod 16 * 4 + byte c div 64, byte c mod 64] @ sextets cs"

definition b64_padding :: "string \<Rightarrow> string" where
  "b64_padding s = (if length s mod 3 = 0 then '''' else if length s mod 3 = 1 then ''=='' else ''='')"

definition to_base64 :: "string \<Rightarrow> string" where
  "to_base64 s = map ((!) b64_alphabet) (sextets s) @ b64_padding s"

definition to_base64url :: "string \<Rightarrow> string" where
  "to_base64url s = map ((!) b64url_alphabet) (sextets s)"

fun index_of :: "'a \<Rightarrow> 'a list \<Rightarrow> nat option" where
  "index_of x [] = None"
| "index_of x (y # ys) = (if x = y then Some 0 else map_option Suc (index_of x ys))"

definition b64_value :: "char \<Rightarrow> nat option" where
  "b64_value c = (case index_of c b64_alphabet of Some n \<Rightarrow> Some n | None \<Rightarrow> index_of c b64url_alphabet)"

fun b64_values :: "string \<Rightarrow> nat list" where
  "b64_values [] = []"
| "b64_values (c # cs) =
     (if c = CHR ''='' then [] else case b64_value c of Some n \<Rightarrow> n # b64_values cs | None \<Rightarrow> b64_values cs)"

fun from_sextets :: "nat list \<Rightarrow> string" where
  "from_sextets (p # q # r # t # ns) =
     [char_of (p * 4 + q div 16), char_of (q mod 16 * 16 + r div 4), char_of (r mod 4 * 64 + t)] @ from_sextets ns"
| "from_sextets [p, q, r] = [char_of (p * 4 + q div 16), char_of (q mod 16 * 16 + r div 4)]"
| "from_sextets [p, q] = [char_of (p * 4 + q div 16)]"
| "from_sextets _ = []"

definition from_base64 :: "string \<Rightarrow> string" where
  "from_base64 s = from_sextets (b64_values s)"

section \<open>Round trip\<close>

lemma byte_less: "byte c < 256"
  by (simp add: byte_def)

lemma char_of_byte [simp]: "char_of (byte c) = c"
  by (simp add: byte_def)

lemma join_bits:
  "(n::nat) div 4 * 4 + n mod 4 = n" "(n::nat) div 16 * 16 + n mod 16 = n" "(n::nat) div 64 * 64 + n mod 64 = n"
  by simp_all

lemma from_sextets_sextets: "from_sextets (sextets s) = s"
proof (induction s rule: sextets.induct)
  case (4 a b c cs)
  have "byte b div 16 < 16" "byte c div 64 < 4" using byte_less [of b] byte_less [of c] by simp_all
  then have "(byte a mod 4 * 16 + byte b div 16) div 16 = byte a mod 4"
    "(byte a mod 4 * 16 + byte b div 16) mod 16 = byte b div 16"
    "(byte b mod 16 * 4 + byte c div 64) div 4 = byte b mod 16"
    "(byte b mod 16 * 4 + byte c div 64) mod 4 = byte c div 64"
    by simp_all
  with 4 show ?case by (simp add: join_bits)
next
  case (3 a b)
  have "byte b div 16 < 16" using byte_less [of b] by simp
  then have "(byte a mod 4 * 16 + byte b div 16) div 16 = byte a mod 4"
    "(byte a mod 4 * 16 + byte b div 16) mod 16 = byte b div 16" by simp_all
  then show ?case by (simp add: join_bits)
qed (simp_all add: join_bits)

lemma sextets_bound: "n \<in> set (sextets s) \<Longrightarrow> n < 64"
proof (induction s rule: sextets.induct)
  case (4 a b c cs)
  have "byte b div 16 < 16" "byte c div 64 < 4" "byte a div 4 < 64" using byte_less [of a] byte_less [of b] byte_less [of c] by simp_all
  moreover have "byte a mod 4 \<le> 3" "byte b mod 16 \<le> 15" "byte c mod 64 < 64" by simp_all
  ultimately show ?case using 4 by (auto simp: less_Suc_eq_le)
next
  case (3 a b)
  have "byte b div 16 < 16" "byte a div 4 < 64" using byte_less [of a] byte_less [of b] by simp_all
  moreover have "byte a mod 4 \<le> 3" "byte b mod 16 \<le> 15" by simp_all
  ultimately show ?case using 3 by (auto simp: less_Suc_eq_le)
next
  case (2 a)
  have "byte a div 4 < 64" "byte a mod 4 \<le> 3" using byte_less [of a] by simp_all
  then show ?case using 2 by auto
qed simp

lemma alphabets_read: "list_all (\<lambda>n. b64_value (b64_alphabet ! n) = Some n \<and> b64_value (b64url_alphabet ! n) = Some n \<and>
    b64_alphabet ! n \<noteq> CHR ''='' \<and> b64url_alphabet ! n \<noteq> CHR ''='') [0..<64]"
  by code_simp

lemma b64_value_nth:
  assumes "n < 64"
  shows "b64_value (b64_alphabet ! n) = Some n" "b64_value (b64url_alphabet ! n) = Some n"
    "b64_alphabet ! n \<noteq> CHR ''=''" "b64url_alphabet ! n \<noteq> CHR ''=''"
  using alphabets_read assms by (simp_all add: list_all_iff)

lemma b64_values_append:
  "(\<And>n. n \<in> set ns \<Longrightarrow> b64_value (f n) = Some n \<and> f n \<noteq> CHR ''='') \<Longrightarrow>
   b64_values (map f ns @ rest) = ns @ b64_values rest"
  by (induction ns) simp_all

lemma b64_values_padding [simp]: "b64_values (b64_padding s) = []"
  by (simp add: b64_padding_def)

theorem base64_roundtrip: "from_base64 (to_base64 s) = s"
  using b64_values_append [of "sextets s" "(!) b64_alphabet" "b64_padding s"] sextets_bound [of _ s] b64_value_nth
  by (simp add: from_base64_def to_base64_def from_sextets_sextets)

theorem base64url_roundtrip: "from_base64 (to_base64url s) = s"
  using b64_values_append [of "sextets s" "(!) b64url_alphabet" "[]"] sextets_bound [of _ s] b64_value_nth
  by (simp add: from_base64_def to_base64url_def from_sextets_sextets)

end
