(* ===== verification/Passkeys.thy ===== *)
theory Passkeys
  imports Login Base64
begin

text \<open>
  Passkeys: \<open>server/src/auth/passkeys.service.ts\<close> and the passkey routes of
  \<open>server/src/auth/auth.controller.ts\<close>. The two verification functions of
  \<open>@simplewebauthn/server\<close> are the record \<open>webauthn_lib\<close>; the random challenge of a ceremony and
  the id of a new row are arguments. A browser's response is a JSON value.
  The lemmas show what a passkey login rests on, that the two kinds of challenge are not
  interchangeable, and how an account's passkeys come and go.
\<close>

section \<open>The library\<close>

text \<open>What the library is told about a stored credential, and what it reports of a new one.\<close>

record stored_key =
  sk_id :: string
  sk_public_key :: string
  sk_counter :: nat
  sk_transports :: "string list"

record registration_info =
  ri_id :: string
  ri_public_key :: string
  ri_counter :: nat
  ri_transports :: "string list option"
  ri_device_type :: string
  ri_backed_up :: bool

text \<open>
  The ceremonies: response, expected challenge, expected origins and relying party (and the
  credential). \<open>Inl\<close> is a thrown error; the verdict comes with the registration data, or with
  the new counter.
\<close>

record webauthn_lib =
  wl_registration :: "json \<Rightarrow> string \<Rightarrow> string list \<Rightarrow> string \<Rightarrow> string + (bool \<times> registration_info option)"
  wl_authentication :: "json \<Rightarrow> string \<Rightarrow> string list \<Rightarrow> string \<Rightarrow> stored_key \<Rightarrow> string + (bool \<times> nat)"

section \<open>Challenges\<close>

definition RP_NAME :: string where
  "RP_NAME = ''Amber Backup''"

definition rpID :: "config \<Rightarrow> string" where
  "rpID cfg = cf_webauthn_rp_id cfg"

definition origins :: "config \<Rightarrow> string list" where
  "origins cfg = cf_webauthn_origins cfg"

definition webauthn_secret :: "config \<Rightarrow> string" where
  "webauthn_secret cfg = cf_jwt_secret cfg @ ''::webauthn''"

definition signChallenge :: "login_env \<Rightarrow> time \<Rightarrow> claims \<Rightarrow> string" where
  "signChallenge x now payload = jw_sign (lg_jwt x) (webauthn_secret (lg_config x)) payload (now + 300000)"

definition readChallenge :: "login_env \<Rightarrow> time \<Rightarrow> string option \<Rightarrow> claims result" where
  "readChallenge x now token =
     (case token of
        None \<Rightarrow> Inl (BadRequest ''Missing WebAuthn challenge'')
      | Some t \<Rightarrow>
          if t = [] then Inl (BadRequest ''Missing WebAuthn challenge'')
          else case jw_verify (lg_jwt x) (webauthn_secret (lg_config x)) now t of
            None \<Rightarrow> Inl (BadRequest (''WebAuthn challenge expired '' @ em_dash @ '' try again''))
          | Some p \<Rightarrow> Inr p)"

definition reg_claims :: "uuid \<Rightarrow> string \<Rightarrow> claims" where
  "reg_claims i challenge = [(''sub'', JStr i), (''challenge'', JStr challenge), (''kind'', JStr ''reg'')]"

definition auth_claims :: "string \<Rightarrow> claims" where
  "auth_claims challenge = [(''challenge'', JStr challenge), (''kind'', JStr ''auth'')]"

definition claim_text :: "claims \<Rightarrow> string \<Rightarrow> string" where
  "claim_text p k = (case map_of p k of Some (JStr t) \<Rightarrow> t | _ \<Rightarrow> [])"

section \<open>Registration\<close>

record registration_options =
  op_rp_name :: string
  op_rp_id :: string
  op_user_name :: string
  op_user_id :: string
  op_challenge :: string
  op_exclude :: "(string \<times> string list) list"

definition passkeys_of :: "uuid \<Rightarrow> server \<Rightarrow> webauthn_credential list" where
  "passkeys_of i s = select_where (\<lambda>c. wa_user_id c = i) (webauthn_credentials s)"

definition registrationOptions ::
  "login_env \<Rightarrow> string \<Rightarrow> time \<Rightarrow> uuid \<Rightarrow> string \<Rightarrow> server \<Rightarrow> (registration_options \<times> string) result" where
  "registrationOptions x challenge now i email s =
     (if (case user_by_id i s of None \<Rightarrow> False | Some u \<Rightarrow> us_auth_source u \<noteq> AsLocal)
      then Inl (BadRequest ''Passkeys are only available for local (password) accounts'')
      else Inr (\<lparr>op_rp_name = RP_NAME, op_rp_id = rpID (lg_config x), op_user_name = email, op_user_id = i,
                 op_challenge = challenge,
                 op_exclude = map (\<lambda>c. (wa_credential_id c, wa_transports c)) (passkeys_of i s)\<rparr>,
                signChallenge x now (reg_claims i challenge)))"

definition passkey_name :: "string option \<Rightarrow> string" where
  "passkey_name n = take 64 (case n of None \<Rightarrow> ''Passkey'' | Some t \<Rightarrow> if trim t = [] then ''Passkey'' else trim t)"

record public_passkey =
  pp_id :: uuid
  pp_name :: string
  pp_device_type :: "string option"
  pp_backed_up :: bool
  pp_last_used_at :: "time option"

definition public_passkey_of :: "webauthn_credential \<Rightarrow> public_passkey" where
  "public_passkey_of c =
     \<lparr>pp_id = wa_id c, pp_name = wa_name c, pp_device_type = wa_device_type c, pp_backed_up = wa_backed_up c,
      pp_last_used_at = wa_last_used_at c\<rparr>"

text \<open>The insertion fails on a credential id that is stored already, or without the account.\<close>

definition insert_passkey ::
  "uuid \<Rightarrow> uuid \<Rightarrow> string option \<Rightarrow> registration_info \<Rightarrow> server \<Rightarrow> public_passkey result \<times> server" where
  "insert_passkey row_id i nm info s =
     (if user_by_id i s = None
      then (Inl (PlainError ''violates foreign key constraint''), s)
      else if list_ex (\<lambda>c. wa_credential_id c = ri_id info) (webauthn_credentials s)
      then (Inl (PlainError ''duplicate key value violates unique constraint''), s)
      else let row = \<lparr>wa_id = row_id, wa_user_id = i, wa_credential_id = ri_id info,
                      wa_public_key = to_base64 (ri_public_key info), wa_counter = ri_counter info,
                      wa_transports = (case ri_transports info of None \<Rightarrow> [] | Some ts \<Rightarrow> ts),
                      wa_device_type = Some (ri_device_type info), wa_backed_up = ri_backed_up info,
                      wa_name = passkey_name nm, wa_last_used_at = None\<rparr>
           in (Inr (public_passkey_of row), s\<lparr>webauthn_credentials := insert_row row (webauthn_credentials s)\<rparr>))"

definition verifyRegistration ::
  "login_env \<Rightarrow> webauthn_lib \<Rightarrow> uuid \<Rightarrow> time \<Rightarrow> uuid \<Rightarrow> string option \<Rightarrow> json \<Rightarrow> string option \<Rightarrow> server
    \<Rightarrow> public_passkey result \<times> server" where
  "verifyRegistration x w row_id now i token response nm s =
     (case readChallenge x now token of
        Inl e \<Rightarrow> (Inl e, s)
      | Inr p \<Rightarrow>
          if map_of p ''kind'' \<noteq> Some (JStr ''reg'') \<or> map_of p ''sub'' \<noteq> Some (JStr i)
          then (Inl (BadRequest ''Invalid WebAuthn challenge''), s)
          else case wl_registration w response (claim_text p ''challenge'') (origins (lg_config x)) (rpID (lg_config x)) of
            Inl msg \<Rightarrow> (Inl (BadRequest msg), s)
          | Inr (verified, info) \<Rightarrow>
              (case info of
                 None \<Rightarrow> (Inl (BadRequest ''Passkey registration could not be verified''), s)
               | Some ri \<Rightarrow>
                   if \<not> verified then (Inl (BadRequest ''Passkey registration could not be verified''), s)
                   else insert_passkey row_id i nm ri s))"

section \<open>Authentication\<close>

definition authenticationOptions :: "login_env \<Rightarrow> string \<Rightarrow> time \<Rightarrow> string \<times> string \<times> string" where
  "authenticationOptions x challenge now =
     (rpID (lg_config x), challenge, signChallenge x now (auth_claims challenge))"

definition passkey_by_credential :: "server \<Rightarrow> json \<Rightarrow> webauthn_credential option" where
  "passkey_by_credential s response =
     (case json_field response ''id'' of
        Some (JStr k) \<Rightarrow> select_first (\<lambda>c. wa_credential_id c = k) (webauthn_credentials s)
      | _ \<Rightarrow> None)"

definition stored_key_of :: "webauthn_credential \<Rightarrow> stored_key" where
  "stored_key_of c =
     \<lparr>sk_id = wa_credential_id c, sk_public_key = from_base64 (wa_public_key c), sk_counter = wa_counter c,
      sk_transports = wa_transports c\<rparr>"

definition verifyAuthentication ::
  "login_env \<Rightarrow> webauthn_lib \<Rightarrow> time \<Rightarrow> string option \<Rightarrow> json \<Rightarrow> server \<Rightarrow> uuid result \<times> server" where
  "verifyAuthentication x w now token response s =
     (case readChallenge x now token of
        Inl e \<Rightarrow> (Inl e, s)
      | Inr p \<Rightarrow>
          if map_of p ''kind'' \<noteq> Some (JStr ''auth'') then (Inl (BadRequest ''Invalid WebAuthn challenge''), s)
          else case passkey_by_credential s response of
            None \<Rightarrow> (Inl (Unauthorized ''Unrecognized passkey''), s)
          | Some c \<Rightarrow>
              (case wl_authentication w response (claim_text p ''challenge'') (origins (lg_config x))
                      (rpID (lg_config x)) (stored_key_of c) of
                 Inl msg \<Rightarrow> (Inl (Unauthorized msg), s)
               | Inr (verified, new_counter) \<Rightarrow>
                   if \<not> verified then (Inl (Unauthorized ''Passkey verification failed''), s)
                   else (Inr (wa_user_id c),
                         s\<lparr>webauthn_credentials := update_where (\<lambda>r. wa_id r = wa_id c)
                             (\<lambda>r. r\<lparr>wa_counter := new_counter, wa_last_used_at := Some now\<rparr>)
                             (webauthn_credentials s)\<rparr>)))"

section \<open>Management\<close>

definition list_passkeys :: "uuid \<Rightarrow> server \<Rightarrow> public_passkey list" where
  "list_passkeys i s = map public_passkey_of (passkeys_of i s)"

definition remove_passkey :: "uuid \<Rightarrow> uuid \<Rightarrow> server \<Rightarrow> server" where
  "remove_passkey i row_id s =
     s\<lparr>webauthn_credentials := delete_where (\<lambda>c. wa_id c = row_id \<and> wa_user_id c = i) (webauthn_credentials s)\<rparr>"

section \<open>Routes\<close>

definition WEBAUTHN_REG_COOKIE :: string where
  "WEBAUTHN_REG_COOKIE = ''amber_wa_reg''"

definition WEBAUTHN_AUTH_COOKIE :: string where
  "WEBAUTHN_AUTH_COOKIE = ''amber_wa_auth''"

definition readCookie :: "(string \<times> string) list \<Rightarrow> string \<Rightarrow> string option" where
  "readCookie cookies nm = map_of cookies nm"

text \<open>The reply of the options routes comes with the cookie they set.\<close>

definition passkeyRegisterOptions ::
  "login_env \<Rightarrow> string \<Rightarrow> time \<Rightarrow> request_user \<Rightarrow> server \<Rightarrow> (registration_options \<times> (string \<times> string)) result" where
  "passkeyRegisterOptions x challenge now user s =
     (case registrationOptions x challenge now (ru_id user) (ru_email user) s of
        Inl e \<Rightarrow> Inl e
      | Inr (opts, t) \<Rightarrow> Inr (opts, (WEBAUTHN_REG_COOKIE, t)))"

definition passkeyRegisterVerify ::
  "login_env \<Rightarrow> webauthn_lib \<Rightarrow> uuid \<Rightarrow> time \<Rightarrow> request_user \<Rightarrow> (string \<times> string) list \<Rightarrow> json \<Rightarrow> string option \<Rightarrow> server
    \<Rightarrow> public_passkey result \<times> server" where
  "passkeyRegisterVerify x w row_id now user cookies response nm s =
     verifyRegistration x w row_id now (ru_id user) (readCookie cookies WEBAUTHN_REG_COOKIE) response nm s"

definition passkeyLoginOptions ::
  "login_env \<Rightarrow> string \<Rightarrow> time \<Rightarrow> server \<Rightarrow> ((string \<times> string) \<times> (string \<times> string)) result" where
  "passkeyLoginOptions x challenge now s =
     (case assertLocalLoginEnabled s of
        Inl e \<Rightarrow> Inl e
      | Inr _ \<Rightarrow> (case authenticationOptions x challenge now of
                    (rp, ch, t) \<Rightarrow> Inr ((rp, ch), (WEBAUTHN_AUTH_COOKIE, t))))"

definition passkey_session ::
  "login_env \<Rightarrow> webauthn_lib \<Rightarrow> time \<Rightarrow> (string \<times> string) list \<Rightarrow> json \<Rightarrow> server \<Rightarrow> (string \<times> public_user) result \<times> server" where
  "passkey_session x w now cookies response s =
     (case assertLocalLoginEnabled s of
        Inl e \<Rightarrow> (Inl e, s)
      | Inr _ \<Rightarrow>
          (case verifyAuthentication x w now (readCookie cookies WEBAUTHN_AUTH_COOKIE) response s of
             (Inl e, s1) \<Rightarrow> (Inl e, s1)
           | (Inr i, s1) \<Rightarrow> (issueForUser x now i s1, s1)))"

definition passkeyLoginVerify ::
  "login_env \<Rightarrow> webauthn_lib \<Rightarrow> bool \<Rightarrow> uuid \<Rightarrow> time \<Rightarrow> (string \<times> string) list \<Rightarrow> json \<Rightarrow> client_info \<Rightarrow> server
    \<Rightarrow> login_reply result \<times> server" where
  "passkeyLoginVerify x w db_ok i now cookies response cl s =
     finish_login x db_ok i now ''/api/auth/passkeys/login/verify''
       (\<lambda>st. failed_entry None ''Failed passkey login'' ''POST'' ''/api/auth/passkeys/login/verify'' st None cl) cl
       (passkey_session x w now cookies response s)"

section \<open>What a passkey login rests on\<close>

text \<open>The proof a login gives: a challenge of ours, a stored credential and the library's verdict.\<close>

definition passkey_proof :: "login_env \<Rightarrow> webauthn_lib \<Rightarrow> time \<Rightarrow> string option \<Rightarrow> json \<Rightarrow> server \<Rightarrow> webauthn_credential \<Rightarrow> bool" where
  "passkey_proof x w now token response s c \<longleftrightarrow>
     (\<exists>p n. readChallenge x now token = Inr p \<and> map_of p ''kind'' = Some (JStr ''auth'') \<and>
        passkey_by_credential s response = Some c \<and>
        wl_authentication w response (claim_text p ''challenge'') (origins (lg_config x)) (rpID (lg_config x))
          (stored_key_of c) = Inr (True, n))"

lemma verifyAuthentication_ok:
  assumes "verifyAuthentication x w now token response s = (Inr i, s1)"
  obtains c where "passkey_proof x w now token response s c" "wa_user_id c = i"
    "users s1 = users s" "app_admin_ips s1 = app_admin_ips s" "admin_ip_cache s1 = admin_ip_cache s"
proof -
  from assms obtain p where p: "readChallenge x now token = Inr p" "map_of p ''kind'' = Some (JStr ''auth'')"
    by (auto simp: verifyAuthentication_def split: sum.splits if_splits)
  with assms obtain c where c: "passkey_by_credential s response = Some c"
    by (auto simp: verifyAuthentication_def split: option.splits)
  with assms p obtain n where n: "wl_authentication w response (claim_text p ''challenge'') (origins (lg_config x))
      (rpID (lg_config x)) (stored_key_of c) = Inr (True, n)" "wa_user_id c = i"
    and s1: "users s1 = users s" "app_admin_ips s1 = app_admin_ips s" "admin_ip_cache s1 = admin_ip_cache s"
    by (auto simp: verifyAuthentication_def split: sum.splits if_splits)
  show thesis by (rule that [of c]) (use p c n s1 in \<open>auto simp: passkey_proof_def\<close>)
qed

lemma passkey_by_credential_in: "passkey_by_credential s response = Some c \<Longrightarrow> c \<in> set (webauthn_credentials s)"
  by (auto simp: passkey_by_credential_def select_first_def find_Some_iff split: option.splits json.splits)

lemma issueForUser_account:
  assumes "issueForUser x now i s = Inr (t, pu)"
  shows "\<exists>u. user_by_id i s = Some u \<and> \<not> us_disabled u \<and> pu = toPublic u"
proof -
  from assms obtain u where u: "user_by_id i s = Some u" "\<not> us_disabled u"
    "issue x now (us_id u) (us_email u) (us_is_admin u) s = Inr (t, pu)"
    by (auto simp: issueForUser_def findByIdRaw_def split: option.splits if_splits)
  moreover have "us_id u = i" using user_by_idD [OF u(1)] by simp
  ultimately show ?thesis using issue_token(2) [OF u(3)] by (simp add: findById_def)
qed

text \<open>The allowlist in force depends only on the settings row, its cache and the configuration.\<close>

lemma effective_same:
  "app_admin_ips s1 = app_admin_ips s \<Longrightarrow> admin_ip_cache s1 = admin_ip_cache s \<Longrightarrow>
   fst (effective cfg now s1) = fst (effective cfg now s)"
  by (simp add: effective_def storedEntries_def Let_def split: option.splits)

lemma passkey_session_ok:
  assumes "passkey_session x w now cookies response s = (Inr (t, pu), s1)"
  shows "getLocalLoginEnabled s \<and> app_admin_ips s1 = app_admin_ips s \<and> admin_ip_cache s1 = admin_ip_cache s \<and>
    (\<exists>c u. c \<in> set (webauthn_credentials s) \<and>
      passkey_proof x w now (readCookie cookies WEBAUTHN_AUTH_COOKIE) response s c \<and>
      user_by_id (wa_user_id c) s = Some u \<and> \<not> us_disabled u \<and> pu = toPublic u)"
proof -
  from assms obtain i where a: "getLocalLoginEnabled s"
    "verifyAuthentication x w now (readCookie cookies WEBAUTHN_AUTH_COOKIE) response s = (Inr i, s1)"
    "issueForUser x now i s1 = Inr (t, pu)"
    by (auto simp: passkey_session_def assertLocalLoginEnabled_def split: sum.splits prod.splits if_splits)
  from a(2) show ?thesis
  proof (rule verifyAuthentication_ok)
    fix c assume c: "passkey_proof x w now (readCookie cookies WEBAUTHN_AUTH_COOKIE) response s c" "wa_user_id c = i"
      "users s1 = users s" "app_admin_ips s1 = app_admin_ips s" "admin_ip_cache s1 = admin_ip_cache s"
    have "c \<in> set (webauthn_credentials s)" using c(1) by (auto simp: passkey_proof_def dest: passkey_by_credential_in)
    moreover obtain u where "user_by_id i s1 = Some u" "\<not> us_disabled u" "pu = toPublic u"
      using issueForUser_account [OF a(3)] by blast
    ultimately show ?thesis using a(1) c by (auto simp: user_by_id_def)
  qed
qed

lemma passkey_login_session:
  assumes "passkeyLoginVerify x w db_ok i now cookies response cl s = (Inr (SessionCookie t pu), s')"
  shows "getLocalLoginEnabled s \<and>
    (\<exists>c u. c \<in> set (webauthn_credentials s) \<and>
      passkey_proof x w now (readCookie cookies WEBAUTHN_AUTH_COOKIE) response s c \<and>
      user_by_id (wa_user_id c) s = Some u \<and> \<not> us_disabled u \<and> pu = toPublic u) \<and>
    (pb_is_admin pu \<longrightarrow> ipAllowed (fst (effective (lg_config x) now s)) (ci_ip cl))"
proof -
  obtain r s1 where r: "passkey_session x w now cookies response s = (r, s1)"
    by (cases "passkey_session x w now cookies response s")
  note f = finish_login_session [OF assms [unfolded passkeyLoginVerify_def]]
  have "passkey_session x w now cookies response s = (Inr (t, pu), s1)" using f(1) r by simp
  note ok = passkey_session_ok [OF this]
  then show ?thesis using f(2) r effective_same [of s1 s "lg_config x" now] by auto
qed

section \<open>A registered key\<close>

lemma insert_passkey_ok:
  assumes "insert_passkey row_id i nm info s = (Inr pk, s1)"
  shows "\<exists>row. s1 = s\<lparr>webauthn_credentials := insert_row row (webauthn_credentials s)\<rparr> \<and>
    wa_id row = row_id \<and> wa_user_id row = i \<and> wa_credential_id row = ri_id info \<and>
    stored_key_of row = \<lparr>sk_id = ri_id info, sk_public_key = ri_public_key info, sk_counter = ri_counter info,
      sk_transports = (case ri_transports info of None \<Rightarrow> [] | Some ts \<Rightarrow> ts)\<rparr> \<and>
    pk = public_passkey_of row \<and> length (wa_name row) \<le> 64 \<and>
    (\<forall>c \<in> set (webauthn_credentials s). wa_credential_id c \<noteq> ri_id info)"
  using assms
  by (auto simp: insert_passkey_def Let_def stored_key_of_def base64_roundtrip passkey_name_def list_ex_iff split: if_splits)

lemma find_inserted:
  assumes "\<forall>c \<in> set rows. \<not> P c" "P row"
  shows "select_first P (insert_row row rows) = Some row"
  using assms by (induction rows) (simp_all add: select_first_def insert_row_def)

text \<open>What the registered authenticator's data look like to the library.\<close>

definition registered_key :: "registration_info \<Rightarrow> stored_key" where
  "registered_key info =
     \<lparr>sk_id = ri_id info, sk_public_key = ri_public_key info, sk_counter = ri_counter info,
      sk_transports = (case ri_transports info of None \<Rightarrow> [] | Some ts \<Rightarrow> ts)\<rparr>"

lemma authenticate_registered:
  assumes "jwt_correct (lg_jwt x)" "jwt_not_key (lg_jwt x)"
    "insert_passkey row_id i nm info s = (Inr pk, s1)"
    "json_field response ''id'' = Some (JStr (ri_id info))" "now < t0 + 300000"
    "wl_authentication w response ch (origins (lg_config x)) (rpID (lg_config x)) (registered_key info) = Inr (True, n)"
  shows "fst (verifyAuthentication x w now (Some (signChallenge x t0 (auth_claims ch))) response s1) = Inr i"
proof -
  from insert_passkey_ok [OF assms(3)] obtain row where
    row: "s1 = s\<lparr>webauthn_credentials := insert_row row (webauthn_credentials s)\<rparr>" "wa_user_id row = i"
      "wa_credential_id row = ri_id info" "stored_key_of row = registered_key info"
      "\<forall>c \<in> set (webauthn_credentials s). wa_credential_id c \<noteq> ri_id info"
    by (auto simp: registered_key_def)
  have "select_first (\<lambda>c. wa_credential_id c = ri_id info) (insert_row row (webauthn_credentials s)) = Some row"
    by (rule find_inserted) (use row in simp_all)
  then have "passkey_by_credential s1 response = Some row"
    using row(1) assms(4) by (simp add: passkey_by_credential_def)
  with assms row show ?thesis
    by (simp add: verifyAuthentication_def readChallenge_def signChallenge_def jwt_not_key_def jwt_correct_def
        auth_claims_def claim_text_def)
qed

section \<open>Theorems\<close>

text \<open>
  C25: A passkey login that ends in a session rests on all of this: local login is on, the
  browser returned an unexpired sign-in challenge of this server, the response names a stored
  credential and the library verified it against that credential's key, the session is for
  the enabled account owning the credential, and an administrator's address is allowed.
\<close>

theorem passkey_login_sound:
  assumes "passkeyLoginVerify x w db_ok i now cookies response cl s = (Inr (SessionCookie t pu), s')"
  shows "getLocalLoginEnabled s \<and>
    (\<exists>c u. c \<in> set (webauthn_credentials s) \<and>
      passkey_proof x w now (readCookie cookies WEBAUTHN_AUTH_COOKIE) response s c \<and>
      user_by_id (wa_user_id c) s = Some u \<and> \<not> us_disabled u \<and> pu = toPublic u) \<and>
    (pb_is_admin pu \<longrightarrow> ipAllowed (fst (effective (lg_config x) now s)) (ci_ip cl))"
  using assms by (rule passkey_login_session)

text \<open>A library that accepts every response, a stored passkey and a browser with a challenge.\<close>

definition sample_webauthn :: webauthn_lib where
  "sample_webauthn =
     \<lparr>wl_registration = (\<lambda>_ _ _ _. Inr (True, Some \<lparr>ri_id = ''cred'', ri_public_key = ''key'', ri_counter = 0,
        ri_transports = None, ri_device_type = ''singleDevice'', ri_backed_up = False\<rparr>)),
      wl_authentication = (\<lambda>_ _ _ _ _. Inr (True, 1))\<rparr>"

definition passkey_server :: server where
  "passkey_server = empty_server\<lparr>users := [sample_account ''u1'' ''a@x'' False],
     webauthn_credentials := [\<lparr>wa_id = ''w1'', wa_user_id = ''u1'', wa_credential_id = ''cred'',
       wa_public_key = to_base64 ''key'', wa_counter = 0, wa_transports = [], wa_device_type = None,
       wa_backed_up = False, wa_name = ''Passkey'', wa_last_used_at = None\<rparr>]\<rparr>"

definition passkey_cookies :: "(string \<times> string) list" where
  "passkey_cookies = [(WEBAUTHN_AUTH_COOKIE, signChallenge sample_env 0 (auth_claims ''ch''))]"

lemma sample_challenge_read: "readChallenge sample_env 5 (readCookie passkey_cookies WEBAUTHN_AUTH_COOKIE) = Inr (auth_claims ''ch'')"
  using sample_jwt_laws(1)
  by (simp add: readChallenge_def readCookie_def passkey_cookies_def signChallenge_def sample_env_def sample_jwt_def jwt_correct_def)

theorem passkey_login_sound_witness:
  "\<exists>t pu s'. passkeyLoginVerify sample_env sample_webauthn True ''e1'' 5 passkey_cookies (JObj [(''id'', JStr ''cred'')])
      \<lparr>ci_ip = None, ci_user_agent = None\<rparr> passkey_server = (Inr (SessionCookie t pu), s') \<and>
    (\<exists>c u. c \<in> set (webauthn_credentials passkey_server) \<and> user_by_id (wa_user_id c) passkey_server = Some u \<and> pu = toPublic u)"
proof -
  let ?resp = "JObj [(''id'', JStr ''cred'')]" and ?cl = "\<lparr>ci_ip = None, ci_user_agent = None\<rparr>"
  let ?r = "passkeyLoginVerify sample_env sample_webauthn True ''e1'' 5 passkey_cookies ?resp ?cl passkey_server"
  have u: "user_by_id ''u1'' (passkey_server\<lparr>webauthn_credentials := cs\<rparr>) = Some (sample_account ''u1'' ''a@x'' False)" for cs
    by (simp add: passkey_server_def user_by_id_def select_first_def sample_account_def)
  have "\<exists>cs. verifyAuthentication sample_env sample_webauthn 5 (readCookie passkey_cookies WEBAUTHN_AUTH_COOKIE) ?resp passkey_server
      = (Inr ''u1'', passkey_server\<lparr>webauthn_credentials := cs\<rparr>)"
    by (simp add: verifyAuthentication_def sample_challenge_read auth_claims_def passkey_by_credential_def passkey_server_def
        select_first_def sample_webauthn_def) (rule exI, rule refl)
  then obtain cs where v: "verifyAuthentication sample_env sample_webauthn 5 (readCookie passkey_cookies WEBAUTHN_AUTH_COOKIE) ?resp passkey_server
      = (Inr ''u1'', passkey_server\<lparr>webauthn_credentials := cs\<rparr>)" by blast
  have on: "getLocalLoginEnabled passkey_server" by (simp add: getLocalLoginEnabled_def passkey_server_def empty_server_def)
  have a: "us_id (sample_account ''u1'' ''a@x'' False) = ''u1''" "\<not> us_disabled (sample_account ''u1'' ''a@x'' False)"
    "\<not> pb_is_admin (toPublic (sample_account ''u1'' ''a@x'' False))"
    by (simp_all add: sample_account_def toPublic_def)
  obtain t where i: "issueForUser sample_env 5 ''u1'' (passkey_server\<lparr>webauthn_credentials := cs\<rparr>) =
      Inr (t, toPublic (sample_account ''u1'' ''a@x'' False))"
    using a(1,2) by (simp add: issueForUser_def findByIdRaw_def u issue_def findById_def Let_def)
  obtain s' where r: "?r = (Inr (SessionCookie t (toPublic (sample_account ''u1'' ''a@x'' False))), s')"
    using a(3) by (simp add: passkeyLoginVerify_def passkey_session_def assertLocalLoginEnabled_def on v i
        finish_login_def assertLoginAllowed_def)
  then show ?thesis using passkey_login_sound [OF r] by blast
qed

text \<open>
  The two ceremonies do not mix: a registration challenge never completes a sign-in, a
  sign-in challenge never a registration, a registration challenge no other account's
  registration; and neither is a session, nor is a session token a challenge.
\<close>

theorem challenges_not_interchangeable:
  assumes "jwt_correct (lg_jwt x)" "jwt_separate (lg_jwt x)"
  shows "is_error (fst (verifyAuthentication x w now (Some (signChallenge x t (reg_claims i ch))) response s)) \<and>
    is_error (fst (verifyRegistration x w row_id now j (Some (signChallenge x t (auth_claims ch))) response nm s)) \<and>
    (i \<noteq> j \<longrightarrow> is_error (fst (verifyRegistration x w row_id now j (Some (signChallenge x t (reg_claims i ch))) response nm s))) \<and>
    is_error (fromJwt (lg_config x) (lg_jwt x) now (signChallenge x t p) s) \<and>
    is_error (readChallenge x now (Some (jw_sign (lg_jwt x) (cf_jwt_secret (lg_config x)) p e)))"
proof -
  have "webauthn_secret (lg_config x) \<noteq> cf_jwt_secret (lg_config x)" by (simp add: webauthn_secret_def)
  with assms(2) have sep: "is_error (fromJwt (lg_config x) (lg_jwt x) now (signChallenge x t p) s)"
    "is_error (readChallenge x now (Some (jw_sign (lg_jwt x) (cf_jwt_secret (lg_config x)) p e)))"
    by (simp_all add: fromJwt_def readChallenge_def signChallenge_def jwt_separate_def)
  have rd: "readChallenge x now (Some (signChallenge x t q)) = Inr q \<or> is_error (readChallenge x now (Some (signChallenge x t q)))" for q
    using assms(1) by (simp add: readChallenge_def signChallenge_def jwt_correct_def)
  have kinds: "is_error (fst (verifyAuthentication x w now (Some (signChallenge x t (reg_claims i ch))) response s))"
    "is_error (fst (verifyRegistration x w row_id now j (Some (signChallenge x t (auth_claims ch))) response nm s))"
    "i \<noteq> j \<Longrightarrow> is_error (fst (verifyRegistration x w row_id now j (Some (signChallenge x t (reg_claims i ch))) response nm s))"
    using rd [of "reg_claims i ch"] rd [of "auth_claims ch"]
    by (auto simp: verifyAuthentication_def verifyRegistration_def reg_claims_def auth_claims_def is_error_def split: sum.splits)
  show ?thesis using kinds sep by blast
qed

theorem challenges_not_interchangeable_witness:
  "is_error (fst (verifyAuthentication sample_env w 3 (Some (signChallenge sample_env 0 (reg_claims ''u1'' ''c''))) JNull empty_server))"
  using challenges_not_interchangeable [of sample_env w 3 0 "''u1''" "''c''" JNull empty_server]
  by (simp add: sample_env_def sample_jwt_laws)

text \<open>
  A registered passkey signs its owner in: a later response naming the credential, which
  the library accepts for the key it reported at registration (the stored Base64 text reads
  back as that key), authenticates the registering account; once removed, it is not recognised.
\<close>

theorem registered_passkey_authenticates:
  assumes "jwt_correct (lg_jwt x)" "jwt_not_key (lg_jwt x)"
    "verifyRegistration x w row_id now0 i token reg nm s = (Inr pk, s1)"
    "wl_registration w reg (claim_text p ''challenge'') (origins (lg_config x)) (rpID (lg_config x)) = Inr (True, Some info)"
    "readChallenge x now0 token = Inr p"
    "json_field response ''id'' = Some (JStr (ri_id info))" "now < t0 + 300000"
    "wl_authentication w response ch (origins (lg_config x)) (rpID (lg_config x)) (registered_key info) = Inr (True, n)"
    "row_id \<notin> wa_id ` set (webauthn_credentials s)"
  shows "fst (verifyAuthentication x w now (Some (signChallenge x t0 (auth_claims ch))) response s1) = Inr i \<and>
    verifyAuthentication x w now (Some (signChallenge x t0 (auth_claims ch))) response (remove_passkey i row_id s1) =
      (Inl (Unauthorized ''Unrecognized passkey''), remove_passkey i row_id s1) \<and>
    webauthn_credentials (remove_passkey i row_id s1) = webauthn_credentials s"
proof -
  from assms(3-5) have ins: "insert_passkey row_id i nm info s = (Inr pk, s1)"
    by (auto simp: verifyRegistration_def split: if_splits)
  from insert_passkey_ok [OF this] obtain row where row: "wa_id row = row_id" "wa_user_id row = i"
    "webauthn_credentials s1 = insert_row row (webauthn_credentials s)"
    "\<forall>c \<in> set (webauthn_credentials s). wa_credential_id c \<noteq> ri_id info"
    by auto
  have gone: "webauthn_credentials (remove_passkey i row_id s1) = webauthn_credentials s"
  proof -
    have "filter (\<lambda>c. \<not> (wa_id c = row_id \<and> wa_user_id c = i)) (webauthn_credentials s) = webauthn_credentials s"
      using assms(9) by (auto simp: filter_id_conv)
    then show ?thesis using row by (simp add: remove_passkey_def delete_where_def insert_row_def)
  qed
  have "passkey_by_credential (remove_passkey i row_id s1) response = None"
    using row(4) assms(6) by (auto simp: passkey_by_credential_def select_first_def gone find_None_iff)
  then have "verifyAuthentication x w now (Some (signChallenge x t0 (auth_claims ch))) response (remove_passkey i row_id s1) =
      (Inl (Unauthorized ''Unrecognized passkey''), remove_passkey i row_id s1)"
    using assms(1,2,7)
    by (simp add: verifyAuthentication_def readChallenge_def signChallenge_def jwt_not_key_def jwt_correct_def auth_claims_def)
  then show ?thesis using authenticate_registered [OF assms(1,2) ins assms(6-8)] gone by blast
qed

text \<open>
  Passkeys are for local accounts only, but that is checked when the ceremony begins: an
  account moved to SSO before the answer arrives still gets its passkey.
\<close>

theorem switched_account_gets_passkey:
  assumes "jwt_correct (lg_jwt x)" "jwt_not_key (lg_jwt x)"
    "registrationOptions x ch t0 i email s = Inr (opts, token)"
    "update_user ar salt gen i dto s = (Inr pu, s1)" "uu_auth_source dto = Some SrcSso"
    "now < t0 + 300000"
    "wl_registration w reg ch (origins (lg_config x)) (rpID (lg_config x)) = Inr (True, Some info)"
    "\<forall>c \<in> set (webauthn_credentials s1). wa_credential_id c \<noteq> ri_id info"
  shows "\<exists>u1. user_by_id i s1 = Some u1 \<and> us_auth_source u1 \<noteq> AsLocal \<and>
    (\<exists>pk. fst (verifyRegistration x w row_id now i (Some token) reg nm s1) = Inr pk)"
proof -
  have token: "token = signChallenge x t0 (reg_claims i ch)"
    using assms(3) by (auto simp: registrationOptions_def split: if_splits)
  from assms(4) obtain patch s0 where chk: "update_check ar salt gen i dto s = (Inr patch, s0)"
    and com: "update_commit i patch s0 = (Inr pu, s1)"
    by (auto simp: update_user_def split: prod.splits sum.splits)
  from chk obtain u where u: "user_by_id i s = Some u"
    by (cases "user_by_id i s") (simp_all add: update_check_def)
  have patch: "patch = update_patch ar salt dto (us_auth_source u = AsLocal) False" "uu_password dto = None"
    using chk u assms(5) by (auto simp: update_check_def Let_def split: if_splits)
  have us0: "users s0 = users s" using update_check_users [of ar salt gen i dto s] chk by simp
  have s1: "s1 = s0\<lparr>users := update_where (\<lambda>u. us_id u = i) patch (users s0)\<rparr>"
    using snd_update_commit [of i patch s0] com by simp
  have id: "us_id u = i" using user_by_idD [OF u] by simp
  have u1: "user_by_id i s1 = Some (patch u)"
    using u id unfolding s1 us0 patch(1) by (simp add: user_by_id_key urow.by_key_update)
  moreover have "us_auth_source (patch u) \<noteq> AsLocal"
    using patch(2) by (simp add: patch(1) update_patch_def switch_patch_def set_if_def drop_local_factors_def Let_def plain_patch_def split: option.splits)
  moreover have "\<exists>pk. fst (verifyRegistration x w row_id now i (Some token) reg nm s1) = Inr pk"
    using assms(1,2,6-8) u1
    by (simp add: verifyRegistration_def readChallenge_def token signChallenge_def jwt_not_key_def jwt_correct_def
        reg_claims_def claim_text_def insert_passkey_def Let_def list_ex_iff)
  ultimately show ?thesis by blast
qed

end
