(* ===== verification/Sso.thy ===== *)
theory Sso
  imports Passkeys
begin

text \<open>
  Signing in through an identity provider: \<open>server/src/auth/sso.service.ts\<close> and the callback
  route of \<open>server/src/auth/auth.controller.ts\<close>. The network, \<open>JSON.parse\<close> and the public-key
  functions of the platform are the record \<open>sso_world\<close>; the answer to a request may depend on
  when in the callback it is made (its first argument). Documents of a provider stay JSON
  values, since the code does not validate them. The two caches of the service are
  \<open>sso_caches\<close>.
  The lemmas show which id tokens are accepted, which account an asserted identity leads to,
  and that no local account is reached this way.
\<close>

section \<open>The world of a provider\<close>

record http_call =
  hc_url :: string
  hc_method :: string
  hc_headers :: "(string \<times> string) list"
  hc_form :: "(string \<times> string) list"

text \<open>\<open>None\<close>: the request failed; otherwise \<open>res.ok\<close> and the body, \<open>None\<close> if it is not JSON.\<close>

type_synonym fetched = "(bool \<times> json option) option"

datatype key_options = PssDigestSalt | IeeeP1363 | PlainKey

record sso_world =
  sw_fetch :: "nat \<Rightarrow> http_call \<Rightarrow> fetched"
  sw_json :: "string \<Rightarrow> json option"
  sw_public_key :: "json \<Rightarrow> bool"
  sw_verify :: "string \<Rightarrow> string \<Rightarrow> key_options \<Rightarrow> json \<Rightarrow> string \<Rightarrow> bool option"
  sw_sha256 :: "string \<Rightarrow> string"
  sw_gen :: "nat \<Rightarrow> string"

record sso_caches =
  discoveryCache :: "(string \<times> json) list"
  jwksCache :: "(string \<times> json) list"

definition get_call :: "string \<Rightarrow> http_call" where
  "get_call url = \<lparr>hc_url = url, hc_method = ''GET'', hc_headers = [], hc_form = []\<rparr>"

text \<open>The body of a response, with the error for a status that is not ok.\<close>

definition body_or :: "error \<Rightarrow> fetched \<Rightarrow> json result" where
  "body_or e r =
     (case r of
        None \<Rightarrow> Inl (PlainError ''fetch failed'')
      | Some (ok, body) \<Rightarrow>
          if \<not> ok then Inl e
          else (case body of None \<Rightarrow> Inl (PlainError ''Unexpected token in JSON'') | Some j \<Rightarrow> Inr j))"

text \<open>Reading a property: of \<open>null\<close> it throws, absent it is \<open>undefined\<close>.\<close>

definition member_of :: "json \<Rightarrow> string \<Rightarrow> json option result" where
  "member_of j k =
     (if j = JNull then Inl (PlainError ''Cannot read properties of null'') else Inr (json_field j k))"

definition js_text :: "json option \<Rightarrow> string" where
  "js_text v = (case v of None \<Rightarrow> ''undefined'' | Some j \<Rightarrow> js_string j)"

text \<open>\<open>===\<close>: two objects are never the same value.\<close>

fun compound :: "json \<Rightarrow> bool" where
  "compound (JArr _) = True"
| "compound (JObj _) = True"
| "compound _ = False"

definition strict_eq :: "json option \<Rightarrow> json option \<Rightarrow> bool" where
  "strict_eq a b \<longleftrightarrow> a = b \<and> (case a of Some j \<Rightarrow> \<not> compound j | None \<Rightarrow> True)"

section \<open>Providers\<close>

fun DEFAULT_LABEL :: "sso_provider_type \<Rightarrow> string" where
  "DEFAULT_LABEL PtOidc = ''SSO''"
| "DEFAULT_LABEL PtEntra = ''Microsoft''"
| "DEFAULT_LABEL PtGoogle = ''Google''"
| "DEFAULT_LABEL PtGithub = ''GitHub''"

definition isConfigured :: "resolved_provider \<Rightarrow> bool" where
  "isConfigured p =
     (if rv_client_id p = [] \<or> rv_client_secret p = [] then False
      else if rv_type p = PtOidc then rv_issuer_url p \<noteq> []
      else if rv_type p = PtEntra then rv_tenant_id p \<noteq> []
      else True)"

definition provider_label :: "resolved_provider \<Rightarrow> string" where
  "provider_label p = (if rv_label p = [] then DEFAULT_LABEL (rv_type p) else rv_label p)"

definition listProviders :: "crypto \<Rightarrow> sso_world \<Rightarrow> server \<Rightarrow> (string \<times> string) list result" where
  "listProviders cr w s =
     (case getResolvedSso cr (sw_gen w) s of
        Inl e \<Rightarrow> Inl e
      | Inr (enabled, ps) \<Rightarrow>
          Inr (if \<not> enabled then [] else map (\<lambda>p. (rv_id p, provider_label p)) (filter isConfigured ps)))"

definition resolveProvider :: "crypto \<Rightarrow> sso_world \<Rightarrow> json option \<Rightarrow> server \<Rightarrow> resolved_provider result" where
  "resolveProvider cr w i s =
     (case getResolvedSso cr (sw_gen w) s of
        Inl e \<Rightarrow> Inl e
      | Inr (enabled, ps) \<Rightarrow>
          if \<not> enabled then Inl (BadRequest ''SSO is disabled'')
          else case find (\<lambda>p. i = Some (JStr (rv_id p))) ps of
            None \<Rightarrow> Inl (BadRequest (''SSO provider '' @ quote @ js_text i @ quote @ '' is not available''))
          | Some p \<Rightarrow>
              if isConfigured p then Inr p
              else Inl (BadRequest (''SSO provider '' @ quote @ js_text i @ quote @ '' is not available'')))"

definition issuerFor :: "resolved_provider \<Rightarrow> string result" where
  "issuerFor p =
     (case rv_type p of
        PtOidc \<Rightarrow> Inr (rv_issuer_url p)
      | PtEntra \<Rightarrow> Inr (''https://login.microsoftonline.com/'' @ rv_tenant_id p @ ''/v2.0'')
      | PtGoogle \<Rightarrow> Inr ''https://accounts.google.com''
      | PtGithub \<Rightarrow> Inl (BadRequest (''Provider '' @ quote @ ''github'' @ quote @ '' is not OIDC'')))"

text \<open>A cached value counts if it is truthy.\<close>

definition cached :: "string \<Rightarrow> (string \<times> json) list \<Rightarrow> json option" where
  "cached k m = (case map_of m k of Some v \<Rightarrow> if truthy v then Some v else None | None \<Rightarrow> None)"

definition discover :: "sso_world \<Rightarrow> string \<Rightarrow> sso_caches \<Rightarrow> json result \<times> sso_caches" where
  "discover w issuer c =
     (case cached issuer (discoveryCache c) of
        Some doc \<Rightarrow> (Inr doc, c)
      | None \<Rightarrow>
          (case body_or (BadRequest ''OIDC discovery failed'')
                  (sw_fetch w 0 (get_call (strip_one_slash issuer @ ''/.well-known/openid-configuration''))) of
             Inl e \<Rightarrow> (Inl e, c)
           | Inr d \<Rightarrow> (Inr d, c\<lparr>discoveryCache := map_set issuer d (discoveryCache c)\<rparr>)))"

definition redirectUri :: "config \<Rightarrow> string" where
  "redirectUri cfg = strip_one_slash (cf_public_base_url cfg) @ ''/api/auth/callback''"

section \<open>Starting a login\<close>

text \<open>\<open>URLSearchParams.toString()\<close>.\<close>

definition form_encode :: "string \<Rightarrow> string" where
  "form_encode s =
     concat (map (\<lambda>c. if is_alnum c \<or> c \<in> set ''*-._'' then [c]
                      else if c = CHR '' '' then ''+''
                      else let n = of_char c :: nat in [CHR ''%'', Backends.hex_digit (n div 16), Backends.hex_digit (n mod 16)]) s)"

definition query_string :: "(string \<times> string) list \<Rightarrow> string" where
  "query_string kvs = join_with ''&'' (map (\<lambda>(k, v). form_encode k @ ''='' @ form_encode v) kvs)"

text \<open>The claims of the state cookie; \<open>bytes\<close> are the three random texts, already in base64url.\<close>

definition state_claims :: "string \<Rightarrow> string \<times> string \<times> string \<Rightarrow> claims" where
  "state_claims provider_id r =
     (case r of (verifier, state, nonce) \<Rightarrow>
        [(''providerId'', JStr provider_id), (''state'', JStr state), (''verifier'', JStr verifier), (''nonce'', JStr nonce)])"

definition startLogin ::
  "login_env \<Rightarrow> sso_world \<Rightarrow> string \<times> string \<times> string \<Rightarrow> time \<Rightarrow> string \<Rightarrow> sso_caches \<Rightarrow> server
    \<Rightarrow> (string \<times> string) result \<times> sso_caches" where
  "startLogin x w bytes now provider_id c s =
     (case resolveProvider (lg_crypto x) w (Some (JStr provider_id)) s of
        Inl e \<Rightarrow> (Inl e, c)
      | Inr p \<Rightarrow>
          (case bytes of (verifier0, state0, nonce0) \<Rightarrow>
           let verifier = to_base64url verifier0;
               challenge = to_base64url (sw_sha256 w verifier);
               state = to_base64url state0;
               nonce = to_base64url nonce0;
               cookie = jw_sign (lg_jwt x) (cf_jwt_secret (lg_config x))
                          (state_claims provider_id (verifier, state, nonce)) (now + 600000)
           in if rv_type p = PtGithub
              then (Inr (''https://github.com/login/oauth/authorize?'' @
                         query_string [(''client_id'', rv_client_id p), (''redirect_uri'', redirectUri (lg_config x)),
                                       (''scope'', ''read:user user:email''), (''state'', state)], cookie), c)
              else case issuerFor p of
                Inl e \<Rightarrow> (Inl e, c)
              | Inr issuer \<Rightarrow>
                  (case discover w issuer c of
                     (Inl e, c1) \<Rightarrow> (Inl e, c1)
                   | (Inr disco, c1) \<Rightarrow>
                       (case member_of disco ''authorization_endpoint'' of
                          Inl e \<Rightarrow> (Inl e, c1)
                        | Inr ep \<Rightarrow>
                            (Inr (js_text ep @ ''?'' @
                                  query_string [(''client_id'', rv_client_id p), (''response_type'', ''code''),
                                    (''scope'', ''openid email profile''), (''redirect_uri'', redirectUri (lg_config x)),
                                    (''state'', state), (''nonce'', nonce), (''code_challenge'', challenge),
                                    (''code_challenge_method'', ''S256'')], cookie), c1)))))"

section \<open>Signatures of id tokens\<close>

definition ID_TOKEN_ALGS :: "(string \<times> string) list" where
  "ID_TOKEN_ALGS =
     [(''RS256'', ''sha256''), (''RS384'', ''sha384''), (''RS512'', ''sha512''),
      (''PS256'', ''sha256''), (''PS384'', ''sha384''), (''PS512'', ''sha512''),
      (''ES256'', ''sha256''), (''ES384'', ''sha384''), (''ES512'', ''sha512'')]"

text \<open>
  The table is a plain object, so the names every object inherits are found in it too, with
  values that are no digest names (and make the signature function throw).
\<close>

definition inherited_names :: "string list" where
  "inherited_names =
     [''constructor'', ''__defineGetter__'', ''__defineSetter__'', ''hasOwnProperty'', ''__lookupGetter__'',
      ''__lookupSetter__'', ''isPrototypeOf'', ''propertyIsEnumerable'', ''toString'', ''valueOf'', ''__proto__'',
      ''toLocaleString'']"

definition key_options_for :: "string \<Rightarrow> key_options" where
  "key_options_for alg =
     (if starts_with ''PS'' alg then PssDigestSalt else if starts_with ''ES'' alg then IeeeP1363 else PlainKey)"

definition key_verifies :: "sso_world \<Rightarrow> string \<Rightarrow> string \<Rightarrow> string \<Rightarrow> string \<Rightarrow> json \<Rightarrow> bool" where
  "key_verifies w alg digest msg signature jwk =
     (sw_public_key w jwk \<and> sw_verify w digest msg (key_options_for alg) jwk signature = Some True)"

definition has_kid :: "string \<Rightarrow> json \<Rightarrow> bool" where
  "has_kid kid jwk \<longleftrightarrow> json_field jwk ''kid'' = Some (JStr kid)"

definition verifyWithKeys ::
  "sso_world \<Rightarrow> json list \<Rightarrow> string option \<Rightarrow> string \<Rightarrow> string option \<Rightarrow> string \<Rightarrow> string \<Rightarrow> bool" where
  "verifyWithKeys w ks kid alg digest msg signature =
     (let named = (case kid of Some k \<Rightarrow> if k = [] then [] else filter (has_kid k) ks | None \<Rightarrow> []);
          candidates = (if named = [] then ks else named)
      in case digest of
           None \<Rightarrow> False
         | Some d \<Rightarrow> list_ex (key_verifies w alg d msg signature) candidates)"

definition parseSegment :: "sso_world \<Rightarrow> string \<Rightarrow> json result" where
  "parseSegment w segment =
     (case sw_json w (from_base64 segment) of None \<Rightarrow> Inl (Unauthorized ''Malformed id_token'') | Some j \<Rightarrow> Inr j)"

text \<open>The keys as the provider sent them, an array or not.\<close>

definition jwks :: "sso_world \<Rightarrow> string \<Rightarrow> bool \<Rightarrow> sso_caches \<Rightarrow> json result \<times> sso_caches" where
  "jwks w uri refresh c =
     (case (if refresh then None else cached uri (jwksCache c)) of
        Some ks \<Rightarrow> (Inr ks, c)
      | None \<Rightarrow>
          (case body_or (Unauthorized ''Could not fetch the provider signing keys'')
                  (sw_fetch w (if refresh then 3 else 2) (get_call uri)) of
             Inl e \<Rightarrow> (Inl e, c)
           | Inr body \<Rightarrow>
               (case member_of body ''keys'' of
                  Inl e \<Rightarrow> (Inl e, c)
                | Inr v \<Rightarrow>
                    (let ks = (case non_null v of None \<Rightarrow> JArr [] | Some k \<Rightarrow> k)
                     in (Inr ks, c\<lparr>jwksCache := map_set uri ks (jwksCache c)\<rparr>)))))"

text \<open>
  The array the code walks over. Anything else cannot be walked, and with a key id the walk
  throws on a null element.
\<close>

definition key_list :: "string option \<Rightarrow> json \<Rightarrow> json list result" where
  "key_list kid v =
     (case v of
        JArr ks \<Rightarrow>
          if kid \<noteq> None \<and> JNull \<in> set ks then Inl (PlainError ''Cannot read properties of null'') else Inr ks
      | _ \<Rightarrow> Inl (PlainError ''keys is not iterable''))"

text \<open>The keys to try: an unknown key id is worth one fresh fetch.\<close>

definition signing_keys :: "sso_world \<Rightarrow> string \<Rightarrow> string option \<Rightarrow> sso_caches \<Rightarrow> json list result \<times> sso_caches" where
  "signing_keys w uri kid c =
     (case jwks w uri False c of
        (Inl e, c1) \<Rightarrow> (Inl e, c1)
      | (Inr v, c1) \<Rightarrow>
          (case key_list kid v of
             Inl e \<Rightarrow> (Inl e, c1)
           | Inr ks \<Rightarrow>
               (case kid of
                  None \<Rightarrow> (Inr ks, c1)
                | Some k \<Rightarrow>
                    if list_ex (has_kid k) ks then (Inr ks, c1)
                    else case jwks w uri True c1 of
                      (Inl e, c2) \<Rightarrow> (Inl e, c2)
                    | (Inr v2, c2) \<Rightarrow> (key_list kid v2, c2))))"

definition text_member :: "json option \<Rightarrow> string option" where
  "text_member v = (case v of Some (JStr t) \<Rightarrow> if t = [] then None else Some t | _ \<Rightarrow> None)"

section \<open>Claims of an id token\<close>

definition CLOCK_SKEW :: int where
  "CLOCK_SKEW = 60"

definition audience_ok :: "resolved_provider \<Rightarrow> json option \<Rightarrow> bool" where
  "audience_ok p aud =
     (case aud of
        Some (JArr xs) \<Rightarrow> JStr (rv_client_id p) \<in> set xs
      | _ \<Rightarrow> aud = Some (JStr (rv_client_id p)))"

text \<open>The checks on the claims in their order; \<open>now\<close> is in milliseconds.\<close>

definition claims_error :: "resolved_provider \<Rightarrow> json \<Rightarrow> string option \<Rightarrow> time \<Rightarrow> json \<Rightarrow> error option" where
  "claims_error p disco nonce now claims =
     (let secs = now div 1000 in
      if claims = JNull then Some (PlainError ''Cannot read properties of null'')
      else if \<not> strict_eq (json_field claims ''iss'') (json_field disco ''issuer'')
      then Some (Unauthorized ''id_token issuer mismatch'')
      else if \<not> audience_ok p (json_field claims ''aud'') then Some (Unauthorized ''id_token audience mismatch'')
      else if (case json_field claims ''exp'' of Some (JNum e) \<Rightarrow> e + CLOCK_SKEW < secs | _ \<Rightarrow> True)
      then Some (Unauthorized ''id_token has expired'')
      else if (case json_field claims ''nbf'' of Some (JNum n) \<Rightarrow> n - CLOCK_SKEW > secs | _ \<Rightarrow> False)
      then Some (Unauthorized ''id_token is not valid yet'')
      else if (case nonce of Some n \<Rightarrow> n \<noteq> [] \<and> json_field claims ''nonce'' \<noteq> Some (JStr n) | None \<Rightarrow> False)
      then Some (Unauthorized ''id_token nonce mismatch'')
      else None)"

text \<open>The parts of a token: header, signed text, signature and payload segment.\<close>

record token_parts =
  tp_header :: json
  tp_alg :: string
  tp_kid :: "string option"
  tp_signed :: string
  tp_signature :: string
  tp_payload :: string

definition read_token :: "sso_world \<Rightarrow> json option \<Rightarrow> token_parts result" where
  "read_token w idToken =
     (case idToken of
        None \<Rightarrow> Inl (Unauthorized ''Missing id_token'')
      | Some (JStr t) \<Rightarrow>
          if t = [] then Inl (Unauthorized ''Missing id_token'')
          else (case split_on (CHR ''.'') t of
             [h, p, sg] \<Rightarrow>
               (case parseSegment w h of
                  Inl e \<Rightarrow> Inl e
                | Inr header \<Rightarrow>
                    (case member_of header ''alg'' of
                       Inl e \<Rightarrow> Inl e
                     | Inr a \<Rightarrow>
                         (let alg = str a in
                          if map_of ID_TOKEN_ALGS alg = None \<and> alg \<notin> set inherited_names
                          then Inl (Unauthorized (''Unsupported id_token algorithm: '' @ alg))
                          else Inr \<lparr>tp_header = header, tp_alg = alg, tp_kid = text_member (json_field header ''kid''),
                                    tp_signed = h @ ''.'' @ p, tp_signature = from_base64 sg, tp_payload = p\<rparr>)))
           | _ \<Rightarrow> Inl (Unauthorized ''Malformed id_token''))
      | Some v \<Rightarrow> if truthy v then Inl (PlainError ''idToken.split is not a function'')
                  else Inl (Unauthorized ''Missing id_token''))"

definition verifyIdToken ::
  "sso_world \<Rightarrow> time \<Rightarrow> resolved_provider \<Rightarrow> json \<Rightarrow> json option \<Rightarrow> string option \<Rightarrow> sso_caches \<Rightarrow> json result \<times> sso_caches" where
  "verifyIdToken w now p disco idToken nonce c =
     (case read_token w idToken of
        Inl e \<Rightarrow> (Inl e, c)
      | Inr tp \<Rightarrow>
          (case signing_keys w (js_text (json_field disco ''jwks_uri'')) (tp_kid tp) c of
             (Inl e, c1) \<Rightarrow> (Inl e, c1)
           | (Inr ks, c1) \<Rightarrow>
               if \<not> verifyWithKeys w ks (tp_kid tp) (tp_alg tp) (map_of ID_TOKEN_ALGS (tp_alg tp)) (tp_signed tp) (tp_signature tp)
               then (Inl (Unauthorized ''id_token signature is not valid''), c1)
               else case parseSegment w (tp_payload tp) of
                 Inl e \<Rightarrow> (Inl e, c1)
               | Inr claims \<Rightarrow>
                   (case claims_error p disco nonce now claims of
                      Some e \<Rightarrow> (Inl e, c1)
                    | None \<Rightarrow> (Inr claims, c1))))"

section \<open>Profiles\<close>

record sso_profile =
  pf_subject :: string
  pf_email :: string
  pf_name :: string
  pf_email_verified :: bool

text \<open>A name as it reaches the text column.\<close>

definition name_text :: "json \<Rightarrow> string" where
  "name_text j = (if compound j then json_text j else js_string j)"

definition oidc_claims_profile :: "resolved_provider \<Rightarrow> json \<Rightarrow> sso_profile" where
  "oidc_claims_profile p claims =
     (let email = (case json_field claims ''email'' of Some (JStr t) \<Rightarrow> t | _ \<Rightarrow> []);
          nm = (case non_null (json_field claims ''name'') of
                  Some v \<Rightarrow> name_text v
                | None \<Rightarrow> (case non_null (json_field claims ''preferred_username'') of Some v \<Rightarrow> name_text v | None \<Rightarrow> email))
      in \<lparr>pf_subject = str (json_field claims ''sub''), pf_email = email, pf_name = nm,
          pf_email_verified = (json_field claims ''email_verified'' = Some (JBool True) \<or>
            rv_type p = PtEntra \<and> json_field claims ''xms_edov'' = Some (JBool True))\<rparr>)"

definition oidc_token_call :: "config \<Rightarrow> resolved_provider \<Rightarrow> string \<Rightarrow> string \<Rightarrow> string \<Rightarrow> http_call" where
  "oidc_token_call cfg p endpoint code verifier =
     \<lparr>hc_url = endpoint, hc_method = ''POST'', hc_headers = [(''content-type'', ''application/x-www-form-urlencoded'')],
      hc_form = [(''grant_type'', ''authorization_code''), (''code'', code), (''redirect_uri'', redirectUri cfg),
                 (''client_id'', rv_client_id p), (''client_secret'', rv_client_secret p), (''code_verifier'', verifier)]\<rparr>"

definition oidcProfile ::
  "login_env \<Rightarrow> sso_world \<Rightarrow> time \<Rightarrow> resolved_provider \<Rightarrow> string \<Rightarrow> string \<Rightarrow> string option \<Rightarrow> sso_caches
    \<Rightarrow> sso_profile result \<times> sso_caches" where
  "oidcProfile x w now p code verifier nonce c =
     (case issuerFor p of
        Inl e \<Rightarrow> (Inl e, c)
      | Inr issuer \<Rightarrow>
          (case discover w issuer c of
             (Inl e, c1) \<Rightarrow> (Inl e, c1)
           | (Inr disco, c1) \<Rightarrow>
               (case member_of disco ''token_endpoint'' of
                  Inl e \<Rightarrow> (Inl e, c1)
                | Inr ep \<Rightarrow>
                    (case body_or (Unauthorized ''SSO token exchange failed'')
                            (sw_fetch w 1 (oidc_token_call (lg_config x) p (js_text ep) code verifier)) of
                       Inl e \<Rightarrow> (Inl e, c1)
                     | Inr tokens \<Rightarrow>
                         (case member_of tokens ''id_token'' of
                            Inl e \<Rightarrow> (Inl e, c1)
                          | Inr t \<Rightarrow>
                              (case verifyIdToken w now p disco t nonce c1 of
                                 (Inl e, c2) \<Rightarrow> (Inl e, c2)
                               | (Inr claims, c2) \<Rightarrow> (Inr (oidc_claims_profile p claims), c2)))))))"

definition github_token_call :: "config \<Rightarrow> resolved_provider \<Rightarrow> string \<Rightarrow> http_call" where
  "github_token_call cfg p code =
     \<lparr>hc_url = ''https://github.com/login/oauth/access_token'', hc_method = ''POST'',
      hc_headers = [(''content-type'', ''application/x-www-form-urlencoded''), (''accept'', ''application/json'')],
      hc_form = [(''client_id'', rv_client_id p), (''client_secret'', rv_client_secret p), (''code'', code),
                 (''redirect_uri'', redirectUri cfg)]\<rparr>"

definition github_call :: "string \<Rightarrow> json \<Rightarrow> http_call" where
  "github_call url token =
     \<lparr>hc_url = url, hc_method = ''GET'',
      hc_headers = [(''authorization'', ''Bearer '' @ js_string token), (''accept'', ''application/vnd.github+json''),
                    (''user-agent'', ''amber-backup'')],
      hc_form = []\<rparr>"

text \<open>\<open>es.find(f)\<close> for an \<open>f\<close> that reads members of the element.\<close>

fun find_member :: "(json \<Rightarrow> bool) \<Rightarrow> json list \<Rightarrow> json option result" where
  "find_member f [] = Inr None"
| "find_member f (e # es) =
     (if e = JNull then Inl (PlainError ''Cannot read properties of null'')
      else if f e then Inr (Some e) else find_member f es)"

definition verified_address :: "json \<Rightarrow> bool" where
  "verified_address e = truthy_field (json_field e ''verified'')"

definition primary_address :: "json \<Rightarrow> bool" where
  "primary_address e = truthy_field (json_field e ''primary'')"

definition found_address :: "json option \<Rightarrow> json option" where
  "found_address r = (case r of None \<Rightarrow> None | Some e \<Rightarrow> non_null (json_field e ''email''))"

text \<open>The first address that is primary and verified, else the first verified one.\<close>

definition chosen_email :: "json list \<Rightarrow> string result" where
  "chosen_email es =
     (case find_member (\<lambda>e. primary_address e \<and> verified_address e) es of
        Inl e \<Rightarrow> Inl e
      | Inr r \<Rightarrow>
          (case found_address r of
             Some v \<Rightarrow> Inr (js_string v)
           | None \<Rightarrow>
               (case find_member verified_address es of
                  Inl e \<Rightarrow> Inl e
                | Inr r2 \<Rightarrow> Inr (case found_address r2 of Some v \<Rightarrow> js_string v | None \<Rightarrow> []))))"

definition github_emails :: "fetched \<Rightarrow> string result" where
  "github_emails r =
     (case r of
        None \<Rightarrow> Inl (PlainError ''fetch failed'')
      | Some (ok, body) \<Rightarrow>
          if \<not> ok then Inr []
          else (case body of
             Some (JArr es) \<Rightarrow> chosen_email es
           | _ \<Rightarrow> Inl (PlainError ''emails.find is not a function'')))"

definition githubProfile ::
  "login_env \<Rightarrow> sso_world \<Rightarrow> resolved_provider \<Rightarrow> string \<Rightarrow> sso_profile result" where
  "githubProfile x w p code =
     (case body_or (Unauthorized ''SSO token exchange failed'') (sw_fetch w 1 (github_token_call (lg_config x) p code)) of
        Inl e \<Rightarrow> Inl e
      | Inr tok \<Rightarrow>
          (case member_of tok ''access_token'' of
             Inl e \<Rightarrow> Inl e
           | Inr a \<Rightarrow>
               if \<not> truthy_field a then Inl (Unauthorized ''SSO token exchange failed'')
               else case body_or (Unauthorized ''GitHub profile fetch failed'')
                           (sw_fetch w 2 (github_call ''https://api.github.com/user'' (the a))) of
                 Inl e \<Rightarrow> Inl e
               | Inr gh \<Rightarrow>
                   if gh = JNull then Inl (PlainError ''Cannot read properties of null'')
                   else (case (if str (json_field gh ''email'') \<noteq> [] then Inr (str (json_field gh ''email''))
                               else github_emails (sw_fetch w 3 (github_call ''https://api.github.com/user/emails'' (the a)))) of
                     Inl e \<Rightarrow> Inl e
                   | Inr email \<Rightarrow>
                       Inr \<lparr>pf_subject = str (json_field gh ''id''), pf_email = email,
                            pf_name = (if truthy_field (json_field gh ''name'') then str (json_field gh ''name'')
                                       else if truthy_field (json_field gh ''login'') then str (json_field gh ''login'')
                                       else email),
                            pf_email_verified = (email \<noteq> [])\<rparr>)))"

section \<open>Accounts\<close>

datatype resolved_user = LocalAccount | Account user

text \<open>\<open>new_id\<close> is the id a provisioned account gets.\<close>

definition resolveUser ::
  "argon \<Rightarrow> uuid \<Rightarrow> resolved_provider \<Rightarrow> sso_profile \<Rightarrow> server \<Rightarrow> resolved_user result \<times> server" where
  "resolveUser ar new_id p pf s =
     (case findBySsoIdentity s (rv_id p) (pf_subject pf) of
        Some u \<Rightarrow> (Inr (if us_auth_source u = AsLocal then LocalAccount else Account u), s)
      | None \<Rightarrow>
          if \<not> pf_email_verified pf
          then (Inl (Unauthorized ''The identity provider did not confirm a verified email address''), s)
          else case findByEmailRaw s (pf_email pf) of
            Some u \<Rightarrow>
              if us_auth_source u = AsLocal then (Inr LocalAccount, s)
              else (Inr (Account u), linkSsoIdentity (us_id u) (rv_id p) (pf_subject pf) s)
          | None \<Rightarrow>
              (case create_user ar [] new_id \<lparr>cu_email = pf_email pf, cu_display_name = pf_name pf, cu_password = [],
                                              cu_is_admin = None\<rparr> AsSso s of
                 (Inl e, s1) \<Rightarrow> (Inl e, s1)
               | (Inr _, s1) \<Rightarrow>
                   (case findByEmailRaw s1 (pf_email pf) of
                      None \<Rightarrow> (Inl (Unauthorized ''Failed to provision user''), s1)
                    | Some u \<Rightarrow> (Inr (Account u), linkSsoIdentity (us_id u) (rv_id p) (pf_subject pf) s1))))"

datatype refusal = Pending | LocalOnly

record callback_result =
  cr_token :: string
  cr_reason :: "refusal option"
  cr_provider :: string
  cr_email :: string
  cr_user :: "user option"

definition profile_of ::
  "login_env \<Rightarrow> sso_world \<Rightarrow> time \<Rightarrow> resolved_provider \<Rightarrow> string \<Rightarrow> claims \<Rightarrow> sso_caches \<Rightarrow> sso_profile result \<times> sso_caches" where
  "profile_of x w now p code parsed c =
     (if rv_type p = PtGithub then (githubProfile x w p code, c)
      else oidcProfile x w now p code (js_text (map_of parsed ''verifier'')) (text_member (map_of parsed ''nonce'')) c)"

text \<open>The last part of the callback: from an asserted identity to a result.\<close>

definition settle_identity ::
  "login_env \<Rightarrow> uuid \<Rightarrow> time \<Rightarrow> resolved_provider \<Rightarrow> sso_profile \<Rightarrow> server \<Rightarrow> callback_result result \<times> server" where
  "settle_identity x new_id now p pf s =
     (let refuse = (\<lambda>r. \<lparr>cr_token = [], cr_reason = Some r, cr_provider = provider_label p, cr_email = pf_email pf,
                          cr_user = None\<rparr>) in
      case resolveUser (lg_argon x) new_id p pf s of
        (Inl e, s1) \<Rightarrow> (Inl e, s1)
      | (Inr LocalAccount, s1) \<Rightarrow> (Inr (refuse LocalOnly), s1)
      | (Inr (Account u), s1) \<Rightarrow>
          if us_disabled u then (Inr (refuse Pending), s1)
          else let s2 = touchSsoIdentity now (rv_id p) (pf_subject pf) s1 in
            (case issue x now (us_id u) (us_email u) (us_is_admin u) s2 of
               Inl e \<Rightarrow> (Inl e, s2)
             | Inr (token, _) \<Rightarrow>
                 (Inr \<lparr>cr_token = token, cr_reason = None, cr_provider = provider_label p, cr_email = pf_email pf,
                       cr_user = Some u\<rparr>, s2)))"

definition handleCallback ::
  "login_env \<Rightarrow> sso_world \<Rightarrow> uuid \<Rightarrow> time \<Rightarrow> string \<Rightarrow> string option \<Rightarrow> string option \<Rightarrow> sso_caches \<Rightarrow> server
    \<Rightarrow> callback_result result \<times> sso_caches \<times> server" where
  "handleCallback x w new_id now code state cookie c s =
     (case cookie of
        None \<Rightarrow> (Inl (Unauthorized ''Missing SSO state''), c, s)
      | Some ck \<Rightarrow>
          if ck = [] then (Inl (Unauthorized ''Missing SSO state''), c, s)
          else case jw_verify (lg_jwt x) (cf_jwt_secret (lg_config x)) now ck of
            None \<Rightarrow> (Inl (Unauthorized ''Invalid SSO state''), c, s)
          | Some parsed \<Rightarrow>
              if map_of parsed ''state'' \<noteq> map_option JStr state then (Inl (Unauthorized ''SSO state mismatch''), c, s)
              else case resolveProvider (lg_crypto x) w (map_of parsed ''providerId'') s of
                Inl e \<Rightarrow> (Inl e, c, s)
              | Inr p \<Rightarrow>
                  (case profile_of x w now p code parsed c of
                     (Inl e, c1) \<Rightarrow> (Inl e, c1, s)
                   | (Inr pf, c1) \<Rightarrow>
                       if pf_subject pf = [] then (Inl (Unauthorized ''SSO response missing subject''), c1, s)
                       else if pf_email pf = [] then (Inl (Unauthorized ''SSO response missing email''), c1, s)
                       else (case settle_identity x new_id now p pf s of (r, s1) \<Rightarrow> (r, c1, s1))))"

section \<open>The callback route\<close>

datatype sso_reply = SsoSession string "user option" | SsoRefused string

fun refusal_text :: "refusal \<Rightarrow> string" where
  "refusal_text Pending = ''pending''"
| "refusal_text LocalOnly = ''local_account''"

definition sso_failed :: "nat \<Rightarrow> (string \<times> json) list \<Rightarrow> string option \<Rightarrow> client_info \<Rightarrow> audit_record" where
  "sso_failed status details email cl =
     failed_entry email ''Failed SSO login'' ''GET'' ''/api/auth/callback'' status (Some details) cl"

definition sso_login_entry :: "callback_result \<Rightarrow> client_info \<Rightarrow> audit_record" where
  "sso_login_entry r cl =
     \<lparr>ar_actor_id = map_option us_id (cr_user r), ar_actor_email = map_option us_email (cr_user r),
      ar_actor_type = ''session'', ar_actor_is_admin = map_option us_is_admin (cr_user r), ar_action = ''Log in'',
      ar_method = Some ''GET'', ar_path = Some ''/api/auth/callback'', ar_resource_type = Some ''auth'',
      ar_resource_id = None, ar_status_code = Some 302, ar_success = Some True, ar_ip = ci_ip cl,
      ar_user_agent = ci_user_agent cl, ar_details = Some [(''provider'', JStr (cr_provider r))]\<rparr>"

definition finish_callback ::
  "login_env \<Rightarrow> bool \<Rightarrow> uuid \<Rightarrow> time \<Rightarrow> client_info \<Rightarrow> callback_result result \<Rightarrow> server \<Rightarrow> sso_reply result \<times> server" where
  "finish_callback x db_ok i now cl r s =
     (case r of
        Inl e \<Rightarrow> (Inl e, record_audit db_ok i now (sso_failed (login_status e) [(''error'', JStr (error_message e))] None cl) s)
      | Inr cr \<Rightarrow>
          (case cr_reason cr of
             Some reason \<Rightarrow>
               (Inr (SsoRefused (refusal_text reason)),
                record_audit db_ok i now (sso_failed 403 [(''provider'', JStr (cr_provider cr)), (''reason'', JStr (refusal_text reason))]
                  (Some (cr_email cr)) cl) s)
           | None \<Rightarrow>
               (case (case cr_user cr of
                        Some u \<Rightarrow> if us_is_admin u then assertAllowed (lg_config x) now (ci_ip cl) s else (Inr (), s)
                      | None \<Rightarrow> (Inr (), s)) of
                  (Inl _, s1) \<Rightarrow>
                    (Inr (SsoRefused ''ip_not_allowed''),
                     record_audit db_ok i now (sso_failed 403 [(''provider'', JStr (cr_provider cr)), (''reason'', JStr ''ip_not_allowed'')]
                       (Some (cr_email cr)) cl) s1)
                | (Inr _, s1) \<Rightarrow>
                    (Inr (SsoSession (cr_token cr) (cr_user cr)), record_audit db_ok i now (sso_login_entry cr cl) s1))))"

definition OIDC_STATE_COOKIE :: string where
  "OIDC_STATE_COOKIE = ''amber_oidc''"

definition route_callback ::
  "login_env \<Rightarrow> sso_world \<Rightarrow> bool \<Rightarrow> uuid \<Rightarrow> uuid \<Rightarrow> time \<Rightarrow> string \<Rightarrow> string option \<Rightarrow> (string \<times> string) list \<Rightarrow> client_info
    \<Rightarrow> sso_caches \<Rightarrow> server \<Rightarrow> sso_reply result \<times> sso_caches \<times> server" where
  "route_callback x w db_ok i new_id now code state cookies cl c s =
     (case handleCallback x w new_id now code state (readCookie cookies OIDC_STATE_COOKIE) c s of
        (r, c1, s1) \<Rightarrow> (case finish_callback x db_ok i now cl r s1 of (rep, s2) \<Rightarrow> (rep, c1, s2)))"

text \<open>The reply of the start route: the address to go to and the state cookie.\<close>

definition route_startSso ::
  "login_env \<Rightarrow> sso_world \<Rightarrow> string \<times> string \<times> string \<Rightarrow> time \<Rightarrow> string \<Rightarrow> sso_caches \<Rightarrow> server
    \<Rightarrow> (string \<times> (string \<times> string)) result \<times> sso_caches" where
  "route_startSso x w bytes now provider c s =
     (case startLogin x w bytes now provider c s of
        (Inl e, c1) \<Rightarrow> (Inl e, c1)
      | (Inr (url, cookie), c1) \<Rightarrow> (Inr (url, (OIDC_STATE_COOKIE, cookie)), c1))"

definition route_providers :: "crypto \<Rightarrow> sso_world \<Rightarrow> server \<Rightarrow> (bool \<times> (string \<times> string) list) result" where
  "route_providers cr w s =
     (case listProviders cr w s of Inl e \<Rightarrow> Inl e | Inr ps \<Rightarrow> Inr (getLocalLoginEnabled s, ps))"

section \<open>Which account an identity leads to\<close>

lemma findBySsoIdentity_in: "findBySsoIdentity s pr sub = Some u \<Longrightarrow> u \<in> set (users s)"
  by (auto simp: findBySsoIdentity_def split: option.splits dest: user_by_idD)

lemma findByEmailRaw_in: "findByEmailRaw s e = Some u \<Longrightarrow> u \<in> set (users s)"
  by (auto simp: findByEmailRaw_def select_first_def find_Some_iff)

lemma find_append_new: "find P xs = None \<Longrightarrow> find P (xs @ [a]) = (if P a then Some a else None)"
  by (induction xs) (auto split: if_splits)

lemma created_found:
  assumes "findByEmailRaw s e = None"
  shows "findByEmailRaw (s\<lparr>users := insert_row u (users s)\<rparr>) e = (if us_email u = to_lower e then Some u else None)"
  using assms by (simp add: findByEmailRaw_def select_first_def insert_row_def find_append_new)

lemma create_sso_user:
  assumes "create_user ar [] n \<lparr>cu_email = e, cu_display_name = d, cu_password = [], cu_is_admin = None\<rparr> AsSso s = (r, s1)"
    "findByEmailRaw s e = None"
  shows "\<exists>u. s1 = s\<lparr>users := insert_row u (users s)\<rparr> \<and> findByEmailRaw s1 e = Some u \<and>
    us_auth_source u = AsSso \<and> us_disabled u \<and> \<not> us_is_admin u \<and> (\<exists>pu. r = Inr pu)"
proof -
  have "findByEmailRaw s (to_lower e) = None" using assms(2) by (simp add: findByEmailRaw_def)
  then show ?thesis
    using assms created_found [OF assms(2)] by (auto simp: create_user_def Let_def)
qed

text \<open>The ways an identity is resolved to an account, with what becomes of the state.\<close>

inductive identity_of :: "resolved_provider \<Rightarrow> sso_profile \<Rightarrow> server \<Rightarrow> user \<Rightarrow> bool" for p pf s where
  bound: "findBySsoIdentity s (rv_id p) (pf_subject pf) = Some u \<Longrightarrow> identity_of p pf s u"
| by_email: "findBySsoIdentity s (rv_id p) (pf_subject pf) = None \<Longrightarrow> pf_email_verified pf \<Longrightarrow>
    findByEmailRaw s (pf_email pf) = Some u \<Longrightarrow> identity_of p pf s u"

inductive_simps identity_of_iff: "identity_of p pf s u"

lemma identity_in: "identity_of p pf s u \<Longrightarrow> u \<in> set (users s)"
  by (auto elim!: identity_of.cases intro: findBySsoIdentity_in findByEmailRaw_in)

lemma link_users [simp]: "users (linkSsoIdentity i pr sub s) = users s"
  "app_admin_ips (linkSsoIdentity i pr sub s) = app_admin_ips s"
  "admin_ip_cache (linkSsoIdentity i pr sub s) = admin_ip_cache s"
  by (simp_all add: linkSsoIdentity_def Let_def)

lemma touch_users [simp]: "users (touchSsoIdentity now pr sub s) = users s"
  "app_admin_ips (touchSsoIdentity now pr sub s) = app_admin_ips s"
  "admin_ip_cache (touchSsoIdentity now pr sub s) = admin_ip_cache s"
  by (simp_all add: touchSsoIdentity_def)

lemma resolveUser_cases:
  assumes "resolveUser ar n p pf s = (r, s1)"
  obtains (refused) e where "r = Inl e" "s1 = s"
  | (local) "r = Inr LocalAccount" "s1 = s"
  | (known) u where "r = Inr (Account u)" "us_auth_source u \<noteq> AsLocal" "identity_of p pf s u"
      "s1 = s \<and> findBySsoIdentity s (rv_id p) (pf_subject pf) = Some u \<or>
       s1 = linkSsoIdentity (us_id u) (rv_id p) (pf_subject pf) s"
  | (created) u where "r = Inr (Account u)" "us_auth_source u = AsSso" "us_disabled u" "\<not> us_is_admin u"
      "s1 = linkSsoIdentity (us_id u) (rv_id p) (pf_subject pf) (s\<lparr>users := insert_row u (users s)\<rparr>)"
      "pf_email_verified pf"
proof (cases "findBySsoIdentity s (rv_id p) (pf_subject pf)")
  case (Some u)
  with assms show thesis
    by (cases "us_auth_source u = AsLocal") (auto simp: resolveUser_def intro: local known bound)
next
  case None
  note unbound = this
  show thesis
  proof (cases "pf_email_verified pf")
    case False
    with None assms show thesis by (auto simp: resolveUser_def intro: refused)
  next
    case True
    show thesis
    proof (cases "findByEmailRaw s (pf_email pf)")
      case (Some u)
      with None True assms show thesis
        by (cases "us_auth_source u = AsLocal") (auto simp: resolveUser_def intro: local known by_email)
    next
      case none: None
      obtain q s2 where q: "create_user ar [] n \<lparr>cu_email = pf_email pf, cu_display_name = pf_name pf, cu_password = [],
          cu_is_admin = None\<rparr> AsSso s = (q, s2)" by fastforce
      from create_sso_user [OF q none] obtain u pu where u: "s2 = s\<lparr>users := insert_row u (users s)\<rparr>"
        "findByEmailRaw s2 (pf_email pf) = Some u" "us_auth_source u = AsSso" "us_disabled u" "\<not> us_is_admin u" "q = Inr pu"
        by blast
      show thesis
        by (rule created [of u]) (use assms unbound True none q u in \<open>auto simp: resolveUser_def\<close>)
    qed
  qed
qed

lemma settle_session:
  assumes "settle_identity x n now p pf s = (Inr cr, s1)" "cr_reason cr = None"
  shows "\<exists>u. cr_user cr = Some u \<and> us_auth_source u \<noteq> AsLocal \<and> \<not> us_disabled u \<and> identity_of p pf s u \<and>
    users s1 = users s \<and> app_admin_ips s1 = app_admin_ips s \<and> admin_ip_cache s1 = admin_ip_cache s"
proof -
  obtain r s0 where r: "resolveUser (lg_argon x) n p pf s = (r, s0)" by fastforce
  from r show ?thesis
  proof (cases rule: resolveUser_cases)
    case (known u)
    with assms r show ?thesis
      by (auto simp: settle_identity_def Let_def split: if_splits sum.splits prod.splits)
  qed (use assms r in \<open>auto simp: settle_identity_def Let_def\<close>)
qed

text \<open>Whatever the outcome, at most one account is added, and none is changed.\<close>

definition at_most_provisions :: "server \<Rightarrow> server \<Rightarrow> bool" where
  "at_most_provisions s s1 \<longleftrightarrow>
     users s1 = users s \<or>
     (\<exists>u. users s1 = insert_row u (users s) \<and> us_auth_source u = AsSso \<and> us_disabled u \<and> \<not> us_is_admin u)"

lemma settle_users:
  assumes "settle_identity x n now p pf s = (r, s1)"
  shows "at_most_provisions s s1"
proof -
  obtain q s0 where q: "resolveUser (lg_argon x) n p pf s = (q, s0)" by fastforce
  have "users s1 = users s0"
    using assms q
    by (auto simp: settle_identity_def Let_def split: sum.splits resolved_user.splits if_splits prod.splits)
  moreover from q have "at_most_provisions s s0"
    by (cases rule: resolveUser_cases) (auto simp: at_most_provisions_def)
  ultimately show ?thesis by (simp add: at_most_provisions_def)
qed

lemma handleCallback_ok:
  assumes "handleCallback x w n now code state cookie c s = (r, c1, s1)"
  obtains (refused) e where "r = Inl e" "s1 = s"
  | (settled) ck parsed p pf where "cookie = Some ck"
      "jw_verify (lg_jwt x) (cf_jwt_secret (lg_config x)) now ck = Some parsed"
      "map_of parsed ''state'' = map_option JStr state"
      "resolveProvider (lg_crypto x) w (map_of parsed ''providerId'') s = Inr p"
      "profile_of x w now p code parsed c = (Inr pf, c1)" "pf_subject pf \<noteq> []" "pf_email pf \<noteq> []"
      "settle_identity x n now p pf s = (r, s1)"
  using assms
  by (auto simp: handleCallback_def split: option.splits if_splits sum.splits prod.splits)

lemma finish_callback_session:
  assumes "finish_callback x ok i now cl r s = (Inr (SsoSession t uo), s')"
  shows "\<exists>cr. r = Inr cr \<and> cr_reason cr = None \<and> cr_user cr = uo \<and> cr_token cr = t"
    "uo = Some u \<Longrightarrow> us_is_admin u \<Longrightarrow> ipAllowed (fst (effective (lg_config x) now s)) (ci_ip cl)"
proof -
  from assms obtain cr where cr: "r = Inr cr" "cr_reason cr = None"
    by (auto simp: finish_callback_def split: sum.splits option.splits)
  with assms have "cr_user cr = uo" "cr_token cr = t"
    by (auto simp: finish_callback_def split: sum.splits prod.splits option.splits)
  then show "\<exists>cr. r = Inr cr \<and> cr_reason cr = None \<and> cr_user cr = uo \<and> cr_token cr = t" using cr by blast
  assume "uo = Some u" "us_is_admin u"
  with assms cr \<open>cr_user cr = uo\<close> have "fst (assertAllowed (lg_config x) now (ci_ip cl) s) = Inr ()"
    by (cases "assertAllowed (lg_config x) now (ci_ip cl) s") (auto simp: finish_callback_def split: sum.splits)
  then show "ipAllowed (fst (effective (lg_config x) now s)) (ci_ip cl)" by (simp add: assertAllowed_iff)
qed

lemma finish_callback_users [simp]: "users (snd (finish_callback x ok i now cl r s)) = users s"
proof -
  have aud: "users (record_audit ok i now e s1) = users s1" for e s1 by (simp add: record_audit_def)
  have "users (snd (assertAllowed (lg_config x) now (ci_ip cl) s)) = users s"
    by (simp add: assertAllowed_def isAllowed_def effective_def storedEntries_def Let_def split: prod.splits option.splits)
  then show ?thesis
    by (auto simp: finish_callback_def aud split: sum.splits option.splits prod.splits)
qed

lemma callback_session:
  assumes "route_callback x w ok i n now code state cookies cl c s = (Inr (SsoSession t uo), c1, s')"
  shows "\<exists>u ck parsed p pf. uo = Some u \<and> readCookie cookies OIDC_STATE_COOKIE = Some ck \<and>
    jw_verify (lg_jwt x) (cf_jwt_secret (lg_config x)) now ck = Some parsed \<and>
    map_of parsed ''state'' = map_option JStr state \<and>
    resolveProvider (lg_crypto x) w (map_of parsed ''providerId'') s = Inr p \<and>
    profile_of x w now p code parsed c = (Inr pf, c1) \<and>
    identity_of p pf s u \<and> u \<in> set (users s) \<and> us_auth_source u \<noteq> AsLocal \<and> \<not> us_disabled u \<and>
    (us_is_admin u \<longrightarrow> ipAllowed (fst (effective (lg_config x) now s)) (ci_ip cl))"
proof -
  obtain r c2 s1 where h: "handleCallback x w n now code state (readCookie cookies OIDC_STATE_COOKIE) c s = (r, c2, s1)"
    by (metis prod_cases3)
  with assms have f: "finish_callback x ok i now cl r s1 = (Inr (SsoSession t uo), s')" "c2 = c1"
    by (auto simp: route_callback_def split: prod.splits)
  from finish_callback_session(1) [OF f(1)] obtain cr where cr: "r = Inr cr" "cr_reason cr = None" "cr_user cr = uo" by blast
  from h show ?thesis
  proof (cases rule: handleCallback_ok)
    case (settled ck parsed p pf)
    from settle_session [OF settled(8) [unfolded cr(1)] cr(2)] obtain u where u: "cr_user cr = Some u"
      "us_auth_source u \<noteq> AsLocal" "\<not> us_disabled u" "identity_of p pf s u"
      "app_admin_ips s1 = app_admin_ips s" "admin_ip_cache s1 = admin_ip_cache s" by blast
    then have "us_is_admin u \<Longrightarrow> ipAllowed (fst (effective (lg_config x) now s)) (ci_ip cl)"
      using finish_callback_session(2) [OF f(1), of u] cr(3) effective_same [of s1 s "lg_config x" now] by simp
    moreover have "u \<in> set (users s)" by (rule identity_in [OF u(4)])
    ultimately show ?thesis using settled(1-5) u(1-4) cr(3) f(2) by metis
  qed (simp add: cr(1))
qed

section \<open>Accepted id tokens\<close>

text \<open>What an accepted token satisfies: signed by one of the provider's keys, and claims that fit.\<close>

definition token_proof ::
  "sso_world \<Rightarrow> time \<Rightarrow> resolved_provider \<Rightarrow> json \<Rightarrow> json option \<Rightarrow> string option \<Rightarrow> json list \<Rightarrow> json \<Rightarrow> bool" where
  "token_proof w now p disco idToken nonce ks claims \<longleftrightarrow>
     (\<exists>h b sg header alg digest jwk.
        idToken = Some (JStr (h @ ''.'' @ b @ ''.'' @ sg)) \<and>
        sw_json w (from_base64 h) = Some header \<and> str (json_field header ''alg'') = alg \<and>
        map_of ID_TOKEN_ALGS alg = Some digest \<and>
        jwk \<in> set ks \<and> key_verifies w alg digest (h @ ''.'' @ b) (from_base64 sg) jwk \<and>
        sw_json w (from_base64 b) = Some claims) \<and>
     strict_eq (json_field claims ''iss'') (json_field disco ''issuer'') \<and>
     audience_ok p (json_field claims ''aud'') \<and>
     (\<exists>e. json_field claims ''exp'' = Some (JNum e) \<and> now div 1000 \<le> e + CLOCK_SKEW) \<and>
     (\<forall>b. json_field claims ''nbf'' = Some (JNum b) \<longrightarrow> b - CLOCK_SKEW \<le> now div 1000) \<and>
     (\<forall>n. nonce = Some n \<and> n \<noteq> [] \<longrightarrow> json_field claims ''nonce'' = Some (JStr n))"

lemma join_cons_char: "join_with sep ((a # y) # ys) = a # join_with sep (y # ys)"
  by (cases ys) simp_all

lemma join_split: "join_with [c] (split_on c s) = s"
proof (induction s)
  case (Cons a s)
  then show ?case by (cases "split_on c s") (auto simp: join_cons_char)
qed simp

lemma split_three: "split_on c t = [h, b, sg] \<Longrightarrow> t = h @ [c] @ b @ [c] @ sg"
  using join_split [of c t] by simp

lemma verify_some_key:
  assumes "verifyWithKeys w ks kid alg d msg sg"
  shows "\<exists>digest jwk. d = Some digest \<and> jwk \<in> set ks \<and> key_verifies w alg digest msg sg jwk"
  using assms by (auto simp: verifyWithKeys_def Let_def list_ex_iff split: option.splits if_splits)

lemma claims_error_None:
  assumes "claims_error p disco nonce now claims = None"
  shows "strict_eq (json_field claims ''iss'') (json_field disco ''issuer'')"
    "audience_ok p (json_field claims ''aud'')"
    "\<exists>e. json_field claims ''exp'' = Some (JNum e) \<and> now div 1000 \<le> e + CLOCK_SKEW"
    "json_field claims ''nbf'' = Some (JNum b) \<Longrightarrow> b - CLOCK_SKEW \<le> now div 1000"
    "nonce = Some n \<Longrightarrow> n \<noteq> [] \<Longrightarrow> json_field claims ''nonce'' = Some (JStr n)"
  using assms by (auto simp: claims_error_def Let_def split: if_splits option.splits json.splits)

lemma read_token_parts:
  assumes "read_token w idToken = Inr tp"
  shows "\<exists>h b sg. idToken = Some (JStr (h @ ''.'' @ b @ ''.'' @ sg)) \<and>
    sw_json w (from_base64 h) = Some (tp_header tp) \<and> tp_alg tp = str (json_field (tp_header tp) ''alg'') \<and>
    tp_signed tp = h @ ''.'' @ b \<and> tp_signature tp = from_base64 sg \<and> tp_payload tp = b"
proof -
  from assms obtain t where t: "idToken = Some (JStr t)" "t \<noteq> []"
    by (auto simp: read_token_def split: option.splits json.splits if_splits)
  with assms obtain h b sg where sp: "split_on (CHR ''.'') t = [h, b, sg]"
    by (auto simp: read_token_def split: list.splits)
  with assms t show ?thesis
    using split_three [OF sp]
    by (auto simp: read_token_def parseSegment_def member_of_def Let_def split: option.splits sum.splits if_splits)
qed

lemma accepted_token:
  assumes "verifyIdToken w now p disco idToken nonce c = (Inr claims, c1)"
  shows "\<exists>ks kid. signing_keys w (js_text (json_field disco ''jwks_uri'')) kid c = (Inr ks, c1) \<and>
    token_proof w now p disco idToken nonce ks claims"
proof -
  from assms obtain tp where tp: "read_token w idToken = Inr tp"
    by (auto simp: verifyIdToken_def split: sum.splits)
  with assms obtain ks where ks: "signing_keys w (js_text (json_field disco ''jwks_uri'')) (tp_kid tp) c = (Inr ks, c1)"
    by (auto simp: verifyIdToken_def split: sum.splits prod.splits if_splits option.splits)
  from assms tp ks have v: "verifyWithKeys w ks (tp_kid tp) (tp_alg tp) (map_of ID_TOKEN_ALGS (tp_alg tp)) (tp_signed tp) (tp_signature tp)"
    "parseSegment w (tp_payload tp) = Inr claims" "claims_error p disco nonce now claims = None"
    by (auto simp: verifyIdToken_def split: sum.splits if_splits option.splits)
  obtain digest jwk where k: "map_of ID_TOKEN_ALGS (tp_alg tp) = Some digest" "jwk \<in> set ks"
    "key_verifies w (tp_alg tp) digest (tp_signed tp) (tp_signature tp) jwk"
    using verify_some_key [OF v(1)] by blast
  obtain h b sg where r: "idToken = Some (JStr (h @ ''.'' @ b @ ''.'' @ sg))"
    "sw_json w (from_base64 h) = Some (tp_header tp)" "tp_alg tp = str (json_field (tp_header tp) ''alg'')"
    "tp_signed tp = h @ ''.'' @ b" "tp_signature tp = from_base64 sg" "tp_payload tp = b"
    using read_token_parts [OF tp] by blast
  have claims: "sw_json w (from_base64 b) = Some claims"
    using v(2) r(6) by (auto simp: parseSegment_def split: option.splits)
  from claims_error_None(3) [OF v(3)] obtain e where e: "json_field claims ''exp'' = Some (JNum e)" "now div 1000 \<le> e + CLOCK_SKEW"
    by blast
  have "token_proof w now p disco idToken nonce ks claims"
    unfolding token_proof_def
  proof (intro conjI exI)
    show "idToken = Some (JStr (h @ ''.'' @ b @ ''.'' @ sg))" by (rule r(1))
    show "sw_json w (from_base64 h) = Some (tp_header tp)" by (rule r(2))
    show "str (json_field (tp_header tp) ''alg'') = tp_alg tp" by (simp only: r(3))
    show "map_of ID_TOKEN_ALGS (tp_alg tp) = Some digest" by (rule k(1))
    show "jwk \<in> set ks" by (rule k(2))
    show "key_verifies w (tp_alg tp) digest (h @ ''.'' @ b) (from_base64 sg) jwk" using k(3) by (simp only: r(4,5))
    show "sw_json w (from_base64 b) = Some claims" by (rule claims)
    show "json_field claims ''exp'' = Some (JNum e)" "now div 1000 \<le> e + CLOCK_SKEW" by (fact e)+
  qed (use claims_error_None [OF v(3)] in blast)+
  then show ?thesis using ks by blast
qed

section \<open>A login through GitHub and a token, in full\<close>

definition sample_stored :: stored_provider where
  "sample_stored =
     \<lparr>sp_id = ''g'', sp_type = PtGithub, sp_label = [], sp_client_id = ''app'', sp_issuer_url = [], sp_tenant_id = [],
      sp_secret = Some (payload_json (encrypt sample_crypto ''iv'' (PText ''sec'') None))\<rparr>"

definition sample_provider :: resolved_provider where
  "sample_provider =
     \<lparr>rv_id = ''g'', rv_type = PtGithub, rv_label = [], rv_client_id = ''app'', rv_client_secret = ''sec'',
      rv_issuer_url = [], rv_tenant_id = []\<rparr>"

definition sso_account :: user where
  "sso_account = (sample_account ''u1'' ''a@x'' True)\<lparr>us_auth_source := AsSso, us_password_hash := None\<rparr>"

definition sso_server :: server where
  "sso_server = empty_server\<lparr>users := [sso_account], app_sso := Some (sso_json \<lparr>ss_enabled = True, ss_providers = [sample_stored]\<rparr>)\<rparr>"

text \<open>Every answer is one object with all the members; keys and signatures are accepted.\<close>

definition sample_document :: json where
  "sample_document = JObj [(''access_token'', JStr ''t''), (''id'', JNum 7), (''email'', JStr ''A@x''), (''name'', JStr ''Ann''),
     (''keys'', JArr [JObj []]), (''alg'', JStr ''RS256''), (''iss'', JStr ''i''), (''issuer'', JStr ''i''),
     (''aud'', JStr ''app''), (''exp'', JNum 100)]"

definition sample_world :: sso_world where
  "sample_world =
     \<lparr>sw_fetch = (\<lambda>_ _. Some (True, Some sample_document)), sw_json = (\<lambda>_. Some sample_document), sw_public_key = (\<lambda>_. True),
      sw_verify = (\<lambda>_ _ _ _ _. Some True), sw_sha256 = (\<lambda>t. t), sw_gen = (\<lambda>_. ''id'')\<rparr>"

definition no_caches :: sso_caches where
  "no_caches = \<lparr>discoveryCache = [], jwksCache = []\<rparr>"

definition sso_cookies :: "(string \<times> string) list" where
  "sso_cookies = [(OIDC_STATE_COOKIE, jw_sign sample_jwt ''k'' (state_claims ''g'' (''v'', ''st'', ''n'')) 600000)]"

abbreviation sample_client :: client_info where
  "sample_client \<equiv> \<lparr>ci_ip = None, ci_user_agent = None\<rparr>"

abbreviation sample_callback :: "sso_reply result \<times> sso_caches \<times> server" where
  "sample_callback \<equiv>
     route_callback sample_env sample_world True ''e1'' ''n1'' 5 ''code'' (Some ''st'') sso_cookies sample_client no_caches sso_server"

lemma sample_resolved: "resolveProvider sample_crypto sample_world (Some (JStr ''g'')) sso_server = Inr sample_provider"
proof -
  have "normalizeStored gen (app_sso sso_server) = \<lparr>ss_enabled = True, ss_providers = [sample_stored]\<rparr>" for gen
    using normalize_sso_json [of "\<lparr>ss_enabled = True, ss_providers = [sample_stored]\<rparr>" gen]
    by (simp add: sso_server_def storable_def sample_stored_def payload_json_def)
  moreover have "decrypt sample_crypto \<lparr>ep_ciphertext = gcm_seal sample_crypto ''iv'' None (PText ''sec''), ep_nonce = ''iv''\<rparr> None
      = Inr (PText ''sec'')"
    using sample_crypto_laws(1) by (simp add: decrypt_def gcm_correct_def)
  ultimately show ?thesis
    by (simp add: resolveProvider_def getResolvedSso_def readSso_def resolve_stored_def sample_stored_def payload_json_def
        encrypt_def decrypt_secret_def isConfigured_def sample_provider_def Let_def)
qed

lemma sample_profile:
  "githubProfile sample_env sample_world sample_provider ''code'' =
     Inr \<lparr>pf_subject = ''7'', pf_email = ''A@x'', pf_name = ''Ann'', pf_email_verified = True\<rparr>"
proof -
  have "show_int 7 = ''7''" by code_simp
  then show ?thesis
    by (simp add: githubProfile_def sample_world_def sample_document_def body_or_def member_of_def truthy_field_def str_def)
qed

lemma sample_callback_session: "\<exists>t s'. sample_callback = (Inr (SsoSession t (Some sso_account)), no_caches, s')"
proof -
  let ?pf = "\<lparr>pf_subject = ''7'', pf_email = ''A@x'', pf_name = ''Ann'', pf_email_verified = True\<rparr>"
  let ?s1 = "linkSsoIdentity ''u1'' ''g'' ''7'' sso_server" and ?s2 = "touchSsoIdentity 5 ''g'' ''7'' (linkSsoIdentity ''u1'' ''g'' ''7'' sso_server)"
  have acc: "us_id sso_account = ''u1''" "us_auth_source sso_account = AsSso" "\<not> us_disabled sso_account" "us_email sso_account = ''a@x''"
    by (simp_all add: sso_account_def sample_account_def)
  have low: "to_lower ''A@x'' = ''a@x''" by code_simp
  have pid: "rv_id sample_provider = ''g''" by (simp add: sample_provider_def)
  have res: "resolveUser ar ''n1'' sample_provider ?pf sso_server = (Inr (Account sso_account), ?s1)" for ar
    by (simp add: resolveUser_def findBySsoIdentity_def findByEmailRaw_def select_first_def sso_server_def empty_server_def
        sample_provider_def acc low)
  have u: "user_by_id ''u1'' ?s2 = Some sso_account"
    by (simp add: user_by_id_def select_first_def sso_server_def acc)
  obtain t where t: "issue sample_env 5 ''u1'' (us_email sso_account) (us_is_admin sso_account) ?s2 = Inr (t, toPublic sso_account)"
    using u by (simp add: issue_def findById_def Let_def)
  obtain cr where cr: "settle_identity sample_env ''n1'' 5 sample_provider ?pf sso_server = (Inr cr, ?s2)"
    "cr_reason cr = None" "cr_user cr = Some sso_account"
    using t pid by (simp add: settle_identity_def res acc(1,3) Let_def)
  have "fst (assertAllowed sample_config 5 None ?s2) = Inr ()"
    by (simp add: assertAllowed_iff effective_def storedEntries_def sso_server_def empty_server_def entries_of_def
        sample_config_def ipAllowed_def Let_def)
  then obtain s3 where ips: "assertAllowed sample_config 5 None ?s2 = (Inr (), s3)" by (metis prod.collapse)
  have "jw_verify sample_jwt ''k'' 5 (jw_sign sample_jwt ''k'' (state_claims ''g'' (''v'', ''st'', ''n'')) 600000) =
      Some (state_claims ''g'' (''v'', ''st'', ''n''))"
    using sample_jwt_laws(1) by (simp add: jwt_correct_def)
  moreover have "jw_sign sample_jwt k p e \<noteq> []" for k p e by (simp add: sample_jwt_def)
  moreover have "lg_jwt sample_env = sample_jwt" "lg_config sample_env = sample_config" "lg_crypto sample_env = sample_crypto"
    "cf_jwt_secret sample_config = ''k''" by (simp_all add: sample_env_def sample_config_def)
  moreover have "rv_type sample_provider = PtGithub" by (simp add: sample_provider_def)
  ultimately have "handleCallback sample_env sample_world ''n1'' 5 ''code'' (Some ''st'') (readCookie sso_cookies OIDC_STATE_COOKIE)
      no_caches sso_server = (Inr cr, no_caches, ?s2)"
    by (simp add: handleCallback_def readCookie_def sso_cookies_def sample_resolved profile_of_def sample_profile cr(1) state_claims_def)
  then show ?thesis
    using cr(2,3) ips \<open>lg_config sample_env = sample_config\<close> by (simp add: route_callback_def finish_callback_def)
qed

section \<open>Theorems\<close>



text \<open>
  Whatever a provider asserts and however the callback ends, no existing account is
  changed; at most one account is added, and that one is disabled and no administrator.
\<close>

theorem callback_changes_no_account:
  "at_most_provisions s (snd (snd (route_callback x w ok i n now code state cookies cl c s)))"
proof -
  obtain r c2 s1 where h: "handleCallback x w n now code state (readCookie cookies OIDC_STATE_COOKIE) c s = (r, c2, s1)"
    by (metis prod_cases3)
  from h have "at_most_provisions s s1"
    by (cases rule: handleCallback_ok) (auto simp: at_most_provisions_def [of s s] dest: settle_users)
  moreover have "users (snd (snd (route_callback x w ok i n now code state cookies cl c s))) = users s1"
    using finish_callback_users [of x ok i now cl r s1]
    by (cases "finish_callback x ok i now cl r s1") (simp add: route_callback_def h)
  ultimately show ?thesis by (simp add: at_most_provisions_def)
qed

text \<open>
  C24: An id token is accepted only if it has three segments, names one of the nine
  asymmetric signature algorithms, one of the provider's published keys verifies the
  signature over the first two, and its issuer, audience, expiry, start of validity and the
  nonce of the login are right.
\<close>

theorem id_token_checked:
  assumes "verifyIdToken w now p disco idToken nonce c = (Inr claims, c1)"
  shows "\<exists>ks kid. signing_keys w (js_text (json_field disco ''jwks_uri'')) kid c = (Inr ks, c1) \<and>
    token_proof w now p disco idToken nonce ks claims"
  using assms by (rule accepted_token)

theorem id_token_checked_witness:
  "\<exists>claims c1. verifyIdToken sample_world 5000 sample_provider sample_document (Some (JStr ''h.b.s'')) None no_caches = (Inr claims, c1) \<and>
     json_field claims ''iss'' = Some (JStr ''i'')"
proof -
  have sp: "split_on (CHR ''.'') ''h.b.s'' = [''h'', ''b'', ''s'']" by code_simp
  have "\<exists>claims c1. verifyIdToken sample_world 5000 sample_provider sample_document (Some (JStr ''h.b.s'')) None no_caches = (Inr claims, c1)"
    by (simp add: verifyIdToken_def read_token_def sp parseSegment_def sample_world_def sample_document_def member_of_def str_def
        ID_TOKEN_ALGS_def text_member_def signing_keys_def jwks_def cached_def no_caches_def body_or_def non_null_def key_list_def
        verifyWithKeys_def key_verifies_def claims_error_def strict_eq_def audience_ok_def sample_provider_def CLOCK_SKEW_def Let_def)
  then obtain claims c1 where v: "verifyIdToken sample_world 5000 sample_provider sample_document (Some (JStr ''h.b.s'')) None no_caches = (Inr claims, c1)"
    by blast
  have "strict_eq (json_field claims ''iss'') (json_field sample_document ''issuer'')"
    using id_token_checked [OF v] by (auto simp: token_proof_def)
  then show ?thesis using v by (simp add: strict_eq_def sample_document_def)
qed

text \<open>
  The state cookie of an SSO login is signed with the session secret, yet is no session;
  and a session token presented as the state cookie opens no login.
\<close>

theorem state_cookie_no_session:
  assumes "jwt_correct (lg_jwt x)"
  shows "is_error (fromJwt (lg_config x) (lg_jwt x) now
      (jw_sign (lg_jwt x) (cf_jwt_secret (lg_config x)) (state_claims pid r) e) s) \<and>
    is_error (fst (handleCallback x w n now code state
      (Some (jw_sign (lg_jwt x) (cf_jwt_secret (lg_config x)) (session_claims i email admin ep) e)) c s))"
proof -
  have v: "jw_verify (lg_jwt x) (cf_jwt_secret (lg_config x)) now
      (jw_sign (lg_jwt x) (cf_jwt_secret (lg_config x)) q e) = (if now < e then Some q else None)" for q
    using assms by (simp add: jwt_correct_def)
  have none: "map_of (session_claims i email admin ep) ''state'' = None" "map_of (session_claims i email admin ep) ''providerId'' = None"
    by (simp_all add: session_claims_def)
  have "is_error (resolveProvider (lg_crypto x) w None s)"
    by (auto simp: resolveProvider_def find_Some_iff split: sum.splits option.splits)
  then have "is_error (fst (handleCallback x w n now code state
      (Some (jw_sign (lg_jwt x) (cf_jwt_secret (lg_config x)) (session_claims i email admin ep) e)) c s))"
    by (auto simp: handleCallback_def v none is_error_def split: sum.splits)
  moreover have "is_error (fromJwt (lg_config x) (lg_jwt x) now
      (jw_sign (lg_jwt x) (cf_jwt_secret (lg_config x)) (state_claims pid r) e) s)"
    by (cases r) (simp add: fromJwt_def v state_claims_def)
  ultimately show ?thesis by blast
qed

theorem state_cookie_no_session_witness:
  "is_error (fromJwt sample_config sample_jwt 5 (jw_sign sample_jwt ''k'' (state_claims ''g'' (''v'', ''st'', ''n'')) 9) sso_server)"
  using state_cookie_no_session [of sample_env 5 "''g''" "(''v'', ''st'', ''n'')" 9 sso_server]
  by (simp add: sample_env_def sample_jwt_laws sample_config_def)

section \<open>All ways to sign in\<close>

text \<open>
  A request that sets a session cookie, by any of the four routes, and whether the account is
  an administrator.
\<close>

inductive opens_session ::
  "login_env \<Rightarrow> webauthn_lib \<Rightarrow> sso_world \<Rightarrow> time \<Rightarrow> client_info \<Rightarrow> server \<Rightarrow> bool \<Rightarrow> bool"
  for x wl w now cl s where
  by_password: "route_login x ok i jti now email pw cl s = (Inr (SessionCookie t u), s') \<Longrightarrow>
     opens_session x wl w now cl s (pb_is_admin u)"
| by_totp: "route_loginTotp x ok i now token code cl s = (Inr (SessionCookie t u), s') \<Longrightarrow>
     opens_session x wl w now cl s (pb_is_admin u)"
| by_passkey: "passkeyLoginVerify x wl ok i now cookies response cl s = (Inr (SessionCookie t u), s') \<Longrightarrow>
     opens_session x wl w now cl s (pb_is_admin u)"
| by_sso: "route_callback x w ok i n now code state cookies cl c s = (Inr (SsoSession t (Some a)), c1, s') \<Longrightarrow>
     opens_session x wl w now cl s (us_is_admin a)"

inductive_cases opens_sessionE: "opens_session x wl w now cl s b"

lemma route_login_session:
  assumes "route_login x ok i jti now email pw cl s = (Inr (SessionCookie t u), s')" "pb_is_admin u"
  shows "ipAllowed (fst (effective (lg_config x) now s)) (ci_ip cl)"
proof (cases "login x jti now email pw s")
  case (Inl e)
  then show ?thesis using assms(1) by (simp add: route_login_def finish_login_def Let_def)
next
  case (Inr lo)
  show ?thesis
  proof (cases lo)
    case (LoginOk t' u')
    show ?thesis
      using finish_login_session(2) [OF _ assms(2)] assms(1) Inr LoginOk by (fastforce simp: route_login_def Let_def)
  next
    case (TwofaRequired ch)
    then show ?thesis using assms(1) Inr by (simp add: route_login_def Let_def)
  qed
qed

lemma route_totp_session:
  assumes "route_loginTotp x ok i now token code cl s = (Inr (SessionCookie t u), s')" "pb_is_admin u"
  shows "ipAllowed (fst (effective (lg_config x) now s)) (ci_ip cl)"
proof -
  obtain r s1 where r: "loginTotp x now token code s = (r, s1)" by fastforce
  show ?thesis
    using finish_login_session(2) [OF assms(1) [unfolded route_loginTotp_def] assms(2)]
      effective_same [OF loginTotp_settings [OF r]] r by simp
qed

text \<open>
  C4: No way of signing in, password, second factor, passkey or identity provider, hands an
  administrator a session from an address outside the allowlist.
\<close>

theorem admin_sessions_from_allowlist:
  assumes "opens_session x wl w now cl s True"
  shows "ipAllowed (fst (effective (lg_config x) now s)) (ci_ip cl)"
  using assms
proof (rule opens_sessionE)
  fix ok i cookies response t u s'
  assume "True = pb_is_admin u" "passkeyLoginVerify x wl ok i now cookies response cl s = (Inr (SessionCookie t u), s')"
  then show ?thesis using passkey_login_session by blast
next
  fix ok i n code state cookies c t a c1 s'
  assume "True = us_is_admin a" "route_callback x w ok i n now code state cookies cl c s = (Inr (SsoSession t (Some a)), c1, s')"
  then show ?thesis using callback_session by blast
next
  fix ok i token code t u s'
  assume "True = pb_is_admin u" "route_loginTotp x ok i now token code cl s = (Inr (SessionCookie t u), s')"
  then show ?thesis by (intro route_totp_session) simp_all
next
  fix ok i jti email pw t u s'
  assume "True = pb_is_admin u" "route_login x ok i jti now email pw cl s = (Inr (SessionCookie t u), s')"
  then show ?thesis by (intro route_login_session) simp_all
qed

theorem admin_sessions_from_allowlist_witness:
  "opens_session sample_env sample_webauthn sample_world 5 sample_client sso_server True \<and>
   ipAllowed (fst (effective sample_config 5 sso_server)) None"
proof -
  obtain t s' where "sample_callback = (Inr (SsoSession t (Some sso_account)), no_caches, s')"
    using sample_callback_session by blast
  then have "opens_session sample_env sample_webauthn sample_world 5 sample_client sso_server (us_is_admin sso_account)" by (rule by_sso)
  then have "opens_session sample_env sample_webauthn sample_world 5 sample_client sso_server True"
    by (simp add: sso_account_def sample_account_def)
  moreover from admin_sessions_from_allowlist [OF this] have "ipAllowed (fst (effective sample_config 5 sso_server)) None"
    by (simp add: sample_env_def)
  ultimately show ?thesis by blast
qed

end
