(* ===== verification/Reports.thy ===== *)
theory Reports
  imports JobRunner
begin

text \<open>
  Reports, \<open>reports/reports.service.ts\<close>, \<open>reports/report-scheduler.service.ts\<close> and the routes of
  \<open>reports/reports.controller.ts\<close>: definitions of reports, the message a report renders to, and
  their cron registrations next to those of the job scheduler. Emojis are their UTF-8 bytes.
\<close>

section \<open>Rendering\<close>

fun WINDOW_DAYS :: "report_window \<Rightarrow> int" where
  "WINDOW_DAYS W24h = 1"
| "WINDOW_DAYS W7d = 7"
| "WINDOW_DAYS W30d = 30"
| "WINDOW_DAYS W90d = 90"
| "WINDOW_DAYS W6mo = 180"
| "WINDOW_DAYS W12mo = 365"

fun WINDOW_LABEL :: "report_window \<Rightarrow> string" where
  "WINDOW_LABEL W24h = ''last 24 hours''"
| "WINDOW_LABEL W7d = ''last 7 days''"
| "WINDOW_LABEL W30d = ''last 30 days''"
| "WINDOW_LABEL W90d = ''last 90 days''"
| "WINDOW_LABEL W6mo = ''last 6 months''"
| "WINDOW_LABEL W12mo = ''last 12 months''"

fun STATUS_ICON :: "run_status \<Rightarrow> string" where
  "STATUS_ICON Success = emoji_ok"
| "STATUS_ICON Failed = emoji_fail"
| "STATUS_ICON Cancelled = [CHR 0xE2, CHR 0x9B, CHR 0x94]"
| "STATUS_ICON Running = [CHR 0xF0, CHR 0x9F, CHR 0x94, CHR 0x84]"
| "STATUS_ICON Queued = [CHR 0xE2, CHR 0x8F, CHR 0xB3]"

definition emoji_warning :: string where
  "emoji_warning = [CHR 0xE2, CHR 0x9A, CHR 0xA0, CHR 0xEF, CHR 0xB8, CHR 0x8F]"

text \<open>
  \<open>new Date(t).toISOString().slice(0, 10)\<close>: the day of a time in the proleptic Gregorian
  calendar. Years are counted from March, so that the leap day is the last of its year; years
  outside 0 to 9999 have a sign and six digits, of which the slice keeps the first ten characters.
\<close>

definition civil :: "int \<Rightarrow> int \<times> int \<times> int" where
  "civil days =
     (let z = days + 719468;
          era = z div 146097;
          doe = z mod 146097;
          yoe = (doe - doe div 1460 + doe div 36524 - doe div 146096) div 365;
          doy = doe - (365 * yoe + yoe div 4 - yoe div 100);
          mp = (5 * doy + 2) div 153;
          d = doy - (153 * mp + 2) div 5 + 1;
          m = (if mp < 10 then mp + 3 else mp - 9)
      in (yoe + era * 400 + (if m \<le> 2 then 1 else 0), m, d))"

definition padded :: "nat \<Rightarrow> int \<Rightarrow> string" where
  "padded width n =
     (let digits = show_nat (nat n) in replicate (width - length digits) (CHR ''0'') @ digits)"

definition iso_day :: "time \<Rightarrow> string" where
  "iso_day t =
     (let (y, m, d) = civil (t div 86400000);
          year = (if 0 \<le> y \<and> y \<le> 9999 then padded 4 y
                  else if y < 0 then ''-'' @ padded 6 (- y) else ''+'' @ padded 6 y)
      in take 10 (year @ ''-'' @ padded 2 m @ ''-'' @ padded 2 d))"

definition integrityLabel :: "repository \<Rightarrow> string" where
  "integrityLabel repo =
     (let at_day = (case re_check_at repo of None \<Rightarrow> [] | Some t \<Rightarrow> '' ('' @ iso_day t @ '')'');
          verdict = (case re_check_status repo of
                       Some CkPassed \<Rightarrow> emoji_ok @ '' verified'' @ at_day
                     | Some CkDamaged \<Rightarrow> emoji_alarm @ '' damaged'' @ at_day
                     | None \<Rightarrow> em_dash @ '' never checked'')
      in if or_empty (re_check_error repo) \<noteq> [] then verdict @ '', last attempt failed'' else verdict)"

text \<open>
  The grouped count of the finished query: one row per job and status that occurs, with the
  job's name and the number of runs. The order of the rows is the database's.
\<close>

definition report_runs :: "report_dataset \<Rightarrow> time \<Rightarrow> server \<Rightarrow> (uuid \<times> string \<times> run_status) list" where
  "report_runs ds cutoff s =
     List.map_filter (\<lambda>r. if jr_job_id r \<in> set (ds_job_ids ds) \<and> jr_kind r = KBackup \<and>
                             jr_status r \<in> set (ds_statuses ds) \<and> jr_created_at r > cutoff
                          then map_option (\<lambda>j. (jr_job_id r, bj_name j, jr_status r)) (backup_job_by_id (jr_job_id r) s)
                          else None) (job_runs s)"

definition grouped :: "'k list \<Rightarrow> ('k \<times> nat) list" where
  "grouped ks = map (\<lambda>k. (k, count_list ks k)) (remdups ks)"

text \<open>The two maps built from these rows: counts by job and status, and names.\<close>

type_synonym run_counts = "uuid \<rightharpoonup> (run_status \<rightharpoonup> nat)"
type_synonym job_names = "uuid \<rightharpoonup> string"

definition count_row :: "(uuid \<times> string \<times> run_status) \<times> nat \<Rightarrow> run_counts \<times> job_names \<Rightarrow> run_counts \<times> job_names" where
  "count_row row cn =
     (let ((i, name, st), c) = row;
          byStatus = (case fst cn i of None \<Rightarrow> Map.empty | Some b \<Rightarrow> b)
      in ((fst cn)(i \<mapsto> byStatus(st \<mapsto> c)), (snd cn)(i \<mapsto> name)))"

definition counts_and_names :: "report_dataset \<Rightarrow> time \<Rightarrow> server \<Rightarrow> run_counts \<times> job_names" where
  "counts_and_names ds cutoff s =
     (if ds_job_ids ds \<noteq> [] \<and> ds_statuses ds \<noteq> []
      then fold count_row (grouped (report_runs ds cutoff s)) (Map.empty, Map.empty)
      else (Map.empty, Map.empty))"

definition add_name :: "backup_job \<times> repository \<Rightarrow> job_names \<Rightarrow> job_names" where
  "add_name jr names =
     (if names (bj_id (fst jr)) \<noteq> None then names else names(bj_id (fst jr) \<mapsto> bj_name (fst jr)))"

definition job_name_rows :: "report_dataset \<Rightarrow> server \<Rightarrow> (backup_job \<times> repository) list" where
  "job_name_rows ds s =
     (if ds_job_ids ds \<noteq> [] then filter (\<lambda>(j, r). bj_id j \<in> set (ds_job_ids ds)) (job_rows s) else [])"

text \<open>The loop over the jobs and, inside it, the loop over the statuses.\<close>

record report_sums =
  rs_success :: nat
  rs_failed :: nat
  rs_totals :: "run_status \<rightharpoonup> nat"

definition add_status ::
  "(run_status \<rightharpoonup> nat) \<Rightarrow> run_status \<Rightarrow> report_sums \<times> string list \<times> string list \<Rightarrow> report_sums \<times> string list \<times> string list" where
  "add_status byStatus st acc =
     (let (sums, parts, row) = acc;
          n = or_default 0 (byStatus st)
      in (\<lparr>rs_success = (if st = Success then rs_success sums + n else rs_success sums),
           rs_failed = (if st = Failed then rs_failed sums + n else rs_failed sums),
           rs_totals = (rs_totals sums)(st \<mapsto> or_default 0 (rs_totals sums st) + n)\<rparr>,
          parts @ [STATUS_ICON st @ '' '' @ show_nat n], row @ [show_nat n]))"

definition add_job ::
  "run_counts \<Rightarrow> job_names \<Rightarrow> run_status list \<Rightarrow> uuid \<Rightarrow>
   report_sums \<times> string list \<times> string list list \<Rightarrow> report_sums \<times> string list \<times> string list list" where
  "add_job counts names statuses i acc =
     (let (sums, lines, rows) = acc;
          byStatus = (case counts i of None \<Rightarrow> Map.empty | Some b \<Rightarrow> b);
          name = or_default i (names i);
          (sums', parts, row) = fold (add_status byStatus) statuses (sums, [], [name])
      in (sums', lines @ [name @ '': '' @ join_with ''  '' parts], rows @ [row]))"

definition report_message :: "config \<Rightarrow> time \<Rightarrow> string \<Rightarrow> report_dataset \<Rightarrow> server \<Rightarrow> notification_message" where
  "report_message cfg now name ds s =
     (let cutoff = now - WINDOW_DAYS (ds_window ds) * 86400000;
          (counts, names0) = counts_and_names ds cutoff s;
          nameRows = job_name_rows ds s;
          names = fold add_name nameRows names0;
          integrityLines = map (\<lambda>(j, r). or_default (bj_name j) (names (bj_id j)) @ '': '' @ integrityLabel r) nameRows;
          (sums, lines, rows) = fold (add_job counts names (ds_statuses ds)) (ds_job_ids ds)
                                  (\<lparr>rs_success = 0, rs_failed = 0, rs_totals = Map.empty\<rparr>, [], []);
          foot = (if length rows > 1
                  then Some (''Total'' # map (\<lambda>st. show_nat (or_default 0 (rs_totals sums st))) (ds_statuses ds))
                  else None);
          windowLabel = WINDOW_LABEL (ds_window ds);
          totalsLabel = STATUS_ICON Success @ '' '' @ show_nat (rs_success sums) @ ''  '' @
                        STATUS_ICON Failed @ '' '' @ show_nat (rs_failed sums);
          body = join_with nl
                   ([''Report: '' @ name, ''Window: '' @ windowLabel, []] @
                    (if lines \<noteq> [] then lines else [''No jobs selected.'']) @ [[], ''Total: '' @ totalsLabel] @
                    (if integrityLines \<noteq> [] then [[], ''Integrity:''] @ integrityLines else []))
      in \<lparr>nm_success = (\<not> rs_failed sums > 0),
          nm_title = (if rs_failed sums > 0 then emoji_warning else emoji_ok) @ '' Backup report: '' @ name,
          nm_body = body, nm_job_name = name, nm_url = base_url cfg @ ''/#/reports'',
          nm_meta = Some [(''Window'', windowLabel), (''Total'', totalsLabel)],
          nm_table = (if rows \<noteq> []
                      then Some \<lparr>mt_head = ''Job'' # map STATUS_ICON (ds_statuses ds), mt_rows = rows, mt_foot = foot\<rparr>
                      else None)\<rparr>)"

section \<open>The service\<close>

record create_report =
  nr_name :: string
  nr_tags :: "string list option"
  nr_dataset :: report_dataset
  nr_cron_expr :: string
  nr_channel_ids :: "uuid list"
  nr_enabled :: "bool option"

record update_report =
  ur_name :: "string option"
  ur_tags :: "string list option"
  ur_dataset :: "report_dataset option"
  ur_cron_expr :: "string option"
  ur_channel_ids :: "uuid list option"
  ur_enabled :: "bool option"

definition report_by_id :: "uuid \<Rightarrow> server \<Rightarrow> report option" where
  "report_by_id i s = select_first (\<lambda>r. rp_id r = i) (reports s)"

definition report_slugs :: "server \<Rightarrow> (uuid \<times> string) list" where
  "report_slugs s = map (\<lambda>r. (rp_id r, rp_slug r)) (reports s)"

definition reports_listEnabled :: "server \<Rightarrow> report list" where
  "reports_listEnabled s = select_where rp_enabled (reports s)"

definition report_getRow :: "server \<Rightarrow> uuid \<Rightarrow> report result" where
  "report_getRow s i =
     (case report_by_id i s of None \<Rightarrow> Inl (NotFound ''Report not found'') | Some r \<Rightarrow> Inr r)"

definition report_validateCron :: "(string \<Rightarrow> bool) \<Rightarrow> string \<Rightarrow> unit result" where
  "report_validateCron valid_cron e =
     (if valid_cron e then Inr () else Inl (BadRequest (''Invalid cron expression: '' @ e)))"

definition report_create ::
  "(string \<Rightarrow> bool) \<Rightarrow> uuid \<Rightarrow> request_user \<Rightarrow> create_report \<Rightarrow> server \<Rightarrow> report result \<times> server" where
  "report_create valid_cron new_id u dto s =
     (case report_validateCron valid_cron (nr_cron_expr dto) of
        Inl e \<Rightarrow> (Inl e, s)
      | Inr _ \<Rightarrow>
          (let r = \<lparr>rp_id = new_id, rp_name = nr_name dto,
                    rp_slug = uniqueSlug (report_slugs s) (nr_name dto) None,
                    rp_tags = or_empty (nr_tags dto), rp_dataset = nr_dataset dto,
                    rp_cron_expr = nr_cron_expr dto, rp_channel_ids = nr_channel_ids dto,
                    rp_enabled = or_default True (nr_enabled dto), rp_last_run_at = None,
                    rp_owner_id = ru_id u\<rparr>
           in (Inr r, s\<lparr>reports := insert_row r (reports s)\<rparr>)))"

definition report_patch :: "server \<Rightarrow> uuid \<Rightarrow> update_report \<Rightarrow> report \<Rightarrow> report" where
  "report_patch s i dto =
     set_opt (\<lambda>v. rp_enabled_update (\<lambda>_. v)) (ur_enabled dto)
     \<circ> set_opt (\<lambda>v. rp_channel_ids_update (\<lambda>_. v)) (ur_channel_ids dto)
     \<circ> set_opt (\<lambda>v. rp_cron_expr_update (\<lambda>_. v)) (ur_cron_expr dto)
     \<circ> set_opt (\<lambda>v. rp_dataset_update (\<lambda>_. v)) (ur_dataset dto)
     \<circ> set_opt (\<lambda>v. rp_tags_update (\<lambda>_. v)) (ur_tags dto)
     \<circ> set_opt (\<lambda>v. rp_name_update (\<lambda>_. v) \<circ> rp_slug_update (\<lambda>_. uniqueSlug (report_slugs s) v (Some i))) (ur_name dto)"

definition report_update ::
  "(string \<Rightarrow> bool) \<Rightarrow> uuid \<Rightarrow> update_report \<Rightarrow> server \<Rightarrow> report result \<times> server" where
  "report_update valid_cron i dto s =
     (case report_getRow s i of
        Inl e \<Rightarrow> (Inl e, s)
      | Inr _ \<Rightarrow>
          (case (if or_empty (ur_cron_expr dto) \<noteq> [] then report_validateCron valid_cron (or_empty (ur_cron_expr dto)) else Inr ()) of
             Inl e \<Rightarrow> (Inl e, s)
           | Inr _ \<Rightarrow>
               (let s' = s\<lparr>reports := update_where (\<lambda>r. rp_id r = i) (report_patch s i dto) (reports s)\<rparr>
                in (report_getRow s' i, s'))))"

definition report_remove :: "uuid \<Rightarrow> server \<Rightarrow> unit result \<times> server" where
  "report_remove i s =
     (case report_getRow s i of
        Inl e \<Rightarrow> (Inl e, s)
      | Inr _ \<Rightarrow> (Inr (), s\<lparr>reports := delete_where (\<lambda>r. rp_id r = i) (reports s)\<rparr>))"

definition generate :: "crypto \<Rightarrow> config \<Rightarrow> time \<Rightarrow> uuid \<Rightarrow> server \<Rightarrow> unit result \<times> server" where
  "generate c cfg now i s =
     (case report_getRow s i of
        Inl e \<Rightarrow> (Inl e, s)
      | Inr r \<Rightarrow>
          (let s1 = sendToChannels c (rp_channel_ids r) (report_message cfg now (rp_name r) (rp_dataset r) s) s
           in (Inr (), s1\<lparr>reports := update_where (\<lambda>q. rp_id q = i) (\<lambda>q. q\<lparr>rp_last_run_at := Some now\<rparr>) (reports s1)\<rparr>)))"

section \<open>The scheduler\<close>

definition reportCronName :: "uuid \<Rightarrow> string" where
  "reportCronName i = ''report:'' @ i"

definition report_cron :: "string \<Rightarrow> bool" where
  "report_cron name \<longleftrightarrow> starts_with ''report:'' name"

text \<open>
  An invalid expression makes the constructor of the cron job throw, a name that is taken the
  registry; both are logged.
\<close>

definition report_register :: "(string \<Rightarrow> bool) \<Rightarrow> report \<Rightarrow> cron_registry \<Rightarrow> cron_registry" where
  "report_register valid_cron r reg =
     (if valid_cron (rp_cron_expr r) \<and> reportCronName (rp_id r) \<notin> fst ` set reg
      then reg @ [(reportCronName (rp_id r), rp_cron_expr r)] else reg)"

definition reports_syncAll :: "(string \<Rightarrow> bool) \<Rightarrow> server \<Rightarrow> cron_registry \<Rightarrow> cron_registry" where
  "reports_syncAll valid_cron s reg =
     fold (report_register valid_cron) (reports_listEnabled s) (filter (\<lambda>(n, e). \<not> report_cron n) reg)"

definition report_unregister :: "uuid \<Rightarrow> cron_registry \<Rightarrow> cron_registry" where
  "report_unregister i reg = filter (\<lambda>(n, e). n \<noteq> reportCronName i) reg"

text \<open>
  \<open>sync\<close> awaits the row between taking the old registration away and adding the new one:
  \<open>report_enter\<close> is what follows the read.
\<close>

definition report_enter :: "(string \<Rightarrow> bool) \<Rightarrow> report result \<Rightarrow> cron_registry \<Rightarrow> cron_registry" where
  "report_enter valid_cron row reg =
     (case row of
        Inr r \<Rightarrow> if rp_enabled r then report_register valid_cron r reg else reg
      | Inl _ \<Rightarrow> reg)"

definition report_sync :: "(string \<Rightarrow> bool) \<Rightarrow> server \<Rightarrow> uuid \<Rightarrow> cron_registry \<Rightarrow> cron_registry" where
  "report_sync valid_cron s i reg = report_enter valid_cron (report_getRow s i) (report_unregister i reg)"

definition report_trigger :: "crypto \<Rightarrow> config \<Rightarrow> time \<Rightarrow> uuid \<Rightarrow> server \<Rightarrow> server" where
  "report_trigger c cfg now i s = snd (generate c cfg now i s)"

text \<open>The routes that change a report and then its registration.\<close>

definition route_report_create ::
  "(string \<Rightarrow> bool) \<Rightarrow> uuid \<Rightarrow> request_user \<Rightarrow> create_report \<Rightarrow> server \<times> cron_registry \<Rightarrow> report result \<times> server \<times> cron_registry" where
  "route_report_create valid_cron new_id u dto sr =
     (case report_create valid_cron new_id u dto (fst sr) of
        (Inl e, s) \<Rightarrow> (Inl e, s, snd sr)
      | (Inr r, s) \<Rightarrow> (Inr r, s, report_sync valid_cron s (rp_id r) (snd sr)))"

definition route_report_update ::
  "(string \<Rightarrow> bool) \<Rightarrow> string \<Rightarrow> update_report \<Rightarrow> server \<times> cron_registry \<Rightarrow> report result \<times> server \<times> cron_registry" where
  "route_report_update valid_cron idOrSlug dto sr =
     (case slug_resolve (report_slugs (fst sr)) idOrSlug of
        Inl e \<Rightarrow> (Inl e, sr)
      | Inr i \<Rightarrow>
          (case report_update valid_cron i dto (fst sr) of
             (Inl e, s) \<Rightarrow> (Inl e, s, snd sr)
           | (Inr r, s) \<Rightarrow> (Inr r, s, report_sync valid_cron s (rp_id r) (snd sr))))"

definition route_report_remove :: "string \<Rightarrow> server \<times> cron_registry \<Rightarrow> unit result \<times> server \<times> cron_registry" where
  "route_report_remove idOrSlug sr =
     (case slug_resolve (report_slugs (fst sr)) idOrSlug of
        Inl e \<Rightarrow> (Inl e, sr)
      | Inr i \<Rightarrow>
          (case report_remove i (fst sr) of
             (Inl e, s) \<Rightarrow> (Inl e, s, snd sr)
           | (Inr _, s) \<Rightarrow> (Inr (), s, report_unregister i (snd sr))))"

definition route_report_run :: "crypto \<Rightarrow> config \<Rightarrow> time \<Rightarrow> string \<Rightarrow> server \<Rightarrow> unit result \<times> server" where
  "route_report_run c cfg now idOrSlug s =
     (case slug_resolve (report_slugs s) idOrSlug of
        Inl e \<Rightarrow> (Inl e, s) | Inr i \<Rightarrow> generate c cfg now i s)"

section \<open>What the table of a report shows\<close>

interpretation bjrow: row_format bj_id "\<lambda>f. \<forall>r. bj_id (f r) = bj_id r"
  by unfold_locales simp

definition counted :: "server \<Rightarrow> time \<Rightarrow> uuid \<Rightarrow> run_status \<Rightarrow> nat" where
  "counted s cutoff i st =
     count_where (\<lambda>r. jr_job_id r = i \<and> jr_kind r = KBackup \<and> jr_status r = st \<and> jr_created_at r > cutoff) (job_runs s)"

definition job_label :: "server \<Rightarrow> uuid \<Rightarrow> string" where
  "job_label s i = (case backup_job_by_id i s of None \<Rightarrow> i | Some j \<Rightarrow> bj_name j)"

definition runs_have_jobs :: "server \<Rightarrow> bool" where
  "runs_have_jobs s \<longleftrightarrow> (\<forall>r \<in> set (job_runs s). backup_job_by_id (jr_job_id r) s \<noteq> None)"

definition lookup2 :: "run_counts \<Rightarrow> uuid \<Rightarrow> run_status \<Rightarrow> nat option" where
  "lookup2 m i st = (case m i of None \<Rightarrow> None | Some b \<Rightarrow> b st)"

lemma grouped_mem: "(k, c) \<in> set (grouped ks) \<longleftrightarrow> k \<in> set ks \<and> c = count_list ks k"
  by (auto simp: grouped_def)

lemma fold_count_row_lookup:
  assumes "\<forall>((i', n'), c') \<in> set rows. i' = i \<and> snd n' = st \<longrightarrow> c' = c"
  shows "lookup2 (fst (fold count_row rows cn)) i st =
    (if \<exists>n c'. ((i, n, st), c') \<in> set rows then Some c else lookup2 (fst cn) i st)"
  using assms
proof (induction rows arbitrary: cn)
  case (Cons row rows)
  obtain i' n' st' c' where row: "row = ((i', n', st'), c')" by (metis prod.exhaust)
  have step: "lookup2 (fst (count_row row cn)) i st = (if i' = i \<and> st' = st then Some c' else lookup2 (fst cn) i st)"
    by (auto simp: count_row_def lookup2_def row split: option.splits)
  show ?case using Cons.IH [of "count_row row cn"] Cons.prems step row by auto
qed simp

lemma find_member: "find P xs = Some x \<Longrightarrow> x \<in> set xs \<and> P x"
  using select_first_Some [of P xs x] by (simp add: select_first_def)

lemma fold_count_row_names:
  "snd (fold count_row rows cn) i =
     (case find (\<lambda>row. fst (fst row) = i) (rev rows) of None \<Rightarrow> snd cn i | Some ((_, n, _), _) \<Rightarrow> Some n)"
  by (induction rows arbitrary: cn rule: rev_induct)
    (auto simp: count_row_def split: option.splits prod.splits)

lemma report_runs_names:
  assumes "(i, n, st) \<in> set (report_runs ds cutoff s)"
  shows "n = job_label s i"
  using assms by (auto simp: report_runs_def map_filter_def job_label_def split: if_splits)

lemma count_list_report_runs:
  assumes "i \<in> set (ds_job_ids ds)" "st \<in> set (ds_statuses ds)" "runs_have_jobs s"
  shows "count_list (report_runs ds cutoff s) (i, job_label s i, st) = counted s cutoff i st"
proof -
  let ?f = "\<lambda>r. if jr_job_id r \<in> set (ds_job_ids ds) \<and> jr_kind r = KBackup \<and> jr_status r \<in> set (ds_statuses ds) \<and>
      jr_created_at r > cutoff then map_option (\<lambda>j. (jr_job_id r, bj_name j, jr_status r)) (backup_job_by_id (jr_job_id r) s) else None"
  let ?P = "\<lambda>r. jr_job_id r = i \<and> jr_kind r = KBackup \<and> jr_status r = st \<and> jr_created_at r > cutoff"
  have "count_list (List.map_filter ?f rs) (i, job_label s i, st) = length (filter ?P rs)"
    if "\<forall>r \<in> set rs. backup_job_by_id (jr_job_id r) s \<noteq> None" for rs
    using that assms(1,2) by (induction rs) (auto simp: map_filter_simps job_label_def split: option.splits)
  then show ?thesis using assms(3) by (simp add: report_runs_def counted_def count_where_def runs_have_jobs_def)
qed

lemma lookup_counts:
  assumes "i \<in> set (ds_job_ids ds)" "st \<in> set (ds_statuses ds)" "runs_have_jobs s"
  shows "or_default 0 (lookup2 (fst (counts_and_names ds cutoff s)) i st) = counted s cutoff i st"
proof -
  let ?ks = "report_runs ds cutoff s"
  have mem: "n = job_label s i" if "(i, n, st) \<in> set ?ks" for n using report_runs_names that by blast
  have "\<forall>((i', n'), c') \<in> set (grouped ?ks). i' = i \<and> snd n' = st \<longrightarrow> c' = count_list ?ks (i, job_label s i, st)"
    by (auto simp: grouped_mem dest: report_runs_names)
  note fold_count_row_lookup [OF this, of "(Map.empty, Map.empty)"]
  moreover have "(\<exists>n c'. ((i, n, st), c') \<in> set (grouped ?ks)) \<longleftrightarrow> (i, job_label s i, st) \<in> set ?ks"
    using mem by (auto simp: grouped_mem)
  moreover have "ds_job_ids ds \<noteq> []" "ds_statuses ds \<noteq> []" using assms(1,2) by auto
  ultimately show ?thesis
    using count_list_report_runs [OF assms, of cutoff] count_notin [of "(i, job_label s i, st)" ?ks]
    by (auto simp: counts_and_names_def lookup2_def or_default_def)
qed

lemma fold_add_name:
  "fold add_name rows names i =
     (case names i of Some n \<Rightarrow> Some n
      | None \<Rightarrow> map_option (bj_name \<circ> fst) (find (\<lambda>jr. bj_id (fst jr) = i) rows))"
  by (induction rows arbitrary: names) (auto simp: add_name_def split: option.splits)

lemma names_label:
  assumes "jobs_paired s" "i \<in> set (ds_job_ids ds)"
  shows "or_default i (fold add_name (job_name_rows ds s) (snd (counts_and_names ds cutoff s)) i) = job_label s i"
proof (cases "snd (counts_and_names ds cutoff s) i")
  case (Some n)
  then have "\<exists>st c. ((i, n, st), c) \<in> set (grouped (report_runs ds cutoff s))"
    by (auto simp: counts_and_names_def fold_count_row_names split: option.splits if_splits dest!: find_member) blast
  then have "n = job_label s i" using report_runs_names by (auto simp: grouped_mem)
  with Some show ?thesis by (simp add: fold_add_name or_default_def)
next
  case None
  have ne: "ds_job_ids ds \<noteq> []" using assms(2) by auto
  have row: "\<exists>r. (j, r) \<in> set (job_name_rows ds s)" if "j \<in> set (backup_jobs s)" "bj_id j = i" for j
  proof -
    have "bj_repository_id j \<in> re_id ` set (repositories s)" using assms(1) that(1) by (auto simp: jobs_paired_def)
    then obtain r where "repository_by_id (bj_repository_id j) s = Some r"
      using select_first_None [of "\<lambda>r. re_id r = bj_repository_id j" "repositories s"]
      by (fastforce simp: repository_by_id_def)
    then have "(j, r) \<in> set (job_rows s)" using that(1) by (force simp: job_rows_def map_filter_def image_iff)
    then show ?thesis using that ne assms(2) by (auto simp: job_name_rows_def)
  qed
  have sub: "fst jr \<in> set (backup_jobs s)" if "jr \<in> set (job_name_rows ds s)" for jr
    using that by (auto simp: job_name_rows_def job_rows_def map_filter_def split: if_splits)
  show ?thesis
  proof (cases "find (\<lambda>jr. bj_id (fst jr) = i) (job_name_rows ds s)")
    case None': None
    have "backup_job_by_id i s = None"
      using row None' by (auto simp: backup_job_by_id_def select_first_None find_None_iff)
    then show ?thesis using None None' by (simp add: fold_add_name or_default_def job_label_def)
  next
    case (Some jr)
    then have jr: "jr \<in> set (job_name_rows ds s)" "bj_id (fst jr) = i"
      by (auto dest: find_member)
    have "backup_job_by_id i s = Some (fst jr)"
      using sub [OF jr(1)] jr(2) assms(1) bjrow.by_key_unique [of "backup_jobs s" "fst jr"]
      by (simp add: backup_job_by_id_def jobs_paired_def bjrow.by_key_def bjrow.keys_def)
    then show ?thesis using None Some by (simp add: fold_add_name or_default_def job_label_def)
  qed
qed

lemma fold_add_status:
  "fold (add_status b) sts (sums, parts, row) =
     (\<lparr>rs_success = rs_success sums + (\<Sum>st\<leftarrow>sts. if st = Success then or_default 0 (b st) else 0),
       rs_failed = rs_failed sums + (\<Sum>st\<leftarrow>sts. if st = Failed then or_default 0 (b st) else 0),
       rs_totals = (\<lambda>st. if st \<in> set sts then Some (or_default 0 (rs_totals sums st) + count_list sts st * or_default 0 (b st))
                         else rs_totals sums st)\<rparr>,
      parts @ map (\<lambda>st. STATUS_ICON st @ '' '' @ show_nat (or_default 0 (b st))) sts,
      row @ map (\<lambda>st. show_nat (or_default 0 (b st))) sts)"
proof (induction sts arbitrary: sums parts row)
  case (Cons st sts)
  then show ?case by (auto simp: add_status_def or_default_def Let_def fun_eq_iff split: option.splits)
qed (simp add: fun_eq_iff)

lemma sum_only: "(\<Sum>st\<leftarrow>ss. if st = x then m st else 0) = count_list ss x * m x" for m :: "'a \<Rightarrow> nat"
  by (induction ss) auto

lemma count_list_distinct: "distinct xs \<Longrightarrow> count_list xs x = (if x \<in> set xs then 1 else 0)"
  by (induction xs) auto

text \<open>The sums after the loop over the jobs, for cells \<open>n i st\<close> read from the map of counts.\<close>

lemma add_job_step:
  assumes "\<And>st. st \<in> set sts \<Longrightarrow> or_default 0 (lookup2 counts i st) = m st" "distinct sts"
    "add_job counts names sts i (sums, lines, rows) = (sums', lines', rows')"
  shows "rows' = rows @ [or_default i (names i) # map (\<lambda>st. show_nat (m st)) sts]"
    "rs_failed sums' = rs_failed sums + (if Failed \<in> set sts then m Failed else 0)"
    "\<forall>st \<in> set sts. or_default 0 (rs_totals sums' st) = or_default 0 (rs_totals sums st) + m st"
proof -
  let ?b = "case counts i of None \<Rightarrow> Map.empty | Some b \<Rightarrow> b"
  have cell: "or_default 0 (?b st) = m st" if "st \<in> set sts" for st
    using assms(1) [OF that] by (auto simp: lookup2_def split: option.splits)
  show "rows' = rows @ [or_default i (names i) # map (\<lambda>st. show_nat (m st)) sts]"
    "rs_failed sums' = rs_failed sums + (if Failed \<in> set sts then m Failed else 0)"
    "\<forall>st \<in> set sts. or_default 0 (rs_totals sums' st) = or_default 0 (rs_totals sums st) + m st"
    using assms(3) cell
    by (auto simp: add_job_def fold_add_status Let_def sum_only count_list_distinct [OF assms(2)] or_default_def)
qed

lemma fold_add_job:
  assumes "\<And>i st. i \<in> set ids \<Longrightarrow> st \<in> set sts \<Longrightarrow> or_default 0 (lookup2 counts i st) = n i st"
    "\<And>i. i \<in> set ids \<Longrightarrow> or_default i (names i) = label i"
    "distinct sts" "fold (add_job counts names sts) ids (sums, lines, rows) = (sums', lines', rows')"
  shows "rows' = rows @ map (\<lambda>i. label i # map (\<lambda>st. show_nat (n i st)) sts) ids \<and>
    rs_failed sums' = rs_failed sums + (if Failed \<in> set sts then \<Sum>i\<leftarrow>ids. n i Failed else 0) \<and>
    (\<forall>st \<in> set sts. or_default 0 (rs_totals sums' st) = or_default 0 (rs_totals sums st) + (\<Sum>i\<leftarrow>ids. n i st))"
  using assms
proof (induction ids arbitrary: sums lines rows)
  case (Cons i ids)
  obtain sums1 lines1 rows1 where f: "add_job counts names sts i (sums, lines, rows) = (sums1, lines1, rows1)"
    by (metis prod.exhaust)
  have "or_default 0 (lookup2 counts i st) = n i st" if "st \<in> set sts" for st using Cons.prems(1) that by simp
  note step = add_job_step [OF this Cons.prems(3) f]
  have "rows' = rows1 @ map (\<lambda>i. label i # map (\<lambda>st. show_nat (n i st)) sts) ids \<and>
    rs_failed sums' = rs_failed sums1 + (if Failed \<in> set sts then \<Sum>i\<leftarrow>ids. n i Failed else 0) \<and>
    (\<forall>st \<in> set sts. or_default 0 (rs_totals sums' st) = or_default 0 (rs_totals sums1 st) + (\<Sum>i\<leftarrow>ids. n i st))"
    using Cons.prems(4) f by (intro Cons.IH) (simp_all add: Cons.prems)
  with step Cons.prems(2) [of i] show ?case by simp
qed simp

lemma report_table:
  assumes "jobs_paired s" "runs_have_jobs s" "distinct (ds_statuses ds)" "ds_job_ids ds \<noteq> []"
    "cutoff = now - WINDOW_DAYS (ds_window ds) * 86400000"
  shows "nm_table (report_message cfg now name ds s) = Some
      \<lparr>mt_head = ''Job'' # map STATUS_ICON (ds_statuses ds),
       mt_rows = map (\<lambda>i. job_label s i # map (\<lambda>st. show_nat (counted s cutoff i st)) (ds_statuses ds)) (ds_job_ids ds),
       mt_foot = (if length (ds_job_ids ds) > 1
                  then Some (''Total'' # map (\<lambda>st. show_nat (\<Sum>i\<leftarrow>ds_job_ids ds. counted s cutoff i st)) (ds_statuses ds))
                  else None)\<rparr> \<and>
    nm_success (report_message cfg now name ds s) =
      (Failed \<in> set (ds_statuses ds) \<longrightarrow> (\<forall>i \<in> set (ds_job_ids ds). counted s cutoff i Failed = 0))"
proof -
  obtain counts names0 where cn: "counts_and_names ds cutoff s = (counts, names0)" by fastforce
  define names where "names = fold add_name (job_name_rows ds s) names0"
  obtain sums ls rows where f: "fold (add_job counts names (ds_statuses ds)) (ds_job_ids ds)
      (\<lparr>rs_success = 0, rs_failed = 0, rs_totals = Map.empty\<rparr>, [], []) = (sums, ls, rows)" by (metis prod.exhaust)
  have "or_default 0 (lookup2 counts i st) = counted s cutoff i st" if "i \<in> set (ds_job_ids ds)" "st \<in> set (ds_statuses ds)" for i st
    using lookup_counts [OF that assms(2), of cutoff] cn by simp
  moreover have "or_default i (names i) = job_label s i" if "i \<in> set (ds_job_ids ds)" for i
    using names_label [OF assms(1) that, of cutoff] cn by (simp add: names_def)
  ultimately have r: "rows = map (\<lambda>i. job_label s i # map (\<lambda>st. show_nat (counted s cutoff i st)) (ds_statuses ds)) (ds_job_ids ds)"
    "rs_failed sums = (if Failed \<in> set (ds_statuses ds) then \<Sum>i\<leftarrow>ds_job_ids ds. counted s cutoff i Failed else 0)"
    "\<forall>st \<in> set (ds_statuses ds). or_default 0 (rs_totals sums st) = (\<Sum>i\<leftarrow>ds_job_ids ds. counted s cutoff i st)"
    using fold_add_job [OF _ _ assms(3) f, of "counted s cutoff" "job_label s"] by (auto simp: or_default_def)
  have ne: "rows \<noteq> []" using assms(4) r(1) by simp
  have m: "nm_table (report_message cfg now name ds s) = Some
      \<lparr>mt_head = ''Job'' # map STATUS_ICON (ds_statuses ds), mt_rows = rows,
       mt_foot = (if length rows > 1
                  then Some (''Total'' # map (\<lambda>st. show_nat (or_default 0 (rs_totals sums st))) (ds_statuses ds))
                  else None)\<rparr>"
    "nm_success (report_message cfg now name ds s) = (\<not> rs_failed sums > 0)"
    using ne by (simp_all add: report_message_def assms(5) [symmetric] cn names_def [symmetric] f Let_def)
  show ?thesis using r(3) unfolding m(1,2) by (auto simp: r(1,2))
qed

section \<open>Two schedulers on one registry\<close>

text \<open>
  A scheduler owns the registrations with its names: rebuilding them gives exactly what it
  wants and leaves every other registration alone. Two such schedulers with different names
  never disturb each other.
\<close>

definition entries :: "(string \<Rightarrow> bool) \<Rightarrow> cron_registry \<Rightarrow> (string \<times> string) set" where
  "entries owns reg = {e \<in> set reg. owns (fst e)}"

locale cron_owner =
  fixes owns :: "string \<Rightarrow> bool" and rebuild :: "server \<Rightarrow> cron_registry \<Rightarrow> cron_registry"
    and wanted :: "server \<Rightarrow> (string \<times> string) set"
  assumes rebuild_own: "entries owns (rebuild s reg) = wanted s"
    and rebuild_other: "entries (\<lambda>n. \<not> owns n) (rebuild s reg) = entries (\<lambda>n. \<not> owns n) reg"
begin

lemma rebuild_keeps:
  assumes "\<And>n. other n \<Longrightarrow> \<not> owns n"
  shows "entries other (rebuild s reg) = entries other reg"
proof -
  have "entries other r = {e \<in> entries (\<lambda>n. \<not> owns n) r. other (fst e)}" for r
    using assms by (auto simp: entries_def)
  then show ?thesis by (simp add: rebuild_other)
qed

end

locale cron_owners =
  left: cron_owner owns rebuild wanted + right: cron_owner owns' rebuild' wanted'
  for owns :: "string \<Rightarrow> bool" and rebuild wanted and owns' :: "string \<Rightarrow> bool" and rebuild' wanted' +
  assumes apart: "owns n \<Longrightarrow> \<not> owns' n"
begin

lemma left_stays: "entries owns (rebuild' s reg) = entries owns reg"
  by (rule right.rebuild_keeps) (rule apart)

lemma right_stays: "entries owns' (rebuild s reg) = entries owns' reg"
  by (rule left.rebuild_keeps) (use apart in blast)

lemma both_rebuilt:
  "entries owns (rebuild' s (rebuild s reg)) = wanted s" "entries owns' (rebuild' s (rebuild s reg)) = wanted' s"
  "entries owns (rebuild s (rebuild' s reg)) = wanted s" "entries owns' (rebuild s (rebuild' s reg)) = wanted' s"
  by (simp_all add: left_stays right_stays left.rebuild_own right.rebuild_own)

end

definition wanted_jobs :: "(string \<Rightarrow> bool) \<Rightarrow> server \<Rightarrow> (string \<times> string) set" where
  "wanted_jobs vc s = set (concat (map (wanted_crons vc) (map fst (listEnabled s))))"

definition wanted_reports :: "(string \<Rightarrow> bool) \<Rightarrow> server \<Rightarrow> (string \<times> string) set" where
  "wanted_reports vc s = set (fold (report_register vc) (reports_listEnabled s) [])"

lemma entries_filter: "entries owns reg = set (filter (\<lambda>(n, e). owns n) reg)"
  by (auto simp: entries_def)

lemma report_cron_name [simp]: "report_cron (reportCronName i)"
  by (simp add: report_cron_def reportCronName_def starts_with_def)

lemma reportCronName_inject [simp]: "reportCronName i = reportCronName j \<longleftrightarrow> i = j"
  by (simp add: reportCronName_def)

lemma fold_register_entries:
  assumes "\<forall>(n, e) \<in> set other. \<not> report_cron n"
  shows "fold (report_register vc) rs (other @ own) = other @ fold (report_register vc) rs own"
  using assms
proof (induction rs arbitrary: own)
  case (Cons r rs)
  have "reportCronName (rp_id r) \<notin> fst ` set other" using Cons.prems report_cron_name by fastforce
  then have "report_register vc r (other @ own) = other @ report_register vc r own"
    by (auto simp: report_register_def)
  with Cons show ?case by simp
qed simp

lemma fold_register_owned:
  "\<forall>(n, e) \<in> set own. report_cron n \<Longrightarrow> \<forall>(n, e) \<in> set (fold (report_register vc) rs own). report_cron n"
proof (induction rs arbitrary: own)
  case (Cons r rs)
  have "\<forall>(n, e) \<in> set (report_register vc r own). report_cron n"
    using Cons.prems by (auto simp: report_register_def)
  from Cons.IH [OF this] show ?case by simp
qed simp

lemma reports_syncAll_split:
  "reports_syncAll vc s reg = filter (\<lambda>(n, e). \<not> report_cron n) reg @ fold (report_register vc) (reports_listEnabled s) []"
  using fold_register_entries [of "filter (\<lambda>(n, e). \<not> report_cron n) reg" vc "reports_listEnabled s" "[]"]
  by (auto simp: reports_syncAll_def)

lemma report_not_ours: "ours n \<Longrightarrow> \<not> report_cron n"
  by (cases n) (auto simp: ours_def report_cron_def starts_with_def)

interpretation schedules: cron_owners ours "syncAll vc" "wanted_jobs vc" report_cron "reports_syncAll vc" "wanted_reports vc" for vc
proof unfold_locales
  show "entries ours (syncAll vc s reg) = wanted_jobs vc s" for s reg
    by (simp add: entries_filter syncAll_exact wanted_jobs_def)
  show "entries (\<lambda>n. \<not> ours n) (syncAll vc s reg) = entries (\<lambda>n. \<not> ours n) reg" for s reg
    by (simp add: entries_filter syncAll_exact)
  have own: "\<forall>(n, e) \<in> set (fold (report_register vc) (reports_listEnabled s) []). report_cron n" for s
    by (rule fold_register_owned) simp
  show "entries report_cron (reports_syncAll vc s reg) = wanted_reports vc s" for s reg
    using own [of s] by (auto simp: entries_def reports_syncAll_split wanted_reports_def)
  show "entries (\<lambda>n. \<not> report_cron n) (reports_syncAll vc s reg) = entries (\<lambda>n. \<not> report_cron n) reg" for s reg
    using own [of s] by (auto simp: entries_def reports_syncAll_split)
qed (rule report_not_ours)

section \<open>The schedule follows the reports\<close>

definition scheduled :: "(string \<Rightarrow> bool) \<Rightarrow> report list \<Rightarrow> (string \<times> string) set" where
  "scheduled vc rs = (\<lambda>r. (reportCronName (rp_id r), rp_cron_expr r)) ` {r \<in> set rs. rp_enabled r \<and> vc (rp_cron_expr r)}"

lemma fold_register_set:
  assumes "distinct (map rp_id rs)" "\<forall>r \<in> set rs. reportCronName (rp_id r) \<notin> fst ` set own" "\<forall>r \<in> set rs. rp_enabled r"
  shows "set (fold (report_register vc) rs own) = set own \<union> scheduled vc rs"
  using assms
proof (induction rs arbitrary: own)
  case (Cons r rs)
  have "fst ` set (report_register vc r own) \<subseteq> insert (reportCronName (rp_id r)) (fst ` set own)"
    by (auto simp: report_register_def)
  moreover have "rp_id q \<noteq> rp_id r" if "q \<in> set rs" for q using Cons.prems(1) that by (metis distinct.simps(2) image_eqI list.set_map list.simps(9))
  ultimately have "\<forall>q \<in> set rs. reportCronName (rp_id q) \<notin> fst ` set (report_register vc r own)"
    using Cons.prems(2) by (metis insertE list.set_intros(2) reportCronName_inject subsetD)
  then have "set (fold (report_register vc) rs (report_register vc r own)) = set (report_register vc r own) \<union> scheduled vc rs"
    using Cons.prems(1,3) by (intro Cons.IH) simp_all
  moreover have "set (report_register vc r own) = set own \<union> scheduled vc [r]"
    using Cons.prems by (auto simp: report_register_def scheduled_def)
  ultimately show ?case by (auto simp: scheduled_def)
qed (simp add: scheduled_def)

lemma distinct_map_filter_keys: "distinct (map f xs) \<Longrightarrow> distinct (map f (filter P xs))"
  by (induction xs) auto

lemma wanted_reports_scheduled:
  assumes "distinct (map rp_id (reports s))"
  shows "wanted_reports vc s = scheduled vc (reports s)"
proof -
  have "set (fold (report_register vc) (filter rp_enabled (reports s)) []) = set [] \<union> scheduled vc (filter rp_enabled (reports s))"
    using assms by (intro fold_register_set distinct_map_filter_keys) auto
  moreover have "scheduled vc (filter rp_enabled (reports s)) = scheduled vc (reports s)"
    by (simp add: scheduled_def conj_commute conj_left_commute)
  ultimately show ?thesis by (simp add: wanted_reports_def reports_listEnabled_def select_where_def)
qed

definition reports_scheduled :: "(string \<Rightarrow> bool) \<Rightarrow> server \<times> cron_registry \<Rightarrow> bool" where
  "reports_scheduled vc sr \<longleftrightarrow>
     distinct (map rp_id (reports (fst sr))) \<and> entries report_cron (snd sr) = scheduled vc (reports (fst sr))"

text \<open>Everything that touches reports or the registry: the routes, the ticks and the rebuilds of both schedulers.\<close>

inductive schedule_step :: "crypto \<Rightarrow> config \<Rightarrow> (string \<Rightarrow> bool) \<Rightarrow> server \<times> cron_registry \<Rightarrow> server \<times> cron_registry \<Rightarrow> bool"
  for c cfg vc where
  created: "i \<notin> rp_id ` set (reports (fst sr)) \<Longrightarrow> schedule_step c cfg vc sr (snd (route_report_create vc i u dto sr))"
| updated: "schedule_step c cfg vc sr (snd (route_report_update vc idOrSlug dto' sr))"
| removed: "schedule_step c cfg vc sr (snd (route_report_remove idOrSlug sr))"
| ticked: "schedule_step c cfg vc (s, reg) (report_trigger c cfg now i s, reg)"
| ran: "schedule_step c cfg vc (s, reg) (snd (route_report_run c cfg now idOrSlug s), reg)"
| rebuilt: "schedule_step c cfg vc (s, reg) (s, reports_syncAll vc s reg)"
| jobs_rebuilt: "schedule_step c cfg vc (s, reg) (s, syncAll vc s reg)"
| job_synced: "schedule_step c cfg vc (s, reg) (s, sync vc s j reg)"
| job_unregistered: "schedule_step c cfg vc (s, reg) (s, unregister j reg)"

interpretation rprow: row_format rp_id "\<lambda>f. \<forall>r. rp_id (f r) = rp_id r"
  by unfold_locales simp

lemma report_by_id_key: "report_by_id i s = rprow.by_key i (reports s)"
  by (simp add: report_by_id_def rprow.by_key_def)

definition but :: "uuid \<Rightarrow> (string \<times> string) set \<Rightarrow> (string \<times> string) set" where
  "but i es = {e \<in> es. fst e \<noteq> reportCronName i}"

lemma sync_entries:
  "entries report_cron (report_sync vc s i reg) =
     but i (entries report_cron reg) \<union> (case report_by_id i s of None \<Rightarrow> {} | Some r \<Rightarrow> scheduled vc [r])"
proof (cases "report_by_id i s")
  case None
  then show ?thesis
    by (auto simp: report_sync_def report_enter_def report_getRow_def report_unregister_def entries_def but_def)
next
  case (Some r)
  then have "rp_id r = i" by (auto simp: report_by_id_key dest: rprow.by_key_in)
  with Some show ?thesis
    by (auto simp: report_sync_def report_enter_def report_getRow_def report_unregister_def entries_def but_def
        report_register_def scheduled_def)
qed

lemma scheduled_split:
  assumes "distinct (map rp_id rs)"
  shows "scheduled vc rs = but i (scheduled vc rs) \<union> (case rprow.by_key i rs of None \<Rightarrow> {} | Some r \<Rightarrow> scheduled vc [r])"
proof -
  have "e \<in> (case rprow.by_key i rs of None \<Rightarrow> {} | Some r \<Rightarrow> scheduled vc [r])"
    if e: "e \<in> scheduled vc rs" "fst e = reportCronName i" for e
  proof -
    obtain r where r: "r \<in> set rs" "rp_id r = i" "rp_enabled r" "vc (rp_cron_expr r)" "e = (reportCronName (rp_id r), rp_cron_expr r)"
      using e by (auto simp: scheduled_def)
    then have "rprow.by_key i rs = Some r" using assms rprow.by_key_unique [of rs r] by (simp add: rprow.keys_def)
    then show ?thesis using r by (simp add: scheduled_def)
  qed
  moreover have "scheduled vc [r] \<subseteq> scheduled vc rs" if "rprow.by_key i rs = Some r" for r
    using rprow.by_key_in [OF that] by (auto simp: scheduled_def)
  ultimately show ?thesis unfolding but_def by (cases "rprow.by_key i rs") (fastforce, auto)
qed

lemma but_scheduled_cong:
  assumes "\<And>r. rp_id r \<noteq> i \<Longrightarrow> r \<in> set rs \<longleftrightarrow> r \<in> set rs'"
  shows "but i (scheduled vc rs) = but i (scheduled vc rs')"
  using assms by (auto simp: but_def scheduled_def)

text \<open>A change of one row followed by the matching change of its registration.\<close>

lemma resync_scheduled:
  assumes "reports_scheduled vc (s, reg)" "distinct (map rp_id (reports s'))"
    "\<And>r. rp_id r \<noteq> i \<Longrightarrow> r \<in> set (reports s) \<longleftrightarrow> r \<in> set (reports s')"
  shows "reports_scheduled vc (s', report_sync vc s' i reg)"
  using assms scheduled_split [OF assms(2), of vc i] but_scheduled_cong [OF assms(3), of i vc]
  by (simp add: reports_scheduled_def sync_entries report_by_id_key)

lemma unregister_scheduled:
  assumes "reports_scheduled vc (s, reg)"
  shows "reports_scheduled vc (s\<lparr>reports := delete_where (\<lambda>r. rp_id r = i) (reports s)\<rparr>, report_unregister i reg)"
proof -
  have "entries report_cron (report_unregister i reg) = but i (entries report_cron reg)"
    by (auto simp: report_unregister_def entries_def but_def)
  moreover have "scheduled vc (delete_where (\<lambda>r. rp_id r = i) (reports s)) = but i (scheduled vc (reports s))"
    by (auto simp: scheduled_def but_def delete_where_def)
  ultimately show ?thesis
    using assms by (simp add: reports_scheduled_def delete_where_def distinct_map_filter_keys)
qed

lemma report_patch_id [simp]: "rp_id (report_patch s i dto r) = rp_id r"
  by (simp add: report_patch_def set_opt_def split: option.splits)

lemma create_scheduled:
  assumes "reports_scheduled vc sr" "i \<notin> rp_id ` set (reports (fst sr))"
  shows "reports_scheduled vc (snd (route_report_create vc i u dto sr))"
proof -
  obtain s reg where sr: "sr = (s, reg)" by fastforce
  obtain res s' where c: "report_create vc i u dto s = (res, s')" by fastforce
  show ?thesis
  proof (cases res)
    case (Inl e)
    then have "s' = s" using c by (auto simp: report_create_def Let_def split: sum.splits)
    then show ?thesis using assms(1) c Inl sr by (simp add: route_report_create_def)
  next
    case (Inr r)
    then have r: "rp_id r = i" "reports s' = reports s @ [r]"
      using c by (auto simp: report_create_def Let_def insert_row_def split: sum.splits)
    have "reports_scheduled vc (s', report_sync vc s' i reg)"
      using assms sr r by (intro resync_scheduled [of vc s reg]) (auto simp: reports_scheduled_def)
    then show ?thesis using c Inr r sr by (simp add: route_report_create_def)
  qed
qed

lemma update_scheduled:
  assumes "reports_scheduled vc sr"
  shows "reports_scheduled vc (snd (route_report_update vc x dto sr))"
proof -
  obtain s reg where sr: "sr = (s, reg)" by fastforce
  show ?thesis
  proof (cases "slug_resolve (report_slugs s) x")
    case (Inl e)
    then show ?thesis using assms sr by (simp add: route_report_update_def)
  next
    case (Inr i)
    obtain res s' where u: "report_update vc i dto s = (res, s')" by fastforce
    show ?thesis
    proof (cases res)
      case e: (Inl e)
      have "s' = s"
        using u e rprow.by_key_update [of "report_patch s i dto" i "\<lambda>r. rp_id r = i" "reports s"]
        by (auto simp: report_update_def report_getRow_def report_by_id_key Let_def split: sum.splits option.splits if_splits)
      then show ?thesis using assms Inr sr u e by (simp add: route_report_update_def)
    next
      case r: (Inr r)
      have s': "s' = s\<lparr>reports := update_where (\<lambda>r. rp_id r = i) (report_patch s i dto) (reports s)\<rparr>" "report_getRow s' i = Inr r"
        using u r by (auto simp: report_update_def Let_def split: sum.splits)
      then have "rp_id r = i" by (auto simp: report_getRow_def report_by_id_key split: option.splits dest: rprow.by_key_in)
      moreover have "reports_scheduled vc (s', report_sync vc s' i reg)"
        using assms sr by (intro resync_scheduled [of vc s reg]) (auto simp: reports_scheduled_def s'(1) map_update_where set_update_where)
      ultimately show ?thesis using u r Inr sr by (simp add: route_report_update_def)
    qed
  qed
qed

lemma remove_scheduled:
  assumes "reports_scheduled vc sr"
  shows "reports_scheduled vc (snd (route_report_remove x sr))"
  using assms unregister_scheduled [of vc "fst sr" "snd sr"]
  by (cases sr) (auto simp: route_report_remove_def report_remove_def split: sum.splits)

lemma generate_reports:
  "map (\<lambda>r. (rp_id r, rp_enabled r, rp_cron_expr r)) (reports (snd (generate c cfg now i s))) =
   map (\<lambda>r. (rp_id r, rp_enabled r, rp_cron_expr r)) (reports s)"
  by (auto simp: generate_def sendToChannels_def deliver_all_def Let_def map_update_where split: sum.splits)

lemma scheduled_cong:
  assumes "map (\<lambda>r. (rp_id r, rp_enabled r, rp_cron_expr r)) rs' = map (\<lambda>r. (rp_id r, rp_enabled r, rp_cron_expr r)) rs"
  shows "map rp_id rs' = map rp_id rs" "scheduled vc rs' = scheduled vc rs"
proof -
  show "map rp_id rs' = map rp_id rs" using arg_cong [OF assms, of "map fst"] by (simp add: comp_def)
  have sch: "scheduled vc qs = (\<lambda>(i, _, e). (reportCronName i, e)) `
      {x \<in> set (map (\<lambda>r. (rp_id r, rp_enabled r, rp_cron_expr r)) qs). fst (snd x) \<and> vc (snd (snd x))}" for qs
    by (force simp: scheduled_def image_iff)
  show "scheduled vc rs' = scheduled vc rs" unfolding sch assms ..
qed

lemma generate_scheduled:
  "reports_scheduled vc (s, reg) \<Longrightarrow> reports_scheduled vc (snd (generate c cfg now i s), reg)"
  using scheduled_cong [OF generate_reports] by (simp add: reports_scheduled_def)

lemma job_sync_entries:
  "entries report_cron (sync vc s j reg) = entries report_cron reg"
  "entries report_cron (unregister j reg) = entries report_cron reg"
proof -
  have names: "\<not> report_cron (cronName i)" "\<not> report_cron (checkCronName i)" for i
    by (simp_all add: report_cron_def cronName_def checkCronName_def starts_with_def)
  then show u: "entries report_cron (unregister j reg) = entries report_cron reg"
    by (auto simp: unregister_def entries_def)
  have "entries report_cron (registerAll vc b r) = entries report_cron r" for b r
    using names by (auto simp: registerAll_def register_def entries_def Let_def)
  with u show "entries report_cron (sync vc s j reg) = entries report_cron reg"
    by (simp add: sync_def split: sum.splits)
qed

lemma step_scheduled:
  assumes "schedule_step c cfg vc sr sr'" "reports_scheduled vc sr"
  shows "reports_scheduled vc sr'"
  using assms
proof (induction rule: schedule_step.induct)
  case (ran s reg now x)
  then show ?case by (auto simp: route_report_run_def generate_scheduled split: sum.splits)
next
  case (rebuilt s reg)
  then show ?case by (simp add: reports_scheduled_def schedules.right.rebuild_own wanted_reports_scheduled)
qed (simp_all add: create_scheduled update_scheduled remove_scheduled report_trigger_def generate_scheduled
      reports_scheduled_def [of vc "(_, syncAll _ _ _)"] reports_scheduled_def [of vc "(_, sync _ _ _ _)"]
      reports_scheduled_def [of vc "(_, unregister _ _)"] schedules.right_stays job_sync_entries, simp_all add: reports_scheduled_def)

section \<open>Theorems\<close>


definition sample_dataset :: report_dataset where
  "sample_dataset = \<lparr>ds_job_ids = [''j1'', ''j9''], ds_statuses = [Success, Failed], ds_window = W24h\<rparr>"


text \<open>
  A report goes to the enabled channels it names, as far as their secrets can be read; the time
  is recorded and nothing else of the installation changes.
\<close>

theorem report_delivered:
  assumes "report_getRow s i = Inr r" "generate c cfg now i s = (res, s')"
  shows "res = Inr () \<and>
    s' = s\<lparr>outbox := outbox s @ map (\<lambda>ch. (ch_id ch, report_message cfg now (rp_name r) (rp_dataset r) s))
              (filter (\<lambda>ch. ch_id ch \<in> set (rp_channel_ids r) \<and> ch_enabled ch \<and>
                 \<not> is_error (deliver c s ch (report_message cfg now (rp_name r) (rp_dataset r) s))) (notification_channels s)),
           reports := update_where (\<lambda>q. rp_id q = i) (\<lambda>q. q\<lparr>rp_last_run_at := Some now\<rparr>) (reports s)\<rparr>"
  using assms
  by (auto simp: generate_def sendToChannels_def deliver_all_def select_where_def Let_def conj_commute conj_left_commute)

text \<open>
  The cron registry follows the reports: whatever sequence of requests, ticks and
  rebuilds of either scheduler there is, the registered report crons are exactly those of the
  enabled reports with a valid expression, each with its current expression.
\<close>

theorem reports_stay_scheduled:
  assumes "(schedule_step c cfg vc)\<^sup>*\<^sup>* sr sr'" "reports_scheduled vc sr"
  shows "reports_scheduled vc sr'"
  using assms by (induction rule: rtranclp_induct) (blast intro: step_scheduled)+

definition sample_report :: create_report where
  "sample_report = \<lparr>nr_name = ''Weekly'', nr_tags = None, nr_dataset = sample_dataset, nr_cron_expr = ''0 8 * * 1'',
     nr_channel_ids = [], nr_enabled = None\<rparr>"

definition sample_admin :: request_user where
  "sample_admin = \<lparr>ru_id = ''u1'', ru_email = ''a@x'', ru_is_admin = True, ru_auth_via = ViaSession,
     ru_api_key_scopes = None, ru_api_key_id = None\<rparr>"

theorem reports_stay_scheduled_witness:
  "let vc = (\<lambda>e. e \<noteq> []); sr = (sample_server [], [(''backup-job:j1'', ''0 2 * * *'')]);
       sr' = snd (route_report_create vc ''p1'' sample_admin sample_report sr)
   in reports_scheduled vc sr' \<and> (''report:p1'', ''0 8 * * 1'') \<in> set (snd sr')"
proof -
  let ?vc = "\<lambda>e :: string. e \<noteq> []"
  let ?sr = "(sample_server [], [(''backup-job:j1'', ''0 2 * * *'')])"
  let ?sr' = "snd (route_report_create ?vc ''p1'' sample_admin sample_report ?sr)"
  have none: "reports (sample_server []) = []" by (simp add: sample_server_def empty_server_def)
  have "reports_scheduled ?vc ?sr"
    by (simp add: reports_scheduled_def entries_def scheduled_def report_cron_def starts_with_def none)
  moreover have "schedule_step sample_crypto sample_config ?vc ?sr ?sr'"
    by (rule created) (simp add: none)
  ultimately have "reports_scheduled ?vc ?sr'"
    using reports_stay_scheduled [OF r_into_rtranclp] by blast
  moreover have "(''report:p1'', ''0 8 * * 1'') \<in> set (snd ?sr')"
    by (simp add: route_report_create_def report_create_def report_validateCron_def sample_report_def Let_def report_sync_def
        report_getRow_def report_by_id_def select_first_def insert_row_def none report_enter_def report_register_def
        report_unregister_def reportCronName_def or_default_def)
  ultimately show ?thesis by (simp add: Let_def)
qed

text \<open>
  At start, and whenever the time zone changes, both schedulers rebuild; in either order each
  registration is then exactly as the database has it.
\<close>

theorem both_schedules_rebuilt:
  assumes "distinct (map rp_id (reports s))"
  shows "entries ours (reports_syncAll vc s (syncAll vc s reg)) = wanted_jobs vc s \<and>
    entries report_cron (reports_syncAll vc s (syncAll vc s reg)) = scheduled vc (reports s) \<and>
    entries ours (syncAll vc s (reports_syncAll vc s reg)) = wanted_jobs vc s \<and>
    entries report_cron (syncAll vc s (reports_syncAll vc s reg)) = scheduled vc (reports s)"
  using assms by (simp add: schedules.both_rebuilt wanted_reports_scheduled)

text \<open>
  Two overlapping syncs of the same report: when the row changes between their reads, the one
  that read the old row registers first and the other finds the name taken, so that the old
  expression stays registered.
\<close>

theorem overlapping_syncs_keep_old:
  "let vc = (\<lambda>e. e \<noteq> []); old = \<lparr>rp_id = ''p1'', rp_name = ''R'', rp_slug = ''r'', rp_tags = [], rp_dataset = sample_dataset,
         rp_cron_expr = ''0 8 * * 1'', rp_channel_ids = [], rp_enabled = True, rp_last_run_at = None, rp_owner_id = ''u1''\<rparr>;
       new = old\<lparr>rp_cron_expr := ''0 9 * * 1''\<rparr>
   in report_enter vc (Inr new) (report_enter vc (Inr old) (report_unregister ''p1'' (report_unregister ''p1'' []))) =
        [(''report:p1'', ''0 8 * * 1'')]"
  by (simp add: report_enter_def report_register_def report_unregister_def reportCronName_def Let_def)

text \<open>An update with an empty expression is not validated: it is stored, and the report is no longer scheduled.\<close>

theorem empty_cron_stored:
  assumes "report_getRow s i = Inr r" "distinct (map rp_id (reports s))" "\<not> vc []"
    "dto = \<lparr>ur_name = None, ur_tags = None, ur_dataset = None, ur_cron_expr = Some [], ur_channel_ids = None, ur_enabled = None\<rparr>"
    "report_update vc i dto s = (res, s')"
  shows "res = Inr (r\<lparr>rp_cron_expr := []\<rparr>) \<and> entries report_cron (report_sync vc s' i reg) = but i (entries report_cron reg)"
proof -
  have b: "rprow.by_key i (reports s) = Some r" "rp_id r = i"
    using assms(1) by (auto simp: report_getRow_def report_by_id_key split: option.splits dest: rprow.by_key_in)
  have "report_by_id i s' = Some (r\<lparr>rp_cron_expr := []\<rparr>)" "res = report_getRow s' i"
    using assms(5) b rprow.by_key_update [of "report_patch s i dto" i "\<lambda>r. rp_id r = i" "reports s"]
    by (auto simp: report_update_def assms(1,4) or_empty_def report_by_id_key report_patch_def set_opt_def Let_def)
  then show ?thesis using assms(3) by (auto simp: sync_entries report_getRow_def scheduled_def)
qed

end
