(* ===== verification/TargetHealth.thy ===== *)
theory TargetHealth
  imports Targets NetAddr
begin

text \<open>
  Reachability of connections, \<open>targets/target-health.service.ts\<close>: what is probed for each
  backend, the guarded TCP and HTTP probes, and the sweep that stores their outcomes. The
  network is a parameter; a probe also returns the connections it opens.
\<close>

section \<open>What to probe\<close>

datatype probe_spec = ProbeTcp string int | ProbeHttp string | ProbeNone

definition health_str :: "json option \<Rightarrow> string" where
  "health_str v = trim (str v)"

definition http_scheme :: "string \<Rightarrow> bool" where
  "http_scheme raw \<longleftrightarrow> starts_with ''http://'' (to_lower raw) \<or> starts_with ''https://'' (to_lower raw)"

definition ensureScheme :: "string \<Rightarrow> string" where
  "ensureScheme raw = (if http_scheme raw then raw else ''https://'' @ raw)"

text \<open>
  \<open>Number(config.port) || 22\<close>: numbers and booleans count as themselves, texts when they are
  decimal digits. Stored ports are digits, so that signs, fractions and other notations of
  numbers in texts, read as the default here, do not occur.
\<close>

definition probe_port :: "json option \<Rightarrow> int" where
  "probe_port v =
     (let n = (case v of
                 None \<Rightarrow> 0
               | Some (JNum n) \<Rightarrow> n
               | Some (JBool b) \<Rightarrow> if b then 1 else 0
               | Some j \<Rightarrow> let t = trim (js_string j) in if list_all is_digit t then int (digits_value t) else 0)
      in if n = 0 then 22 else n)"

definition http_or_none :: "string \<Rightarrow> string \<Rightarrow> probe_spec" where
  "http_or_none value url = (if value \<noteq> [] then ProbeHttp url else ProbeNone)"

definition probeSpecFor :: "string \<Rightarrow> form \<Rightarrow> creds \<Rightarrow> probe_spec" where
  "probeSpecFor backendType config credentials =
     (if backendType = ''sftp'' then
        (let host = health_str (map_of config ''host'')
         in if host = [] then ProbeNone else ProbeTcp host (probe_port (map_of config ''port'')))
      else if backendType = ''rest'' then
        (let url = health_str (map_of config ''url'') in http_or_none url (ensureScheme url))
      else if backendType = ''s3'' then
        (let endpoint = health_str (map_of config ''endpoint'') in http_or_none endpoint (ensureScheme endpoint))
      else if backendType = ''b2'' then ProbeHttp ''https://api.backblazeb2.com''
      else if backendType = ''azure'' then
        (let account = health_str (map_of config ''accountName'')
         in http_or_none account (''https://'' @ account @ ''.blob.core.windows.net''))
      else if backendType = ''gs'' then ProbeHttp ''https://storage.googleapis.com''
      else if backendType = ''swift'' then
        (let authUrl = trim (cred credentials ''authUrl'') in http_or_none authUrl (ensureScheme authUrl))
      else ProbeNone)"

section \<open>Probes\<close>

text \<open>
  Answers of the network. A socket connects, stays silent until the timeout, or fails with a
  code or a message; \<open>fetch\<close> gets some response or throws: an \<open>Error\<close> with its name, message
  and the code and message of its cause, or another value.
\<close>

datatype tcp_answer = TcpConnected | TcpTimeout | TcpError "string option" string

datatype fetch_failure =
    FetchError string string "(string option \<times> string option) option"
  | FetchOther string

record network =
  nw_dns :: "string \<Rightarrow> (string \<times> nat) list option"
  nw_url :: "string \<Rightarrow> (string \<times> string) option"
  nw_connect :: "string \<Rightarrow> int \<Rightarrow> tcp_answer"
  nw_fetch :: "string \<Rightarrow> fetch_failure option"

datatype contact = TcpTo string int | HeadTo string

record check_outcome =
  co_status :: target_status
  co_error :: "string option"

definition errMessage :: "fetch_failure \<Rightarrow> string" where
  "errMessage err =
     (case err of
        FetchOther v \<Rightarrow> v
      | FetchError name msg cause \<Rightarrow>
          (let code = or_empty (Option.bind cause fst)
           in if code \<noteq> [] then code
              else if name = ''TimeoutError'' \<or> name = ''AbortError'' then ''timeout''
              else case Option.bind cause snd of Some m \<Rightarrow> m | None \<Rightarrow> msg))"

text \<open>\<open>net.connect\<close> throws on a port outside 0 to 65535, which rejects the promise of the probe.\<close>

definition probeTcp :: "network \<Rightarrow> string \<Rightarrow> int \<Rightarrow> check_outcome result \<times> contact list" where
  "probeTcp nw host port =
     (case assertSafeHost (nw_dns nw) host of
        Inl _ \<Rightarrow> (Inr \<lparr>co_status = TsOffline, co_error = Some ''blocked address''\<rparr>, [])
      | Inr _ \<Rightarrow>
          (if \<not> (0 \<le> port \<and> port \<le> 65535)
           then (Inl (PlainError (''options.port should be >= 0 and < 65536. Received '' @ show_int port @ ''.'')), [])
           else (Inr (case nw_connect nw host port of
                        TcpTimeout \<Rightarrow> \<lparr>co_status = TsOffline, co_error = Some ''timeout''\<rparr>
                      | TcpConnected \<Rightarrow> \<lparr>co_status = TsOnline, co_error = None\<rparr>
                      | TcpError code msg \<Rightarrow>
                          \<lparr>co_status = TsOffline, co_error = Some (case code of Some c \<Rightarrow> c | None \<Rightarrow> msg)\<rparr>),
                 [TcpTo host port])))"

definition probeHttp :: "network \<Rightarrow> string \<Rightarrow> check_outcome \<times> contact list" where
  "probeHttp nw url =
     (case assertSafeFetchUrl (nw_url nw) (nw_dns nw) url of
        Inl _ \<Rightarrow> (\<lparr>co_status = TsOffline, co_error = Some ''blocked address''\<rparr>, [])
      | Inr _ \<Rightarrow>
          ((case nw_fetch nw url of
              None \<Rightarrow> \<lparr>co_status = TsOnline, co_error = None\<rparr>
            | Some err \<Rightarrow> \<lparr>co_status = TsOffline, co_error = Some (errMessage err)\<rparr>),
           [HeadTo url]))"

section \<open>The service\<close>

definition target_check :: "crypto \<Rightarrow> network \<Rightarrow> target \<Rightarrow> server \<Rightarrow> check_outcome result \<times> contact list" where
  "target_check c nw t s =
     (case (if tg_backend_type t = ''swift'' then revealCredentials c s (tg_credential_secret_id t) else Inr []) of
        Inl e \<Rightarrow> (Inl e, [])
      | Inr credentials \<Rightarrow>
          (case probeSpecFor (tg_backend_type t) (tg_config t) credentials of
             ProbeNone \<Rightarrow> (Inr \<lparr>co_status = TsUnknown, co_error = None\<rparr>, [])
           | ProbeTcp host port \<Rightarrow> probeTcp nw host port
           | ProbeHttp url \<Rightarrow> (let (outcome, cs) = probeHttp nw url in (Inr outcome, cs))))"

definition store_outcome :: "time \<Rightarrow> check_outcome \<Rightarrow> target \<Rightarrow> target" where
  "store_outcome now outcome r =
     r\<lparr>tg_status := co_status outcome, tg_last_check_at := Some now, tg_last_check_error := co_error outcome\<rparr>"

definition checkAndStore ::
  "crypto \<Rightarrow> network \<Rightarrow> time \<Rightarrow> target \<Rightarrow> server \<Rightarrow> (check_outcome result \<times> contact list) \<times> server" where
  "checkAndStore c nw now t s =
     (case target_check c nw t s of
        (Inl e, cs) \<Rightarrow> ((Inl e, cs), s)
      | (Inr outcome, cs) \<Rightarrow>
          ((Inr outcome, cs),
           s\<lparr>targets := update_where (\<lambda>r. tg_id r = tg_id t) (store_outcome now outcome) (targets s)\<rparr>))"

text \<open>
  The targets are loaded once and probed in parallel; a probe that fails is logged. The time
  of each write is its own, \<open>now\<close> of the target's id.
\<close>

definition sweep_step ::
  "crypto \<Rightarrow> network \<Rightarrow> (uuid \<Rightarrow> time) \<Rightarrow> target \<Rightarrow> contact list \<times> server \<Rightarrow> contact list \<times> server" where
  "sweep_step c nw now t acc =
     (let ((_, cs), s) = checkAndStore c nw (now (tg_id t)) t (snd acc) in (fst acc @ cs, s))"

definition sweep :: "crypto \<Rightarrow> network \<Rightarrow> (uuid \<Rightarrow> time) \<Rightarrow> server \<Rightarrow> contact list \<times> server" where
  "sweep c nw now s = fold (sweep_step c nw now) (targets s) ([], s)"

definition refresh_target ::
  "crypto \<Rightarrow> network \<Rightarrow> time \<Rightarrow> uuid \<Rightarrow> server \<Rightarrow> (check_outcome result \<times> contact list) \<times> server" where
  "refresh_target c nw now i s =
     (case target_by_id i s of
        None \<Rightarrow> ((Inr \<lparr>co_status = TsUnknown, co_error = None\<rparr>, []), s)
      | Some t \<Rightarrow> checkAndStore c nw now t s)"

section \<open>Every contact passed the guard\<close>

text \<open>
  A host the server may talk to, as far as IPv4 goes: not an address of a reserved range, and
  not a name one of whose addresses is.
\<close>

definition may_contact :: "(string \<Rightarrow> (string \<times> nat) list option) \<Rightarrow> string \<Rightarrow> bool" where
  "may_contact dns host \<longleftrightarrow>
     (\<forall>w. strip_brackets host = show_ipv4 w \<longrightarrow> \<not> reserved4 w) \<and>
     (\<forall>as w. isIP (strip_brackets host) = 0 \<and> dns (strip_brackets host) = Some as \<and> (show_ipv4 w, 4) \<in> set as \<longrightarrow> \<not> reserved4 w)"

definition contact_ok :: "network \<Rightarrow> contact \<Rightarrow> bool" where
  "contact_ok nw ct \<longleftrightarrow>
     (case ct of
        TcpTo host port \<Rightarrow> 0 \<le> port \<and> port \<le> 65535 \<and> may_contact (nw_dns nw) host
      | HeadTo url \<Rightarrow>
          (case nw_url nw url of
             None \<Rightarrow> False
           | Some (protocol, host) \<Rightarrow> protocol \<in> {''http:'', ''https:''} \<and> may_contact (nw_dns nw) host))"

lemma safe_host_may_contact:
  assumes "assertSafeHost dns host = Inr ()"
  shows "may_contact dns host"
proof -
  have "\<not> reserved4 w" if "strip_brackets host = show_ipv4 w" for w
    using assms that isIP_show_ipv4 [of w] by (simp add: assertSafeHost_def Let_def addressBlocked_ipv4 split: if_splits)
  moreover have "\<not> reserved4 w"
    if "isIP (strip_brackets host) = 0" "dns (strip_brackets host) = Some as" "(show_ipv4 w, 4) \<in> set as" for as w
  proof -
    have "\<not> addressBlocked (show_ipv4 w) 4"
      using assms that by (auto simp: assertSafeHost_def Let_def list_ex_iff split: if_splits)
    then show ?thesis by (simp add: addressBlocked_ipv4)
  qed
  ultimately show ?thesis unfolding may_contact_def by blast
qed

lemma probes_ok:
  "ct \<in> set (snd (probeTcp nw host port)) \<Longrightarrow> contact_ok nw ct"
  "ct \<in> set (snd (probeHttp nw url)) \<Longrightarrow> contact_ok nw ct"
  by (auto simp: probeTcp_def probeHttp_def contact_ok_def assertSafeFetchUrl_def safe_host_may_contact
      split: sum.splits if_splits option.splits)

lemma check_contacts: "ct \<in> set (snd (target_check c nw t s)) \<Longrightarrow> contact_ok nw ct"
  by (auto simp: target_check_def case_prod_beta probes_ok split: sum.splits probe_spec.splits if_splits)

lemma step_contacts:
  "fst (sweep_step c nw now t acc) = fst acc @ snd (target_check c nw t (snd acc))"
  by (auto simp: sweep_step_def checkAndStore_def Let_def split: prod.splits sum.splits)

lemma sweep_contacts:
  assumes "\<forall>ct \<in> set (fst acc). contact_ok nw ct"
  shows "\<forall>ct \<in> set (fst (fold (sweep_step c nw now) ts acc)). contact_ok nw ct"
  using assms
proof (induction ts arbitrary: acc)
  case (Cons t ts)
  have "\<forall>ct \<in> set (fst (sweep_step c nw now t acc)). contact_ok nw ct"
    using Cons.prems check_contacts by (auto simp: step_contacts)
  then show ?case using Cons.IH by simp
qed simp

section \<open>What a sweep stores\<close>

lemma check_cong:
  assumes "secrets s' = secrets s"
  shows "target_check c nw t s' = target_check c nw t s"
proof -
  have "revealCredentials c s' = revealCredentials c s"
    using reveal_secrets_cong [OF assms, of c] by (intro ext) (simp add: revealCredentials_def split: option.splits)
  then show ?thesis by (simp add: target_check_def)
qed

definition health_row :: "crypto \<Rightarrow> network \<Rightarrow> (uuid \<Rightarrow> time) \<Rightarrow> server \<Rightarrow> target \<Rightarrow> target" where
  "health_row c nw now s t =
     (case fst (target_check c nw t s) of
        Inl _ \<Rightarrow> t | Inr outcome \<Rightarrow> store_outcome (now (tg_id t)) outcome t)"

lemma step_targets:
  "snd (sweep_step c nw now t acc) = (snd acc)\<lparr>targets := update_where (\<lambda>r. tg_id r = tg_id t)
      (\<lambda>r. case fst (target_check c nw t (snd acc)) of Inl _ \<Rightarrow> r | Inr outcome \<Rightarrow> store_outcome (now (tg_id t)) outcome r)
      (targets (snd acc))\<rparr>"
proof (cases "target_check c nw t (snd acc)")
  case (Pair res cs)
  then show ?thesis by (cases res) (simp_all add: sweep_step_def checkAndStore_def update_where_def Let_def)
qed

lemma health_row_id [simp]: "tg_id (health_row c nw now s r) = tg_id r"
  by (simp add: health_row_def store_outcome_def split: sum.splits)

lemma step_rows:
  assumes "secrets (snd acc) = secrets s" "\<And>r. r \<in> set (targets (snd acc)) \<Longrightarrow> tg_id r = tg_id t \<Longrightarrow> r = t"
  shows "targets (snd (sweep_step c nw now t acc)) =
    update_where (\<lambda>r. tg_id r = tg_id t) (health_row c nw now s) (targets (snd acc))"
  using assms(2) check_cong [OF assms(1), of c nw t]
  by (auto simp: step_targets update_where_def health_row_def)

lemma sweep_frame: "snd (fold (sweep_step c nw now) ts acc) = (snd acc)\<lparr>targets := targets (snd (fold (sweep_step c nw now) ts acc))\<rparr>"
proof (induction ts arbitrary: acc)
  case (Cons t ts)
  show ?case by (simp, subst Cons.IH) (simp add: step_targets)
qed simp

lemma sweep_rows:
  assumes "distinct (map tg_id ts)" "secrets (snd acc) = secrets s"
    "\<And>t r. t \<in> set ts \<Longrightarrow> r \<in> set (targets (snd acc)) \<Longrightarrow> tg_id r = tg_id t \<Longrightarrow> r = t"
  shows "targets (snd (fold (sweep_step c nw now) ts acc)) =
    update_where (\<lambda>r. tg_id r \<in> tg_id ` set ts) (health_row c nw now s) (targets (snd acc))"
  using assms
proof (induction ts arbitrary: acc)
  case Nil
  then show ?case by (simp add: update_where_def)
next
  case (Cons t ts)
  let ?acc = "sweep_step c nw now t acc"
  have row: "targets (snd ?acc) = update_where (\<lambda>r. tg_id r = tg_id t) (health_row c nw now s) (targets (snd acc))"
    using Cons.prems(2,3) by (intro step_rows) auto
  have sec: "secrets (snd ?acc) = secrets s" using Cons.prems(2) by (simp add: step_targets)
  have notin: "tg_id t \<notin> tg_id ` set ts" "distinct (map tg_id ts)" using Cons.prems(1) by auto
  have other: "q = u" if "u \<in> set ts" "q \<in> set (targets (snd ?acc))" "tg_id q = tg_id u" for u q
  proof -
    have "tg_id u \<noteq> tg_id t" using notin that(1) by (metis image_eqI)
    then have "q \<in> set (targets (snd acc))" using that(2,3) row by (auto simp: set_update_where split: if_splits)
    then show ?thesis using Cons.prems(3) [of u q] that by simp
  qed
  have "targets (snd (fold (sweep_step c nw now) ts ?acc)) =
      update_where (\<lambda>r. tg_id r \<in> tg_id ` set ts) (health_row c nw now s) (targets (snd ?acc))"
    using notin(2) sec other by (intro Cons.IH) auto
  also have "\<dots> = update_where (\<lambda>r. tg_id r \<in> tg_id ` set (t # ts)) (health_row c nw now s) (targets (snd acc))"
    using notin(1) by (simp add: row update_where_def)
  finally show ?case by simp
qed

section \<open>Theorems\<close>


text \<open>
  A sweep stores for every connection what its own probe found, status, error and time
  together, and changes nothing else, neither other columns nor other tables; a connection
  whose probe could not be made keeps its row.
\<close>

theorem sweep_exact:
  assumes "distinct (map tg_id (targets s))"
  shows "snd (sweep c nw now s) = s\<lparr>targets := map (health_row c nw now s) (targets s)\<rparr>"
proof -
  have "t = r" if "t \<in> set (targets s)" "r \<in> set (targets s)" "tg_id r = tg_id t" for t r
    using assms that by (metis distinct_map inj_onD)
  then have "targets (snd (fold (sweep_step c nw now) (targets s) ([], s))) =
      update_where (\<lambda>r. tg_id r \<in> tg_id ` set (targets s)) (health_row c nw now s) (targets s)"
    using assms sweep_rows [of "targets s" "([], s)" s] by (metis snd_conv)
  also have "\<dots> = map (health_row c nw now s) (targets s)" by (simp add: update_where_def)
  finally show ?thesis using sweep_frame [of c nw now "targets s" "([], s)"] by (simp add: sweep_def)
qed

definition sample_network :: network where
  "sample_network =
     \<lparr>nw_dns = (\<lambda>_. Some [(show_ipv4 0x0A000001, 4)]), nw_url = (\<lambda>_. Some (''https:'', ''nas'')),
      nw_connect = (\<lambda>_ _. TcpConnected), nw_fetch = (\<lambda>_. Some (FetchError ''TypeError'' ''fetch failed'' (Some (Some ''ECONNREFUSED'', None))))\<rparr>"

definition health_target :: "uuid \<Rightarrow> string \<Rightarrow> form \<Rightarrow> target" where
  "health_target i ty config =
     \<lparr>tg_id = i, tg_name = i, tg_slug = i, tg_backend_type = ty, tg_config = config, tg_credential_secret_id = None,
      tg_owner_id = ''u1'', tg_status = TsUnknown, tg_last_check_at = None, tg_last_check_error = None\<rparr>"

definition health_server :: server where
  "health_server = empty_server\<lparr>targets :=
     [health_target ''t1'' ''sftp'' [(''host'', JStr ''nas''), (''port'', JStr ''2222'')],
      health_target ''t2'' ''b2'' []]\<rparr>"

lemma nas_safe: "assertSafeHost (nw_dns sample_network) ''nas'' = Inr ()"
proof -
  have "strip_brackets ''nas'' = ''nas''" by (simp add: strip_brackets_def)
  moreover have "isIP ''nas'' = 0" by (simp add: ip_eval)
  moreover have "\<not> reserved4 0x0A000001" by (simp add: reserved4_def in_range4_def drop_bit_unat)
  ultimately show ?thesis by (simp add: assertSafeHost_def sample_network_def addressBlocked_ipv4)
qed

lemma sample_checks:
  "target_check c sample_network (health_target ''t1'' ''sftp'' [(''host'', JStr ''nas''), (''port'', JStr ''2222'')]) s =
     (Inr \<lparr>co_status = TsOnline, co_error = None\<rparr>, [TcpTo ''nas'' 2222])"
  "target_check c sample_network (health_target ''t2'' ''b2'' []) s =
     (Inr \<lparr>co_status = TsOffline, co_error = Some ''ECONNREFUSED''\<rparr>, [HeadTo ''https://api.backblazeb2.com''])"
proof -
  have "probeSpecFor ''sftp'' [(''host'', JStr ''nas''), (''port'', JStr ''2222'')] [] = ProbeTcp ''nas'' 2222" by code_simp
  then show "target_check c sample_network (health_target ''t1'' ''sftp'' [(''host'', JStr ''nas''), (''port'', JStr ''2222'')]) s =
     (Inr \<lparr>co_status = TsOnline, co_error = None\<rparr>, [TcpTo ''nas'' 2222])"
    using nas_safe by (simp add: target_check_def health_target_def probeTcp_def sample_network_def)
  show "target_check c sample_network (health_target ''t2'' ''b2'' []) s =
     (Inr \<lparr>co_status = TsOffline, co_error = Some ''ECONNREFUSED''\<rparr>, [HeadTo ''https://api.backblazeb2.com''])"
    using nas_safe by (simp add: target_check_def health_target_def probeSpecFor_def probeHttp_def assertSafeFetchUrl_def
        sample_network_def errMessage_def or_empty_def)
qed


theorem sweep_exact_witness:
  "map (\<lambda>t. (tg_status t, tg_last_check_error t)) (targets (snd (sweep sample_crypto sample_network (\<lambda>_. 9) health_server))) =
     [(TsOnline, None), (TsOffline, Some ''ECONNREFUSED'')]"
proof -
  have "distinct (map tg_id (targets health_server))" by (simp add: health_server_def health_target_def)
  then show ?thesis
    using sweep_exact [of health_server sample_crypto sample_network "\<lambda>_. 9"]
    by (simp add: health_server_def health_row_def sample_checks store_outcome_def)
qed

text \<open>
  A port of five digits passes the check of SFTP values even above 65535; opening a connection to it
  throws, so that a connection saved with such a port is never reported as offline.
\<close>

theorem large_port_never_checked:
  assumes "target_by_id i s = Some t" "tg_backend_type t = ''sftp''"
    "tg_config t = [(''host'', JStr ''nas''), (''user'', JStr ''u''), (''port'', JStr ''70000'')]"
    "assertSafeHost (nw_dns nw) ''nas'' = Inr ()"
  shows "assertSafeSftpConfig (tg_config t) = Inr () \<and> is_error (fst (fst (refresh_target c nw now i s))) \<and>
    snd (refresh_target c nw now i s) = s"
proof -
  have "probeSpecFor ''sftp'' (tg_config t) [] = ProbeTcp ''nas'' 70000"
    unfolding assms(3)
    by (simp add: probeSpecFor_def health_str_def str_def probe_port_def trim_def trim_start_def js_space_def digits_value_def
        is_digit_def Let_def)
  then have "\<exists>e cs. target_check c nw t s = (Inl e, cs)"
    using assms(2,4) by (simp add: target_check_def probeTcp_def)
  moreover have "assertSafeSftpConfig (tg_config t) = Inr ()" unfolding assms(3) by code_simp
  ultimately show ?thesis using assms(1) by (auto simp: refresh_target_def checkAndStore_def)
qed

end
