(* ===== verification/EmailHtml.thy ===== *)
theory EmailHtml
  imports Channels
begin

text \<open>
  The HTML body of e-mails, \<open>renderEmailHtml\<close> of \<open>notifications/channel-registry.ts\<close>. A reader of
  HTML that tells markup, attribute values and text apart shows that names, error texts and
  addresses in a message are only ever text or values: the markup is the same for all messages of
  a shape, and the text shown is the message's own.
\<close>

section \<open>Rendering\<close>

definition COLOR_OK :: string where
  "COLOR_OK = ''4FB98A''"

definition COLOR_FAIL :: string where
  "COLOR_FAIL = ''E8756E''"

definition email_accent :: "notification_message \<Rightarrow> string" where
  "email_accent m = ''#'' @ (if nm_success m then COLOR_OK else COLOR_FAIL)"

definition email_badge :: "notification_message \<Rightarrow> string" where
  "email_badge m = (if nm_success m then ''Success'' else ''Attention'')"

definition meta_row :: "string \<times> string \<Rightarrow> string" where
  \<open>meta_row m =
     ''<tr>'' @
     ''<td style="padding:6px 0;font-size:13px;color:#71717a;width:34%;vertical-align:top;">'' @ escapeHtml (fst m) @ ''</td>'' @
     ''<td style="padding:6px 0;font-size:13px;color:#18181b;font-weight:600;">'' @ escapeHtml (snd m) @ ''</td>'' @
     ''</tr>''\<close>

definition metaBlock :: "notification_message \<Rightarrow> string" where
  \<open>metaBlock m =
     (let metaRows = concat (map meta_row (case nm_meta m of None \<Rightarrow> [] | Some ms \<Rightarrow> ms))
      in if metaRows \<noteq> []
         then ''<table role="presentation" width="100%" cellpadding="0" cellspacing="0" style="margin:8px 0 4px;">'' @
              metaRows @ ''</table>''
         else [])\<close>

definition cell_align :: "nat \<Rightarrow> string" where
  "cell_align i = (if i = 0 then ''left'' else ''center'')"

definition head_cell :: "nat \<times> string \<Rightarrow> string" where
  \<open>head_cell ic =
     ''<th style="padding:9px 12px;font-size:13px;font-weight:600;color:#71717a;text-align:'' @ cell_align (fst ic) @
     '';background:#fafafa;border-bottom:1px solid #e4e4e7;">'' @ escapeHtml (snd ic) @ ''</th>''\<close>

definition row_cell :: "nat \<times> string \<Rightarrow> string" where
  \<open>row_cell ic =
     ''<td style="padding:9px 12px;font-size:13px;color:#27272a;border-top:1px solid #f0f0f0;text-align:'' @ cell_align (fst ic) @
     '';'' @ (if fst ic = 0 then ''font-weight:600;'' else []) @ ''">'' @ escapeHtml (snd ic) @ ''</td>''\<close>

definition foot_cell :: "nat \<times> string \<Rightarrow> string" where
  \<open>foot_cell ic =
     ''<td style="padding:9px 12px;font-size:13px;font-weight:700;color:#18181b;background:#fafafa;border-top:1px solid #e4e4e7;text-align:'' @
     cell_align (fst ic) @ '';">'' @ escapeHtml (snd ic) @ ''</td>''\<close>

definition cells :: "(nat \<times> string \<Rightarrow> string) \<Rightarrow> string list \<Rightarrow> string" where
  "cells f xs = concat (map f (List.enumerate 0 xs))"

definition tableBlock :: "notification_message \<Rightarrow> string" where
  \<open>tableBlock m =
     (case nm_table m of
        None \<Rightarrow> []
      | Some t \<Rightarrow>
          (if mt_rows t = [] then []
           else let head = cells head_cell (mt_head t);
                    rows = concat (map (\<lambda>r. ''<tr>'' @ cells row_cell r @ ''</tr>'') (mt_rows t));
                    foot = (case mt_foot t of None \<Rightarrow> [] | Some f \<Rightarrow> ''<tr>'' @ cells foot_cell f @ ''</tr>'')
                in ''<table role="presentation" width="100%" cellpadding="0" cellspacing="0" style="margin:16px 0 4px;border:1px solid #e4e4e7;border-radius:8px;border-collapse:collapse;overflow:hidden;">'' @
                   ''<thead><tr>'' @ head @ ''</tr></thead><tbody>'' @ rows @ foot @ ''</tbody></table>''))\<close>

definition bodyBlock :: "notification_message \<Rightarrow> string" where
  \<open>bodyBlock m =
     (if metaBlock m = [] \<and> tableBlock m = []
      then ''<div style="margin-top:12px;font-size:14px;line-height:1.7;color:#3f3f46;white-space:pre-wrap;">'' @
           escapeHtml (nm_body m) @ ''</div>''
      else [])\<close>

definition email_head :: "notification_message \<Rightarrow> string" where
  \<open>email_head m =
     ''<!doctype html><html><body style="margin:0;padding:0;background:#f4f4f5;">'' @
     ''<table role="presentation" width="100%" cellpadding="0" cellspacing="0" style="background:#f4f4f5;padding:24px 12px;">'' @
     ''<tr><td align="center">'' @
     ''<table role="presentation" width="600" cellpadding="0" cellspacing="0" style="max-width:600px;width:100%;background:#ffffff;border:1px solid #e4e4e7;border-radius:14px;overflow:hidden;font-family:-apple-system,BlinkMacSystemFont,'' @
     quote @ ''Segoe UI'' @ quote @ '',Roboto,Helvetica,Arial,sans-serif;">'' @
     ''<tr><td style="background:#1c1915;padding:18px 28px;">'' @
     ''<span style="font-size:18px;font-weight:700;color:#e89a1c;letter-spacing:.2px;">Amber<span style="color:#f3ede1;">Backup</span></span>'' @
     ''</td></tr>'' @
     ''<tr><td style="height:4px;background:'' @ email_accent m @ '';font-size:0;line-height:0;">&nbsp;</td></tr>'' @
     ''<tr><td style="padding:28px;">'' @
     ''<span style="display:inline-block;background:'' @ email_accent m @
     '';color:#ffffff;font-size:11px;font-weight:700;padding:4px 12px;border-radius:999px;text-transform:uppercase;letter-spacing:.5px;">'' @
     email_badge m @ ''</span>'' @
     ''<h1 style="margin:16px 0 4px;font-size:20px;line-height:1.3;color:#18181b;">'' @ escapeHtml (nm_title m) @ ''</h1>''\<close>

definition email_tail :: "notification_message \<Rightarrow> string" where
  \<open>email_tail m =
     ''<table role="presentation" cellpadding="0" cellspacing="0" style="margin-top:26px;">'' @
     ''<tr><td style="border-radius:8px;background:#e89a1c;">'' @
     ''<a href="'' @ escapeHtml (nm_url m) @
     ''" style="display:inline-block;padding:11px 22px;font-size:14px;font-weight:600;color:#1c1915;text-decoration:none;">Open Amber Backup &rarr;</a>'' @
     ''</td></tr></table>'' @
     ''</td></tr>'' @
     ''<tr><td style="padding:16px 28px;border-top:1px solid #eeeeee;font-size:12px;color:#a1a1aa;">Sent by Amber Backup</td></tr>'' @
     ''</table></td></tr></table></body></html>''\<close>

definition renderEmailHtml :: "notification_message \<Rightarrow> string" where
  "renderEmailHtml m = email_head m @ metaBlock m @ tableBlock m @ bodyBlock m @ email_tail m"

text \<open>Subject, plain text and HTML of the mail that is sent.\<close>

definition email_content :: "notification_message \<Rightarrow> string \<times> string \<times> string" where
  "email_content m = (nm_title m, nm_body m @ nl @ nl @ nm_url m, renderEmailHtml m)"

section \<open>Reading HTML\<close>

text \<open>Markup and text in the order they are read; values of attributes are passed over.\<close>

datatype html_mode = InText | InTag | InValue

datatype html_out = Mark char | Shown char

fun html_read :: "html_mode \<Rightarrow> string \<Rightarrow> html_out list" where
  "html_read md [] = []"
| "html_read InText (c # s) = (if c = CHR ''<'' then Mark c # html_read InTag s else Shown c # html_read InText s)"
| "html_read InTag (c # s) =
     (if c = CHR ''>'' then Mark c # html_read InText s
      else if c = CHR 0x22 then Mark c # html_read InValue s else Mark c # html_read InTag s)"
| "html_read InValue (c # s) = (if c = CHR 0x22 then Mark c # html_read InTag s else html_read InValue s)"

fun marks :: "html_out list \<Rightarrow> string" where
  "marks [] = []"
| "marks (Mark c # xs) = c # marks xs"
| "marks (Shown c # xs) = marks xs"

fun shown :: "html_out list \<Rightarrow> string" where
  "shown [] = []"
| "shown (Mark c # xs) = shown xs"
| "shown (Shown c # xs) = c # shown xs"

text \<open>The characters the entities of \<open>escapeHtml\<close> stand for; other entities are left as they are.\<close>

function unescape :: "string \<Rightarrow> string" where
  "unescape [] = []"
| "unescape (c # r) =
     (if starts_with ''amp;'' r \<and> c = CHR ''&'' then CHR ''&'' # unescape (drop 4 r)
      else if starts_with ''lt;'' r \<and> c = CHR ''&'' then CHR ''<'' # unescape (drop 3 r)
      else if starts_with ''gt;'' r \<and> c = CHR ''&'' then CHR ''>'' # unescape (drop 3 r)
      else if starts_with ''quot;'' r \<and> c = CHR ''&'' then CHR 0x22 # unescape (drop 5 r)
      else c # unescape r)"
  by pat_completeness auto
termination by (relation "measure length") (auto simp: less_Suc_eq_le)

section \<open>Escaped text is text\<close>

definition html_reserved :: "char \<Rightarrow> string option" where
  "html_reserved c =
     (if c = CHR ''&'' then Some ''&amp;'' else if c = CHR ''<'' then Some ''&lt;''
      else if c = CHR ''>'' then Some ''&gt;'' else if c = CHR 0x22 then Some ''&quot;'' else None)"

lemma escapeHtml_chain:
  "escapeHtml [] = []"
  "escapeHtml (c # s) = (case html_reserved c of None \<Rightarrow> [c] | Some t \<Rightarrow> t) @ escapeHtml s"
  by (simp_all add: escapeHtml_def html_reserved_def)

lemma starts_with_Cons [simp]: "starts_with (c # p) (d # s) \<longleftrightarrow> c = d \<and> starts_with p s" "starts_with [] s"
  by (auto simp: starts_with_def)

lemma unescape_plain: "c \<noteq> CHR ''&'' \<Longrightarrow> unescape (c # r) = c # unescape r"
  by simp

lemma unescape_escaped: "unescape (escapeHtml x @ r) = x @ unescape r"
proof (induction x)
  case (Cons c x)
  consider "c = CHR ''&''" | "c = CHR ''<''" | "c = CHR ''>''" | "c = CHR 0x22" | "html_reserved c = None" "c \<noteq> CHR ''&''"
    by (cases "c \<in> {CHR ''&'', CHR ''<'', CHR ''>'', CHR 0x22}") (auto simp: html_reserved_def)
  then show ?case using Cons.IH
    by cases (simp_all add: escapeHtml_chain html_reserved_def)
qed (simp add: escapeHtml_chain)

text \<open>Where the reader stands after a fragment, and what the fragment shows.\<close>

fun ends :: "html_mode \<Rightarrow> string \<Rightarrow> html_mode" where
  "ends md [] = md"
| "ends InText (c # s) = ends (if c = CHR ''<'' then InTag else InText) s"
| "ends InTag (c # s) = ends (if c = CHR ''>'' then InText else if c = CHR 0x22 then InValue else InTag) s"
| "ends InValue (c # s) = ends (if c = CHR 0x22 then InTag else InValue) s"

lemma read_append: "html_read md (a @ b) = html_read md a @ html_read (ends md a) b"
  by (induction md a rule: ends.induct) auto

lemma ends_append: "ends md (a @ b) = ends (ends md a) b"
  by (induction md a rule: ends.induct) auto

lemma html_text: "CHR ''<'' \<notin> set x \<Longrightarrow> html_read InText x = map Shown x \<and> ends InText x = InText"
  by (induction x) auto

lemma read_value: "CHR 0x22 \<notin> set x \<Longrightarrow> html_read InValue x = [] \<and> ends InValue x = InValue"
  by (induction x) auto

lemma read_escaped:
  "html_read InText (escapeHtml x) = map Shown (escapeHtml x)" "ends InText (escapeHtml x) = InText"
  "html_read InValue (escapeHtml x) = []" "ends InValue (escapeHtml x) = InValue"
  using escapeHtml_no_markup by (simp_all add: html_text read_value)

lemma marks_append: "marks (xs @ ys) = marks xs @ marks ys"
  by (induction xs rule: marks.induct) auto

lemma shown_append: "shown (xs @ ys) = shown xs @ shown ys"
  by (induction xs rule: shown.induct) auto

lemma out_Shown: "marks (map Shown x) = []" "shown (map Shown x) = x"
  by (induction x) auto

definition shows_in :: "html_mode \<Rightarrow> string \<Rightarrow> string" where
  "shows_in md s = shown (html_read md s)"

definition marks_in :: "html_mode \<Rightarrow> string \<Rightarrow> string" where
  "marks_in md s = marks (html_read md s)"

lemma shows_in_append: "shows_in md (a @ b) = shows_in md a @ shows_in (ends md a) b"
  by (simp add: shows_in_def read_append shown_append)

lemma marks_in_append: "marks_in md (a @ b) = marks_in md a @ marks_in (ends md a) b"
  by (simp add: marks_in_def read_append marks_append)

lemma shows_in_simps:
  "shows_in md [] = []"
  "shows_in InText (c # s) = (if c = CHR ''<'' then shows_in InTag s else c # shows_in InText s)"
  "shows_in InTag (c # s) = shows_in (if c = CHR ''>'' then InText else if c = CHR 0x22 then InValue else InTag) s"
  "shows_in InValue (c # s) = shows_in (if c = CHR 0x22 then InTag else InValue) s"
  by (simp_all add: shows_in_def)

lemma escaped_in:
  "shows_in InText (escapeHtml x) = escapeHtml x" "marks_in InText (escapeHtml x) = []" "ends InText (escapeHtml x) = InText"
  "shows_in InValue (escapeHtml x) = []" "marks_in InValue (escapeHtml x) = []" "ends InValue (escapeHtml x) = InValue"
  by (simp_all add: shows_in_def marks_in_def read_escaped out_Shown)

lemma style_in:
  "shows_in InValue (cell_align i) = []" "marks_in InValue (cell_align i) = []" "ends InValue (cell_align i) = InValue"
  "shows_in InValue (email_accent m) = []" "marks_in InValue (email_accent m) = []" "ends InValue (email_accent m) = InValue"
  "shows_in InText (email_badge m) = email_badge m" "marks_in InText (email_badge m) = []" "ends InText (email_badge m) = InText"
proof -
  have "CHR 0x22 \<notin> set (cell_align i)" by (simp add: cell_align_def)
  moreover have "CHR 0x22 \<notin> set (email_accent m)" by (simp add: email_accent_def COLOR_OK_def COLOR_FAIL_def)
  moreover have "CHR ''<'' \<notin> set (email_badge m)" by (simp add: email_badge_def)
  ultimately show
    "shows_in InValue (cell_align i) = []" "marks_in InValue (cell_align i) = []" "ends InValue (cell_align i) = InValue"
    "shows_in InValue (email_accent m) = []" "marks_in InValue (email_accent m) = []" "ends InValue (email_accent m) = InValue"
    "shows_in InText (email_badge m) = email_badge m" "marks_in InText (email_badge m) = []" "ends InText (email_badge m) = InText"
    by (simp_all add: shows_in_def marks_in_def html_text read_value out_Shown)
qed

lemmas fragment_defs = meta_row_def head_cell_def row_cell_def foot_cell_def email_head_def email_tail_def

lemma fragments_end:
  "ends InText (meta_row p) = InText" "ends InText (head_cell ic) = InText" "ends InText (foot_cell ic) = InText"
  by (simp_all del: append_Cons add: fragment_defs ends_append escaped_in style_in)

lemma row_cell_end: "ends InText (row_cell ic) = InText"
  by (simp del: append_Cons add: fragment_defs ends_append escaped_in style_in)

lemma head_end: "ends InText (email_head m) = InText"
  by (simp del: append_Cons add: fragment_defs ends_append escaped_in style_in quote_def)

lemma tail_read:
  "shows_in InText (email_tail m) = ''Open Amber Backup &rarr;Sent by Amber Backup''"
  "marks_in InText (email_tail m) = marks_in InText (email_tail m')"
  by (simp_all del: append_Cons add: fragment_defs shows_in_append marks_in_append ends_append escaped_in style_in shows_in_simps)

lemma bold_in: "shows_in InValue (if b then ''font-weight:600;'' else []) = []" "marks_in InValue (if b then ''font-weight:600;'' else []) = []"
  "ends InValue (if b then ''font-weight:600;'' else []) = InValue"
  by (simp_all add: shows_in_def marks_in_def)

lemma cells_show:
  "shows_in InText (meta_row p) = escapeHtml (fst p) @ escapeHtml (snd p)"
  "shows_in InText (head_cell ic) = escapeHtml (snd ic)" "shows_in InText (row_cell ic) = escapeHtml (snd ic)"
  "shows_in InText (foot_cell ic) = escapeHtml (snd ic)"
  by (simp_all del: append_Cons if_split add: fragment_defs shows_in_append ends_append escaped_in style_in bold_in shows_in_simps)

lemma head_shows: "shows_in InText (email_head m) = ''AmberBackup&nbsp;'' @ email_badge m @ escapeHtml (nm_title m)"
  by (simp del: append_Cons if_split add: fragment_defs shows_in_append ends_append escaped_in style_in shows_in_simps quote_def)

lemma cells_mark:
  "marks_in InText (meta_row p) = marks_in InText (meta_row q)"
  "marks_in InText (head_cell ic) = marks_in InText (head_cell jd)" "marks_in InText (row_cell ic) = marks_in InText (row_cell jd)"
  "marks_in InText (foot_cell ic) = marks_in InText (foot_cell jd)"
  by (simp_all del: append_Cons if_split add: fragment_defs marks_in_append ends_append escaped_in style_in bold_in)

lemma head_marks: "marks_in InText (email_head m) = marks_in InText (email_head m')"
  by (simp del: append_Cons if_split add: fragment_defs marks_in_append ends_append escaped_in style_in quote_def)

section \<open>Rows and cells\<close>

lemma ends_concat: "(\<And>x. ends InText (f x) = InText) \<Longrightarrow> ends InText (concat (map f xs)) = InText"
  by (induction xs) (simp_all add: ends_append)

lemma shows_concat:
  "(\<And>x. ends InText (f x) = InText) \<Longrightarrow> shows_in InText (concat (map f xs)) = concat (map (\<lambda>x. shows_in InText (f x)) xs)"
  by (induction xs) (simp_all add: shows_in_append shows_in_simps)

lemma marks_concat:
  "(\<And>x. ends InText (f x) = InText) \<Longrightarrow> marks_in InText (concat (map f xs)) = concat (map (\<lambda>x. marks_in InText (f x)) xs)"
  by (induction xs) (simp_all add: marks_in_append, simp add: marks_in_def)

lemma concat_map_enumerate: "concat (map (\<lambda>ic. g (snd ic)) (List.enumerate n xs)) = concat (map g xs)"
  by (induction xs arbitrary: n) simp_all

lemma concat_same: "(\<And>x. x \<in> set xs \<Longrightarrow> f x = k) \<Longrightarrow> concat (map f xs) = concat (replicate (length xs) k)"
  by (induction xs) simp_all

lemma row_read:
  assumes "\<And>ic. ends InText (f ic) = InText" "\<And>ic. shows_in InText (f ic) = escapeHtml (snd ic)"
    "\<And>ic jd. marks_in InText (f ic) = marks_in InText (f jd)"
  shows "ends InText (cells f xs) = InText" "shows_in InText (cells f xs) = concat (map escapeHtml xs)"
    "marks_in InText (cells f xs) = concat (replicate (length xs) (marks_in InText (f (0, []))))"
proof -
  show "ends InText (cells f xs) = InText" by (simp add: cells_def ends_concat assms(1))
  show "shows_in InText (cells f xs) = concat (map escapeHtml xs)"
    by (simp add: cells_def shows_concat assms(1,2) concat_map_enumerate)
  have "marks_in InText (cells f xs) = concat (map (\<lambda>ic. marks_in InText (f ic)) (List.enumerate 0 xs))"
    by (simp add: cells_def marks_concat assms(1))
  also have "\<dots> = concat (replicate (length xs) (marks_in InText (f (0, []))))"
    using assms(3) by (subst concat_same [where k = "marks_in InText (f (0, []))"]) auto
  finally show "marks_in InText (cells f xs) = concat (replicate (length xs) (marks_in InText (f (0, []))))" .
qed

lemmas head_cells = row_read [of head_cell, OF fragments_end(2) cells_show(2) cells_mark(2)]
lemmas row_cells = row_read [of row_cell, OF row_cell_end cells_show(3) cells_mark(3)]
lemmas foot_cells = row_read [of foot_cell, OF fragments_end(3) cells_show(4) cells_mark(4)]

definition metas :: "notification_message \<Rightarrow> (string \<times> string) list" where
  "metas m = (case nm_meta m of None \<Rightarrow> [] | Some ms \<Rightarrow> ms)"

definition table_of :: "notification_message \<Rightarrow> message_table option" where
  "table_of m = (case nm_table m of None \<Rightarrow> None | Some t \<Rightarrow> if mt_rows t = [] then None else Some t)"

definition table_row :: "string list \<Rightarrow> string" where
  "table_row r = ''<tr>'' @ cells row_cell r @ ''</tr>''"

definition table_foot :: "string list option \<Rightarrow> string" where
  "table_foot f = (case f of None \<Rightarrow> [] | Some f \<Rightarrow> ''<tr>'' @ cells foot_cell f @ ''</tr>'')"

lemma table_row_read:
  "ends InText (table_row r) = InText" "shows_in InText (table_row r) = concat (map escapeHtml r)"
  "length r = length r' \<Longrightarrow> marks_in InText (table_row r) = marks_in InText (table_row r')"
  by (simp_all del: append_Cons add: table_row_def ends_append shows_in_append marks_in_append row_cells shows_in_simps)

lemma table_foot_read:
  "ends InText (table_foot f) = InText"
  "shows_in InText (table_foot f) = concat (map escapeHtml (case f of None \<Rightarrow> [] | Some f \<Rightarrow> f))"
  "map_option length f = map_option length f' \<Longrightarrow> marks_in InText (table_foot f) = marks_in InText (table_foot f')"
  by (auto simp del: append_Cons simp: table_foot_def ends_append shows_in_append marks_in_append foot_cells shows_in_simps
      split: option.splits)

lemma meta_row_nonempty: "meta_row p \<noteq> []"
  by (simp add: meta_row_def)

lemma meta_rows_empty: "concat (map meta_row ps) = [] \<longleftrightarrow> ps = []"
  by (cases ps) (simp_all add: meta_row_nonempty)

lemma metaBlock_empty: "metaBlock m = [] \<longleftrightarrow> metas m = []"
  by (simp del: concat_eq_Nil_conv add: metaBlock_def metas_def [symmetric] Let_def meta_rows_empty)

lemma metaBlock_read:
  "ends InText (metaBlock m) = InText"
  "shows_in InText (metaBlock m) = concat (map (\<lambda>p. escapeHtml (fst p) @ escapeHtml (snd p)) (metas m))"
  "length (metas m) = length (metas m') \<Longrightarrow> marks_in InText (metaBlock m) = marks_in InText (metaBlock m')"
proof -
  have b: "metaBlock m = (if metas m = [] then [] else
      ''<table role=\"presentation\" width=\"100%\" cellpadding=\"0\" cellspacing=\"0\" style=\"margin:8px 0 4px;\">'' @
      concat (map meta_row (metas m)) @ ''</table>'')" for m
    by (simp del: concat_eq_Nil_conv append_Cons add: metaBlock_def metas_def [symmetric] Let_def meta_rows_empty)
  have k: "marks_in InText (meta_row p) = marks_in InText (meta_row ([], []))" for p by (rule cells_mark(1))
  show "ends InText (metaBlock m) = InText"
    "shows_in InText (metaBlock m) = concat (map (\<lambda>p. escapeHtml (fst p) @ escapeHtml (snd p)) (metas m))"
    by (simp_all del: append_Cons add: b ends_append shows_in_append ends_concat fragments_end shows_concat cells_show shows_in_simps)
  have "marks_in InText (concat (map meta_row ps)) = concat (replicate (length ps) (marks_in InText (meta_row ([], []))))" for ps
    using k by (simp add: marks_concat fragments_end concat_same [where k = "marks_in InText (meta_row ([], []))"])
  then show "length (metas m) = length (metas m') \<Longrightarrow> marks_in InText (metaBlock m) = marks_in InText (metaBlock m')"
    by (auto simp del: append_Cons simp: b marks_in_append ends_append ends_concat fragments_end)
qed

lemma tableBlock_eq:
  "tableBlock m = (case table_of m of None \<Rightarrow> [] | Some t \<Rightarrow>
      ''<table role=\"presentation\" width=\"100%\" cellpadding=\"0\" cellspacing=\"0\" style=\"margin:16px 0 4px;border:1px solid #e4e4e7;border-radius:8px;border-collapse:collapse;overflow:hidden;\">'' @
      ''<thead><tr>'' @ cells head_cell (mt_head t) @ ''</tr></thead><tbody>'' @ concat (map table_row (mt_rows t)) @
      table_foot (mt_foot t) @ ''</tbody></table>'')"
  by (simp del: append_Cons add: tableBlock_def table_of_def table_row_def [abs_def] table_foot_def Let_def split: option.splits)

lemma tableBlock_empty: "tableBlock m = [] \<longleftrightarrow> table_of m = None"
  by (simp add: tableBlock_eq split: option.splits)

definition table_texts :: "message_table \<Rightarrow> string list" where
  "table_texts t = mt_head t @ concat (mt_rows t) @ (case mt_foot t of None \<Rightarrow> [] | Some f \<Rightarrow> f)"

definition table_shape :: "message_table \<Rightarrow> nat \<times> nat list \<times> nat option" where
  "table_shape t = (length (mt_head t), map length (mt_rows t), map_option length (mt_foot t))"

lemma rows_marks:
  "map length rs = map length rs' \<Longrightarrow> marks_in InText (concat (map table_row rs)) = marks_in InText (concat (map table_row rs'))"
proof (induction rs arbitrary: rs')
  case (Cons r rs)
  then obtain r' rs'' where "rs' = r' # rs''" "length r = length r'" "map length rs = map length rs''" by (cases rs') auto
  then show ?case
    using Cons.IH table_row_read(3) [of r r'] by (simp add: marks_in_append table_row_read(1))
qed simp

lemma concat_map_concat: "concat (map (\<lambda>r. concat (map f r)) rs) = concat (map f (concat rs))"
  by (induction rs) simp_all

lemma tableBlock_read:
  "ends InText (tableBlock m) = InText"
  "shows_in InText (tableBlock m) = (case table_of m of None \<Rightarrow> [] | Some t \<Rightarrow> concat (map escapeHtml (table_texts t)))"
  "map_option table_shape (table_of m) = map_option table_shape (table_of m') \<Longrightarrow>
   marks_in InText (tableBlock m) = marks_in InText (tableBlock m')"
proof -
  show "ends InText (tableBlock m) = InText"
    by (simp del: append_Cons add: tableBlock_eq ends_append head_cells ends_concat table_row_read table_foot_read split: option.splits)
  show "shows_in InText (tableBlock m) = (case table_of m of None \<Rightarrow> [] | Some t \<Rightarrow> concat (map escapeHtml (table_texts t)))"
    by (simp del: append_Cons concat_append add: tableBlock_eq ends_append head_cells ends_concat table_row_read table_foot_read shows_in_append
        shows_concat shows_in_simps table_texts_def concat_map_concat split: option.splits) simp
  show "marks_in InText (tableBlock m) = marks_in InText (tableBlock m')"
    if "map_option table_shape (table_of m) = map_option table_shape (table_of m')"
  proof (cases "table_of m")
    case None
    with that show ?thesis by (simp add: tableBlock_eq)
  next
    case (Some t)
    with that obtain t' where t': "table_of m' = Some t'" "table_shape t = table_shape t'" by (cases "table_of m'") auto
    then have "length (mt_head t) = length (mt_head t')" "map length (mt_rows t) = map length (mt_rows t')"
      "map_option length (mt_foot t) = map_option length (mt_foot t')" by (auto simp: table_shape_def)
    then show ?thesis
      using Some t'(1) rows_marks [of "mt_rows t" "mt_rows t'"] table_foot_read(3) [of "mt_foot t" "mt_foot t'"]
      by (simp del: append_Cons add: tableBlock_eq marks_in_append ends_append head_cells ends_concat table_row_read(1) table_foot_read(1))
  qed
qed

definition mail_shape :: "notification_message \<Rightarrow> nat \<times> (nat \<times> nat list \<times> nat option) option" where
  "mail_shape m = (length (metas m), map_option table_shape (table_of m))"

lemma bodyBlock_read:
  "ends InText (bodyBlock m) = InText"
  "shows_in InText (bodyBlock m) = (if metas m = [] \<and> table_of m = None then escapeHtml (nm_body m) else [])"
  "mail_shape m = mail_shape m' \<Longrightarrow> marks_in InText (bodyBlock m) = marks_in InText (bodyBlock m')"
  by (auto simp del: append_Cons simp: bodyBlock_def metaBlock_empty tableBlock_empty ends_append shows_in_append marks_in_append
      escaped_in shows_in_simps mail_shape_def)

section \<open>Theorems\<close>

lemma unescape_concat: "unescape (concat (map escapeHtml xs) @ r) = concat xs @ unescape r"
  by (induction xs) (simp_all add: unescape_escaped)

lemma unescape_pairs:
  "unescape (concat (map (\<lambda>p. escapeHtml (fst p) @ escapeHtml (snd p)) ps) @ r) = concat (map (\<lambda>p. fst p @ snd p) ps) @ unescape r"
  by (induction ps) (simp_all add: unescape_escaped)

lemma unescape_badge: "unescape (email_badge m @ r) = email_badge m @ unescape r"
  by (simp add: email_badge_def)

text \<open>
  C37: No text of a message becomes markup in the e-mail: read as HTML, two messages with the
  same number of facts and the same table dimensions have the same tags, whatever their texts
  and their outcome; and the text a reader sees is the title, the facts and the cells of the
  table (or the body, when there are neither) as they are in the message, between the fixed texts
  of the page.
\<close>

theorem email_shows_message:
  "(mail_shape m = mail_shape m' \<longrightarrow> marks_in InText (renderEmailHtml m) = marks_in InText (renderEmailHtml m')) \<and>
   unescape (shows_in InText (renderEmailHtml m)) =
     ''AmberBackup&nbsp;'' @ email_badge m @ nm_title m @ concat (map (\<lambda>p. fst p @ snd p) (metas m)) @
     (case table_of m of None \<Rightarrow> [] | Some t \<Rightarrow> concat (table_texts t)) @
     (if metas m = [] \<and> table_of m = None then nm_body m else []) @
     ''Open Amber Backup &rarr;Sent by Amber Backup''"
proof
  have "marks_in InText (renderEmailHtml m) = marks_in InText (renderEmailHtml m')" if "mail_shape m = mail_shape m'"
    using that head_marks [of m m'] tail_read(2) [of m m'] metaBlock_read(3) [of m m'] tableBlock_read(3) [of m m'] bodyBlock_read(3) [of m m']
    by (simp add: renderEmailHtml_def marks_in_append head_end metaBlock_read(1) tableBlock_read(1) bodyBlock_read(1) mail_shape_def)
  then show "mail_shape m = mail_shape m' \<longrightarrow> marks_in InText (renderEmailHtml m) = marks_in InText (renderEmailHtml m')" ..
  let ?body = "if metas m = [] \<and> table_of m = None then nm_body m else []"
  have s: "shows_in InText (renderEmailHtml m) = ''AmberBackup&nbsp;'' @ email_badge m @ escapeHtml (nm_title m) @
      concat (map (\<lambda>p. escapeHtml (fst p) @ escapeHtml (snd p)) (metas m)) @
      concat (map escapeHtml (case table_of m of None \<Rightarrow> [] | Some t \<Rightarrow> table_texts t)) @ escapeHtml ?body @
      ''Open Amber Backup &rarr;Sent by Amber Backup''"
    by (simp del: append_Cons add: renderEmailHtml_def shows_in_append head_end metaBlock_read tableBlock_read bodyBlock_read head_shows tail_read(1)
        escapeHtml_chain split: option.splits)
  have "unescape (''AmberBackup&nbsp;'' @ r) = ''AmberBackup&nbsp;'' @ unescape r" for r by simp
  moreover have "unescape ''Open Amber Backup &rarr;Sent by Amber Backup'' = ''Open Amber Backup &rarr;Sent by Amber Backup''" by simp
  ultimately have "unescape (shows_in InText (renderEmailHtml m)) =
      ''AmberBackup&nbsp;'' @ email_badge m @ nm_title m @ concat (map (\<lambda>p. fst p @ snd p) (metas m)) @
      concat (case table_of m of None \<Rightarrow> [] | Some t \<Rightarrow> table_texts t) @ ?body @ ''Open Amber Backup &rarr;Sent by Amber Backup''"
    by (simp only: s unescape_badge unescape_escaped unescape_pairs unescape_concat)
  then show "unescape (shows_in InText (renderEmailHtml m)) =
      ''AmberBackup&nbsp;'' @ email_badge m @ nm_title m @ concat (map (\<lambda>p. fst p @ snd p) (metas m)) @
      (case table_of m of None \<Rightarrow> [] | Some t \<Rightarrow> concat (table_texts t)) @ ?body @ ''Open Amber Backup &rarr;Sent by Amber Backup''"
    by (simp split: option.splits)
qed

definition sample_mail :: "bool \<Rightarrow> string \<Rightarrow> notification_message" where
  "sample_mail ok title =
     \<lparr>nm_success = ok, nm_title = title, nm_body = ''x'', nm_job_name = title, nm_url = ''http://h/'',
      nm_meta = None, nm_table = None\<rparr>"

theorem email_shows_message_witness:
  "marks_in InText (renderEmailHtml (sample_mail True ''</h1><script>'')) = marks_in InText (renderEmailHtml (sample_mail False ''Nightly'')) \<and>
   unescape (shows_in InText (renderEmailHtml (sample_mail True ''</h1><script>''))) =
     ''AmberBackup&nbsp;Success</h1><script>xOpen Amber Backup &rarr;Sent by Amber Backup''"
proof -
  have "metas (sample_mail ok t) = []" "table_of (sample_mail ok t) = None" for ok t
    by (simp_all add: sample_mail_def metas_def table_of_def)
  moreover have "email_badge (sample_mail True t) = ''Success''" "nm_title (sample_mail True t) = t" "nm_body (sample_mail True t) = ''x''" for t
    by (simp_all add: sample_mail_def email_badge_def)
  ultimately show ?thesis
    using email_shows_message [of "sample_mail True ''</h1><script>''" "sample_mail False ''Nightly''"] by (simp add: mail_shape_def)
qed

end
