(* ===== verification/Migrations.thy ===== *)
theory Migrations
  imports Jobs AuditLog
begin

text \<open>
  The migrations that move data, \<open>database/migrations\<close>: 002 merges sources into jobs, 009 splits a
  target into a connection and one repository per job and restore, 010 gives each job its own
  repository row, and 012 derives slugs from names. The tables are modelled with the columns these
  migrations read and write. The theorems show that every job and restore still reaches the
  repository it had, with a readable password, and that the pairing of jobs and repositories the job
  service relies on is established.
\<close>

section \<open>002: sources become part of jobs\<close>

record source1 =
  s1_id :: uuid
  s1_location :: source_location
  s1_agent_id :: "uuid option"
  s1_paths :: "string list"

record job1 =
  j1_id :: uuid
  j1_name :: string
  j1_source_id :: uuid

record job2 =
  j2_id :: uuid
  j2_name :: string
  j2_location :: source_location
  j2_agent_id :: "uuid option"
  j2_paths :: "string list"

definition merge_source :: "source1 list \<Rightarrow> job1 \<Rightarrow> job2" where
  "merge_source ss j =
     (case select_first (\<lambda>s. s1_id s = j1_source_id j) ss of
        None \<Rightarrow> \<lparr>j2_id = j1_id j, j2_name = j1_name j, j2_location = LocLocal, j2_agent_id = None, j2_paths = []\<rparr>
      | Some s \<Rightarrow> \<lparr>j2_id = j1_id j, j2_name = j1_name j, j2_location = s1_location s, j2_agent_id = s1_agent_id s,
                   j2_paths = s1_paths s\<rparr>)"

definition up002 :: "source1 list \<times> job1 list \<times> resource_grant list \<Rightarrow> job2 list \<times> resource_grant list" where
  "up002 db =
     (let (ss, js, gs) = db
      in (map (merge_source ss) js, delete_where (\<lambda>g. gr_resource_type g = RtSource) gs))"

text \<open>\<open>fresh\<close> gives the id of the source made for a job.\<close>

definition down002 :: "(uuid \<Rightarrow> uuid) \<Rightarrow> job2 list \<Rightarrow> source1 list \<times> job1 list" where
  "down002 fresh js =
     (map (\<lambda>j. \<lparr>s1_id = fresh (j2_id j), s1_location = j2_location j, s1_agent_id = j2_agent_id j, s1_paths = j2_paths j\<rparr>) js,
      map (\<lambda>j. \<lparr>j1_id = j2_id j, j1_name = j2_name j, j1_source_id = fresh (j2_id j)\<rparr>) js)"

section \<open>009: connections and repositories\<close>

record target8 =
  t8_id :: uuid
  t8_backend_type :: string
  t8_config :: form
  t8_password_secret_id :: uuid
  t8_credential_secret_id :: "uuid option"

record job8 =
  j8_id :: uuid
  j8_name :: string
  j8_target_id :: uuid
  j8_owner_id :: uuid

record restore8 =
  r8_id :: uuid
  r8_target_id :: uuid

record schema8 =
  d8_targets :: "target8 list"
  d8_jobs :: "job8 list"
  d8_restores :: "restore8 list"
  d8_secrets :: "secret_row list"
  d8_grants :: "resource_grant list"

record target9 =
  t9_id :: uuid
  t9_backend_type :: string
  t9_config :: form
  t9_credential_secret_id :: "uuid option"

record job9 =
  j9_id :: uuid
  j9_name :: string
  j9_target_id :: "uuid option"
  j9_repo_config :: form
  j9_repo_password_secret_id :: "uuid option"
  j9_owner_id :: uuid

record restore9 =
  r9_id :: uuid
  r9_target_id :: "uuid option"
  r9_job_id :: "uuid option"
  r9_repo_config :: form
  r9_repo_password_secret_id :: "uuid option"

record schema9 =
  d9_targets :: "target9 list"
  d9_jobs :: "job9 list"
  d9_restores :: "restore9 list"
  d9_secrets :: "secret_row list"
  d9_grants :: "resource_grant list"

definition REPO_KEYS :: "string list" where
  "REPO_KEYS = [''bucket'', ''prefix'', ''container'', ''path'']"

text \<open>\<open>jsonb_strip_nulls\<close>: members that are null go, at every depth of objects.\<close>

fun strip_nulls :: "json \<Rightarrow> json" where
  "strip_nulls (JObj kvs) = JObj (map (\<lambda>(k, v). (k, strip_nulls v)) (filter (\<lambda>(k, v). v \<noteq> JNull) kvs))"
| "strip_nulls (JArr xs) = JArr (map strip_nulls xs)"
| "strip_nulls v = v"

definition repoConfigExpr :: "form \<Rightarrow> form" where
  "repoConfigExpr config =
     List.map_filter (\<lambda>k. case map_of config k of
                            None \<Rightarrow> None | Some v \<Rightarrow> if v = JNull then None else Some (k, strip_nulls v)) REPO_KEYS"

definition repo_config_of :: "target8 list \<Rightarrow> uuid \<Rightarrow> form" where
  "repo_config_of ts i =
     (case select_first (\<lambda>t. t8_id t = i) ts of None \<Rightarrow> [] | Some t \<Rightarrow> repoConfigExpr (t8_config t))"

text \<open>
  The loop that gives every owner (a job or a restore) its own copy of its target's password:
  an \<open>INSERT ... SELECT\<close> under a new id, which inserts nothing and returns null when the secret
  is missing, and an update of the owner.
\<close>

definition copy_step ::
  "(nat \<Rightarrow> uuid) \<Rightarrow> (uuid \<Rightarrow> uuid option \<Rightarrow> 'r list \<Rightarrow> 'r list) \<Rightarrow> nat \<times> uuid \<times> uuid \<Rightarrow>
   secret_row list \<times> 'r list \<Rightarrow> secret_row list \<times> 'r list" where
  "copy_step fresh set_pw item st =
     (let (n, owner, ps) = item; (ss, rows) = st
      in case select_first (\<lambda>r. se_id r = ps) ss of
           None \<Rightarrow> (ss, set_pw owner None rows)
         | Some r \<Rightarrow>
             (insert_row \<lparr>se_id = fresh n, se_type = StRepoPassword, se_ciphertext = se_ciphertext r, se_nonce = se_nonce r\<rparr> ss,
              set_pw owner (Some (fresh n)) rows))"

definition copy_passwords ::
  "(nat \<Rightarrow> uuid) \<Rightarrow> nat \<Rightarrow> (uuid \<Rightarrow> uuid option \<Rightarrow> 'r list \<Rightarrow> 'r list) \<Rightarrow> (uuid \<times> uuid) list \<Rightarrow>
   secret_row list \<times> 'r list \<Rightarrow> secret_row list \<times> 'r list" where
  "copy_passwords fresh n set_pw pairs st = fold (copy_step fresh set_pw) (List.enumerate n pairs) st"

definition set_job_password :: "uuid \<Rightarrow> uuid option \<Rightarrow> job9 list \<Rightarrow> job9 list" where
  "set_job_password i p = update_where (\<lambda>j. j9_id j = i) (\<lambda>j. j\<lparr>j9_repo_password_secret_id := p\<rparr>)"

definition set_restore_password :: "uuid \<Rightarrow> uuid option \<Rightarrow> restore9 list \<Rightarrow> restore9 list" where
  "set_restore_password i p = update_where (\<lambda>r. r9_id r = i) (\<lambda>r. r\<lparr>r9_repo_password_secret_id := p\<rparr>)"

definition target_password :: "target8 list \<Rightarrow> uuid \<Rightarrow> uuid option" where
  "target_password ts i = map_option t8_password_secret_id (select_first (\<lambda>t. t8_id t = i) ts)"

definition job_pairs :: "schema8 \<Rightarrow> (uuid \<times> uuid) list" where
  "job_pairs db =
     List.map_filter (\<lambda>j. map_option (Pair (j8_id j)) (target_password (d8_targets db) (j8_target_id j))) (d8_jobs db)"

definition restore_pairs :: "schema8 \<Rightarrow> (uuid \<times> uuid) list" where
  "restore_pairs db =
     List.map_filter (\<lambda>r. map_option (Pair (r8_id r)) (target_password (d8_targets db) (r8_target_id r))) (d8_restores db)"

definition local_ids :: "schema8 \<Rightarrow> uuid list" where
  "local_ids db = map t8_id (select_where (\<lambda>t. t8_backend_type t = ''local'') (d8_targets db))"

definition migrate_job :: "schema8 \<Rightarrow> job8 \<Rightarrow> job9" where
  "migrate_job db j =
     \<lparr>j9_id = j8_id j, j9_name = j8_name j, j9_target_id = Some (j8_target_id j),
      j9_repo_config = repo_config_of (d8_targets db) (j8_target_id j), j9_repo_password_secret_id = None,
      j9_owner_id = j8_owner_id j\<rparr>"

definition migrate_jobs :: "(nat \<Rightarrow> uuid) \<Rightarrow> schema8 \<Rightarrow> secret_row list \<times> job9 list" where
  "migrate_jobs fresh db =
     (let (ss, js) = copy_passwords fresh 0 set_job_password (job_pairs db) (d8_secrets db, map (migrate_job db) (d8_jobs db))
      in (ss, update_where (\<lambda>j. \<exists>i \<in> set (local_ids db). j9_target_id j = Some i) (\<lambda>j. j\<lparr>j9_target_id := None\<rparr>) js))"

text \<open>\<open>LIMIT 1\<close> without an order: the first job of the table stands for any.\<close>

definition migrate_restore :: "schema8 \<Rightarrow> job9 list \<Rightarrow> restore8 \<Rightarrow> restore9" where
  "migrate_restore db js r =
     \<lparr>r9_id = r8_id r, r9_target_id = Some (r8_target_id r),
      r9_job_id = map_option j9_id (select_first (\<lambda>j. j9_target_id j = Some (r8_target_id r)) js),
      r9_repo_config = repo_config_of (d8_targets db) (r8_target_id r), r9_repo_password_secret_id = None\<rparr>"

definition migrate_restores ::
  "(nat \<Rightarrow> uuid) \<Rightarrow> schema8 \<Rightarrow> secret_row list \<times> job9 list \<Rightarrow> secret_row list \<times> restore9 list" where
  "migrate_restores fresh db sj =
     (let (ss, rs) = copy_passwords fresh (length (job_pairs db)) set_restore_password (restore_pairs db)
                       (fst sj, map (migrate_restore db (snd sj)) (d8_restores db))
      in (ss, update_where (\<lambda>r. \<exists>i \<in> set (local_ids db). r9_target_id r = Some i) (\<lambda>r. r\<lparr>r9_target_id := None\<rparr>) rs))"

definition migrate_target :: "target8 \<Rightarrow> target9" where
  "migrate_target t =
     \<lparr>t9_id = t8_id t, t9_backend_type = t8_backend_type t,
      t9_config = filter (\<lambda>(k, v). k \<notin> set REPO_KEYS) (t8_config t), t9_credential_secret_id = t8_credential_secret_id t\<rparr>"

definition orphaned :: "job9 list \<Rightarrow> restore9 list \<Rightarrow> secret_row \<Rightarrow> bool" where
  "orphaned js rs s \<longleftrightarrow>
     se_type s = StRepoPassword \<and> (\<forall>j \<in> set js. j9_repo_password_secret_id j \<noteq> Some (se_id s)) \<and>
     (\<forall>r \<in> set rs. r9_repo_password_secret_id r \<noteq> Some (se_id s))"

definition up009 :: "(nat \<Rightarrow> uuid) \<Rightarrow> schema8 \<Rightarrow> schema9 result" where
  "up009 fresh db =
     (let (ss1, js) = migrate_jobs fresh db in
      if list_ex (\<lambda>j. j9_repo_password_secret_id j = None) js
      then Inl (PlainError ''column repo_password_secret_id of relation backup_jobs contains null values'')
      else let (ss2, rs) = migrate_restores fresh db (ss1, js) in
        if list_ex (\<lambda>r. r9_repo_password_secret_id r = None) rs
        then Inl (PlainError ''column repo_password_secret_id of relation restore_runs contains null values'')
        else Inr \<lparr>d9_targets = map migrate_target (delete_where (\<lambda>t. t8_backend_type t = ''local'') (d8_targets db)),
                  d9_jobs = js, d9_restores = rs, d9_secrets = delete_where (orphaned js rs) ss2,
                  d9_grants = delete_where (\<lambda>g. gr_resource_type g = RtTarget \<and> gr_resource_id g \<in> set (local_ids db))
                                (d8_grants db)\<rparr>)"

section \<open>010: a repository per job\<close>

record repository10 =
  p10_id :: uuid
  p10_name :: string
  p10_target_id :: "uuid option"
  p10_repo_config :: form
  p10_repo_password_secret_id :: "uuid option"
  p10_owner_id :: uuid

record job10 =
  j10_id :: uuid
  j10_name :: string
  j10_repository_id :: uuid
  j10_owner_id :: uuid

definition repository_of :: "uuid \<Rightarrow> job9 \<Rightarrow> repository10" where
  "repository_of i j =
     \<lparr>p10_id = i, p10_name = j9_name j, p10_target_id = j9_target_id j, p10_repo_config = j9_repo_config j,
      p10_repo_password_secret_id = j9_repo_password_secret_id j, p10_owner_id = j9_owner_id j\<rparr>"

definition link_job :: "uuid \<Rightarrow> job9 \<Rightarrow> job10" where
  "link_job i j = \<lparr>j10_id = j9_id j, j10_name = j9_name j, j10_repository_id = i, j10_owner_id = j9_owner_id j\<rparr>"

definition up010 :: "(uuid \<Rightarrow> uuid) \<Rightarrow> job9 list \<Rightarrow> repository10 list \<times> job10 list" where
  "up010 fresh js = (map (\<lambda>j. repository_of (fresh (j9_id j)) j) js, map (\<lambda>j. link_job (fresh (j9_id j)) j) js)"

definition fold_back :: "repository10 list \<Rightarrow> job10 \<Rightarrow> job9" where
  "fold_back ps j =
     (case select_first (\<lambda>p. p10_id p = j10_repository_id j) ps of
        None \<Rightarrow> \<lparr>j9_id = j10_id j, j9_name = j10_name j, j9_target_id = None, j9_repo_config = [],
                 j9_repo_password_secret_id = None, j9_owner_id = j10_owner_id j\<rparr>
      | Some p \<Rightarrow> \<lparr>j9_id = j10_id j, j9_name = j10_name j, j9_target_id = p10_target_id p, j9_repo_config = p10_repo_config p,
                   j9_repo_password_secret_id = p10_repo_password_secret_id p, j9_owner_id = j10_owner_id j\<rparr>)"

definition down010 :: "repository10 list \<times> job10 list \<Rightarrow> job9 list result" where
  "down010 db =
     (let js = map (fold_back (fst db)) (snd db) in
      if list_ex (\<lambda>j. j9_repo_password_secret_id j = None) js
      then Inl (PlainError ''column repo_password_secret_id of relation backup_jobs contains null values'') else Inr js)"

section \<open>012: slugs\<close>

record named_row =
  nd_id :: uuid
  nd_name :: string
  nd_created_at :: time

text \<open>\<open>trim(both '-' from lower(regexp_replace(name, '[^a-zA-Z0-9]+', '-', 'g')))\<close>, or \<open>entity\<close>.\<close>

definition sql_alnum :: "char \<Rightarrow> bool" where
  "sql_alnum c \<longleftrightarrow> is_lower_alnum c \<or> 65 \<le> (of_char c :: nat) \<and> (of_char c :: nat) \<le> 90"

function sql_dashes :: "string \<Rightarrow> string" where
  "sql_dashes [] = []"
| "sql_dashes (c # cs) =
     (if sql_alnum c then c # sql_dashes cs else CHR ''-'' # sql_dashes (dropWhile (\<lambda>d. \<not> sql_alnum d) cs))"
  by pat_completeness auto
termination
  by (relation "measure length") (auto simp: le_imp_less_Suc length_dropWhile_le)

definition slug_base :: "string \<Rightarrow> string" where
  "slug_base name =
     (let slug = strip_dashes (to_lower (sql_dashes name)) in if slug = [] then ''entity'' else slug)"

text \<open>\<open>row_number() OVER (PARTITION BY base ORDER BY created_at, id)\<close>: the rows of the same base that come no later.\<close>

fun id_less :: "string \<Rightarrow> string \<Rightarrow> bool" where
  "id_less [] ys \<longleftrightarrow> ys \<noteq> []"
| "id_less (x # xs) [] \<longleftrightarrow> False"
| "id_less (x # xs) (y # ys) \<longleftrightarrow> (of_char x :: nat) < of_char y \<or> x = y \<and> id_less xs ys"

definition created_before :: "named_row \<Rightarrow> named_row \<Rightarrow> bool" where
  "created_before a b \<longleftrightarrow>
     nd_created_at a < nd_created_at b \<or>
     nd_created_at a = nd_created_at b \<and> id_less (nd_id a) (nd_id b)"

definition row_number :: "named_row list \<Rightarrow> named_row \<Rightarrow> nat" where
  "row_number rows r =
     Suc (count_where (\<lambda>q. slug_base (nd_name q) = slug_base (nd_name r) \<and> created_before q r) rows)"

definition backfilled_slug :: "named_row list \<Rightarrow> named_row \<Rightarrow> string" where
  "backfilled_slug rows r =
     (let base = slug_base (nd_name r); rn = row_number rows r
      in if rn > 1 then base @ ''-'' @ show_nat rn else base)"

text \<open>The unique index is created last and fails on two equal slugs.\<close>

definition up012 :: "named_row list \<Rightarrow> (uuid \<times> string) list result" where
  "up012 rows =
     (let slugs = map (\<lambda>r. (nd_id r, backfilled_slug rows r)) rows
      in if distinct (map snd slugs) then Inr slugs
         else Inl (PlainError ''could not create unique index''))"

section \<open>Keys and joins\<close>

interpretation t8row: row_format t8_id "\<lambda>f. \<forall>r. t8_id (f r) = t8_id r"
  by unfold_locales simp

interpretation p10row: row_format p10_id "\<lambda>f. \<forall>r. p10_id (f r) = p10_id r"
  by unfold_locales simp

interpretation s1row: row_format s1_id "\<lambda>f. \<forall>r. s1_id (f r) = s1_id r"
  by unfold_locales simp

lemma select_target:
  assumes "distinct (map t8_id ts)" "t \<in> set ts"
  shows "select_first (\<lambda>q. t8_id q = t8_id t) ts = Some t"
  using t8row.by_key_unique [of ts t] assms by (simp add: t8row.by_key_def t8row.keys_def)

lemma select_secret:
  assumes "distinct (map se_id ss)" "r \<in> set ss"
  shows "select_first (\<lambda>q. se_id q = se_id r) ss = Some r"
  using srow.by_key_unique [of ss r] assms by (simp add: srow.by_key_def srow.keys_def)

lemma map_filter_Some: "(\<And>x. x \<in> set xs \<Longrightarrow> f x = Some (g x)) \<Longrightarrow> List.map_filter f xs = map g xs"
  by (induction xs) (simp_all add: map_filter_simps)

text \<open>Updating one row per item, for items with different keys.\<close>

lemma fold_update_by_key:
  assumes "distinct (map fst items)" "\<And>v r. key (upd v r) = key r"
  shows "fold (\<lambda>(k, v). update_where (\<lambda>r. key r = k) (upd v)) items rows =
    map (\<lambda>r. case map_of items (key r) of None \<Rightarrow> r | Some v \<Rightarrow> upd v r) rows"
  using assms(1)
proof (induction items arbitrary: rows)
  case (Cons kv items)
  obtain k v where kv: "kv = (k, v)" by fastforce
  have "map_of items k = None" using Cons.prems by (simp add: kv map_of_eq_None_iff)
  then show ?case
    using Cons by (auto simp: kv update_where_def assms(2) split: option.splits)
qed simp

section \<open>Copies of passwords\<close>

definition copied :: "secret_row list \<Rightarrow> uuid \<Rightarrow> uuid \<Rightarrow> secret_row" where
  "copied ss i ps =
     (let r = the (select_first (\<lambda>r. se_id r = ps) ss)
      in \<lparr>se_id = i, se_type = StRepoPassword, se_ciphertext = se_ciphertext r, se_nonce = se_nonce r\<rparr>)"

definition has_secret :: "secret_row list \<Rightarrow> uuid \<Rightarrow> bool" where
  "has_secret ss ps \<longleftrightarrow> ps \<in> se_id ` set ss"

lemma select_first_append: "has_secret ss ps \<Longrightarrow> select_first (\<lambda>r. se_id r = ps) (ss @ more_rows) = select_first (\<lambda>r. se_id r = ps) ss"
  by (induction ss) (auto simp: has_secret_def select_first_def)

lemma select_first_has: "has_secret ss ps \<Longrightarrow> \<exists>r. select_first (\<lambda>r. se_id r = ps) ss = Some r"
  using select_first_None [of "\<lambda>r. se_id r = ps" ss] by (auto simp: has_secret_def)

lemma enumerate_item: "x \<in> set (List.enumerate n xs) \<Longrightarrow> snd x \<in> set xs"
  by (induction xs arbitrary: n) auto

lemma copy_passwords_eq:
  assumes "\<forall>(k, ps) \<in> set pairs. has_secret ss ps"
  shows "copy_passwords fresh n set_pw pairs (ss, rows) =
    (ss @ map (\<lambda>(m, k, ps). copied ss (fresh m) ps) (List.enumerate n pairs),
     fold (\<lambda>(m, k, ps). set_pw k (Some (fresh m))) (List.enumerate n pairs) rows)"
proof -
  have "fold (copy_step fresh set_pw) items (ss @ xs, rows) =
      (ss @ xs @ map (\<lambda>(m, k, ps). copied ss (fresh m) ps) items, fold (\<lambda>(m, k, ps). set_pw k (Some (fresh m))) items rows)"
    if "\<forall>(m, k, ps) \<in> set items. has_secret ss ps" for items xs rows
    using that
  proof (induction items arbitrary: xs rows)
    case (Cons it items)
    obtain m k ps where it: "it = (m, k, ps)" by (metis prod.exhaust)
    have h: "has_secret ss ps" using Cons.prems it by auto
    then obtain r where r: "select_first (\<lambda>r. se_id r = ps) ss = Some r" using select_first_has by blast
    have "copy_step fresh set_pw it (ss @ xs, rows) = (ss @ (xs @ [copied ss (fresh m) ps]), set_pw k (Some (fresh m)) rows)"
      using r by (simp add: copy_step_def it select_first_append [OF h] copied_def insert_row_def Let_def)
    then show ?case using Cons.IH [of "xs @ [copied ss (fresh m) ps]"] Cons.prems it by simp
  qed simp
  note loop = this [of "List.enumerate n pairs" "[]" rows]
  have "\<forall>(m, k, ps) \<in> set (List.enumerate n pairs). has_secret ss ps"
    using assms enumerate_item by fastforce
  then show ?thesis using loop by (simp add: copy_passwords_def)
qed

lemma owner_password:
  assumes "distinct (map fst pairs)" "i < length pairs"
  shows "map_of (map (\<lambda>(m, k, ps). (k, fresh m)) (List.enumerate n pairs)) (fst (pairs ! i)) = Some (fresh (n + i))"
  using assms
proof (induction pairs arbitrary: n i)
  case (Cons p pairs)
  obtain k ps where p: "p = (k, ps)" by fastforce
  show ?case
  proof (cases i)
    case (Suc i')
    have "fst (pairs ! i') \<noteq> k" using Cons.prems Suc p by (metis distinct.simps(2) fst_conv length_Cons length_map list.simps(9) nth_map nth_mem Suc_less_eq)
    then show ?thesis using Cons.IH [of i' "Suc n"] Cons.prems Suc p by simp
  qed (simp add: p)
qed simp

lemma owner_keys: "map fst (map (\<lambda>(m, k, ps). (k, fresh m)) (List.enumerate n pairs)) = map fst pairs"
  by (induction pairs arbitrary: n) auto

text \<open>The rows after the loop: owner number \<open>i\<close> refers to the \<open>i\<close>-th new secret.\<close>

lemma owners_updated:
  assumes "distinct (map fst pairs)" "\<And>v r. key (upd v r) = key r" "map key rows = map fst pairs" "i < length rows"
  shows "fold (\<lambda>(m, k, ps). update_where (\<lambda>r. key r = k) (upd (Some (fresh m)))) (List.enumerate n pairs) rows ! i =
    upd (Some (fresh (n + i))) (rows ! i)"
proof -
  let ?items = "map (\<lambda>(m, k, ps). (k, fresh m)) (List.enumerate n pairs)"
  have "fold (\<lambda>(m, k, ps). update_where (\<lambda>r. key r = k) (upd (Some (fresh m)))) (List.enumerate n pairs) rows =
      fold (\<lambda>(k, v). update_where (\<lambda>r. key r = k) (upd (Some v))) ?items rows"
    by (simp add: fold_map comp_def case_prod_beta')
  also have "\<dots> = map (\<lambda>r. case map_of ?items (key r) of None \<Rightarrow> r | Some v \<Rightarrow> upd (Some v) r) rows"
    using assms(2) by (intro fold_update_by_key) (simp_all only: owner_keys assms(1))
  finally have "fold (\<lambda>(m, k, ps). update_where (\<lambda>r. key r = k) (upd (Some (fresh m)))) (List.enumerate n pairs) rows ! i =
      (case map_of ?items (key (rows ! i)) of None \<Rightarrow> rows ! i | Some v \<Rightarrow> upd (Some v) (rows ! i))"
    using assms(4) by simp
  moreover have "key (rows ! i) = fst (pairs ! i)" "i < length pairs"
    using assms(3,4) by (metis length_map nth_map)+
  ultimately show ?thesis using owner_password [OF assms(1), of i fresh n] by simp
qed

lemma fold_length: "(\<And>x rs. length (f x rs) = length rs) \<Longrightarrow> length (fold f xs rs) = length rs"
  by (induction xs arbitrary: rs) simp_all

section \<open>What 009 leaves behind\<close>

text \<open>A database of the old schema, as its primary and foreign keys keep it.\<close>

definition keys8 :: "schema8 \<Rightarrow> bool" where
  "keys8 db \<longleftrightarrow>
     distinct (map t8_id (d8_targets db)) \<and> distinct (map j8_id (d8_jobs db)) \<and> distinct (map r8_id (d8_restores db)) \<and>
     distinct (map se_id (d8_secrets db)) \<and>
     (\<forall>j \<in> set (d8_jobs db). j8_target_id j \<in> t8_id ` set (d8_targets db)) \<and>
     (\<forall>r \<in> set (d8_restores db). r8_target_id r \<in> t8_id ` set (d8_targets db)) \<and>
     (\<forall>t \<in> set (d8_targets db). has_secret (d8_secrets db) (t8_password_secret_id t))"

definition new_ids :: "(nat \<Rightarrow> uuid) \<Rightarrow> schema8 \<Rightarrow> bool" where
  "new_ids fresh db \<longleftrightarrow> inj fresh \<and> (\<forall>n. \<not> has_secret (d8_secrets db) (fresh n))"

definition target8_of :: "schema8 \<Rightarrow> uuid \<Rightarrow> target8" where
  "target8_of db i = the (select_first (\<lambda>t. t8_id t = i) (d8_targets db))"

lemma target8_of_in:
  assumes "keys8 db" "i \<in> t8_id ` set (d8_targets db)"
  shows "target8_of db i \<in> set (d8_targets db)" "t8_id (target8_of db i) = i"
    "select_first (\<lambda>t. t8_id t = i) (d8_targets db) = Some (target8_of db i)"
proof -
  obtain t where t: "t \<in> set (d8_targets db)" "t8_id t = i" using assms(2) by auto
  then have "select_first (\<lambda>q. t8_id q = i) (d8_targets db) = Some t"
    using select_target [of "d8_targets db" t] assms(1) by (simp add: keys8_def)
  then show "target8_of db i \<in> set (d8_targets db)" "t8_id (target8_of db i) = i"
    "select_first (\<lambda>t. t8_id t = i) (d8_targets db) = Some (target8_of db i)"
    using t by (simp_all add: target8_of_def)
qed

lemma pairs_eq:
  assumes "keys8 db"
  shows "job_pairs db = map (\<lambda>j. (j8_id j, t8_password_secret_id (target8_of db (j8_target_id j)))) (d8_jobs db)"
    "restore_pairs db = map (\<lambda>r. (r8_id r, t8_password_secret_id (target8_of db (r8_target_id r)))) (d8_restores db)"
proof -
  show "job_pairs db = map (\<lambda>j. (j8_id j, t8_password_secret_id (target8_of db (j8_target_id j)))) (d8_jobs db)"
    unfolding job_pairs_def using assms target8_of_in(3) [OF assms]
    by (intro map_filter_Some) (auto simp: target_password_def keys8_def)
  show "restore_pairs db = map (\<lambda>r. (r8_id r, t8_password_secret_id (target8_of db (r8_target_id r)))) (d8_restores db)"
    unfolding restore_pairs_def using assms target8_of_in(3) [OF assms]
    by (intro map_filter_Some) (auto simp: target_password_def keys8_def)
qed

lemma local_iff:
  assumes "keys8 db" "i \<in> t8_id ` set (d8_targets db)"
  shows "i \<in> set (local_ids db) \<longleftrightarrow> t8_backend_type (target8_of db i) = ''local''"
proof
  assume "i \<in> set (local_ids db)"
  then obtain t where "t \<in> set (d8_targets db)" "t8_id t = i" "t8_backend_type t = ''local''"
    by (auto simp: local_ids_def select_where_def)
  then show "t8_backend_type (target8_of db i) = ''local''"
    using select_target [of "d8_targets db" t] assms(1) target8_of_in(3) [OF assms] by (simp add: keys8_def)
next
  assume "t8_backend_type (target8_of db i) = ''local''"
  then show "i \<in> set (local_ids db)"
    using target8_of_in(1,2) [OF assms] by (auto simp: local_ids_def select_where_def image_iff intro!: bexI [of _ "target8_of db i"])
qed

definition job_after :: "schema8 \<Rightarrow> uuid \<Rightarrow> job8 \<Rightarrow> job9" where
  "job_after db p j =
     (let t = target8_of db (j8_target_id j)
      in \<lparr>j9_id = j8_id j, j9_name = j8_name j,
          j9_target_id = (if t8_backend_type t = ''local'' then None else Some (j8_target_id j)),
          j9_repo_config = repoConfigExpr (t8_config t), j9_repo_password_secret_id = Some p, j9_owner_id = j8_owner_id j\<rparr>)"

definition restore_after :: "schema8 \<Rightarrow> job9 list \<Rightarrow> uuid \<Rightarrow> restore8 \<Rightarrow> restore9" where
  "restore_after db js p r =
     (let t = target8_of db (r8_target_id r)
      in \<lparr>r9_id = r8_id r, r9_target_id = (if t8_backend_type t = ''local'' then None else Some (r8_target_id r)),
          r9_job_id = map_option j9_id (select_first (\<lambda>j. j9_target_id j = Some (r8_target_id r)) js),
          r9_repo_config = repoConfigExpr (t8_config t), r9_repo_password_secret_id = Some p\<rparr>)"

definition copies :: "(nat \<Rightarrow> uuid) \<Rightarrow> schema8 \<Rightarrow> nat \<Rightarrow> (uuid \<times> uuid) list \<Rightarrow> secret_row list" where
  "copies fresh db n pairs = map (\<lambda>(m, k, ps). copied (d8_secrets db) (fresh m) ps) (List.enumerate n pairs)"

lemma migrate_jobs_eq:
  assumes "keys8 db" "migrate_jobs fresh db = (ss, js)"
  shows "ss = d8_secrets db @ copies fresh db 0 (job_pairs db)" "length js = length (d8_jobs db)"
    "i < length js \<Longrightarrow> js ! i = job_after db (fresh i) (d8_jobs db ! i)"
proof -
  let ?rows = "map (migrate_job db) (d8_jobs db)"
  let ?js = "fold (\<lambda>(m, k, ps). set_job_password k (Some (fresh m))) (List.enumerate 0 (job_pairs db)) ?rows"
  have "\<forall>(k, ps) \<in> set (job_pairs db). has_secret (d8_secrets db) ps"
    using assms(1) target8_of_in(1) [OF assms(1)] by (auto simp: pairs_eq(1) [OF assms(1)] keys8_def)
  note eq = copy_passwords_eq [OF this, of fresh 0 set_job_password ?rows]
  then show "ss = d8_secrets db @ copies fresh db 0 (job_pairs db)"
    using assms(2) by (auto simp: migrate_jobs_def copies_def Let_def)
  have js: "js = update_where (\<lambda>j. \<exists>i \<in> set (local_ids db). j9_target_id j = Some i) (\<lambda>j. j\<lparr>j9_target_id := None\<rparr>) ?js"
    using assms(2) eq by (simp add: migrate_jobs_def Let_def)
  have len: "length ?js = length (d8_jobs db)"
    by (subst fold_length) (auto simp: set_job_password_def)
  then show l: "length js = length (d8_jobs db)" using js by simp
  show "js ! i = job_after db (fresh i) (d8_jobs db ! i)" if "i < length js"
  proof -
    let ?j = "d8_jobs db ! i"
    have i: "i < length (d8_jobs db)" using that l by simp
    have "?js ! i = (migrate_job db ?j)\<lparr>j9_repo_password_secret_id := Some (fresh i)\<rparr>"
      using owners_updated [of "job_pairs db" j9_id "\<lambda>p j. j\<lparr>j9_repo_password_secret_id := p\<rparr>" ?rows i fresh 0] assms(1) i
      by (simp add: set_job_password_def pairs_eq(1) comp_def keys8_def migrate_job_def)
    moreover have tid: "j8_target_id ?j \<in> t8_id ` set (d8_targets db)" using assms(1) i by (simp add: keys8_def)
    ultimately show ?thesis
      using i len local_iff [OF assms(1) tid] target8_of_in(3) [OF assms(1) tid]
      by (simp add: js update_where_def job_after_def migrate_job_def repo_config_of_def Let_def)
  qed
qed

lemma copied_append: "has_secret ss ps \<Longrightarrow> copied (ss @ xs) i ps = copied ss i ps"
  by (simp add: copied_def select_first_append)

lemma migrate_restores_eq:
  assumes "keys8 db" "ss1 = d8_secrets db @ xs" "migrate_restores fresh db (ss1, js) = (ss, rs)"
  shows "ss = ss1 @ copies fresh db (length (job_pairs db)) (restore_pairs db)" "length rs = length (d8_restores db)"
    "i < length rs \<Longrightarrow> rs ! i = restore_after db js (fresh (length (job_pairs db) + i)) (d8_restores db ! i)"
proof -
  let ?n = "length (job_pairs db)"
  let ?rows = "map (migrate_restore db js) (d8_restores db)"
  let ?rs = "fold (\<lambda>(m, k, ps). set_restore_password k (Some (fresh m))) (List.enumerate ?n (restore_pairs db)) ?rows"
  have has: "\<forall>(k, ps) \<in> set (restore_pairs db). has_secret (d8_secrets db) ps"
    using assms(1) target8_of_in(1) [OF assms(1)] by (auto simp: pairs_eq(2) [OF assms(1)] keys8_def)
  then have "\<forall>(k, ps) \<in> set (restore_pairs db). has_secret ss1 ps" by (auto simp: assms(2) has_secret_def)
  note eq = copy_passwords_eq [OF this, of fresh ?n set_restore_password ?rows]
  have "map (\<lambda>(m, k, ps). copied ss1 (fresh m) ps) (List.enumerate ?n (restore_pairs db)) = copies fresh db ?n (restore_pairs db)"
    unfolding copies_def using has by (intro map_cong refl) (auto simp: assms(2) copied_append dest!: enumerate_item)
  then show "ss = ss1 @ copies fresh db ?n (restore_pairs db)"
    using assms(3) eq by (auto simp: migrate_restores_def Let_def)
  have rs: "rs = update_where (\<lambda>r. \<exists>i \<in> set (local_ids db). r9_target_id r = Some i) (\<lambda>r. r\<lparr>r9_target_id := None\<rparr>) ?rs"
    using assms(3) eq by (simp add: migrate_restores_def Let_def)
  have len: "length ?rs = length (d8_restores db)"
    by (subst fold_length) (auto simp: set_restore_password_def)
  then show l: "length rs = length (d8_restores db)" using rs by simp
  show "rs ! i = restore_after db js (fresh (?n + i)) (d8_restores db ! i)" if "i < length rs"
  proof -
    let ?r = "d8_restores db ! i"
    have i: "i < length (d8_restores db)" using that l by simp
    have "?rs ! i = (migrate_restore db js ?r)\<lparr>r9_repo_password_secret_id := Some (fresh (?n + i))\<rparr>"
      using owners_updated [of "restore_pairs db" r9_id "\<lambda>p r. r\<lparr>r9_repo_password_secret_id := p\<rparr>" ?rows i fresh ?n] assms(1) i
      by (simp add: set_restore_password_def pairs_eq(2) comp_def keys8_def migrate_restore_def)
    moreover have tid: "r8_target_id ?r \<in> t8_id ` set (d8_targets db)" using assms(1) i by (simp add: keys8_def)
    ultimately show ?thesis
      using i len local_iff [OF assms(1) tid] target8_of_in(3) [OF assms(1) tid]
      by (simp add: rs update_where_def restore_after_def migrate_restore_def repo_config_of_def Let_def)
  qed
qed

definition split_result :: "(nat \<Rightarrow> uuid) \<Rightarrow> schema8 \<Rightarrow> schema9 \<Rightarrow> bool" where
  "split_result fresh db db' \<longleftrightarrow>
     d9_targets db' = map migrate_target (delete_where (\<lambda>t. t8_backend_type t = ''local'') (d8_targets db)) \<and>
     length (d9_jobs db') = length (d8_jobs db) \<and>
     (\<forall>i < length (d8_jobs db). d9_jobs db' ! i = job_after db (fresh i) (d8_jobs db ! i)) \<and>
     length (d9_restores db') = length (d8_restores db) \<and>
     (\<forall>i < length (d8_restores db). d9_restores db' ! i =
        restore_after db (d9_jobs db') (fresh (length (job_pairs db) + i)) (d8_restores db ! i)) \<and>
     d9_secrets db' = delete_where (orphaned (d9_jobs db') (d9_restores db'))
       (d8_secrets db @ copies fresh db 0 (job_pairs db) @ copies fresh db (length (job_pairs db)) (restore_pairs db))"

lemma up009_result:
  assumes "keys8 db"
  shows "\<exists>db'. up009 fresh db = Inr db' \<and> split_result fresh db db'"
proof -
  obtain ss1 js where j: "migrate_jobs fresh db = (ss1, js)" by fastforce
  note jeq = migrate_jobs_eq [OF assms j]
  obtain ss2 rs where r: "migrate_restores fresh db (ss1, js) = (ss2, rs)" by fastforce
  note req = migrate_restores_eq [OF assms jeq(1) r]
  have "\<forall>x \<in> set js. j9_repo_password_secret_id x \<noteq> None"
    using jeq(3) by (auto simp: in_set_conv_nth job_after_def Let_def)
  moreover have "\<forall>x \<in> set rs. r9_repo_password_secret_id x \<noteq> None"
    using req(3) by (auto simp: in_set_conv_nth restore_after_def Let_def)
  ultimately have "up009 fresh db = Inr \<lparr>d9_targets = map migrate_target (delete_where (\<lambda>t. t8_backend_type t = ''local'') (d8_targets db)),
        d9_jobs = js, d9_restores = rs, d9_secrets = delete_where (orphaned js rs) ss2,
        d9_grants = delete_where (\<lambda>g. gr_resource_type g = RtTarget \<and> gr_resource_id g \<in> set (local_ids db)) (d8_grants db)\<rparr>"
    using j r by (auto simp: up009_def list_ex_iff)
  then show ?thesis using jeq req by (simp add: split_result_def)
qed

lemma copies_mem: "i < length pairs \<Longrightarrow> copied (d8_secrets db) (fresh (n + i)) (snd (pairs ! i)) \<in> set (copies fresh db n pairs)"
proof -
  assume "i < length pairs"
  then have "(n + i, pairs ! i) \<in> set (List.enumerate n pairs)" by (simp add: in_set_enumerate_eq)
  then show ?thesis by (force simp: copies_def case_prod_beta)
qed

lemma copied_fields:
  assumes "distinct (map se_id ss)" "q \<in> set ss"
  shows "copied ss i (se_id q) = \<lparr>se_id = i, se_type = StRepoPassword, se_ciphertext = se_ciphertext q, se_nonce = se_nonce q\<rparr>"
  by (simp add: copied_def select_secret [OF assms])

lemma map_of_repo_config:
  "map_of (repoConfigExpr config) k =
     (if k \<in> set REPO_KEYS then (case map_of config k of None \<Rightarrow> None | Some v \<Rightarrow> if v = JNull then None else Some (strip_nulls v)) else None)"
proof -
  have "map_of (List.map_filter (\<lambda>k. case g k of None \<Rightarrow> None | Some v \<Rightarrow> if v = JNull then None else Some (k, strip_nulls v)) ks) k =
      (if k \<in> set ks then (case g k of None \<Rightarrow> None | Some v \<Rightarrow> if v = JNull then None else Some (strip_nulls v)) else None)" for g ks
    by (induction ks) (auto simp: map_filter_simps split: option.splits)
  then show ?thesis by (simp add: repoConfigExpr_def)
qed

text \<open>
  What a job or a restore of the new schema refers to is the repository the target of the old
  schema described: the connection with what is not of the repository (none for a local one), the
  repository's own values, and a secret that is a copy of the target's password.
\<close>

definition same_repository :: "schema8 \<Rightarrow> schema9 \<Rightarrow> target8 \<Rightarrow> uuid option \<Rightarrow> form \<Rightarrow> uuid option \<Rightarrow> bool" where
  "same_repository db db' t tid config pw \<longleftrightarrow>
     (if t8_backend_type t = ''local'' then tid = None
      else \<exists>t' \<in> set (d9_targets db'). tid = Some (t9_id t') \<and> t9_id t' = t8_id t \<and> t9_backend_type t' = t8_backend_type t \<and>
             t9_credential_secret_id t' = t8_credential_secret_id t \<and>
             (\<forall>k. map_of (t9_config t') k = (if k \<in> set REPO_KEYS then None else map_of (t8_config t) k))) \<and>
     (\<forall>k. map_of config k = (if k \<in> set REPO_KEYS
             then (case map_of (t8_config t) k of None \<Rightarrow> None | Some v \<Rightarrow> if v = JNull then None else Some (strip_nulls v)) else None)) \<and>
     (\<exists>p \<in> set (d9_secrets db'). \<exists>q \<in> set (d8_secrets db). pw = Some (se_id p) \<and> se_id q = t8_password_secret_id t \<and>
        se_ciphertext p = se_ciphertext q \<and> se_nonce p = se_nonce q)"

lemma map_of_filter_key: "map_of (filter (\<lambda>(k, v). P k) xs) k = (if P k then map_of xs k else None)"
  by (induction xs) auto

lemma migrated_target_kept:
  assumes "t \<in> set (d8_targets db)" "t8_backend_type t \<noteq> ''local''"
  shows "\<exists>t' \<in> set (map migrate_target (delete_where (\<lambda>t. t8_backend_type t = ''local'') (d8_targets db))).
    t9_id t' = t8_id t \<and> t9_backend_type t' = t8_backend_type t \<and> t9_credential_secret_id t' = t8_credential_secret_id t \<and>
    (\<forall>k. map_of (t9_config t') k = (if k \<in> set REPO_KEYS then None else map_of (t8_config t) k))"
  using assms by (intro bexI [of _ "migrate_target t"]) (auto simp: migrate_target_def map_of_filter_key delete_where_def)

lemma same_repositoryI:
  assumes "keys8 db" "t \<in> set (d8_targets db)"
    "d9_targets db' = map migrate_target (delete_where (\<lambda>t. t8_backend_type t = ''local'') (d8_targets db))"
    "copied (d8_secrets db) p (t8_password_secret_id t) \<in> set (d9_secrets db')"
  shows "same_repository db db' t (if t8_backend_type t = ''local'' then None else Some (t8_id t)) (repoConfigExpr (t8_config t)) (Some p)"
proof -
  obtain q where q: "q \<in> set (d8_secrets db)" "se_id q = t8_password_secret_id t"
    using assms(1,2) by (auto simp: keys8_def has_secret_def image_iff)
  have c: "copied (d8_secrets db) p (t8_password_secret_id t) =
      \<lparr>se_id = p, se_type = StRepoPassword, se_ciphertext = se_ciphertext q, se_nonce = se_nonce q\<rparr>"
    using copied_fields [of "d8_secrets db" q p] assms(1) q by (simp add: keys8_def)
  have "\<exists>p' \<in> set (d9_secrets db'). \<exists>q \<in> set (d8_secrets db). Some p = Some (se_id p') \<and> se_id q = t8_password_secret_id t \<and>
      se_ciphertext p' = se_ciphertext q \<and> se_nonce p' = se_nonce q"
    using assms(4) q unfolding c by (intro bexI [OF _ assms(4) [unfolded c]] bexI [OF _ q(1)]) simp
  moreover have "\<exists>t' \<in> set (d9_targets db'). Some (t8_id t) = Some (t9_id t') \<and> t9_id t' = t8_id t \<and> t9_backend_type t' = t8_backend_type t \<and>
      t9_credential_secret_id t' = t8_credential_secret_id t \<and>
      (\<forall>k. map_of (t9_config t') k = (if k \<in> set REPO_KEYS then None else map_of (t8_config t) k))"
    if "t8_backend_type t \<noteq> ''local''"
    using migrated_target_kept [OF assms(2) that] unfolding assms(3) by metis
  ultimately show ?thesis unfolding same_repository_def map_of_repo_config by (cases "t8_backend_type t = ''local''") simp_all
qed

lemma split_job:
  assumes "keys8 db" "split_result fresh db db'" "j \<in> set (d8_jobs db)"
  shows "\<exists>j' \<in> set (d9_jobs db'). j9_id j' = j8_id j \<and> j9_name j' = j8_name j \<and> j9_owner_id j' = j8_owner_id j \<and>
    same_repository db db' (target8_of db (j8_target_id j)) (j9_target_id j') (j9_repo_config j') (j9_repo_password_secret_id j')"
proof -
  obtain i where i: "i < length (d8_jobs db)" "d8_jobs db ! i = j" using assms(3) by (auto simp: in_set_conv_nth)
  let ?t = "target8_of db (j8_target_id j)"
  have t: "?t \<in> set (d8_targets db)" "t8_id ?t = j8_target_id j"
    using target8_of_in(1,2) [OF assms(1)] assms(1,3) by (auto simp: keys8_def)
  have "i < length (d9_jobs db')" using i assms(2) by (simp add: split_result_def)
  from nth_mem [OF this] have ji: "d9_jobs db' ! i \<in> set (d9_jobs db')" "d9_jobs db' ! i = job_after db (fresh i) j"
    using i assms(2) by (simp_all add: split_result_def)
  have "copied (d8_secrets db) (fresh i) (t8_password_secret_id ?t) \<in> set (copies fresh db 0 (job_pairs db))"
    using copies_mem [of i "job_pairs db" db fresh 0] i by (simp add: pairs_eq(1) [OF assms(1)])
  moreover have "\<not> orphaned (d9_jobs db') (d9_restores db') (copied (d8_secrets db) (fresh i) (t8_password_secret_id ?t))"
    using bexI [of "\<lambda>x. j9_repo_password_secret_id x = Some (fresh i)", OF _ ji(1)] ji(2)
    by (auto simp: orphaned_def copied_def job_after_def Let_def)
  ultimately have "same_repository db db' ?t (if t8_backend_type ?t = ''local'' then None else Some (t8_id ?t))
      (repoConfigExpr (t8_config ?t)) (Some (fresh i))"
    using assms(2) by (intro same_repositoryI assms(1) t(1)) (simp_all add: split_result_def delete_where_def)
  then show ?thesis using ji(2) unfolding t(2) by (intro bexI [OF _ ji(1)]) (simp del: if_split add: job_after_def Let_def)
qed

lemma split_restore:
  assumes "keys8 db" "split_result fresh db db'" "r \<in> set (d8_restores db)"
  shows "\<exists>r' \<in> set (d9_restores db'). r9_id r' = r8_id r \<and>
    same_repository db db' (target8_of db (r8_target_id r)) (r9_target_id r') (r9_repo_config r') (r9_repo_password_secret_id r')"
proof -
  obtain i where i: "i < length (d8_restores db)" "d8_restores db ! i = r" using assms(3) by (auto simp: in_set_conv_nth)
  let ?t = "target8_of db (r8_target_id r)"
  let ?p = "fresh (length (job_pairs db) + i)"
  have t: "?t \<in> set (d8_targets db)" "t8_id ?t = r8_target_id r"
    using target8_of_in(1,2) [OF assms(1)] assms(1,3) by (auto simp: keys8_def)
  have "i < length (d9_restores db')" using i assms(2) by (simp add: split_result_def)
  from nth_mem [OF this] have ri: "d9_restores db' ! i \<in> set (d9_restores db')" "d9_restores db' ! i = restore_after db (d9_jobs db') ?p r"
    using i assms(2) by (simp_all add: split_result_def)
  have "copied (d8_secrets db) ?p (t8_password_secret_id ?t) \<in> set (copies fresh db (length (job_pairs db)) (restore_pairs db))"
    using copies_mem [of i "restore_pairs db" db fresh "length (job_pairs db)"] i by (simp add: pairs_eq(2) [OF assms(1)])
  moreover have "\<not> orphaned (d9_jobs db') (d9_restores db') (copied (d8_secrets db) ?p (t8_password_secret_id ?t))"
    using bexI [of "\<lambda>x. r9_repo_password_secret_id x = Some ?p", OF _ ri(1)] ri(2)
    by (auto simp: orphaned_def copied_def restore_after_def Let_def)
  ultimately have "same_repository db db' ?t (if t8_backend_type ?t = ''local'' then None else Some (t8_id ?t))
      (repoConfigExpr (t8_config ?t)) (Some ?p)"
    using assms(2) by (intro same_repositoryI assms(1) t(1)) (simp_all add: split_result_def delete_where_def)
  then show ?thesis using ri(2) unfolding t(2) by (intro bexI [OF _ ri(1)]) (simp del: if_split add: restore_after_def Let_def)
qed

text \<open>The secrets that remain: those of other types, and one per job and restore.\<close>

lemma copies_type: "s \<in> set (copies fresh db n pairs) \<Longrightarrow> se_type s = StRepoPassword"
  by (auto simp: copies_def copied_def Let_def)

lemma split_secrets:
  assumes "split_result fresh db db'"
  shows "filter (\<lambda>s. se_type s \<noteq> StRepoPassword) (d9_secrets db') = filter (\<lambda>s. se_type s \<noteq> StRepoPassword) (d8_secrets db)"
    "s \<in> set (d9_secrets db') \<Longrightarrow> se_type s = StRepoPassword \<Longrightarrow>
      Some (se_id s) \<in> j9_repo_password_secret_id ` set (d9_jobs db') \<union> r9_repo_password_secret_id ` set (d9_restores db')"
proof -
  let ?old = "\<lambda>s. se_type s \<noteq> StRepoPassword"
  have "filter ?old (copies fresh db n pairs) = []" for n pairs using copies_type by (auto simp: filter_empty_conv)
  moreover have "filter ?old (delete_where (orphaned js rs) ss) = filter ?old ss" for js rs ss
    by (auto simp: delete_where_def orphaned_def intro: filter_cong)
  ultimately show "filter ?old (d9_secrets db') = filter ?old (d8_secrets db)"
    using assms by (simp add: split_result_def)
  show "Some (se_id s) \<in> j9_repo_password_secret_id ` set (d9_jobs db') \<union> r9_repo_password_secret_id ` set (d9_restores db')"
    if repo: "s \<in> set (d9_secrets db')" "se_type s = StRepoPassword"
  proof -
    have "\<not> orphaned (d9_jobs db') (d9_restores db') s"
      using repo(1) assms by (auto simp: split_result_def delete_where_def)
    then consider j where "j \<in> set (d9_jobs db')" "j9_repo_password_secret_id j = Some (se_id s)"
      | r where "r \<in> set (d9_restores db')" "r9_repo_password_secret_id r = Some (se_id s)"
      unfolding orphaned_def using repo(2) by blast
    then show ?thesis by cases force+
  qed
qed

section \<open>Theorems\<close>

text \<open>
  C34: Splitting targets loses no repository: on a database with sound keys the migration succeeds,
  and every job and every restore refers afterwards to the repository its target described, the
  same connection with the same credentials and values, or none for a local repository, the same
  bucket, prefix, container and path, and a secret with the very ciphertext of the target's
  password. Secrets of other kinds stay as they are, and no password is left without an owner.
\<close>

theorem split_keeps_repositories:
  assumes "keys8 db"
  shows "\<exists>db'. up009 fresh db = Inr db' \<and>
    (\<forall>j \<in> set (d8_jobs db). \<exists>j' \<in> set (d9_jobs db'). j9_id j' = j8_id j \<and> j9_name j' = j8_name j \<and> j9_owner_id j' = j8_owner_id j \<and>
       same_repository db db' (target8_of db (j8_target_id j)) (j9_target_id j') (j9_repo_config j') (j9_repo_password_secret_id j')) \<and>
    (\<forall>r \<in> set (d8_restores db). \<exists>r' \<in> set (d9_restores db'). r9_id r' = r8_id r \<and>
       same_repository db db' (target8_of db (r8_target_id r)) (r9_target_id r') (r9_repo_config r') (r9_repo_password_secret_id r')) \<and>
    filter (\<lambda>s. se_type s \<noteq> StRepoPassword) (d9_secrets db') = filter (\<lambda>s. se_type s \<noteq> StRepoPassword) (d8_secrets db) \<and>
    (\<forall>s \<in> set (d9_secrets db'). se_type s = StRepoPassword \<longrightarrow>
       Some (se_id s) \<in> j9_repo_password_secret_id ` set (d9_jobs db') \<union> r9_repo_password_secret_id ` set (d9_restores db'))"
proof -
  obtain db' where up: "up009 fresh db = Inr db'" "split_result fresh db db'" using up009_result [OF assms] by blast
  show ?thesis
    using split_job [OF assms up(2)] split_restore [OF assms up(2)] split_secrets [OF up(2)]
    by (intro exI [of _ db'] conjI ballI impI up(1)) blast+
qed

definition sample_schema8 :: schema8 where
  "sample_schema8 =
     \<lparr>d8_targets = [\<lparr>t8_id = ''t1'', t8_backend_type = ''s3'',
        t8_config = [(''endpoint'', JStr ''h''), (''bucket'', JStr ''b''), (''prefix'', JNull)],
        t8_password_secret_id = ''s1'', t8_credential_secret_id = Some ''s2''\<rparr>],
      d8_jobs = [\<lparr>j8_id = ''j1'', j8_name = ''Nightly'', j8_target_id = ''t1'', j8_owner_id = ''u1''\<rparr>], d8_restores = [],
      d8_secrets = [\<lparr>se_id = ''s1'', se_type = StRepoPassword, se_ciphertext = ''c'', se_nonce = ''n''\<rparr>,
                    \<lparr>se_id = ''s2'', se_type = StBackendCredential, se_ciphertext = ''d'', se_nonce = ''m''\<rparr>],
      d8_grants = []\<rparr>"

theorem split_keeps_repositories_witness:
  "\<exists>db' j'. up009 (\<lambda>n. replicate n CHR ''x'') sample_schema8 = Inr db' \<and> j' \<in> set (d9_jobs db') \<and> j9_id j' = ''j1'' \<and>
     j9_target_id j' = Some ''t1'' \<and> map_of (j9_repo_config j') ''bucket'' = Some (JStr ''b'')"
proof -
  have k: "keys8 sample_schema8" by (simp add: keys8_def sample_schema8_def has_secret_def)
  have t: "target8_of sample_schema8 ''t1'' = hd (d8_targets sample_schema8)"
    by (simp add: target8_of_def sample_schema8_def select_first_def)
  have j: "\<lparr>j8_id = ''j1'', j8_name = ''Nightly'', j8_target_id = ''t1'', j8_owner_id = ''u1''\<rparr> \<in> set (d8_jobs sample_schema8)"
    by (simp add: sample_schema8_def)
  obtain db' where db': "up009 (\<lambda>n. replicate n CHR ''x'') sample_schema8 = Inr db'"
    and all: "\<forall>j \<in> set (d8_jobs sample_schema8). \<exists>j' \<in> set (d9_jobs db'). j9_id j' = j8_id j \<and> j9_name j' = j8_name j \<and> j9_owner_id j' = j8_owner_id j \<and>
       same_repository sample_schema8 db' (target8_of sample_schema8 (j8_target_id j)) (j9_target_id j') (j9_repo_config j') (j9_repo_password_secret_id j')"
    using split_keeps_repositories [OF k] by blast
  obtain j' where j': "j' \<in> set (d9_jobs db')" "j9_id j' = ''j1''"
    "same_repository sample_schema8 db' (hd (d8_targets sample_schema8)) (j9_target_id j') (j9_repo_config j') (j9_repo_password_secret_id j')"
    using bspec [OF all j] t by auto
  from j'(3) have "j9_target_id j' = Some ''t1''" "map_of (j9_repo_config j') ''bucket'' = Some (JStr ''b'')"
    by (auto simp: same_repository_def sample_schema8_def REPO_KEYS_def)
  with db' j' show ?thesis by blast
qed

text \<open>
  The copies stay readable: a password that was stored before secrets were bound to their rows,
  copied under another id, is revealed as the same text. A bound one would not be, which is why
  copying ciphertexts is no longer possible.
\<close>

theorem copied_password_revealed:
  assumes "gcm_correct c" "gcm_authentic c" "secret_by_id i s = Some p" "secret_by_id j s' = Some q"
    "se_ciphertext p = se_ciphertext q" "se_nonce p = se_nonce q"
  shows "se_ciphertext q = gcm_seal c (se_nonce q) None text \<Longrightarrow> reveal c s i = Inr text \<and> reveal c s' j = Inr text"
    "se_ciphertext q = gcm_seal c (se_nonce q) (Some (aadFor j)) text \<Longrightarrow> i \<noteq> j \<Longrightarrow> is_error (reveal c s i) \<and> reveal c s' j = Inr text"
proof -
  show "reveal c s i = Inr text \<and> reveal c s' j = Inr text" if "se_ciphertext q = gcm_seal c (se_nonce q) None text"
    using assms that by (simp add: reveal_def decrypt_def gcm_correct_def gcm_authentic_def)
  show "is_error (reveal c s i) \<and> reveal c s' j = Inr text" if "se_ciphertext q = gcm_seal c (se_nonce q) (Some (aadFor j)) text" "i \<noteq> j"
  proof -
    have "j \<noteq> i" using that(2) by simp
    from reveal_other_row [OF assms(2) this assms(3)] show ?thesis
      using reveal_sealed [OF assms(1,4) that(1)] assms(5) that(1) by simp
  qed
qed

text \<open>
  Extracting repositories establishes the pairing the job service relies on, one repository per
  job and none besides, with the values the job had; and undoing it gives the jobs back exactly.
\<close>

theorem extract_pairs_and_reverts:
  assumes "distinct (map j9_id js)" "inj fresh" "\<forall>j \<in> set js. j9_repo_password_secret_id j \<noteq> None"
    "up010 fresh js = (ps, ls)"
  shows "(\<forall>s. map (\<lambda>j. (bj_id j, bj_repository_id j)) (backup_jobs s) = map (\<lambda>l. (j10_id l, j10_repository_id l)) ls \<and>
      map re_id (repositories s) = map p10_id ps \<longrightarrow> jobs_paired s) \<and>
    down010 (ps, ls) = Inr js"
proof
  have ps: "map p10_id ps = map (fresh \<circ> j9_id) js" "ps = map (\<lambda>j. repository_of (fresh (j9_id j)) j) js"
    and ls: "map j10_id ls = map j9_id js" "map j10_repository_id ls = map (fresh \<circ> j9_id) js"
    "ls = map (\<lambda>j. link_job (fresh (j9_id j)) j) js"
    using assms(4) by (auto simp: up010_def repository_of_def link_job_def)
  have d: "distinct (map (fresh \<circ> j9_id) js)"
    using assms(1,2) by (simp add: distinct_map comp_inj_on inj_on_subset)
  show "\<forall>s. map (\<lambda>j. (bj_id j, bj_repository_id j)) (backup_jobs s) = map (\<lambda>l. (j10_id l, j10_repository_id l)) ls \<and>
      map re_id (repositories s) = map p10_id ps \<longrightarrow> jobs_paired s"
  proof (intro allI impI, elim conjE)
    fix s :: server
    assume b: "map (\<lambda>j. (bj_id j, bj_repository_id j)) (backup_jobs s) = map (\<lambda>l. (j10_id l, j10_repository_id l)) ls"
      and r: "map re_id (repositories s) = map p10_id ps"
    have "map bj_id (backup_jobs s) = map j9_id js" "map bj_repository_id (backup_jobs s) = map (fresh \<circ> j9_id) js"
      using arg_cong [OF b, of "map fst"] arg_cong [OF b, of "map snd"] ls(1,2) by (simp_all add: comp_def)
    then show "jobs_paired s"
      unfolding jobs_paired_def using r ps(1) d assms(1) by (metis list.set_map)
  qed
  have "fold_back ps (link_job (fresh (j9_id j)) j) = j" if "j \<in> set js" for j
  proof -
    have "repository_of (fresh (j9_id j)) j \<in> set ps" using that ps(2) by simp
    then have "select_first (\<lambda>p. p10_id p = fresh (j9_id j)) ps = Some (repository_of (fresh (j9_id j)) j)"
      using p10row.by_key_unique [of ps "repository_of (fresh (j9_id j)) j"] d ps(1)
      by (simp add: p10row.by_key_def p10row.keys_def repository_of_def)
    then show ?thesis by (simp add: fold_back_def link_job_def repository_of_def)
  qed
  then have "map (fold_back ps) ls = js" by (simp add: ls(3) map_idI)
  then show "down010 (ps, ls) = Inr js" using assms(3) by (auto simp: down010_def list_ex_iff)
qed

theorem extract_pairs_and_reverts_witness:
  "let j = \<lparr>j9_id = ''j1'', j9_name = ''Nightly'', j9_target_id = None, j9_repo_config = [(''path'', JStr ''/r'')],
         j9_repo_password_secret_id = Some ''s1'', j9_owner_id = ''u1''\<rparr>
   in down010 (up010 (\<lambda>i. ''r'' @ i) [j]) = Inr [j]"
proof -
  have "inj (\<lambda>i. ''r'' @ i)" by (simp add: inj_def)
  then show ?thesis
    using extract_pairs_and_reverts [OF _ _ _ surjective_pairing, of "[j]" "\<lambda>i. ''r'' @ i" for j] by (simp add: Let_def)
qed

text \<open>Merging sources keeps for every job where and what it backs up, and can be undone and redone.\<close>

theorem merge_keeps_sources:
  assumes "distinct (map s1_id ss)" "\<forall>j \<in> set js. j1_source_id j \<in> s1_id ` set ss" "up002 (ss, js, gs) = (js', gs')"
  shows "\<forall>j \<in> set js. \<exists>j' \<in> set js'. \<exists>s \<in> set ss. j2_id j' = j1_id j \<and> s1_id s = j1_source_id j \<and>
      j2_location j' = s1_location s \<and> j2_agent_id j' = s1_agent_id s \<and> j2_paths j' = s1_paths s"
    "distinct (map j2_id js') \<Longrightarrow> inj fresh \<Longrightarrow> down002 fresh js' = (ss', js1) \<Longrightarrow> up002 (ss', js1, gs') = (js', gs')"
proof -
  have js': "js' = map (merge_source ss) js" "gs' = delete_where (\<lambda>g. gr_resource_type g = RtSource) gs"
    using assms(3) by (auto simp: up002_def)
  show "\<forall>j \<in> set js. \<exists>j' \<in> set js'. \<exists>s \<in> set ss. j2_id j' = j1_id j \<and> s1_id s = j1_source_id j \<and>
      j2_location j' = s1_location s \<and> j2_agent_id j' = s1_agent_id s \<and> j2_paths j' = s1_paths s"
  proof
    fix j assume j: "j \<in> set js"
    then obtain s where s: "s \<in> set ss" "s1_id s = j1_source_id j" using assms(2) by auto
    then have "select_first (\<lambda>q. s1_id q = j1_source_id j) ss = Some s"
      using s1row.by_key_unique [of ss s] assms(1) by (simp add: s1row.by_key_def s1row.keys_def)
    then have "j2_id (merge_source ss j) = j1_id j" "j2_location (merge_source ss j) = s1_location s"
      "j2_agent_id (merge_source ss j) = s1_agent_id s" "j2_paths (merge_source ss j) = s1_paths s"
      by (simp_all add: merge_source_def)
    moreover have "merge_source ss j \<in> set js'" using j by (simp add: js'(1))
    ultimately show "\<exists>j' \<in> set js'. \<exists>s \<in> set ss. j2_id j' = j1_id j \<and> s1_id s = j1_source_id j \<and>
        j2_location j' = s1_location s \<and> j2_agent_id j' = s1_agent_id s \<and> j2_paths j' = s1_paths s"
      using s by blast
  qed
  show "up002 (ss', js1, gs') = (js', gs')" if d: "distinct (map j2_id js')" "inj fresh" "down002 fresh js' = (ss', js1)"
  proof -
    let ?src = "\<lambda>j. \<lparr>s1_id = fresh (j2_id j), s1_location = j2_location j, s1_agent_id = j2_agent_id j, s1_paths = j2_paths j\<rparr>"
    have ss': "ss' = map ?src js'" "js1 = map (\<lambda>j. \<lparr>j1_id = j2_id j, j1_name = j2_name j, j1_source_id = fresh (j2_id j)\<rparr>) js'"
      using d(3) by (auto simp: down002_def)
    have "distinct (map s1_id ss')"
      using d(1,2) by (simp add: ss'(1) comp_def distinct_map inj_on_def inj_def)
    then have "select_first (\<lambda>q. s1_id q = fresh (j2_id j)) ss' = Some (?src j)" if "j \<in> set js'" for j
      using s1row.by_key_unique [of ss' "?src j"] that by (simp add: s1row.by_key_def s1row.keys_def ss'(1))
    then have "map (merge_source ss') js1 = js'" by (simp add: ss'(2) merge_source_def map_idI)
    moreover have "delete_where (\<lambda>g. gr_resource_type g = RtSource) gs' = gs'" by (simp add: js'(2) delete_where_def)
    ultimately show ?thesis by (simp add: up002_def)
  qed
qed

section \<open>Backfilled slugs\<close>

lemma sql_alnum_lower: "sql_alnum c \<longleftrightarrow> is_lower_alnum (lower_char c)"
proof -
  consider "65 \<le> (of_char c :: nat) \<and> (of_char c :: nat) \<le> 90" | "\<not> (65 \<le> (of_char c :: nat) \<and> (of_char c :: nat) \<le> 90)" by blast
  then show ?thesis
  proof cases
    case 1
    then have "(of_char (lower_char c) :: nat) = of_char c + 32" by (simp add: lower_char_def Let_def)
    with 1 show ?thesis by (auto simp: sql_alnum_def is_lower_alnum_def is_digit_def)
  next
    case 2
    then have "lower_char c = c" by (auto simp: lower_char_def Let_def)
    with 2 show ?thesis by (auto simp: sql_alnum_def)
  qed
qed

lemma to_lower_dropWhile: "to_lower (dropWhile (\<lambda>d. \<not> sql_alnum d) s) = dropWhile (\<lambda>d. \<not> is_lower_alnum d) (to_lower s)"
  by (induction s) (simp_all add: to_lower_def sql_alnum_lower)

lemma to_lower_sql_dashes: "to_lower (sql_dashes s) = dash_runs (to_lower s)"
proof (induction s rule: sql_dashes.induct)
  case (2 c cs)
  have dash: "lower_char CHR ''-'' = CHR ''-''" by (simp add: lower_char_def)
  show ?case
  proof (cases "sql_alnum c")
    case True
    with 2 show ?thesis by (simp add: to_lower_def sql_alnum_lower)
  next
    case False
    have "dash_runs (lower_char c # to_lower cs) = CHR ''-'' # dash_runs (dropWhile (\<lambda>d. \<not> is_lower_alnum d) (to_lower cs))"
      using False by (simp add: sql_alnum_lower)
    moreover have "to_lower (sql_dashes (c # cs)) = CHR ''-'' # dash_runs (dropWhile (\<lambda>d. \<not> is_lower_alnum d) (to_lower cs))"
      using 2(2) [OF False] False dash by (simp add: to_lower_dropWhile [symmetric]) (simp add: to_lower_def)
    ultimately show ?thesis by (simp add: to_lower_def)
  qed
qed (simp add: to_lower_def)

lemma slug_base_slugify: "slug_base name = slugify name"
  by (simp add: slug_base_def slugify_def to_lower_sql_dashes)

lemma id_less_irrefl: "\<not> id_less a a"
  by (induction a) auto

lemma id_less_trans: "id_less a b \<Longrightarrow> id_less b c \<Longrightarrow> id_less a c"
proof (induction a b arbitrary: c rule: id_less.induct)
  case (1 ys)
  then show ?case by (cases ys; cases c) auto
next
  case (3 x xs y ys)
  then show ?case by (cases c) auto
qed simp

lemma id_less_total: "a \<noteq> b \<Longrightarrow> id_less a b \<or> id_less b a"
proof (induction a b rule: id_less.induct)
  case (3 x xs y ys)
  then show ?case by (metis id_less.simps(3) linorder_neqE_nat of_char_eq_iff)
qed auto

lemma created_before_irrefl: "\<not> created_before a a"
  by (simp add: created_before_def id_less_irrefl)

lemma created_before_trans: "created_before a b \<Longrightarrow> created_before b c \<Longrightarrow> created_before a c"
  unfolding created_before_def using id_less_trans [of "nd_id a" "nd_id b" "nd_id c"] by auto

lemma created_before_total: "nd_id a \<noteq> nd_id b \<Longrightarrow> created_before a b \<or> created_before b a"
  unfolding created_before_def using id_less_total [of "nd_id a" "nd_id b"] by auto

lemma filter_shorter: "(\<And>q. P q \<Longrightarrow> Q q) \<Longrightarrow> length (filter P xs) \<le> length (filter Q xs)"
  by (induction xs) auto

lemma filter_shorter_strict:
  assumes "\<And>q. P q \<Longrightarrow> Q q" "a \<in> set xs" "Q a" "\<not> P a"
  shows "length (filter P xs) < length (filter Q xs)"
  using assms(2)
proof (induction xs)
  case (Cons x xs)
  show ?case
  proof (cases "x = a")
    case True
    then show ?thesis using filter_shorter [of P Q xs] assms(1,3,4) by (simp add: less_Suc_eq_le)
  next
    case False
    then show ?thesis using Cons assms(1) by auto
  qed
qed simp

lemma row_number_less:
  assumes "a \<in> set rows" "slug_base (nd_name a) = slug_base (nd_name b)" "created_before a b"
  shows "row_number rows a < row_number rows b"
proof -
  have "length (filter (\<lambda>q. slug_base (nd_name q) = slug_base (nd_name a) \<and> created_before q a) rows) <
      length (filter (\<lambda>q. slug_base (nd_name q) = slug_base (nd_name b) \<and> created_before q b) rows)"
    using assms created_before_irrefl created_before_trans [OF _ assms(3)] by (intro filter_shorter_strict [of _ _ a]) auto
  then show ?thesis by (simp add: row_number_def count_where_def)
qed

definition numbered :: "string \<Rightarrow> nat \<Rightarrow> string" where
  "numbered base n = (if n > 1 then base @ ''-'' @ show_nat n else base)"

lemma backfilled_numbered: "backfilled_slug rows r = numbered (slug_base (nd_name r)) (row_number rows r)"
  by (simp add: backfilled_slug_def numbered_def Let_def)

lemma numbered_inject: "numbered base n = numbered base m \<Longrightarrow> n > 0 \<Longrightarrow> m > 0 \<Longrightarrow> n = m"
  by (auto simp: numbered_def split: if_splits)

lemma dash_split:
  assumes "a @ ''-'' @ show_nat n = b @ ''-'' @ show_nat m"
  shows "a = b"
proof -
  let ?nd = "\<lambda>c. c \<noteq> CHR ''-''"
  have "\<not> is_digit CHR ''-''" by (simp add: is_digit_def)
  then have digits: "\<forall>c \<in> set (show_nat k). ?nd c" for k using show_nat_digits by metis
  then have "dropWhile ?nd (rev (x @ ''-'' @ show_nat k)) = CHR ''-'' # rev x" for x k
    by (simp add: dropWhile_append)
  then have "rev a = rev b" using assms by (metis list.inject)
  then show ?thesis by simp
qed

text \<open>
  The slugs filled in for existing rows follow the rule of the running server for a name, and they
  are different as long as no name reads like another one with a number.
\<close>

theorem backfill_unique:
  assumes "distinct (map nd_id rows)"
    "\<And>r q n. r \<in> set rows \<Longrightarrow> q \<in> set rows \<Longrightarrow> slugify (nd_name q) \<noteq> slugify (nd_name r) @ ''-'' @ show_nat n"
  shows "up012 rows = Inr (map (\<lambda>r. (nd_id r, backfilled_slug rows r)) rows) \<and>
    (\<forall>r \<in> set rows. (\<forall>q \<in> set rows. slugify (nd_name q) = slugify (nd_name r) \<longrightarrow> \<not> created_before q r) \<longrightarrow>
       backfilled_slug rows r = slugify (nd_name r))"
proof -
  have "r = q" if r: "r \<in> set rows" "q \<in> set rows" "backfilled_slug rows r = backfilled_slug rows q" for r q
  proof (rule ccontr)
    assume "r \<noteq> q"
    then have id: "nd_id r \<noteq> nd_id q" using assms(1) r(1,2) by (metis distinct_map inj_onD)
    show False
    proof (cases "slug_base (nd_name r) = slug_base (nd_name q)")
      case True
      then have "row_number rows r \<noteq> row_number rows q"
        using created_before_total [OF id] row_number_less [of r rows q] row_number_less [of q rows r] r by auto
      moreover have "row_number rows x > 0" for x by (simp add: row_number_def)
      ultimately show False using r(3) True numbered_inject by (simp add: backfilled_numbered)
    next
      case False
      then show False
        using r(3) assms(2) [OF r(1,2)] assms(2) [OF r(2,1)] dash_split
        unfolding backfilled_numbered numbered_def slug_base_slugify by metis
    qed
  qed
  moreover have "distinct rows" using assms(1) by (simp add: distinct_map)
  ultimately have "distinct (map (backfilled_slug rows) rows)" by (auto simp: distinct_map inj_on_def)
  moreover have "backfilled_slug rows r = slugify (nd_name r)"
    if "\<forall>q \<in> set rows. slugify (nd_name q) = slugify (nd_name r) \<longrightarrow> \<not> created_before q r" for r
  proof -
    have "row_number rows r = 1" using that by (simp add: row_number_def slug_base_slugify)
    then show ?thesis by (simp add: backfilled_slug_def slug_base_slugify)
  qed
  ultimately show ?thesis by (simp add: up012_def comp_def)
qed

text \<open>
  Otherwise the migration fails: of two rows named A the second gets the slug that a row named
  A 2 has by itself, and the unique index cannot be created. The running server avoids this by
  looking at the slugs that are taken.
\<close>

theorem slug_backfill_collides:
  "is_error (up012 [\<lparr>nd_id = ''x'', nd_name = ''A'', nd_created_at = 1\<rparr>, \<lparr>nd_id = ''y'', nd_name = ''A'', nd_created_at = 2\<rparr>,
      \<lparr>nd_id = ''z'', nd_name = ''A 2'', nd_created_at = 3\<rparr>]) \<and>
   uniqueSlug [(''x'', ''a''), (''y'', ''a-2'')] ''A 2'' None = ''a-2-2''"
proof
  have b: "slug_base ''A'' = ''a''" "slug_base ''A 2'' = ''a-2''" by code_simp+
  have "show_nat 2 = ''2''" by code_simp
  then show "is_error (up012 [\<lparr>nd_id = ''x'', nd_name = ''A'', nd_created_at = 1\<rparr>, \<lparr>nd_id = ''y'', nd_name = ''A'', nd_created_at = 2\<rparr>,
      \<lparr>nd_id = ''z'', nd_name = ''A 2'', nd_created_at = 3\<rparr>])"
    by (simp add: up012_def backfilled_slug_def row_number_def b created_before_def count_where_def Let_def numeral_2_eq_2)
  show "uniqueSlug [(''x'', ''a''), (''y'', ''a-2'')] ''A 2'' None = ''a-2-2''" by code_simp
qed

end
