(* ===== verification/Restic.thy ===== *)
theory Restic
  imports Backends
begin

text \<open>
  The restic executor: \<open>server/src/restic/restic.service.ts\<close>, \<open>server/src/restic/restic.types.ts\<close>
  and \<open>server/src/common/child-env.ts\<close>. The child process is an argument (\<open>process\<close>): from its
  argument list, environment and the files it can see, it produces chunks of output, an exit
  code and new files. \<open>JSON.parse\<close> is an argument too. A process that cannot be started is an
  error value. File paths are texts; \<open>mkdtemp\<close>'s directory name is an input.
  The lemmas show that no text a user chose is read as an option, that the server's own
  secrets do not reach a child process, that credential files do not outlive the call, that
  lines do not depend on how the output was cut, and what scrubbing hides.
\<close>

section \<open>Environment of child processes\<close>

type_synonym env = "string \<rightharpoonup> string"
type_synonym files = "string \<rightharpoonup> string"

definition SENSITIVE_ENV_KEYS :: "string list" where
  "SENSITIVE_ENV_KEYS =
     [''MASTER_ENCRYPTION_KEY'', ''JWT_SECRET'', ''DATABASE_URL'', ''BOOTSTRAP_ADMIN_PASSWORD'', ''BOOTSTRAP_ADMIN_EMAIL'']"

definition sanitizedChildEnv :: "env \<Rightarrow> env" where
  "sanitizedChildEnv base = (\<lambda>k. if k \<in> set SENSITIVE_ENV_KEYS then None else base k)"

section \<open>Scrubbing\<close>

definition is_letter :: "char \<Rightarrow> bool" where
  "is_letter c \<longleftrightarrow> 97 \<le> (of_char (lower_char c) :: nat) \<and> (of_char (lower_char c) :: nat) \<le> 122"

definition scheme_char :: "char \<Rightarrow> bool" where
  "scheme_char c \<longleftrightarrow> is_letter c \<or> is_digit c \<or> c \<in> set ''+.-''"

definition userinfo_char :: "char \<Rightarrow> bool" where
  "userinfo_char c \<longleftrightarrow> c \<noteq> CHR ''/'' \<and> c \<noteq> CHR ''@'' \<and> \<not> js_space c"

text \<open>
  A match of \<open>([a-z][a-z0-9+.-]*:\/\/)[^/\s@]+@\<close> at the start of a text: the kept part and what
  follows. Each repetition ends where its class ends, so there is one way to match.
\<close>

definition url_match :: "string \<Rightarrow> (string \<times> string) option" where
  "url_match s =
     (let sch = takeWhile scheme_char s; r = dropWhile scheme_char s;
          r2 = drop 3 r; r3 = dropWhile userinfo_char r2
      in if s \<noteq> [] \<and> is_letter (hd s) \<and> starts_with ''://'' r \<and> takeWhile userinfo_char r2 \<noteq> [] \<and>
            r3 \<noteq> [] \<and> hd r3 = CHR ''@''
         then Some (sch @ ''://'', tl r3) else None)"

lemma url_match_shorter: "url_match s = Some (p, r) \<Longrightarrow> length r < length s"
proof -
  assume "url_match s = Some (p, r)"
  then have "r = tl (dropWhile userinfo_char (drop 3 (dropWhile scheme_char s)))" "s \<noteq> []"
    by (auto simp: url_match_def Let_def split: if_splits)
  moreover have "length (dropWhile userinfo_char (drop 3 (dropWhile scheme_char s))) \<le> length s"
    using length_dropWhile_le [of userinfo_char "drop 3 (dropWhile scheme_char s)"] length_dropWhile_le [of scheme_char s] by simp
  ultimately show ?thesis by (cases "dropWhile userinfo_char (drop 3 (dropWhile scheme_char s))") auto
qed

function scrubSecretsInText :: "string \<Rightarrow> string" where
  "scrubSecretsInText [] = []"
| "scrubSecretsInText (c # cs) =
     (case url_match (c # cs) of
        Some (p, r) \<Rightarrow> p @ ''***:***@'' @ scrubSecretsInText r
      | None \<Rightarrow> c # scrubSecretsInText cs)"
  by pat_completeness auto
termination
  by (relation "measure length") (auto dest: url_match_shorter)

declare scrubSecretsInText.simps(2) [simp del]

section \<open>Running restic\<close>

record restic_context =
  cx_repository :: string
  cx_password :: string
  cx_env :: "(string \<times> string) list"
  cx_credential_files :: "credential_file list"
  cx_extra_args :: "string list"

datatype chunk = Out string | Err string
datatype line = OutLine string | ErrLine string

record process_exit =
  px_code :: "int option"
  px_chunks :: "chunk list"

type_synonym process = "string list \<Rightarrow> env \<Rightarrow> files \<Rightarrow> process_exit result \<times> files"

text \<open>The loop that takes complete lines off a buffer.\<close>

function drain :: "string \<Rightarrow> string list \<times> string" where
  "drain buf =
     (case dropWhile (\<lambda>c. c \<noteq> CHR 0x0A) buf of
        [] \<Rightarrow> ([], buf)
      | _ # rest \<Rightarrow> (let (ls, b) = drain rest in (takeWhile (\<lambda>c. c \<noteq> CHR 0x0A) buf # ls, b)))"
  by pat_completeness auto
termination
proof (relation "measure length")
  fix buf and x :: char and rest
  assume "dropWhile (\<lambda>c. c \<noteq> CHR 0x0A) buf = x # rest"
  then have "Suc (length rest) \<le> length buf" using length_dropWhile_le [of "\<lambda>c. c \<noteq> CHR 0x0A" buf] by simp
  then show "(rest, buf) \<in> measure length" by simp
qed simp

declare drain.simps [simp del]

definition nonblank :: "string \<Rightarrow> bool" where
  "nonblank l \<longleftrightarrow> trim l \<noteq> []"

fun stream_lines :: "string \<Rightarrow> string \<Rightarrow> chunk list \<Rightarrow> line list" where
  "stream_lines ob eb [] = []"
| "stream_lines ob eb (Out t # cs) =
     (let (ls, b) = drain (ob @ t) in map OutLine (filter nonblank ls) @ stream_lines b eb cs)"
| "stream_lines ob eb (Err t # cs) =
     (let (ls, b) = drain (eb @ scrubSecretsInText t) in map ErrLine (filter nonblank ls) @ stream_lines ob b cs)"

definition out_text :: "chunk list \<Rightarrow> string" where
  "out_text cs = concat (map (\<lambda>c. case c of Out t \<Rightarrow> t | Err _ \<Rightarrow> []) cs)"

definition err_text :: "chunk list \<Rightarrow> string" where
  "err_text cs = concat (map (\<lambda>c. case c of Out _ \<Rightarrow> [] | Err t \<Rightarrow> scrubSecretsInText t) cs)"

record run_outcome =
  oc_code :: int
  oc_stdout :: string
  oc_stderr :: string
  oc_lines :: "line list"

definition spawn_restic :: "process \<Rightarrow> string list \<Rightarrow> env \<Rightarrow> files \<Rightarrow> run_outcome result \<times> files" where
  "spawn_restic pr args e fs =
     (case pr args e fs of
        (Inl er, fs1) \<Rightarrow> (Inl er, fs1)
      | (Inr x, fs1) \<Rightarrow>
          (Inr \<lparr>oc_code = (case px_code x of None \<Rightarrow> - 1 | Some n \<Rightarrow> n), oc_stdout = out_text (px_chunks x),
                oc_stderr = err_text (px_chunks x), oc_lines = stream_lines [] [] (px_chunks x)\<rparr>, fs1))"

definition file_path :: "string \<Rightarrow> string \<Rightarrow> string" where
  "file_path dir nm = dir @ ''/'' @ nm"

definition remove_tree :: "string \<Rightarrow> files \<Rightarrow> files" where
  "remove_tree dir fs = (\<lambda>p. if p = dir \<or> starts_with (dir @ ''/'') p then None else fs p)"

text \<open>
  What a call draws from its surroundings: the environment of the server, the cache directory,
  the temporary directory, which files can be written, and whether it can be removed.
\<close>

record run_env =
  re_env :: env
  re_cache_dir :: string
  re_work_dir :: string
  re_writable :: "string \<Rightarrow> bool"
  re_removable :: bool

definition base_env :: "run_env \<Rightarrow> restic_context \<Rightarrow> env" where
  "base_env x ctx =
     (sanitizedChildEnv (re_env x))
       (''RESTIC_REPOSITORY'' \<mapsto> cx_repository ctx, ''RESTIC_PASSWORD'' \<mapsto> cx_password ctx,
        ''RESTIC_CACHE_DIR'' \<mapsto> re_cache_dir x) ++ map_of (rev (cx_env ctx))"

text \<open>The loop over the credential files: environment, files and paths so far.\<close>

fun write_credentials ::
  "run_env \<Rightarrow> credential_file list \<Rightarrow> env \<times> files \<times> (string \<times> string) list
    \<Rightarrow> (env \<times> (string \<times> string) list) result \<times> files" where
  "write_credentials x [] (e, fs, ps) = (Inr (e, ps), fs)"
| "write_credentials x (f # cfs) (e, fs, ps) =
     (let fp = file_path (re_work_dir x) (cf_filename f) in
      if \<not> re_writable x fp then (Inl (PlainError ''EACCES''), fs)
      else write_credentials x cfs
             (if cf_env_var f = [] then e else e(cf_env_var f \<mapsto> fp), fs(fp \<mapsto> cf_content f), (cf_filename f, fp) # ps))"

definition run_restic :: "process \<Rightarrow> run_env \<Rightarrow> restic_context \<Rightarrow> string list \<Rightarrow> files \<Rightarrow> run_outcome result \<times> files" where
  "run_restic pr x ctx args fs =
     (let (r, fs2) =
        (case write_credentials x (cx_credential_files ctx) (base_env x ctx, fs, []) of
           (Inl er, fs1) \<Rightarrow> (Inl er, fs1)
         | (Inr (e, ps), fs1) \<Rightarrow>
             spawn_restic pr (substituteCredentialPaths (cx_extra_args ctx) ps @ args) e fs1)
      in (r, if re_removable x then remove_tree (re_work_dir x) fs2 else fs2))"

section \<open>Argument lists\<close>

definition flag_values :: "string \<Rightarrow> string list \<Rightarrow> string list" where
  "flag_values flag vs = concat (map (\<lambda>v. [flag, v]) vs)"

definition flag_if :: "bool \<Rightarrow> string \<Rightarrow> string list" where
  "flag_if b flag = (if b then [flag] else [])"

definition flag_text :: "string \<Rightarrow> string option \<Rightarrow> string list" where
  "flag_text flag v = (case v of None \<Rightarrow> [] | Some t \<Rightarrow> if t = [] then [] else [flag, t])"

definition flag_count :: "string \<Rightarrow> nat option \<Rightarrow> string list" where
  "flag_count flag v = (case v of None \<Rightarrow> [] | Some n \<Rightarrow> [flag, show_nat n])"

record snapshot_filters =
  sf_host :: "string option"
  sf_tags :: "string list"
  sf_paths :: "string list"

definition snapshots_args :: "snapshot_filters \<Rightarrow> string list" where
  "snapshots_args f =
     [''snapshots'', ''--json'', ''--no-lock''] @ flag_text ''--host'' (sf_host f) @
     flag_values ''--tag'' (sf_tags f) @ flag_values ''--path'' (sf_paths f)"

definition ls_target :: "string option \<Rightarrow> string" where
  "ls_target dir = (case dir of None \<Rightarrow> ''/'' | Some d \<Rightarrow> if d = [] then ''/'' else d)"

definition ls_args :: "string \<Rightarrow> string option \<Rightarrow> string list" where
  "ls_args snapshot dir = [''ls'', ''--json'', ''--no-lock'', ''--'', snapshot, ls_target dir]"

definition backup_args :: "restic_options \<Rightarrow> string list \<Rightarrow> string list" where
  "backup_args opts paths =
     [''backup'', ''--json''] @ flag_values ''--tag'' (ro_tags opts) @ flag_values ''--exclude'' (ro_exclude opts) @
     flag_values ''--iexclude'' (ro_iexclude opts) @ flag_values ''--exclude-file'' (ro_exclude_file opts) @
     flag_if (ro_one_file_system opts) ''--one-file-system'' @ flag_if (ro_exclude_caches opts) ''--exclude-caches'' @
     flag_text ''--exclude-larger-than'' (ro_exclude_larger_than opts) @ flag_text ''--compression'' (ro_compression opts) @
     (case ro_read_concurrency opts of None \<Rightarrow> [] | Some n \<Rightarrow> if n = 0 then [] else [''--read-concurrency'', show_nat n]) @
     [''--''] @ paths"

definition forget_args :: "retention \<Rightarrow> string list" where
  "forget_args r =
     [''forget'', ''--json''] @ flag_count ''--keep-last'' (rt_keep_last r) @ flag_count ''--keep-hourly'' (rt_keep_hourly r) @
     flag_count ''--keep-daily'' (rt_keep_daily r) @ flag_count ''--keep-weekly'' (rt_keep_weekly r) @
     flag_count ''--keep-monthly'' (rt_keep_monthly r) @ flag_count ''--keep-yearly'' (rt_keep_yearly r) @
     flag_text ''--keep-within'' (rt_keep_within r) @
     flag_values ''--keep-tag'' (case rt_keep_tags r of None \<Rightarrow> [] | Some ts \<Rightarrow> ts) @ flag_if (rt_prune r = Some True) ''--prune''"

definition checkArgs :: "check_info \<Rightarrow> string list" where
  "checkArgs info =
     (case ci_level info of
        LvFull \<Rightarrow> [''check'', ''--read-data'']
      | LvRotating \<Rightarrow>
          (case (ci_part info, ci_parts info) of
             (Some p, Some n) \<Rightarrow>
               if p = 0 \<or> n = 0 then [''check''] else [''check'', ''--read-data-subset='' @ show_nat p @ ''/'' @ show_nat n]
           | _ \<Rightarrow> [''check''])
      | LvQuick \<Rightarrow> [''check''])"

definition forgetSnapshots_args :: "string list \<Rightarrow> bool \<Rightarrow> string list" where
  "forgetSnapshots_args ids prune = [''forget'', ''--json''] @ flag_if prune ''--prune'' @ [''--''] @ ids"

record restore_flags =
  rf_include :: "string list"
  rf_exclude :: "string list"
  rf_overwrite :: "string option"
  rf_verify :: bool
  rf_delete :: bool
  rf_dry_run :: bool

definition restore_args :: "string \<Rightarrow> string \<Rightarrow> restore_flags \<Rightarrow> string list" where
  "restore_args snapshot tgt opts =
     [''restore'', ''--json'', ''--target'', tgt] @ flag_values ''--include'' (rf_include opts) @
     flag_values ''--exclude'' (rf_exclude opts) @ flag_text ''--overwrite'' (rf_overwrite opts) @
     flag_if (rf_verify opts) ''--verify'' @ flag_if (rf_delete opts) ''--delete'' @ flag_if (rf_dry_run opts) ''--dry-run'' @
     [''--'', snapshot]"

section \<open>Operations\<close>

text \<open>\<open>run(ctx, args)\<close> for a fixed context, and \<open>JSON.parse\<close>.\<close>

type_synonym runner = "string list \<Rightarrow> files \<Rightarrow> run_outcome result \<times> files"
type_synonym parser = "string \<Rightarrow> json option"

definition message_or :: "string \<Rightarrow> string \<Rightarrow> string" where
  "message_or text other = (if trim text = [] then other else trim text)"

record connection_test =
  ct_ok :: bool
  ct_initialized :: bool
  ct_message :: string

definition testConnection :: "runner \<Rightarrow> files \<Rightarrow> connection_test result \<times> files" where
  "testConnection run fs =
     (case run [''cat'', ''config'', ''--json''] fs of
        (Inl e, fs1) \<Rightarrow> (Inl e, fs1)
      | (Inr cat, fs1) \<Rightarrow>
          if oc_code cat = 0 then (Inr \<lparr>ct_ok = True, ct_initialized = False, ct_message = ''Repository reachable''\<rparr>, fs1)
          else (case run [''init'', ''--json''] fs1 of
             (Inl e, fs2) \<Rightarrow> (Inl e, fs2)
           | (Inr init, fs2) \<Rightarrow>
               if oc_code init = 0
               then (Inr \<lparr>ct_ok = True, ct_initialized = True, ct_message = ''Repository initialized''\<rparr>, fs2)
               else (Inr \<lparr>ct_ok = False, ct_initialized = False,
                          ct_message = trim (if oc_stderr init \<noteq> [] then oc_stderr init
                                             else if oc_stderr cat \<noteq> [] then oc_stderr cat else ''unknown error'')\<rparr>, fs2)))"

definition ensureInitialized :: "runner \<Rightarrow> files \<Rightarrow> unit result \<times> files" where
  "ensureInitialized run fs =
     (case run [''cat'', ''config''] fs of
        (Inl e, fs1) \<Rightarrow> (Inl e, fs1)
      | (Inr cat, fs1) \<Rightarrow>
          if oc_code cat = 0 then (Inr (), fs1)
          else (case run [''init''] fs1 of
             (Inl e, fs2) \<Rightarrow> (Inl e, fs2)
           | (Inr init, fs2) \<Rightarrow>
               if oc_code init \<noteq> 0 then (Inl (PlainError (''restic init failed: '' @ trim (oc_stderr init))), fs2)
               else (Inr (), fs2)))"

text \<open>A command whose standard output is one JSON value.\<close>

definition json_command :: "parser \<Rightarrow> string \<Rightarrow> string \<Rightarrow> run_outcome result \<Rightarrow> json result" where
  "json_command parse failed dflt r =
     (case r of
        Inl e \<Rightarrow> Inl e
      | Inr res \<Rightarrow>
          if oc_code res \<noteq> 0 then Inl (PlainError (message_or (oc_stderr res) failed))
          else (case parse (if oc_stdout res = [] then dflt else oc_stdout res) of
             None \<Rightarrow> Inl (PlainError ''Unexpected token in JSON'') | Some j \<Rightarrow> Inr j))"

definition restic_snapshots :: "parser \<Rightarrow> runner \<Rightarrow> snapshot_filters \<Rightarrow> files \<Rightarrow> json result \<times> files" where
  "restic_snapshots parse run f fs =
     (case run (snapshots_args f) fs of (r, fs1) \<Rightarrow> (json_command parse ''snapshots failed'' ''[]'' r, fs1))"

definition restic_stats :: "parser \<Rightarrow> runner \<Rightarrow> files \<Rightarrow> json result \<times> files" where
  "restic_stats parse run fs =
     (case run [''stats'', ''--json'', ''--no-lock'', ''--mode'', ''raw-data''] fs of
        (r, fs1) \<Rightarrow> (json_command parse ''stats failed'' ''{}'' r, fs1))"

definition msg_field :: "json \<Rightarrow> string \<Rightarrow> json option" where
  "msg_field j k = (case j of JObj kvs \<Rightarrow> map_of kvs k | _ \<Rightarrow> None)"

definition true_field :: "json option \<Rightarrow> bool" where
  "true_field v = (case v of None \<Rightarrow> False | Some j \<Rightarrow> truthy j)"

record ls_entry =
  le_name :: "json option"
  le_type :: "json option"
  le_path :: "json option"
  le_size :: "json option"
  le_mtime :: "json option"

definition ls_line :: "parser \<Rightarrow> string \<Rightarrow> string \<Rightarrow> ls_entry list" where
  "ls_line parse tgt l =
     (case parse l of
        None \<Rightarrow> []
      | Some j \<Rightarrow>
          if (msg_field j ''struct_type'' = Some (JStr ''node'') \<or> true_field (msg_field j ''name'')) \<and>
             true_field (msg_field j ''path'') \<and> msg_field j ''path'' \<noteq> Some (JStr tgt)
          then [\<lparr>le_name = msg_field j ''name'', le_type = msg_field j ''type'', le_path = msg_field j ''path'',
                 le_size = msg_field j ''size'', le_mtime = msg_field j ''mtime''\<rparr>]
          else [])"

fun out_line :: "line \<Rightarrow> string list" where
  "out_line (OutLine l) = [l]"
| "out_line (ErrLine l) = []"

fun err_line :: "line \<Rightarrow> string list" where
  "err_line (ErrLine l) = [l]"
| "err_line (OutLine l) = []"

definition out_lines :: "line list \<Rightarrow> string list" where
  "out_lines ls = concat (map out_line ls)"

definition restic_ls :: "parser \<Rightarrow> runner \<Rightarrow> string \<Rightarrow> string option \<Rightarrow> files \<Rightarrow> ls_entry list result \<times> files" where
  "restic_ls parse run snapshot dir fs =
     (case run (ls_args snapshot dir) fs of
        (Inl e, fs1) \<Rightarrow> (Inl e, fs1)
      | (Inr res, fs1) \<Rightarrow>
          if oc_code res \<noteq> 0 then (Inl (PlainError (message_or (oc_stderr res) ''ls failed'')), fs1)
          else (Inr (concat (map (ls_line parse (ls_target dir)) (out_lines (oc_lines res)))), fs1))"

section \<open>Backups and restores\<close>

text \<open>
  \<open>RunStats\<close> as the fields it has. The state of a streaming command: the figures so far, the
  snapshot, and the calls of \<open>onProgress\<close> and \<open>onLog\<close>.
\<close>

type_synonym run_stats = "string \<rightharpoonup> json"

record stream_state =
  st_stats :: run_stats
  st_snapshot :: "json option"
  st_progress :: "run_stats list"
  st_log :: "string list"

definition fresh_stream :: stream_state where
  "fresh_stream = \<lparr>st_stats = Map.empty, st_snapshot = None, st_progress = [], st_log = []\<rparr>"

definition set_stats :: "run_stats \<Rightarrow> stream_state \<Rightarrow> stream_state" where
  "set_stats m st = st\<lparr>st_stats := m, st_progress := st_progress st @ [m]\<rparr>"

definition backup_line :: "parser \<Rightarrow> line \<Rightarrow> stream_state \<Rightarrow> stream_state" where
  "backup_line parse l st =
     (case l of
        ErrLine t \<Rightarrow> st\<lparr>st_log := st_log st @ [t]\<rparr>
      | OutLine t \<Rightarrow>
          (case parse t of
             None \<Rightarrow> st\<lparr>st_log := st_log st @ [scrubSecretsInText t]\<rparr>
           | Some msg \<Rightarrow>
               if msg = JNull then st\<lparr>st_log := st_log st @ [scrubSecretsInText t]\<rparr>
               else if msg_field msg ''message_type'' = Some (JStr ''status'')
               then set_stats ((st_stats st)
                 (''percentDone'' := msg_field msg ''percent_done'', ''bytesDone'' := msg_field msg ''bytes_done'',
                  ''totalBytes'' := msg_field msg ''total_bytes'', ''filesDone'' := msg_field msg ''files_done'',
                  ''totalFiles'' := msg_field msg ''total_files'')) st
               else if msg_field msg ''message_type'' = Some (JStr ''summary'')
               then set_stats (Map.empty
                 (''filesNew'' := msg_field msg ''files_new'', ''filesChanged'' := msg_field msg ''files_changed'',
                  ''filesUnmodified'' := msg_field msg ''files_unmodified'', ''dirsNew'' := msg_field msg ''dirs_new'',
                  ''dataAdded'' := msg_field msg ''data_added'', ''totalBytesProcessed'' := msg_field msg ''total_bytes_processed'',
                  ''totalFilesProcessed'' := msg_field msg ''total_files_processed'',
                  ''totalDuration'' := msg_field msg ''total_duration'', ''percentDone'' := Some (JNum 1)))
                 (st\<lparr>st_snapshot := (if msg_field msg ''snapshot_id'' = Some JNull then None else msg_field msg ''snapshot_id'')\<rparr>)
               else st))"

text \<open>The job's time limit in milliseconds, which aborts restic like a cancellation.\<close>

definition time_limit_ms :: "restic_options \<Rightarrow> nat option" where
  "time_limit_ms opts = (case ro_time_limit_seconds opts of None \<Rightarrow> None | Some n \<Rightarrow> if n > 0 then Some (n * 1000) else None)"

definition restic_backup ::
  "parser \<Rightarrow> runner \<Rightarrow> string list \<Rightarrow> restic_options \<Rightarrow> files \<Rightarrow> (json option \<times> run_stats) result \<times> stream_state \<times> files" where
  "restic_backup parse run paths opts fs =
     (case run (backup_args opts paths) fs of
        (Inl e, fs1) \<Rightarrow> (Inl e, fresh_stream, fs1)
      | (Inr res, fs1) \<Rightarrow>
          (let st = fold (backup_line parse) (oc_lines res) fresh_stream in
           if oc_code res \<noteq> 0 \<and> oc_code res \<noteq> 3
           then (Inl (PlainError (message_or (oc_stderr res) (''restic backup exited '' @ show_int (oc_code res)))), st, fs1)
           else (Inr (st_snapshot st, st_stats st), st, fs1)))"

definition stat_num :: "json option \<Rightarrow> int" where
  "stat_num v = (case v of Some (JNum n) \<Rightarrow> n | _ \<Rightarrow> 0)"

definition restore_line :: "parser \<Rightarrow> line \<Rightarrow> stream_state \<Rightarrow> stream_state" where
  "restore_line parse l st =
     (case l of
        ErrLine t \<Rightarrow> st\<lparr>st_log := st_log st @ [t]\<rparr>
      | OutLine t \<Rightarrow>
          (case parse t of
             None \<Rightarrow> st\<lparr>st_log := st_log st @ [scrubSecretsInText t]\<rparr>
           | Some msg \<Rightarrow>
               if msg = JNull then st\<lparr>st_log := st_log st @ [scrubSecretsInText t]\<rparr>
               else if msg_field msg ''message_type'' = Some (JStr ''status'')
               then set_stats ((st_stats st)
                 (''percentDone'' := msg_field msg ''percent_done'',
                  ''bytesDone'' := Some (JNum (stat_num (msg_field msg ''bytes_restored'') + stat_num (msg_field msg ''bytes_skipped''))),
                  ''totalBytes'' := msg_field msg ''total_bytes'',
                  ''filesDone'' := Some (JNum (stat_num (msg_field msg ''files_restored'') + stat_num (msg_field msg ''files_skipped''))),
                  ''totalFiles'' := msg_field msg ''total_files'')) st
               else if msg_field msg ''message_type'' = Some (JStr ''summary'')
               then set_stats (Map.empty
                 (''totalFilesProcessed'' := msg_field msg ''total_files'', ''totalBytesProcessed'' := msg_field msg ''total_bytes'',
                  ''percentDone'' := Some (JNum 1), ''bytesDone'' := msg_field msg ''total_bytes'',
                  ''totalBytes'' := msg_field msg ''total_bytes'', ''filesDone'' := msg_field msg ''total_files'',
                  ''totalFiles'' := msg_field msg ''total_files'')) st
               else st))"

definition restic_restore ::
  "parser \<Rightarrow> runner \<Rightarrow> string \<Rightarrow> string \<Rightarrow> restore_flags \<Rightarrow> files \<Rightarrow> run_stats result \<times> stream_state \<times> files" where
  "restic_restore parse run snapshot tgt opts fs =
     (case run (restore_args snapshot tgt opts) fs of
        (Inl e, fs1) \<Rightarrow> (Inl e, fresh_stream, fs1)
      | (Inr res, fs1) \<Rightarrow>
          (let st = fold (restore_line parse) (oc_lines res) fresh_stream in
           if oc_code res \<noteq> 0
           then (Inl (PlainError (message_or (oc_stderr res) (''restic restore exited '' @ show_int (oc_code res)))), st, fs1)
           else (Inr (st_stats st), st, fs1)))"

section \<open>Forgetting, pruning, checking\<close>

text \<open>\<open>g.remove?.length ?? 0\<close> for one group of the answer.\<close>

definition removed_in :: "json \<Rightarrow> nat" where
  "removed_in g = (case msg_field g ''remove'' of Some (JArr xs) \<Rightarrow> length xs | _ \<Rightarrow> 0)"

definition parse_or_empty :: "parser \<Rightarrow> string \<Rightarrow> json" where
  "parse_or_empty parse out = (case parse (if out = [] then ''[]'' else out) of None \<Rightarrow> JArr [] | Some j \<Rightarrow> j)"

definition restic_forget :: "parser \<Rightarrow> runner \<Rightarrow> retention \<Rightarrow> files \<Rightarrow> (nat \<times> json) result \<times> string list \<times> files" where
  "restic_forget parse run r fs =
     (case run (forget_args r) fs of
        (Inl e, fs1) \<Rightarrow> (Inl e, [], fs1)
      | (Inr res, fs1) \<Rightarrow>
          (let logs = concat (map err_line (oc_lines res)) in
           if oc_code res \<noteq> 0 then (Inl (PlainError (message_or (oc_stderr res) ''restic forget failed'')), logs, fs1)
           else let raw = parse_or_empty parse (oc_stdout res) in
             (case raw of
                JArr gs \<Rightarrow>
                  if JNull \<in> set gs then Inl (PlainError ''Cannot read properties of null'')
                  else Inr (sum_list (map removed_in gs), raw)
              | _ \<Rightarrow> Inr (0, raw), logs, fs1)))"

definition forgetSnapshots :: "parser \<Rightarrow> runner \<Rightarrow> string list \<Rightarrow> bool \<Rightarrow> files \<Rightarrow> (nat \<times> json) result \<times> files" where
  "forgetSnapshots parse run ids prune fs =
     (if ids = [] then (Inr (0, JArr []), fs)
      else case run (forgetSnapshots_args ids prune) fs of
        (Inl e, fs1) \<Rightarrow> (Inl e, fs1)
      | (Inr res, fs1) \<Rightarrow>
          if oc_code res \<noteq> 0 then (Inl (PlainError (message_or (oc_stderr res) ''restic forget failed'')), fs1)
          else (Inr (length ids, parse_or_empty parse (oc_stdout res)), fs1))"

text \<open>What a plain command logs: every line of both streams, scrubbed.\<close>

fun log_line :: "line \<Rightarrow> string" where
  "log_line (OutLine t) = scrubSecretsInText t"
| "log_line (ErrLine t) = t"

definition restic_prune :: "runner \<Rightarrow> files \<Rightarrow> unit result \<times> string list \<times> files" where
  "restic_prune run fs =
     (case run [''prune''] fs of
        (Inl e, fs1) \<Rightarrow> (Inl e, [], fs1)
      | (Inr res, fs1) \<Rightarrow>
          (if oc_code res \<noteq> 0
           then Inl (PlainError (message_or (oc_stderr res) (''restic prune exited '' @ show_int (oc_code res)))) else Inr (),
           map log_line (oc_lines res), fs1))"

fun contains_text :: "string \<Rightarrow> string \<Rightarrow> bool" where
  "contains_text p [] = (p = [])"
| "contains_text p (c # cs) = (starts_with p (c # cs) \<or> contains_text p cs)"

definition isDamagedCheckOutput :: "string \<Rightarrow> bool" where
  "isDamagedCheckOutput out = contains_text ''repository contains errors'' (to_lower out)"

definition restic_check :: "runner \<Rightarrow> check_info \<Rightarrow> files \<Rightarrow> bool result \<times> string list \<times> files" where
  "restic_check run info fs =
     (case run (checkArgs info) fs of
        (Inl e, fs1) \<Rightarrow> (Inl e, [], fs1)
      | (Inr res, fs1) \<Rightarrow>
          (if oc_code res = 0 then Inr False
           else if isDamagedCheckOutput (oc_stdout res @ [CHR 0x0A] @ oc_stderr res) then Inr True
           else Inl (PlainError (message_or (oc_stderr res) (''restic check exited '' @ show_int (oc_code res)))),
           map log_line (oc_lines res), fs1))"

section \<open>How a command line is read\<close>

text \<open>
  The convention of option parsers: an option with a value takes the next word, whatever it
  is; \<open>--\<close> ends the options; other words that start with a dash are unknown options; the rest
  are positional. \<open>vf\<close> and \<open>bf\<close> are the options with and without a value.
\<close>

datatype item = Switch string | Valued string string

definition add_item :: "item \<Rightarrow> (item list \<times> string list) option \<Rightarrow> (item list \<times> string list) option" where
  "add_item i r = map_option (\<lambda>(is, ps). (i # is, ps)) r"

fun read_args :: "string list \<Rightarrow> string list \<Rightarrow> string list \<Rightarrow> (item list \<times> string list) option" where
  "read_args vf bf [] = Some ([], [])"
| "read_args vf bf (a # as) =
     (if a = ''--'' then Some ([], as)
      else if a \<in> set bf then add_item (Switch a) (read_args vf bf as)
      else if a \<in> set vf then (case as of [] \<Rightarrow> None | v # rest \<Rightarrow> add_item (Valued a v) (read_args vf bf rest))
      else if starts_with ''-'' a then None
      else map_option (\<lambda>(is, ps). (is, a # ps)) (read_args vf bf as))"

definition items_if :: "bool \<Rightarrow> string \<Rightarrow> item list" where
  "items_if b flag = (if b then [Switch flag] else [])"

definition items_text :: "string \<Rightarrow> string option \<Rightarrow> item list" where
  "items_text flag v = (case v of None \<Rightarrow> [] | Some t \<Rightarrow> if t = [] then [] else [Valued flag t])"

definition prepend :: "item list \<Rightarrow> (item list \<times> string list) option \<Rightarrow> (item list \<times> string list) option" where
  "prepend is r = map_option (\<lambda>(js, ps). (is @ js, ps)) r"

lemma prepend_simps [simp]: "prepend [] r = r" "prepend is (prepend js r) = prepend (is @ js) r"
  "prepend is (Some (js, ps)) = Some (is @ js, ps)" "add_item i r = prepend [i] r"
  by (cases r; auto simp: prepend_def add_item_def)+

lemma read_values [simp]:
  "flag \<in> set vf \<Longrightarrow> flag \<notin> set bf \<Longrightarrow> flag \<noteq> ''--'' \<Longrightarrow>
   read_args vf bf (flag_values flag vs @ rest) = prepend (map (Valued flag) vs) (read_args vf bf rest)"
  by (induction vs) (simp_all add: flag_values_def)

lemma read_if [simp]:
  "flag \<in> set bf \<Longrightarrow> flag \<noteq> ''--'' \<Longrightarrow>
   read_args vf bf (flag_if b flag @ rest) = prepend (items_if b flag) (read_args vf bf rest)"
  by (simp add: flag_if_def items_if_def)

lemma read_text [simp]:
  "flag \<in> set vf \<Longrightarrow> flag \<notin> set bf \<Longrightarrow> flag \<noteq> ''--'' \<Longrightarrow>
   read_args vf bf (flag_text flag v @ rest) = prepend (items_text flag v) (read_args vf bf rest)"
  by (simp add: flag_text_def items_text_def split: option.splits)

text \<open>The options restic documents for the commands the server uses.\<close>

definition value_options :: "string list" where
  "value_options =
     [''--tag'', ''--exclude'', ''--iexclude'', ''--exclude-file'', ''--exclude-larger-than'', ''--compression'',
      ''--read-concurrency'', ''--include'', ''--overwrite'', ''--target'', ''--host'', ''--path'']"

definition switch_options :: "string list" where
  "switch_options =
     [''--json'', ''--no-lock'', ''--one-file-system'', ''--exclude-caches'', ''--verify'', ''--delete'', ''--dry-run'',
      ''--prune'']"

abbreviation read_line :: "string list \<Rightarrow> (item list \<times> string list) option" where
  "read_line \<equiv> read_args value_options switch_options"

text \<open>What a job's options ask for, in the order of the code.\<close>

definition backup_items :: "restic_options \<Rightarrow> item list" where
  "backup_items opts =
     Switch ''--json'' # map (Valued ''--tag'') (ro_tags opts) @ map (Valued ''--exclude'') (ro_exclude opts) @
     map (Valued ''--iexclude'') (ro_iexclude opts) @ map (Valued ''--exclude-file'') (ro_exclude_file opts) @
     items_if (ro_one_file_system opts) ''--one-file-system'' @ items_if (ro_exclude_caches opts) ''--exclude-caches'' @
     items_text ''--exclude-larger-than'' (ro_exclude_larger_than opts) @ items_text ''--compression'' (ro_compression opts) @
     (case ro_read_concurrency opts of None \<Rightarrow> [] | Some n \<Rightarrow> if n = 0 then [] else [Valued ''--read-concurrency'' (show_nat n)])"

definition restore_items :: "string \<Rightarrow> restore_flags \<Rightarrow> item list" where
  "restore_items tgt opts =
     Switch ''--json'' # Valued ''--target'' tgt # map (Valued ''--include'') (rf_include opts) @
     map (Valued ''--exclude'') (rf_exclude opts) @ items_text ''--overwrite'' (rf_overwrite opts) @
     items_if (rf_verify opts) ''--verify'' @ items_if (rf_delete opts) ''--delete'' @ items_if (rf_dry_run opts) ''--dry-run''"

lemma options_known:
  "''--tag'' \<in> set value_options" "''--exclude'' \<in> set value_options" "''--iexclude'' \<in> set value_options"
  "''--exclude-file'' \<in> set value_options" "''--exclude-larger-than'' \<in> set value_options" "''--compression'' \<in> set value_options"
  "''--read-concurrency'' \<in> set value_options" "''--include'' \<in> set value_options" "''--overwrite'' \<in> set value_options"
  "''--target'' \<in> set value_options" "''--host'' \<in> set value_options" "''--path'' \<in> set value_options"
  "set value_options \<inter> set switch_options = {}"
  "''--json'' \<in> set switch_options" "''--no-lock'' \<in> set switch_options" "''--one-file-system'' \<in> set switch_options"
  "''--exclude-caches'' \<in> set switch_options" "''--verify'' \<in> set switch_options" "''--delete'' \<in> set switch_options"
  "''--dry-run'' \<in> set switch_options" "''--prune'' \<in> set switch_options"
  by (simp_all add: value_options_def switch_options_def)

lemma commands_known:
  "c \<in> {''backup'', ''restore'', ''ls'', ''forget'', ''snapshots''} \<Longrightarrow>
   c \<notin> set value_options \<and> c \<notin> set switch_options \<and> c \<noteq> ''--'' \<and> \<not> starts_with ''-'' c"
  by (auto simp: value_options_def switch_options_def starts_with_def)

section \<open>Lines and chunks\<close>

lemma drain_split: "drain buf = (butlast (split_on (CHR 0x0A) buf), last (split_on (CHR 0x0A) buf))"
proof (induction buf rule: drain.induct)
  case (1 buf)
  let ?nl = "CHR 0x0A"
  show ?case
  proof (cases "dropWhile (\<lambda>c. c \<noteq> ?nl) buf")
    case Nil
    then have "?nl \<notin> set buf" by (simp add: dropWhile_eq_Nil_conv) blast
    then show ?thesis by (subst drain.simps, subst Nil) (simp add: split_on_single)
  next
    case (Cons x rest)
    then have x: "x = ?nl" using hd_dropWhile [of "\<lambda>c. c \<noteq> ?nl" buf] by auto
    have buf: "buf = takeWhile (\<lambda>c. c \<noteq> ?nl) buf @ ?nl # rest"
      using takeWhile_dropWhile_id [of "\<lambda>c. c \<noteq> ?nl" buf] Cons x by simp
    have "?nl \<notin> set (takeWhile (\<lambda>c. c \<noteq> ?nl) buf)" using set_takeWhileD by fastforce
    then have "split_on ?nl buf = takeWhile (\<lambda>c. c \<noteq> ?nl) buf # split_on ?nl rest"
      by (subst (1) buf) (rule split_on_append)
    then show ?thesis using 1 [OF Cons] Cons by (subst drain.simps) (simp add: split_beta)
  qed
qed

lemma split_on_app:
  "split_on c (a @ b) = butlast (split_on c a) @ (last (split_on c a) @ hd (split_on c b)) # tl (split_on c b)"
proof (induction a)
  case Nil
  show ?case by (cases "split_on c b") simp_all
next
  case (Cons x a)
  show ?case
  proof (cases "x = c")
    case True
    then show ?thesis using Cons by simp
  next
    case False
    show ?thesis
    proof (cases "split_on c a")
      case (Cons y ys)
      then show ?thesis using Cons.IH False by (cases ys) simp_all
    qed simp
  qed
qed

lemma split_no_nl: "c \<notin> set (last (split_on c a))"
proof (induction a)
  case (Cons x a)
  then show ?case by (cases "split_on c a") (auto split: if_splits)
qed simp

text \<open>Cutting off the complete lines of a prefix first leaves the others to be found.\<close>

lemma complete_lines:
  "butlast (split_on c (a @ b)) = butlast (split_on c a) @ butlast (split_on c (last (split_on c a) @ b))"
proof -
  have "split_on c (last (split_on c a)) = [last (split_on c a)]" by (rule split_on_single [OF split_no_nl])
  then have "split_on c (last (split_on c a) @ b) = (last (split_on c a) @ hd (split_on c b)) # tl (split_on c b)"
    by (simp add: split_on_app)
  then show ?thesis by (simp add: split_on_app [of c a b] butlast_append)
qed

definition err_lines :: "line list \<Rightarrow> string list" where
  "err_lines ls = concat (map err_line ls)"

lemma line_projections [simp]:
  "out_lines (map OutLine xs) = xs" "out_lines (map ErrLine xs) = []" "err_lines (map ErrLine xs) = xs"
  "err_lines (map OutLine xs) = []" "out_lines (a @ b) = out_lines a @ out_lines b" "err_lines (a @ b) = err_lines a @ err_lines b"
  by (induction xs) (simp_all add: out_lines_def err_lines_def)

lemma texts_cons [simp]:
  "out_text (Out t # cs) = t @ out_text cs" "out_text (Err t # cs) = out_text cs"
  "err_text (Err t # cs) = scrubSecretsInText t @ err_text cs" "err_text (Out t # cs) = err_text cs"
  "out_text [] = []" "err_text [] = []"
  by (simp_all add: out_text_def err_text_def)

lemma stream_lines_split:
  assumes "CHR 0x0A \<notin> set ob" "CHR 0x0A \<notin> set eb"
  shows "out_lines (stream_lines ob eb cs) = filter nonblank (butlast (split_on (CHR 0x0A) (ob @ out_text cs))) \<and>
    err_lines (stream_lines ob eb cs) = filter nonblank (butlast (split_on (CHR 0x0A) (eb @ err_text cs)))"
  using assms
proof (induction ob eb cs rule: stream_lines.induct)
  case (1 ob eb)
  then show ?case by (simp add: out_lines_def err_lines_def split_on_single)
next
  case (2 ob eb t cs)
  have "out_lines (stream_lines (snd (drain (ob @ t))) eb cs) =
      filter nonblank (butlast (split_on (CHR 0x0A) (snd (drain (ob @ t)) @ out_text cs))) \<and>
    err_lines (stream_lines (snd (drain (ob @ t))) eb cs) = filter nonblank (butlast (split_on (CHR 0x0A) (eb @ err_text cs)))"
    by (rule "2.IH") (use "2.prems" split_no_nl in \<open>simp_all add: drain_split\<close>)
  then show ?case
    using complete_lines [of "CHR 0x0A" "ob @ t" "out_text cs"] by (simp add: drain_split Let_def)
next
  case (3 ob eb t cs)
  let ?t = "scrubSecretsInText t"
  have "out_lines (stream_lines ob (snd (drain (eb @ ?t))) cs) = filter nonblank (butlast (split_on (CHR 0x0A) (ob @ out_text cs))) \<and>
    err_lines (stream_lines ob (snd (drain (eb @ ?t))) cs) =
      filter nonblank (butlast (split_on (CHR 0x0A) (snd (drain (eb @ ?t)) @ err_text cs)))"
    by (rule "3.IH") (use "3.prems" split_no_nl in \<open>simp_all add: drain_split\<close>)
  then show ?case
    using complete_lines [of "CHR 0x0A" "eb @ ?t" "err_text cs"] by (simp add: drain_split Let_def)
qed

section \<open>What scrubbing hides\<close>

lemma not_scheme_chars:
  "\<not> scheme_char (CHR '':'')" "\<not> scheme_char (CHR ''/'')" "\<not> scheme_char (CHR ''@'')" "\<not> scheme_char (CHR 0x09)"
  "\<not> scheme_char (CHR 0x0A)" "\<not> scheme_char (CHR 0x0B)" "\<not> scheme_char (CHR 0x0C)" "\<not> scheme_char (CHR 0x0D)"
  "\<not> scheme_char (CHR 0x20)"
  by code_simp+

lemma scheme_userinfo: "scheme_char c \<Longrightarrow> userinfo_char c"
  using not_scheme_chars by (auto simp: userinfo_char_def js_space_def)

lemma userinfo_consts: "userinfo_char (CHR '':'')" "\<not> userinfo_char (CHR ''/'')" "\<not> userinfo_char (CHR ''@'')"
  by code_simp+

lemma letter_scheme: "is_letter c \<Longrightarrow> scheme_char c"
  by (simp add: scheme_char_def)

text \<open>A text with a URL in it: what precedes, scheme, userinfo, what follows.\<close>

definition url_text :: "string \<Rightarrow> string \<Rightarrow> string \<Rightarrow> string" where
  "url_text sch ui post = sch @ ''://'' @ ui @ ''@'' @ post"

definition scheme_ok :: "string \<Rightarrow> bool" where
  "scheme_ok sch \<longleftrightarrow> sch \<noteq> [] \<and> is_letter (hd sch) \<and> list_all scheme_char sch"

definition userinfo_ok :: "string \<Rightarrow> bool" where
  "userinfo_ok ui \<longleftrightarrow> ui \<noteq> [] \<and> list_all userinfo_char ui"

lemma url_text_run: "list_all scheme_char a \<Longrightarrow> scheme_ok sch \<Longrightarrow>
    takeWhile scheme_char (a @ url_text sch ui post) = a @ sch \<and>
    dropWhile scheme_char (a @ url_text sch ui post) = ''://'' @ ui @ ''@'' @ post"
  by (simp add: url_text_def scheme_ok_def list_all_iff not_scheme_chars)

lemma userinfo_run:
  "userinfo_ok ui \<Longrightarrow> takeWhile userinfo_char (ui @ ''@'' @ post) = ui \<and> dropWhile userinfo_char (ui @ ''@'' @ post) = ''@'' @ post"
  by (simp add: userinfo_ok_def list_all_iff userinfo_consts)

text \<open>A run of userinfo characters stops at the slashes of a following URL.\<close>

lemma run_stops: "scheme_ok sch \<Longrightarrow> list_all userinfo_char b \<Longrightarrow>
    dropWhile userinfo_char (b @ url_text sch ui post) = ''//'' @ ui @ ''@'' @ post"
  by (simp add: url_text_def scheme_ok_def list_all_iff scheme_userinfo userinfo_consts)

lemma match_at_url:
  assumes "scheme_ok sch" "userinfo_ok ui" "list_all scheme_char a" "a \<noteq> [] \<Longrightarrow> is_letter (hd a)"
  shows "url_match (a @ url_text sch ui post) = Some (a @ sch @ ''://'', post)"
proof -
  have "is_letter (hd (a @ url_text sch ui post))"
    using assms(1,4) by (cases a) (simp_all add: url_text_def scheme_ok_def)
  moreover have "a @ url_text sch ui post \<noteq> []" by (simp add: url_text_def)
  moreover have "ui \<noteq> []" using assms(2) by (simp add: userinfo_ok_def)
  ultimately show ?thesis
    using url_text_run [OF assms(3,1), of ui post] userinfo_run [OF assms(2), of post]
    by (simp add: url_match_def Let_def starts_with_def userinfo_consts)
qed

text \<open>Where the first match before a URL ends does not depend on the userinfo.\<close>

lemma match_before_url:
  assumes "scheme_ok sch" "pre \<noteq> []"
  obtains (none) "\<And>ui. userinfo_ok ui \<Longrightarrow> url_match (pre @ url_text sch ui post) = None"
  | (url) p where "\<And>ui. userinfo_ok ui \<Longrightarrow> url_match (pre @ url_text sch ui post) = Some (p, post)"
  | (inner) p rest where "length rest < length pre"
      "\<And>ui. userinfo_ok ui \<Longrightarrow> url_match (pre @ url_text sch ui post) = Some (p, rest @ url_text sch ui post)"
proof (cases "is_letter (hd pre)")
  case False
  then show thesis using assms(2) by (intro none) (simp add: url_match_def Let_def)
next
  case letter: True
  show thesis
  proof (cases "list_all scheme_char pre")
    case True
    then show thesis using match_at_url [OF assms(1) _ True] letter by (intro url) simp
  next
    case False
    define d where "d = dropWhile scheme_char pre"
    have dn: "d \<noteq> []" using False by (auto simp: d_def dropWhile_eq_Nil_conv list_all_iff)
    have run: "dropWhile scheme_char (pre @ Y) = d @ Y" for Y
      using False by (auto simp: d_def list_all_iff dropWhile_append)
    have tk: "takeWhile scheme_char (pre @ Y) = takeWhile scheme_char pre" for Y
      using False by (auto simp: list_all_iff takeWhile_append)
    have m: "url_match (pre @ Y) = (if starts_with ''://'' (d @ Y) \<and> takeWhile userinfo_char (drop 3 (d @ Y)) \<noteq> [] \<and>
        dropWhile userinfo_char (drop 3 (d @ Y)) \<noteq> [] \<and> hd (dropWhile userinfo_char (drop 3 (d @ Y))) = CHR ''@''
        then Some (takeWhile scheme_char pre @ ''://'', tl (dropWhile userinfo_char (drop 3 (d @ Y)))) else None)" for Y
      using letter assms(2) by (simp add: url_match_def Let_def run tk)
    have hd_sch: "hd sch \<noteq> CHR ''/''" "sch \<noteq> []"
      using assms(1) letter_scheme not_scheme_chars by (auto simp: scheme_ok_def)
    show thesis
    proof (cases "starts_with ''://'' d")
      case False
      have "\<not> starts_with ''://'' (d @ url_text sch ui post)" for ui
      proof -
        obtain h tlr where "url_text sch ui post = h # tlr" "h \<noteq> CHR ''/''"
          using hd_sch by (cases sch) (simp_all add: url_text_def)
        then show ?thesis using False dn
          by (cases d; cases "tl d"; cases "tl (tl d)") (auto simp: starts_with_def)
      qed
      then show thesis by (intro none) (simp add: m)
    next
      case True
      then obtain b where d: "d = ''://'' @ b" using starts_withE by blast
      have st: "starts_with ''://'' (d @ Y)" "drop 3 (d @ Y) = b @ Y" for Y by (simp_all add: d starts_with_def)
      show thesis
      proof (cases "list_all userinfo_char b")
        case True
        then show thesis using run_stops [OF assms(1) True] by (intro none) (simp add: m st del: drop_append dropWhile_eq_Nil_conv)
      next
        case False
        define e where "e = dropWhile userinfo_char b"
        have en: "e \<noteq> []" using False by (auto simp: e_def dropWhile_eq_Nil_conv list_all_iff)
        have er: "dropWhile userinfo_char (b @ Y) = e @ Y" for Y
          using False by (auto simp: e_def list_all_iff dropWhile_append)
        have et: "takeWhile userinfo_char (b @ Y) = takeWhile userinfo_char b" for Y
          using False by (auto simp: list_all_iff takeWhile_append)
        have len: "length (tl e) < length pre"
        proof -
          have "length e \<le> length b" by (simp add: e_def length_dropWhile_le)
          also have "\<dots> < length d" by (simp add: d)
          also have "\<dots> \<le> length pre" by (simp add: d_def length_dropWhile_le)
          finally show ?thesis by simp
        qed
        show thesis
        proof (cases "takeWhile userinfo_char b \<noteq> [] \<and> hd e = CHR ''@''")
          case True
          then show thesis using en len by (intro inner [of "tl e"]) (simp_all add: m st er et del: drop_append dropWhile_eq_Nil_conv)
        next
          case False
          then show thesis using en by (intro none) (auto simp: m st er et simp del: drop_append dropWhile_eq_Nil_conv)
        qed
      qed
    qed
  qed
qed

lemma scrub_independent:
  assumes "scheme_ok sch" "userinfo_ok ui" "userinfo_ok ui'"
  shows "scrubSecretsInText (pre @ url_text sch ui post) = scrubSecretsInText (pre @ url_text sch ui' post)"
proof (induction "length pre" arbitrary: pre rule: less_induct)
  case less
  have scrub: "scrubSecretsInText s = (case url_match s of Some (p, r) \<Rightarrow> p @ ''***:***@'' @ scrubSecretsInText r
      | None \<Rightarrow> hd s # scrubSecretsInText (tl s))" if "s \<noteq> []" for s
    using that by (cases s) (simp_all add: scrubSecretsInText.simps(2) split: option.split)
  show ?case
  proof (cases "pre = []")
    case True
    then show ?thesis
      using match_at_url [OF assms(1,2), of "[]" post] match_at_url [OF assms(1,3), of "[]" post]
      by (simp add: scrub url_text_def)
  next
    case False
    with assms(1) show ?thesis
    proof (cases rule: match_before_url [of _ _ post])
      case none
      have "scrubSecretsInText (tl pre @ url_text sch ui post) = scrubSecretsInText (tl pre @ url_text sch ui' post)"
        by (rule less) (use False in simp)
      then show ?thesis using False none [OF assms(2)] none [OF assms(3)] by (simp add: scrub)
    next
      case (url p)
      then show ?thesis using False url [OF assms(2)] url [OF assms(3)] by (simp add: scrub)
    next
      case (inner p rest)
      then show ?thesis using False inner(2) [OF assms(2)] inner(2) [OF assms(3)] less [OF inner(1)] by (simp add: scrub)
    qed
  qed
qed

section \<open>Credentials of the REST backend\<close>

lemma alnum_userinfo: "is_alnum c \<Longrightarrow> userinfo_char c"
proof -
  have "\<not> is_alnum (CHR ''/'')" "\<not> is_alnum (CHR ''@'')" "\<not> is_alnum (CHR 0x09)" "\<not> is_alnum (CHR 0x0A)"
    "\<not> is_alnum (CHR 0x0B)" "\<not> is_alnum (CHR 0x0C)" "\<not> is_alnum (CHR 0x0D)" "\<not> is_alnum (CHR 0x20)" by code_simp+
  then show "is_alnum c \<Longrightarrow> userinfo_char c" by (auto simp: userinfo_char_def js_space_def)
qed

lemma hex_userinfo: "n < 16 \<Longrightarrow> userinfo_char (hex_digit n)"
proof -
  have "list_all (\<lambda>n. userinfo_char (hex_digit n)) [0..<16]" by code_simp
  then show "n < 16 \<Longrightarrow> userinfo_char (hex_digit n)" by (simp add: list_all_iff)
qed

lemma encoded_userinfo: "list_all userinfo_char (encodeURIComponent t)"
proof -
  have safe: "list_all userinfo_char (''-_.!~*()'' @ quote)" by code_simp
  have pct: "userinfo_char (CHR ''%'')" by code_simp
  have "list_all userinfo_char (if is_alnum c \<or> c \<in> set (''-_.!~*()'' @ quote) then [c]
      else let n = of_char c :: nat in [CHR ''%'', hex_digit (n div 16), hex_digit (n mod 16)])" for c
  proof -
    have "(of_char c :: nat) div 16 < 16" by (rule less_mult_imp_div_less) simp
    then show ?thesis using safe pct hex_userinfo alnum_userinfo by (auto simp: list_all_iff Let_def)
  qed
  then show ?thesis by (induction t) (simp_all add: encodeURIComponent_def)
qed

definition basic_auth :: "creds \<Rightarrow> string" where
  "basic_auth cs = encodeURIComponent (cred cs ''username'') @ '':'' @ encodeURIComponent (cred cs ''password'')"

lemma basic_auth_ok: "userinfo_ok (basic_auth cs)"
  using encoded_userinfo by (simp add: userinfo_ok_def basic_auth_def userinfo_consts)

lemma rest_url:
  assumes "build_rest config cs repo = Inr rb" "cred cs ''username'' \<noteq> []"
  shows "rb_repository rb = ''rest:'' @
    url_text (if starts_with ''http://'' (str_field config ''url'') then ''http'' else ''https'') (basic_auth cs)
      (joinPath (strip_trailing_slashes (strip_scheme (str_field config ''url''))) (str_field repo ''path'') @ ''/'')"
  using assms by (auto simp: build_rest_def plain_backend_def url_text_def basic_auth_def Let_def)

section \<open>Environment\<close>

text \<open>The variables the backends set.\<close>

definition backend_variables :: "string list" where
  "backend_variables =
     [''AWS_ACCESS_KEY_ID'', ''AWS_SECRET_ACCESS_KEY'', ''AWS_DEFAULT_REGION'', ''B2_ACCOUNT_ID'', ''B2_ACCOUNT_KEY'',
      ''AZURE_ACCOUNT_NAME'', ''AZURE_ACCOUNT_KEY'', ''AZURE_ACCOUNT_SAS'', ''GOOGLE_PROJECT_ID'',
      ''GOOGLE_APPLICATION_CREDENTIALS'', ''OS_AUTH_URL'', ''OS_USERNAME'', ''OS_PASSWORD'', ''OS_REGION_NAME'']"

definition sets_only :: "resolved_backend \<Rightarrow> bool" where
  "sets_only rb \<longleftrightarrow> fst ` set (rb_env rb) \<subseteq> set backend_variables \<and>
     (\<forall>f \<in> set (rb_credential_files rb). cf_env_var f = [] \<or> cf_env_var f \<in> set backend_variables)"

lemma sets_only_plain: "sets_only (plain_backend r e) \<longleftrightarrow> fst ` set e \<subseteq> set backend_variables"
  by (simp add: sets_only_def plain_backend_def)

lemma builders_set_only:
  "build_local c k r = Inr rb \<Longrightarrow> sets_only rb" "build_sftp c k r = Inr rb \<Longrightarrow> sets_only rb"
  "build_rest c k r = Inr rb \<Longrightarrow> sets_only rb" "build_s3 c k r = Inr rb \<Longrightarrow> sets_only rb"
  "build_b2 c k r = Inr rb \<Longrightarrow> sets_only rb" "build_azure c k r = Inr rb \<Longrightarrow> sets_only rb"
  "build_gs c k r = Inr rb \<Longrightarrow> sets_only rb" "build_swift c k r = Inr rb \<Longrightarrow> sets_only rb"
  "build_rclone c k r = Inr rb \<Longrightarrow> sets_only rb"
proof -
  show "build_sftp c k r = Inr rb \<Longrightarrow> sets_only rb"
    by (auto simp: build_sftp_def sets_only_def plain_backend_def Let_def split: sum.splits if_splits)
  show "build_gs c k r = Inr rb \<Longrightarrow> sets_only rb" by (auto simp: build_gs_def sets_only_def backend_variables_def)
qed (auto simp: build_local_def build_rest_def build_s3_def build_b2_def build_azure_def build_swift_def build_rclone_def
    cred_env_def backend_variables_def sets_only_plain Let_def split: option.splits if_splits)

lemma backends_set_only:
  assumes "bd \<in> set BACKENDS" "bd_build bd c k r = Inr rb"
  shows "sets_only rb"
  using assms by (auto simp: BACKENDS_def mk_backend_def dest: builders_set_only)

lemma variables_apart:
  "k \<in> set SENSITIVE_ENV_KEYS \<or> k = ''RESTIC_REPOSITORY'' \<or> k = ''RESTIC_PASSWORD'' \<Longrightarrow> k \<notin> set backend_variables"
  by (auto simp: SENSITIVE_ENV_KEYS_def backend_variables_def)

lemma write_credentials_env:
  assumes "write_credentials x cfs (e, fs, ps) = (Inr (e1, ps1), fs1)" "\<forall>f \<in> set cfs. cf_env_var f \<noteq> k \<or> cf_env_var f = []"
  shows "e1 k = e k"
  using assms by (induction x cfs "(e, fs, ps)" arbitrary: e fs ps rule: write_credentials.induct) (auto simp: Let_def split: if_splits)

lemma base_env_keys:
  assumes "k \<notin> fst ` set (cx_env ctx)"
  shows "base_env x ctx k =
    (if k = ''RESTIC_CACHE_DIR'' then Some (re_cache_dir x) else if k = ''RESTIC_PASSWORD'' then Some (cx_password ctx)
     else if k = ''RESTIC_REPOSITORY'' then Some (cx_repository ctx) else sanitizedChildEnv (re_env x) k)"
proof -
  have "map_of (rev (cx_env ctx)) k = None" using assms by (simp add: map_of_eq_None_iff)
  then show ?thesis by (simp add: base_env_def map_add_def)
qed

text \<open>The context of a repository on a backend.\<close>

definition context_for :: "resolved_backend \<Rightarrow> string \<Rightarrow> restic_context" where
  "context_for rb password =
     \<lparr>cx_repository = rb_repository rb, cx_password = password, cx_env = rb_env rb,
      cx_credential_files = rb_credential_files rb, cx_extra_args = rb_extra_args rb\<rparr>"

section \<open>Credential files\<close>

lemma write_credentials_files:
  assumes "write_credentials x cfs (e, fs, ps) = (Inr (e1, ps1), fs1)" "distinct (map cf_filename cfs)"
  shows "(\<forall>f \<in> set cfs. fs1 (file_path (re_work_dir x) (cf_filename f)) = Some (cf_content f)) \<and>
    (\<forall>p. p \<notin> (\<lambda>f. file_path (re_work_dir x) (cf_filename f)) ` set cfs \<longrightarrow> fs1 p = fs p)"
  using assms
proof (induction x cfs "(e, fs, ps)" arbitrary: e fs ps rule: write_credentials.induct)
  case (2 x f cfs e fs ps)
  let ?fp = "file_path (re_work_dir x) (cf_filename f)"
  let ?e = "if cf_env_var f = [] then e else e(cf_env_var f \<mapsto> ?fp)"
  have w: "re_writable x ?fp" using 2(2) by (auto simp: Let_def split: if_splits)
  then have "write_credentials x cfs (?e, fs(?fp \<mapsto> cf_content f), (cf_filename f, ?fp) # ps) = (Inr (e1, ps1), fs1)"
    using 2(2) by (simp add: Let_def)
  from "2.hyps" [OF refl _ this] w 2(3)
  have ih: "\<forall>g \<in> set cfs. fs1 (file_path (re_work_dir x) (cf_filename g)) = Some (cf_content g)"
    "\<forall>p. p \<notin> (\<lambda>g. file_path (re_work_dir x) (cf_filename g)) ` set cfs \<longrightarrow> fs1 p = (fs(?fp \<mapsto> cf_content f)) p"
    by simp_all
  have "?fp \<notin> (\<lambda>g. file_path (re_work_dir x) (cf_filename g)) ` set cfs"
    using 2(3) by (auto simp: file_path_def)
  then show ?case using ih by auto
qed simp

lemma under_work_dir: "remove_tree dir fs (file_path dir nm) = None"
  by (simp add: remove_tree_def file_path_def starts_with_def)

section \<open>Theorems\<close>

text \<open>
  C9: No text a user chose is ever read as an option: by the convention of option parsers, the
  command lines of backup, restore, listing and deletion read back as exactly the options
  asked for, with the paths and snapshot ids as positional words, whatever they start with.
\<close>

theorem command_lines_read_back:
  "read_line (backup_args opts paths) = Some (backup_items opts, ''backup'' # paths) \<and>
   read_line (restore_args snap tgt flags) = Some (restore_items tgt flags, [''restore'', snap]) \<and>
   read_line (ls_args snap dir) = Some ([Switch ''--json'', Switch ''--no-lock''], [''ls'', snap, ls_target dir]) \<and>
   read_line (forgetSnapshots_args ids prune) = Some (Switch ''--json'' # items_if prune ''--prune'', ''forget'' # ids)"
proof -
  have cmd: "read_line (c # as) = map_option (\<lambda>(is, ps). (is, c # ps)) (read_line as)"
    if "c \<in> {''backup'', ''restore'', ''ls'', ''forget'', ''snapshots''}" for c as
    using commands_known [OF that] by simp
  have vals: "f \<in> set value_options \<Longrightarrow> f \<notin> set switch_options" for f using options_known(13) by blast
  have conc: "read_line ((case ro_read_concurrency opts of None \<Rightarrow> [] | Some n \<Rightarrow> if n = 0 then [] else [''--read-concurrency'', show_nat n]) @ rest)
      = prepend (case ro_read_concurrency opts of None \<Rightarrow> [] | Some n \<Rightarrow> if n = 0 then [] else [Valued ''--read-concurrency'' (show_nat n)])
          (read_line rest)" for rest
    using options_known(7) vals [OF options_known(7)] by (cases "ro_read_concurrency opts") simp_all
  have "read_line (backup_args opts paths) = Some (backup_items opts, ''backup'' # paths)"
    using options_known vals commands_known [of "''backup''"]
    by (simp add: backup_args_def cmd conc backup_items_def)
  moreover have "read_line (restore_args snap tgt flags) = Some (restore_items tgt flags, [''restore'', snap])"
    using options_known vals commands_known [of "''restore''"]
    by (simp add: restore_args_def cmd restore_items_def)
  moreover have "read_line (ls_args snap dir) = Some ([Switch ''--json'', Switch ''--no-lock''], [''ls'', snap, ls_target dir])"
    using options_known commands_known [of "''ls''"] by (simp add: ls_args_def cmd)
  moreover have "read_line (forgetSnapshots_args ids prune) = Some (Switch ''--json'' # items_if prune ''--prune'', ''forget'' # ids)"
    using options_known commands_known [of "''forget''"] by (simp add: forgetSnapshots_args_def cmd)
  ultimately show ?thesis by blast
qed

text \<open>
  Whatever backend a repository is on, the environment of restic holds none of the
  server's own secrets, and the repository and password it was called with.
\<close>

theorem child_environment_clean:
  assumes "bd \<in> set BACKENDS" "bd_build bd config creds repo = Inr rb" "ctx = context_for rb password"
    "write_credentials x (cx_credential_files ctx) (base_env x ctx, fs, []) = (Inr (e, ps), fs1)"
  shows "(\<forall>k \<in> set SENSITIVE_ENV_KEYS. e k = None) \<and> e ''RESTIC_PASSWORD'' = Some password \<and>
    e ''RESTIC_REPOSITORY'' = Some (rb_repository rb)"
proof -
  have only: "sets_only rb" by (rule backends_set_only [OF assms(1,2)])
  have e: "e k = base_env x ctx k" if "k \<notin> set backend_variables" for k
    using write_credentials_env [OF assms(4), of k] only that
    by (force simp: assms(3) context_for_def sets_only_def)
  have b: "k \<notin> set backend_variables \<Longrightarrow> k \<notin> fst ` set (cx_env ctx)" for k
    using only by (auto simp: assms(3) context_for_def sets_only_def)
  have "e k = None" if "k \<in> set SENSITIVE_ENV_KEYS" for k
    using that e [of k] base_env_keys [OF b, of k x] variables_apart [of k]
    by (auto simp: sanitizedChildEnv_def SENSITIVE_ENV_KEYS_def)
  moreover have "e ''RESTIC_PASSWORD'' = Some password" "e ''RESTIC_REPOSITORY'' = Some (rb_repository rb)"
    using e base_env_keys [OF b, of _ x] variables_apart by (simp_all add: assms(3) context_for_def)
  ultimately show ?thesis by blast
qed

definition sample_run_env :: run_env where
  "sample_run_env =
     \<lparr>re_env = [''JWT_SECRET'' \<mapsto> ''k'', ''PATH'' \<mapsto> ''/bin''], re_cache_dir = ''/cache'', re_work_dir = ''/tmp/r'',
      re_writable = (\<lambda>_. True), re_removable = True\<rparr>"

theorem child_environment_clean_witness:
  "\<exists>rb e ps fs1. build_gs [] [] [] = Inr rb \<and>
     write_credentials sample_run_env (rb_credential_files rb) (base_env sample_run_env (context_for rb ''pw''), Map.empty, [])
       = (Inr (e, ps), fs1) \<and> e ''JWT_SECRET'' = None"
proof -
  let ?bd = "mk_backend ''gs'' False
        [tfield ''projectId'' True False, tfield ''serviceAccountJson'' True True,
         jfield ''bucket'' True, jfield ''prefix'' False] build_gs"
  have bd: "?bd \<in> set BACKENDS" by (simp add: BACKENDS_def)
  obtain rb where rb: "build_gs [] [] [] = Inr rb" by (simp add: build_gs_def)
  then have b: "bd_build ?bd [] [] [] = Inr rb" by (simp add: mk_backend_def)
  have "\<exists>e ps fs1. write_credentials sample_run_env (rb_credential_files rb)
      (base_env sample_run_env (context_for rb ''pw''), Map.empty, []) = (Inr (e, ps), fs1)"
    using rb by (auto simp: build_gs_def sample_run_env_def Let_def)
  then obtain e ps fs1 where w: "write_credentials sample_run_env (rb_credential_files rb)
      (base_env sample_run_env (context_for rb ''pw''), Map.empty, []) = (Inr (e, ps), fs1)" by blast
  have "cx_credential_files (context_for rb ''pw'') = rb_credential_files rb" by (simp add: context_for_def)
  from child_environment_clean [OF bd b refl, of sample_run_env "''pw''" Map.empty e ps fs1, unfolded this, OF w]
  have "e ''JWT_SECRET'' = None" by (simp add: SENSITIVE_ENV_KEYS_def)
  then show ?thesis using rb w by blast
qed

text \<open>
  Credential files exist exactly while restic runs: the process finds every file with its
  content in the temporary directory and everything else as it was, and when the call ends,
  by success, failure or a process that did not start, nothing is left in the directory.
\<close>

theorem credential_files_temporary:
  assumes "distinct (map cf_filename (cx_credential_files ctx))" "re_removable x"
    "\<forall>f \<in> set (cx_credential_files ctx). re_writable x (file_path (re_work_dir x) (cf_filename f))"
  shows "\<exists>e ps fs1. fst (run_restic pr x ctx args fs) =
      fst (spawn_restic pr (substituteCredentialPaths (cx_extra_args ctx) ps @ args) e fs1) \<and>
    (\<forall>f \<in> set (cx_credential_files ctx). fs1 (file_path (re_work_dir x) (cf_filename f)) = Some (cf_content f)) \<and>
    (\<forall>p. p \<notin> (\<lambda>f. file_path (re_work_dir x) (cf_filename f)) ` set (cx_credential_files ctx) \<longrightarrow> fs1 p = fs p) \<and>
    (\<forall>nm. snd (run_restic pr x ctx args fs) (file_path (re_work_dir x) nm) = None)"
proof -
  have "\<exists>e1 ps1 fs1. write_credentials x cfs (e, gs, ps) = (Inr (e1, ps1), fs1)"
    if "\<forall>f \<in> set cfs. re_writable x (file_path (re_work_dir x) (cf_filename f))" for cfs e gs ps
    using that by (induction x cfs "(e, gs, ps)" arbitrary: e gs ps rule: write_credentials.induct) (simp_all add: Let_def)
  then obtain e ps fs1 where w: "write_credentials x (cx_credential_files ctx) (base_env x ctx, fs, []) = (Inr (e, ps), fs1)"
    using assms(3) by blast
  then show ?thesis
    using write_credentials_files [OF w assms(1)] under_work_dir assms(2)
    by (intro exI [of _ e] exI [of _ ps] exI [of _ fs1]) (auto simp: run_restic_def split_beta)
qed

theorem credential_files_temporary_witness:
  "snd (run_restic (\<lambda>args e fs. (Inl (PlainError ''ENOENT''), fs)) sample_run_env
      \<lparr>cx_repository = ''r'', cx_password = ''p'', cx_env = [],
       cx_credential_files = [\<lparr>cf_env_var = [], cf_filename = ''key'', cf_content = ''k''\<rparr>], cx_extra_args = []\<rparr> [''prune''] Map.empty)
    (file_path ''/tmp/r'' ''key'') = None"
proof -
  have d: "re_work_dir sample_run_env = ''/tmp/r''" by (simp add: sample_run_env_def)
  show ?thesis
    using credential_files_temporary [of "\<lparr>cx_repository = ''r'', cx_password = ''p'', cx_env = [],
       cx_credential_files = [\<lparr>cf_env_var = [], cf_filename = ''key'', cf_content = ''k''\<rparr>], cx_extra_args = []\<rparr>" sample_run_env
       "\<lambda>args e fs. (Inl (PlainError ''ENOENT''), fs)" "[''prune'']" Map.empty] d
    by (auto simp: sample_run_env_def)
qed

text \<open>
  The lines handed to the callbacks are the complete, non-blank lines of each stream, in
  order, however the output was cut into chunks (an unterminated last line is dropped).
\<close>

theorem lines_independent_of_chunks:
  "out_lines (stream_lines [] [] cs) = filter nonblank (butlast (split_on (CHR 0x0A) (out_text cs))) \<and>
   err_lines (stream_lines [] [] cs) = filter nonblank (butlast (split_on (CHR 0x0A) (err_text cs)))"
  using stream_lines_split [of "[]" "[]" cs] by simp

text \<open>
  C27: The credentials in the repository address of a REST server are hidden by scrubbing: a
  scrubbed text that holds the address is the same whatever the user name and password are.
\<close>

theorem rest_credentials_hidden:
  assumes "build_rest config cs repo = Inr rb" "build_rest config cs' repo = Inr rb'"
    "cred cs ''username'' \<noteq> []" "cred cs' ''username'' \<noteq> []"
  shows "scrubSecretsInText (pre @ rb_repository rb @ post) = scrubSecretsInText (pre @ rb_repository rb' @ post)"
proof -
  let ?sch = "if starts_with ''http://'' (str_field config ''url'') then ''http'' else ''https''"
  have "scheme_ok ''http''" "scheme_ok ''https''" by code_simp+
  then have sch: "scheme_ok ?sch" by simp
  show ?thesis
    using scrub_independent [OF sch basic_auth_ok basic_auth_ok, of "pre @ ''rest:''"]
    unfolding rest_url [OF assms(1,3)] rest_url [OF assms(2,4)] url_text_def by simp
qed

theorem rest_credentials_hidden_witness:
  "\<exists>rb rb'. build_rest [(''url'', JStr ''https://h'')] [(''username'', ''u''), (''password'', ''p1'')] [] = Inr rb \<and>
     build_rest [(''url'', JStr ''https://h'')] [(''username'', ''u''), (''password'', ''p2'')] [] = Inr rb' \<and>
     scrubSecretsInText (rb_repository rb) = scrubSecretsInText (rb_repository rb')"
proof -
  obtain rb rb' where r: "build_rest [(''url'', JStr ''https://h'')] [(''username'', ''u''), (''password'', ''p1'')] [] = Inr rb"
    "build_rest [(''url'', JStr ''https://h'')] [(''username'', ''u''), (''password'', ''p2'')] [] = Inr rb'"
    by (simp add: build_rest_def Let_def)
  from rest_credentials_hidden [OF this, of "[]" "[]"] r show ?thesis by (auto simp: cred_def)
qed

text \<open>
  Scrubbing works chunk by chunk, so an address cut in two between its scheme and the end of
  its credentials goes through unchanged.
\<close>

theorem cut_address_not_scrubbed:
  "err_text [Err ''Fatal: rest:https://u:pa'', Err ''ss@h/''] = ''Fatal: rest:https://u:pass@h/'' \<and>
   err_text [Err ''Fatal: rest:https://u:pass@h/''] = ''Fatal: rest:https://***:***@h/''"
  by code_simp

end
