(* ===== verification/JobRoutes.thy ===== *)
theory JobRoutes
  imports Agents Restic
begin

text \<open>
  The job routes, \<open>jobs/jobs.controller.ts\<close>: each calls the job service and then brings the cron
  registrations of \<open>jobs/scheduler.service.ts\<close> up to date. The state of a route is the server with
  the registry. The theorems say what a job looks like from outside and that the registrations
  follow the jobs through every sequence of requests, ticks and rebuilds.
\<close>

section \<open>What the API shows of a job\<close>

record api_job =
  aj_job :: backup_job
  aj_target_id :: "uuid option"
  aj_repo_config :: form
  aj_repo_password_secret_id :: uuid
  aj_repo_size_bytes :: "nat option"
  aj_repo_snapshot_count :: "nat option"
  aj_repo_stats_at :: "time option"
  aj_repo_stats_error :: "string option"
  aj_repo_check_status :: "check_status option"
  aj_repo_check_at :: "time option"
  aj_repo_check_level :: "integrity_level option"
  aj_repo_check_error :: "string option"
  aj_repo_data_verified_at :: "time option"
  aj_repo_check_subset_next :: nat
  aj_repo_check_subset_parts :: "nat option"
  aj_integrity_check :: integrity_check_config
  aj_next_run :: "time option"
  aj_next_check :: "time option"
  aj_last_run :: "job_run option"
  aj_has_credential_override :: bool

text \<open>\<open>nextRun\<close> is the next date of a cron expression, \<open>None\<close> when it does not parse.\<close>

definition toApi :: "(string \<Rightarrow> time option) \<Rightarrow> job_row \<Rightarrow> job_run option \<Rightarrow> api_job" where
  "toApi nextRun row lastRun =
     (let (job, repo) = row; integrity = bj_integrity_check job
      in \<lparr>aj_job = job, aj_target_id = re_target_id repo, aj_repo_config = re_repo_config repo,
          aj_repo_password_secret_id = re_repo_password_secret_id repo, aj_repo_size_bytes = re_size_bytes repo,
          aj_repo_snapshot_count = re_snapshot_count repo, aj_repo_stats_at = re_stats_at repo,
          aj_repo_stats_error = re_stats_error repo, aj_repo_check_status = re_check_status repo,
          aj_repo_check_at = re_check_at repo, aj_repo_check_level = re_check_level repo,
          aj_repo_check_error = re_check_error repo, aj_repo_data_verified_at = re_data_verified_at repo,
          aj_repo_check_subset_next = re_check_subset_next repo, aj_repo_check_subset_parts = re_check_subset_parts repo,
          aj_integrity_check = integrity, aj_next_run = nextRun (bj_cron_expr job),
          aj_next_check = (if bj_enabled job \<and> ic_enabled integrity = Some True \<and> or_empty (ic_cron_expr integrity) \<noteq> []
                           then nextRun (or_empty (ic_cron_expr integrity)) else None),
          aj_last_run = lastRun, aj_has_credential_override = (re_credential_secret_id repo \<noteq> None)\<rparr>)"

definition toApiWithLastRun :: "(string \<Rightarrow> time option) \<Rightarrow> server \<Rightarrow> job_row \<Rightarrow> api_job" where
  "toApiWithLastRun nextRun s row = toApi nextRun row (lastBackupRun (bj_id (fst row)) s)"

section \<open>Routes\<close>

type_synonym scheduled_server = "server \<times> cron_registry"

definition route_job_list :: "(string \<Rightarrow> time option) \<Rightarrow> request_user \<Rightarrow> server \<Rightarrow> api_job list" where
  "route_job_list nextRun u s = map (toApiWithLastRun nextRun s) (job_list u s)"

definition route_job_create ::
  "crypto \<Rightarrow> (string \<Rightarrow> bool) \<Rightarrow> (string \<Rightarrow> time option) \<Rightarrow> job_fresh \<Rightarrow> request_user \<Rightarrow> create_job \<Rightarrow> scheduled_server
    \<Rightarrow> api_job result \<times> scheduled_server" where
  "route_job_create c valid_cron nextRun f u dto sr =
     (case job_create c valid_cron f u dto (fst sr) of
        (Inl e, s) \<Rightarrow> (Inl e, s, snd sr)
      | (Inr row, s) \<Rightarrow> (Inr (toApi nextRun row None), s, sync valid_cron s (bj_id (fst row)) (snd sr)))"

definition route_job_get ::
  "(string \<Rightarrow> time option) \<Rightarrow> request_user \<Rightarrow> string \<Rightarrow> server \<Rightarrow> api_job result" where
  "route_job_get nextRun u idOrSlug s =
     (case slug_resolve (job_slugs s) idOrSlug of
        Inl e \<Rightarrow> Inl e
      | Inr i \<Rightarrow> (case job_get u i s of Inl e \<Rightarrow> Inl e | Inr row \<Rightarrow> Inr (toApiWithLastRun nextRun s row)))"

definition route_job_update ::
  "crypto \<Rightarrow> (string \<Rightarrow> bool) \<Rightarrow> (string \<Rightarrow> time option) \<Rightarrow> job_fresh \<Rightarrow> request_user \<Rightarrow> string \<Rightarrow> update_job \<Rightarrow> scheduled_server
    \<Rightarrow> api_job result \<times> scheduled_server" where
  "route_job_update c valid_cron nextRun f u idOrSlug dto sr =
     (case slug_resolve (job_slugs (fst sr)) idOrSlug of
        Inl e \<Rightarrow> (Inl e, sr)
      | Inr i \<Rightarrow>
          (case job_update c valid_cron f u i dto (fst sr) of
             (Inl e, s) \<Rightarrow> (Inl e, s, snd sr)
           | (Inr row, s) \<Rightarrow> (Inr (toApiWithLastRun nextRun s row), s, sync valid_cron s (bj_id (fst row)) (snd sr))))"

definition route_job_remove :: "request_user \<Rightarrow> string \<Rightarrow> scheduled_server \<Rightarrow> unit result \<times> scheduled_server" where
  "route_job_remove u idOrSlug sr =
     (case slug_resolve (job_slugs (fst sr)) idOrSlug of
        Inl e \<Rightarrow> (Inl e, sr)
      | Inr i \<Rightarrow>
          (case job_remove u i (fst sr) of
             (Inl e, s) \<Rightarrow> (Inl e, s, snd sr)
           | (Inr _, s) \<Rightarrow> (Inr (), s, unregister i (snd sr))))"

definition route_job_run :: "time \<Rightarrow> uuid \<Rightarrow> request_user \<Rightarrow> string \<Rightarrow> server \<Rightarrow> uuid result \<times> server" where
  "route_job_run now new_id u idOrSlug s =
     (case slug_resolve (job_slugs s) idOrSlug of
        Inl e \<Rightarrow> (Inl e, s)
      | Inr i \<Rightarrow>
          (case job_assertOperate s u i of
             Inl e \<Rightarrow> (Inl e, s)
           | Inr _ \<Rightarrow> (Inr new_id, dispatch new_id (createRun now new_id i TrManual s))))"

definition route_job_check ::
  "time \<Rightarrow> uuid \<Rightarrow> request_user \<Rightarrow> string \<Rightarrow> integrity_level option \<Rightarrow> server \<Rightarrow> uuid result \<times> server" where
  "route_job_check now new_id u idOrSlug level s =
     (case slug_resolve (job_slugs s) idOrSlug of
        Inl e \<Rightarrow> (Inl e, s)
      | Inr i \<Rightarrow>
          (case job_assertOperate s u i of
             Inl e \<Rightarrow> (Inl e, s)
           | Inr _ \<Rightarrow> check_start now new_id i TrManual level s))"

definition route_setIntegrityCheck ::
  "(string \<Rightarrow> bool) \<Rightarrow> (string \<Rightarrow> time option) \<Rightarrow> request_user \<Rightarrow> string \<Rightarrow> integrity_dto \<Rightarrow> scheduled_server
    \<Rightarrow> api_job result \<times> scheduled_server" where
  "route_setIntegrityCheck valid_cron nextRun u idOrSlug dto sr =
     (case slug_resolve (job_slugs (fst sr)) idOrSlug of
        Inl e \<Rightarrow> (Inl e, sr)
      | Inr i \<Rightarrow>
          (case setIntegrityCheck valid_cron u i dto (fst sr) of
             (Inl e, s) \<Rightarrow> (Inl e, s, snd sr)
           | (Inr row, s) \<Rightarrow> (Inr (toApiWithLastRun nextRun s row), s, sync valid_cron s (bj_id (fst row)) (snd sr))))"

text \<open>\<open>run\<close> is restic on a resolved repository.\<close>

definition route_testRepo ::
  "crypto \<Rightarrow> (resolved_target \<Rightarrow> runner) \<Rightarrow> request_user \<Rightarrow> ad_hoc_repo \<Rightarrow> server \<Rightarrow> files \<Rightarrow> connection_test result \<times> files" where
  "route_testRepo c run u dto s fs =
     (case (if or_empty (ah_target_id dto) \<noteq> []
            then (case target_get u (or_empty (ah_target_id dto)) s of Inl e \<Rightarrow> Inl e | Inr _ \<Rightarrow> Inr ()) else Inr ()) of
        Inl e \<Rightarrow> (Inl e, fs)
      | Inr _ \<Rightarrow>
          (case resolveRepoAdHoc c s dto of
             Inl e \<Rightarrow> (Inl e, fs)
           | Inr ctx \<Rightarrow> testConnection (run ctx) fs))"

section \<open>Registrations of a job\<close>

interpretation jobrow: row_format bj_id "\<lambda>f. \<forall>r. bj_id (f r) = bj_id r"
  by unfold_locales simp

lemma backup_job_by_id_key: "backup_job_by_id i s = jobrow.by_key i (backup_jobs s)"
  by (simp add: backup_job_by_id_def jobrow.by_key_def)

definition of_job :: "uuid \<Rightarrow> cron_registry \<Rightarrow> (string \<times> string) set" where
  "of_job i reg = {(n, e). (n, e) \<in> set reg \<and> (n = cronName i \<or> n = checkCronName i)}"

definition job_wanted :: "(string \<Rightarrow> bool) \<Rightarrow> backup_job option \<Rightarrow> (string \<times> string) set" where
  "job_wanted vc oj = (case oj of None \<Rightarrow> {} | Some j \<Rightarrow> if bj_enabled j then set (wanted_crons vc j) else {})"

lemma cron_names [simp]:
  "cronName i = cronName k \<longleftrightarrow> i = k" "checkCronName i = checkCronName k \<longleftrightarrow> i = k"
  "cronName i \<noteq> checkCronName k" "checkCronName i \<noteq> cronName k"
  by (simp_all add: cronName_def checkCronName_def)

lemma wanted_crons_of: "(n, e) \<in> set (wanted_crons vc j) \<Longrightarrow> n = cronName (bj_id j) \<or> n = checkCronName (bj_id j)"
  by (auto simp: wanted_crons_def registerAll_def register_def Let_def split: if_splits)

lemma paired_repo:
  assumes "jobs_paired s" "j \<in> set (backup_jobs s)"
  shows "repository_by_id (bj_repository_id j) s \<noteq> None"
proof -
  have "bj_repository_id j \<in> re_id ` set (repositories s)" using assms unfolding jobs_paired_def by blast
  then show ?thesis by (auto simp: repository_by_id_def select_first_None)
qed

lemma paired_row:
  assumes "jobs_paired s"
  shows "job_getRow s i = (case backup_job_by_id i s of None \<Rightarrow> Inl (NotFound ''Job not found'')
      | Some j \<Rightarrow> Inr (j, the (repository_by_id (bj_repository_id j) s)))"
proof -
  have "repository_by_id (bj_repository_id j) s \<noteq> None" if "backup_job_by_id i s = Some j" for j
    using that paired_repo [OF assms] by (auto simp: backup_job_by_id_key dest: jobrow.by_key_in)
  then show ?thesis by (auto simp: job_getRow_def split: option.splits)
qed

lemma of_job_unregister: "of_job k (unregister i reg) = (if k = i then {} else of_job k reg)"
  by (auto simp: of_job_def unregister_def)

lemma of_job_append: "of_job k (reg @ reg') = of_job k reg \<union> of_job k reg'"
  by (auto simp: of_job_def)

lemma of_job_wanted: "of_job k (wanted_crons vc j) = (if k = bj_id j then set (wanted_crons vc j) else {})"
  by (auto simp: of_job_def dest: wanted_crons_of)

lemma of_job_sync:
  assumes "jobs_paired s"
  shows "of_job k (sync vc s i reg) = (if k = i then job_wanted vc (backup_job_by_id i s) else of_job k reg)"
proof -
  have "bj_id j = i" if "backup_job_by_id i s = Some j" for j
    using that by (auto simp: backup_job_by_id_key dest: jobrow.by_key_in)
  then show ?thesis
    using assms by (auto simp: sync_def paired_row job_wanted_def registerAll_append of_job_append of_job_unregister of_job_wanted
        split: option.splits)
qed

lemma of_job_ours: "of_job k (filter (\<lambda>(n, e). \<not> ours n) reg) = {}"
  by (auto simp: of_job_def ours_def cronName_def checkCronName_def starts_with_def)

lemma of_job_concat: "of_job k (concat (map (wanted_crons vc) js)) = (\<Union>j \<in> set js. of_job k (wanted_crons vc j))"
  by (auto simp: of_job_def)

lemma of_job_syncAll:
  assumes "jobs_paired s"
  shows "of_job k (syncAll vc s reg) = job_wanted vc (backup_job_by_id k s)"
proof -
  have "fst ` set (job_rows s) = set (backup_jobs s)"
    using paired_repo [OF assms] by (force simp: job_rows_def map_filter_def image_iff)
  then have en: "j \<in> set (map fst (listEnabled s)) \<longleftrightarrow> j \<in> set (backup_jobs s) \<and> bj_enabled j" for j
    by (force simp: listEnabled_def)
  have key: "backup_job_by_id k s = Some j \<longleftrightarrow> j \<in> set (backup_jobs s) \<and> bj_id j = k" for j
    using assms jobrow.by_key_unique [of "backup_jobs s" j]
    by (auto simp: backup_job_by_id_key jobs_paired_def jobrow.keys_def dest: jobrow.by_key_in)
  have "of_job k (syncAll vc s reg) = (\<Union>j \<in> set (map fst (listEnabled s)). if k = bj_id j then set (wanted_crons vc j) else {})"
    by (simp only: syncAll_def fold_registerAll of_job_append of_job_ours of_job_concat of_job_wanted Un_empty_left)
  also have "\<dots> = job_wanted vc (backup_job_by_id k s)"
  proof (cases "backup_job_by_id k s")
    case None
    with key have "bj_id j \<noteq> k" if "j \<in> set (backup_jobs s)" for j using that by (metis option.distinct(1))
    with None en show ?thesis by (auto simp: job_wanted_def)
  next
    case (Some a)
    with key have a: "j \<in> set (backup_jobs s) \<and> bj_id j = k \<longleftrightarrow> j = a" for j by (metis option.inject)
    have "{j \<in> set (map fst (listEnabled s)). k = bj_id j} = (if bj_enabled a then {a} else {})"
    proof (rule set_eqI)
      show "j \<in> {j \<in> set (map fst (listEnabled s)). k = bj_id j} \<longleftrightarrow> j \<in> (if bj_enabled a then {a} else {})" for j
        using a [of j] a [of a] en [of j] by (cases "j = a") auto
    qed
    then have "(\<Union>j \<in> {j \<in> set (map fst (listEnabled s)). k = bj_id j}. set (wanted_crons vc j)) = job_wanted vc (Some a)"
      by (simp only: job_wanted_def option.case) simp
    moreover have "(\<Union>j \<in> S. if k = bj_id j then f j else {}) = (\<Union>j \<in> {j \<in> S. k = bj_id j}. f j)"
      for S :: "backup_job set" and f :: "backup_job \<Rightarrow> (string \<times> string) set" by auto
    ultimately show ?thesis by (simp only: Some)
  qed
  finally show ?thesis .
qed

section \<open>Through every route\<close>

text \<open>
  The ids of jobs whose removal failed after the job was deleted: the route returns before it takes
  the registrations away.
\<close>

definition abandoned :: "request_user \<Rightarrow> string \<Rightarrow> server \<Rightarrow> uuid list" where
  "abandoned u idOrSlug s =
     (case slug_resolve (job_slugs s) idOrSlug of
        Inl _ \<Rightarrow> []
      | Inr i \<Rightarrow>
          (case job_remove u i s of
             (Inl _, s') \<Rightarrow> if backup_job_by_id i s \<noteq> None \<and> backup_job_by_id i s' = None then [i] else []
           | (Inr _, _) \<Rightarrow> []))"

text \<open>
  What touches jobs or the registry: the routes, the ticks, the removal of agents and channels, and
  the rebuild at start and on a change of the time zone. The last component collects abandoned jobs.
\<close>

inductive job_step ::
  "crypto \<Rightarrow> (string \<Rightarrow> bool) \<Rightarrow> scheduled_server \<times> uuid list \<Rightarrow> scheduled_server \<times> uuid list \<Rightarrow> bool" for c vc where
  created: "jf_job_id f \<notin> bj_id ` set (backup_jobs (fst sr)) \<Longrightarrow> jf_repo_id f \<notin> re_id ` set (repositories (fst sr)) \<Longrightarrow>
    jf_job_id f \<notin> set gone \<Longrightarrow> job_step c vc (sr, gone) (snd (route_job_create c vc nx f u nw sr), gone)"
| updated: "job_step c vc (sr, gone) (snd (route_job_update c vc nx f u k dto sr), gone)"
| integrity_set: "job_step c vc (sr, gone) (snd (route_setIntegrityCheck vc nx u k ic sr), gone)"
| removed: "job_step c vc (sr, gone) (snd (route_job_remove u k sr), gone @ abandoned u k (fst sr))"
| run_started: "job_step c vc ((s, reg), gone) ((snd (route_job_run now i u k s), reg), gone)"
| check_started: "job_step c vc ((s, reg), gone) ((snd (route_job_check now i u k lv s), reg), gone)"
| ticked: "job_step c vc ((s, reg), gone) ((trigger now i j s, reg), gone)"
| check_ticked: "job_step c vc ((s, reg), gone) ((triggerCheck now i j s, reg), gone)"
| agent_removed: "job_step c vc ((s, reg), gone) ((agent_remove i s, reg), gone)"
| channel_removed: "job_step c vc ((s, reg), gone) ((snd (channel_remove i s), reg), gone)"
| rebuilt: "job_step c vc ((s, reg), gone) ((s, syncAll vc s reg), [])"

definition jobs_scheduled :: "(string \<Rightarrow> bool) \<Rightarrow> scheduled_server \<times> uuid list \<Rightarrow> bool" where
  "jobs_scheduled vc st \<longleftrightarrow>
     (let ((s, reg), gone) = st in
      jobs_paired s \<and> set gone \<inter> bj_id ` set (backup_jobs s) = {} \<and>
      (\<forall>i. i \<notin> set gone \<longrightarrow> of_job i reg = job_wanted vc (backup_job_by_id i s)))"

lemma scheduled_change:
  assumes "jobs_scheduled vc ((s, reg), gone)" "jobs_paired s'"
    and "\<And>k. k \<noteq> i \<Longrightarrow> backup_job_by_id k s' = backup_job_by_id k s"
    and "set gone \<inter> bj_id ` set (backup_jobs s') = {}"
    and "reg' = sync vc s' i reg \<or> reg' = unregister i reg \<and> backup_job_by_id i s' = None"
  shows "jobs_scheduled vc ((s', reg'), gone)"
proof -
  have "of_job k reg' = job_wanted vc (backup_job_by_id k s')" if "k \<notin> set gone" for k
  proof (cases "k = i")
    case True
    with assms(5) show ?thesis by (auto simp: of_job_sync [OF assms(2)] of_job_unregister job_wanted_def)
  next
    case False
    with assms(5) have "of_job k reg' = of_job k reg" by (auto simp: of_job_sync [OF assms(2)] of_job_unregister)
    with assms(1,3) that False show ?thesis by (simp add: jobs_scheduled_def)
  qed
  with assms(2,4) show ?thesis by (simp add: jobs_scheduled_def)
qed

text \<open>What the registrations of a job depend on.\<close>

definition cron_fields :: "backup_job \<Rightarrow> uuid \<times> uuid \<times> string \<times> integrity_check_config \<times> bool" where
  "cron_fields j = (bj_id j, bj_repository_id j, bj_cron_expr j, bj_integrity_check j, bj_enabled j)"

lemma wanted_crons_cong: "cron_fields j = cron_fields j' \<Longrightarrow> wanted_crons vc j = wanted_crons vc j' \<and> bj_enabled j = bj_enabled j'"
  by (simp add: cron_fields_def wanted_crons_def registerAll_def Let_def)

lemma job_wanted_cong:
  assumes "map_option cron_fields oj = map_option cron_fields oj'"
  shows "job_wanted vc oj = job_wanted vc oj'"
proof (cases oj)
  case None
  with assms show ?thesis by (cases oj') simp_all
next
  case (Some j)
  with assms obtain j' where "oj' = Some j'" "cron_fields j = cron_fields j'" by (cases oj') simp_all
  with Some wanted_crons_cong [of j j' vc] show ?thesis by (simp add: job_wanted_def)
qed

lemma select_first_map: "map_option f (select_first (\<lambda>x. Q (f x)) xs) = select_first Q (map f xs)"
  by (induction xs) (auto simp: select_first_def)

lemma scheduled_same:
  assumes "jobs_scheduled vc ((s, reg), gone)" "map cron_fields (backup_jobs s') = map cron_fields (backup_jobs s)"
    "map re_id (repositories s') = map re_id (repositories s)"
  shows "jobs_scheduled vc ((s', reg), gone)"
proof -
  have "map_option cron_fields (backup_job_by_id i s') = map_option cron_fields (backup_job_by_id i s)" for i
    using assms(2) select_first_map [of cron_fields "\<lambda>t. fst t = i" "backup_jobs s"]
      select_first_map [of cron_fields "\<lambda>t. fst t = i" "backup_jobs s'"]
    by (simp add: backup_job_by_id_def cron_fields_def)
  then have w: "job_wanted vc (backup_job_by_id i s') = job_wanted vc (backup_job_by_id i s)" for i
    by (rule job_wanted_cong)
  from arg_cong [OF assms(2), of "map (\<lambda>(i, r, _). (i, r))"]
  have keys: "map (\<lambda>j. (bj_id j, bj_repository_id j)) (backup_jobs s') = map (\<lambda>j. (bj_id j, bj_repository_id j)) (backup_jobs s)"
    by (simp add: comp_def cron_fields_def)
  from arg_cong [OF keys, of "map fst"] have "map bj_id (backup_jobs s') = map bj_id (backup_jobs s)" by (simp add: comp_def)
  then have ids: "bj_id ` set (backup_jobs s') = bj_id ` set (backup_jobs s)" by (metis list.set_map)
  with assms(1) w jobs_paired_cong [OF keys assms(3)] show ?thesis
    by (simp add: jobs_scheduled_def)
qed

lemma removed_row:
  assumes "job_remove u i s = (res, s')" "jobs_paired s"
  shows "s' = s \<and> is_error res \<or>
    jobs_paired s' \<and> backup_job_by_id i s \<noteq> None \<and> backup_job_by_id i s' = None \<and>
    backup_jobs s' = delete_where (\<lambda>k. bj_id k = i) (backup_jobs s)"
proof -
  have "jobs_paired s'" using job_remove_paired [OF assms(2), of u i] assms(1) by simp
  moreover have "backup_job_by_id i s' = None" if "backup_jobs s' = delete_where (\<lambda>k. bj_id k = i) (backup_jobs s)"
    using that by (simp add: backup_job_by_id_def select_first_None set_delete_where)
  moreover have "backup_job_by_id i s \<noteq> None" if "job_getRow s i = Inr (j, r)" for j r
    using that by (auto simp: job_getRow_def split: option.splits)
  ultimately show ?thesis using job_remove_tables [OF assms(1)] by blast
qed

lemma by_id_delete: "k \<noteq> i \<Longrightarrow> select_first (\<lambda>j. bj_id j = k) (delete_where (\<lambda>j. bj_id j = i) js) = select_first (\<lambda>j. bj_id j = k) js"
  by (induction js) (auto simp: select_first_def delete_where_def)

lemma by_id_update:
  assumes "\<And>j. bj_id (f j) = bj_id j" "k \<noteq> i"
  shows "jobrow.by_key k (update_where (\<lambda>j. bj_id j = i) f js) = jobrow.by_key k js"
  using assms by (cases "jobrow.by_key k js") (auto simp: jobrow.by_key_update dest: jobrow.by_key_in)

lemma remove_scheduled_jobs:
  assumes "jobs_scheduled vc (sr, gone)"
  shows "jobs_scheduled vc (snd (route_job_remove u k sr), gone @ abandoned u k (fst sr))"
proof (cases "slug_resolve (job_slugs (fst sr)) k")
  case (Inl e)
  with assms show ?thesis by (simp add: route_job_remove_def abandoned_def)
next
  case (Inr i)
  obtain s reg where sr: "sr = (s, reg)" by (cases sr)
  obtain res s' where r: "job_remove u i s = (res, s')" by fastforce
  have p: "jobs_paired s" using assms by (simp add: sr jobs_scheduled_def)
  from removed_row [OF r p] consider "s' = s" "is_error res"
    | "jobs_paired s'" "backup_job_by_id i s \<noteq> None" "backup_job_by_id i s' = None"
      "backup_jobs s' = delete_where (\<lambda>k. bj_id k = i) (backup_jobs s)" by auto
  then show ?thesis
  proof cases
    case 1
    then obtain e where "res = Inl e" by (cases res) simp_all
    with 1 assms r Inr show ?thesis by (auto simp: sr route_job_remove_def abandoned_def)
  next
    case 2
    have others: "backup_job_by_id q s' = backup_job_by_id q s" if "q \<noteq> i" for q
      using that by (simp add: backup_job_by_id_def 2(4) by_id_delete)
    have g: "set gone \<inter> bj_id ` set (backup_jobs s') = {}"
      using assms by (auto simp: sr jobs_scheduled_def 2(4) set_delete_where)
    show ?thesis
    proof (cases res)
      case (Inr x)
      have "jobs_scheduled vc ((s', unregister i reg), gone)"
        using assms 2(1,3) others g by (intro scheduled_change [of vc s reg gone s' i]) (simp_all add: sr)
      with r Inr \<open>slug_resolve _ _ = Inr i\<close> show ?thesis by (simp add: sr route_job_remove_def abandoned_def)
    next
      case (Inl e)
      have "i \<notin> bj_id ` set (backup_jobs s')" by (auto simp: 2(4) set_delete_where)
      then have "jobs_scheduled vc ((s', reg), gone @ [i])"
        using assms 2(1) others g by (auto simp: sr jobs_scheduled_def)
      with r Inl 2(2,3) \<open>slug_resolve _ _ = Inr i\<close> show ?thesis by (simp add: sr route_job_remove_def abandoned_def)
    qed
  qed
qed

lemma created_row:
  assumes "job_create c vc f u dto s = (res, s')" "jobs_paired s" "jf_job_id f \<notin> bj_id ` set (backup_jobs s)"
    "jf_repo_id f \<notin> re_id ` set (repositories s)"
  shows "s' = s \<and> is_error res \<or>
    jobs_paired s' \<and> res = job_getRow s' (jf_job_id f) \<and>
    (\<exists>j. bj_id j = jf_job_id f \<and> backup_jobs s' = insert_row j (backup_jobs s))"
proof (cases "validate_create vc u dto s")
  case (Inl e)
  with assms(1) show ?thesis by (auto simp: job_create_def)
next
  case (Inr x)
  obtain cfg ov where x: "x = (cfg, ov)" by (cases x)
  obtain pw cr s2 where st: "store_job_secrets c f (cj_repo_password dto) ov s = ((pw, cr), s2)" by (metis prod.exhaust)
  have "backup_jobs s' = insert_row (new_job f u dto (uniqueSlug (job_slugs s2) (cj_name dto) None)) (backup_jobs s)"
    "res = job_getRow s' (jf_job_id f)"
    using assms(1) store_job_secrets_tables [OF st] by (auto simp: job_create_def Inr x st Let_def)
  moreover have "bj_id (new_job f u dto sl) = jf_job_id f" for sl by (simp add: new_job_def)
  moreover have "jobs_paired s'" using job_create_paired [OF assms(2-4), of c vc u dto] assms(1) by simp
  ultimately show ?thesis by blast
qed

lemma updated_result:
  assumes "job_update c vc f u i dto s = (res, s')"
  shows "backup_jobs s' = backup_jobs s \<and> is_error res \<or> res = job_getRow s' i"
  using assms
  by (auto simp: job_update_def Let_def secret_update_def dest: override_patch_tables(1)
      split: sum.splits if_splits prod.splits option.splits)

lemma integrity_result:
  assumes "setIntegrityCheck vc u i dto s = (res, s')"
  shows "s' = s \<and> is_error res \<or>
    repositories s' = repositories s \<and> res = job_getRow s' i \<and>
    (\<exists>v. backup_jobs s' = update_where (\<lambda>j. bj_id j = i) (\<lambda>j. j\<lparr>bj_integrity_check := v\<rparr>) (backup_jobs s))"
  using assms by (auto simp: setIntegrityCheck_def Let_def split: sum.splits if_splits dest: sym [of "Inl _"])

text \<open>A route that writes one job and then syncs it when the service did not fail.\<close>

lemma resync_jobs:
  assumes "jobs_scheduled vc ((s, reg), gone)" "jobs_paired s'"
    and rows: "backup_jobs s' = backup_jobs s \<or>
      (\<exists>f. (\<forall>j. bj_id (f j) = bj_id j) \<and> backup_jobs s' = update_where (\<lambda>j. bj_id j = i) f (backup_jobs s))"
    and res: "res = job_getRow s' i \<or> is_error res \<and> backup_jobs s' = backup_jobs s"
  shows "jobs_scheduled vc ((s', case res of Inl _ \<Rightarrow> reg | Inr row \<Rightarrow> sync vc s' (bj_id (fst row)) reg), gone)"
proof -
  have others: "backup_job_by_id k s' = backup_job_by_id k s" if "k \<noteq> i" for k
    using rows that by (auto simp: backup_job_by_id_key intro!: by_id_update)
  have ids: "bj_id ` set (backup_jobs s') = bj_id ` set (backup_jobs s)"
  proof -
    have "map bj_id (backup_jobs s') = map bj_id (backup_jobs s)" using rows by (auto intro!: map_update_where)
    then show ?thesis by (metis list.set_map)
  qed
  have g: "set gone \<inter> bj_id ` set (backup_jobs s') = {}" using assms(1) by (simp add: jobs_scheduled_def ids)
  show ?thesis
  proof (cases res)
    case (Inr row)
    with res have "job_getRow s' i = Inr (fst row, snd row)" by auto
    then have "bj_id (fst row) = i" using job_getRow_ok by blast
    with Inr scheduled_change [OF assms(1,2) others g, where reg' = "sync vc s' i reg"] show ?thesis by simp
  next
    case (Inl e)
    have "backup_job_by_id i s' = backup_job_by_id i s"
    proof (cases "backup_jobs s' = backup_jobs s")
      case False
      with res Inl have "backup_job_by_id i s' = None" by (auto simp: paired_row [OF assms(2)] split: option.splits)
      then have "i \<notin> bj_id ` set (backup_jobs s')" by (auto simp: backup_job_by_id_key jobrow.by_key_None jobrow.keys_def)
      then have "backup_job_by_id i s = None" by (auto simp: ids backup_job_by_id_key jobrow.by_key_None jobrow.keys_def)
      with \<open>backup_job_by_id i s' = None\<close> show ?thesis by simp
    qed (simp add: backup_job_by_id_def)
    then have "backup_job_by_id k s' = backup_job_by_id k s" for k using others by (cases "k = i") simp_all
    with Inl assms(1,2) g show ?thesis by (simp add: jobs_scheduled_def)
  qed
qed

lemma update_scheduled_jobs:
  assumes "jobs_scheduled vc (sr, gone)"
  shows "jobs_scheduled vc (snd (route_job_update c vc nx f u k dto sr), gone)"
proof (cases "slug_resolve (job_slugs (fst sr)) k")
  case (Inl e)
  with assms show ?thesis by (simp add: route_job_update_def)
next
  case (Inr i)
  obtain s reg where sr: "sr = (s, reg)" by (cases sr)
  obtain res s' where r: "job_update c vc f u i dto s = (res, s')" by fastforce
  have "jobs_scheduled vc ((s', case res of Inl _ \<Rightarrow> reg | Inr row \<Rightarrow> sync vc s' (bj_id (fst row)) reg), gone)"
  proof (rule resync_jobs)
    show "jobs_scheduled vc ((s, reg), gone)" using assms by (simp add: sr)
    then show "jobs_paired s'" using job_update_paired [of s c vc f u i dto] r by (simp add: jobs_scheduled_def)
    show "backup_jobs s' = backup_jobs s \<or>
      (\<exists>f. (\<forall>j. bj_id (f j) = bj_id j) \<and> backup_jobs s' = update_where (\<lambda>j. bj_id j = i) f (backup_jobs s))"
      using job_update_jobs [OF r] job_patch_keys(1) by metis
    show "res = job_getRow s' i \<or> is_error res \<and> backup_jobs s' = backup_jobs s" using updated_result [OF r] by blast
  qed
  with r Inr show ?thesis by (cases res) (simp_all add: sr route_job_update_def)
qed

lemma integrity_scheduled_jobs:
  assumes "jobs_scheduled vc (sr, gone)"
  shows "jobs_scheduled vc (snd (route_setIntegrityCheck vc nx u k ic sr), gone)"
proof (cases "slug_resolve (job_slugs (fst sr)) k")
  case (Inl e)
  with assms show ?thesis by (simp add: route_setIntegrityCheck_def)
next
  case (Inr i)
  obtain s reg where sr: "sr = (s, reg)" by (cases sr)
  obtain res s' where r: "setIntegrityCheck vc u i ic s = (res, s')" by fastforce
  have "jobs_scheduled vc ((s', case res of Inl _ \<Rightarrow> reg | Inr row \<Rightarrow> sync vc s' (bj_id (fst row)) reg), gone)"
  proof (rule resync_jobs)
    show js: "jobs_scheduled vc ((s, reg), gone)" using assms by (simp add: sr)
    show rows: "backup_jobs s' = backup_jobs s \<or>
      (\<exists>f. (\<forall>j. bj_id (f j) = bj_id j) \<and> backup_jobs s' = update_where (\<lambda>j. bj_id j = i) f (backup_jobs s))"
    proof -
      from integrity_result [OF r] consider "s' = s"
        | v where "backup_jobs s' = update_where (\<lambda>j. bj_id j = i) (\<lambda>j. j\<lparr>bj_integrity_check := v\<rparr>) (backup_jobs s)" by auto
      then show ?thesis
      proof cases
        case (2 v)
        then show ?thesis by (intro disjI2 exI [of _ "\<lambda>j. j\<lparr>bj_integrity_check := v\<rparr>"]) simp
      qed simp
    qed
    have "map (\<lambda>j. (bj_id j, bj_repository_id j)) (backup_jobs s') = map (\<lambda>j. (bj_id j, bj_repository_id j)) (backup_jobs s)"
      using integrity_result [OF r] by (auto simp: map_update_where)
    moreover have "repositories s' = repositories s" using integrity_result [OF r] by auto
    ultimately show "jobs_paired s'" using js jobs_paired_cong [of s' s] by (simp add: jobs_scheduled_def)
    show "res = job_getRow s' i \<or> is_error res \<and> backup_jobs s' = backup_jobs s" using integrity_result [OF r] by auto
  qed
  with r Inr show ?thesis by (cases res) (simp_all add: sr route_setIntegrityCheck_def)
qed

lemma create_scheduled_jobs:
  assumes "jobs_scheduled vc (sr, gone)" "jf_job_id f \<notin> bj_id ` set (backup_jobs (fst sr))"
    "jf_repo_id f \<notin> re_id ` set (repositories (fst sr))" "jf_job_id f \<notin> set gone"
  shows "jobs_scheduled vc (snd (route_job_create c vc nx f u nw sr), gone)"
proof -
  obtain s reg where sr: "sr = (s, reg)" by (cases sr)
  obtain res s' where r: "job_create c vc f u nw s = (res, s')" by fastforce
  have "jobs_paired s" using assms(1) by (simp add: sr jobs_scheduled_def)
  from created_row [OF r this] assms(2,3)
  consider "s' = s" "is_error res"
    | j where "jobs_paired s'" "res = job_getRow s' (jf_job_id f)" "bj_id j = jf_job_id f" "backup_jobs s' = insert_row j (backup_jobs s)"
    by (auto simp: sr)
  then show ?thesis
  proof cases
    case 1
    then obtain e where "res = Inl e" by (cases res) simp_all
    with 1 r assms(1) show ?thesis by (simp add: sr route_job_create_def)
  next
    case (2 j)
    have k: "backup_job_by_id k s' = (case backup_job_by_id k s of Some q \<Rightarrow> Some q | None \<Rightarrow> if jf_job_id f = k then Some j else None)" for k
      by (simp add: backup_job_by_id_key 2(4) jobrow.by_key_insert 2(3) split: option.split)
    have new: "backup_job_by_id (jf_job_id f) s' = Some j"
    proof -
      have "jobrow.by_key (jf_job_id f) (backup_jobs s) = None" using assms(2) by (simp add: sr jobrow.by_key_None jobrow.keys_def)
      then show ?thesis by (simp add: k) (simp add: backup_job_by_id_key)
    qed
    have others: "backup_job_by_id q s' = backup_job_by_id q s" if "q \<noteq> jf_job_id f" for q
      using that by (simp add: k split: option.split)
    have "set gone \<inter> bj_id ` set (backup_jobs s') = {}"
      using assms(1,4) by (auto simp: sr jobs_scheduled_def 2(4) set_insert_row 2(3))
    from scheduled_change [OF assms(1) [unfolded sr] 2(1) others this, where reg' = "sync vc s' (jf_job_id f) reg"]
    show ?thesis using r new by (simp add: sr route_job_create_def 2(2) paired_row [OF 2(1)] 2(3))
  qed
qed

lemma quiet_steps:
  "backup_jobs (snd (route_job_run now i u k s)) = backup_jobs s \<and> repositories (snd (route_job_run now i u k s)) = repositories s"
  "backup_jobs (snd (check_start now i j tr lv s)) = backup_jobs s \<and> repositories (snd (check_start now i j tr lv s)) = repositories s"
  "backup_jobs (trigger now i j s) = backup_jobs s \<and> repositories (trigger now i j s) = repositories s"
  by (simp_all add: route_job_run_def trigger_def dispatch_def createRun_def check_start_def start_background_def Let_def
      split: sum.splits option.splits)

lemma job_step_scheduled: "job_step c vc st st' \<Longrightarrow> jobs_scheduled vc st \<Longrightarrow> jobs_scheduled vc st'"
proof (induction rule: job_step.induct)
  case (check_started s reg gone now i u k lv)
  then show ?case using quiet_steps(2)
    by (intro scheduled_same [OF check_started]) (simp_all add: route_job_check_def split: sum.splits)
next
  case (agent_removed s reg gone i)
  then show ?case by (rule scheduled_same) (simp_all add: agent_remove_def map_update_where cron_fields_def)
next
  case (channel_removed s reg gone i)
  then show ?case
    by (rule scheduled_same)
      (simp_all add: channel_remove_def pruneChannelFromJobs_def secret_remove_def Let_def map_update_where cron_fields_def
        split: sum.splits option.splits)
next
  case (rebuilt s reg gone)
  then show ?case by (simp add: jobs_scheduled_def of_job_syncAll)
qed (simp_all add: create_scheduled_jobs update_scheduled_jobs integrity_scheduled_jobs remove_scheduled_jobs
      scheduled_same quiet_steps triggerCheck_def)

lemma scheduled_reading:
  assumes "jobs_scheduled vc ((s, reg), gone)"
  shows "j \<in> set (backup_jobs s) \<Longrightarrow> of_job (bj_id j) reg = (if bj_enabled j then set (wanted_crons vc j) else {})"
    and "(n, e) \<in> set reg \<Longrightarrow> ours n \<Longrightarrow>
      (\<exists>j \<in> set (backup_jobs s). bj_enabled j \<and> (n, e) \<in> set (wanted_crons vc j)) \<or> (\<exists>i \<in> set gone. (n, e) \<in> of_job i reg)"
proof -
  have row: "backup_job_by_id (bj_id j) s = Some j" if "j \<in> set (backup_jobs s)" for j
    using that assms jobrow.by_key_unique [of "backup_jobs s" j]
    by (simp add: backup_job_by_id_key jobs_scheduled_def jobs_paired_def jobrow.keys_def)
  show "of_job (bj_id j) reg = (if bj_enabled j then set (wanted_crons vc j) else {})" if "j \<in> set (backup_jobs s)"
  proof -
    have "bj_id j \<notin> set gone" using that assms by (auto simp: jobs_scheduled_def)
    with assms row [OF that] show ?thesis by (simp add: jobs_scheduled_def job_wanted_def)
  qed
  assume n: "(n, e) \<in> set reg" "ours n"
  from n(2) obtain i where "n = cronName i \<or> n = checkCronName i"
    unfolding ours_def cronName_def checkCronName_def by (metis starts_withE)
  with n(1) have i: "(n, e) \<in> of_job i reg" by (simp add: of_job_def)
  show "(\<exists>j \<in> set (backup_jobs s). bj_enabled j \<and> (n, e) \<in> set (wanted_crons vc j)) \<or> (\<exists>i \<in> set gone. (n, e) \<in> of_job i reg)"
  proof (cases "i \<in> set gone")
    case False
    with assms i have "(n, e) \<in> job_wanted vc (backup_job_by_id i s)" by (simp add: jobs_scheduled_def)
    then obtain j where "backup_job_by_id i s = Some j" "bj_enabled j" "(n, e) \<in> set (wanted_crons vc j)"
      by (auto simp: job_wanted_def split: option.splits if_splits)
    then show ?thesis by (auto simp: backup_job_by_id_key dest: jobrow.by_key_in)
  qed (use i in blast)
qed

lemma rebuilt_scheduled: "jobs_paired s \<Longrightarrow> jobs_scheduled vc ((s, syncAll vc s reg), [])"
  by (simp add: jobs_scheduled_def of_job_syncAll)

lemma steps_scheduled: "(job_step c vc)\<^sup>*\<^sup>* st st' \<Longrightarrow> jobs_scheduled vc st \<Longrightarrow> jobs_scheduled vc st'"
  by (induction rule: rtranclp_induct) (auto dest: job_step_scheduled)

section \<open>Theorems\<close>

text \<open>
  C12: The schedule follows the jobs. From the start of the server on, through any sequence of
  requests that create, edit or remove jobs, of ticks, rebuilds and removals of agents and channels,
  every job has exactly the cron registrations its row asks for, none when it is disabled, and no
  registration is left for a job that does not exist, except for jobs whose removal failed half way.
\<close>

theorem jobs_stay_scheduled:
  assumes "jobs_paired s0" "(job_step c vc)\<^sup>*\<^sup>* ((s0, syncAll vc s0 reg0), []) ((s, reg), gone)"
  shows "(\<forall>j \<in> set (backup_jobs s). of_job (bj_id j) reg = (if bj_enabled j then set (wanted_crons vc j) else {})) \<and>
    (\<forall>n e. (n, e) \<in> set reg \<and> ours n \<longrightarrow>
       (\<exists>j \<in> set (backup_jobs s). bj_enabled j \<and> (n, e) \<in> set (wanted_crons vc j)) \<or> (\<exists>i \<in> set gone. (n, e) \<in> of_job i reg))"
  using scheduled_reading [OF steps_scheduled [OF assms(2) rebuilt_scheduled [OF assms(1)]]] by blast

lemma sample_admin_manages: "can s (sample_user True) t i l"
  by (simp add: can_def apiKeyAllows_def sample_user_def)

theorem jobs_stay_scheduled_witness:
  "filter (\<lambda>(n, e). ours n) (snd (snd (route_job_remove (sample_user True) (bj_slug sample_job)
      (sample_server [], syncAll (\<lambda>_. True) (sample_server []) [])))) = []"
proof -
  let ?s = "sample_server []" and ?k = "bj_slug sample_job" and ?u = "sample_user True"
  let ?reg = "syncAll (\<lambda>_. True) ?s []"
  have k: "slug_resolve (job_slugs ?s) ?k = Inr ''j1''"
    by (simp add: slug_resolve_def job_slugs_def sample_job_def isUuid_def select_first_def)
  have r: "fst (job_remove ?u ''j1'' ?s) = Inr ()" "backup_jobs (snd (job_remove ?u ''j1'' ?s)) = []"
    by (auto simp: job_remove_def acl_assert_def sample_admin_manages Let_def password_secret_in_use_def secret_remove_def
        remove_credential_secret_def delete_where_def update_where_def split: option.splits)
  then have "abandoned ?u ?k ?s = []" by (auto simp: abandoned_def k split: prod.splits)
  moreover have "backup_jobs (fst (snd (route_job_remove ?u ?k (?s, ?reg)))) = []"
    using r by (auto simp: route_job_remove_def k split: prod.splits)
  ultimately show ?thesis
    using jobs_stay_scheduled [OF sample_paired, of sample_crypto "\<lambda>_. True" "[]"
        "fst (snd (route_job_remove ?u ?k (?s, ?reg)))" "snd (snd (route_job_remove ?u ?k (?s, ?reg)))" "[]"]
      removed [of sample_crypto "\<lambda>_. True" "(?s, ?reg)" "[]" ?u ?k]
    by (auto simp: filter_empty_conv)
qed

text \<open>
  A removal that fails because a restore refers to the password has deleted the job, but its
  registration stays until the schedule is rebuilt.
\<close>

theorem failed_removal_keeps_schedule:
  assumes "rr_repo_password_secret_id r = ''s1''" and s: "s = (sample_server [])\<lparr>restore_runs := [r]\<rparr>"
  shows "let (res, s', reg') = route_job_remove (sample_user True) ''nightly'' (s, syncAll (\<lambda>_. True) s [])
     in is_error res \<and> backup_jobs s' = [] \<and> reg' = [(cronName ''j1'', ''0 2 * * *'')]"
proof -
  let ?s = "(sample_server [])\<lparr>restore_runs := [r]\<rparr>"
  have row: "job_getRow ?s ''j1'' = Inr (sample_job, sample_repository)"
    by (simp add: job_getRow_def backup_job_by_id_def repository_by_id_def select_first_def)
  have k: "slug_resolve (job_slugs ?s) ''nightly'' = Inr ''j1''"
    by (simp add: slug_resolve_def job_slugs_def sample_job_def isUuid_def select_first_def)
  have "listEnabled ?s = [(sample_job, sample_repository)]"
    by (simp add: listEnabled_def job_rows_def map_filter_def repository_by_id_def select_first_def) (simp add: sample_job_def)
  then have "syncAll (\<lambda>_. True) ?s [] = [(cronName ''j1'', ''0 2 * * *'')]"
    by (simp add: syncAll_def registerAll_def register_def Let_def) (simp add: sample_job_def)
  moreover have "is_error (fst (job_remove (sample_user True) ''j1'' ?s))" "backup_jobs (snd (job_remove (sample_user True) ''j1'' ?s)) = []"
    by (simp_all add: job_remove_def row acl_assert_def sample_admin_manages Let_def password_secret_in_use_def
        update_where_def delete_where_def assms(1))
  ultimately show ?thesis
    by (cases "job_remove (sample_user True) ''j1'' ?s") (auto simp: s Let_def route_job_remove_def k split: sum.splits)
qed

text \<open>
  Testing a repository is open to every signed-in user. Without a connection the path is one of the
  server's own file system, and a missing repository is created there, although only administrators
  may create a job that writes to such a path.
\<close>

theorem local_test_unrestricted:
  "\<exists>ctx. rv_repository ctx = p \<and>
     route_testRepo c run u \<lparr>ah_target_id = None, ah_backend_type = Some ''local'', ah_target_config = None,
       ah_repo_config = Some [(''path'', JStr p)], ah_repo_credentials = None, ah_repo_password = pw\<rparr> s fs = testConnection (run ctx) fs"
proof -
  have b: "getBackend ''local'' = Inr (mk_backend ''local'' True [jfield ''path'' True] build_local)"
    by (simp add: getBackend_def BACKENDS_def mk_backend_def)
  then obtain x y where "splitConfig ''local'' [] ScopeTarget = Inr (x, y)"
    by (simp add: splitConfig_def) (metis prod.exhaust)
  then show ?thesis
    by (intro exI [of _ "\<lparr>rv_target_id = ''adhoc'', rv_repository = p, rv_password = PText pw, rv_env = [],
          rv_credential_files = [], rv_extra_args = []\<rparr>"])
      (simp add: route_testRepo_def resolveRepoAdHoc_def or_empty_def assemble_def b Let_def mk_backend_def build_local_def
        plain_backend_def str_field_def str_def)
qed
end
