(* ===== verification/Snapshots.thy ===== *)
theory Snapshots
  imports Restic PruneRunner "HOL-Library.List_Lexorder" "HOL-Library.Char_ord" "HOL-Library.Multiset"
begin

text \<open>
  Browsing and deleting snapshots: \<open>restore/snapshots.service.ts\<close> and its routes in
  \<open>restore/snapshots.controller.ts\<close>. restic on a resolved repository is the parameter \<open>run\<close>,
  \<open>Array.prototype.sort\<close> the parameter \<open>js_sort\<close>, of which the code relies on what the language
  promises (\<open>sorts\<close>). The theorems say which commands a request can cause and in which order
  snapshots and entries are shown.
\<close>

section \<open>Sorting\<close>

type_synonym 'a comparator = "'a \<Rightarrow> 'a \<Rightarrow> int"

text \<open>A comparator is consistent on a list when it is antisymmetric and transitive there.\<close>

definition consistent :: "'a comparator \<Rightarrow> 'a list \<Rightarrow> bool" where
  "consistent cmp xs \<longleftrightarrow>
     (\<forall>x \<in> set xs. \<forall>y \<in> set xs. sgn (cmp x y) = - sgn (cmp y x)) \<and>
     (\<forall>x \<in> set xs. \<forall>y \<in> set xs. \<forall>z \<in> set xs. cmp x y \<le> 0 \<and> cmp y z \<le> 0 \<longrightarrow> cmp x z \<le> 0)"

definition sorts :: "('a comparator \<Rightarrow> 'a list \<Rightarrow> 'a list) \<Rightarrow> bool" where
  "sorts js_sort \<longleftrightarrow>
     (\<forall>cmp xs. mset (js_sort cmp xs) = mset xs \<and> (consistent cmp xs \<longrightarrow> sorted_wrt (\<lambda>x y. cmp x y \<le> 0) (js_sort cmp xs)))"

section \<open>The service\<close>

definition time_of :: "json \<Rightarrow> string" where
  "time_of j = (case msg_field j ''time'' of Some (JStr t) \<Rightarrow> t | _ \<Rightarrow> [])"

definition newest_cmp :: "json comparator" where
  "newest_cmp a b = (if time_of a < time_of b then 1 else if time_of a > time_of b then -1 else 0)"

definition type_is_dir :: "ls_entry \<Rightarrow> bool" where
  "type_is_dir e \<longleftrightarrow> le_type e = Some (JStr ''dir'')"

text \<open>\<open>locale\<close> stands for \<open>localeCompare\<close>.\<close>

definition entry_cmp :: "(json option \<Rightarrow> json option \<Rightarrow> int) \<Rightarrow> ls_entry comparator" where
  "entry_cmp localeCompare a b =
     (if le_type a \<noteq> le_type b then (if type_is_dir a then -1 else 1) else localeCompare (le_path a) (le_path b))"

type_synonym repo_runner = "resolved_target \<Rightarrow> runner"

definition job_context :: "crypto \<Rightarrow> request_user \<Rightarrow> uuid \<Rightarrow> access_level \<Rightarrow> server \<Rightarrow> (job_row \<times> resolved_target) result" where
  "job_context c u jobId level s =
     (case acl_assert s u RtJob jobId level of Inl e \<Rightarrow> Inl e | Inr _ \<Rightarrow>
      (case job_getRow s jobId of Inl e \<Rightarrow> Inl e | Inr row \<Rightarrow>
       (case resolveForJob c s (snd row) of Inl e \<Rightarrow> Inl e | Inr ctx \<Rightarrow> Inr (row, ctx))))"

record snapshot_query =
  sq_host :: "string option"
  sq_tags :: "string list option"
  sq_path :: "string option"

definition filters_of :: "snapshot_query \<Rightarrow> snapshot_filters" where
  "filters_of q =
     \<lparr>sf_host = sq_host q, sf_tags = or_empty (sq_tags q),
      sf_paths = (if or_empty (sq_path q) \<noteq> [] then [or_empty (sq_path q)] else [])\<rparr>"

text \<open>What restic printed is an array; \<open>sort\<close> is a method of arrays only.\<close>

definition snapshots_list ::
  "parser \<Rightarrow> (json comparator \<Rightarrow> json list \<Rightarrow> json list) \<Rightarrow> crypto \<Rightarrow> repo_runner \<Rightarrow> request_user \<Rightarrow> uuid \<Rightarrow> snapshot_query
    \<Rightarrow> server \<Rightarrow> files \<Rightarrow> json list result \<times> files" where
  "snapshots_list parse js_sort c run u jobId q s fs =
     (case job_context c u jobId AlView s of
        Inl e \<Rightarrow> (Inl e, fs)
      | Inr (_, ctx) \<Rightarrow>
          (case restic_snapshots parse (run ctx) (filters_of q) fs of
             (Inl e, fs1) \<Rightarrow> (Inl e, fs1)
           | (Inr (JArr snaps), fs1) \<Rightarrow> (Inr (js_sort newest_cmp snaps), fs1)
           | (Inr _, fs1) \<Rightarrow> (Inl (PlainError ''snaps.sort is not a function''), fs1)))"

record removed_snapshot =
  rs_removed :: nat
  rs_raw :: json
  rs_prune_run_id :: "uuid option"

definition snapshot_remove ::
  "parser \<Rightarrow> crypto \<Rightarrow> repo_runner \<Rightarrow> time \<Rightarrow> uuid \<Rightarrow> request_user \<Rightarrow> uuid \<Rightarrow> string \<Rightarrow> bool \<Rightarrow> server \<Rightarrow> files
    \<Rightarrow> removed_snapshot result \<times> server \<times> files" where
  "snapshot_remove parse c run now new_id u jobId snapshotId prune s fs =
     (case job_context c u jobId AlManage s of
        Inl e \<Rightarrow> (Inl e, s, fs)
      | Inr ((job, repo), ctx) \<Rightarrow>
          (case forgetSnapshots parse (run ctx) [snapshotId] False fs of
             (Inl e, fs1) \<Rightarrow> (Inl e, s, fs1)
           | (Inr (removed, raw), fs1) \<Rightarrow>
               if prune
               then (Inr \<lparr>rs_removed = removed, rs_raw = raw, rs_prune_run_id = Some new_id\<rparr>,
                     prune_start now new_id \<lparr>po_job_id = jobId, po_repository_id = bj_repository_id job,
                                             po_trigger = TrManual, po_parent_run_id = None\<rparr> s, fs1)
               else (Inr \<lparr>rs_removed = removed, rs_raw = raw, rs_prune_run_id = None\<rparr>, s, fs1)))"

definition snapshot_ls ::
  "parser \<Rightarrow> (ls_entry comparator \<Rightarrow> ls_entry list \<Rightarrow> ls_entry list) \<Rightarrow> (json option \<Rightarrow> json option \<Rightarrow> int) \<Rightarrow> crypto \<Rightarrow>
   repo_runner \<Rightarrow> request_user \<Rightarrow> uuid \<Rightarrow> string \<Rightarrow> string option \<Rightarrow> server \<Rightarrow> files \<Rightarrow> ls_entry list result \<times> files" where
  "snapshot_ls parse js_sort localeCompare c run u jobId snapshotId dir s fs =
     (case job_context c u jobId AlView s of
        Inl e \<Rightarrow> (Inl e, fs)
      | Inr (_, ctx) \<Rightarrow>
          (case restic_ls parse (run ctx) snapshotId dir fs of
             (Inl e, fs1) \<Rightarrow> (Inl e, fs1)
           | (Inr entries, fs1) \<Rightarrow> (Inr (js_sort (entry_cmp localeCompare) entries), fs1)))"

section \<open>Routes\<close>

definition route_snapshots_list ::
  "parser \<Rightarrow> (json comparator \<Rightarrow> json list \<Rightarrow> json list) \<Rightarrow> crypto \<Rightarrow> repo_runner \<Rightarrow> request_user \<Rightarrow> string \<Rightarrow>
   string option \<Rightarrow> string option \<Rightarrow> string option \<Rightarrow> server \<Rightarrow> files \<Rightarrow> json list result \<times> files" where
  "route_snapshots_list parse js_sort c run u idOrSlug host tags dir s fs =
     (case slug_resolve (job_slugs s) idOrSlug of
        Inl e \<Rightarrow> (Inl e, fs)
      | Inr jobId \<Rightarrow> snapshots_list parse js_sort c run u jobId
          \<lparr>sq_host = host, sq_tags = (if or_empty tags \<noteq> [] then Some (split_on (CHR '','') (or_empty tags)) else None),
           sq_path = dir\<rparr> s fs)"

definition route_snapshot_ls ::
  "parser \<Rightarrow> (ls_entry comparator \<Rightarrow> ls_entry list \<Rightarrow> ls_entry list) \<Rightarrow> (json option \<Rightarrow> json option \<Rightarrow> int) \<Rightarrow> crypto \<Rightarrow>
   repo_runner \<Rightarrow> request_user \<Rightarrow> string \<Rightarrow> string \<Rightarrow> string option \<Rightarrow> server \<Rightarrow> files \<Rightarrow> ls_entry list result \<times> files" where
  "route_snapshot_ls parse js_sort localeCompare c run u idOrSlug snapshotId dir s fs =
     (case slug_resolve (job_slugs s) idOrSlug of
        Inl e \<Rightarrow> (Inl e, fs)
      | Inr jobId \<Rightarrow> snapshot_ls parse js_sort localeCompare c run u jobId snapshotId dir s fs)"

definition route_snapshot_remove ::
  "parser \<Rightarrow> crypto \<Rightarrow> repo_runner \<Rightarrow> time \<Rightarrow> uuid \<Rightarrow> request_user \<Rightarrow> string \<Rightarrow> string \<Rightarrow> string option \<Rightarrow> server \<Rightarrow> files
    \<Rightarrow> removed_snapshot result \<times> server \<times> files" where
  "route_snapshot_remove parse c run now new_id u idOrSlug snapshotId prune s fs =
     (case slug_resolve (job_slugs s) idOrSlug of
        Inl e \<Rightarrow> (Inl e, s, fs)
      | Inr jobId \<Rightarrow> snapshot_remove parse c run now new_id u jobId snapshotId (prune = Some ''true'') s fs)"

section \<open>Lemmas\<close>

lemma job_context_ok:
  assumes "job_context c u jobId level s = Inr ((job, repo), ctx)"
  shows "can s u RtJob jobId level" "job_getRow s jobId = Inr (job, repo)" "resolveForJob c s repo = Inr ctx"
  using assms by (auto simp: job_context_def acl_assert_iff split: sum.splits)

lemma newest_consistent: "consistent newest_cmp xs"
  by (auto simp: consistent_def newest_cmp_def split: if_splits)

lemma newest_le: "newest_cmp a b \<le> 0 \<longleftrightarrow> time_of b \<le> time_of a"
  by (auto simp: newest_cmp_def)

lemma forget_files: "ids \<noteq> [] \<Longrightarrow> snd (forgetSnapshots parse run ids prune fs) = snd (run (forgetSnapshots_args ids prune) fs)"
  by (simp add: forgetSnapshots_def split: prod.splits sum.splits)

section \<open>Theorems\<close>

text \<open>
  Deleting a snapshot needs the right to manage the job. A request without it, or for a job or
  a repository that does not resolve, runs no command and changes nothing; otherwise exactly one
  command runs, on the repository of that job, and it forgets the named snapshot only, never
  reclaiming storage itself. Reclaiming is started as an activity of its own, when it was asked for
  and the snapshot is gone, and then the answer names that activity.
\<close>

theorem snapshot_removal_guarded:
  assumes "route_snapshot_remove parse c run now new_id u k snap prune s fs = (res, s', fs')"
  shows "is_error res \<and> s' = s \<and> fs' = fs \<or>
    (\<exists>jobId job repo ctx. slug_resolve (job_slugs s) k = Inr jobId \<and> can s u RtJob jobId AlManage \<and>
       job_getRow s jobId = Inr (job, repo) \<and> resolveForJob c s repo = Inr ctx \<and>
       fs' = snd (run ctx [''forget'', ''--json'', ''--'', snap] fs) \<and>
       (case res of
          Inl _ \<Rightarrow> s' = s
        | Inr r \<Rightarrow>
            if prune = Some ''true''
            then rs_prune_run_id r = Some new_id \<and>
              s' = prune_start now new_id \<lparr>po_job_id = jobId, po_repository_id = re_id repo, po_trigger = TrManual,
                                           po_parent_run_id = None\<rparr> s
            else rs_prune_run_id r = None \<and> s' = s))"
proof (cases "slug_resolve (job_slugs s) k")
  case (Inl e)
  with assms show ?thesis by (auto simp: route_snapshot_remove_def)
next
  case k: (Inr jobId)
  with assms have r: "snapshot_remove parse c run now new_id u jobId snap (prune = Some ''true'') s fs = (res, s', fs')"
    by (simp add: route_snapshot_remove_def)
  show ?thesis
  proof (cases "job_context c u jobId AlManage s")
    case (Inl e)
    with r show ?thesis by (auto simp: snapshot_remove_def)
  next
    case (Inr x)
    obtain job repo ctx where x: "x = ((job, repo), ctx)" by (metis prod.exhaust)
    note ctx = job_context_ok [OF Inr [unfolded x]]
    have repo: "bj_repository_id job = re_id repo" using job_getRow_ok [OF ctx(2)] by simp
    obtain fr fs1 where f: "forgetSnapshots parse (run ctx) [snap] False fs = (fr, fs1)" by fastforce
    have "fs' = fs1" using r Inr f by (auto simp: snapshot_remove_def x split: sum.splits if_splits)
    then have "fs' = snd (run ctx [''forget'', ''--json'', ''--'', snap] fs)"
      using f forget_files [of "[snap]" parse "run ctx" False fs] by (simp add: forgetSnapshots_args_def flag_if_def)
    moreover have "case res of
          Inl _ \<Rightarrow> s' = s
        | Inr r \<Rightarrow>
            if prune = Some ''true''
            then rs_prune_run_id r = Some new_id \<and>
              s' = prune_start now new_id \<lparr>po_job_id = jobId, po_repository_id = re_id repo, po_trigger = TrManual,
                                           po_parent_run_id = None\<rparr> s
            else rs_prune_run_id r = None \<and> s' = s"
      using r Inr f repo by (auto simp: snapshot_remove_def x split: sum.splits if_splits)
    ultimately show ?thesis using k ctx by auto
  qed
qed

theorem snapshot_removal_guarded_witness:
  "snd (route_snapshot_remove (\<lambda>_. None) sample_crypto (\<lambda>_ _ fs. (Inl (PlainError ''down''), fs(''log'' \<mapsto> ''run''))) 0 ''x'' (sample_user False) ''nightly'' ''abc'' (Some ''true'') (sample_server []) Map.empty) =
     (sample_server [], Map.empty)"
proof -
  obtain res s' fs' where r:
    "route_snapshot_remove (\<lambda>_. None) sample_crypto (\<lambda>_ _ fs. (Inl (PlainError ''down''), fs(''log'' \<mapsto> ''run''))) 0 ''x'' (sample_user False) ''nightly'' ''abc'' (Some ''true'') (sample_server []) Map.empty = (res, s', fs')"
    by (metis prod.exhaust)
  have "\<not> can (sample_server []) (sample_user False) RtJob i AlManage" for i
    by (simp add: can_def apiKeyAllows_def sample_user_def select_first_def)
  with snapshot_removal_guarded [OF r] r show ?thesis by auto
qed

text \<open>Snapshots are listed newest first, all that restic named and no other, to users who may view the job.\<close>

theorem snapshots_newest_first:
  assumes "sorts js_sort" "snapshots_list parse js_sort c run u jobId q s fs = (Inr shown, fs')"
  shows "can s u RtJob jobId AlView \<and> sorted_wrt (\<lambda>a b. time_of b \<le> time_of a) shown \<and>
    (\<exists>job repo ctx snaps. job_getRow s jobId = Inr (job, repo) \<and> resolveForJob c s repo = Inr ctx \<and>
       restic_snapshots parse (run ctx) (filters_of q) fs = (Inr (JArr snaps), fs') \<and> mset shown = mset snaps)"
proof -
  from assms(2) obtain x where "job_context c u jobId AlView s = Inr x"
    by (auto simp: snapshots_list_def split: sum.splits)
  moreover obtain job repo ctx where "x = ((job, repo), ctx)" by (metis prod.exhaust)
  ultimately have x: "job_context c u jobId AlView s = Inr ((job, repo), ctx)" by simp
  with assms(2) obtain snaps where sn: "restic_snapshots parse (run ctx) (filters_of q) fs = (Inr (JArr snaps), fs')"
    and shown: "shown = js_sort newest_cmp snaps"
    by (auto simp: snapshots_list_def split: sum.splits prod.splits json.splits)
  have "sorted_wrt (\<lambda>a b. newest_cmp a b \<le> 0) shown" "mset shown = mset snaps"
    using assms(1) newest_consistent by (auto simp: sorts_def shown)
  with job_context_ok [OF x] sn show ?thesis by (auto simp: newest_le)
qed

text \<open>
  The entries of a directory are compared inconsistently when two of them are no directories and of
  different types: each counts as the later one, so the language leaves their order open and the
  entries need not come out by name.
\<close>

theorem entry_order_inconsistent:
  assumes "le_type a = Some (JStr ''file'')" "le_type b = Some (JStr ''symlink'')"
  shows "entry_cmp lc a b > 0 \<and> entry_cmp lc b a > 0 \<and> \<not> consistent (entry_cmp lc) [a, b]"
  using assms by (auto simp: entry_cmp_def type_is_dir_def consistent_def)
end
