(* ===== verification/Refinement.thy ===== *)
theory Refinement
  imports Main
begin

text \<open>
  Forward simulation, as an interface: a component executes operations on a concrete state,
  an abstraction function maps states to the state of a specification, and every operation
  is labelled with the step it is in the specification. Whatever the specification says of
  its runs then holds of every run of the component.
\<close>

locale simulation =
  fixes exec :: "'op \<Rightarrow> 's \<Rightarrow> 's" and enabled :: "'op \<Rightarrow> 's \<Rightarrow> bool" and inv :: "'s \<Rightarrow> bool"
    and abs :: "'s \<Rightarrow> 'a" and label :: "'op \<Rightarrow> 's \<Rightarrow> 'l" and spec :: "'a \<Rightarrow> 'l \<Rightarrow> 'a \<Rightarrow> bool"
  assumes inv_kept: "inv s \<Longrightarrow> enabled op s \<Longrightarrow> inv (exec op s)"
    and simulates: "inv s \<Longrightarrow> enabled op s \<Longrightarrow> spec (abs s) (label op s) (abs (exec op s))"
begin

fun run :: "'op list \<Rightarrow> 's \<Rightarrow> 's" where
  "run [] s = s"
| "run (op # ops) s = run ops (exec op s)"

fun run_enabled :: "'op list \<Rightarrow> 's \<Rightarrow> bool" where
  "run_enabled [] s = True"
| "run_enabled (op # ops) s = (enabled op s \<and> run_enabled ops (exec op s))"

fun labels :: "'op list \<Rightarrow> 's \<Rightarrow> 'l list" where
  "labels [] s = []"
| "labels (op # ops) s = label op s # labels ops (exec op s)"

inductive spec_run :: "'a \<Rightarrow> 'l list \<Rightarrow> 'a \<Rightarrow> bool" where
  spec_run_Nil: "spec_run a [] a"
| spec_run_Cons: "spec a l b \<Longrightarrow> spec_run b ls c \<Longrightarrow> spec_run a (l # ls) c"

lemma run_refines:
  "inv s \<Longrightarrow> run_enabled ops s \<Longrightarrow> spec_run (abs s) (labels ops s) (abs (run ops s)) \<and> inv (run ops s)"
proof (induction ops arbitrary: s)
  case Nil
  then show ?case by (simp add: spec_run_Nil)
next
  case (Cons op ops)
  then have "enabled op s" "run_enabled ops (exec op s)" by simp_all
  with Cons show ?case
    using simulates [of s op] inv_kept [of s op] by (auto intro: spec_run_Cons)
qed

text \<open>A quantity that a step of the specification can only raise as its label allows.\<close>

lemma spec_run_bound:
  assumes step: "\<And>a l b. spec a l b \<Longrightarrow> gain l + rest b \<le> (credit l :: nat) + rest a"
    and "spec_run a ls b"
  shows "sum_list (map gain ls) + rest b \<le> sum_list (map credit ls) + rest a"
  using assms(2)
proof (induction rule: spec_run.induct)
  case (spec_run_Cons a l b ls c)
  with step [OF spec_run_Cons.hyps(1)] show ?case by simp
qed simp

end

end
