(* ===== verification/DeviceAuth.thy ===== *)
theory DeviceAuth
  imports AuditLog Refinement
begin

text \<open>
  Pairing a command line client, \<open>server/src/auth/device-auth.service.ts\<close>. Random codes and
  ids are arguments. A pairing is a row of \<open>device_authorizations\<close>; approving, denying and
  claiming are conditional updates of its status.
  The abstract specification \<open>spec_step\<close> knows pairings only as absent, waiting, granted,
  refused or used; every operation of the service is shown to be a step of it, and what the
  specification guarantees (a pairing yields at most one key, and only the key its approver
  granted) carries over to the service.
\<close>

section \<open>User codes\<close>

definition DEVICE_CODE_TTL_SECONDS :: int where
  "DEVICE_CODE_TTL_SECONDS = 600"

definition DEVICE_POLL_INTERVAL_SECONDS :: int where
  "DEVICE_POLL_INTERVAL_SECONDS = 5"

definition USER_CODE_ALPHABET :: string where
  "USER_CODE_ALPHABET = ''BCDFGHJKLMNPQRSTVWXZ''"

definition USER_CODE_LENGTH :: nat where
  "USER_CODE_LENGTH = 8"

definition RETENTION_MS :: int where
  "RETENTION_MS = 24 * 3600000"

definition MAX_USER_AGENT :: nat where
  "MAX_USER_AGENT = 256"

text \<open>\<open>r i\<close> is the \<open>i\<close>-th \<open>randomInt\<close>.\<close>

definition generateUserCode :: "(nat \<Rightarrow> nat) \<Rightarrow> string" where
  "generateUserCode r =
     map (\<lambda>i. USER_CODE_ALPHABET ! (r i mod length USER_CODE_ALPHABET)) [0..<USER_CODE_LENGTH]"

definition formatUserCode :: "string \<Rightarrow> string" where
  "formatUserCode code = take 4 code @ ''-'' @ drop 4 code"

definition USER_CODE_RE :: "string \<Rightarrow> bool" where
  "USER_CODE_RE code \<longleftrightarrow> length code = USER_CODE_LENGTH \<and> list_all (\<lambda>c. c \<in> set USER_CODE_ALPHABET) code"

definition normalizeUserCode :: "string \<Rightarrow> string option" where
  "normalizeUserCode input =
     (let code = filter (\<lambda>c. \<not> js_space c \<and> c \<noteq> CHR ''-'') (to_upper input) in
      if USER_CODE_RE code then Some code else None)"

definition hashUserCode :: "crypto \<Rightarrow> string \<Rightarrow> string result" where
  "hashUserCode cr input =
     (case normalizeUserCode input of
        None \<Rightarrow> Inl (NotFound ''Unknown or expired code'')
      | Some c \<Rightarrow> Inr (hashToken cr c))"

section \<open>Starting a pairing\<close>

record device_context =
  dc_ip :: "string option"
  dc_user_agent :: "string option"

record code_response =
  cr_device_code :: string
  cr_user_code :: string
  cr_verification_path :: string
  cr_expires_in :: int
  cr_interval :: int

definition pairing_row ::
  "crypto \<Rightarrow> uuid \<Rightarrow> time \<Rightarrow> string \<Rightarrow> string \<Rightarrow> string \<Rightarrow> device_context \<Rightarrow> device_authorization" where
  "pairing_row cr new_id now deviceCode userCode clientName ctx =
     \<lparr>da_id = new_id, da_device_code_hash = hashToken cr deviceCode, da_user_code_hash = hashToken cr userCode,
      da_client_name = trim clientName, da_request_ip = dc_ip ctx,
      da_request_user_agent = map_option (take MAX_USER_AGENT) (dc_user_agent ctx),
      da_status = DvPending, da_user_id = None, da_access = None, da_key_expires_in_days = None,
      da_api_key_id = None, da_expires_at = now + DEVICE_CODE_TTL_SECONDS * 1000,
      da_last_polled_at = None, da_decided_at = None, da_created_at = now\<rparr>"

text \<open>The unique indexes on the two hashes.\<close>

definition hash_taken :: "device_authorization \<Rightarrow> server \<Rightarrow> bool" where
  "hash_taken r s = list_ex (\<lambda>d. da_device_code_hash d = da_device_code_hash r \<or>
                               da_user_code_hash d = da_user_code_hash r) (device_authorizations s)"

text \<open>\<open>draw a\<close> is the user code drawn in attempt \<open>a\<close>; the loop ends after attempt 3.\<close>

function requestCode_from ::
  "nat \<Rightarrow> crypto \<Rightarrow> (nat \<Rightarrow> string) \<Rightarrow> uuid \<Rightarrow> time \<Rightarrow> string \<Rightarrow> string \<Rightarrow> device_context \<Rightarrow> server
    \<Rightarrow> code_response result \<times> server" where
  "requestCode_from attempt cr draw new_id now deviceCode clientName ctx s =
     (let userCode = draw attempt;
          row = pairing_row cr new_id now deviceCode userCode clientName ctx
      in if hash_taken row s
         then (if attempt < 3 then requestCode_from (attempt + 1) cr draw new_id now deviceCode clientName ctx s
               else (Inl (PlainError ''duplicate key value violates unique constraint''), s))
         else (let display = formatUserCode userCode in
               (Inr \<lparr>cr_device_code = deviceCode, cr_user_code = display,
                     cr_verification_path = ''/#/device?code='' @ display,
                     cr_expires_in = DEVICE_CODE_TTL_SECONDS, cr_interval = DEVICE_POLL_INTERVAL_SECONDS\<rparr>,
                s\<lparr>device_authorizations := insert_row row (device_authorizations s)\<rparr>)))"
  by pat_completeness auto
termination by (relation "measure (\<lambda>(a, _). 4 - a)") auto

declare requestCode_from.simps [simp del]

definition requestCode ::
  "crypto \<Rightarrow> (nat \<Rightarrow> string) \<Rightarrow> uuid \<Rightarrow> time \<Rightarrow> string \<Rightarrow> string \<Rightarrow> device_context \<Rightarrow> server
    \<Rightarrow> code_response result \<times> server" where
  "requestCode = requestCode_from 0"

section \<open>Deciding on a pairing\<close>

definition open_pairing :: "time \<Rightarrow> string \<Rightarrow> device_authorization \<Rightarrow> bool" where
  "open_pairing now h d \<longleftrightarrow> da_user_code_hash d = h \<and> da_status d = DvPending \<and> da_expires_at d > now"

record pairing_info =
  pi_client_name :: string
  pi_request_ip :: "string option"
  pi_request_user_agent :: "string option"
  pi_created_at :: time
  pi_expires_at :: time

definition lookup :: "crypto \<Rightarrow> time \<Rightarrow> string \<Rightarrow> server \<Rightarrow> pairing_info result" where
  "lookup cr now userCode s =
     (case hashUserCode cr userCode of
        Inl e \<Rightarrow> Inl e
      | Inr h \<Rightarrow>
          (case select_first (open_pairing now h) (device_authorizations s) of
             None \<Rightarrow> Inl (NotFound ''Unknown or expired code'')
           | Some d \<Rightarrow> Inr \<lparr>pi_client_name = da_client_name d, pi_request_ip = da_request_ip d,
                            pi_request_user_agent = da_request_user_agent d,
                            pi_created_at = da_created_at d, pi_expires_at = da_expires_at d\<rparr>))"

definition decide ::
  "crypto \<Rightarrow> time \<Rightarrow> string \<Rightarrow> (device_authorization \<Rightarrow> device_authorization) \<Rightarrow> server \<Rightarrow> unit result \<times> server" where
  "decide cr now userCode f s =
     (case hashUserCode cr userCode of
        Inl e \<Rightarrow> (Inl e, s)
      | Inr h \<Rightarrow>
          if count_where (open_pairing now h) (device_authorizations s) = 0
          then (Inl (NotFound ''Unknown or expired code''), s)
          else (Inr (), s\<lparr>device_authorizations := update_where (open_pairing now h) f (device_authorizations s)\<rparr>))"

definition approve ::
  "crypto \<Rightarrow> time \<Rightarrow> request_user \<Rightarrow> string \<Rightarrow> device_access \<Rightarrow> nat option \<Rightarrow> server \<Rightarrow> unit result \<times> server" where
  "approve cr now user userCode access days s =
     decide cr now userCode
       (\<lambda>d. d\<lparr>da_status := DvApproved, da_user_id := Some (ru_id user), da_access := Some access,
              da_key_expires_in_days := days, da_decided_at := Some now\<rparr>) s"

definition deny :: "crypto \<Rightarrow> time \<Rightarrow> request_user \<Rightarrow> string \<Rightarrow> server \<Rightarrow> unit result \<times> server" where
  "deny cr now user userCode s =
     decide cr now userCode
       (\<lambda>d. d\<lparr>da_status := DvDenied, da_user_id := Some (ru_id user), da_decided_at := Some now\<rparr>) s"

section \<open>Claiming the key\<close>

datatype device_token =
    TkExpired
  | TkDenied
  | TkPending
  | TkSlowDown
  | TkApproved string string device_access "time option"

definition access_scopes :: "device_access \<Rightarrow> api_key_scopes" where
  "access_scopes a = \<lparr>sc_actions = (if a = DaRead then [''read''] else [''*'']), sc_resources = None\<rparr>"

text \<open>What the claim draws: the key's row id and secret, and the audit entry's id.\<close>

record claim_draw =
  cd_key_id :: uuid
  cd_secret :: string
  cd_audit_id :: uuid
  cd_audit_ok :: bool

definition show_access :: "device_access \<Rightarrow> string" where
  "show_access a = (case a of DaFull \<Rightarrow> ''full'' | DaRead \<Rightarrow> ''read'')"

definition claim_audit :: "user \<Rightarrow> created_key \<Rightarrow> string \<Rightarrow> device_access \<Rightarrow> device_context \<Rightarrow> audit_record" where
  "claim_audit u key clientName access ctx =
     \<lparr>ar_actor_id = Some (us_id u), ar_actor_email = Some (us_email u), ar_actor_type = ''apikey'',
      ar_actor_is_admin = Some (us_is_admin u), ar_action = ''CLI device login'', ar_method = Some ''POST'',
      ar_path = Some ''/api/auth/device/token'', ar_resource_type = Some ''auth'', ar_resource_id = Some (ck_id key),
      ar_status_code = Some 200, ar_success = Some True, ar_ip = dc_ip ctx, ar_user_agent = dc_user_agent ctx,
      ar_details = Some [(''clientName'', JStr clientName), (''access'', JStr (show_access access)),
                         (''keyPrefix'', JStr (ck_prefix key))]\<rparr>"

definition claimable :: "uuid \<Rightarrow> time \<Rightarrow> device_authorization \<Rightarrow> bool" where
  "claimable i now d \<longleftrightarrow> da_id d = i \<and> da_status d = DvApproved \<and> da_expires_at d > now"

definition claim ::
  "crypto \<Rightarrow> claim_draw \<Rightarrow> uuid \<Rightarrow> time \<Rightarrow> device_context \<Rightarrow> server \<Rightarrow> device_token \<times> server" where
  "claim cr draw i now ctx s =
     (case select_first (claimable i now) (device_authorizations s) of
        None \<Rightarrow> (TkExpired, s)
      | Some d \<Rightarrow>
          (let s1 = s\<lparr>device_authorizations := update_where (claimable i now)
                        (\<lambda>r. r\<lparr>da_status := DvConsumed, da_last_polled_at := Some now\<rparr>) (device_authorizations s)\<rparr>
           in case (da_user_id d, da_access d) of
                (Some uid, Some access) \<Rightarrow>
                  (case user_by_id uid s1 of
                     None \<Rightarrow> (TkExpired, s1)
                   | Some u \<Rightarrow>
                       if us_disabled u then (TkExpired, s1)
                       else let (key, s2) = create_key cr (cd_key_id draw) (cd_secret draw) now (us_id u)
                                              (''CLI: '' @ da_client_name d) (Some (access_scopes access))
                                              (da_key_expires_in_days d) s1;
                                s3 = s2\<lparr>device_authorizations := update_where (\<lambda>r. da_id r = i)
                                          (\<lambda>r. r\<lparr>da_api_key_id := Some (ck_id key)\<rparr>) (device_authorizations s2)\<rparr>;
                                s4 = record_audit (cd_audit_ok draw) (cd_audit_id draw) now
                                       (claim_audit u key (da_client_name d) access ctx) s3
                            in (TkApproved (ck_key key) (us_email u) access (ck_expires_at key), s4))
              | _ \<Rightarrow> (TkExpired, s1)))"

definition exchange ::
  "crypto \<Rightarrow> claim_draw \<Rightarrow> string \<Rightarrow> time \<Rightarrow> device_context \<Rightarrow> server \<Rightarrow> device_token \<times> server" where
  "exchange cr draw deviceCode now ctx s =
     (case select_first (\<lambda>d. da_device_code_hash d = hashToken cr deviceCode) (device_authorizations s) of
        None \<Rightarrow> (TkExpired, s)
      | Some row \<Rightarrow>
          if da_status row = DvConsumed \<or> da_expires_at row \<le> now then (TkExpired, s)
          else if da_status row = DvDenied then (TkDenied, s)
          else if da_status row = DvPending then
            (let tooFast = (case da_last_polled_at row of
                              None \<Rightarrow> False
                            | Some t \<Rightarrow> now - t < (DEVICE_POLL_INTERVAL_SECONDS - 1) * 1000)
             in (if tooFast then TkSlowDown else TkPending,
                 s\<lparr>device_authorizations := update_where (\<lambda>d. da_id d = da_id row)
                     (\<lambda>d. d\<lparr>da_last_polled_at := Some now\<rparr>) (device_authorizations s)\<rparr>))
          else claim cr draw (da_id row) now ctx s)"

definition revokeCurrentKey :: "request_user \<Rightarrow> server \<Rightarrow> unit result \<times> server" where
  "revokeCurrentKey user s =
     (case (ru_auth_via user, ru_api_key_id user) of
        (ViaApiKey, Some k) \<Rightarrow>
          (if k = [] then (Inl (BadRequest ''Only an API key can revoke itself''), s)
           else remove_key (ru_id user) k s)
      | _ \<Rightarrow> (Inl (BadRequest ''Only an API key can revoke itself''), s))"

definition purgeExpired :: "time \<Rightarrow> server \<Rightarrow> server" where
  "purgeExpired now s =
     s\<lparr>device_authorizations := delete_where (\<lambda>d. da_expires_at d < now - RETENTION_MS) (device_authorizations s)\<rparr>"

section \<open>The specification\<close>

datatype pairing = Absent | Waiting | Granted uuid device_access "nat option" | Refused | Used

datatype device_event =
    Start uuid
  | Grant uuid uuid device_access "nat option"
  | Refuse uuid
  | Issue uuid uuid device_access "nat option"
  | Burn uuid
  | Forget "uuid set"
  | Nothing

inductive spec_step :: "(uuid \<Rightarrow> pairing) \<Rightarrow> device_event \<Rightarrow> (uuid \<Rightarrow> pairing) \<Rightarrow> bool" where
  spec_start: "m i = Absent \<Longrightarrow> spec_step m (Start i) (m(i := Waiting))"
| spec_grant: "m i = Waiting \<Longrightarrow> spec_step m (Grant i u a d) (m(i := Granted u a d))"
| spec_refuse: "m i = Waiting \<Longrightarrow> spec_step m (Refuse i) (m(i := Refused))"
| spec_issue: "m i = Granted u a d \<Longrightarrow> spec_step m (Issue i u a d) (m(i := Used))"
| spec_burn: "m i = Granted u a d \<Longrightarrow> spec_step m (Burn i) (m(i := Used))"
| spec_forget: "spec_step m (Forget is) (\<lambda>i. if i \<in> is then Absent else m i)"
| spec_nothing: "spec_step m Nothing m"

inductive_cases spec_stepE: "spec_step m e m'"

section \<open>The service as a step of the specification\<close>

text \<open>The state of a pairing, read off its row.\<close>

definition pairing_of :: "device_authorization \<Rightarrow> pairing" where
  "pairing_of d =
     (case da_status d of
        DvPending \<Rightarrow> Waiting
      | DvApproved \<Rightarrow> (case (da_user_id d, da_access d) of
                        (Some u, Some a) \<Rightarrow> Granted u a (da_key_expires_in_days d)
                      | _ \<Rightarrow> Used)
      | DvDenied \<Rightarrow> Refused
      | DvConsumed \<Rightarrow> Used)"

definition pairings :: "server \<Rightarrow> uuid \<Rightarrow> pairing" where
  "pairings s i = (case drow.by_key i (device_authorizations s) of None \<Rightarrow> Absent | Some d \<Rightarrow> pairing_of d)"

text \<open>Calls of the service.\<close>

datatype device_call =
    CallRequest "nat \<Rightarrow> string" uuid time string string device_context
  | CallExchange claim_draw string time device_context
  | CallLookup time string
  | CallApprove time request_user string device_access "nat option"
  | CallDeny time request_user string
  | CallRevoke request_user
  | CallPurge time

fun device_exec :: "crypto \<Rightarrow> device_call \<Rightarrow> server \<Rightarrow> server" where
  "device_exec cr (CallRequest draw i now code name ctx) s = snd (requestCode cr draw i now code name ctx s)"
| "device_exec cr (CallExchange draw code now ctx) s = snd (exchange cr draw code now ctx s)"
| "device_exec cr (CallLookup now code) s = s"
| "device_exec cr (CallApprove now u code a d) s = snd (approve cr now u code a d s)"
| "device_exec cr (CallDeny now u code) s = snd (deny cr now u code s)"
| "device_exec cr (CallRevoke u) s = snd (revokeCurrentKey u s)"
| "device_exec cr (CallPurge now) s = purgeExpired now s"

text \<open>New rows get an id that is not in use.\<close>

fun device_enabled :: "device_call \<Rightarrow> server \<Rightarrow> bool" where
  "device_enabled (CallRequest draw i now code name ctx) s = (drow.by_key i (device_authorizations s) = None)"
| "device_enabled _ s = True"

definition row_to_decide :: "crypto \<Rightarrow> time \<Rightarrow> string \<Rightarrow> server \<Rightarrow> device_authorization option" where
  "row_to_decide cr now code s =
     (case hashUserCode cr code of
        Inl _ \<Rightarrow> None | Inr h \<Rightarrow> select_first (open_pairing now h) (device_authorizations s))"

definition row_to_claim :: "crypto \<Rightarrow> string \<Rightarrow> time \<Rightarrow> server \<Rightarrow> device_authorization option" where
  "row_to_claim cr code now s =
     (case select_first (\<lambda>d. da_device_code_hash d = hashToken cr code) (device_authorizations s) of
        None \<Rightarrow> None
      | Some d \<Rightarrow> if da_status d = DvApproved \<and> da_expires_at d > now then Some d else None)"

text \<open>The step each call is in the specification.\<close>

fun device_label :: "crypto \<Rightarrow> device_call \<Rightarrow> server \<Rightarrow> device_event" where
  "device_label cr (CallRequest draw i now code name ctx) s =
     (if is_error (fst (requestCode cr draw i now code name ctx s)) then Nothing else Start i)"
| "device_label cr (CallExchange draw code now ctx) s =
     (case row_to_claim cr code now s of
        None \<Rightarrow> Nothing
      | Some d \<Rightarrow>
          (case (fst (exchange cr draw code now ctx s), pairing_of d) of
             (TkApproved _ _ _ _, Granted u a n) \<Rightarrow> Issue (da_id d) u a n
           | _ \<Rightarrow> Burn (da_id d)))"
| "device_label cr (CallApprove now u code a n) s =
     (case row_to_decide cr now code s of None \<Rightarrow> Nothing | Some d \<Rightarrow> Grant (da_id d) (ru_id u) a n)"
| "device_label cr (CallDeny now u code) s =
     (case row_to_decide cr now code s of None \<Rightarrow> Nothing | Some d \<Rightarrow> Refuse (da_id d))"
| "device_label cr (CallPurge now) s =
     Forget {da_id d | d. d \<in> set (device_authorizations s) \<and> da_expires_at d < now - RETENTION_MS}"
| "device_label cr _ s = Nothing"

text \<open>The table's indexes, and that approving fills in who and what.\<close>

definition device_ok :: "server \<Rightarrow> bool" where
  "device_ok s \<longleftrightarrow>
     distinct (map da_id (device_authorizations s)) \<and>
     distinct (map da_user_code_hash (device_authorizations s)) \<and>
     distinct (map da_device_code_hash (device_authorizations s)) \<and>
     (\<forall>d \<in> set (device_authorizations s). da_status d = DvApproved \<longrightarrow> da_user_id d \<noteq> None \<and> da_access d \<noteq> None)"

lemma keys_device: "drow.keys (device_authorizations s) = map da_id (device_authorizations s)"
  by (simp add: drow.keys_def)

lemma device_row: "device_ok s \<Longrightarrow> d \<in> set (device_authorizations s) \<Longrightarrow> pairings s (da_id d) = pairing_of d"
  by (simp add: device_ok_def pairings_def drow.by_key_unique keys_device)

lemma one_by_id:
  assumes "device_ok s" "d \<in> set (device_authorizations s)" "e \<in> set (device_authorizations s)" "da_id d = da_id e"
  shows "d = e"
  using assms by (auto simp: device_ok_def distinct_map inj_on_def)

text \<open>An update of one row that keeps ids and hashes.\<close>

lemma pairings_update_one:
  assumes "\<And>d. da_id (f d) = da_id d" "d \<in> set (device_authorizations s)" "device_ok s" "P d"
    "\<And>e. e \<in> set (device_authorizations s) \<Longrightarrow> P e \<Longrightarrow> e = d"
  shows "pairings (s\<lparr>device_authorizations := update_where P f (device_authorizations s)\<rparr>) =
    (pairings s)(da_id d := pairing_of (f d))"
proof
  fix i
  have k: "\<forall>r. da_id (f r) = da_id r" using assms(1) by simp
  show "pairings (s\<lparr>device_authorizations := update_where P f (device_authorizations s)\<rparr>) i =
    ((pairings s)(da_id d := pairing_of (f d))) i"
  proof (cases "drow.by_key i (device_authorizations s)")
    case None
    then have "i \<noteq> da_id d" using assms(2) by (auto simp: drow.by_key_None keys_device)
    with None show ?thesis by (simp add: pairings_def drow.by_key_update [OF k])
  next
    case (Some e)
    then have e: "e \<in> set (device_authorizations s)" "da_id e = i" using drow.by_key_in by auto
    have "P e \<longleftrightarrow> e = d" using assms(4,5) e by blast
    moreover have "i = da_id d \<longleftrightarrow> e = d"
      using e(2) one_by_id [OF assms(3,2) e(1)] by metis
    ultimately show ?thesis using Some by (simp add: pairings_def drow.by_key_update [OF k])
  qed
qed

lemma device_ok_update:
  assumes "device_ok s" "\<And>d. da_id (f d) = da_id d" "\<And>d. da_user_code_hash (f d) = da_user_code_hash d"
    "\<And>d. da_device_code_hash (f d) = da_device_code_hash d"
    "\<And>d. P d \<Longrightarrow> d \<in> set (device_authorizations s) \<Longrightarrow> da_status (f d) = DvApproved \<Longrightarrow>
       da_user_id (f d) \<noteq> None \<and> da_access (f d) \<noteq> None"
  shows "device_ok (s\<lparr>device_authorizations := update_where P f (device_authorizations s)\<rparr>)"
proof -
  let ?t = "update_where P f (device_authorizations s)"
  have "map da_id ?t = map da_id (device_authorizations s)"
    "map da_user_code_hash ?t = map da_user_code_hash (device_authorizations s)"
    "map da_device_code_hash ?t = map da_device_code_hash (device_authorizations s)"
    by (rule map_update_where, rule assms)+
  moreover have "da_user_id d \<noteq> None \<and> da_access d \<noteq> None" if d: "d \<in> set ?t" "da_status d = DvApproved" for d
  proof -
    from d(1) obtain e where e: "e \<in> set (device_authorizations s)" "d = (if P e then f e else e)"
      by (auto simp: set_update_where)
    show ?thesis
    proof (cases "P e")
      case True
      with e d(2) assms(5) [of e] show ?thesis by simp
    next
      case False
      with e d(2) assms(1) show ?thesis by (simp add: device_ok_def)
    qed
  qed
  ultimately show ?thesis using assms(1) by (simp add: device_ok_def)
qed

lemma device_ok_cong:
  "device_authorizations s' = device_authorizations s \<Longrightarrow> device_ok s \<Longrightarrow> device_ok s'"
  by (simp add: device_ok_def)

lemma pairings_cong:
  "device_authorizations s' = device_authorizations s \<Longrightarrow> pairings s' = pairings s"
  by (simp add: pairings_def fun_eq_iff)

lemma one_by_user_hash:
  assumes "device_ok s" "d \<in> set (device_authorizations s)" "e \<in> set (device_authorizations s)"
    "da_user_code_hash d = da_user_code_hash e"
  shows "d = e"
  using assms by (auto simp: device_ok_def distinct_map inj_on_def)

text \<open>Requests: either the row is added with its id, or nothing changes.\<close>

lemma requestCode_from_cases:
  "(\<exists>e. requestCode_from n cr draw i now code name ctx s = (Inl e, s)) \<or>
   (\<exists>v a. requestCode_from n cr draw i now code name ctx s =
      (Inr v, s\<lparr>device_authorizations := insert_row (pairing_row cr i now code (draw a) name ctx) (device_authorizations s)\<rparr>) \<and>
      \<not> hash_taken (pairing_row cr i now code (draw a) name ctx) s)"
proof (induction n cr draw i now code name ctx s rule: requestCode_from.induct)
  case (1 n cr draw i now code name ctx s)
  show ?case
    using 1 by (subst (1 2) requestCode_from.simps) (auto simp: Let_def)
qed

lemma request_cases:
  "(\<exists>e. requestCode cr draw i now code name ctx s = (Inl e, s)) \<or>
   (\<exists>v a. requestCode cr draw i now code name ctx s =
      (Inr v, s\<lparr>device_authorizations := insert_row (pairing_row cr i now code (draw a) name ctx) (device_authorizations s)\<rparr>) \<and>
      \<not> hash_taken (pairing_row cr i now code (draw a) name ctx) s)"
  unfolding requestCode_def by (rule requestCode_from_cases)

lemma device_ok_insert:
  assumes "device_ok s" "drow.by_key (da_id r) (device_authorizations s) = None" "\<not> hash_taken r s"
    "da_status r = DvPending"
  shows "device_ok (s\<lparr>device_authorizations := insert_row r (device_authorizations s)\<rparr>)"
  using assms
  by (auto simp: device_ok_def insert_row_def hash_taken_def list_ex_iff drow.by_key_None drow.keys_def)

lemma pairings_insert:
  assumes "drow.by_key (da_id r) (device_authorizations s) = None" "da_status r = DvPending"
  shows "pairings (s\<lparr>device_authorizations := insert_row r (device_authorizations s)\<rparr>) =
    (pairings s)(da_id r := Waiting)"
proof
  fix i
  show "pairings (s\<lparr>device_authorizations := insert_row r (device_authorizations s)\<rparr>) i =
    ((pairings s)(da_id r := Waiting)) i"
    using assms by (auto simp: pairings_def drow.by_key_insert pairing_of_def split: option.splits)
qed

lemma request_simulates:
  assumes "device_ok s" "device_enabled (CallRequest draw i now code name ctx) s"
  shows "device_ok (device_exec cr (CallRequest draw i now code name ctx) s) \<and>
    spec_step (pairings s) (device_label cr (CallRequest draw i now code name ctx) s)
      (pairings (device_exec cr (CallRequest draw i now code name ctx) s))"
  using request_cases [of cr draw i now code name ctx s]
proof (elim disjE exE conjE)
  fix e assume "requestCode cr draw i now code name ctx s = (Inl e, s)"
  with assms(1) show ?thesis by (simp add: spec_nothing)
next
  fix v a
  let ?r = "pairing_row cr i now code (draw a) name ctx"
  assume r: "requestCode cr draw i now code name ctx s =
      (Inr v, s\<lparr>device_authorizations := insert_row ?r (device_authorizations s)\<rparr>)" and h: "\<not> hash_taken ?r s"
  have p: "da_id ?r = i" "da_status ?r = DvPending" by (simp_all add: pairing_row_def)
  have n: "drow.by_key (da_id ?r) (device_authorizations s) = None" using assms(2) p by simp
  then have "pairings s i = Absent" by (simp add: pairings_def p)
  then show ?thesis
    using device_ok_insert [OF assms(1) n h p(2)] pairings_insert [OF n p(2)] spec_start [of "pairings s" i]
    by (simp add: r p(1))
qed

text \<open>Decisions: the open pairing with the code, if there is one, changes state.\<close>

lemma decide_cases:
  assumes "device_ok s"
  obtains (none) "row_to_decide cr now code s = None" "snd (decide cr now code f s) = s"
  | (one) d h where "row_to_decide cr now code s = Some d" "d \<in> set (device_authorizations s)" "open_pairing now h d"
    "snd (decide cr now code f s) = s\<lparr>device_authorizations := update_where (open_pairing now h) f (device_authorizations s)\<rparr>"
    "\<And>e. e \<in> set (device_authorizations s) \<Longrightarrow> open_pairing now h e \<Longrightarrow> e = d"
proof (cases "row_to_decide cr now code s")
  case None
  then have "snd (decide cr now code f s) = s"
    by (auto simp: decide_def row_to_decide_def select_first_None split: sum.splits)
  with None none show thesis by blast
next
  case (Some d)
  then obtain h where h: "hashUserCode cr code = Inr h"
    and d: "select_first (open_pairing now h) (device_authorizations s) = Some d"
    by (auto simp: row_to_decide_def split: sum.splits)
  note sd = select_first_Some [OF d]
  have "snd (decide cr now code f s) = s\<lparr>device_authorizations := update_where (open_pairing now h) f (device_authorizations s)\<rparr>"
    using h sd by (auto simp: decide_def)
  moreover have "e = d" if "e \<in> set (device_authorizations s)" "open_pairing now h e" for e
    using one_by_user_hash [OF assms that(1) sd(1)] that(2) sd(2) by (simp add: open_pairing_def)
  ultimately show thesis using one Some sd by blast
qed

lemma approve_simulates:
  assumes "device_ok s"
  shows "device_ok (device_exec cr (CallApprove now u code a n) s) \<and>
    spec_step (pairings s) (device_label cr (CallApprove now u code a n) s)
      (pairings (device_exec cr (CallApprove now u code a n) s))"
proof -
  let ?f = "\<lambda>d. d\<lparr>da_status := DvApproved, da_user_id := Some (ru_id u), da_access := Some a,
              da_key_expires_in_days := n, da_decided_at := Some now\<rparr>"
  from assms show ?thesis
  proof (cases rule: decide_cases [of s cr now code ?f])
    case none
    with assms show ?thesis by (simp add: approve_def spec_nothing)
  next
    case (one d h)
    have "pairings s (da_id d) = Waiting"
      using device_row [OF assms one(2)] one(3) by (simp add: pairing_of_def open_pairing_def)
    moreover have "pairings (s\<lparr>device_authorizations := update_where (open_pairing now h) ?f (device_authorizations s)\<rparr>) =
      (pairings s)(da_id d := Granted (ru_id u) a n)"
      by (subst pairings_update_one [where P = "open_pairing now h", OF _ one(2) assms one(3)])
        (simp_all add: pairing_of_def one(5))
    ultimately show ?thesis
      using device_ok_update [OF assms, of ?f "open_pairing now h"] spec_grant [of "pairings s" "da_id d" "ru_id u" a n]
      by (simp add: approve_def one(1,4))
  qed
qed

lemma deny_simulates:
  assumes "device_ok s"
  shows "device_ok (device_exec cr (CallDeny now u code) s) \<and>
    spec_step (pairings s) (device_label cr (CallDeny now u code) s) (pairings (device_exec cr (CallDeny now u code) s))"
proof -
  let ?f = "\<lambda>d. d\<lparr>da_status := DvDenied, da_user_id := Some (ru_id u), da_decided_at := Some now\<rparr>"
  from assms show ?thesis
  proof (cases rule: decide_cases [of s cr now code ?f])
    case none
    with assms show ?thesis by (simp add: deny_def spec_nothing)
  next
    case (one d h)
    have "pairings s (da_id d) = Waiting"
      using device_row [OF assms one(2)] one(3) by (simp add: pairing_of_def open_pairing_def)
    moreover have "pairings (s\<lparr>device_authorizations := update_where (open_pairing now h) ?f (device_authorizations s)\<rparr>) =
      (pairings s)(da_id d := Refused)"
      by (subst pairings_update_one [where P = "open_pairing now h", OF _ one(2) assms one(3)])
        (simp_all add: pairing_of_def one(5))
    ultimately show ?thesis
      using device_ok_update [OF assms, of ?f "open_pairing now h"] spec_refuse [of "pairings s" "da_id d"]
      by (simp add: deny_def one(1,4))
  qed
qed

lemma purge_simulates:
  assumes "device_ok s"
  shows "device_ok (device_exec cr (CallPurge now) s) \<and>
    spec_step (pairings s) (device_label cr (CallPurge now) s) (pairings (device_exec cr (CallPurge now) s))"
proof -
  let ?P = "\<lambda>d. da_expires_at d < now - RETENTION_MS"
  let ?is = "{da_id d | d. d \<in> set (device_authorizations s) \<and> ?P d}"
  have ok: "device_ok (purgeExpired now s)"
    using assms by (simp add: device_ok_def purgeExpired_def delete_where_def distinct_map_filter)
  have "pairings (purgeExpired now s) i = (if i \<in> ?is then Absent else pairings s i)" for i
  proof (cases "drow.by_key i (device_authorizations s)")
    case None
    then have "drow.by_key i (device_authorizations (purgeExpired now s)) = None"
      by (auto simp: drow.by_key_None drow.keys_def purgeExpired_def delete_where_def)
    with None show ?thesis by (auto simp: pairings_def)
  next
    case (Some d)
    then have d: "d \<in> set (device_authorizations s)" "da_id d = i" using drow.by_key_in by auto
    have i: "i \<in> ?is \<longleftrightarrow> ?P d"
    proof
      assume "i \<in> ?is"
      then obtain e where e: "e \<in> set (device_authorizations s)" "?P e" "da_id e = i" by blast
      with one_by_id [OF assms e(1) d(1)] d(2) show "?P d" by metis
    qed (use d in blast)
    show ?thesis
    proof (cases "?P d")
      case True
      then have "da_id e \<noteq> i" if "e \<in> set (device_authorizations s)" "\<not> ?P e" for e
        using one_by_id [OF assms that(1) d(1)] d(2) that(2) by metis
      then have "drow.by_key i (device_authorizations (purgeExpired now s)) = None"
        by (auto simp: drow.by_key_None drow.keys_def purgeExpired_def delete_where_def)
      with i True show ?thesis by (simp add: pairings_def)
    next
      case False
      then have "d \<in> set (device_authorizations (purgeExpired now s))"
        using d by (simp add: purgeExpired_def delete_where_def)
      with device_row [OF ok this] device_row [OF assms d(1)] i False d(2) show ?thesis by auto
    qed
  qed
  then have "pairings (purgeExpired now s) = (\<lambda>i. if i \<in> ?is then Absent else pairings s i)" by (rule ext)
  with ok spec_forget [of "pairings s" ?is] show ?thesis by simp
qed

text \<open>Polls and claims.\<close>

lemma pairings_touch:
  assumes "\<And>d. da_id (f d) = da_id d" "\<And>d. pairing_of (f d) = pairing_of d"
  shows "pairings (s\<lparr>device_authorizations := update_where P f (device_authorizations s)\<rparr>) = pairings s"
proof
  fix i
  have k: "\<forall>r. da_id (f r) = da_id r" using assms(1) by simp
  show "pairings (s\<lparr>device_authorizations := update_where P f (device_authorizations s)\<rparr>) i = pairings s i"
    by (cases "drow.by_key i (device_authorizations s)")
      (simp_all add: pairings_def drow.by_key_update [OF k] assms(2))
qed

lemma pairing_of_key [simp]: "pairing_of (d\<lparr>da_api_key_id := k\<rparr>) = pairing_of d"
  by (cases "da_status d") (simp_all add: pairing_of_def split: option.split)

lemma pairing_of_poll [simp]: "pairing_of (d\<lparr>da_last_polled_at := t\<rparr>) = pairing_of d"
  by (cases "da_status d") (simp_all add: pairing_of_def split: option.split)

definition consume :: "time \<Rightarrow> device_authorization \<Rightarrow> device_authorization" where
  "consume now r = r\<lparr>da_status := DvConsumed, da_last_polled_at := Some now\<rparr>"

lemma consume_simps [simp]:
  "da_id (consume now d) = da_id d" "da_user_code_hash (consume now d) = da_user_code_hash d"
  "da_device_code_hash (consume now d) = da_device_code_hash d" "da_status (consume now d) = DvConsumed"
  "pairing_of (consume now d) = Used"
  by (simp_all add: consume_def pairing_of_def)

definition consumed_state :: "uuid \<Rightarrow> time \<Rightarrow> server \<Rightarrow> server" where
  "consumed_state i now s =
     s\<lparr>device_authorizations := update_where (claimable i now) (consume now) (device_authorizations s)\<rparr>"

lemma consumed_state:
  assumes "device_ok s" "d \<in> set (device_authorizations s)" "claimable (da_id d) now d"
  shows "pairings (consumed_state (da_id d) now s) = (pairings s)(da_id d := Used)"
    "device_ok (consumed_state (da_id d) now s)"
proof -
  have "e = d" if "e \<in> set (device_authorizations s)" "claimable (da_id d) now e" for e
    using one_by_id [OF assms(1) that(1) assms(2)] that(2) by (simp add: claimable_def)
  then show "pairings (consumed_state (da_id d) now s) = (pairings s)(da_id d := Used)"
    unfolding consumed_state_def
    by (subst pairings_update_one [where P = "claimable (da_id d) now", OF _ assms(2,1,3)]) simp_all
  show "device_ok (consumed_state (da_id d) now s)"
    unfolding consumed_state_def by (rule device_ok_update [OF assms(1)]) simp_all
qed

lemma claim_rows:
  assumes "device_ok s" "d \<in> set (device_authorizations s)" "claimable (da_id d) now d"
  shows "pairings (snd (claim cr draw (da_id d) now ctx s)) = (pairings s)(da_id d := Used) \<and>
    device_ok (snd (claim cr draw (da_id d) now ctx s))"
proof -
  have sel: "select_first (claimable (da_id d) now) (device_authorizations s) = Some d"
  proof (cases "select_first (claimable (da_id d) now) (device_authorizations s)")
    case None
    with assms(2,3) show ?thesis by (auto simp: select_first_None)
  next
    case (Some e)
    note e = select_first_Some [OF Some]
    with one_by_id [OF assms(1) e(1) assms(2)] Some show ?thesis by (simp add: claimable_def)
  qed
  let ?s1 = "consumed_state (da_id d) now s"
  have touch: "pairings (s'\<lparr>device_authorizations := update_where P (\<lambda>r. r\<lparr>da_api_key_id := k\<rparr>) (device_authorizations s')\<rparr>) = pairings s'"
    for s' P k by (rule pairings_touch) simp_all
  have ok_touch: "device_ok (s'\<lparr>device_authorizations := update_where P (\<lambda>r. r\<lparr>da_api_key_id := k\<rparr>) (device_authorizations s')\<rparr>)"
    if "device_ok s'" for s' P k
    using that by (intro device_ok_update) (simp_all add: device_ok_def)
  obtain u a where ua: "da_user_id d = Some u" "da_access d = Some a"
    using assms by (auto simp: device_ok_def claimable_def)
  have s1: "s\<lparr>device_authorizations := update_where (claimable (da_id d) now)
      (\<lambda>r. r\<lparr>da_status := DvConsumed, da_last_polled_at := Some now\<rparr>) (device_authorizations s)\<rparr> = ?s1"
    by (simp add: consumed_state_def consume_def [abs_def])
  note c = consumed_state [OF assms]
  let ?key = "create_key cr (cd_key_id draw) (cd_secret draw) now u
      (''CLI: '' @ da_client_name d) (Some (access_scopes a)) (da_key_expires_in_days d) ?s1"
  have key: "device_authorizations (snd ?key) = device_authorizations ?s1"
    by (simp add: create_key_def Let_def)
  show ?thesis
  proof (cases "user_by_id u ?s1")
    case None
    then show ?thesis using c by (simp add: claim_def sel s1 ua)
  next
    case (Some acc)
    then have acc: "us_id acc = u" using user_by_idD by blast
    show ?thesis
    proof (cases "us_disabled acc")
      case True
      then show ?thesis using c Some by (simp add: claim_def sel s1 ua)
    next
      case False
      let ?s3 = "(snd ?key)\<lparr>device_authorizations := update_where (\<lambda>r. da_id r = da_id d)
          (\<lambda>r. r\<lparr>da_api_key_id := Some (ck_id (fst ?key))\<rparr>) (device_authorizations (snd ?key))\<rparr>"
      have rows: "device_authorizations (snd (claim cr draw (da_id d) now ctx s)) = device_authorizations ?s3"
        using False Some acc by (simp add: claim_def sel s1 ua split_beta record_audit_def Let_def)
      have "pairings ?s3 = pairings ?s1" unfolding touch using key by (rule pairings_cong)
      moreover have "device_ok ?s3" by (rule ok_touch) (rule device_ok_cong [OF key c(2)])
      ultimately show ?thesis
        using c(1) pairings_cong [OF rows] device_ok_cong [OF rows] by simp
    qed
  qed
qed

lemma exchange_simulates:
  assumes "device_ok s"
  shows "device_ok (device_exec cr (CallExchange draw code now ctx) s) \<and>
    spec_step (pairings s) (device_label cr (CallExchange draw code now ctx) s)
      (pairings (device_exec cr (CallExchange draw code now ctx) s))"
proof (cases "row_to_claim cr code now s")
  case None
  have touch: "pairings (s\<lparr>device_authorizations := update_where P (\<lambda>r. r\<lparr>da_last_polled_at := k\<rparr>) (device_authorizations s)\<rparr>) = pairings s"
    for P k by (rule pairings_touch) simp_all
  have ok_touch: "device_ok (s\<lparr>device_authorizations := update_where P (\<lambda>r. r\<lparr>da_last_polled_at := k\<rparr>) (device_authorizations s)\<rparr>)"
    for P k using assms by (intro device_ok_update) (simp_all add: device_ok_def)
  have "pairings (snd (exchange cr draw code now ctx s)) = pairings s \<and> device_ok (snd (exchange cr draw code now ctx s))"
  proof (cases "select_first (\<lambda>d. da_device_code_hash d = hashToken cr code) (device_authorizations s)")
    case (Some d)
    with None show ?thesis
      by (cases "da_status d") (simp_all add: exchange_def row_to_claim_def touch ok_touch assms Let_def split: if_splits)
  qed (simp add: exchange_def assms)
  with None show ?thesis by (simp add: spec_nothing)
next
  case (Some d)
  then have d: "select_first (\<lambda>d. da_device_code_hash d = hashToken cr code) (device_authorizations s) = Some d"
    "da_status d = DvApproved" "da_expires_at d > now"
    by (auto simp: row_to_claim_def split: option.splits if_splits)
  note din = select_first_Some(1) [OF d(1)]
  have ex: "exchange cr draw code now ctx s = claim cr draw (da_id d) now ctx s"
    using d by (simp add: exchange_def)
  have "claimable (da_id d) now d" using d by (simp add: claimable_def)
  note rows = claim_rows [OF assms din this, of cr draw ctx]
  obtain u a where "da_user_id d = Some u" "da_access d = Some a"
    using assms din d(2) by (auto simp: device_ok_def)
  then have g: "pairing_of d = Granted u a (da_key_expires_in_days d)" by (simp add: pairing_of_def d(2))
  with device_row [OF assms din] have m: "pairings s (da_id d) = Granted u a (da_key_expires_in_days d)" by simp
  show ?thesis
    using rows spec_issue [of "pairings s" "da_id d", OF m] spec_burn [of "pairings s" "da_id d", OF m]
    by (cases "fst (claim cr draw (da_id d) now ctx s)") (simp_all add: ex Some g)
qed

lemma revoke_simulates:
  assumes "device_ok s"
  shows "device_ok (device_exec cr (CallRevoke u) s) \<and>
    spec_step (pairings s) (device_label cr (CallRevoke u) s) (pairings (device_exec cr (CallRevoke u) s))"
proof -
  have "device_authorizations (snd (revokeCurrentKey u s)) = device_authorizations s \<or>
    (\<exists>P. device_authorizations (snd (revokeCurrentKey u s)) =
       update_where P (\<lambda>r. r\<lparr>da_api_key_id := None\<rparr>) (device_authorizations s))"
    by (auto simp: revokeCurrentKey_def remove_key_def Let_def split: auth_via.splits option.splits)
  then obtain P where P: "device_authorizations (snd (revokeCurrentKey u s)) = device_authorizations s \<or>
      device_authorizations (snd (revokeCurrentKey u s)) =
        device_authorizations (s\<lparr>device_authorizations := update_where P (\<lambda>r. r\<lparr>da_api_key_id := None\<rparr>) (device_authorizations s)\<rparr>)"
    by auto
  have "pairings (s\<lparr>device_authorizations := update_where P (\<lambda>r. r\<lparr>da_api_key_id := None\<rparr>) (device_authorizations s)\<rparr>) = pairings s"
    by (rule pairings_touch) simp_all
  moreover have "device_ok (s\<lparr>device_authorizations := update_where P (\<lambda>r. r\<lparr>da_api_key_id := None\<rparr>) (device_authorizations s)\<rparr>)"
    using assms by (intro device_ok_update) (simp_all add: device_ok_def)
  ultimately have "pairings (snd (revokeCurrentKey u s)) = pairings s \<and> device_ok (snd (revokeCurrentKey u s))"
    using P pairings_cong device_ok_cong assms by metis
  then show ?thesis by (simp add: spec_nothing)
qed

lemma device_simulates:
  assumes "device_ok s" "device_enabled c s"
  shows "device_ok (device_exec cr c s) \<and> spec_step (pairings s) (device_label cr c s) (pairings (device_exec cr c s))"
proof (cases c)
  case (CallRequest draw i now code name ctx)
  show ?thesis unfolding CallRequest
    by (rule request_simulates [OF assms(1)]) (use assms(2) CallRequest in simp)
next
  case (CallExchange draw code now ctx)
  show ?thesis unfolding CallExchange by (rule exchange_simulates [OF assms(1)])
next
  case (CallLookup now code)
  with assms(1) show ?thesis by (simp add: spec_nothing)
next
  case (CallApprove now u code a n)
  show ?thesis unfolding CallApprove by (rule approve_simulates [OF assms(1)])
next
  case (CallDeny now u code)
  show ?thesis unfolding CallDeny by (rule deny_simulates [OF assms(1)])
next
  case (CallRevoke u)
  show ?thesis unfolding CallRevoke by (rule revoke_simulates [OF assms(1)])
next
  case (CallPurge now)
  show ?thesis unfolding CallPurge by (rule purge_simulates [OF assms(1)])
qed

interpretation dev: simulation "device_exec cr" device_enabled device_ok pairings "device_label cr" spec_step for cr
  by unfold_locales (simp_all add: device_simulates)

section \<open>A pairing yields one key\<close>

fun issues :: "uuid \<Rightarrow> device_event \<Rightarrow> nat" where
  "issues i (Issue j _ _ _) = (if i = j then 1 else 0)"
| "issues i _ = 0"

fun starts :: "uuid \<Rightarrow> device_event \<Rightarrow> nat" where
  "starts i (Start j) = (if i = j then 1 else 0)"
| "starts i _ = 0"

definition may_issue :: "pairing \<Rightarrow> nat" where
  "may_issue p = (case p of Waiting \<Rightarrow> 1 | Granted _ _ _ \<Rightarrow> 1 | _ \<Rightarrow> 0)"

lemma spec_step_issues: "spec_step m e m' \<Longrightarrow> issues i e + may_issue (m' i) \<le> starts i e + may_issue (m i)"
  by (induction rule: spec_step.induct) (auto simp: may_issue_def)

fun run_device :: "crypto \<Rightarrow> device_call list \<Rightarrow> server \<Rightarrow> server" where
  "run_device cr [] s = s"
| "run_device cr (c # cs) s = run_device cr cs (device_exec cr c s)"

fun calls_enabled :: "crypto \<Rightarrow> device_call list \<Rightarrow> server \<Rightarrow> bool" where
  "calls_enabled cr [] s = True"
| "calls_enabled cr (c # cs) s = (device_enabled c s \<and> calls_enabled cr cs (device_exec cr c s))"

fun device_trace :: "crypto \<Rightarrow> device_call list \<Rightarrow> server \<Rightarrow> device_event list" where
  "device_trace cr [] s = []"
| "device_trace cr (c # cs) s = device_label cr c s # device_trace cr cs (device_exec cr c s)"

lemma dev_run: "dev.run cr cs s = run_device cr cs s" "dev.run_enabled cr cs s = calls_enabled cr cs s"
  "dev.labels cr cs s = device_trace cr cs s"
  by (induction cs arbitrary: s) simp_all

section \<open>Codes survive being typed\<close>

lemma alphabet_upper: "c \<in> set USER_CODE_ALPHABET \<Longrightarrow> upper_char c = c \<and> \<not> js_space c \<and> c \<noteq> CHR ''-''"
  by (auto simp: USER_CODE_ALPHABET_def upper_char_def js_space_def)

lemma generated_code: "USER_CODE_RE (generateUserCode r)"
proof -
  have "USER_CODE_ALPHABET ! (n mod length USER_CODE_ALPHABET) \<in> set USER_CODE_ALPHABET" for n
    by (rule nth_mem) (simp add: USER_CODE_ALPHABET_def)
  then show ?thesis by (simp add: USER_CODE_RE_def generateUserCode_def list_all_iff)
qed

lemma normalize_format:
  assumes "USER_CODE_RE code"
  shows "normalizeUserCode (formatUserCode code) = Some code"
proof -
  have c: "\<forall>c \<in> set code. upper_char c = c \<and> \<not> js_space c \<and> c \<noteq> CHR ''-''"
    using assms alphabet_upper by (auto simp: USER_CODE_RE_def list_all_iff)
  have up: "map upper_char xs = xs" "filter (\<lambda>c. \<not> js_space c \<and> c \<noteq> CHR ''-'') xs = xs"
    if "set xs \<subseteq> set code" for xs
    using that c by (auto intro!: map_idI filter_True)
  have "upper_char (CHR ''-'') = CHR ''-''" by code_simp
  then have "filter (\<lambda>c. \<not> js_space c \<and> c \<noteq> CHR ''-'') (to_upper (formatUserCode code)) = take 4 code @ drop 4 code"
    using up(1) [of "take 4 code"] up(1) [of "drop 4 code"] up(2) [of "take 4 code"] up(2) [of "drop 4 code"]
    by (simp add: to_upper_def formatUserCode_def set_take_subset set_drop_subset)
  with assms show ?thesis by (simp add: normalizeUserCode_def)
qed

section \<open>Theorems\<close>


text \<open>
  A device code yields at most one key: in any sequence of calls on the pairing service,
  the number of keys issued for a pairing is at most the number of times that pairing was
  started (plus one if it was already waiting or granted at the beginning), however often
  the client polls and whatever is approved, denied or purged in between.
\<close>

theorem one_key_per_pairing:
  assumes "device_ok s" "calls_enabled cr cs s"
  shows "sum_list (map (issues i) (device_trace cr cs s)) \<le>
    sum_list (map (starts i) (device_trace cr cs s)) + may_issue (pairings s i)"
proof -
  have "dev.spec_run (pairings s) (device_trace cr cs s) (pairings (run_device cr cs s))"
    using dev.run_refines [OF assms(1), of cr cs] assms(2) by (simp add: dev_run)
  then have "sum_list (map (issues i) (device_trace cr cs s)) + may_issue (pairings (run_device cr cs s) i) \<le>
    sum_list (map (starts i) (device_trace cr cs s)) + may_issue (pairings s i)"
    by (rule dev.spec_run_bound [where gain = "issues i" and credit = "starts i" and rest = "\<lambda>m. may_issue (m i)", rotated])
      (rule spec_step_issues)
  then show ?thesis by simp
qed

definition sample_pairing :: device_authorization where
  "sample_pairing = (pairing_row sample_crypto ''d1'' 0 ''dev'' ''BCDFGHJK'' ''laptop'' \<lparr>dc_ip = None, dc_user_agent = None\<rparr>)
     \<lparr>da_status := DvApproved, da_user_id := Some ''u1'', da_access := Some DaRead, da_key_expires_in_days := Some 30\<rparr>"

definition sample_draw :: claim_draw where
  "sample_draw = \<lparr>cd_key_id = ''k9'', cd_secret = ''sec'', cd_audit_id = ''e9'', cd_audit_ok = True\<rparr>"

definition paired_server :: server where
  "paired_server = key_server\<lparr>device_authorizations := [sample_pairing]\<rparr>"

lemma paired_server_ok: "device_ok paired_server"
  by (simp add: device_ok_def paired_server_def sample_pairing_def)


lemma exchange_no_start: "starts i (device_label cr (CallExchange draw code now ctx) s) = 0"
  by (simp split: option.split device_token.split pairing.split)

theorem one_key_per_pairing_witness:
  "sum_list (map (issues ''d1'') (device_trace sample_crypto
      [CallExchange sample_draw ''dev'' 1000 \<lparr>dc_ip = None, dc_user_agent = None\<rparr>,
       CallExchange sample_draw ''dev'' 1001 \<lparr>dc_ip = None, dc_user_agent = None\<rparr>] paired_server)) \<le> 1"
proof -
  let ?cs = "[CallExchange sample_draw ''dev'' 1000 \<lparr>dc_ip = None, dc_user_agent = None\<rparr>,
       CallExchange sample_draw ''dev'' 1001 \<lparr>dc_ip = None, dc_user_agent = None\<rparr>]"
  have z: "sum_list (map (starts ''d1'') (device_trace sample_crypto ?cs paired_server)) = 0"
    by (simp del: device_label.simps device_exec.simps add: exchange_no_start)
  have en: "calls_enabled sample_crypto ?cs paired_server" by (simp del: device_exec.simps)
  have m: "may_issue (pairings paired_server ''d1'') \<le> 1"
    by (cases "pairings paired_server ''d1''") (simp_all add: may_issue_def)
  have "sum_list (map (issues ''d1'') (device_trace sample_crypto ?cs paired_server)) \<le>
    may_issue (pairings paired_server ''d1'')"
    using one_key_per_pairing [OF paired_server_ok en, of "''d1''"] unfolding z add_0 .
  then show ?thesis using m by (rule le_trans)
qed

text \<open>
  The key handed to the client is the one its approver granted: when a poll returns a key,
  the pairing had been granted by a user who still exists and is not disabled, exactly one
  key is added, it belongs to that user, carries the granted access and is stored only as a
  hash, and the pairing is used up.
\<close>

theorem device_key_matches_grant:
  assumes "device_ok s" "exchange cr draw code now ctx s = (TkApproved key email a e, s')"
  shows "\<exists>d u n acc k. row_to_claim cr code now s = Some d \<and> pairings s (da_id d) = Granted u a n \<and>
    user_by_id u s = Some acc \<and> \<not> us_disabled acc \<and> us_email acc = email \<and>
    api_keys s' = api_keys s @ [k] \<and> ak_user_id k = u \<and> ak_scopes k = access_scopes a \<and>
    ak_key_hash k = hashToken cr key \<and> pairings s' (da_id d) = Used"
proof -
  from assms(2) obtain d where d: "select_first (\<lambda>d. da_device_code_hash d = hashToken cr code) (device_authorizations s) = Some d"
    by (cases "select_first (\<lambda>d. da_device_code_hash d = hashToken cr code) (device_authorizations s)")
      (simp_all add: exchange_def)
  with assms(2) have st: "da_status d = DvApproved" "da_expires_at d > now"
    by (cases "da_status d"; auto simp: exchange_def Let_def split: if_splits)+
  then have rc: "row_to_claim cr code now s = Some d" by (simp add: row_to_claim_def d)
  note din = select_first_Some(1) [OF d]
  have cl: "claimable (da_id d) now d" using st by (simp add: claimable_def)
  from assms(2) d st have ex: "claim cr draw (da_id d) now ctx s = (TkApproved key email a e, s')"
    by (simp add: exchange_def)
  obtain u b where ub: "da_user_id d = Some u" "da_access d = Some b"
    using assms(1) din st(1) by (auto simp: device_ok_def)
  have used: "pairings s' (da_id d) = Used"
    using claim_rows [OF assms(1) din cl, of cr draw ctx] ex by simp
  obtain d' where d': "select_first (claimable (da_id d) now) (device_authorizations s) = Some d'"
    using cl din by (cases "select_first (claimable (da_id d) now) (device_authorizations s)") (auto simp: select_first_None)
  have "d' = d" using one_by_id [OF assms(1) select_first_Some(1) [OF d'] din] select_first_Some(2) [OF d']
    by (simp add: claimable_def)
  note sel = d' [unfolded this]
  have uid: "user_by_id u (s\<lparr>device_authorizations := x\<rparr>) = user_by_id u s" for x by (simp add: user_by_id_def)
  from ex obtain acc where acc: "user_by_id u s = Some acc" "\<not> us_disabled acc"
    by (cases "user_by_id u s") (auto simp: claim_def sel ub uid Let_def split: if_splits)
  then have "us_id acc = u" using user_by_idD by blast
  with ex acc have "b = a" "us_email acc = email" "\<exists>k. api_keys s' = api_keys s @ [k] \<and> ak_user_id k = u \<and>
      ak_scopes k = access_scopes a \<and> ak_key_hash k = hashToken cr key"
    by (auto simp: claim_def sel ub uid Let_def create_key_def record_audit_def insert_row_def split_beta split: if_splits)
  moreover have "pairings s (da_id d) = Granted u b (da_key_expires_in_days d)"
    using device_row [OF assms(1) din] by (simp add: pairing_of_def st(1) ub)
  ultimately show ?thesis using rc acc used by blast
qed

theorem device_key_matches_grant_witness:
  "\<exists>k. api_keys (snd (exchange sample_crypto sample_draw ''dev'' 1000 \<lparr>dc_ip = None, dc_user_agent = None\<rparr> paired_server)) =
     [sample_key, k] \<and> ak_scopes k = access_scopes DaRead"
proof -
  let ?r = "exchange sample_crypto sample_draw ''dev'' 1000 \<lparr>dc_ip = None, dc_user_agent = None\<rparr> paired_server"
  have "\<exists>key email e. fst ?r = TkApproved key email DaRead e"
    by (simp add: exchange_def claim_def paired_server_def sample_pairing_def pairing_row_def sample_crypto_def hashToken_def
        select_first_def claimable_def DEVICE_CODE_TTL_SECONDS_def user_by_id_def key_server_def sample_account_def split_beta Let_def)
  then obtain key email e where r: "?r = (TkApproved key email DaRead e, snd ?r)" by (metis prod.collapse)
  have "api_keys paired_server = [sample_key]" by (simp add: paired_server_def key_server_def)
  then show ?thesis using device_key_matches_grant [OF paired_server_ok r] by auto
qed

text \<open>
  The user code survives being displayed and typed: a generated code has the required
  form, and the displayed form with its dash is read back as the code that was stored.
\<close>

theorem user_code_roundtrip:
  "USER_CODE_RE (generateUserCode r) \<and>
   normalizeUserCode (formatUserCode (generateUserCode r)) = Some (generateUserCode r)"
  using generated_code normalize_format by blast

end
