(* ===== verification/Controllers.thy ===== *)
theory Controllers
  imports DeviceAuth Agents Notifications Passkeys
begin

text \<open>
  The controllers of accounts, keys, settings, channels, agents and pairings, with the route metadata
  their decorators declare: \<open>auth/users.controller.ts\<close>, \<open>auth/api-keys.controller.ts\<close>,
  \<open>auth/device-auth.controller.ts\<close>, the forwarding routes of \<open>auth/auth.controller.ts\<close>,
  \<open>settings/settings.controller.ts\<close>, \<open>notifications/notifications.controller.ts\<close>,
  \<open>agents/agents.controller.ts\<close> and \<open>agents/agent-api.controller.ts\<close>. Every route is a constructor of
  a type of calls; a call has its HTTP method, its metadata and its handler, and a request is served
  by the guard followed by the handler. The theorems are about requests, not handlers: who can
  change what, whatever is sent.
\<close>

section \<open>Decorators\<close>

datatype decorator = Public | RequireAdmin | AllowAdminApiKey | NoApiKey | AnyApiKeyScope

text \<open>
  \<open>Reflector.getAllAndOverride\<close> takes the metadata of the handler, or else of the class; all flags in
  use are either absent or true. No route declares a required action.
\<close>

definition meta :: "decorator list \<Rightarrow> decorator list \<Rightarrow> route_meta" where
  "meta handler cls =
     (let has = (\<lambda>d. d \<in> set handler \<or> d \<in> set cls)
      in \<lparr>rm_public = has Public, rm_admin = has RequireAdmin, rm_admin_key = has AllowAdminApiKey, rm_action = None,
          rm_no_key = has NoApiKey, rm_any_scope = has AnyApiKeyScope\<rparr>)"

text \<open>
  What the routes share: configuration and libraries, the listeners of the time zone, the name lists
  drawn for providers; and what a request draws: time, ids, salts and tokens.
\<close>

record api_env =
  ae_login :: login_env
  ae_webauthn :: webauthn_lib
  ae_tz :: tz_env
  ae_listeners :: "(string \<Rightarrow> server \<Rightarrow> server) list"
  ae_agent_version :: "string option"

record api_draw =
  ad_now :: time
  ad_id :: uuid
  ad_iv :: string
  ad_token :: string
  ad_salt :: string
  ad_names :: "nat \<Rightarrow> string"
  ad_more_names :: "nat \<Rightarrow> string"
  ad_ivs :: "nat \<Rightarrow> string"
  ad_fresh :: fresh
  ad_enroll :: enroll_fresh
  ad_claim :: claim_draw

definition ae_config :: "api_env \<Rightarrow> config" where
  "ae_config x = lg_config (ae_login x)"

definition ae_crypto :: "api_env \<Rightarrow> crypto" where
  "ae_crypto x = lg_crypto (ae_login x)"

definition guarded ::
  "api_env \<Rightarrow> api_draw \<Rightarrow> route_meta \<Rightarrow> http_request \<Rightarrow> (request_user option \<Rightarrow> server \<Rightarrow> 'a result \<times> server) \<Rightarrow> server
    \<Rightarrow> 'a result \<times> server" where
  "guarded x d m req handler s =
     (case canActivate (ae_config x) (lg_jwt (ae_login x)) (ae_crypto x) m (ad_now d) req s of
        (Inl e, s1) \<Rightarrow> (Inl e, s1)
      | (Inr u, s1) \<Rightarrow> handler u s1)"

text \<open>A reading handler, and one that cannot fail.\<close>

definition reads :: "(server \<Rightarrow> 'a result) \<Rightarrow> server \<Rightarrow> 'a result \<times> server" where
  "reads f s = (f s, s)"

definition always :: "(server \<Rightarrow> 'a \<times> server) \<Rightarrow> server \<Rightarrow> 'a result \<times> server" where
  "always f s = (case f s of (r, s1) \<Rightarrow> (Inr r, s1))"

definition replying :: "('a \<Rightarrow> 'b) \<Rightarrow> (server \<Rightarrow> 'a result \<times> server) \<Rightarrow> server \<Rightarrow> 'b result \<times> server" where
  "replying f h s = (case h s of (Inl e, s1) \<Rightarrow> (Inl e, s1) | (Inr r, s1) \<Rightarrow> (Inr (f r), s1))"

section \<open>Users\<close>

datatype users_call =
    UsersList
  | UsersCreate create_user_dto
  | UsersGet uuid
  | UsersUpdate uuid update_user_dto
  | UsersEnable uuid
  | UsersRemove uuid
  | UsersListGrants uuid
  | UsersAddGrant uuid resource_type uuid access_level
  | UsersRemoveGrant uuid uuid

datatype users_reply = RUsers "public_user list" | RUser public_user | RGrants "resource_grant list" | RUsersOk

fun users_method :: "users_call \<Rightarrow> string" where
  "users_method UsersList = ''GET''"
| "users_method (UsersCreate _) = ''POST''"
| "users_method (UsersGet _) = ''GET''"
| "users_method (UsersUpdate _ _) = ''PATCH''"
| "users_method (UsersEnable _) = ''POST''"
| "users_method (UsersRemove _) = ''DELETE''"
| "users_method (UsersListGrants _) = ''GET''"
| "users_method (UsersAddGrant _ _ _ _) = ''POST''"
| "users_method (UsersRemoveGrant _ _) = ''DELETE''"

fun users_handler :: "api_env \<Rightarrow> api_draw \<Rightarrow> users_call \<Rightarrow> request_user option \<Rightarrow> server \<Rightarrow> users_reply result \<times> server" where
  "users_handler x d UsersList _ = reads (\<lambda>s. Inr (RUsers (users_list s)))"
| "users_handler x d (UsersCreate dto) _ =
     replying RUser (create_user (lg_argon (ae_login x)) (ad_salt d) (ad_id d) dto AsLocal)"
| "users_handler x d (UsersGet i) _ = replying RUser (reads (\<lambda>s. findById s i))"
| "users_handler x d (UsersUpdate i dto) _ = replying RUser (update_user (lg_argon (ae_login x)) (ad_salt d) (ad_names d) i dto)"
| "users_handler x d (UsersEnable i) _ = replying RUser (enable_user (lg_argon (ae_login x)) (ad_salt d) (ad_names d) i)"
| "users_handler x d (UsersRemove i) _ = replying (\<lambda>_. RUsersOk) (remove_user i)"
| "users_handler x d (UsersListGrants i) _ = reads (\<lambda>s. Inr (RGrants (listGrants s i)))"
| "users_handler x d (UsersAddGrant i t r l) _ = replying (\<lambda>_. RUsersOk) (addGrant (ad_id d) i t r l)"
| "users_handler x d (UsersRemoveGrant i g) _ = always (\<lambda>s. (RUsersOk, removeGrant i g s))"

definition users_meta :: route_meta where
  "users_meta = meta [] [RequireAdmin]"

section \<open>API keys\<close>

datatype keys_call = KeysList | KeysCreate string "api_key_scopes option" "nat option" | KeysRemove uuid

datatype keys_reply = RKeys "api_key list" | RKey created_key | RKeysOk

fun keys_method :: "keys_call \<Rightarrow> string" where
  "keys_method KeysList = ''GET''"
| "keys_method (KeysCreate _ _ _) = ''POST''"
| "keys_method (KeysRemove _) = ''DELETE''"

fun keys_handler :: "api_env \<Rightarrow> api_draw \<Rightarrow> keys_call \<Rightarrow> request_user \<Rightarrow> server \<Rightarrow> keys_reply result \<times> server" where
  "keys_handler x d KeysList u = reads (\<lambda>s. Inr (RKeys (keys_list s (ru_id u))))"
| "keys_handler x d (KeysCreate name scopes days) u =
     replying RKey (always (create_key (ae_crypto x) (ad_id d) (ad_token d) (ad_now d) (ru_id u) name scopes days))"
| "keys_handler x d (KeysRemove i) u = replying (\<lambda>_. RKeysOk) (remove_key (ru_id u) i)"

definition keys_meta :: route_meta where
  "keys_meta = meta [] [NoApiKey]"

section \<open>Settings\<close>

datatype settings_call =
    SettingsSystem
  | SettingsApp
  | SettingsTimezone string
  | SettingsAgents nat
  | SettingsAuth bool
  | SettingsSso "bool option" "sso_provider_update list option"
  | SettingsAllowlist
  | SettingsSetAllowlist "string list"

datatype settings_reply = RSystem system_view | RTimezone string | RAllowlist allowlist_view

fun settings_method :: "settings_call \<Rightarrow> string" where
  "settings_method SettingsSystem = ''GET''"
| "settings_method SettingsApp = ''GET''"
| "settings_method (SettingsTimezone _) = ''PATCH''"
| "settings_method (SettingsAgents _) = ''PATCH''"
| "settings_method (SettingsAuth _) = ''PATCH''"
| "settings_method (SettingsSso _ _) = ''PUT''"
| "settings_method SettingsAllowlist = ''GET''"
| "settings_method (SettingsSetAllowlist _) = ''PUT''"

fun settings_meta :: "settings_call \<Rightarrow> route_meta" where
  "settings_meta SettingsApp = meta [] []"
| "settings_meta _ = meta [RequireAdmin] []"

text \<open>A change is answered with the new system view.\<close>

definition then_view :: "api_env \<Rightarrow> api_draw \<Rightarrow> (server \<Rightarrow> unit result \<times> server) \<Rightarrow> server \<Rightarrow> settings_reply result \<times> server" where
  "then_view x d change s =
     (case change s of
        (Inl e, s1) \<Rightarrow> (Inl e, s1)
      | (Inr _, s1) \<Rightarrow> replying RSystem (always (getSystemView (ae_config x) (ae_tz x) (ad_names d))) s1)"

fun settings_handler :: "api_env \<Rightarrow> api_draw \<Rightarrow> http_request \<Rightarrow> settings_call \<Rightarrow> server \<Rightarrow> settings_reply result \<times> server" where
  "settings_handler x d req SettingsSystem = replying RSystem (always (getSystemView (ae_config x) (ae_tz x) (ad_names d)))"
| "settings_handler x d req SettingsApp = reads (\<lambda>s. Inr (RTimezone (getTimezone s)))"
| "settings_handler x d req (SettingsTimezone tz) = then_view x d (setTimezone (ae_tz x) (ae_listeners x) tz)"
| "settings_handler x d req (SettingsAgents n) = then_view x d (always (\<lambda>s. ((), setAgentOfflineTimeout n s)))"
| "settings_handler x d req (SettingsAuth b) = then_view x d (setLocalLoginEnabled (ad_names d) b)"
| "settings_handler x d req (SettingsSso en ps) =
     then_view x d (updateSso (ae_crypto x) (ad_names d) (ad_more_names d) (ad_ivs d) en ps)"
| "settings_handler x d req SettingsAllowlist =
     replying RAllowlist (always (allowlist_view_of (ae_config x) (ad_now d) (rq_ip req)))"
| "settings_handler x d req (SettingsSetAllowlist es) =
     replying RAllowlist (update_allowlist (ae_config x) (ad_now d) es (rq_ip req))"

section \<open>Notification channels\<close>

datatype channels_call =
    ChannelsProviders
  | ChannelsList
  | ChannelsCreate create_channel
  | ChannelsGet string
  | ChannelsUpdate string update_channel
  | ChannelsRemove string
  | ChannelsTest string

datatype channels_reply = RCatalog "(string \<times> channel_field list) list" | RChannels "notification_channel list" | RChannel notification_channel
  | RChannelTest bool string | RChannelsOk

fun channels_method :: "channels_call \<Rightarrow> string" where
  "channels_method ChannelsProviders = ''GET''"
| "channels_method ChannelsList = ''GET''"
| "channels_method (ChannelsCreate _) = ''POST''"
| "channels_method (ChannelsGet _) = ''GET''"
| "channels_method (ChannelsUpdate _ _) = ''PATCH''"
| "channels_method (ChannelsRemove _) = ''DELETE''"
| "channels_method (ChannelsTest _) = ''POST''"

definition channels_meta :: route_meta where
  "channels_meta = meta [] [RequireAdmin]"

text \<open>The slug of a route is resolved first.\<close>

definition resolved ::
  "(server \<Rightarrow> (uuid \<times> string) list) \<Rightarrow> string \<Rightarrow> (uuid \<Rightarrow> server \<Rightarrow> 'a result \<times> server) \<Rightarrow> server \<Rightarrow> 'a result \<times> server" where
  "resolved slugs k h s = (case slug_resolve (slugs s) k of Inl e \<Rightarrow> (Inl e, s) | Inr i \<Rightarrow> h i s)"

definition test_message :: "config \<Rightarrow> notification_message" where
  "test_message cfg =
     \<lparr>nm_success = True, nm_title = emoji_ok @ '' Amber Backup test notification'',
      nm_body = ''This is a test message from Amber Backup. Your channel works.'', nm_job_name = ''Test'',
      nm_url = base_url cfg, nm_meta = None, nm_table = None\<rparr>"

definition channel_test :: "crypto \<Rightarrow> config \<Rightarrow> uuid \<Rightarrow> server \<Rightarrow> (bool \<times> string) result \<times> server" where
  "channel_test c cfg i s =
     (case channel_getRow s i of
        Inl e \<Rightarrow> (Inl e, s)
      | Inr ch \<Rightarrow>
          (case deliver c s ch (test_message cfg) of
             Inl e \<Rightarrow> (Inr (False, Targets.error_message e), s)
           | Inr _ \<Rightarrow> (Inr (True, ''Test notification sent.''), deliver_all c [ch] (test_message cfg) s)))"

fun channels_handler ::
  "api_env \<Rightarrow> api_draw \<Rightarrow> channels_call \<Rightarrow> request_user \<Rightarrow> server \<Rightarrow> channels_reply result \<times> server" where
  "channels_handler x d ChannelsProviders u = reads (\<lambda>s. Inr (RCatalog (map (\<lambda>c. (cd_type c, cd_fields c)) CHANNELS)))"
| "channels_handler x d ChannelsList u = reads (\<lambda>s. Inr (RChannels (map channel_toPublic (notification_channels s))))"
| "channels_handler x d (ChannelsCreate dto) u = replying RChannel (channel_create (ae_crypto x) (ad_fresh d) u dto)"
| "channels_handler x d (ChannelsGet k) u =
     replying (\<lambda>ch. RChannel (channel_toPublic ch)) (resolved channel_slugs k (\<lambda>i. reads (\<lambda>s. channel_getRow s i)))"
| "channels_handler x d (ChannelsUpdate k dto) u =
     replying RChannel (resolved channel_slugs k (\<lambda>i. channel_update (ae_crypto x) (ad_fresh d) i dto))"
| "channels_handler x d (ChannelsRemove k) u = replying (\<lambda>_. RChannelsOk) (resolved channel_slugs k channel_remove)"
| "channels_handler x d (ChannelsTest k) u =
     replying (\<lambda>(ok, m). RChannelTest ok m) (resolved channel_slugs k (channel_test (ae_crypto x) (ae_config x)))"

section \<open>Agents, as administrators see them\<close>

datatype agents_call =
    AgentsList
  | AgentsCreateToken "string option" "nat option" "deploy_method option"
  | AgentsGlobal
  | AgentsSetGlobal bool
  | AgentsRotateGlobal
  | AgentsGet string
  | AgentsUpdate string update_agent
  | AgentsRemove string

datatype agents_reply = RAgents "agent list" | RAgent agent | REnrollment enrollment_response
  | RGlobalInfo "bool \<times> string option \<times> (string \<times> string) list option" | RGlobal global_view | RAgentsOk

fun agents_method :: "agents_call \<Rightarrow> string" where
  "agents_method AgentsList = ''GET''"
| "agents_method (AgentsCreateToken _ _ _) = ''POST''"
| "agents_method AgentsGlobal = ''GET''"
| "agents_method (AgentsSetGlobal _) = ''PATCH''"
| "agents_method AgentsRotateGlobal = ''POST''"
| "agents_method (AgentsGet _) = ''GET''"
| "agents_method (AgentsUpdate _ _) = ''PATCH''"
| "agents_method (AgentsRemove _) = ''DELETE''"

fun agents_meta :: "agents_call \<Rightarrow> route_meta" where
  "agents_meta AgentsList = meta [RequireAdmin, AllowAdminApiKey] []"
| "agents_meta (AgentsCreateToken _ _ _) = meta [RequireAdmin, AllowAdminApiKey] []"
| "agents_meta (AgentsGet _) = meta [RequireAdmin, AllowAdminApiKey] []"
| "agents_meta _ = meta [RequireAdmin] []"

definition agent_get :: "server \<Rightarrow> uuid \<Rightarrow> agent result" where
  "agent_get s i = (case agent_by_id i s of None \<Rightarrow> Inl (NotFound ''Agent not found'') | Some a \<Rightarrow> Inr (agent_toPublic a))"

fun agents_handler :: "api_env \<Rightarrow> api_draw \<Rightarrow> agents_call \<Rightarrow> request_user \<Rightarrow> server \<Rightarrow> agents_reply result \<times> server" where
  "agents_handler x d AgentsList u = reads (\<lambda>s. Inr (RAgents (map agent_toPublic (agents s))))"
| "agents_handler x d (AgentsCreateToken name mins dm) u =
     replying REnrollment (always (createEnrollmentToken (ae_crypto x) (ae_config x) (ad_now d) (ad_id d) (ad_token d) (ru_id u) name mins dm))"
| "agents_handler x d AgentsGlobal u = replying RGlobalInfo (reads (globalEnrollmentInfo (ae_crypto x) (ae_config x)))"
| "agents_handler x d (AgentsSetGlobal b) u = replying RGlobal (setGlobalEnrollment (ae_crypto x) (ad_iv d) (ad_token d) b)"
| "agents_handler x d AgentsRotateGlobal u = replying RGlobal (always (rotateGlobalToken (ae_crypto x) (ad_iv d) (ad_token d)))"
| "agents_handler x d (AgentsGet k) u = replying RAgent (resolved agent_slugs k (\<lambda>i. reads (\<lambda>s. agent_get s i)))"
| "agents_handler x d (AgentsUpdate k dto) u = replying RAgent (resolved agent_slugs k (\<lambda>i. agent_update (ad_now d) i dto))"
| "agents_handler x d (AgentsRemove k) u =
     replying (\<lambda>_. RAgentsOk) (resolved agent_slugs k (\<lambda>i. always (\<lambda>s. ((), agent_remove i s))))"

section \<open>The agents' own API\<close>

text \<open>All its routes are public to the users' guard; those under \<open>me\<close> have the agents' guard.\<close>

datatype agent_api_call =
    ApiEnroll enroll_dto
  | ApiPoll poll_dto
  | ApiProgress string json
  | ApiState string
  | ApiResult string task_result

datatype agent_api_reply = REnrolled uuid string | RTasks "agent_task list" nat "string option" | RCancelled bool | RAgentApiOk

definition by_agent ::
  "api_env \<Rightarrow> http_request \<Rightarrow> (Guard.request_agent \<Rightarrow> server \<Rightarrow> 'a result \<times> server) \<Rightarrow> server \<Rightarrow> 'a result \<times> server" where
  "by_agent x req h s = (case agent_canActivate (ae_crypto x) req s of Inl e \<Rightarrow> (Inl e, s) | Inr a \<Rightarrow> h a s)"

fun agent_api :: "api_env \<Rightarrow> api_draw \<Rightarrow> http_request \<Rightarrow> agent_api_call \<Rightarrow> server \<Rightarrow> agent_api_reply result \<times> server" where
  "agent_api x d req (ApiEnroll dto) =
     replying (\<lambda>(i, key). REnrolled i key) (enroll (ae_crypto x) (ad_now d) (ad_enroll d) dto)"
| "agent_api x d req (ApiPoll dto) =
     by_agent x req (\<lambda>a. replying (\<lambda>(ts, n, v). RTasks ts n v)
       (poll (ae_crypto x) (ad_now d) (ae_agent_version x)
         (Agents.request_agent.make (Guard.request_agent.ra_id a) (Guard.request_agent.ra_ip a)) dto))"
| "agent_api x d req (ApiProgress i stats) =
     by_agent x req (\<lambda>a. always (\<lambda>s. (RAgentApiOk, submitProgress (ad_now d) (Guard.request_agent.ra_id a) i stats s)))"
| "agent_api x d req (ApiState i) =
     by_agent x req (\<lambda>a. replying RCancelled (taskState (ad_now d) (Guard.request_agent.ra_id a) i))"
| "agent_api x d req (ApiResult i dto) =
     by_agent x req (\<lambda>a. replying (\<lambda>_. RAgentApiOk) (submitResult (ad_now d) (ad_id d) (Guard.request_agent.ra_id a) i dto))"

section \<open>Device pairing\<close>

datatype pairing_call =
    PairingCode string
  | PairingToken string
  | PairingLookup string
  | PairingApprove string device_access "nat option"
  | PairingDeny string
  | PairingRevokeKey

datatype pairing_reply = RCode code_response | RToken device_token | RPairing pairing_info | RPairingOk

fun pairing_method :: "pairing_call \<Rightarrow> string" where
  "pairing_method (PairingLookup _) = ''GET''"
| "pairing_method PairingRevokeKey = ''DELETE''"
| "pairing_method _ = ''POST''"

fun pairing_meta :: "pairing_call \<Rightarrow> route_meta" where
  "pairing_meta (PairingCode _) = meta [Public] []"
| "pairing_meta (PairingToken _) = meta [Public] []"
| "pairing_meta PairingRevokeKey = meta [AnyApiKeyScope] []"
| "pairing_meta _ = meta [NoApiKey] []"

definition requestContext :: "http_request \<Rightarrow> string option \<Rightarrow> device_context" where
  "requestContext req agent = \<lparr>dc_ip = clientIp (rq_ip req) None, dc_user_agent = agent\<rparr>"

text \<open>\<open>agent\<close> is the user agent header. A public route has no user and its handler asks for none.\<close>

fun pairing_handler ::
  "api_env \<Rightarrow> api_draw \<Rightarrow> http_request \<Rightarrow> string option \<Rightarrow> pairing_call \<Rightarrow> request_user option \<Rightarrow> server
    \<Rightarrow> pairing_reply result \<times> server" where
  "pairing_handler x d req agent (PairingCode name) _ =
     replying RCode (requestCode (ae_crypto x) (ad_names d) (ad_id d) (ad_now d) (ad_token d) name (requestContext req agent))"
| "pairing_handler x d req agent (PairingToken code) _ =
     replying RToken (always (exchange (ae_crypto x) (ad_claim d) code (ad_now d) (requestContext req agent)))"
| "pairing_handler x d req agent (PairingLookup code) _ = replying RPairing (reads (lookup (ae_crypto x) (ad_now d) code))"
| "pairing_handler x d req agent (PairingApprove code access days) (Some u) =
     replying (\<lambda>_. RPairingOk) (approve (ae_crypto x) (ad_now d) u code access days)"
| "pairing_handler x d req agent (PairingDeny code) (Some u) = replying (\<lambda>_. RPairingOk) (deny (ae_crypto x) (ad_now d) u code)"
| "pairing_handler x d req agent PairingRevokeKey (Some u) = replying (\<lambda>_. RPairingOk) (revokeCurrentKey u)"
| "pairing_handler x d req agent _ None = reads (\<lambda>_. Inl (PlainError ''Cannot read properties of undefined''))"

section \<open>One's own account\<close>

datatype account_call =
    AccountSetupTotp
  | AccountEnableTotp string
  | AccountDisableTotp string
  | AccountPasskeyOptions
  | AccountPasskeyVerify json "string option"
  | AccountPasskeys
  | AccountRemovePasskey uuid
  | AccountLogout
  | AccountMe
  | AccountPreferences "user_locale option option"
  | AccountChangePassword string string

datatype account_reply = RSecret string | RCodes "string list" | RRegistration registration_options "string \<times> string"
  | RPasskey public_passkey | RPasskeys "public_passkey list" | RAccount public_user | RSession string | RAccountOk

fun account_method :: "account_call \<Rightarrow> string" where
  "account_method AccountPasskeys = ''GET''"
| "account_method AccountMe = ''GET''"
| "account_method (AccountRemovePasskey _) = ''DELETE''"
| "account_method (AccountPreferences _) = ''PATCH''"
| "account_method _ = ''POST''"

definition account_meta :: route_meta where
  "account_meta = meta [] []"

fun account_handler ::
  "api_env \<Rightarrow> api_draw \<Rightarrow> http_request \<Rightarrow> account_call \<Rightarrow> request_user \<Rightarrow> server \<Rightarrow> account_reply result \<times> server" where
  "account_handler x d req AccountSetupTotp u = replying RSecret (totp_setup (ae_crypto x) (ad_iv d) (ad_token d) (ru_id u))"
| "account_handler x d req (AccountEnableTotp code) u =
     replying RCodes (totp_enable (ae_crypto x) (lg_argon (ae_login x)) (lg_totp (ae_login x)) (ad_names d) (ad_ivs d) (ad_now d) (ru_id u) code)"
| "account_handler x d req (AccountDisableTotp pw) u =
     replying (\<lambda>_. RAccountOk) (totp_disable (lg_argon (ae_login x)) (ru_id u) pw)"
| "account_handler x d req AccountPasskeyOptions u =
     replying (\<lambda>(opts, cookie). RRegistration opts cookie) (reads (passkeyRegisterOptions (ae_login x) (ad_token d) (ad_now d) u))"
| "account_handler x d req (AccountPasskeyVerify response nm) u =
     replying RPasskey (passkeyRegisterVerify (ae_login x) (ae_webauthn x) (ad_id d) (ad_now d) u (rq_cookies req) response nm)"
| "account_handler x d req AccountPasskeys u = reads (\<lambda>s. Inr (RPasskeys (list_passkeys (ru_id u) s)))"
| "account_handler x d req (AccountRemovePasskey i) u = always (\<lambda>s. (RAccountOk, remove_passkey (ru_id u) i s))"
| "account_handler x d req AccountLogout u = reads (\<lambda>s. Inr RAccountOk)"
| "account_handler x d req AccountMe u = replying RAccount (reads (\<lambda>s. findById s (ru_id u)))"
| "account_handler x d req (AccountPreferences l) u = replying RAccount (updatePreferences (ru_id u) l)"
| "account_handler x d req (AccountChangePassword old new) u =
     replying RSession (route_changePassword (ae_login x) (ad_salt d) (ad_now d) u old new)"

section \<open>Serving a request\<close>

datatype api_call =
    ApiUsers users_call
  | ApiKeys keys_call
  | ApiSettings settings_call
  | ApiChannels channels_call
  | ApiAgents agents_call
  | ApiPairing pairing_call
  | ApiAccount account_call

definition with_user :: "(request_user \<Rightarrow> server \<Rightarrow> 'a result \<times> server) \<Rightarrow> request_user option \<Rightarrow> server \<Rightarrow> 'a result \<times> server" where
  "with_user h u = (case u of None \<Rightarrow> reads (\<lambda>_. Inl (PlainError ''Cannot read properties of undefined'')) | Some v \<Rightarrow> h v)"

text \<open>The route fixes the method of a request; the reply is left out.\<close>

definition answered :: "'a result \<times> server \<Rightarrow> unit result \<times> server" where
  "answered rs = (case rs of (Inl e, s) \<Rightarrow> (Inl e, s) | (Inr _, s) \<Rightarrow> (Inr (), s))"

fun serve :: "api_env \<Rightarrow> api_draw \<Rightarrow> http_request \<Rightarrow> string option \<Rightarrow> api_call \<Rightarrow> server \<Rightarrow> unit result \<times> server" where
  "serve x d req agent (ApiUsers c) s =
     answered (guarded x d users_meta (req\<lparr>rq_method := users_method c\<rparr>) (users_handler x d c) s)"
| "serve x d req agent (ApiKeys c) s =
     answered (guarded x d keys_meta (req\<lparr>rq_method := keys_method c\<rparr>) (with_user (keys_handler x d c)) s)"
| "serve x d req agent (ApiSettings c) s =
     answered (guarded x d (settings_meta c) (req\<lparr>rq_method := settings_method c\<rparr>) (\<lambda>_. settings_handler x d req c) s)"
| "serve x d req agent (ApiChannels c) s =
     answered (guarded x d channels_meta (req\<lparr>rq_method := channels_method c\<rparr>) (with_user (channels_handler x d c)) s)"
| "serve x d req agent (ApiAgents c) s =
     answered (guarded x d (agents_meta c) (req\<lparr>rq_method := agents_method c\<rparr>) (with_user (agents_handler x d c)) s)"
| "serve x d req agent (ApiPairing c) s =
     answered (guarded x d (pairing_meta c) (req\<lparr>rq_method := pairing_method c\<rparr>) (pairing_handler x d req agent c) s)"
| "serve x d req agent (ApiAccount c) s =
     answered (guarded x d account_meta (req\<lparr>rq_method := account_method c\<rparr>) (with_user (account_handler x d req c)) s)"

section \<open>What only administrators change\<close>

text \<open>The rights of accounts, grants, channels, agents and their tokens, reports and settings.\<close>

definition account_rights :: "user \<Rightarrow> uuid \<times> string \<times> bool \<times> bool \<times> auth_source" where
  "account_rights u = (us_id u, us_email u, us_is_admin u, us_disabled u, us_auth_source u)"

definition administrative where
  "administrative s =
     (map account_rights (users s), sso_identities s, resource_grants s, notification_channels s, reports s, agents s,
      enrollment_tokens s,
      (app_global_enrollment s, app_offline_seconds s, app_timezone s, app_local_login s, app_sso s, app_admin_ips s))"

lemma replying_state [simp]: "snd (replying f h s) = snd (h s)"
  by (simp add: replying_def split: prod.splits sum.splits)

lemma reads_state [simp]: "snd (reads f s) = s"
  by (simp add: reads_def)

lemma always_state [simp]: "snd (always f s) = snd (f s)"
  by (simp add: always_def split: prod.splits)

lemma answered_state [simp]: "snd (answered r) = snd r"
  by (cases r; cases "fst r") (simp_all add: answered_def)

lemma effective_keeps: "administrative (snd (effective cfg now s)) = administrative s"
  by (simp add: effective_def storedEntries_def Let_def administrative_def split: option.splits prod.splits)

lemma assertAllowed_keeps: "administrative (snd (assertAllowed cfg now ip s)) = administrative s"
  using effective_keeps [of cfg now s]
  by (cases "effective cfg now s") (simp add: assertAllowed_def isAllowed_def)

lemma authenticate_keeps: "administrative (snd (authenticate cfg j cr now token s)) = administrative s"
  by (simp add: authenticate_def fromApiKey_def administrative_def split: option.splits)

lemma guard_keeps: "administrative (snd (canActivate cfg j cr m now req s)) = administrative s"
proof -
  have "administrative s2 = administrative s"
    if "authenticate cfg j cr now t s = (r, s1)" "assertAllowed cfg now ip s1 = (r', s2)" for t r r' ip s1 s2
    using authenticate_keeps [of cfg j cr now t s] assertAllowed_keeps [of cfg now ip s1] that by simp
  moreover have "administrative s1 = administrative s" if "authenticate cfg j cr now t s = (r, s1)" for t r s1
    using authenticate_keeps [of cfg j cr now t s] that by simp
  ultimately show ?thesis
    by (auto simp: canActivate_def split: option.splits sum.splits prod.splits if_splits)
qed

lemma keys_keep: "administrative (snd (keys_handler x d c u s)) = administrative s"
  by (cases c) (simp_all add: create_key_def remove_key_def administrative_def Let_def)

lemma set_user_keeps:
  assumes "\<And>u. account_rights (f u) = account_rights u"
  shows "administrative (set_user i f s) = administrative s"
  using assms by (simp add: set_user_def administrative_def map_update_where)

lemma account_keep: "administrative (snd (account_handler x d req c u s)) = administrative s"
proof (cases c)
  case AccountSetupTotp
  then show ?thesis
    by (auto simp: totp_setup_def Let_def account_rights_def intro!: set_user_keeps split: sum.splits)
next
  case (AccountEnableTotp code)
  then show ?thesis
    by (auto simp: totp_enable_def Let_def account_rights_def intro!: set_user_keeps split: sum.splits option.splits)
next
  case (AccountDisableTotp pw)
  then show ?thesis
    by (auto simp: totp_disable_def Let_def account_rights_def intro!: set_user_keeps split: sum.splits option.splits)
next
  case (AccountPasskeyVerify response nm)
  then show ?thesis
    by (auto simp: passkeyRegisterVerify_def verifyRegistration_def insert_passkey_def administrative_def Let_def
        split: sum.splits option.splits if_splits)
next
  case (AccountRemovePasskey i)
  then show ?thesis by (simp add: remove_passkey_def administrative_def)
next
  case (AccountPreferences l)
  then show ?thesis
    by (simp add: updatePreferences_def administrative_def Let_def account_rights_def map_update_where split: option.splits)
next
  case (AccountChangePassword old new)
  then show ?thesis
    by (auto simp: route_changePassword_def changePassword_def administrative_def Let_def account_rights_def map_update_where
        split: sum.splits option.splits prod.splits if_splits)
qed simp_all

lemma request_keeps: "administrative (snd (requestCode_from n cr names new_id now code name ctx s)) = administrative s"
  using requestCode_from_cases [of n cr names new_id now code name ctx s]
  by (auto simp: administrative_def)

lemma decide_keeps: "administrative (snd (decide cr now code f s)) = administrative s"
  by (auto simp: decide_def administrative_def Let_def split: sum.splits option.splits if_splits)

lemma claim_keeps: "administrative (snd (claim cr draw i now ctx s)) = administrative s"
  by (auto simp: claim_def create_key_def record_audit_def administrative_def Let_def split: option.splits if_splits)

lemma exchange_keeps: "administrative (snd (exchange cr draw code now ctx s)) = administrative s"
  by (auto simp: exchange_def claim_keeps Let_def split: option.splits if_splits device_status.splits)
    (auto simp: administrative_def)

lemma revoke_keeps: "administrative (snd (revokeCurrentKey u s)) = administrative s"
  by (simp add: revokeCurrentKey_def remove_key_def administrative_def Let_def split: auth_via.splits option.splits)

lemma pairing_keep: "administrative (snd (pairing_handler x d req agent c u s)) = administrative s"
  by (cases c; cases u)
    (simp_all add: requestCode_def request_keeps exchange_keeps approve_def deny_def decide_keeps revoke_keeps)

lemma guarded_cases:
  obtains "snd (guarded x d m req h s) = snd (canActivate (ae_config x) (lg_jwt (ae_login x)) (ae_crypto x) m (ad_now d) req s)"
  | u s1 where "canActivate (ae_config x) (lg_jwt (ae_login x)) (ae_crypto x) m (ad_now d) req s = (Inr u, s1)"
      "guarded x d m req h s = h u s1"
  by (cases "canActivate (ae_config x) (lg_jwt (ae_login x)) (ae_crypto x) m (ad_now d) req s"; cases "fst (canActivate (ae_config x)
      (lg_jwt (ae_login x)) (ae_crypto x) m (ad_now d) req s)") (auto simp: guarded_def)

lemma guarded_keeps:
  assumes "\<And>u s. administrative (snd (h u s)) = administrative s"
  shows "administrative (snd (guarded x d m req h s)) = administrative s"
proof (cases rule: guarded_cases [of x d m req h s])
  case 1
  then show ?thesis by (simp add: guard_keeps)
next
  case (2 u s1)
  then show ?thesis
    using assms [of u s1] guard_keeps [of "ae_config x" "lg_jwt (ae_login x)" "ae_crypto x" m "ad_now d" req s] by simp
qed

text \<open>The administrator behind a request, and how the request was authenticated.\<close>

definition from_admin :: "api_env \<Rightarrow> api_draw \<Rightarrow> http_request \<Rightarrow> server \<Rightarrow> request_user \<Rightarrow> bool" where
  "from_admin x d req s u \<longleftrightarrow>
     (\<exists>token acc. extractToken req = Some token \<and>
        proven_by (ae_config x) (lg_jwt (ae_login x)) (ae_crypto x) (ad_now d) token s u acc \<and> us_is_admin acc \<and>
        ipAllowed (fst (effective (ae_config x) (ad_now d) s)) (rq_ip req))"

lemma guarded_admin:
  assumes "administrative (snd (guarded x d m req h s)) \<noteq> administrative s" "rm_admin m" "\<not> rm_public m"
  shows "\<exists>u. from_admin x d req s u \<and> route_allows m req u"
proof (cases rule: guarded_cases [of x d m req h s])
  case 1
  with assms(1) show ?thesis by (simp add: guard_keeps)
next
  case (2 u s1)
  from 2(1) assms(3) obtain v where u: "u = Some v"
    by (cases u) (auto simp: canActivate_def split: option.splits if_splits sum.splits prod.splits)
  from canActivate_admits [OF 2(1) [unfolded u]] obtain token acc where "extractToken req = Some token"
    and p: "proven_by (ae_config x) (lg_jwt (ae_login x)) (ae_crypto x) (ad_now d) token s v acc"
    and ip: "ru_is_admin v \<longrightarrow> ipAllowed (fst (effective (ae_config x) (ad_now d) s)) (rq_ip req)" and r: "route_allows m req v"
    by blast
  moreover have "ru_is_admin v" using r assms(2) by (simp add: route_allows_def)
  moreover have "us_is_admin acc = ru_is_admin v" using p by (simp add: proven_by_def)
  ultimately show ?thesis unfolding from_admin_def by blast
qed

lemma metas [simp]:
  "rm_admin (meta h c) \<longleftrightarrow> RequireAdmin \<in> set h \<or> RequireAdmin \<in> set c" "rm_public (meta h c) \<longleftrightarrow> Public \<in> set h \<or> Public \<in> set c"
  "rm_admin_key (meta h c) \<longleftrightarrow> AllowAdminApiKey \<in> set h \<or> AllowAdminApiKey \<in> set c"
  "rm_no_key (meta h c) \<longleftrightarrow> NoApiKey \<in> set h \<or> NoApiKey \<in> set c"
  by (simp_all add: meta_def Let_def)

lemma extractToken_method: "extractToken (req\<lparr>rq_method := m\<rparr>) = extractToken req"
  by (simp add: extractToken_def split: option.split)

lemma from_admin_method: "from_admin x d (req\<lparr>rq_method := m\<rparr>) s u = from_admin x d req s u"
  by (simp add: from_admin_def extractToken_method)

lemma agents_reading:
  "agents_meta c \<noteq> meta [RequireAdmin] [] \<Longrightarrow>
   (\<exists>n m dm. c = AgentsCreateToken n m dm) \<or> administrative (snd (agents_handler x d c u s)) = administrative s"
  by (cases c) (simp_all add: resolved_def split: sum.splits)

lemma agents_keep:
  assumes "administrative (snd (serve x d req agent (ApiAgents c) s)) \<noteq> administrative s"
  shows "agents_meta c = meta [RequireAdmin] [] \<or> (\<exists>n m dm. c = AgentsCreateToken n m dm)"
proof (rule ccontr)
  assume "\<not> ?thesis"
  then have "administrative (snd (with_user (agents_handler x d c) u s)) = administrative s" for u s
    using agents_reading [of c x d] by (cases u) (auto simp: with_user_def)
  with guarded_keeps assms show False by fastforce
qed

lemma settings_app_keeps: "administrative (snd (serve x d req agent (ApiSettings SettingsApp) s)) = administrative s"
  using guarded_keeps [of "\<lambda>_. settings_handler x d req SettingsApp"] by simp

lemma admin_route_session:
  assumes "administrative (snd (guarded x d m (req\<lparr>rq_method := v\<rparr>) h s)) \<noteq> administrative s"
    "rm_admin m" "\<not> rm_public m" "\<not> rm_admin_key m"
  shows "\<exists>u. from_admin x d req s u \<and> ru_auth_via u = ViaSession"
proof -
  from guarded_admin [OF assms(1-3)] obtain u where "from_admin x d req s u" "route_allows m (req\<lparr>rq_method := v\<rparr>) u"
    by (auto simp: from_admin_method)
  moreover from this have "ru_auth_via u = ViaSession"
    using assms(2,4) by (cases "ru_auth_via u") (auto simp: route_allows_def)
  ultimately show ?thesis by blast
qed

lemma agents_route_admin:
  assumes "administrative (snd (serve x d req agent (ApiAgents c) s)) \<noteq> administrative s"
  shows "\<exists>u. from_admin x d req s u \<and>
    (ru_auth_via u = ViaSession \<or> (\<exists>n m dm. c = AgentsCreateToken n m dm) \<and> ''*'' \<in> set (scope_actions u))"
  using agents_keep [OF assms]
proof
  assume m: "agents_meta c = meta [RequireAdmin] []"
  then show ?thesis using assms admin_route_session [of x d "agents_meta c" "agents_method c" req "with_user (agents_handler x d c)" s] by auto
next
  assume "\<exists>n m dm. c = AgentsCreateToken n m dm"
  then obtain n m dm where c: "c = AgentsCreateToken n m dm" by blast
  with assms guarded_admin [of x d "agents_meta c" "req\<lparr>rq_method := agents_method c\<rparr>" "with_user (agents_handler x d c)" s]
  obtain u where "from_admin x d req s u" "route_allows (agents_meta c) (req\<lparr>rq_method := agents_method c\<rparr>) u"
    by (auto simp: from_admin_method)
  moreover have "mutating ''POST''" by code_simp
  ultimately show ?thesis using c by (cases "ru_auth_via u") (auto simp: route_allows_def)
qed

section \<open>Theorems\<close>

text \<open>
  C10: Only administrators administer. Whatever a request to the routes of users, keys, settings,
  channels, agents (their own API apart), pairings and one's account carries, if it changes the rights
  of an account, a grant, a channel, a report, an agent, an enrollment token, a linked
  identity or a setting, then it came from an enabled administrator's account with a valid credential
  and from an allowed address. The credential was a session, except that a token for a new agent may
  also be made with an administrator's key of full access.
\<close>

theorem only_admins_administer:
  assumes "administrative (snd (serve x d req agent call s)) \<noteq> administrative s"
  shows "\<exists>u. from_admin x d req s u \<and>
    (ru_auth_via u = ViaSession \<or>
     (\<exists>n m dm. call = ApiAgents (AgentsCreateToken n m dm)) \<and> ''*'' \<in> set (scope_actions u))"
proof (cases call)
  case (ApiUsers c)
  with assms show ?thesis
    using admin_route_session [of x d users_meta "users_method c" req "users_handler x d c" s] by (auto simp: users_meta_def)
next
  case (ApiKeys c)
  with assms guarded_keeps [of "with_user (keys_handler x d c)"] show ?thesis
    by (simp add: with_user_def keys_keep split: option.splits)
next
  case (ApiSettings c)
  with assms settings_app_keeps have "settings_meta c = meta [RequireAdmin] []" by (cases c) auto
  with ApiSettings assms show ?thesis
    using admin_route_session [of x d "settings_meta c" "settings_method c" req "\<lambda>_. settings_handler x d req c" s] by auto
next
  case (ApiChannels c)
  with assms show ?thesis
    using admin_route_session [of x d channels_meta "channels_method c" req "with_user (channels_handler x d c)" s]
    by (auto simp: channels_meta_def)
next
  case (ApiAgents c)
  with assms agents_route_admin [of x d req agent c s] show ?thesis by auto
next
  case (ApiPairing c)
  with assms guarded_keeps [of "pairing_handler x d req agent c"] show ?thesis by (simp add: pairing_keep)
next
  case (ApiAccount c)
  with assms guarded_keeps [of "with_user (account_handler x d req c)"] show ?thesis
    by (simp add: with_user_def account_keep split: option.splits)
qed

definition admin_server :: server where
  "admin_server = empty_server\<lparr>users := [sample_account ''u1'' ''a@x'' True]\<rparr>"

definition sample_api :: api_env where
  "sample_api = \<lparr>ae_login = sample_env, ae_webauthn = sample_webauthn, ae_tz = \<lparr>tz_valid = (\<lambda>_. True), tz_server = ''UTC''\<rparr>,
     ae_listeners = [], ae_agent_version = None\<rparr>"

definition sample_api_draw :: api_draw where
  "sample_api_draw = \<lparr>ad_now = 5, ad_id = ''i'', ad_iv = ''iv'', ad_token = ''t'', ad_salt = ''s'', ad_names = (\<lambda>_. ''n''),
     ad_more_names = (\<lambda>_. ''m''), ad_ivs = (\<lambda>_. ''v''), ad_fresh = sample_fresh,
     ad_enroll = \<lparr>ef_agent_id = ''g'', ef_agent_key = ''k'', ef_server_privkey = ''p''\<rparr>,
     ad_claim = \<lparr>cd_key_id = ''c'', cd_secret = ''x'', cd_audit_id = ''a'', cd_audit_ok = True\<rparr>\<rparr>"

definition admin_token :: string where
  "admin_token = jw_sign sample_jwt (cf_jwt_secret sample_config) [(''sub'', JStr ''u1'')] 100"

definition admin_http :: http_request where
  "admin_http = \<lparr>rq_authorization = None, rq_cookies = [(SESSION_COOKIE, admin_token)], rq_method = ''GET'', rq_ip = None\<rparr>"

lemma admin_token_plain: "admin_token \<noteq> []" "\<not> starts_with API_KEY_PREFIX admin_token"
proof -
  obtain n where n: "admin_token = show_nat n" by (simp add: admin_token_def sample_jwt_def)
  show "admin_token \<noteq> []" unfolding n by (simp add: show_nat_nonempty)
  have "hd admin_token \<noteq> CHR ''a''"
    using show_nat_digits [of "hd (show_nat n)" n] show_nat_nonempty [of n] unfolding n by (auto simp: is_digit_def)
  moreover have "\<not> starts_with API_KEY_PREFIX t" if "hd t \<noteq> CHR ''a''" for t
    using that by (cases t) (auto simp: starts_with_def API_KEY_PREFIX_def)
  ultimately show "\<not> starts_with API_KEY_PREFIX admin_token" by blast
qed

lemma admin_session:
  "authenticate sample_config sample_jwt sample_crypto 5 admin_token admin_server =
     (Inr \<lparr>ru_id = ''u1'', ru_email = ''a@x'', ru_is_admin = True, ru_auth_via = ViaSession, ru_api_key_scopes = None,
            ru_api_key_id = None\<rparr>, admin_server)"
proof -
  have "jw_verify sample_jwt (cf_jwt_secret sample_config) 5 admin_token = Some [(''sub'', JStr ''u1'')]"
    using sample_jwt_laws(1) by (simp add: jwt_correct_def admin_token_def)
  then show ?thesis
    by (simp add: authenticate_def admin_token_plain fromJwt_def admin_server_def user_by_id_def select_first_def sample_account_def)
qed

theorem only_admins_administer_witness:
  "administrative (snd (serve sample_api sample_api_draw admin_http None (ApiSettings (SettingsAgents 7)) admin_server)) \<noteq>
     administrative admin_server \<and>
   (\<exists>u. from_admin sample_api sample_api_draw admin_http admin_server u \<and> ru_auth_via u = ViaSession)"
proof -
  have c: "ae_config sample_api = sample_config" "ae_crypto sample_api = sample_crypto" "lg_jwt (ae_login sample_api) = sample_jwt"
    "ad_now sample_api_draw = 5"
    by (simp_all add: ae_config_def ae_crypto_def sample_api_def sample_env_def sample_api_draw_def)
  have t: "extractToken (admin_http\<lparr>rq_method := m\<rparr>) = Some admin_token" for m
    by (simp add: extractToken_def admin_http_def bearer_def)
  have e: "effective sample_config 5 admin_server = (r, s1) \<Longrightarrow> r = [] \<and> app_offline_seconds s1 = None" for r s1
    by (auto simp: effective_def storedEntries_def admin_server_def empty_server_def entries_of_def sample_config_def dedup_def Let_def)
  then obtain s1 where "effective sample_config 5 admin_server = ([], s1)" "app_offline_seconds s1 = None" by (metis prod.exhaust)
  then have "snd (serve sample_api sample_api_draw admin_http None (ApiSettings (SettingsAgents 7)) admin_server) =
      snd (settings_handler sample_api sample_api_draw admin_http (SettingsAgents 7) s1)"
    by (simp add: guarded_def canActivate_def c t admin_token_plain admin_session assertAllowed_def isAllowed_def ipAllowed_def
        first_error_def check_admin_def check_no_key_def check_write_scope_def check_action_def meta_def Let_def)
  moreover have "app_offline_seconds (snd (settings_handler sample_api sample_api_draw admin_http (SettingsAgents 7) s1)) = Some 7"
    by (simp add: then_view_def always_def replying_def setAgentOfflineTimeout_def getSystemView_def readTimezone_def Let_def
        split: prod.splits option.splits)
  moreover have "app_offline_seconds admin_server = None" by (simp add: admin_server_def empty_server_def)
  ultimately have "administrative (snd (serve sample_api sample_api_draw admin_http None (ApiSettings (SettingsAgents 7)) admin_server)) \<noteq>
     administrative admin_server" by (simp add: administrative_def)
  with only_admins_administer [OF this] show ?thesis by blast
qed

text \<open>
  API keys manage no keys: a request that a key authenticates is refused by every route for keys and
  by those that decide on a pairing. But the routes of one's own account are open to every key with
  some action beyond reading, among them the registration of a passkey, which then opens sessions
  without the limits of the key.
\<close>

theorem keys_reach_account_routes:
  assumes "extractToken req = Some token" "token \<noteq> []"
    "authenticate (ae_config x) (lg_jwt (ae_login x)) (ae_crypto x) (ad_now d) token s = (Inr u, s1)"
    "ru_auth_via u = ViaApiKey" "\<not> ru_is_admin u" "a \<in> set (scope_actions u)" "a \<noteq> ''read''"
  shows "is_error (fst (serve x d req agent (ApiKeys k) s))"
    "is_error (fst (serve x d req agent (ApiPairing (PairingApprove code access days)) s))"
    "serve x d req agent (ApiAccount c) s = answered (account_handler x d req c u s1)"
proof -
  have noerr: "check_write_scope m r u = None" for m r
    using assms(6,7) by (auto simp: check_write_scope_def list_ex_iff)
  have act: "rm_action (meta h cl) = None" for h cl by (simp add: meta_def Let_def)
  have g: "guarded x d (meta h cl) (req\<lparr>rq_method := m\<rparr>) f s =
      (if NoApiKey \<in> set h \<or> NoApiKey \<in> set cl
       then (Inl (Forbidden ''This operation is not permitted for API keys''), s1) else f (Some u) s1)"
    if "RequireAdmin \<notin> set h" "RequireAdmin \<notin> set cl" "Public \<notin> set h" "Public \<notin> set cl" for h cl m f
    using that assms by (simp add: guarded_def canActivate_def extractToken_method first_error_def check_admin_def noerr check_action_def check_no_key_def act)
  show "is_error (fst (serve x d req agent (ApiKeys k) s))"
    "is_error (fst (serve x d req agent (ApiPairing (PairingApprove code access days)) s))"
    "serve x d req agent (ApiAccount c) s = answered (account_handler x d req c u s1)"
    by (simp_all add: keys_meta_def account_meta_def g answered_def with_user_def)
qed
end
