(* ===== verification/Delivery.thy ===== *)
theory Delivery
  imports Configuration Sso
begin

text \<open>
  What the server hands out about itself and what it writes about requests: the install scripts of
  \<open>cli/cli.service.ts\<close> with the defaults of this server, the agent binaries and the bundled version
  (\<open>agents/agents.service.ts\<close>, \<open>common/bundled-version.ts\<close>), the newest release seen by
  \<open>updates/update-check.service.ts\<close>, and the access log of \<open>common/middleware/http-logger.middleware.ts\<close>.
  The theorems say that nothing can be injected into a served script, that the link to a release
  leads to the releases of the project, and that the values of sensitive parameters do not reach the
  log.
\<close>

section \<open>Bundled files\<close>

text \<open>The text of a file in a configured directory, absent if it cannot be read.\<close>

type_synonym bundled_files = "string \<Rightarrow> string \<Rightarrow> string option"

definition readBundledVersion :: "app_config \<Rightarrow> bundled_files \<Rightarrow> string option" where
  "readBundledVersion cfg read =
     (case read (ac_agent_binary_dir cfg) ''version'' of
        None \<Rightarrow> None
      | Some t \<Rightarrow> (if trim t = [] then None else Some (trim t)))"

text \<open>The service keeps the first reading, \<open>undefined\<close> before.\<close>

definition latestAgentVersion ::
  "app_config \<Rightarrow> bundled_files \<Rightarrow> string option option \<Rightarrow> string option \<times> string option option" where
  "latestAgentVersion cfg read seen =
     (case seen of
        None \<Rightarrow> (let v = readBundledVersion cfg read in (v, Some v))
      | Some v \<Rightarrow> (v, seen))"

definition agent_binary :: "app_config \<Rightarrow> bundled_files \<Rightarrow> string \<Rightarrow> string result" where
  "agent_binary cfg read tgt =
     (if tgt \<notin> set [''linux-amd64'', ''linux-arm64''] then Inl (NotFound (''Unsupported agent target: '' @ tgt))
      else case read (ac_agent_binary_dir cfg) (''amber-agent-'' @ tgt) of
             None \<Rightarrow> Inl (NotFound (''Agent binary for '' @ tgt @ '' is not available on this server''))
           | Some b \<Rightarrow> Inr b)"

section \<open>Install scripts of the command line client\<close>

datatype cli_script_kind = ScriptSh | ScriptPs1

record script_spec =
  sp_file :: string
  sp_version :: "string \<Rightarrow> string"
  sp_url :: "string \<Rightarrow> string"

fun SCRIPTS :: "cli_script_kind \<Rightarrow> script_spec" where
  "SCRIPTS ScriptSh =
     \<lparr>sp_file = ''install.sh'',
      sp_version = (\<lambda>v. ''AMBB_VERSION=\"${AMBB_VERSION:-'' @ v @ ''}\"''),
      sp_url = (\<lambda>u. ''AMBER_URL=\"${AMBER_URL:-'' @ u @ ''}\"'')\<rparr>"
| "SCRIPTS ScriptPs1 =
     \<lparr>sp_file = ''install.ps1'',
      sp_version = (\<lambda>v. ''$Version = if ($env:AMBB_VERSION) { $env:AMBB_VERSION } else { '' @ quote @ v @ quote @ '' }''),
      sp_url = (\<lambda>u. ''$AmberUrl = if ($env:AMBER_URL) { $env:AMBER_URL } else { '' @ quote @ u @ quote @ '' }'')\<rparr>"

definition digits :: "string \<Rightarrow> bool" where
  "digits s \<longleftrightarrow> s \<noteq> [] \<and> list_all is_digit s"

definition VERSION_RE :: "string \<Rightarrow> bool" where
  "VERSION_RE v = (case split_on CHR ''.'' v of [a, b, c] \<Rightarrow> digits a \<and> digits b \<and> digits c | _ \<Rightarrow> False)"

definition host_char :: "char \<Rightarrow> bool" where
  "host_char c \<longleftrightarrow> is_alnum c \<or> c \<in> set ''.-''"

definition path_char :: "char \<Rightarrow> bool" where
  "path_char c \<longleftrightarrow> is_alnum c \<or> c \<in> set ''._~/-''"

text \<open>
  The groups of the pattern start with characters the one before does not contain, so each takes as
  much as it can.
\<close>

definition url_tail :: "string \<Rightarrow> bool" where
  "url_tail r = (case r of [] \<Rightarrow> True | c # p \<Rightarrow> c = CHR ''/'' \<and> list_all path_char p)"

definition url_authority :: "string \<Rightarrow> bool" where
  "url_authority s =
     (let h = takeWhile host_char s; r = dropWhile host_char s
      in h \<noteq> [] \<and>
         (case r of
            [] \<Rightarrow> True
          | c # r1 \<Rightarrow> (if c = CHR '':'' then takeWhile is_digit r1 \<noteq> [] \<and> url_tail (dropWhile is_digit r1) else url_tail r)))"

definition URL_RE :: "string \<Rightarrow> bool" where
  "URL_RE u \<longleftrightarrow>
     starts_with ''http://'' u \<and> url_authority (drop 7 u) \<or> starts_with ''https://'' u \<and> url_authority (drop 8 u)"

definition indent_of :: "string \<Rightarrow> string" where
  "indent_of l = take (length l - length (trim_start l)) l"

definition replaceDefault :: "string \<Rightarrow> string \<Rightarrow> string \<Rightarrow> string option \<Rightarrow> string result" where
  "replaceDefault script file mark_line replacement =
     (let rows = split_on CHR 0x0A script;
          hits = filter (\<lambda>i. trim (rows ! i) = mark_line) [0..<length rows]
      in case hits of
           [i] \<Rightarrow> (case replacement of
                     None \<Rightarrow> Inr script
                   | Some r \<Rightarrow> Inr (join_with [CHR 0x0A] (rows[i := indent_of (rows ! i) @ r])))
         | _ \<Rightarrow> Inl (PlainError (''CLI install script '' @ file @ '' is malformed'')))"

text \<open>\<open>replace(/\/+$/, '')\<close>.\<close>

definition strip_slashes :: "string \<Rightarrow> string" where
  "strip_slashes s = rev (dropWhile (\<lambda>c. c = CHR ''/'') (rev s))"

definition version_line :: "cli_script_kind \<Rightarrow> app_config \<Rightarrow> bundled_files \<Rightarrow> string option" where
  "version_line kind cfg read =
     (case readBundledVersion cfg read of
        None \<Rightarrow> None
      | Some v \<Rightarrow> (if VERSION_RE v then Some (sp_version (SCRIPTS kind) v) else None))"

definition url_line :: "cli_script_kind \<Rightarrow> app_config \<Rightarrow> string option" where
  "url_line kind cfg =
     (let u = strip_slashes (ac_public_base_url cfg) in if URL_RE u then Some (sp_url (SCRIPTS kind) u) else None)"

definition cli_installScript :: "app_config \<Rightarrow> bundled_files \<Rightarrow> cli_script_kind \<Rightarrow> string result" where
  "cli_installScript cfg read kind =
     (let spec = SCRIPTS kind
      in case read (ac_cli_script_dir cfg) (sp_file spec) of
           None \<Rightarrow> Inl (NotFound (''CLI install script '' @ sp_file spec @ '' is not available on this server''))
         | Some script \<Rightarrow>
             (case replaceDefault script (sp_file spec) (sp_version spec ''latest'') (version_line kind cfg read) of
                Inl e \<Rightarrow> Inl e
              | Inr script1 \<Rightarrow> replaceDefault script1 (sp_file spec) (sp_url spec []) (url_line kind cfg)))"

section \<open>The newest release\<close>

record update_status =
  ut_latest_version :: "string option"
  ut_release_url :: "string option"
  ut_checked_at :: "time option"

definition no_update_status :: update_status where
  "no_update_status = \<lparr>ut_latest_version = None, ut_release_url = None, ut_checked_at = None\<rparr>"

definition RELEASE_REPO :: string where
  "RELEASE_REPO = ''amber-backup/amber-backup''"

definition release_prefix :: string where
  "release_prefix = ''https://github.com/'' @ RELEASE_REPO @ ''/releases/''"

definition RELEASE_TAG_RE :: "string \<Rightarrow> string option" where
  "RELEASE_TAG_RE t = (case t of [] \<Rightarrow> None | c # v \<Rightarrow> (if c = CHR ''v'' \<and> VERSION_RE v then Some v else None))"

definition releasePageUrl :: "json option \<Rightarrow> string \<Rightarrow> string" where
  "releasePageUrl htmlUrl tag =
     (case htmlUrl of
        Some (JStr u) \<Rightarrow> (if starts_with release_prefix u then u else release_prefix @ ''tag/'' @ encodeURIComponent tag)
      | _ \<Rightarrow> release_prefix @ ''tag/'' @ encodeURIComponent tag)"

text \<open>
  A check: the status it stores, or the reason it is logged with. The outcome of the request is a
  parameter; the status of a refused one is not represented.
\<close>

definition tag_text :: "json option \<Rightarrow> string" where
  "tag_text t = (case t of None \<Rightarrow> [] | Some JNull \<Rightarrow> [] | Some j \<Rightarrow> js_string j)"

definition read_release :: "time \<Rightarrow> fetched \<Rightarrow> update_status result" where
  "read_release now res =
     (case body_or (PlainError ''GitHub responded'') res of
        Inl e \<Rightarrow> Inl e
      | Inr body \<Rightarrow>
          (case member_of body ''tag_name'' of
             Inl e \<Rightarrow> Inl e
           | Inr tag \<Rightarrow>
               (case RELEASE_TAG_RE (tag_text tag) of
                  None \<Rightarrow> Inl (PlainError (''unexpected release tag \"'' @ js_text tag @ ''\"''))
                | Some v \<Rightarrow>
                    Inr \<lparr>ut_latest_version = Some v, ut_release_url = Some (releasePageUrl (json_field body ''html_url'') (js_text tag)),
                         ut_checked_at = Some now\<rparr>)))"

definition update_check :: "app_config \<Rightarrow> time \<Rightarrow> fetched \<Rightarrow> update_status \<Rightarrow> update_status" where
  "update_check cfg now res st =
     (if \<not> ac_update_check_enabled cfg then st else case read_release now res of Inl _ \<Rightarrow> st | Inr st' \<Rightarrow> st')"

section \<open>The access log\<close>

definition SENSITIVE_KEYS :: "string list" where
  "SENSITIVE_KEYS = [''access_token'', ''id_token'', ''client_secret'', ''code'', ''state'', ''token'', ''password'', ''secret'', ''key'']"

definition word_char :: "char \<Rightarrow> bool" where
  "word_char c \<longleftrightarrow> is_alnum c \<or> c = CHR ''_''"

text \<open>
  The alternatives of the pattern, tried in their order at a position: the name in any case, then the
  equals sign. The value runs up to an ampersand or white space.
\<close>

definition key_at :: "string \<Rightarrow> nat option" where
  "key_at s =
     map_option length
       (find (\<lambda>k. to_lower (take (length k) s) = k \<and> starts_with ''='' (drop (length k) s)) SENSITIVE_KEYS)"

definition value_char :: "char \<Rightarrow> bool" where
  "value_char c \<longleftrightarrow> c \<noteq> CHR ''&'' \<and> \<not> js_space c"

text \<open>
  The scan: \<open>inside\<close> says that the character before is part of a word, where no name can begin.
\<close>

function redact :: "bool \<Rightarrow> string \<Rightarrow> string" where
  "redact inside [] = []"
| "redact inside (c # s) =
     (case if inside then None else key_at (c # s) of
        None \<Rightarrow> c # redact (word_char c) s
      | Some n \<Rightarrow>
          (let v = drop (Suc n) (c # s)
           in take n (c # s) @ ''=***'' @ redact (takeWhile value_char v \<noteq> [] \<and> word_char (last (takeWhile value_char v))) (dropWhile value_char v)))"
  by pat_completeness auto

termination
  by (relation "measure (\<lambda>(i, s). length s)")
    (auto simp: le_imp_less_Suc le_trans [OF length_dropWhile_le])

definition redactUrl :: "string \<Rightarrow> string" where
  "redactUrl url = redact False url"

datatype log_level = LevelError | LevelWarn | LevelLog

definition httpLogger :: "string \<Rightarrow> string \<Rightarrow> nat \<Rightarrow> nat \<Rightarrow> string option \<Rightarrow> log_level \<times> string" where
  "httpLogger meth url status ms len =
     (if status \<ge> 500 then LevelError else if status \<ge> 400 then LevelWarn else LevelLog,
      meth @ '' '' @ redactUrl url @ '' '' @ show_nat status @ '' '' @ show_nat ms @ ''ms'' @
      (case len of None \<Rightarrow> [] | Some l \<Rightarrow> '' '' @ l @ ''b''))"

section \<open>Scripts are changed only where they may be\<close>

text \<open>The characters that can end or expand a literal of either shell.\<close>

definition breaks_out :: "char \<Rightarrow> bool" where
  "breaks_out c \<longleftrightarrow> c \<in> {CHR 0x22, CHR 0x27, CHR ''$'', CHR 0x60, CHR 0x5C, CHR ''{'', CHR ''}'', CHR 0x0A, CHR 0x20}"

lemma plain_chars:
  "is_digit c \<Longrightarrow> \<not> breaks_out c" "host_char c \<Longrightarrow> \<not> breaks_out c" "path_char c \<Longrightarrow> \<not> breaks_out c"
  by (auto simp: breaks_out_def is_digit_def host_char_def path_char_def is_alnum_def)

lemma version_plain: "VERSION_RE v \<Longrightarrow> c \<in> set v \<Longrightarrow> \<not> breaks_out c"
proof -
  assume v: "VERSION_RE v" and c: "c \<in> set v"
  then obtain a b d where s: "split_on CHR ''.'' v = [a, b, d]" and "digits a" "digits b" "digits d"
    by (auto simp: VERSION_RE_def split: list.splits)
  moreover have "v = a @ ''.'' @ b @ ''.'' @ d" using join_split [of "CHR ''.''" v] s by simp
  ultimately show ?thesis using c plain_chars(1) by (auto simp: digits_def list_all_iff) (simp_all add: breaks_out_def)
qed

lemma tail_plain: "url_tail r \<Longrightarrow> c \<in> set r \<Longrightarrow> \<not> breaks_out c"
  using plain_chars(3) by (cases r) (auto simp: url_tail_def list_all_iff breaks_out_def)

lemma authority_plain:
  assumes "url_authority s" "c \<in> set s"
  shows "\<not> breaks_out c"
proof -
  have parts: "set s = set (takeWhile host_char s) \<union> set (dropWhile host_char s)"
    "set t = set (takeWhile is_digit t) \<union> set (dropWhile is_digit t)" for t
    by (metis set_append takeWhile_dropWhile_id)+
  from assms(2) parts(1) consider "c \<in> set (takeWhile host_char s)" | "c \<in> set (dropWhile host_char s)" by blast
  then show ?thesis
  proof cases
    case 1
    then show ?thesis using plain_chars(2) set_takeWhileD by metis
  next
    case 2
    then obtain x r where r: "dropWhile host_char s = x # r" by (cases "dropWhile host_char s") auto
    show ?thesis
    proof (cases "x = CHR '':''")
      case True
      with assms(1) r have t: "url_tail (dropWhile is_digit r)" by (simp add: url_authority_def Let_def)
      from 2 r True parts(2) [of r] have "c = CHR '':'' \<or> is_digit c \<or> c \<in> set (dropWhile is_digit r)"
        by (auto dest: set_takeWhileD)
      then show ?thesis using tail_plain [OF t] plain_chars(1) by (auto simp: breaks_out_def)
    next
      case False
      with assms(1) r have "url_tail (x # r)" by (simp add: url_authority_def Let_def)
      with 2 r show ?thesis using tail_plain by metis
    qed
  qed
qed

lemma url_plain: "URL_RE u \<Longrightarrow> c \<in> set u \<Longrightarrow> \<not> breaks_out c"
proof -
  assume u: "URL_RE u" and c: "c \<in> set u"
  then consider "starts_with ''http://'' u" "url_authority (drop 7 u)" | "starts_with ''https://'' u" "url_authority (drop 8 u)"
    by (auto simp: URL_RE_def)
  then have "set (take 7 u) \<subseteq> set ''https:/'' \<and> url_authority (drop 7 u) \<or> set (take 8 u) \<subseteq> set ''https:/'' \<and> url_authority (drop 8 u)"
    by cases (simp_all add: starts_with_def eval_nat_numeral)
  moreover have "c \<in> set (take n u) \<or> c \<in> set (drop n u)" for n using c by (metis Un_iff append_take_drop_id set_append)
  moreover have "\<not> breaks_out x" if "x \<in> set ''https:/''" for x using that by (auto simp: breaks_out_def)
  ultimately show ?thesis using authority_plain by blast
qed

lemma split_on_no_sep: "x \<in> set (split_on c s) \<Longrightarrow> c \<notin> set x"
proof (induction s arbitrary: x)
  case (Cons a s)
  then show ?case by (cases "split_on c s") (auto split: if_splits)
qed simp

lemma lines_updated:
  assumes "c \<notin> set l"
  shows "split_on c (join_with [c] ((split_on c t)[i := l])) = (split_on c t)[i := l]"
  using assms split_on_no_sep [of _ c t] set_update_subset_insert [of "split_on c t" i l]
  by (intro split_on_join) auto

lemma indent_spaces: "indent_of l = takeWhile js_space l"
  by (induction l) (auto simp: indent_of_def trim_start_def Suc_diff_le length_dropWhile_le)

lemma trim_indented:
  assumes "l \<noteq> []" "\<not> js_space (hd l)" "\<not> js_space (last l)"
  shows "trim (indent_of k @ l) = l"
proof -
  have "dropWhile js_space (indent_of k @ l) = l"
    using assms unfolding indent_spaces by (induction k) (auto simp: neq_Nil_conv)
  moreover have "dropWhile js_space (rev l) = rev l" using assms by (cases l rule: rev_cases) auto
  ultimately show ?thesis by (simp add: trim_def trim_start_def)
qed

lemma distinct_single: "distinct xs \<Longrightarrow> set xs = {i} \<Longrightarrow> xs = [i]"
  by (cases xs) (auto simp: subset_singleton_iff)

definition once_line :: "string \<Rightarrow> string list \<Rightarrow> nat \<Rightarrow> bool" where
  "once_line m rows i \<longleftrightarrow> i < length rows \<and> trim (rows ! i) = m \<and> (\<forall>j < length rows. trim (rows ! j) = m \<longrightarrow> j = i)"

lemma hits_once: "filter (\<lambda>i. trim (rows ! i) = m) [0..<length rows] = [i] \<longleftrightarrow> once_line m rows i"
proof
  assume h: "filter (\<lambda>i. trim (rows ! i) = m) [0..<length rows] = [i]"
  have "set (filter (\<lambda>i. trim (rows ! i) = m) [0..<length rows]) = {i}" by (simp add: h)
  then show "once_line m rows i" by (auto simp: once_line_def)
next
  assume "once_line m rows i"
  then have s: "set (filter (\<lambda>i. trim (rows ! i) = m) [0..<length rows]) = {i}" by (auto simp: once_line_def)
  then show "filter (\<lambda>i. trim (rows ! i) = m) [0..<length rows] = [i]" by (intro distinct_single) simp_all
qed

definition set_line :: "nat \<Rightarrow> string option \<Rightarrow> string \<Rightarrow> string" where
  "set_line i r script =
     (case r of
        None \<Rightarrow> script
      | Some l \<Rightarrow> join_with [CHR 0x0A] ((split_on CHR 0x0A script)[i := indent_of (split_on CHR 0x0A script ! i) @ l]))"

definition with_line :: "nat \<Rightarrow> string option \<Rightarrow> string list \<Rightarrow> string list" where
  "with_line i r rows = (case r of None \<Rightarrow> rows | Some l \<Rightarrow> rows[i := indent_of (rows ! i) @ l])"

lemma replaceDefault_ok:
  "replaceDefault script file m r = Inr out \<longleftrightarrow>
     (\<exists>i. once_line m (split_on CHR 0x0A script) i \<and> out = set_line i r script)"
  by (auto simp: replaceDefault_def set_line_def Let_def hits_once [symmetric] split: list.splits option.splits)

lemma set_line_rows:
  assumes "\<And>l. r = Some l \<Longrightarrow> CHR 0x0A \<notin> set l" "i < length (split_on CHR 0x0A script)"
  shows "split_on CHR 0x0A (set_line i r script) = with_line i r (split_on CHR 0x0A script)"
proof -
  have "CHR 0x0A \<notin> set (indent_of (split_on CHR 0x0A script ! i))"
    using split_on_no_sep [OF nth_mem [OF assms(2)]] by (auto simp: indent_spaces dest: set_takeWhileD)
  with assms(1) show ?thesis by (auto simp: set_line_def with_line_def lines_updated split: option.splits)
qed

lemma script_lines:
  "\<not> js_space (hd (sp_version (SCRIPTS kind) v))" "\<not> js_space (last (sp_version (SCRIPTS kind) v))"
  "sp_version (SCRIPTS kind) v \<noteq> []" "sp_version (SCRIPTS kind) v \<noteq> sp_url (SCRIPTS kind) u"
  by (cases kind; simp add: js_space_def)+

lemma version_line_cases:
  assumes "version_line kind cfg read = Some l"
  shows "\<exists>v. VERSION_RE v \<and> l = sp_version (SCRIPTS kind) v" "CHR 0x0A \<notin> set l"
proof -
  from assms obtain v where v: "VERSION_RE v" "l = sp_version (SCRIPTS kind) v"
    by (auto simp: version_line_def split: option.splits if_splits)
  then show "\<exists>v. VERSION_RE v \<and> l = sp_version (SCRIPTS kind) v" by blast
  show "CHR 0x0A \<notin> set l" using v version_plain [OF v(1), of "CHR 0x0A"] by (cases kind) (auto simp: breaks_out_def quote_def)
qed

lemma url_line_cases:
  assumes "url_line kind cfg = Some l"
  shows "\<exists>u. URL_RE u \<and> l = sp_url (SCRIPTS kind) u" "CHR 0x0A \<notin> set l"
proof -
  from assms obtain u where u: "URL_RE u" "l = sp_url (SCRIPTS kind) u"
    by (auto simp: url_line_def Let_def split: if_splits)
  then show "\<exists>u. URL_RE u \<and> l = sp_url (SCRIPTS kind) u" by blast
  show "CHR 0x0A \<notin> set l" using u url_plain [OF u(1), of "CHR 0x0A"] by (cases kind) (auto simp: breaks_out_def quote_def)
qed

text \<open>Replacing the line of the version neither adds nor removes one of the address.\<close>

lemma once_other:
  assumes "once_line (sp_version (SCRIPTS kind) w) rows i" "r = None \<or> (\<exists>v. r = Some (sp_version (SCRIPTS kind) v))"
  shows "once_line (sp_url (SCRIPTS kind) u) (with_line i r rows) j \<longleftrightarrow> once_line (sp_url (SCRIPTS kind) u) rows j"
proof -
  have "trim (with_line i r rows ! k) = sp_url (SCRIPTS kind) u \<longleftrightarrow> trim (rows ! k) = sp_url (SCRIPTS kind) u"
    if "k < length rows" for k
  proof (cases "k = i")
    case True
    have new: "trim (indent_of l @ sp_version (SCRIPTS kind) v) \<noteq> sp_url (SCRIPTS kind) u" for l v
      unfolding trim_indented [OF script_lines(3,1,2)] by (rule script_lines(4))
    have old: "trim (rows ! i) \<noteq> sp_url (SCRIPTS kind) u" using assms(1) script_lines(4) by (simp add: once_line_def)
    from assms(2) True that have "with_line i r rows ! k = rows ! i \<or> (\<exists>v. with_line i r rows ! k = indent_of (rows ! i) @ sp_version (SCRIPTS kind) v)"
      by (auto simp: with_line_def)
    with True new old show ?thesis by metis
  next
    case False
    then show ?thesis by (simp add: with_line_def split: option.splits)
  qed
  moreover have "length (with_line i r rows) = length rows" by (simp add: with_line_def split: option.splits)
  ultimately show ?thesis by (auto simp: once_line_def)
qed

section \<open>The scan of the log\<close>

lemma keys_shape:
  assumes "k \<in> set SENSITIVE_KEYS"
  shows "k \<noteq> []" "\<forall>c \<in> set k. 97 \<le> (of_char c :: nat) \<and> (of_char c :: nat) \<le> 122 \<or> c = CHR ''_''"
  using assms by (auto simp: SENSITIVE_KEYS_def)

lemma lower_back:
  assumes "97 \<le> (of_char (lower_char c) :: nat) \<and> (of_char (lower_char c) :: nat) \<le> 122 \<or> lower_char c = CHR ''_''"
  shows "word_char c" "value_char c" "c \<noteq> CHR ''=''"
  using assms by (auto simp: lower_char_def Let_def word_char_def value_char_def js_space_def is_alnum_def is_digit_def split: if_splits)

lemma key_chars:
  assumes "to_lower k \<in> set SENSITIVE_KEYS" "c \<in> set k"
  shows "word_char c" "value_char c" "c \<noteq> CHR ''=''"
  using lower_back [of c] keys_shape(2) [OF assms(1)] assms(2) by (auto simp: to_lower_def)

lemma first_sep: "c \<in> set s \<Longrightarrow> \<exists>r. s = takeWhile (\<lambda>x. x \<noteq> c) s @ c # r"
  by (induction s) auto

text \<open>A name can only end at the first equals sign.\<close>

lemma key_at_eq:
  "key_at s =
     (if CHR ''='' \<in> set s \<and> to_lower (takeWhile (\<lambda>c. c \<noteq> CHR ''='') s) \<in> set SENSITIVE_KEYS
      then Some (length (takeWhile (\<lambda>c. c \<noteq> CHR ''='') s)) else None)"
proof -
  let ?n = "takeWhile (\<lambda>c. c \<noteq> CHR ''='') s"
  have hit: "to_lower (take (length k) s) = k \<and> starts_with ''='' (drop (length k) s) \<longleftrightarrow> CHR ''='' \<in> set s \<and> to_lower ?n = k"
    if k: "k \<in> set SENSITIVE_KEYS" for k
  proof
    assume h: "to_lower (take (length k) s) = k \<and> starts_with ''='' (drop (length k) s)"
    then obtain r where r: "drop (length k) s = CHR ''='' # r" by (auto dest!: starts_withE)
    then have s: "s = take (length k) s @ CHR ''='' # r" by (metis append_take_drop_id)
    have "\<forall>c \<in> set (take (length k) s). c \<noteq> CHR ''=''" using key_chars(3) [of "take (length k) s"] h k by auto
    then have "?n = take (length k) s" by (subst s) (simp add: takeWhile_append)
    with h s show "CHR ''='' \<in> set s \<and> to_lower ?n = k" by (metis in_set_conv_decomp)
  next
    assume h: "CHR ''='' \<in> set s \<and> to_lower ?n = k"
    then obtain r where s: "s = ?n @ CHR ''='' # r"
      using first_sep by metis
    have "length k = length ?n" using h by (auto simp: to_lower_def)
    then have "take (length k) s = ?n" "drop (length k) s = CHR ''='' # r" using s by (metis append_eq_conv_conj)+
    with h show "to_lower (take (length k) s) = k \<and> starts_with ''='' (drop (length k) s)" by (simp add: starts_with_def)
  qed
  show ?thesis
  proof (cases "CHR ''='' \<in> set s \<and> to_lower ?n \<in> set SENSITIVE_KEYS")
    case True
    then obtain k where k: "find (\<lambda>k. to_lower (take (length k) s) = k \<and> starts_with ''='' (drop (length k) s)) SENSITIVE_KEYS = Some k"
      using hit by (cases "find (\<lambda>k. to_lower (take (length k) s) = k \<and> starts_with ''='' (drop (length k) s)) SENSITIVE_KEYS")
        (auto simp: find_None_iff)
    then have "k \<in> set SENSITIVE_KEYS" "to_lower (take (length k) s) = k \<and> starts_with ''='' (drop (length k) s)"
      by (auto simp: find_Some_iff)
    with hit have "to_lower ?n = k" by blast
    with True k show ?thesis by (auto simp: key_at_def to_lower_def)
  next
    case False
    with hit show ?thesis by (auto simp: key_at_def find_None_iff)
  qed
qed

lemma no_key_here: "\<not> value_char c \<Longrightarrow> key_at (c # s) = None"
  using key_chars(2) [of "takeWhile (\<lambda>c. c \<noteq> CHR ''='') (c # s)" c] keys_shape(1) [of "[]"] by (auto simp: key_at_eq value_char_def to_lower_def)

lemma redact_flag: "rest = [] \<or> \<not> value_char (hd rest) \<Longrightarrow> redact b rest = redact b' rest"
  by (cases rest) (auto simp: no_key_here)

lemma scan_to_rest:
  assumes "\<forall>c \<in> set a. value_char c" "rest = [] \<or> \<not> value_char (hd rest)"
  shows "dropWhile value_char (a @ rest) = rest"
  using assms by (cases rest) (auto simp: dropWhile_append2)

lemma first_name:
  "takeWhile (\<lambda>c. c \<noteq> CHR ''='') (q @ k @ ''='' @ u) = takeWhile (\<lambda>c. c \<noteq> CHR ''='') (q @ k @ ''='')"
  using takeWhile_append1 [of "CHR ''=''" "q @ k @ ''=''" "\<lambda>c. c \<noteq> CHR ''=''" u] by simp

lemma key_at_prefix: "key_at (q @ k @ ''='' @ u) = key_at (q @ k @ ''='' @ u')"
  unfolding key_at_eq first_name by simp

text \<open>A sensitive name where one may begin: its value is skipped.\<close>

lemma redact_name:
  assumes "to_lower k \<in> set SENSITIVE_KEYS" "\<forall>c \<in> set u. value_char c" "rest = [] \<or> \<not> value_char (hd rest)"
  shows "redact False (k @ ''='' @ u @ rest) = k @ ''=***'' @ redact False rest"
proof -
  have n: "takeWhile (\<lambda>c. c \<noteq> CHR ''='') (k @ ''='' @ u @ rest) = k"
    using first_name [of "[]" k "u @ rest"] key_chars(3) [OF assms(1)] by (simp add: takeWhile_append2)
  have key: "key_at (k @ ''='' @ u @ rest) = Some (length k)" unfolding key_at_eq n using assms(1) by simp
  obtain x xs where kx: "k = x # xs" using keys_shape(1) [OF assms(1)] by (cases k) (auto simp: to_lower_def)
  show ?thesis
    using key scan_to_rest [OF assms(2,3)] redact_flag [OF assms(3), of _ False] by (simp add: kx Let_def)
qed

text \<open>A name found further ahead ends before the one in question begins.\<close>

lemma key_before:
  assumes "to_lower k \<in> set SENSITIVE_KEYS" "p \<noteq> []" "\<not> word_char (last p)" "key_at (p @ k @ ''='' @ u) = Some n"
  obtains r where "p = take n p @ CHR ''='' # r" "n < length p"
proof -
  have "CHR ''='' \<in> set p"
  proof (rule ccontr)
    assume "CHR ''='' \<notin> set p"
    then have "\<forall>c \<in> set p. c \<noteq> CHR ''=''" by auto
    with key_chars(3) [OF assms(1)] have "takeWhile (\<lambda>c. c \<noteq> CHR ''='') (p @ k @ ''='' @ u) = p @ k"
      unfolding first_name by (simp add: takeWhile_append2)
    with assms(4) have "to_lower (p @ k) \<in> set SENSITIVE_KEYS" by (auto simp: key_at_eq split: if_splits)
    with assms(2,3) show False using key_chars(1) [of "p @ k" "last p"] by auto
  qed
  then obtain r where r: "p = takeWhile (\<lambda>c. c \<noteq> CHR ''='') p @ CHR ''='' # r" using first_sep by metis
  have "n = length (takeWhile (\<lambda>c. c \<noteq> CHR ''='') p)"
    using assms(4) by (auto simp: key_at_eq takeWhile_append1 [OF \<open>CHR ''='' \<in> set p\<close>] split: if_splits)
  with r have "p = take n p @ CHR ''='' # r" "n < length p"
    by (metis append_eq_conv_conj, metis length_append length_Cons less_add_Suc1 add_Suc_right)
  then show ?thesis using that by blast
qed

lemma redact_step:
  assumes "\<not> i" "key_at (p @ s) = Some n" "p = take n p @ CHR ''='' # r" "n < length p"
  shows "redact i (p @ s) = take n p @ ''=***'' @
    redact (takeWhile value_char (r @ s) \<noteq> [] \<and> word_char (last (takeWhile value_char (r @ s)))) (dropWhile value_char (r @ s))"
proof -
  obtain x xs where "p = x # xs" using assms(3) by (cases p) auto
  moreover have "drop (Suc n) (take n p @ CHR ''='' # r) = r" using assms(4) by simp
  then have "drop (Suc n) (p @ s) = r @ s" "take n (p @ s) = take n p" using assms(3,4) by (simp_all add: Suc_leI)
  ultimately show ?thesis using assms(1,2) by (simp add: Let_def)
qed

lemma suffix_shorter: "p = a @ x # r \<Longrightarrow> length r < length p \<and> (r \<noteq> [] \<longrightarrow> last p = last r)"
  by auto

lemma query_value_hidden:
  assumes k: "to_lower k \<in> set SENSITIVE_KEYS" and p: "if p = [] then \<not> i else \<not> word_char (last p)"
    and v: "\<forall>c \<in> set v. value_char c" "\<forall>c \<in> set v'. value_char c" and rest: "rest = [] \<or> \<not> value_char (hd rest)"
  shows "redact i (p @ k @ ''='' @ v @ rest) = redact i (p @ k @ ''='' @ v' @ rest)"
  using p
proof (induction p arbitrary: i rule: measure_induct_rule [of length])
  case (less p)
  let ?S = "\<lambda>v. k @ ''='' @ v @ rest"
  show ?case
  proof (cases "p = [] \<or> i \<or> key_at (p @ ?S v) = None")
    case True
    show ?thesis
    proof (cases p)
      case Nil
      with less.prems v show ?thesis by (simp only: append_Nil redact_name [OF k _ rest] if_True)
    next
      case (Cons c p')
      have no: "i \<or> key_at (p @ ?S u) = None" for u
        using True Cons key_at_prefix [of p k "u @ rest" "v @ rest"] by simp
      have "redact i (p @ ?S u) = c # redact (word_char c) (p' @ ?S u)" for u using no [of u] Cons by auto
      moreover have "redact (word_char c) (p' @ ?S v) = redact (word_char c) (p' @ ?S v')"
        using less.IH [of p'] less.prems Cons by (auto split: if_splits)
      ultimately show ?thesis by simp
    qed
  next
    case False
    then obtain n where pi: "p \<noteq> []" "\<not> i" and key: "key_at (p @ ?S v) = Some n" by auto
    with less.prems obtain r where r: "p = take n p @ CHR ''='' # r" "n < length p" using key_before [OF k pi(1) _ key] by auto
    have key': "key_at (p @ ?S v') = Some n" using key key_at_prefix [of p k "v @ rest" "v' @ rest"] by simp
    note steps = redact_step [OF pi(2) key r] redact_step [OF pi(2) key' r]
    show ?thesis
    proof (cases "\<forall>c \<in> set r. value_char c")
      case True
      have "dropWhile value_char (r @ ?S u) = rest" if "\<forall>c \<in> set u. value_char c" for u
      proof -
        have "value_char CHR ''=''" by (simp add: value_char_def js_space_def)
        with True that key_chars(2) [OF k] have "\<forall>c \<in> set (r @ k @ ''='' @ u). value_char c" by auto
        from scan_to_rest [OF this rest] show ?thesis by simp
      qed
      with v have ends: "dropWhile value_char (r @ ?S v) = rest" "dropWhile value_char (r @ ?S v') = rest" by blast+
      show ?thesis unfolding steps ends using redact_flag [OF rest] by (intro arg_cong2 [of _ _ _ _ append] refl) blast
    next
      case False
      let ?q = "dropWhile value_char r"
      have "?q \<noteq> []" using False by simp
      moreover from this have "last ?q = last r" by (metis last_appendR takeWhile_dropWhile_id)
      moreover have "last p = last r" using suffix_shorter [OF r(1)] False by auto
      moreover have "length r < length p" using suffix_shorter [OF r(1)] by simp
      then have "length ?q < length p" using length_dropWhile_le [of value_char r] by linarith
      ultimately have q: "?q \<noteq> []" "last ?q = last p" "length ?q < length p" by simp_all
      have "redact b (?q @ ?S v) = redact b (?q @ ?S v')" for b
      proof (rule less.IH [OF q(3)])
        show "if ?q = [] then \<not> b else \<not> word_char (last ?q)" using less.prems pi q(1,2) by (simp only: if_False not_False_eq_True)
      qed
      with False show ?thesis unfolding steps by (auto simp: dropWhile_append1 takeWhile_append1)
    qed
  qed
qed

section \<open>Theorems\<close>

text \<open>A script may differ from the bundled one only in the two lines with defaults.\<close>

definition only_defaults_changed :: "cli_script_kind \<Rightarrow> string list \<Rightarrow> string list \<Rightarrow> bool" where
  "only_defaults_changed kind rows rows' \<longleftrightarrow>
     length rows' = length rows \<and>
     (\<forall>i < length rows. rows' ! i = rows ! i \<or>
        trim (rows ! i) = sp_version (SCRIPTS kind) ''latest'' \<and>
          (\<exists>v. VERSION_RE v \<and> rows' ! i = indent_of (rows ! i) @ sp_version (SCRIPTS kind) v) \<or>
        trim (rows ! i) = sp_url (SCRIPTS kind) [] \<and>
          (\<exists>u. URL_RE u \<and> rows' ! i = indent_of (rows ! i) @ sp_url (SCRIPTS kind) u))"

lemma served_lines:
  assumes "read (ac_cli_script_dir cfg) (sp_file (SCRIPTS kind)) = Some script"
  shows "cli_installScript cfg read kind = Inr out \<longleftrightarrow>
    (\<exists>i j. once_line (sp_version (SCRIPTS kind) ''latest'') (split_on CHR 0x0A script) i \<and>
       once_line (sp_url (SCRIPTS kind) []) (split_on CHR 0x0A script) j \<and>
       out = set_line j (url_line kind cfg) (set_line i (version_line kind cfg read) script))"
proof -
  let ?rows = "split_on CHR 0x0A script" and ?r = "version_line kind cfg read"
  have rows: "split_on CHR 0x0A (set_line i ?r script) = with_line i ?r ?rows"
    if "once_line (sp_version (SCRIPTS kind) ''latest'') ?rows i" for i
    by (rule set_line_rows) (use version_line_cases(2) that in \<open>auto simp: once_line_def\<close>)
  have same: "once_line (sp_url (SCRIPTS kind) []) (with_line i ?r ?rows) j \<longleftrightarrow> once_line (sp_url (SCRIPTS kind) []) ?rows j"
    if "once_line (sp_version (SCRIPTS kind) ''latest'') ?rows i" for i j
    by (rule once_other [OF that]) (metis version_line_cases(1) option.exhaust)
  have "cli_installScript cfg read kind = Inr out \<longleftrightarrow>
      (\<exists>s1. replaceDefault script (sp_file (SCRIPTS kind)) (sp_version (SCRIPTS kind) ''latest'') ?r = Inr s1 \<and>
        replaceDefault s1 (sp_file (SCRIPTS kind)) (sp_url (SCRIPTS kind) []) (url_line kind cfg) = Inr out)"
    by (simp add: cli_installScript_def assms Let_def split: sum.splits)
  also have "\<dots> \<longleftrightarrow> (\<exists>i. once_line (sp_version (SCRIPTS kind) ''latest'') ?rows i \<and>
      (\<exists>j. once_line (sp_url (SCRIPTS kind) []) (split_on CHR 0x0A (set_line i ?r script)) j \<and>
        out = set_line j (url_line kind cfg) (set_line i ?r script)))"
    unfolding replaceDefault_ok by blast
  also have "\<dots> \<longleftrightarrow> (\<exists>i. once_line (sp_version (SCRIPTS kind) ''latest'') ?rows i \<and>
      (\<exists>j. once_line (sp_url (SCRIPTS kind) []) ?rows j \<and> out = set_line j (url_line kind cfg) (set_line i ?r script)))"
    by (simp add: rows same cong: conj_cong)
  finally show ?thesis by blast
qed

lemma served_changes:
  assumes "once_line (sp_version (SCRIPTS kind) ''latest'') (split_on CHR 0x0A script) i"
    "once_line (sp_url (SCRIPTS kind) []) (split_on CHR 0x0A script) j"
  shows "only_defaults_changed kind (split_on CHR 0x0A script)
    (split_on CHR 0x0A (set_line j (url_line kind cfg) (set_line i (version_line kind cfg read) script)))"
proof -
  let ?rows = "split_on CHR 0x0A script"
  have ij: "i < length ?rows" "j < length ?rows" using assms by (simp_all add: once_line_def)
  have "i \<noteq> j" using assms script_lines(4) [of kind "''latest''" "[]"] unfolding once_line_def by metis
  have one: "split_on CHR 0x0A (set_line i (version_line kind cfg read) script) = with_line i (version_line kind cfg read) ?rows"
    by (rule set_line_rows) (use version_line_cases(2) ij in auto)
  have "split_on CHR 0x0A (set_line j (url_line kind cfg) (set_line i (version_line kind cfg read) script)) =
      with_line j (url_line kind cfg) (with_line i (version_line kind cfg read) ?rows)"
    unfolding one [symmetric]
    by (rule set_line_rows) (use url_line_cases(2) ij in \<open>auto simp: one with_line_def split: option.splits\<close>)
  moreover have "trim (?rows ! i) = sp_version (SCRIPTS kind) ''latest''" "trim (?rows ! j) = sp_url (SCRIPTS kind) []"
    using assms by (simp_all add: once_line_def)
  ultimately show ?thesis
    using ij \<open>i \<noteq> j\<close> url_line_cases(1) [of kind cfg] version_line_cases(1) [of kind cfg read]
    by (auto simp: only_defaults_changed_def with_line_def nth_list_update split: option.splits)
qed


definition sample_app_config :: app_config where
  "sample_app_config = loadConfig (\<lambda>_. None) ''cli'' (\<lambda>n. if n = ''PUBLIC_BASE_URL'' then Some ''https://amber.example/'' else None)"

definition sample_script :: string where
  "sample_script = join_with [CHR 0x0A] [''#!/bin/sh'', sp_version (SCRIPTS ScriptSh) ''latest'', sp_url (SCRIPTS ScriptSh) []]"


text \<open>
  C30: The value of a sensitive parameter does not reach the access log. Two requests that differ only in
  that value, up to the next ampersand or space, are logged alike, wherever the parameter stands and in
  whatever case its name is written, as long as the name is not the end of a longer word.
\<close>

theorem sensitive_values_not_logged:
  assumes "to_lower k \<in> set SENSITIVE_KEYS" "p = [] \<or> \<not> word_char (last p)"
    "\<forall>c \<in> set v. value_char c" "\<forall>c \<in> set v'. value_char c" "rest = [] \<or> \<not> value_char (hd rest)"
  shows "httpLogger m (p @ k @ ''='' @ v @ rest) status ms len = httpLogger m (p @ k @ ''='' @ v' @ rest) status ms len"
proof -
  have "if p = [] then \<not> False else \<not> word_char (last p)" using assms(2) by auto
  from query_value_hidden [OF assms(1) this assms(3-5)] show ?thesis by (simp add: httpLogger_def redactUrl_def)
qed

theorem sensitive_values_not_logged_witness:
  "httpLogger ''GET'' (''/api/auth/sso/callback?'' @ ''Code'' @ ''='' @ ''s3cret'' @ ''&x=1'') 302 4 None =
   httpLogger ''GET'' (''/api/auth/sso/callback?'' @ ''Code'' @ ''='' @ ''other'' @ ''&x=1'') 302 4 None"
proof (rule sensitive_values_not_logged)
  show "to_lower ''Code'' \<in> set SENSITIVE_KEYS" by code_simp
  show "''/api/auth/sso/callback?'' = [] \<or> \<not> word_char (last ''/api/auth/sso/callback?'')" by code_simp
  show "\<forall>c \<in> set ''s3cret''. value_char c" "\<forall>c \<in> set ''other''. value_char c" by code_simp+
  show "''&x=1'' = [] \<or> \<not> value_char (hd ''&x=1'')" by code_simp
qed

text \<open>
  What an update check stores is a version of three numbers and a link to the releases of the project,
  whatever is answered; a check that fails, or one that is switched off, changes nothing.
\<close>

definition status_trusted :: "update_status \<Rightarrow> bool" where
  "status_trusted st \<longleftrightarrow>
     (ut_latest_version st = None \<or> (\<exists>v. ut_latest_version st = Some v \<and> VERSION_RE v)) \<and>
     (ut_release_url st = None \<or> (\<exists>u. ut_release_url st = Some u \<and> starts_with release_prefix u))"

lemma releasePageUrl_prefix: "starts_with release_prefix (releasePageUrl h tag)"
  by (auto simp: releasePageUrl_def split: option.splits json.splits)

theorem update_status_trusted:
  "status_trusted (foldl (\<lambda>st (now, res). update_check cfg now res st) no_update_status answers)"
proof -
  have "status_trusted st \<Longrightarrow> status_trusted (update_check cfg now res st)" for now res st
    by (auto simp: update_check_def read_release_def status_trusted_def releasePageUrl_prefix RELEASE_TAG_RE_def
        split: sum.splits option.splits list.splits if_splits)
  then have "status_trusted st \<Longrightarrow> status_trusted (foldl (\<lambda>st (now, res). update_check cfg now res st) st answers)" for st
    by (induction answers arbitrary: st) auto
  then show ?thesis by (simp add: status_trusted_def no_update_status_def)
qed
end
