(* ===== verification/StorageChart.thy ===== *)
theory StorageChart
  imports Repositories Complex_Main "HOL-Library.AList"
begin

text \<open>
  The growth chart of the dashboard, \<open>client/src/ui/storage-chart.tsx\<close>, over the readings that
  \<open>statsHistory\<close> of the server returns: the fold of readings into one series, the value under the
  pointer and the summary. The theorem spans server and client: what the pointer reads is the sum of
  the latest stored readings. Pixels, axes and labels are left out.
\<close>

section \<open>The series\<close>

text \<open>A reading as the API returns it: repository, time, bytes.\<close>

type_synonym reading = "uuid \<times> time \<times> nat"

record storage_point =
  st_t :: time
  st_bytes :: nat

definition reading_of :: "stats_history \<Rightarrow> reading" where
  "reading_of h = (sh_repository_id h, sh_measured_at h, sh_size_bytes h)"

text \<open>The map of latest sizes keeps the order in which repositories came, as a \<open>Map\<close> does.\<close>

definition sizes_sum :: "(uuid \<times> nat) list \<Rightarrow> nat" where
  "sizes_sum latest = sum_list (map snd latest)"

fun series_step ::
  "time \<Rightarrow> (uuid \<times> nat) list \<times> storage_point list \<times> bool \<Rightarrow> reading \<Rightarrow> (uuid \<times> nat) list \<times> storage_point list \<times> bool" where
  "series_step since (latest, out, seeded) (i, t, b) =
     (let latest1 = AList.update i b latest
      in if t < since then (latest1, out, True)
         else (latest1,
               (if seeded then out @ [\<lparr>st_t = since, st_bytes = sizes_sum latest\<rparr>] else out) @
               [\<lparr>st_t = t, st_bytes = sizes_sum latest1\<rparr>],
               False))"

definition totalStorageSeries :: "time \<Rightarrow> reading list \<Rightarrow> time \<Rightarrow> storage_point list" where
  "totalStorageSeries since points now =
     (case foldl (series_step since) ([], [], False) (sort_key (\<lambda>(i, t, b). t) points) of
        (latest, out, seeded) \<Rightarrow>
          (let out1 = (if seeded then out @ [\<lparr>st_t = since, st_bytes = sizes_sum latest\<rparr>] else out)
           in if out1 = [] then [] else out1 @ [\<lparr>st_t = now, st_bytes = st_bytes (last out1)\<rparr>]))"

text \<open>The value under the pointer: the first point, then every one not after the time.\<close>

definition hovered_at :: "time \<Rightarrow> storage_point list \<Rightarrow> storage_point option" where
  "hovered_at hover series =
     (case series of
        [] \<Rightarrow> None
      | p # ps \<Rightarrow> Some \<lparr>st_t = hover, st_bytes = st_bytes (foldl (\<lambda>best q. if st_t q \<le> hover then q else best) p (p # ps))\<rparr>)"

definition MIN_RATE_DAYS :: int where
  "MIN_RATE_DAYS = 1"

record storage_summary =
  su_total :: nat
  su_delta :: int
  su_per_day :: "rat option"

definition storage_summary_of :: "storage_point list \<Rightarrow> storage_summary option" where
  "storage_summary_of series =
     (if series = [] then None
      else let a = hd series; z = last series; delta = int (st_bytes z) - int (st_bytes a); span = st_t z - st_t a
           in Some \<lparr>su_total = st_bytes z, su_delta = delta,
                    su_per_day = (if span \<ge> MIN_RATE_DAYS * 86400000 then Some (of_int delta * 86400000 / of_int span) else None)\<rparr>)"

section \<open>The series in closed form\<close>

definition latest_sizes :: "reading list \<Rightarrow> (uuid \<times> nat) list" where
  "latest_sizes rs = foldl (\<lambda>l (i, t, b). AList.update i b l) [] rs"

definition total_of :: "reading list \<Rightarrow> nat" where
  "total_of rs = sizes_sum (latest_sizes rs)"

lemma latest_sizes_snoc: "latest_sizes (rs @ [(i, t, b)]) = AList.update i b (latest_sizes rs)"
  by (simp add: latest_sizes_def)

lemma fold_before:
  "\<forall>(i, t, b) \<in> set rs. t < since \<Longrightarrow>
   foldl (series_step since) ([], [], False) rs = (latest_sizes rs, [], rs \<noteq> [])"
  by (induction rs rule: rev_induct) (auto simp: latest_sizes_def Let_def)

definition inner_points :: "reading list \<Rightarrow> reading list \<Rightarrow> storage_point list" where
  "inner_points before ins =
     map (\<lambda>k. \<lparr>st_t = fst (snd (ins ! k)), st_bytes = total_of (before @ take (Suc k) ins)\<rparr>) [0..<length ins]"

lemma inner_points_snoc:
  "inner_points before (ins @ [r]) = inner_points before ins @ [\<lparr>st_t = fst (snd r), st_bytes = total_of (before @ ins @ [r])\<rparr>]"
  by (simp add: inner_points_def nth_append)

definition since_point :: "time \<Rightarrow> reading list \<Rightarrow> storage_point list" where
  "since_point since before = (if before = [] then [] else [\<lparr>st_t = since, st_bytes = total_of before\<rparr>])"

lemma fold_inside:
  assumes "\<forall>(i, t, b) \<in> set before. t < since" "\<forall>(i, t, b) \<in> set ins. since \<le> t" "ins \<noteq> []"
  shows "foldl (series_step since) ([], [], False) (before @ ins) =
    (latest_sizes (before @ ins), since_point since before @ inner_points before ins, False)"
  using assms(2,3)
proof (induction ins rule: rev_induct)
  case (snoc r ins)
  obtain i t b where r: "r = (i, t, b)" by (cases r)
  show ?case
  proof (cases "ins = []")
    case True
    with snoc.prems r fold_before [OF assms(1)] show ?thesis
      by (auto simp: Let_def latest_sizes_snoc since_point_def inner_points_def total_of_def)
  next
    case False
    with snoc r have "foldl (series_step since) ([], [], False) (before @ ins) =
        (latest_sizes (before @ ins), since_point since before @ inner_points before ins, False)" by auto
    with snoc.prems r show ?thesis
      by (simp add: Let_def inner_points_snoc total_of_def latest_sizes_snoc [of "before @ ins", simplified])
  qed
qed simp

definition at_of :: "reading \<Rightarrow> time" where
  "at_of r = fst (snd r)"

lemma at_of_simp [simp]: "at_of (i, t, b) = t"
  by (simp add: at_of_def)

lemma at_of_eq: "(\<lambda>(i, t, b). t) = at_of"
  by (auto simp: at_of_def)

definition in_order :: "reading list \<Rightarrow> reading list" where
  "in_order points = sort_key at_of points"

lemma in_order_simps [simp]: "set (in_order ps) = set ps" "sorted (map at_of (in_order ps))" "in_order ps = [] \<longleftrightarrow> ps = []"
  by (simp_all add: in_order_def) (metis length_0_conv length_sort)

lemma last_inner: "ins \<noteq> [] \<Longrightarrow> st_bytes (last (inner_points before ins)) = total_of (before @ ins)"
  by (cases ins rule: rev_cases) (simp_all add: inner_points_snoc)

lemma inner_points_empty [simp]: "inner_points before ins = [] \<longleftrightarrow> ins = []"
  by (simp add: inner_points_def)

lemma series_closed:
  assumes "before = takeWhile (\<lambda>r. at_of r < since) (in_order points)" "ins = dropWhile (\<lambda>r. at_of r < since) (in_order points)"
  shows "totalStorageSeries since points now =
    (if points = [] then []
     else since_point since before @ inner_points before ins @ [\<lparr>st_t = now, st_bytes = total_of (in_order points)\<rparr>])"
proof -
  have all: "in_order points = before @ ins" using assms by simp
  have b: "\<forall>(i, t, b) \<in> set before. t < since" using assms(1) by (auto dest: set_takeWhileD)
  have i: "\<forall>(i, t, b) \<in> set ins. since \<le> t"
  proof -
    have "sorted (map at_of ins)" using in_order_simps(2) [of points] unfolding all by (simp add: sorted_append)
    moreover have "since \<le> at_of (hd ins)" if "ins \<noteq> []"
      using hd_dropWhile [of "\<lambda>r. at_of r < since" "in_order points"] that assms(2) by simp
    ultimately have "\<forall>r \<in> set ins. since \<le> at_of r" by (cases ins) (auto intro: order_trans)
    then show ?thesis by (auto simp: at_of_def)
  qed
  show ?thesis
  proof (cases "ins = []")
    case True
    then show ?thesis
      using fold_before [OF b] all in_order_simps(3) [of points]
      by (auto simp: totalStorageSeries_def at_of_eq in_order_def [symmetric] since_point_def total_of_def Let_def inner_points_def)
  next
    case False
    have "points \<noteq> []" using False all in_order_simps(3) [of points] by auto
    then show ?thesis
      using fold_inside [OF b i False] last_inner [OF False, of before] False
      by (simp add: totalStorageSeries_def at_of_eq in_order_def [symmetric] all)
  qed
qed

lemma fold_latest: "foldl (\<lambda>best q. if P q then q else best) p qs = last (p # filter P qs)"
  by (induction qs arbitrary: p) auto

lemma takeWhile_all_before:
  "sorted (map at_of (rs @ [r])) \<Longrightarrow> at_of r \<le> x \<Longrightarrow> takeWhile (\<lambda>r. at_of r \<le> x) (rs @ [r]) = rs @ [r]"
  by (subst takeWhile_eq_all_conv) (auto simp: sorted_append)

lemma inner_snoc: "inner_points before (ins @ [r]) = inner_points before ins @ [\<lparr>st_t = at_of r, st_bytes = total_of (before @ ins @ [r])\<rparr>]"
  by (simp add: inner_points_snoc at_of_def)

lemma inner_filter:
  "sorted (map at_of ins) \<Longrightarrow>
   filter (\<lambda>q. st_t q \<le> x) (inner_points before ins) = inner_points before (takeWhile (\<lambda>r. at_of r \<le> x) ins)"
proof (induction ins rule: rev_induct)
  case (snoc r ins)
  show ?case
  proof (cases "at_of r \<le> x")
    case True
    have "takeWhile (\<lambda>r. at_of r \<le> x) ins = ins"
      using snoc.prems True by (subst takeWhile_eq_all_conv) (auto simp: sorted_append)
    with snoc True show ?thesis
      using takeWhile_all_before [OF snoc.prems True] by (simp add: inner_snoc sorted_append)
  next
    case False
    with snoc show ?thesis by (simp add: inner_snoc sorted_append takeWhile_tail)
  qed
qed (simp add: inner_points_def)

lemma hovered_total:
  assumes "\<forall>r \<in> set points. at_of r \<le> now" "since \<le> x" "x \<le> now" "\<exists>r \<in> set points. at_of r \<le> x"
  shows "hovered_at x (totalStorageSeries since points now) =
    Some \<lparr>st_t = x, st_bytes = total_of (takeWhile (\<lambda>r. at_of r \<le> x) (in_order points))\<rparr>"
proof -
  define before where "before = takeWhile (\<lambda>r. at_of r < since) (in_order points)"
  define ins where "ins = dropWhile (\<lambda>r. at_of r < since) (in_order points)"
  define upto where "upto = takeWhile (\<lambda>r. at_of r \<le> x) ins"
  let ?s = "totalStorageSeries since points now" and ?all = "takeWhile (\<lambda>r. at_of r \<le> x) (in_order points)"
  have ne: "points \<noteq> []" using assms(4) by auto
  have s: "?s = since_point since before @ inner_points before ins @ [\<lparr>st_t = now, st_bytes = total_of (in_order points)\<rparr>]"
    using series_closed [OF before_def ins_def] ne by simp
  have split: "in_order points = before @ ins" by (simp add: before_def ins_def)
  have "\<forall>r \<in> set before. at_of r \<le> x" using assms(2) by (auto simp: before_def dest!: set_takeWhileD)
  then have all: "?all = before @ upto" unfolding split upto_def by (simp add: takeWhile_append2)
  have "sorted (map at_of ins)" using in_order_simps(2) [of points] unfolding split by (simp add: sorted_append)
  then have f: "filter (\<lambda>q. st_t q \<le> x) ?s = since_point since before @ inner_points before upto @
      (if now \<le> x then [\<lparr>st_t = now, st_bytes = total_of (in_order points)\<rparr>] else [])"
    unfolding s by (simp add: inner_filter upto_def since_point_def assms(2))
  have some: "?all \<noteq> []"
  proof -
    obtain r where "r \<in> set (in_order points)" "at_of r \<le> x" using assms(4) by auto
    then have "at_of (hd (in_order points)) \<le> x"
      using in_order_simps(2) [of points] by (cases "in_order points") (auto intro: order_trans)
    then show ?thesis using ne by (cases "in_order points") (auto dest: in_order_simps(3) [THEN iffD1])
  qed
  have "st_bytes (last (filter (\<lambda>q. st_t q \<le> x) ?s)) = total_of ?all"
  proof (cases "now \<le> x")
    case True
    then have e: "?all = in_order points" using assms(1) by (subst takeWhile_eq_all_conv) auto
    from True show ?thesis unfolding e by (simp add: f)
  next
    case False
    with some show ?thesis unfolding f all
      by (cases "upto = []") (auto simp: since_point_def last_inner inner_points_def [of before "[]"])
  qed
  moreover have "filter (\<lambda>q. st_t q \<le> x) ?s \<noteq> []" using some unfolding f all by (auto simp: since_point_def)
  moreover have "?s \<noteq> []" unfolding s by simp
  ultimately show ?thesis by (cases ?s) (auto simp: hovered_at_def fold_latest split: if_splits)
qed

section \<open>Totals\<close>

definition last_size :: "uuid \<Rightarrow> reading list \<Rightarrow> nat option" where
  "last_size i rs = (if filter (\<lambda>r. fst r = i) rs = [] then None else Some (snd (snd (last (filter (\<lambda>r. fst r = i) rs)))))"

lemma last_size_snoc: "last_size i (rs @ [(j, t, b)]) = (if j = i then Some b else last_size i rs)"
  by (simp add: last_size_def)

lemma latest_map: "map_of (latest_sizes rs) i = last_size i rs"
proof (induction rs rule: rev_induct)
  case (snoc r rs)
  then show ?case by (cases r) (simp add: latest_sizes_snoc last_size_snoc update_conv')
qed (simp add: latest_sizes_def last_size_def)

lemma latest_distinct: "distinct (map fst (latest_sizes rs))"
proof (induction rs rule: rev_induct)
  case (snoc r rs)
  then show ?case by (cases r) (simp add: latest_sizes_snoc distinct_update)
qed (simp add: latest_sizes_def)

definition nat_of :: "nat option \<Rightarrow> nat" where
  "nat_of v = (case v of None \<Rightarrow> 0 | Some n \<Rightarrow> n)"

lemma sizes_sum_map:
  assumes "distinct (map fst l)" "finite A" "set (map fst l) \<subseteq> A"
  shows "sizes_sum l = (\<Sum>i\<in>A. nat_of (map_of l i))"
proof -
  have "sizes_sum l = (\<Sum>e\<in>set l. snd e)"
    using assms(1) by (simp add: sizes_sum_def sum_list_distinct_conv_sum_set distinct_map)
  also have "\<dots> = (\<Sum>i\<in>set (map fst l). nat_of (map_of l i))"
    by (rule sum.reindex_cong [of fst "set l", symmetric]) (use assms(1) in \<open>auto simp: nat_of_def distinct_map\<close>)
  also have "\<dots> = (\<Sum>i\<in>A. nat_of (map_of l i))"
    using assms(2,3) by (intro sum.mono_neutral_left) (auto simp: nat_of_def map_of_eq_None_iff [symmetric] simp del: map_of_eq_None_iff)
  finally show ?thesis .
qed

lemma last_size_None: "last_size i rs = None \<longleftrightarrow> i \<notin> fst ` set rs"
  by (auto simp: last_size_def filter_empty_conv)

lemma total_sum: "finite A \<Longrightarrow> fst ` set rs \<subseteq> A \<Longrightarrow> total_of rs = (\<Sum>i\<in>A. nat_of (last_size i rs))"
proof -
  assume A: "finite A" "fst ` set rs \<subseteq> A"
  have "set (map fst (latest_sizes rs)) = {i. map_of (latest_sizes rs) i \<noteq> None}" by (auto simp: map_of_eq_None_iff)
  also have "\<dots> \<subseteq> A" using A(2) by (auto simp: latest_map last_size_None)
  finally show ?thesis
    unfolding total_of_def using sizes_sum_map [OF latest_distinct A(1)] by (simp add: latest_map)
qed

text \<open>With one reading of a repository at a time, the last one of a sorted prefix is the latest.\<close>

lemma last_size_sorted:
  assumes "sorted (map at_of rs)" "(i, t, b) \<in> set rs" "t \<le> x" "\<forall>(j, t', b') \<in> set rs. j = i \<and> t' \<le> x \<longrightarrow> t' < t \<or> (t' = t \<and> b' = b)"
  shows "last_size i (takeWhile (\<lambda>r. at_of r \<le> x) rs) = Some b"
proof -
  let ?p = "takeWhile (\<lambda>r. at_of r \<le> x) rs"
  have mem: "r \<in> set ?p \<longleftrightarrow> r \<in> set rs \<and> at_of r \<le> x" for r
    using assms(1) by (induction rs) (auto intro: order_trans dest: set_takeWhileD)
  have s: "sorted (map at_of ?p)" using assms(1) by (metis sorted_append takeWhile_dropWhile_id map_append)
  let ?f = "filter (\<lambda>r. fst r = i) ?p"
  have in_f: "(i, t, b) \<in> set ?f" using assms(2,3) mem by simp
  then obtain q where q: "?f = butlast ?f @ [q]" by (metis append_butlast_last_id empty_iff list.set(1))
  have "sorted (map at_of ?f)" using s by (rule sorted_filter)
  then have "\<forall>r \<in> set ?f. at_of r \<le> at_of q" by (subst (asm) q, subst q) (auto simp: sorted_append)
  with in_f have "t \<le> at_of q" by fastforce
  moreover have "q \<in> set ?f" by (subst q) simp
  then have "q \<in> set rs" "at_of q \<le> x" "fst q = i" using mem by auto
  ultimately have "snd (snd q) = b" using assms(4) by (cases q) fastforce
  moreover have "last ?f = q" "?f \<noteq> []" using q by (metis last_snoc, metis Nil_is_append_conv not_Cons_self2)
  ultimately show ?thesis by (simp add: last_size_def)
qed

section \<open>From the table to the pointer\<close>

lemma last_before_spec:
  "case last_before m i H of
     None \<Rightarrow> \<forall>h \<in> set H. \<not> (sh_repository_id h = i \<and> sh_measured_at h < m)
   | Some h \<Rightarrow> h \<in> set H \<and> sh_repository_id h = i \<and> sh_measured_at h < m \<and>
       (\<forall>g \<in> set H. sh_repository_id g = i \<and> sh_measured_at g < m \<longrightarrow> sh_measured_at g \<le> sh_measured_at h)"
proof (induction H rule: rev_induct)
  case (snoc g H)
  have "last_before m i (H @ [g]) =
      (if sh_repository_id g = i \<and> sh_measured_at g < m
       then (case last_before m i H of None \<Rightarrow> Some g
             | Some b \<Rightarrow> if sh_measured_at b < sh_measured_at g then Some g else Some b)
       else last_before m i H)"
    by (simp add: last_before_def)
  with snoc.IH show ?case by (auto split: option.splits if_splits)
qed (simp add: last_before_def)

text \<open>One reading of a repository at a time.\<close>

definition readings_apart :: "stats_history list \<Rightarrow> bool" where
  "readings_apart H \<longleftrightarrow>
     (\<forall>g \<in> set H. \<forall>h \<in> set H. sh_repository_id g = sh_repository_id h \<and> sh_measured_at g = sh_measured_at h \<longrightarrow> g = h)"

definition chart_points :: "time \<Rightarrow> request_user \<Rightarrow> nat \<Rightarrow> server \<Rightarrow> reading list" where
  "chart_points now u days s = map reading_of (snd (statsHistory now u days s))"

definition visible_repositories :: "request_user \<Rightarrow> server \<Rightarrow> uuid set" where
  "visible_repositories u s = set (map (\<lambda>(r, j). re_id r) (repository_list u s))"

lemma chart_points_set:
  "set (chart_points now u days s) = reading_of `
     ({h \<in> set (repository_stats_history s). sh_repository_id h \<in> visible_repositories u s \<and>
         now - int days * 86400000 \<le> sh_measured_at h} \<union>
      {h. \<exists>i \<in> visible_repositories u s. last_before (now - int days * 86400000) i (repository_stats_history s) = Some h})"
proof -
  have m: "set (List.map_filter f xs) = {y. \<exists>x \<in> set xs. f x = Some y}" for f :: "uuid \<Rightarrow> stats_history option" and xs
    by (force simp: List.map_filter_def)
  have ids: "set (map fst (map (\<lambda>(r, j). (re_id r, re_name r)) (repository_list u s))) = visible_repositories u s"
    by (simp add: visible_repositories_def image_image split_def)
  show ?thesis
    unfolding chart_points_def statsHistory_def Let_def snd_conv set_map [of reading_of] set_sort set_append m set_remdups set_filter ids
    by (rule arg_cong [of _ _ "image reading_of"]) blast
qed

lemma chart_points_stored:
  assumes "r \<in> set (chart_points now u days s)"
  obtains h where "h \<in> set (repository_stats_history s)" "r = reading_of h" "sh_repository_id h \<in> visible_repositories u s"
proof -
  let ?H = "repository_stats_history s" and ?m = "now - int days * 86400000"
  have "h \<in> set ?H \<and> sh_repository_id h \<in> visible_repositories u s"
    if "i \<in> visible_repositories u s" "last_before ?m i ?H = Some h" for i h
    using last_before_spec [where m = ?m and i = i and H = ?H] that by auto
  with assms that show ?thesis by (auto simp: chart_points_set)
qed

definition stored_size :: "server \<Rightarrow> time \<Rightarrow> uuid \<Rightarrow> nat" where
  "stored_size s x i = (case last_before (x + 1) i (repository_stats_history s) of None \<Rightarrow> 0 | Some h \<Rightarrow> sh_size_bytes h)"

lemma latest_spec:
  assumes "last_before (x + 1) i H = Some h"
  shows "h \<in> set H" "sh_repository_id h = i" "sh_measured_at h \<le> x"
    "\<And>g. g \<in> set H \<Longrightarrow> sh_repository_id g = i \<Longrightarrow> sh_measured_at g \<le> x \<Longrightarrow> sh_measured_at g \<le> sh_measured_at h"
  using last_before_spec [where m = "x + 1" and i = i and H = H] assms by auto

text \<open>The latest reading is among those sent, inside the window or as the one before it.\<close>

lemma latest_sent:
  assumes ap: "readings_apart (repository_stats_history s)" and i: "i \<in> visible_repositories u s"
    and x: "now - int days * 86400000 \<le> x" and l: "last_before (x + 1) i (repository_stats_history s) = Some h"
  shows "reading_of h \<in> set (chart_points now u days s)"
proof (cases "now - int days * 86400000 \<le> sh_measured_at h")
  case True
  with latest_spec [OF l] i show ?thesis by (auto simp: chart_points_set)
next
  case False
  let ?H = "repository_stats_history s" and ?m = "now - int days * 86400000"
  from False latest_spec [OF l] last_before_spec [where m = ?m and i = i and H = ?H] obtain g where
    g: "last_before ?m i ?H = Some g" "g \<in> set ?H" "sh_repository_id g = i" "sh_measured_at g < ?m" "sh_measured_at h \<le> sh_measured_at g"
    by (cases "last_before ?m i ?H") auto
  with latest_spec(4) [OF l, of g] x have "sh_measured_at g = sh_measured_at h" by simp
  with ap g latest_spec(1,2) [OF l] have "g = h" unfolding readings_apart_def by metis
  with g(1) i show ?thesis by (auto simp: chart_points_set)
qed

lemma chart_reads_latest:
  assumes ap: "readings_apart (repository_stats_history s)" and i: "i \<in> visible_repositories u s"
    and x: "now - int days * 86400000 \<le> x"
  shows "nat_of (last_size i (takeWhile (\<lambda>r. at_of r \<le> x) (in_order (chart_points now u days s)))) = stored_size s x i"
proof (cases "last_before (x + 1) i (repository_stats_history s)")
  case None
  have "\<forall>h \<in> set (repository_stats_history s). sh_repository_id h = i \<longrightarrow> x < sh_measured_at h"
    using last_before_spec [where m = "x + 1" and i = i and H = "repository_stats_history s"] None by auto
  then have "i \<notin> fst ` set (takeWhile (\<lambda>r. at_of r \<le> x) (in_order (chart_points now u days s)))"
    by (fastforce simp: reading_of_def dest!: set_takeWhileD elim!: chart_points_stored)
  then have "last_size i (takeWhile (\<lambda>r. at_of r \<le> x) (in_order (chart_points now u days s))) = None"
    by (simp add: last_size_None)
  then show ?thesis by (simp add: nat_of_def stored_size_def None)
next
  case (Some h)
  note l = latest_spec [OF Some]
  have "t' < sh_measured_at h \<or> t' = sh_measured_at h \<and> b' = sh_size_bytes h"
    if r: "(i, t', b') \<in> set (chart_points now u days s)" "t' \<le> x" for t' b'
  proof -
    from r(1) obtain g where g: "g \<in> set (repository_stats_history s)" "sh_repository_id g = i" "sh_measured_at g = t'" "sh_size_bytes g = b'"
      by (auto simp: reading_of_def elim!: chart_points_stored)
    moreover have "g = h" if "t' = sh_measured_at h" using ap g l(1,2) that unfolding readings_apart_def by metis
    ultimately show ?thesis using l(4) [of g] r(2) by fastforce
  qed
  then have "last_size i (takeWhile (\<lambda>r. at_of r \<le> x) (in_order (chart_points now u days s))) = Some (sh_size_bytes h)"
    using latest_sent [OF ap i x Some] l(2,3) by (intro last_size_sorted [of _ i "sh_measured_at h"]) (auto simp: reading_of_def)
  then show ?thesis by (simp add: nat_of_def stored_size_def Some)
qed


definition measured_server :: server where
  "measured_server = (sample_server [])\<lparr>repository_stats_history :=
     [\<lparr>sh_repository_id = re_id sample_repository, sh_measured_at = 50, sh_size_bytes = 7, sh_snapshot_count = 1\<rparr>,
      \<lparr>sh_repository_id = re_id sample_repository, sh_measured_at = 120, sh_size_bytes = 9, sh_snapshot_count = 2\<rparr>]\<rparr>"


text \<open>
  Before the first reading there is no latest one; the pointer then reads the total of the first
  reading, although the comment of the chart says the latest reading at or before the pointer.
\<close>

theorem pointer_before_first_reading:
  assumes "since \<le> t" "hover < t"
  shows "hovered_at hover (totalStorageSeries since [(i, t, b)] now) = Some \<lparr>st_t = hover, st_bytes = b\<rparr>"
  using assms by (auto simp: totalStorageSeries_def hovered_at_def sizes_sum_def Let_def)

end
