(* ===== verification/ClientCore.thy ===== *)
theory ClientCore
  imports Delivery DeviceAuth AuditLog
begin

text \<open>
  The parts of the web client that decide something: \<open>client/src/core\<close> (search, versions, format,
  pairing links), \<open>client/src/hooks\<close> (asynchronous loads, the upgrade hint), \<open>client/src/i18n\<close> (the
  active language) and the functions of pages that mirror a rule of the server. The theorems relate
  them to the server where they depend on it: what the upgrade hint may link to, that a typed pairing
  code means the same on both sides, that the settings page agrees with the server about providers.
  Rendering is left out.
\<close>

section \<open>Search\<close>

fun split_any :: "(char \<Rightarrow> bool) \<Rightarrow> string \<Rightarrow> string list" where
  "split_any P [] = [[]]"
| "split_any P (c # s) =
     (if P c then [] # split_any P s
      else case split_any P s of [] \<Rightarrow> [[c]] | y # ys \<Rightarrow> (c # y) # ys)"

text \<open>
  \<open>split(/\s+/).filter(Boolean)\<close>: with the empty parts gone, splitting at every space is the same. An
  absent field is \<open>None\<close>; an empty one is dropped as well.
\<close>

definition js_words :: "string \<Rightarrow> string list" where
  "js_words s = filter (\<lambda>w. w \<noteq> []) (split_any js_space s)"

definition present_fields :: "string option list \<Rightarrow> string list" where
  "present_fields fs = filter (\<lambda>f. f \<noteq> []) (List.map_filter id fs)"

definition matchesSearch :: "string \<Rightarrow> string option list \<Rightarrow> bool" where
  "matchesSearch query fs =
     (let terms = js_words (to_lower query) in
      if terms = [] then True
      else let haystack = to_lower (join_with [CHR 0x0A] (present_fields fs))
           in list_all (\<lambda>t. AuditLog.contains t haystack) terms)"

section \<open>Versions and the upgrade hint\<close>

text \<open>\<open>split(/[.+-]/, 3)\<close>: at most the first three parts; \<open>parseInt\<close> reads the leading digits.\<close>

definition leading_number :: "string \<Rightarrow> nat" where
  "leading_number s = digits_value (takeWhile is_digit (trim_start s))"

definition version_parts :: "string \<Rightarrow> nat list" where
  "version_parts v =
     map leading_number (take 3 (split_any (\<lambda>c. c \<in> set ''.+-'') (if starts_with ''v'' v then drop 1 v else v)))"

definition part :: "nat list \<Rightarrow> nat \<Rightarrow> nat" where
  "part xs i = (if i < length xs then xs ! i else 0)"

definition isNewerVersion :: "string \<Rightarrow> string \<Rightarrow> bool" where
  "isNewerVersion candidate current =
     (let a = version_parts candidate; b = version_parts current
      in case filter (\<lambda>i. part a i \<noteq> part b i) [0, 1, 2] of
           [] \<Rightarrow> False
         | i # _ \<Rightarrow> part a i > part b i)"

text \<open>The hint of \<open>useUpdateCheck\<close>: what a successful load shows; a failed one changes nothing.\<close>

definition update_hint :: "string \<Rightarrow> update_status \<Rightarrow> (string \<times> string) option" where
  "update_hint running st =
     (case (ut_latest_version st, ut_release_url st) of
        (Some v, Some u) \<Rightarrow> (if v \<noteq> [] \<and> u \<noteq> [] \<and> isNewerVersion v running then Some (v, u) else None)
      | _ \<Rightarrow> None)"

datatype hint_event =
    ServerChecks time fetched
  | ClientLoads
  | ClientLoadFails

fun hint_step ::
  "app_config \<Rightarrow> string \<Rightarrow> update_status \<times> (string \<times> string) option \<Rightarrow> hint_event
    \<Rightarrow> update_status \<times> (string \<times> string) option" where
  "hint_step cfg running (st, hint) (ServerChecks now res) = (update_check cfg now res st, hint)"
| "hint_step cfg running (st, hint) ClientLoads = (st, update_hint running st)"
| "hint_step cfg running (st, hint) ClientLoadFails = (st, hint)"

section \<open>Links of pairings\<close>

text \<open>The storage of the session: unavailable, or the stored code.\<close>

datatype session_storage = Unavailable | Storage "string option"

definition CODE_RE :: "string \<Rightarrow> bool" where
  "CODE_RE code \<longleftrightarrow>
     code \<noteq> [] \<and> length code \<le> 12 \<and> list_all (\<lambda>c. is_alnum c \<and> \<not> is_digit c \<or> c = CHR ''-'') code"

definition rememberDeviceCode :: "string option \<Rightarrow> session_storage \<Rightarrow> session_storage" where
  "rememberDeviceCode code st =
     (case code of
        None \<Rightarrow> st
      | Some c \<Rightarrow> (if \<not> CODE_RE c then st else case st of Unavailable \<Rightarrow> Unavailable | Storage _ \<Rightarrow> Storage (Some c)))"

definition postLoginPath :: "session_storage \<Rightarrow> string" where
  "postLoginPath st =
     (case st of
        Storage (Some code) \<Rightarrow> (if CODE_RE code then ''/device?code='' @ encodeURIComponent code else ''/'')
      | _ \<Rightarrow> ''/'')"

definition clearDeviceCode :: "session_storage \<Rightarrow> session_storage" where
  "clearDeviceCode st = (case st of Unavailable \<Rightarrow> Unavailable | Storage _ \<Rightarrow> Storage None)"

definition formatCode :: "string \<Rightarrow> string" where
  "formatCode input =
     (let raw = filter (\<lambda>c. \<not> js_space c \<and> c \<noteq> CHR ''-'') (to_upper input)
      in if length raw = 8 then take 4 raw @ ''-'' @ drop 4 raw else to_upper (trim input))"

section \<open>Rules mirrored from the server\<close>

definition providerUsable :: "provider_view \<Rightarrow> bool" where
  "providerUsable p =
     (if pv_client_id p = [] \<or> \<not> pv_client_secret_set p then False
      else if pv_type p = PtOidc then pv_issuer_url p \<noteq> []
      else if pv_type p = PtEntra then pv_tenant_id p \<noteq> []
      else True)"

definition ssoUsable :: "system_view \<Rightarrow> bool" where
  "ssoUsable sys \<longleftrightarrow> sv_sso_enabled sys \<and> list_ex providerUsable (sv_providers sys)"

text \<open>\<open>[...new Set(...)]\<close> keeps the first of equal entries.\<close>

definition splitList :: "(char \<Rightarrow> bool) \<Rightarrow> string \<Rightarrow> string list" where
  "splitList sep s = rev (remdups (rev (filter (\<lambda>v. v \<noteq> []) (map trim (split_any sep s)))))"

definition errorSummary :: "string \<Rightarrow> string" where
  "errorSummary message =
     (let rows = filter (\<lambda>l. l \<noteq> []) (map trim (split_on CHR 0x0A message))
      in if rows = [] then message else last rows)"

section \<open>Asynchronous loads\<close>

text \<open>
  \<open>useAsync\<close>: each run of the effect starts a load, numbered here, after the cleanup of the run before
  it. A load settles with its number; only the active one may write.
\<close>

record 'd async_state =
  as_data :: "'d option"
  as_error :: "string option"
  as_loading :: bool
  as_nonce :: nat
  as_active :: "nat option"
  as_started :: nat

datatype 'd async_event =
    EffectRuns
  | Settles nat "string + 'd"
  | Reloads
  | Unmounts

definition async_init :: "'d async_state" where
  "async_init = \<lparr>as_data = None, as_error = None, as_loading = True, as_nonce = 0, as_active = None, as_started = 0\<rparr>"

fun async_step :: "'d async_state \<Rightarrow> 'd async_event \<Rightarrow> 'd async_state" where
  "async_step st EffectRuns =
     st\<lparr>as_loading := True, as_error := None, as_active := Some (as_started st), as_started := as_started st + 1\<rparr>"
| "async_step st (Settles k res) =
     (if as_active st = Some k
      then (case res of
              Inl e \<Rightarrow> st\<lparr>as_error := Some e, as_loading := False\<rparr>
            | Inr d \<Rightarrow> st\<lparr>as_data := Some d, as_loading := False\<rparr>)
      else st)"
| "async_step st Reloads = st\<lparr>as_nonce := as_nonce st + 1\<rparr>"
| "async_step st Unmounts = st\<lparr>as_active := None\<rparr>"

definition run_async :: "'d async_event list \<Rightarrow> 'd async_state \<Rightarrow> 'd async_state" where
  "run_async evs st = foldl async_step st evs"

section \<open>The active language\<close>

text \<open>\<open>languages\<close> is \<open>navigator.languages\<close>, or the one \<open>navigator.language\<close> where it is empty.\<close>

definition isLocale :: "string \<Rightarrow> user_locale option" where
  "isLocale v = (if v = ''en'' then Some LocaleEn else if v = ''de'' then Some LocaleDe else None)"

definition browserLocale :: "string list \<Rightarrow> user_locale" where
  "browserLocale languages =
     (case List.map_filter (\<lambda>l. isLocale (hd (split_on CHR ''-'' (to_lower l)))) languages of [] \<Rightarrow> LocaleEn | l # _ \<Rightarrow> l)"

record i18n_state =
  in_storage :: "string option"
  in_guest :: user_locale
  in_user :: "user_locale option option"

definition storedLocale :: "string option \<Rightarrow> user_locale option" where
  "storedLocale v = (case v of None \<Rightarrow> None | Some t \<Rightarrow> isLocale t)"

definition show_locale :: "user_locale \<Rightarrow> string" where
  "show_locale l = (case l of LocaleEn \<Rightarrow> ''en'' | LocaleDe \<Rightarrow> ''de'')"

text \<open>The language of a rendering, and the storage after it. The guest's is chosen when the provider mounts.\<close>

definition i18n_mount :: "string list \<Rightarrow> string option \<Rightarrow> i18n_state" where
  "i18n_mount languages storage =
     \<lparr>in_storage = storage, in_guest = (case storedLocale storage of Some l \<Rightarrow> l | None \<Rightarrow> browserLocale languages), in_user = None\<rparr>"

definition i18n_locale :: "string list \<Rightarrow> i18n_state \<Rightarrow> user_locale" where
  "i18n_locale languages st =
     (case in_user st of
        None \<Rightarrow> in_guest st
      | Some pref \<Rightarrow> (case pref of Some l \<Rightarrow> l | None \<Rightarrow> browserLocale languages))"

definition i18n_render :: "string list \<Rightarrow> user_locale option option \<Rightarrow> i18n_state \<Rightarrow> user_locale \<times> i18n_state" where
  "i18n_render languages user st =
     (let st1 = st\<lparr>in_user := user\<rparr>; l = i18n_locale languages st1
      in (l, if user = None then st1 else st1\<lparr>in_storage := Some (show_locale l)\<rparr>))"

section \<open>Requests of the client\<close>

text \<open>
  What \<open>request\<close> makes of a response: status, status text, body. A body that is no JSON, or is
  \<open>null\<close>, leaves the status text as the message. The reading of JSON is a parameter.
\<close>

record client_response =
  cr_ok :: bool
  cr_status :: nat
  cr_status_text :: string
  cr_body :: string

datatype client_result = ClientValue json | ClientNothing | ClientError nat string | ClientThrows

definition error_of :: "(string \<Rightarrow> json option) \<Rightarrow> client_response \<Rightarrow> string" where
  "error_of parse res =
     (case parse (cr_body res) of
        None \<Rightarrow> cr_status_text res
      | Some JNull \<Rightarrow> cr_status_text res
      | Some data \<Rightarrow>
          (case json_field data ''message'' of
             Some (JArr ms) \<Rightarrow> join_with '', '' (map (\<lambda>m. if m = JNull then [] else js_string m) ms)
           | Some JNull \<Rightarrow> cr_status_text res
           | Some m \<Rightarrow> js_string m
           | None \<Rightarrow> cr_status_text res))"

definition client_request :: "(string \<Rightarrow> json option) \<Rightarrow> client_response \<Rightarrow> client_result" where
  "client_request parse res =
     (if \<not> cr_ok res then ClientError (cr_status res) (error_of parse res)
      else if cr_body res = [] then ClientNothing
      else case parse (cr_body res) of None \<Rightarrow> ClientThrows | Some v \<Rightarrow> ClientValue v)"

section \<open>Terms and fields\<close>

lemma contains_iff: "AuditLog.contains p s \<longleftrightarrow> (\<exists>a b. s = a @ p @ b)"
proof -
  have t: "x \<in> set (tails s) \<longleftrightarrow> (\<exists>a. s = a @ x)" for x
    by (induction s) (auto simp: Cons_eq_append_conv)
  show ?thesis
    unfolding AuditLog.contains_def list_ex_iff
  proof
    assume "\<exists>x \<in> set (tails s). starts_with p x"
    then obtain x where "x \<in> set (tails s)" "starts_with p x" by blast
    with t [of x] starts_withE [of p x] obtain a r where "s = a @ x" "x = p @ r" by auto
    then show "\<exists>a b. s = a @ p @ b" by blast
  next
    assume "\<exists>a b. s = a @ p @ b"
    then obtain a b where "s = a @ p @ b" by blast
    then have "p @ b \<in> set (tails s)" unfolding t by blast
    then show "\<exists>x \<in> set (tails s). starts_with p x" using starts_with_append by blast
  qed
qed

text \<open>A text without the separator occurs in joined fields just where it occurs in one of them.\<close>

lemma contains_around:
  assumes "c \<notin> set p" "p \<noteq> []"
  shows "AuditLog.contains p (x @ c # y) \<longleftrightarrow> AuditLog.contains p x \<or> AuditLog.contains p y"
proof
  assume "AuditLog.contains p (x @ c # y)"
  then obtain a b where e: "x @ c # y = a @ p @ b" by (auto simp: contains_iff)
  then consider u where "x = a @ u" "u @ c # y = p @ b" | u where "x @ u = a" "c # y = u @ p @ b"
    by (auto simp: append_eq_append_conv2)
  then show "AuditLog.contains p x \<or> AuditLog.contains p y"
  proof cases
    case 1
    from 1(2) consider v where "u = p @ v" | v where "u @ v = p" "c # y = v @ b" by (auto simp: append_eq_append_conv2)
    then show ?thesis
    proof cases
      case 1
      then show ?thesis using \<open>x = a @ u\<close> by (auto simp: contains_iff)
    next
      case 2
      then have "v = []" using assms(1) by (cases v) auto
      with 2(1) \<open>x = a @ u\<close> have "x = a @ p @ []" by simp
      then show ?thesis unfolding contains_iff by blast
    qed
  next
    case 2
    then obtain w where "u = c # w" "y = w @ p @ b" using assms by (cases u) (auto simp: Cons_eq_append_conv)
    then show ?thesis by (auto simp: contains_iff)
  qed
next
  assume "AuditLog.contains p x \<or> AuditLog.contains p y"
  then show "AuditLog.contains p (x @ c # y)"
    by (auto simp: contains_iff) (metis append.assoc append_Cons)+
qed

lemma contains_joined:
  "c \<notin> set p \<Longrightarrow> p \<noteq> [] \<Longrightarrow> AuditLog.contains p (join_with [c] xs) \<longleftrightarrow> (\<exists>x \<in> set xs. AuditLog.contains p x)"
proof (induction "[c]" xs rule: join_with.induct)
  case 1
  then show ?case by (auto simp: contains_iff)
next
  case (3 x y ys)
  then show ?case using contains_around [of c p x "join_with [c] (y # ys)"] by simp
qed simp

lemma split_any_parts: "\<forall>w \<in> set (split_any P s). \<forall>c \<in> set w. \<not> P c \<and> c \<in> set s"
  by (induction s) (auto split: list.splits)

lemma words_shape: "w \<in> set (js_words s) \<Longrightarrow> w \<noteq> [] \<and> (\<forall>c \<in> set w. \<not> js_space c \<and> c \<in> set s)"
  using split_any_parts [of js_space s] by (auto simp: js_words_def)

lemma lower_joined: "to_lower (join_with [c] xs) = join_with [lower_char c] (map to_lower xs)"
  by (induction "[c]" xs rule: join_with.induct) (simp_all add: to_lower_def)

text \<open>
  The search of lists does what its comment says: every term of the query occurs, in any case, in at
  least one field, and joining the fields makes no term match across two of them.
\<close>

theorem search_by_terms:
  "matchesSearch query fs \<longleftrightarrow>
   (\<forall>w \<in> set (js_words (to_lower query)). \<exists>f. Some f \<in> set fs \<and> AuditLog.contains w (to_lower f))"
proof -
  have nl: "lower_char CHR 0x0A = CHR 0x0A" "js_space CHR 0x0A" by (simp_all add: lower_char_def js_space_def Let_def)
  have present: "(\<exists>x \<in> set (present_fields fs). AuditLog.contains w (to_lower x)) \<longleftrightarrow>
      (\<exists>f. Some f \<in> set fs \<and> AuditLog.contains w (to_lower f))" if "w \<noteq> []" for w
  proof -
    have e: "set (present_fields fs) = {f. Some f \<in> set fs \<and> f \<noteq> []}"
      by (force simp: present_fields_def List.map_filter_def)
    have "\<not> AuditLog.contains w (to_lower [])" using that by (simp add: contains_iff to_lower_def)
    then show ?thesis unfolding e by blast
  qed
  have "AuditLog.contains w (to_lower (join_with [CHR 0x0A] (present_fields fs))) \<longleftrightarrow>
      (\<exists>f. Some f \<in> set fs \<and> AuditLog.contains w (to_lower f))" if "w \<in> set (js_words (to_lower query))" for w
  proof -
    have "w \<noteq> []" "CHR 0x0A \<notin> set w" using words_shape [OF that] nl(2) by auto
    then show ?thesis using contains_joined [of "CHR 0x0A" w] present [of w] by (simp add: lower_joined nl(1))
  qed
  then show ?thesis by (auto simp: matchesSearch_def Let_def list_all_iff)
qed

section \<open>Loads, versions and codes\<close>

text \<open>How the loads of a sequence settle: at most one result for each.\<close>

definition results_for :: "nat \<Rightarrow> 'd async_event list \<Rightarrow> (string + 'd) list" where
  "results_for k evs = List.map_filter (\<lambda>e. case e of Settles i r \<Rightarrow> if i = k then Some r else None | _ \<Rightarrow> None) evs"

definition quiet_after :: "'d async_event list \<Rightarrow> bool" where
  "quiet_after evs \<longleftrightarrow> EffectRuns \<notin> set evs \<and> Unmounts \<notin> set evs"

text \<open>What one result makes of the state a run began with.\<close>

definition shown_result :: "(string + 'd) list \<Rightarrow> 'd option \<Rightarrow> 'd option \<times> string option \<times> bool" where
  "shown_result rs old = (case rs of [] \<Rightarrow> (old, None, True) | Inr d # _ \<Rightarrow> (Some d, None, False) | Inl e # _ \<Rightarrow> (old, Some e, False))"

lemma results_Cons: "results_for k (e # evs) =
    (case e of Settles i r \<Rightarrow> if i = k then r # results_for k evs else results_for k evs | _ \<Rightarrow> results_for k evs)"
  by (simp add: results_for_def split: async_event.splits)

lemma settled_run:
  assumes "quiet_after evs" "as_active st = Some k" "length (results_for k evs) \<le> 1"
  shows "(as_data (run_async evs st), as_error (run_async evs st), as_loading (run_async evs st)) =
    (case results_for k evs of
       [] \<Rightarrow> (as_data st, as_error st, as_loading st)
     | Inr d # _ \<Rightarrow> (Some d, as_error st, False)
     | Inl e # _ \<Rightarrow> (as_data st, Some e, False))"
  using assms
proof (induction evs arbitrary: st)
  case (Cons e evs)
  have q: "quiet_after evs" using Cons.prems(1) by (simp add: quiet_after_def)
  have step: "run_async (e # evs) st = run_async evs (async_step st e)" by (simp add: run_async_def)
  show ?case
  proof (cases e)
    case (Settles i r)
    show ?thesis
    proof (cases "i = k")
      case True
      with Cons.prems(3) Settles have none: "results_for k evs = []" by (simp add: results_Cons)
      then show ?thesis
        using Cons.IH [OF q, of "async_step st e"] Settles True Cons.prems(2) unfolding step
        by (cases r) (simp_all add: results_Cons)
    next
      case False
      with Cons.IH [OF q Cons.prems(2)] Cons.prems(2,3) Settles show ?thesis unfolding step by (simp add: results_Cons)
    qed
  next
    case Reloads
    with Cons.IH [OF q, of "st\<lparr>as_nonce := as_nonce st + 1\<rparr>"] Cons.prems(2,3) show ?thesis
      unfolding step by (simp add: results_Cons split: list.splits sum.splits)
  qed (use Cons.prems(1) in \<open>simp_all add: quiet_after_def\<close>)
qed (simp add: run_async_def results_for_def)

text \<open>
  The latest load wins. After any number of earlier loads, of results that come late or in another
  order, of reloads and unmounts, what a mounted component shows is decided by its last run alone: it
  is loading until that run's own result arrives, then it shows that result or its error; the results
  of earlier runs that arrive after it change nothing.
\<close>

theorem latest_load_wins:
  assumes "quiet_after post" "k = as_started (run_async pre async_init)" "length (results_for k post) \<le> 1"
  shows "let st = run_async (pre @ EffectRuns # post) async_init in
    (as_data st, as_error st, as_loading st) = shown_result (results_for k post) (as_data (run_async pre async_init))"
proof -
  let ?s0 = "run_async pre async_init"
  have "run_async (pre @ EffectRuns # post) async_init = run_async post (async_step ?s0 EffectRuns)"
    by (simp add: run_async_def)
  with settled_run [OF assms(1), of "async_step ?s0 EffectRuns" k] assms(2,3) show ?thesis
    by (simp add: shown_result_def Let_def split: list.splits sum.splits)
qed

theorem latest_load_wins_witness:
  "as_data (run_async ([EffectRuns] @ EffectRuns # [Settles 1 (Inr ''new''), Settles 0 (Inr ''old'')]) async_init) = Some ''new''"
  using latest_load_wins [of "[Settles 1 (Inr ''new''), Settles 0 (Inr ''old'')]" 1 "[EffectRuns]"]
  by (simp add: quiet_after_def results_for_def run_async_def async_init_def shown_result_def Let_def List.map_filter_def)

lemma split_any_on: "split_any (\<lambda>x. x = c) s = split_on c s"
  by (induction s) auto

lemma split_any_same: "(\<And>c. c \<in> set s \<Longrightarrow> P c = Q c) \<Longrightarrow> split_any P s = split_any Q s"
  by (induction s) auto

lemma release_parts:
  assumes "VERSION_RE v"
  obtains x y z where "version_parts v = [x, y, z]"
proof -
  from assms obtain a b c where s: "split_on CHR ''.'' v = [a, b, c]" and d: "digits a" "digits b" "digits c"
    by (auto simp: VERSION_RE_def split: list.splits)
  have v: "v = a @ ''.'' @ b @ ''.'' @ c" using join_split [of "CHR ''.''" v] s by simp
  have nv: "\<not> starts_with ''v'' v" using d(1) unfolding v by (cases a) (auto simp: digits_def starts_with_def is_digit_def)
  have "c \<in> set ''.+-'' \<longleftrightarrow> c = CHR ''.''" if "c \<in> set v" for c
    using that d unfolding v by (auto simp: digits_def list_all_iff is_digit_def)
  then have "split_any (\<lambda>c. c \<in> set ''.+-'') v = split_any (\<lambda>c. c = CHR ''.'') v" by (rule split_any_same)
  then have "version_parts v = map leading_number [a, b, c]" by (simp add: version_parts_def nv split_any_on s)
  then show ?thesis using that by simp
qed

definition greater_version :: "nat list \<Rightarrow> nat list \<Rightarrow> bool" where
  "greater_version a b \<longleftrightarrow>
     part a 0 > part b 0 \<or> part a 0 = part b 0 \<and> (part a 1 > part b 1 \<or> part a 1 = part b 1 \<and> part a 2 > part b 2)"

lemma newer_greater: "isNewerVersion a b \<longleftrightarrow> greater_version (version_parts a) (version_parts b)"
  by (auto simp: isNewerVersion_def greater_version_def Let_def)

lemma hint_trusted:
  assumes "status_trusted st"
  shows "case update_hint running st of None \<Rightarrow> True
    | Some (v, u) \<Rightarrow> VERSION_RE v \<and> greater_version (version_parts v) (version_parts running) \<and> starts_with release_prefix u"
  using assms by (auto simp: update_hint_def status_trusted_def newer_greater split: option.splits)

lemma check_trusted: "status_trusted st \<Longrightarrow> status_trusted (update_check cfg now res st)"
  by (auto simp: update_check_def read_release_def status_trusted_def releasePageUrl_prefix RELEASE_TAG_RE_def
      split: sum.splits option.splits list.splits if_splits)

text \<open>
  The hint of an upgrade can be trusted. Whatever the server's checks are answered and whichever loads
  of the client succeed, a hint that is shown names a version of three numbers that is greater than the
  running one, and its link leads to the releases of the project.
\<close>

theorem upgrade_hint_trusted:
  "case snd (foldl (hint_step cfg running) (no_update_status, None) events) of
     None \<Rightarrow> True
   | Some (v, u) \<Rightarrow> VERSION_RE v \<and> greater_version (version_parts v) (version_parts running) \<and> starts_with release_prefix u"
proof -
  let ?ok = "\<lambda>h. case h of None \<Rightarrow> True
    | Some (v, u) \<Rightarrow> VERSION_RE v \<and> greater_version (version_parts v) (version_parts running) \<and> starts_with release_prefix u"
  have "status_trusted (fst sh) \<and> ?ok (snd sh) \<Longrightarrow>
      status_trusted (fst (hint_step cfg running sh e)) \<and> ?ok (snd (hint_step cfg running sh e))" for sh e
    using hint_trusted check_trusted by (cases sh; cases e) auto
  then have "status_trusted (fst sh) \<and> ?ok (snd sh) \<Longrightarrow>
      status_trusted (fst (foldl (hint_step cfg running) sh events)) \<and> ?ok (snd (foldl (hint_step cfg running) sh events))" for sh
    by (induction events arbitrary: sh) simp_all
  then show ?thesis by (simp add: status_trusted_def no_update_status_def)
qed

text \<open>
  Between releases the comparison is a strict order in which two versions with different numbers are
  always comparable.
\<close>

theorem newer_version_order:
  assumes "VERSION_RE a" "VERSION_RE b" "VERSION_RE c"
  shows "\<not> isNewerVersion a a \<and> (isNewerVersion a b \<longrightarrow> isNewerVersion b c \<longrightarrow> isNewerVersion a c) \<and>
    (isNewerVersion a b \<or> isNewerVersion b a \<or> version_parts a = version_parts b)"
proof -
  obtain a1 a2 a3 b1 b2 b3 c1 c2 c3 where "version_parts a = [a1, a2, a3]" "version_parts b = [b1, b2, b3]" "version_parts c = [c1, c2, c3]"
    using release_parts assms by metis
  then show ?thesis by (auto simp: newer_greater greater_version_def part_def)
qed

text \<open>
  Whatever the storage of a session holds, the page after signing in is the start page or the pairing
  page with a code of letters and dashes.
\<close>

theorem post_login_stays_inside:
  "postLoginPath st = ''/'' \<or>
   (\<exists>code. postLoginPath st = ''/device?code='' @ code \<and> (\<forall>c \<in> set code. is_alnum c \<or> c = CHR ''-''))"
proof -
  have plain: "encodeURIComponent s = s" if "\<forall>c \<in> set s. is_alnum c \<or> c = CHR ''-''" for s
    using that by (induction s) (auto simp: encodeURIComponent_def)
  have "\<forall>c \<in> set s. is_alnum c \<or> c = CHR ''-''" if "CODE_RE s" for s using that by (auto simp: CODE_RE_def list_all_iff)
  with plain show ?thesis by (auto simp: postLoginPath_def split: session_storage.splits option.splits)
qed

lemma upper_kept: "upper_char (upper_char c) = upper_char c" "js_space (upper_char c) = js_space c" "upper_char c = CHR ''-'' \<longleftrightarrow> c = CHR ''-''"
proof -
  have codes: "js_space x \<longleftrightarrow> (of_char x :: nat) \<in> {9, 10, 11, 12, 13, 32}" "x = CHR ''-'' \<longleftrightarrow> (of_char x :: nat) = 45" for x
    by (simp_all add: js_space_def flip: of_char_eq_iff [where 'a = nat])
  show "upper_char (upper_char c) = upper_char c" "js_space (upper_char c) = js_space c" "upper_char c = CHR ''-'' \<longleftrightarrow> c = CHR ''-''"
    unfolding codes by (auto simp: upper_char_def Let_def)
qed

lemma filter_spaces: "filter (\<lambda>c. \<not> js_space c \<and> Q c) (trim s) = filter (\<lambda>c. \<not> js_space c \<and> Q c) s"
proof -
  have "filter (\<lambda>c. \<not> js_space c \<and> Q c) (dropWhile js_space s) = filter (\<lambda>c. \<not> js_space c \<and> Q c) s" for s
    by (induction s) auto
  then show ?thesis by (simp add: trim_def trim_start_def rev_filter [symmetric])
qed

lemma upper_filter:
  "filter (\<lambda>c. \<not> js_space c \<and> c \<noteq> CHR ''-'') (to_upper s) = to_upper (filter (\<lambda>c. \<not> js_space c \<and> c \<noteq> CHR ''-'') s)"
  by (induction s) (simp_all add: to_upper_def upper_kept)

lemma upper_upper: "to_upper (to_upper s) = to_upper s"
  by (simp add: to_upper_def upper_kept)

text \<open>
  The form that the pairing page gives a typed code names the same pairing on the server as what was
  typed.
\<close>

theorem typed_code_same: "normalizeUserCode (formatCode typed) = normalizeUserCode typed"
proof -
  let ?keep = "\<lambda>c. \<not> js_space c \<and> c \<noteq> CHR ''-''"
  let ?raw = "filter ?keep typed"
  have "filter ?keep (take 4 ?raw @ ''-'' @ drop 4 ?raw) = filter ?keep (take 4 ?raw @ drop 4 ?raw)"
    by (simp del: append_take_drop_id)
  also have "\<dots> = ?raw" unfolding append_take_drop_id by simp
  finally have dashed: "filter ?keep (to_upper (take 4 ?raw @ ''-'' @ drop 4 ?raw)) = to_upper ?raw"
    unfolding upper_filter by (rule arg_cong)
  have "to_upper (formatCode typed) = to_upper (take 4 ?raw @ ''-'' @ drop 4 ?raw) \<or>
      to_upper (formatCode typed) = to_upper (trim typed)"
    by (simp add: formatCode_def upper_filter upper_upper Let_def)
      (simp add: to_upper_def upper_kept take_map drop_map)
  then have "filter ?keep (to_upper (formatCode typed)) = filter ?keep (to_upper typed)"
  proof
    assume e: "to_upper (formatCode typed) = to_upper (take 4 ?raw @ ''-'' @ drop 4 ?raw)"
    show ?thesis unfolding e dashed upper_filter [of typed] by (rule refl)
  next
    assume e: "to_upper (formatCode typed) = to_upper (trim typed)"
    show ?thesis unfolding e upper_filter filter_spaces by (rule refl)
  qed
  then show ?thesis by (simp add: normalizeUserCode_def)
qed

text \<open>The settings page agrees with the server on whether a way to sign in would be left.\<close>

theorem sso_usable_mirrors_server:
  "ssoUsable (fst (getSystemView cfg env gen s)) \<longleftrightarrow> hasUsableSso gen s"
proof -
  have "providerUsable (view_provider p) = isProviderConfigured p" for p
    by (simp add: providerUsable_def isProviderConfigured_def view_provider_def)
  then show ?thesis
    by (simp add: ssoUsable_def getSystemView_def hasUsableSso_def Let_def list_ex_iff split: prod.splits)
qed

text \<open>
  The comment of the provider says that before signing in it uses the last language this browser saw;
  but the guest's language is chosen once, so after signing out the page falls back to the one it was
  opened with, although the storage holds another.
\<close>

theorem sign_out_forgets_language:
  "let (l1, st1) = i18n_render [''en-US''] (Some (Some LocaleDe)) (i18n_mount [''en-US''] None);
       (l2, st2) = i18n_render [''en-US''] None st1
   in l1 = LocaleDe \<and> in_storage st2 = Some ''de'' \<and> l2 = LocaleEn"
  by code_simp
end
