(* ===== verification/JobEditor.thy ===== *)
theory JobEditor
  imports JobRoutes ClientCore
begin

text \<open>
  The job editor of the web client, \<open>client/src/pages/jobs.tsx\<close>: what the form holds when it opens on a
  new job, a duplicate or an existing job, and what it sends. The theorems compose it with
  \<open>jobs.service.ts\<close>: what saving an unchanged form does to the stored job, and who can save at all.
\<close>

section \<open>The form\<close>

datatype editor_mode = NewJob | DuplicateJob | EditJob

record job_form =
  fo_name :: string
  fo_tags :: string
  fo_enabled :: bool
  fo_where :: string
  fo_paths :: string
  fo_excludes :: string
  fo_target_id :: string
  fo_repo_values :: "(string \<times> string) list"
  fo_repo_password :: string
  fo_override_creds :: bool
  fo_cred_values :: "(string \<times> string) list"
  fo_cron :: string
  fo_retry_max :: string
  fo_retry_delay :: string
  fo_keep_last :: string
  fo_keep_daily :: string
  fo_keep_weekly :: string
  fo_keep_monthly :: string
  fo_prune :: bool
  fo_pre_script :: string
  fo_post_success_script :: string
  fo_post_failure_script :: string
  fo_on_failure :: bool
  fo_on_success :: bool
  fo_selected :: "string list"

text \<open>What the page has loaded: the connections with their backend types and the channels.\<close>

record editor_context =
  ec_targets :: "(string \<times> string) list"
  ec_channels :: "string list"
  ec_copy_of :: "string \<Rightarrow> string"

definition LOCAL_REPO :: string where
  "LOCAL_REPO = ''__local__''"

definition text_of :: "string option \<Rightarrow> string" where
  "text_of v = (case v of None \<Rightarrow> [] | Some t \<Rightarrow> t)"

definition count_text :: "nat option \<Rightarrow> string" where
  "count_text v = (case v of None \<Rightarrow> [] | Some n \<Rightarrow> show_nat n)"

text \<open>The values of a number field with minimum 0: empty, or digits; other texts are not represented.\<close>

definition form_count :: "string \<Rightarrow> nat option" where
  "form_count t = (if t = [] then None else Some (digits_value t))"

definition first_target :: "editor_context \<Rightarrow> string" where
  "first_target x = (case ec_targets x of [] \<Rightarrow> LOCAL_REPO | (i, _) # _ \<Rightarrow> i)"

definition editor_new :: "editor_context \<Rightarrow> job_form" where
  "editor_new x =
     \<lparr>fo_name = [], fo_tags = [], fo_enabled = True, fo_where = ''local'', fo_paths = [], fo_excludes = [],
      fo_target_id = first_target x, fo_repo_values = [], fo_repo_password = [], fo_override_creds = False,
      fo_cred_values = [], fo_cron = ''0 3 * * *'', fo_retry_max = ''0'', fo_retry_delay = ''300'',
      fo_keep_last = [], fo_keep_daily = [], fo_keep_weekly = [], fo_keep_monthly = [], fo_prune = False,
      fo_pre_script = [], fo_post_success_script = [], fo_post_failure_script = [],
      fo_on_failure = True, fo_on_success = False, fo_selected = []\<rparr>"

definition kept :: "(retention \<Rightarrow> nat option) \<Rightarrow> restic_options \<Rightarrow> string" where
  "kept sel ro = (case ro_retention ro of None \<Rightarrow> [] | Some rt \<Rightarrow> count_text (sel rt))"

definition editor_open :: "editor_context \<Rightarrow> editor_mode \<Rightarrow> backup_job \<times> repository \<Rightarrow> job_form" where
  "editor_open x mode jr =
     (let j = fst jr; repo = snd jr; ro = bj_restic_options j
      in \<lparr>fo_name = (if mode = DuplicateJob then ec_copy_of x (bj_name j) else bj_name j),
          fo_tags = join_with '', '' (ro_tags ro), fo_enabled = bj_enabled j,
          fo_where = (if bj_location j = LocAgent then text_of (bj_agent_id j) else ''local''),
          fo_paths = join_with [CHR 0x0A] (bj_paths j), fo_excludes = join_with [CHR 0x0A] (ro_exclude ro),
          fo_target_id = (case re_target_id repo of None \<Rightarrow> LOCAL_REPO | Some t \<Rightarrow> t),
          fo_repo_values = map (\<lambda>(k, v). (k, if v = JNull then [] else js_string v)) (re_repo_config repo),
          fo_repo_password = [],
          fo_override_creds = (mode = EditJob \<and> re_credential_secret_id repo \<noteq> None), fo_cred_values = [],
          fo_cron = bj_cron_expr j, fo_retry_max = show_nat (bj_retry_max j),
          fo_retry_delay = show_nat (bj_retry_delay_seconds j),
          fo_keep_last = kept rt_keep_last ro, fo_keep_daily = kept rt_keep_daily ro,
          fo_keep_weekly = kept rt_keep_weekly ro, fo_keep_monthly = kept rt_keep_monthly ro,
          fo_prune = (case ro_retention ro of None \<Rightarrow> False | Some rt \<Rightarrow> rt_prune rt = Some True),
          fo_pre_script = text_of (ro_pre_script ro), fo_post_success_script = text_of (ro_post_success_script ro),
          fo_post_failure_script = text_of (ro_post_failure_script ro),
          fo_on_failure = nc_on_failure (bj_notify j), fo_on_success = nc_on_success (bj_notify j),
          fo_selected = nc_channel_ids (bj_notify j)\<rparr>)"

text \<open>Changing the connection, or the place the job runs at.\<close>

definition changeTarget :: "string \<Rightarrow> job_form \<Rightarrow> job_form" where
  "changeTarget i f = f\<lparr>fo_target_id := i, fo_repo_values := [], fo_override_creds := False, fo_cred_values := []\<rparr>"

definition changeWhere :: "editor_context \<Rightarrow> string \<Rightarrow> job_form \<Rightarrow> job_form" where
  "changeWhere x w f =
     (let f1 = f\<lparr>fo_where := w\<rparr>
      in if w \<noteq> ''local'' \<and> fo_target_id f1 = LOCAL_REPO
         then changeTarget (case ec_targets x of [] \<Rightarrow> [] | (i, _) # _ \<Rightarrow> i) f1 else f1)"

section \<open>What it sends\<close>

definition entries :: "char \<Rightarrow> string \<Rightarrow> string list" where
  "entries c s = filter (\<lambda>t. t \<noteq> []) (map trim (split_on c s))"

definition given :: "string \<Rightarrow> string option" where
  "given t = (if trim t = [] then None else Some (trim t))"

definition form_retention :: "job_form \<Rightarrow> retention option" where
  "form_retention f =
     (let rt = \<lparr>rt_keep_last = form_count (fo_keep_last f), rt_keep_hourly = None, rt_keep_daily = form_count (fo_keep_daily f),
                rt_keep_weekly = form_count (fo_keep_weekly f), rt_keep_monthly = form_count (fo_keep_monthly f),
                rt_keep_yearly = None, rt_keep_within = None, rt_keep_tags = None,
                rt_prune = (if fo_prune f then Some True else None)\<rparr>
      in if rt_keep_last rt = None \<and> rt_keep_daily rt = None \<and> rt_keep_weekly rt = None \<and> rt_keep_monthly rt = None \<and> rt_prune rt = None
         then None else Some rt)"

definition form_options :: "job_form \<Rightarrow> restic_options" where
  "form_options f =
     empty_restic_options\<lparr>ro_tags := entries CHR '','' (fo_tags f), ro_exclude := entries CHR 0x0A (fo_excludes f),
       ro_retention := form_retention f, ro_pre_script := given (fo_pre_script f),
       ro_post_success_script := given (fo_post_success_script f), ro_post_failure_script := given (fo_post_failure_script f)\<rparr>"

definition form_location :: "job_form \<Rightarrow> source_location" where
  "form_location f = (if fo_where f = ''local'' then LocLocal else LocAgent)"

definition form_agent :: "job_form \<Rightarrow> string option" where
  "form_agent f = (if fo_where f = ''local'' then None else Some (fo_where f))"

definition selected_fields :: "editor_context \<Rightarrow> job_form \<Rightarrow> backend_field list" where
  "selected_fields x f =
     (case map_of (ec_targets x) (fo_target_id f) of
        None \<Rightarrow> []
      | Some ty \<Rightarrow> (case getBackend ty of Inl _ \<Rightarrow> [] | Inr b \<Rightarrow> bd_fields b))"

definition filled :: "backend_field list \<Rightarrow> (string \<times> string) list \<Rightarrow> (string \<times> string) list" where
  "filled fs vals =
     List.map_filter (\<lambda>b. case map_of vals (bf_name b) of
        None \<Rightarrow> None | Some v \<Rightarrow> if v = [] then None else Some (bf_name b, v)) fs"

definition as_form :: "(string \<times> string) list \<Rightarrow> form" where
  "as_form vs = map (\<lambda>(k, v). (k, JStr v)) vs"

definition form_repo_config :: "editor_context \<Rightarrow> job_form \<Rightarrow> form" where
  "form_repo_config x f =
     (if fo_target_id f = LOCAL_REPO
      then (case map_of (fo_repo_values f) ''path'' of None \<Rightarrow> [] | Some p \<Rightarrow> if p = [] then [] else [(''path'', JStr p)])
      else as_form (filled (filter (\<lambda>b. bf_scope b = Some ScopeJob) (selected_fields x f)) (fo_repo_values f)))"

text \<open>\<open>undefined\<close> leaves the stored credentials, \<open>null\<close> removes them, an object is merged into them.\<close>

definition form_credentials :: "editor_context \<Rightarrow> bool \<Rightarrow> job_form \<Rightarrow> form option option" where
  "form_credentials x overridden f =
     (let fs = filter bf_overridable (selected_fields x f)
      in if fo_target_id f = LOCAL_REPO \<or> fs = [] then None
         else if fo_override_creds f
         then (if filled fs (fo_cred_values f) = [] then None else Some (Some (as_form (filled fs (fo_cred_values f)))))
         else if overridden then Some None else None)"

definition form_notify :: "editor_context \<Rightarrow> job_form \<Rightarrow> job_notify_config" where
  "form_notify x f =
     \<lparr>nc_channel_ids = filter (\<lambda>c. c \<in> set (fo_selected f)) (ec_channels x), nc_on_success = fo_on_success f,
      nc_on_failure = fo_on_failure f\<rparr>"

definition form_target :: "job_form \<Rightarrow> string option" where
  "form_target f = (if fo_target_id f = LOCAL_REPO then None else Some (fo_target_id f))"

definition count_or_zero :: "string \<Rightarrow> nat" where
  "count_or_zero t = (case form_count t of None \<Rightarrow> 0 | Some n \<Rightarrow> n)"

definition editor_patch :: "editor_context \<Rightarrow> backup_job \<times> repository \<Rightarrow> job_form \<Rightarrow> update_job" where
  "editor_patch x jr f =
     \<lparr>uj_name = Some (fo_name f), uj_location = Some (form_location f), uj_agent_id = map_option Some (form_agent f),
      uj_paths = Some (entries CHR 0x0A (fo_paths f)), uj_target_id = Some (form_target f),
      uj_repo_config = Some (form_repo_config x f),
      uj_repo_credentials = form_credentials x (re_credential_secret_id (snd jr) \<noteq> None) f,
      uj_repo_password = (if fo_repo_password f = [] then None else Some (fo_repo_password f)),
      uj_cron_expr = Some (fo_cron f), uj_restic_options = Some (form_options f), uj_notify = Some (form_notify x f),
      uj_retry_max = Some (count_or_zero (fo_retry_max f)), uj_retry_delay_seconds = Some (count_or_zero (fo_retry_delay f)),
      uj_enabled = Some (fo_enabled f)\<rparr>"

text \<open>A new job sends an agent and credentials only where there are any.\<close>

definition editor_create :: "editor_context \<Rightarrow> job_form \<Rightarrow> create_job" where
  "editor_create x f =
     \<lparr>cj_name = fo_name f, cj_location = form_location f,
      cj_agent_id = (case form_agent f of Some a \<Rightarrow> if a = [] then None else Some a | None \<Rightarrow> None),
      cj_paths = entries CHR 0x0A (fo_paths f), cj_target_id = form_target f, cj_repo_config = Some (form_repo_config x f),
      cj_repo_credentials = (case form_credentials x False f of Some (Some v) \<Rightarrow> Some v | _ \<Rightarrow> None),
      cj_repo_password = fo_repo_password f, cj_cron_expr = fo_cron f, cj_restic_options = Some (form_options f),
      cj_notify = Some (form_notify x f), cj_retry_max = Some (count_or_zero (fo_retry_max f)),
      cj_retry_delay_seconds = Some (count_or_zero (fo_retry_delay f)), cj_enabled = Some (fo_enabled f)\<rparr>"

section \<open>Reading back what the form shows\<close>

definition plain_entry :: "char \<Rightarrow> string \<Rightarrow> bool" where
  "plain_entry c t \<longleftrightarrow> t \<noteq> [] \<and> trim t = t \<and> c \<notin> set t"

lemma entries_join: "\<forall>t \<in> set ts. plain_entry c t \<Longrightarrow> entries c (join_with [c] ts) = ts"
proof (cases ts)
  case Nil
  then show ?thesis by (simp add: entries_def trim_def trim_start_def)
next
  case (Cons t r)
  assume p: "\<forall>t \<in> set ts. plain_entry c t"
  then have "split_on c (join_with [c] ts) = ts" using Cons by (intro split_on_join) (auto simp: plain_entry_def)
  then show ?thesis using p by (simp add: entries_def plain_entry_def map_idI)
qed

lemma trim_space: "trim (CHR '' '' # s) = trim s"
  by (simp add: trim_def trim_start_def js_space_def)

lemma trim_split_space: "c \<noteq> CHR '' '' \<Longrightarrow> map trim (split_on c (CHR '' '' # s)) = map trim (split_on c s)"
  by (cases "split_on c s") (auto simp: trim_space)

lemma entries_comma: "\<forall>t \<in> set ts. plain_entry c t \<Longrightarrow> c \<noteq> CHR '' '' \<Longrightarrow> entries c (join_with [c, CHR '' ''] ts) = ts"
proof (induction "[c, CHR '' '']" ts rule: join_with.induct)
  case 1
  then show ?case by (simp add: entries_def trim_def trim_start_def)
next
  case (2 t)
  then show ?case by (simp add: entries_def plain_entry_def split_on_single)
next
  case (3 t u ts)
  have "split_on c (t @ c # CHR '' '' # join_with [c, CHR '' ''] (u # ts)) =
      t # split_on c (CHR '' '' # join_with [c, CHR '' ''] (u # ts))"
    using 3(2) by (intro split_on_append) (simp add: plain_entry_def)
  then have "entries c (join_with [c, CHR '' ''] (t # u # ts)) = t # entries c (join_with [c, CHR '' ''] (u # ts))"
    using 3(2,3) trim_split_space [OF 3(3)] by (simp add: entries_def plain_entry_def)
  then show ?case using 3 by simp
qed

text \<open>A stored job as the editor and the API make them: entries are trimmed and not blank.\<close>

definition tidy_job :: "backup_job \<Rightarrow> bool" where
  "tidy_job j \<longleftrightarrow>
     (case bj_location j of LocLocal \<Rightarrow> bj_agent_id j = None | LocAgent \<Rightarrow> bj_agent_id j \<notin> {None, Some ''local''}) \<and>
     (\<forall>t \<in> set (bj_paths j) \<union> set (ro_exclude (bj_restic_options j)). plain_entry CHR 0x0A t) \<and>
     (\<forall>t \<in> set (ro_tags (bj_restic_options j)). plain_entry CHR '','' t) \<and>
     (\<forall>sel \<in> {ro_pre_script, ro_post_success_script, ro_post_failure_script}.
        case sel (bj_restic_options j) of None \<Rightarrow> True | Some t \<Rightarrow> t \<noteq> [] \<and> trim t = t)"

text \<open>What the form shows of the options of a job.\<close>

definition shown_retention :: "retention \<Rightarrow> retention option" where
  "shown_retention rt =
     (if rt_keep_last rt = None \<and> rt_keep_daily rt = None \<and> rt_keep_weekly rt = None \<and> rt_keep_monthly rt = None \<and> rt_prune rt \<noteq> Some True
      then None
      else Some \<lparr>rt_keep_last = rt_keep_last rt, rt_keep_hourly = None, rt_keep_daily = rt_keep_daily rt,
                 rt_keep_weekly = rt_keep_weekly rt, rt_keep_monthly = rt_keep_monthly rt, rt_keep_yearly = None,
                 rt_keep_within = None, rt_keep_tags = None,
                 rt_prune = (if rt_prune rt = Some True then Some True else None)\<rparr>)"

definition shown_options :: "restic_options \<Rightarrow> restic_options" where
  "shown_options ro =
     empty_restic_options\<lparr>ro_tags := ro_tags ro, ro_exclude := ro_exclude ro,
       ro_retention := Option.bind (ro_retention ro) shown_retention, ro_pre_script := ro_pre_script ro,
       ro_post_success_script := ro_post_success_script ro, ro_post_failure_script := ro_post_failure_script ro\<rparr>"

lemma count_read [simp]: "form_count (count_text v) = v"
  by (auto simp: form_count_def count_text_def split: option.split)

lemma count_or_zero_show [simp]: "count_or_zero (show_nat n) = n"
  by (simp add: count_or_zero_def form_count_def)

lemma trim_Nil: "trim [] = []"
  by (simp add: trim_def trim_start_def)

lemma given_text: "(case v of None \<Rightarrow> True | Some t \<Rightarrow> t \<noteq> [] \<and> trim t = t) \<Longrightarrow> given (text_of v) = v"
  by (cases v) (auto simp: given_def text_of_def trim_Nil)

lemma retention_read: "form_retention (editor_open x m (j, repo)) = Option.bind (ro_retention (bj_restic_options j)) shown_retention"
proof (cases "ro_retention (bj_restic_options j)")
  case None
  then show ?thesis by (simp add: form_retention_def editor_open_def kept_def form_count_def Let_def)
next
  case (Some rt)
  then show ?thesis
    by (simp add: form_retention_def editor_open_def kept_def shown_retention_def Let_def)
qed

lemma options_read:
  assumes "tidy_job j"
  shows "form_options (editor_open x m (j, repo)) = shown_options (bj_restic_options j)"
  using assms entries_join [of "ro_exclude (bj_restic_options j)" "CHR 0x0A"]
    entries_comma [of "ro_tags (bj_restic_options j)" "CHR '',''"]
  by (simp add: form_options_def shown_options_def retention_read tidy_job_def)
    (simp add: editor_open_def Let_def given_text)

lemma update_written:
  assumes "job_update c vc f u i dto s = (Inr row, s')"
  shows "backup_jobs s' = update_where (\<lambda>j. bj_id j = i) (job_patch s i dto) (backup_jobs s)"
  using assms override_patch_tables
  by (fastforce simp: job_update_def Let_def secret_update_def remove_credential_secret_def secret_remove_def
      acl_assert_iff split: sum.splits if_splits prod.splits option.splits)

definition resaved :: "server \<Rightarrow> editor_context \<Rightarrow> backup_job \<Rightarrow> backup_job" where
  "resaved s x j =
     j\<lparr>bj_slug := uniqueSlug (job_slugs s) (bj_name j) (Some (bj_id j)), bj_restic_options := shown_options (bj_restic_options j),
       bj_notify := (bj_notify j)\<lparr>nc_channel_ids := filter (\<lambda>k. k \<in> set (nc_channel_ids (bj_notify j))) (ec_channels x)\<rparr>\<rparr>"

lemma patch_unchanged:
  assumes "tidy_job j"
  shows "job_patch s (bj_id j) (editor_patch x (j, repo) (editor_open x EditJob (j, repo))) j = resaved s x j"
proof -
  let ?f = "editor_open x EditJob (j, repo)"
  have o1: "form_options ?f = shown_options (bj_restic_options j)" by (rule options_read [OF assms])
  have p: "entries CHR 0x0A (fo_paths ?f) = bj_paths j"
    using assms entries_join [of "bj_paths j" "CHR 0x0A"] by (simp add: tidy_job_def editor_open_def Let_def)
  have w: "form_location ?f = bj_location j" "form_agent ?f = bj_agent_id j"
    using assms by (auto simp: tidy_job_def form_location_def form_agent_def editor_open_def text_of_def Let_def
        split: source_location.splits option.splits)
  have l: "bj_location j = (if bj_agent_id j = None then LocLocal else LocAgent)"
    using assms by (cases "bj_location j") (auto simp: tidy_job_def)
  have n: "form_notify x ?f = (bj_notify j)\<lparr>nc_channel_ids := filter (\<lambda>k. k \<in> set (nc_channel_ids (bj_notify j))) (ec_channels x)\<rparr>"
    by (simp add: form_notify_def editor_open_def Let_def)
  show ?thesis
    by (cases "bj_agent_id j")
      (simp_all add: job_patch_def editor_patch_def set_opt_def o1 p w n l resaved_def,
        rule_tac [!] backup_job.equality, simp_all add: editor_open_def Let_def l)
qed

section \<open>Where the form lets a job run\<close>

text \<open>The choices of the two selects: the local filesystem is offered only to a job on the server.\<close>

datatype editor_choice = ChooseWhere string | ChooseTarget string

definition choice_offered :: "editor_context \<Rightarrow> string list \<Rightarrow> job_form \<Rightarrow> editor_choice \<Rightarrow> bool" where
  "choice_offered x agent_ids f ch =
     (case ch of
        ChooseWhere w \<Rightarrow> w = ''local'' \<or> w \<in> set agent_ids
      | ChooseTarget i \<Rightarrow> (i = LOCAL_REPO \<and> fo_where f = ''local'') \<or> i \<in> fst ` set (ec_targets x))"

definition editor_choose :: "editor_context \<Rightarrow> editor_choice \<Rightarrow> job_form \<Rightarrow> job_form" where
  "editor_choose x ch f = (case ch of ChooseWhere w \<Rightarrow> changeWhere x w f | ChooseTarget i \<Rightarrow> changeTarget i f)"

inductive edited :: "editor_context \<Rightarrow> string list \<Rightarrow> job_form \<Rightarrow> job_form \<Rightarrow> bool" for x agent_ids where
  edited_refl: "edited x agent_ids f f"
| edited_step: "edited x agent_ids f g \<Longrightarrow> choice_offered x agent_ids g ch \<Longrightarrow> edited x agent_ids f (editor_choose x ch g)"

definition form_sound :: "job_form \<Rightarrow> bool" where
  "form_sound f \<longleftrightarrow> fo_target_id f \<noteq> [] \<and> (fo_where f = ''local'' \<or> fo_target_id f \<noteq> LOCAL_REPO)"

definition known_targets :: "editor_context \<Rightarrow> bool" where
  "known_targets x \<longleftrightarrow> ec_targets x \<noteq> [] \<and> (\<forall>i \<in> fst ` set (ec_targets x). i \<noteq> [] \<and> i \<noteq> LOCAL_REPO)"

lemma sound_accepted: "form_sound f \<Longrightarrow> assertRepoAllowed (form_location f) (form_target f) = Inr ()"
  by (auto simp: form_sound_def assertRepoAllowed_def form_location_def form_target_def or_empty_def)

lemma choice_keeps_sound:
  assumes "form_sound f" "choice_offered x agent_ids f ch" "known_targets x"
  shows "form_sound (editor_choose x ch f)"
proof (cases ch)
  case (ChooseWhere w)
  obtain i ty r where t: "ec_targets x = (i, ty) # r" using assms(3) by (cases "ec_targets x") (auto simp: known_targets_def)
  then have "i \<noteq> [] \<and> i \<noteq> LOCAL_REPO" using assms(3) by (auto simp: known_targets_def)
  then show ?thesis using assms(1) ChooseWhere t
    by (auto simp: form_sound_def editor_choose_def changeWhere_def changeTarget_def Let_def)
next
  case (ChooseTarget i)
  then show ?thesis using assms(2,3)
    by (auto simp: form_sound_def known_targets_def editor_choose_def changeTarget_def choice_offered_def LOCAL_REPO_def)
qed

lemma edited_sound: "edited x agent_ids f g \<Longrightarrow> form_sound f \<Longrightarrow> known_targets x \<Longrightarrow> form_sound g"
  by (induction rule: edited.induct) (auto intro: choice_keeps_sound)

lemma new_sound: "known_targets x \<Longrightarrow> form_sound (editor_new x)"
  by (auto simp: form_sound_def known_targets_def editor_new_def first_target_def split: list.split)

text \<open>However the place and the connection of a new job are chosen, the server accepts their combination.\<close>

theorem form_keeps_repo_rule:
  assumes "edited x agent_ids (editor_new x) f" "known_targets x"
  shows "assertRepoAllowed (form_location f) (form_target f) = Inr ()"
  using edited_sound [OF assms(1) new_sound [OF assms(2)] assms(2)] by (rule sound_accepted)

section \<open>Saving\<close>

lemma patch_touches_host: "touchesHost (editor_patch x jr f)"
  by (simp add: touchesHost_def editor_patch_def)

text \<open>Who may manage a job but is no administrator cannot save anything from the editor, not even a new name.\<close>

theorem editor_needs_admin:
  assumes "\<not> ru_is_admin u"
  shows "is_error (fst (job_update c vc f u i (editor_patch x jr form) s)) \<and>
    snd (job_update c vc f u i (editor_patch x jr form) s) = s"
  using assms patch_touches_host by (auto simp: job_update_def split: sum.split)


definition hidden_job :: backup_job where
  "hidden_job = sample_job\<lparr>bj_restic_options := sample_options\<lparr>ro_tags := [''srv'', ''db''], ro_exclude := [''*.tmp''],
     ro_one_file_system := True, ro_compression := Some ''max'',
     ro_retention := Some \<lparr>rt_keep_last = None, rt_keep_hourly = Some 24, rt_keep_daily = None, rt_keep_weekly = None,
       rt_keep_monthly = None, rt_keep_yearly = None, rt_keep_within = None, rt_keep_tags = None, rt_prune = None\<rparr>\<rparr>\<rparr>"

definition hidden_server :: server where
  "hidden_server = (sample_server [])\<lparr>backup_jobs := [hidden_job]\<rparr>"

definition plain_context :: editor_context where
  "plain_context = \<lparr>ec_targets = [], ec_channels = [''c1'', ''c2''], ec_copy_of = id\<rparr>"

lemma hidden_tidy: "tidy_job hidden_job"
  by (simp add: tidy_job_def hidden_job_def sample_job_def sample_options_def plain_entry_def trim_def trim_start_def js_space_def)


end
