(* ===== verification/ResourceRoutes.thy ===== *)
theory ResourceRoutes
  imports Controllers JobRoutes Snapshots Reports TargetHealth Delivery Runs
begin

text \<open>
  The controllers of connections, jobs, repositories, runs, restores, snapshots, reports, releases and of
  the audit log, behind the guard: \<open>targets/targets.controller.ts\<close>,
  \<open>repositories/repositories.controller.ts\<close>, \<open>runs/runs.controller.ts\<close>, \<open>restore/restore.controller.ts\<close>,
  \<open>audit/audit.controller.ts\<close>, \<open>updates/updates.controller.ts\<close>, and the routes of \<open>JobRoutes\<close>, \<open>Snapshots\<close>
  and \<open>Reports\<close> with the metadata of their controllers. The theorems are about whole requests: which
  credential it takes to change a job or a connection, and that a key made for reading changes nothing.
\<close>

section \<open>What the routes work on\<close>

text \<open>
  The server with its cron registrations, the files of restic's children, and the connections whose
  probe a route has started without awaiting it.
\<close>

record resource_state =
  rz_server :: server
  rz_crons :: cron_registry
  rz_files :: files
  rz_probes :: "uuid list"

text \<open>What the routes share, and what a request draws.\<close>

record resource_env =
  rx_api :: api_env
  rx_valid_cron :: "string \<Rightarrow> bool"
  rx_next_run :: "string \<Rightarrow> time option"
  rx_parse :: parser
  rx_sort_json :: "json comparator \<Rightarrow> json list \<Rightarrow> json list"
  rx_sort_entries :: "ls_entry comparator \<Rightarrow> ls_entry list \<Rightarrow> ls_entry list"
  rx_locale_compare :: "json option \<Rightarrow> json option \<Rightarrow> int"
  rx_restic :: repo_runner
  rx_read_stats :: "resolved_target \<Rightarrow> (nat option \<times> nat) result"
  rx_network :: network
  rx_file_exists :: "string \<Rightarrow> bool"
  rx_restore_created :: "uuid \<Rightarrow> time"
  rx_release :: update_status

record resource_draw =
  ry_api :: api_draw
  ry_job :: job_fresh

definition rx_crypto :: "resource_env \<Rightarrow> crypto" where
  "rx_crypto x = ae_crypto (rx_api x)"

definition ry_now :: "resource_draw \<Rightarrow> time" where
  "ry_now d = ad_now (ry_api d)"

definition ry_id :: "resource_draw \<Rightarrow> uuid" where
  "ry_id d = ad_id (ry_api d)"

text \<open>A handler of a service as a step of the whole state.\<close>

definition on_server :: "(server \<Rightarrow> 'a \<times> server) \<Rightarrow> resource_state \<Rightarrow> 'a \<times> resource_state" where
  "on_server h rz = (case h (rz_server rz) of (r, s) \<Rightarrow> (r, rz\<lparr>rz_server := s\<rparr>))"

definition on_schedule :: "(scheduled_server \<Rightarrow> 'a \<times> scheduled_server) \<Rightarrow> resource_state \<Rightarrow> 'a \<times> resource_state" where
  "on_schedule h rz = (case h (rz_server rz, rz_crons rz) of (r, s, reg) \<Rightarrow> (r, rz\<lparr>rz_server := s, rz_crons := reg\<rparr>))"

definition on_files :: "(server \<Rightarrow> files \<Rightarrow> 'a \<times> files) \<Rightarrow> resource_state \<Rightarrow> 'a \<times> resource_state" where
  "on_files h rz = (case h (rz_server rz) (rz_files rz) of (r, fs) \<Rightarrow> (r, rz\<lparr>rz_files := fs\<rparr>))"

definition asks :: "(server \<Rightarrow> 'a) \<Rightarrow> resource_state \<Rightarrow> 'a \<times> resource_state" where
  "asks f rz = (f (rz_server rz), rz)"

definition answers :: "('a \<Rightarrow> 'b) \<Rightarrow> 'a result \<times> resource_state \<Rightarrow> 'b result \<times> resource_state" where
  "answers f rz = (map_sum id f (fst rz), snd rz)"

definition probing :: "uuid \<Rightarrow> resource_state \<Rightarrow> resource_state" where
  "probing i rz = rz\<lparr>rz_probes := rz_probes rz @ [i]\<rparr>"

definition by_slug ::
  "(server \<Rightarrow> (uuid \<times> string) list) \<Rightarrow> string \<Rightarrow> (uuid \<Rightarrow> resource_state \<Rightarrow> 'a result \<times> resource_state) \<Rightarrow> resource_state
    \<Rightarrow> 'a result \<times> resource_state" where
  "by_slug slugs k h rz = (case slug_resolve (slugs (rz_server rz)) k of Inl e \<Rightarrow> (Inl e, rz) | Inr i \<Rightarrow> h i rz)"

section \<open>Connections\<close>

datatype targets_call =
    TargetsBackends
  | TargetsList
  | TargetsCreate create_target
  | TargetsGet string
  | TargetsUpdate string update_target
  | TargetsCheck string
  | TargetsRemove string

datatype targets_reply = RBackends "(string \<times> backend_field list) list" | RTargets "target list" | RTarget target | ROutcome check_outcome
  | RTargetsOk

fun targets_method :: "targets_call \<Rightarrow> string" where
  "targets_method TargetsBackends = ''GET''"
| "targets_method TargetsList = ''GET''"
| "targets_method (TargetsCreate _) = ''POST''"
| "targets_method (TargetsGet _) = ''GET''"
| "targets_method (TargetsUpdate _ _) = ''PATCH''"
| "targets_method (TargetsCheck _) = ''POST''"
| "targets_method (TargetsRemove _) = ''DELETE''"

fun targets_meta :: "targets_call \<Rightarrow> route_meta" where
  "targets_meta TargetsBackends = meta [Public] []"
| "targets_meta _ = meta [] []"

text \<open>What a route of a probe starts is not awaited; \<open>check\<close> awaits its own.\<close>

definition targets_probed :: "target result \<times> resource_state \<Rightarrow> (target \<Rightarrow> uuid) \<Rightarrow> target result \<times> resource_state" where
  "targets_probed rz which = (case fst rz of Inl e \<Rightarrow> rz | Inr t \<Rightarrow> (Inr t, probing (which t) (snd rz)))"

fun targets_handler ::
  "resource_env \<Rightarrow> resource_draw \<Rightarrow> targets_call \<Rightarrow> request_user \<Rightarrow> resource_state \<Rightarrow> targets_reply result \<times> resource_state" where
  "targets_handler x d TargetsBackends u rz = (Inr (RBackends backendCatalog), rz)"
| "targets_handler x d TargetsList u rz = asks (\<lambda>s. Inr (RTargets (target_list u s))) rz"
| "targets_handler x d (TargetsCreate dto) u rz =
     answers RTarget (targets_probed (on_server (target_create (rx_crypto x) (ad_fresh (ry_api d)) u dto) rz) tg_id)"
| "targets_handler x d (TargetsGet k) u rz = answers RTarget (by_slug target_slugs k (\<lambda>i. asks (target_get u i)) rz)"
| "targets_handler x d (TargetsUpdate k dto) u rz =
     answers RTarget (by_slug target_slugs k
       (\<lambda>i rz. targets_probed (on_server (target_update (rx_crypto x) (ad_fresh (ry_api d)) u i dto) rz) (\<lambda>_. i)) rz)"
| "targets_handler x d (TargetsCheck k) u rz =
     answers ROutcome (by_slug target_slugs k
       (\<lambda>i rz. case target_get u i (rz_server rz) of
          Inl e \<Rightarrow> (Inl e, rz)
        | Inr _ \<Rightarrow> on_server (\<lambda>s. case refresh_target (rx_crypto x) (rx_network x) (ry_now d) i s of ((r, _), s1) \<Rightarrow> (r, s1)) rz) rz)"
| "targets_handler x d (TargetsRemove k) u rz =
     answers (\<lambda>_. RTargetsOk) (by_slug target_slugs k (\<lambda>i. on_server (target_remove u i)) rz)"

section \<open>Jobs, snapshots and reports\<close>

datatype jobs_call =
    JobsList
  | JobsTestRepo ad_hoc_repo
  | JobsCreate create_job
  | JobsGet string
  | JobsUpdate string update_job
  | JobsRemove string
  | JobsRun string
  | JobsCheck string "integrity_level option"
  | JobsIntegrity string integrity_dto

datatype jobs_reply = RJobs "api_job list" | RTest connection_test | RJob api_job | RRun uuid | RJobsOk

fun jobs_method :: "jobs_call \<Rightarrow> string" where
  "jobs_method JobsList = ''GET''"
| "jobs_method (JobsTestRepo _) = ''POST''"
| "jobs_method (JobsCreate _) = ''POST''"
| "jobs_method (JobsGet _) = ''GET''"
| "jobs_method (JobsUpdate _ _) = ''PATCH''"
| "jobs_method (JobsRemove _) = ''DELETE''"
| "jobs_method (JobsRun _) = ''POST''"
| "jobs_method (JobsCheck _ _) = ''POST''"
| "jobs_method (JobsIntegrity _ _) = ''PUT''"

fun jobs_handler :: "resource_env \<Rightarrow> resource_draw \<Rightarrow> jobs_call \<Rightarrow> request_user \<Rightarrow> resource_state \<Rightarrow> jobs_reply result \<times> resource_state" where
  "jobs_handler x d JobsList u rz = asks (\<lambda>s. Inr (RJobs (route_job_list (rx_next_run x) u s))) rz"
| "jobs_handler x d (JobsTestRepo dto) u rz = answers RTest (on_files (route_testRepo (rx_crypto x) (rx_restic x) u dto) rz)"
| "jobs_handler x d (JobsCreate dto) u rz =
     answers RJob (on_schedule (route_job_create (rx_crypto x) (rx_valid_cron x) (rx_next_run x) (ry_job d) u dto) rz)"
| "jobs_handler x d (JobsGet k) u rz = answers RJob (asks (route_job_get (rx_next_run x) u k) rz)"
| "jobs_handler x d (JobsUpdate k dto) u rz =
     answers RJob (on_schedule (route_job_update (rx_crypto x) (rx_valid_cron x) (rx_next_run x) (ry_job d) u k dto) rz)"
| "jobs_handler x d (JobsRemove k) u rz = answers (\<lambda>_. RJobsOk) (on_schedule (route_job_remove u k) rz)"
| "jobs_handler x d (JobsRun k) u rz = answers RRun (on_server (route_job_run (ry_now d) (ry_id d) u k) rz)"
| "jobs_handler x d (JobsCheck k l) u rz = answers RRun (on_server (route_job_check (ry_now d) (ry_id d) u k l) rz)"
| "jobs_handler x d (JobsIntegrity k dto) u rz =
     answers RJob (on_schedule (route_setIntegrityCheck (rx_valid_cron x) (rx_next_run x) u k dto) rz)"

datatype snapshots_call =
    SnapshotsList string "string option" "string option" "string option"
  | SnapshotsLs string string "string option"
  | SnapshotsRemove string string "string option"

datatype snapshots_reply = RSnapshots "json list" | REntries "ls_entry list" | RForgotten removed_snapshot

fun snapshots_method :: "snapshots_call \<Rightarrow> string" where
  "snapshots_method (SnapshotsList _ _ _ _) = ''GET''"
| "snapshots_method (SnapshotsLs _ _ _) = ''GET''"
| "snapshots_method (SnapshotsRemove _ _ _) = ''DELETE''"

fun snapshots_handler ::
  "resource_env \<Rightarrow> resource_draw \<Rightarrow> snapshots_call \<Rightarrow> request_user \<Rightarrow> resource_state \<Rightarrow> snapshots_reply result \<times> resource_state" where
  "snapshots_handler x d (SnapshotsList k host tags dir) u rz =
     answers RSnapshots (on_files (route_snapshots_list (rx_parse x) (rx_sort_json x) (rx_crypto x) (rx_restic x) u k host tags dir) rz)"
| "snapshots_handler x d (SnapshotsLs k snap dir) u rz =
     answers REntries (on_files (route_snapshot_ls (rx_parse x) (rx_sort_entries x) (rx_locale_compare x) (rx_crypto x) (rx_restic x)
       u k snap dir) rz)"
| "snapshots_handler x d (SnapshotsRemove k snap prune) u rz =
     answers RForgotten
       (case route_snapshot_remove (rx_parse x) (rx_crypto x) (rx_restic x) (ry_now d) (ry_id d) u k snap prune (rz_server rz) (rz_files rz) of
          (r, s, fs) \<Rightarrow> (r, rz\<lparr>rz_server := s, rz_files := fs\<rparr>))"

datatype reports_call =
    ReportsList
  | ReportsCreate create_report
  | ReportsGet string
  | ReportsUpdate string update_report
  | ReportsRemove string
  | ReportsRun string

datatype reports_reply = RReports "(report \<times> time option) list" | RReport report | RReportNext report "time option" | RReportsOk

fun reports_method :: "reports_call \<Rightarrow> string" where
  "reports_method ReportsList = ''GET''"
| "reports_method (ReportsCreate _) = ''POST''"
| "reports_method (ReportsGet _) = ''GET''"
| "reports_method (ReportsUpdate _ _) = ''PATCH''"
| "reports_method (ReportsRemove _) = ''DELETE''"
| "reports_method (ReportsRun _) = ''POST''"

text \<open>The order by name is left out.\<close>

fun reports_handler ::
  "resource_env \<Rightarrow> resource_draw \<Rightarrow> reports_call \<Rightarrow> request_user \<Rightarrow> resource_state \<Rightarrow> reports_reply result \<times> resource_state" where
  "reports_handler x d ReportsList u rz = asks (\<lambda>s. Inr (RReports (map (\<lambda>r. (r, rx_next_run x (rp_cron_expr r))) (reports s)))) rz"
| "reports_handler x d (ReportsCreate dto) u rz = answers RReport (on_schedule (route_report_create (rx_valid_cron x) (ry_id d) u dto) rz)"
| "reports_handler x d (ReportsGet k) u rz =
     answers (\<lambda>r. RReportNext r (rx_next_run x (rp_cron_expr r))) (by_slug report_slugs k (\<lambda>i. asks (\<lambda>s. report_getRow s i)) rz)"
| "reports_handler x d (ReportsUpdate k dto) u rz = answers RReport (on_schedule (route_report_update (rx_valid_cron x) k dto) rz)"
| "reports_handler x d (ReportsRemove k) u rz = answers (\<lambda>_. RReportsOk) (on_schedule (route_report_remove k) rz)"
| "reports_handler x d (ReportsRun k) u rz =
     answers (\<lambda>_. RReportsOk) (on_server (route_report_run (rx_crypto x) (ae_config (rx_api x)) (ry_now d) k) rz)"

section \<open>Repositories, runs and restores\<close>

text \<open>The number in \<open>days\<close>, if it is a whole one: missing, unreadable and zero mean 30.\<close>

definition history_days :: "int option \<Rightarrow> nat" where
  "history_days days = nat (min 3650 (max 1 (case days of None \<Rightarrow> 30 | Some n \<Rightarrow> if n = 0 then 30 else n)))"

datatype repos_call = ReposList | ReposHistory "int option" | ReposGet string | ReposRefresh string | ReposResolve string

datatype repos_reply = RRepos "(repository \<times> backup_job) list" | RHistory "(uuid \<times> string) list" "stats_history list"
  | RStats repository_stats bool | RResolved resolved_target

fun repos_method :: "repos_call \<Rightarrow> string" where
  "repos_method ReposList = ''GET''"
| "repos_method (ReposHistory _) = ''GET''"
| "repos_method (ReposGet _) = ''GET''"
| "repos_method (ReposRefresh _) = ''POST''"
| "repos_method (ReposResolve _) = ''POST''"

fun repos_handler :: "resource_env \<Rightarrow> resource_draw \<Rightarrow> repos_call \<Rightarrow> request_user \<Rightarrow> resource_state \<Rightarrow> repos_reply result \<times> resource_state" where
  "repos_handler x d ReposList u rz = asks (\<lambda>s. Inr (RRepos (repository_list u s))) rz"
| "repos_handler x d (ReposHistory days) u rz =
     asks (\<lambda>s. case statsHistory (ry_now d) u (history_days days) s of (names, points) \<Rightarrow> Inr (RHistory names points)) rz"
| "repos_handler x d (ReposGet k) u rz =
     answers (\<lambda>st. RStats st False) (by_slug repo_slugs k (\<lambda>i. on_server (findOne (rx_crypto x) (rx_read_stats x) (ry_now d) u i)) rz)"
| "repos_handler x d (ReposRefresh k) u rz =
     answers (\<lambda>(st, queued). RStats st queued)
       (by_slug repo_slugs k (\<lambda>i. on_server (refreshStatsFor (rx_crypto x) (rx_read_stats x) (ry_now d) u i)) rz)"
| "repos_handler x d (ReposResolve k) u rz =
     answers RResolved (by_slug repo_slugs k (\<lambda>i. asks (repository_resolve (rx_crypto x) u i)) rz)"

datatype runs_call = RunsList feed_opts | RunsDashboard | RunsGet uuid | RunsCancel uuid

datatype runs_reply = RRuns "activity list" | RDashboard dashboard_figures | RRunRow job_run | RRunsOk

fun runs_method :: "runs_call \<Rightarrow> string" where
  "runs_method (RunsList _) = ''GET''"
| "runs_method RunsDashboard = ''GET''"
| "runs_method (RunsGet _) = ''GET''"
| "runs_method (RunsCancel _) = ''POST''"

text \<open>\<open>search?.trim() || undefined\<close>.\<close>

definition feed_query :: "feed_opts \<Rightarrow> feed_opts" where
  "feed_query q = q\<lparr>fo_search := (case fo_search q of None \<Rightarrow> None | Some t \<Rightarrow> if trim t = [] then None else Some (trim t))\<rparr>"

fun runs_handler :: "resource_env \<Rightarrow> resource_draw \<Rightarrow> runs_call \<Rightarrow> request_user \<Rightarrow> resource_state \<Rightarrow> runs_reply result \<times> resource_state" where
  "runs_handler x d (RunsList q) u rz = asks (\<lambda>s. Inr (RRuns (runs_list (rx_restore_created x) u (feed_query q) s))) rz"
| "runs_handler x d RunsDashboard u rz = asks (\<lambda>s. Inr (RDashboard (dashboard (rx_restore_created x) (ry_now d) u s))) rz"
| "runs_handler x d (RunsGet i) u rz = answers RRunRow (asks (run_get u i) rz)"
| "runs_handler x d (RunsCancel i) u rz = answers (\<lambda>_. RRunsOk) (on_server (run_cancel (ry_now d) u i) rz)"

datatype restores_call = RestoresCreate create_restore | RestoresList "nat option" | RestoresGet uuid | RestoresCancel uuid | RestoresDownload uuid

datatype restores_reply = RRestore restore_run | RRestores "restore_run list" | RDownload string string | RRestoresOk

fun restores_method :: "restores_call \<Rightarrow> string" where
  "restores_method (RestoresCreate _) = ''POST''"
| "restores_method (RestoresList _) = ''GET''"
| "restores_method (RestoresGet _) = ''GET''"
| "restores_method (RestoresCancel _) = ''POST''"
| "restores_method (RestoresDownload _) = ''GET''"

text \<open>The newest restores of the visible jobs, 50 of them where no limit is given.\<close>

definition restore_list :: "(uuid \<Rightarrow> time) \<Rightarrow> request_user \<Rightarrow> nat option \<Rightarrow> server \<Rightarrow> restore_run list" where
  "restore_list created u limit s =
     (let rows = sort_key (\<lambda>r. - created (rr_id r)) (case visibleResourceIds s u RtJob of
                   None \<Rightarrow> restore_runs s
                 | Some ids \<Rightarrow> select_where (\<lambda>r. rr_job_id r \<in> Some ` set ids) (restore_runs s))
      in take (min (case limit of None \<Rightarrow> 50 | Some n \<Rightarrow> n) 200) rows)"

fun restores_handler ::
  "resource_env \<Rightarrow> resource_draw \<Rightarrow> restores_call \<Rightarrow> request_user \<Rightarrow> resource_state \<Rightarrow> restores_reply result \<times> resource_state" where
  "restores_handler x d (RestoresCreate dto) u rz = answers RRestore (on_server (restore_create (ry_id d) u dto) rz)"
| "restores_handler x d (RestoresList limit) u rz = asks (\<lambda>s. Inr (RRestores (restore_list (rx_restore_created x) u limit s))) rz"
| "restores_handler x d (RestoresGet i) u rz = answers RRestore (asks (restore_get u i) rz)"
| "restores_handler x d (RestoresCancel i) u rz = answers (\<lambda>_. RRestoresOk) (on_server (restore_cancel (ry_now d) u i) rz)"
| "restores_handler x d (RestoresDownload i) u rz =
     answers (\<lambda>(p, n). RDownload p n) (asks (getDownload (ry_now d) (rx_file_exists x) u i) rz)"

section \<open>The audit log and releases\<close>

datatype audit_call = AuditList audit_options | AuditGet uuid

datatype audit_reply = RAuditPage audit_page | RAuditEntry audit_entry

fun audit_handler :: "audit_call \<Rightarrow> resource_state \<Rightarrow> audit_reply result \<times> resource_state" where
  "audit_handler (AuditList opts) rz = asks (\<lambda>s. Inr (RAuditPage (audit_list opts s))) rz"
| "audit_handler (AuditGet i) rz = answers RAuditEntry (asks (\<lambda>s. audit_get s i) rz)"

section \<open>Serving a request\<close>

datatype resource_call =
    CallTargets targets_call
  | CallJobs jobs_call
  | CallSnapshots snapshots_call
  | CallReports reports_call
  | CallRepositories repos_call
  | CallRuns runs_call
  | CallRestores restores_call
  | CallAudit audit_call
  | CallUpdates

definition resource_method :: "resource_call \<Rightarrow> string" where
  "resource_method call =
     (case call of
        CallTargets c \<Rightarrow> targets_method c
      | CallJobs c \<Rightarrow> jobs_method c
      | CallSnapshots c \<Rightarrow> snapshots_method c
      | CallReports c \<Rightarrow> reports_method c
      | CallRepositories c \<Rightarrow> repos_method c
      | CallRuns c \<Rightarrow> runs_method c
      | CallRestores c \<Rightarrow> restores_method c
      | CallAudit _ \<Rightarrow> ''GET''
      | CallUpdates \<Rightarrow> ''GET'')"

definition resource_meta :: "resource_call \<Rightarrow> route_meta" where
  "resource_meta call =
     (case call of
        CallTargets c \<Rightarrow> targets_meta c
      | CallReports _ \<Rightarrow> meta [] [RequireAdmin]
      | CallAudit _ \<Rightarrow> meta [] [RequireAdmin]
      | _ \<Rightarrow> meta [] [])"

definition replies_to :: "('a result \<times> resource_state) \<Rightarrow> unit result \<times> resource_state" where
  "replies_to r = answers (\<lambda>_. ()) r"

definition resource_handler ::
  "resource_env \<Rightarrow> resource_draw \<Rightarrow> resource_call \<Rightarrow> request_user \<Rightarrow> resource_state \<Rightarrow> unit result \<times> resource_state" where
  "resource_handler x d call u rz =
     (case call of
        CallTargets c \<Rightarrow> replies_to (targets_handler x d c u rz)
      | CallJobs c \<Rightarrow> replies_to (jobs_handler x d c u rz)
      | CallSnapshots c \<Rightarrow> replies_to (snapshots_handler x d c u rz)
      | CallReports c \<Rightarrow> replies_to (reports_handler x d c u rz)
      | CallRepositories c \<Rightarrow> replies_to (repos_handler x d c u rz)
      | CallRuns c \<Rightarrow> replies_to (runs_handler x d c u rz)
      | CallRestores c \<Rightarrow> replies_to (restores_handler x d c u rz)
      | CallAudit c \<Rightarrow> replies_to (audit_handler c rz)
      | CallUpdates \<Rightarrow> replies_to (Inr (rx_release x), rz))"

text \<open>The one public route, the catalog of backends, asks for no user.\<close>

definition serve_resource ::
  "resource_env \<Rightarrow> resource_draw \<Rightarrow> http_request \<Rightarrow> resource_call \<Rightarrow> resource_state \<Rightarrow> unit result \<times> resource_state" where
  "serve_resource x d req call rz =
     (case canActivate (ae_config (rx_api x)) (lg_jwt (ae_login (rx_api x))) (rx_crypto x) (resource_meta call) (ry_now d)
             (req\<lparr>rq_method := resource_method call\<rparr>) (rz_server rz) of
        (Inl e, s) \<Rightarrow> (Inl e, rz\<lparr>rz_server := s\<rparr>)
      | (Inr None, s) \<Rightarrow> (Inr (), rz\<lparr>rz_server := s\<rparr>)
      | (Inr (Some u), s) \<Rightarrow> resource_handler x d call u (rz\<lparr>rz_server := s\<rparr>))"


section \<open>What the guard writes\<close>

text \<open>
  Apart from the use of a key and the cached allowlist the guard writes nothing. Reading a repository stores
  its figures. \<open>lasting\<close> is the state without these.
\<close>

definition unmarked :: "server \<Rightarrow> server" where
  "unmarked s = s\<lparr>api_keys := map (\<lambda>k. k\<lparr>ak_last_used_at := None\<rparr>) (api_keys s), admin_ip_cache := None\<rparr>"

definition without_figures :: "repository \<Rightarrow> repository" where
  "without_figures r = r\<lparr>re_size_bytes := None, re_snapshot_count := None, re_stats_at := None, re_stats_error := None\<rparr>"

definition lasting :: "server \<Rightarrow> server" where
  "lasting s = (unmarked s)\<lparr>repositories := map without_figures (repositories s), repository_stats_history := []\<rparr>"

lemma assertAllowed_unmarked: "unmarked (snd (assertAllowed cfg now ip s)) = unmarked s"
  by (auto simp: assertAllowed_def isAllowed_def effective_def storedEntries_def unmarked_def Let_def split: prod.splits option.splits if_splits)

lemma used_key_unmarked: "unmarked (s\<lparr>api_keys := update_where P (\<lambda>r. r\<lparr>ak_last_used_at := t\<rparr>) (api_keys s)\<rparr>) = unmarked s"
proof -
  have "map (\<lambda>k. k\<lparr>ak_last_used_at := None\<rparr>) (update_where P (\<lambda>r. r\<lparr>ak_last_used_at := t\<rparr>) (api_keys s)) =
      map (\<lambda>k. k\<lparr>ak_last_used_at := None\<rparr>) (api_keys s)"
    by (rule map_update_where) simp
  then show ?thesis unfolding unmarked_def by simp
qed

lemma authenticate_unmarked: "unmarked (snd (authenticate cfg j cr now token s)) = unmarked s"
  by (auto simp: authenticate_def fromApiKey_def used_key_unmarked split: option.splits)

lemma guard_unmarked: "unmarked (snd (canActivate cfg j cr m now req s)) = unmarked s"
  using authenticate_unmarked [of cfg j cr now _ s] assertAllowed_unmarked [of cfg now "rq_ip req"]
  by (auto simp: canActivate_def split: option.splits sum.splits prod.splits) (metis snd_conv)+

lemma unmarked_tables:
  assumes "unmarked s1 = unmarked s"
  shows "backup_jobs s1 = backup_jobs s" "targets s1 = targets s" "resource_grants s1 = resource_grants s" "lasting s1 = lasting s"
proof -
  show "backup_jobs s1 = backup_jobs s" using arg_cong [OF assms, of backup_jobs] by (simp add: unmarked_def)
  show "targets s1 = targets s" using arg_cong [OF assms, of targets] by (simp add: unmarked_def)
  show "resource_grants s1 = resource_grants s" using arg_cong [OF assms, of resource_grants] by (simp add: unmarked_def)
  show "lasting s1 = lasting s"
    unfolding lasting_def assms using arg_cong [OF assms, of repositories] by (simp add: unmarked_def)
qed

lemma can_same: "resource_grants s1 = resource_grants s \<Longrightarrow> can s1 u ty i l = can s u ty i l"
  by (simp add: can_def)

text \<open>A request is turned away, is the public one, or reaches its handler with a proven user.\<close>

lemma served_cases:
  obtains "unmarked (rz_server (snd (serve_resource x d req call rz))) = unmarked (rz_server rz)"
    "rz_crons (snd (serve_resource x d req call rz)) = rz_crons rz" "rz_probes (snd (serve_resource x d req call rz)) = rz_probes rz"
  | u s1 token acc where "unmarked s1 = unmarked (rz_server rz)" "extractToken req = Some token"
    "proven_by (ae_config (rx_api x)) (lg_jwt (ae_login (rx_api x))) (rx_crypto x) (ry_now d) token (rz_server rz) u acc"
    "route_allows (resource_meta call) (req\<lparr>rq_method := resource_method call\<rparr>) u"
    "serve_resource x d req call rz = resource_handler x d call u (rz\<lparr>rz_server := s1\<rparr>)"
proof -
  let ?req = "req\<lparr>rq_method := resource_method call\<rparr>"
  let ?g = "canActivate (ae_config (rx_api x)) (lg_jwt (ae_login (rx_api x))) (rx_crypto x) (resource_meta call) (ry_now d) ?req (rz_server rz)"
  obtain r s1 where g: "?g = (r, s1)" by (cases ?g)
  have um: "unmarked s1 = unmarked (rz_server rz)"
    using guard_unmarked [of "ae_config (rx_api x)" "lg_jwt (ae_login (rx_api x))" "rx_crypto x" "resource_meta call" "ry_now d" ?req "rz_server rz"] g by simp
  show ?thesis
  proof (cases "\<exists>u. r = Inr (Some u)")
    case True
    then obtain u where u: "r = Inr (Some u)" by blast
    from canActivate_admits [OF g [unfolded u]] obtain token acc where "extractToken req = Some token"
      "proven_by (ae_config (rx_api x)) (lg_jwt (ae_login (rx_api x))) (rx_crypto x) (ry_now d) token (rz_server rz) u acc"
      "route_allows (resource_meta call) ?req u"
      by (auto simp: extractToken_method)
    then show ?thesis using that(2) [OF um] g u by (simp add: serve_resource_def)
  next
    case False
    then show ?thesis using that(1) g um by (cases r) (auto simp: serve_resource_def split: option.split)
  qed
qed


section \<open>Reading\<close>

lemma lifted [simp]:
  "snd (asks q rz) = rz" "snd (answers g r) = snd r" "snd (replies_to r) = snd r" "rz_server (snd (on_files h rz)) = rz_server rz"
  "rz_crons (snd (on_files h rz)) = rz_crons rz" "rz_probes (snd (on_files h rz)) = rz_probes rz"
  "rz_server (snd (on_server f rz)) = snd (f (rz_server rz))" "rz_crons (snd (on_server f rz)) = rz_crons rz"
  "rz_probes (snd (on_server f rz)) = rz_probes rz" "rz_server (snd (on_schedule k rz)) = fst (snd (k (rz_server rz, rz_crons rz)))"
  "rz_server (probing i rz) = rz_server rz" "rz_crons (probing i rz) = rz_crons rz"
  by (simp_all add: asks_def answers_def replies_to_def on_files_def on_server_def on_schedule_def probing_def split: prod.split)

definition kept_state :: "resource_state \<Rightarrow> server \<times> cron_registry \<times> uuid list" where
  "kept_state rz = (lasting (rz_server rz), rz_crons rz, rz_probes rz)"

lemma figures_lasting: "lasting (snd (recordStats now i reading s)) = lasting s"
proof -
  have "map without_figures (update_where P f rows) = map without_figures rows"
    if "\<And>q. without_figures (f q) = without_figures q" for P f and rows :: "repository list"
    using that by (rule map_update_where)
  moreover have "without_figures (q\<lparr>re_size_bytes := a, re_snapshot_count := b, re_stats_at := t, re_stats_error := e\<rparr>) = without_figures q"
    "without_figures (q\<lparr>re_stats_error := e\<rparr>) = without_figures q" for q a b t e
    by (simp_all add: without_figures_def)
  ultimately show ?thesis
    by (simp add: recordStats_def lasting_def unmarked_def Let_def split: option.split stats_reading.split)
qed

lemma findOne_lasting: "lasting (snd (findOne c rd now u i s)) = lasting s"
  by (simp add: findOne_def refreshStats_def Let_def figures_lasting split: option.split sum.split prod.split)

lemma findOne_kept: "kept_state (snd (on_server (findOne c rd now u i) rz)) = kept_state rz"
  by (simp add: kept_state_def findOne_lasting)

lemma by_slug_kept:
  assumes "\<And>i rz. kept_state (snd (h i rz)) = kept_state rz"
  shows "kept_state (snd (by_slug slugs k h rz)) = kept_state rz"
  using assms by (simp add: by_slug_def split: sum.split)

lemma methods [simp]: "\<not> mutating ''GET''" "mutating ''POST''" "mutating ''PATCH''" "mutating ''PUT''" "mutating ''DELETE''"
  by code_simp+

lemma reading_keeps:
  assumes "\<not> mutating (resource_method call)"
  shows "kept_state (snd (resource_handler x d call u rz)) = kept_state rz"
proof (cases call)
  case (CallTargets c)
  with assms show ?thesis
    by (cases c) (auto simp: resource_method_def resource_handler_def intro: by_slug_kept)
next
  case (CallJobs c)
  with assms show ?thesis by (cases c) (auto simp: resource_method_def resource_handler_def kept_state_def)
next
  case (CallSnapshots c)
  with assms show ?thesis by (cases c) (auto simp: resource_method_def resource_handler_def kept_state_def)
next
  case (CallReports c)
  with assms show ?thesis by (cases c) (auto simp: resource_method_def resource_handler_def intro: by_slug_kept)
next
  case (CallRepositories c)
  with assms show ?thesis
    by (cases c) (auto simp: resource_method_def resource_handler_def findOne_kept intro!: by_slug_kept)
next
  case (CallRuns c)
  with assms show ?thesis by (cases c) (auto simp: resource_method_def resource_handler_def)
next
  case (CallRestores c)
  with assms show ?thesis by (cases c) (auto simp: resource_method_def resource_handler_def)
next
  case (CallAudit c)
  then show ?thesis by (cases c) (auto simp: resource_handler_def)
qed (simp add: resource_handler_def)

section \<open>Who changes a job or a connection\<close>

text \<open>Nobody but the probes writes the status of a connection.\<close>

definition settings_of :: "target \<Rightarrow> target" where
  "settings_of t = t\<lparr>tg_status := TsUnknown, tg_last_check_at := None, tg_last_check_error := None\<rparr>"

definition resources :: "server \<Rightarrow> backup_job list \<times> target list" where
  "resources s = (backup_jobs s, map settings_of (targets s))"

lemma secrets_resources:
  "resources (secret_update c iv i v s) = resources s" "resources (secret_remove i s) = resources s"
  "resources (snd (secret_create c i iv ty v s)) = resources s" "resources (remove_credential_secret i s) = resources s"
  "resources (grant_owner u rt i g s) = resources s" "resources (start_background b s) = resources s"
  by (simp_all add: resources_def secret_update_def secret_remove_def secret_create_def remove_credential_secret_def grant_owner_def
      start_background_def Let_def)

lemma row_resources: "backup_jobs s' = backup_jobs s \<Longrightarrow> targets s' = targets s \<Longrightarrow> resources s' = resources s"
  by (simp add: resources_def)

lemma runs_resources:
  "resources (snd (run_cancel now u i s)) = resources s" "resources (snd (restore_create n u dto s)) = resources s"
  "resources (snd (restore_cancel now u i s)) = resources s" "resources (prune_start now n opts s) = resources s"
  "resources (snd (check_start now n i trig lv s)) = resources s" "resources (dispatch i s) = resources s"
  "resources (createRun now n i trig s) = resources s"
  by (auto intro!: row_resources simp: run_cancel_def abort_process_def runner_cancel_def prune_cancel_def check_cancel_def force_cancel_def
      restore_create_def restore_dispatch_def start_background_def restore_cancel_def restore_runner_cancel_def restore_force_cancel_def
      prune_start_def prune_createRow_def check_start_def dispatch_def createRun_def Let_def split: sum.split option.split prod.split if_splits)

lemma stats_resources: "resources (snd (refreshStatsFor c rd now u i s)) = resources s"
  by (auto intro!: row_resources simp: refreshStatsFor_def refreshStats_def recordStats_def Let_def
      split: sum.split option.split prod.split stats_reading.split)

lemma findOne_resources: "resources (snd (findOne c rd now u i s)) = resources s"
  by (auto intro!: row_resources simp: findOne_def refreshStats_def recordStats_def Let_def
      split: sum.split option.split prod.split stats_reading.split)

lemma report_resources:
  "resources (snd (generate c cfg now i s)) = resources s" "resources (fst (snd (route_report_create vc n u new sr))) = resources (fst sr)"
  "resources (fst (snd (route_report_update vc k dto sr))) = resources (fst sr)"
  "resources (fst (snd (route_report_remove k sr))) = resources (fst sr)"
  by (auto intro!: row_resources simp: generate_def sendToChannels_def deliver_all_def route_report_create_def report_create_def
      route_report_update_def report_update_def route_report_remove_def report_remove_def Let_def split: sum.split prod.split)

text \<open>What a user may have done to the jobs and connections of \<open>s\<close>.\<close>

definition allowed_changes :: "request_user \<Rightarrow> server \<Rightarrow> server \<Rightarrow> bool" where
  "allowed_changes u s s' \<longleftrightarrow>
     (\<forall>j \<in> set (backup_jobs s). j \<notin> set (backup_jobs s') \<longrightarrow> can s u RtJob (bj_id j) AlManage) \<and>
     (ru_is_admin u \<or> host_fields ` set (backup_jobs s') \<subseteq> host_fields ` set (backup_jobs s)) \<and>
     (\<forall>t \<in> set (targets s). settings_of t \<notin> settings_of ` set (targets s') \<longrightarrow> can s u RtTarget (tg_id t) AlManage)"

lemma allowed_same: "resources s' = resources s \<Longrightarrow> allowed_changes u s s'"
  by (auto simp: allowed_changes_def resources_def dest: arg_cong [where f = set])

lemma allowed_jobs:
  assumes "targets s' = targets s" "\<And>j. j \<in> set (backup_jobs s) \<Longrightarrow> j \<notin> set (backup_jobs s') \<Longrightarrow> can s u RtJob (bj_id j) AlManage"
    "ru_is_admin u \<or> host_fields ` set (backup_jobs s') \<subseteq> host_fields ` set (backup_jobs s)"
  shows "allowed_changes u s s'"
  using assms by (auto simp: allowed_changes_def)

lemma allowed_targets:
  assumes "backup_jobs s' = backup_jobs s"
    "\<And>t. t \<in> set (targets s) \<Longrightarrow> settings_of t \<notin> settings_of ` set (targets s') \<Longrightarrow> can s u RtTarget (tg_id t) AlManage"
  shows "allowed_changes u s s'"
  using assms by (auto simp: allowed_changes_def)

lemma jobs_targets:
  "targets (snd (job_create c vc f u new s)) = targets s" "targets (snd (job_update c vc f u i dto s)) = targets s"
  "targets (snd (job_remove u i s)) = targets s" "targets (snd (setIntegrityCheck vc u i ic s)) = targets s"
  using override_patch_tables(5)
  by (fastforce simp: job_create_def store_job_secrets_def secret_create_def grant_owner_def job_update_def Let_def secret_update_def
      remove_credential_secret_def secret_remove_def job_remove_def setIntegrityCheck_def
      split: sum.splits if_splits prod.splits option.splits)+

lemma create_allowed: "allowed_changes u s (snd (job_create c vc f u new s))"
proof -
  have "set (backup_jobs s) \<subseteq> set (backup_jobs (snd (job_create c vc f u new s)))"
    using store_job_secrets_tables
    by (fastforce simp: job_create_def grant_owner_def insert_row_def Let_def split: sum.splits prod.splits)
  moreover have "ru_is_admin u \<or> backup_jobs (snd (job_create c vc f u new s)) = backup_jobs s"
    using job_create_admin_only [of u c vc f new s] by force
  ultimately show ?thesis using jobs_targets(1) [of c vc f u new s] by (intro allowed_jobs) auto
qed

lemma update_allowed: "allowed_changes u s (snd (job_update c vc f u i dto s))"
proof -
  obtain res s' where e: "job_update c vc f u i dto s = (res, s')" by fastforce
  have host: "host_fields ` set (backup_jobs s') \<subseteq> host_fields ` set (backup_jobs s)" if "\<not> ru_is_admin u"
    using job_update_host [OF that, of c vc f i dto s] e by (metis list.set_map order_refl snd_conv)
  have "can s u RtJob (bj_id j) AlManage" if "j \<in> set (backup_jobs s)" "j \<notin> set (backup_jobs s')" for j
    using job_update_jobs [OF e] that by (auto simp: update_where_def)
  then show ?thesis using jobs_targets(2) [of c vc f u i dto s] host e by (intro allowed_jobs) auto
qed

lemma remove_allowed: "allowed_changes u s (snd (job_remove u i s))"
proof -
  obtain res s' where e: "job_remove u i s = (res, s')" by fastforce
  show ?thesis
    using job_remove_tables [OF e] jobs_targets(3) [of u i s] e
    by (intro allowed_jobs) (auto simp: set_delete_where)
qed

lemma integrity_allowed: "allowed_changes u s (snd (setIntegrityCheck vc u i ic s))"
proof (rule allowed_jobs)
  show "can s u RtJob (bj_id j) AlManage"
    if "j \<in> set (backup_jobs s)" "j \<notin> set (backup_jobs (snd (setIntegrityCheck vc u i ic s)))" for j
    using that by (auto simp: setIntegrityCheck_def update_where_def acl_assert_iff Let_def split: sum.splits if_splits)
  have "host_fields ` set (backup_jobs (snd (setIntegrityCheck vc u i ic s))) = host_fields ` set (backup_jobs s)"
    using arg_cong [OF setIntegrityCheck_host [of vc u i ic s], of set] by simp
  then show "ru_is_admin u \<or> host_fields ` set (backup_jobs (snd (setIntegrityCheck vc u i ic s))) \<subseteq> host_fields ` set (backup_jobs s)"
    by blast
qed (rule jobs_targets)

lemma connection_create_allowed: "allowed_changes u s (snd (target_create c f u dto s))"
  by (rule allowed_targets)
    (auto simp: target_create_def store_credentials_def secret_create_def grant_owner_def insert_row_def Let_def
      split: sum.splits prod.splits if_splits)

lemma patch_config_targets:
  assumes "target_patch_config c f t frm s = (r, s1)"
  shows "targets s1 = targets s" "backup_jobs s1 = backup_jobs s"
  using assms by (auto simp: target_patch_config_def store_credentials_def secret_create_def secret_update_def Let_def
      split: sum.splits prod.splits if_splits option.splits)

lemma connection_update_tables:
  "backup_jobs (snd (target_update c f u i dto s)) = backup_jobs s \<and>
   (targets (snd (target_update c f u i dto s)) = targets s \<or>
    can s u RtTarget i AlManage \<and> (\<exists>F. targets (snd (target_update c f u i dto s)) = update_where (\<lambda>r. tg_id r = i) F (targets s)))"
proof (cases "acl_assert s u RtTarget i AlManage")
  case (Inr a)
  show ?thesis
  proof (cases "getRow s i")
    case row: (Inr t)
    obtain r s1 where p: "(case ut_config dto of None \<Rightarrow> (Inr id, s) | Some frm \<Rightarrow> target_patch_config c f t frm s) = (r, s1)"
      by (metis surj_pair)
    then have "targets s1 = targets s" "backup_jobs s1 = backup_jobs s"
      using patch_config_targets [of c f t _ s r s1] by (auto split: option.splits)
    moreover have "can s u RtTarget i AlManage" using Inr by (simp add: acl_assert_iff)
    ultimately show ?thesis by (cases r) (simp_all add: target_update_def Inr row p Let_def, blast)
  qed (simp add: target_update_def Inr)
qed (simp add: target_update_def)

lemma connection_update_allowed: "allowed_changes u s (snd (target_update c f u i dto s))"
proof (rule allowed_targets)
  fix t assume t: "t \<in> set (targets s)" "settings_of t \<notin> settings_of ` set (targets (snd (target_update c f u i dto s)))"
  have "targets (snd (target_update c f u i dto s)) \<noteq> targets s" using t by auto
  with connection_update_tables [of c f u i dto s] obtain F where m: "can s u RtTarget i AlManage"
    and F: "targets (snd (target_update c f u i dto s)) = update_where (\<lambda>r. tg_id r = i) F (targets s)" by blast
  have "tg_id t = i"
  proof (rule ccontr)
    assume "tg_id t \<noteq> i"
    with t(1) have "t \<in> set (update_where (\<lambda>r. tg_id r = i) F (targets s))" by (force simp: update_where_def)
    with t(2) F show False by auto
  qed
  with m show "can s u RtTarget (tg_id t) AlManage" by simp
qed (use connection_update_tables in blast)

lemma connection_remove_tables:
  "backup_jobs (snd (target_remove u i s)) = backup_jobs s"
  "targets (snd (target_remove u i s)) = targets s \<or>
     can s u RtTarget i AlManage \<and> targets (snd (target_remove u i s)) = delete_where (\<lambda>r. tg_id r = i) (targets s)"
  by (simp_all add: target_remove_def acl_assert_iff secret_remove_def Let_def split: sum.split option.split)

lemma connection_remove_allowed: "allowed_changes u s (snd (target_remove u i s))"
proof (rule allowed_targets)
  fix t assume t: "t \<in> set (targets s)" "settings_of t \<notin> settings_of ` set (targets (snd (target_remove u i s)))"
  from connection_remove_tables(2) [of u i s] show "can s u RtTarget (tg_id t) AlManage"
  proof
    assume d: "can s u RtTarget i AlManage \<and> targets (snd (target_remove u i s)) = delete_where (\<lambda>r. tg_id r = i) (targets s)"
    with t have "tg_id t = i" by (auto simp: set_delete_where)
    with d show ?thesis by simp
  qed (use t in simp)
qed (rule connection_remove_tables)

lemma probe_resources: "resources (snd (refresh_target c nw now i s)) = resources s"
proof -
  have "map settings_of (update_where P (store_outcome now oc) rows) = map settings_of rows" for P oc and rows :: "target list"
    by (rule map_update_where) (simp add: settings_of_def store_outcome_def)
  then show ?thesis
    by (simp add: refresh_target_def checkAndStore_def resources_def split: option.split prod.split sum.split)
qed

lemma by_slug_allowed:
  assumes "\<And>i. allowed_changes u (rz_server rz) (rz_server (snd (h i rz)))"
  shows "allowed_changes u (rz_server rz) (rz_server (snd (by_slug slugs k h rz)))"
  using assms by (simp add: by_slug_def allowed_same split: sum.split)

lemma targets_allowed: "allowed_changes u (rz_server rz) (rz_server (snd (targets_handler x d c u rz)))"
proof (cases c)
  case (TargetsCreate dto)
  then show ?thesis
    using connection_create_allowed [of u "rz_server rz" "rx_crypto x" "ad_fresh (ry_api d)" dto]
    by (simp add: targets_probed_def split: sum.split)
next
  case (TargetsUpdate k dto)
  have "allowed_changes u (rz_server rz) (rz_server (snd (targets_probed
      (on_server (target_update (rx_crypto x) (ad_fresh (ry_api d)) u i dto) rz) (\<lambda>_. i))))" for i
    using connection_update_allowed [of u "rz_server rz" "rx_crypto x" "ad_fresh (ry_api d)" i dto]
    by (simp add: targets_probed_def split: sum.split)
  with TargetsUpdate show ?thesis by (simp add: by_slug_allowed)
next
  case (TargetsCheck k)
  have "allowed_changes u (rz_server rz) (rz_server (snd (on_server
      (\<lambda>s. case refresh_target (rx_crypto x) (rx_network x) (ry_now d) i s of ((r, _), s1) \<Rightarrow> (r, s1)) rz)))" for i
    using probe_resources [of "rx_crypto x" "rx_network x" "ry_now d" i "rz_server rz"]
    by (cases "refresh_target (rx_crypto x) (rx_network x) (ry_now d) i (rz_server rz)") (auto simp: allowed_same split: prod.split)
  with TargetsCheck show ?thesis by (auto intro!: by_slug_allowed simp: allowed_same split: sum.split)
next
  case (TargetsRemove k)
  then show ?thesis by (simp add: by_slug_allowed connection_remove_allowed)
qed (auto intro: by_slug_allowed simp: allowed_same)

lemma route_states:
  "fst (snd (route_job_create c vc nx f u new sr)) = snd (job_create c vc f u new (fst sr))"
  "fst (snd (route_job_update c vc nx f u k dto sr)) =
     (case slug_resolve (job_slugs (fst sr)) k of Inl e \<Rightarrow> fst sr | Inr i \<Rightarrow> snd (job_update c vc f u i dto (fst sr)))"
  "fst (snd (route_job_remove u k sr)) =
     (case slug_resolve (job_slugs (fst sr)) k of Inl e \<Rightarrow> fst sr | Inr i \<Rightarrow> snd (job_remove u i (fst sr)))"
  "fst (snd (route_setIntegrityCheck vc nx u k ic sr)) =
     (case slug_resolve (job_slugs (fst sr)) k of Inl e \<Rightarrow> fst sr | Inr i \<Rightarrow> snd (setIntegrityCheck vc u i ic (fst sr)))"
  by (auto simp: route_job_create_def route_job_update_def route_job_remove_def route_setIntegrityCheck_def split: sum.split prod.split)

lemma jobs_allowed: "allowed_changes u (rz_server rz) (rz_server (snd (jobs_handler x d c u rz)))"
proof (cases c)
  case (JobsCreate dto)
  then show ?thesis by (simp add: route_states create_allowed)
next
  case (JobsUpdate k dto)
  then show ?thesis by (simp add: route_states update_allowed allowed_same split: sum.split)
next
  case (JobsRemove k)
  then show ?thesis by (simp add: route_states remove_allowed allowed_same split: sum.split)
next
  case (JobsIntegrity k dto)
  then show ?thesis by (simp add: route_states integrity_allowed allowed_same split: sum.split)
next
  case (JobsRun k)
  then show ?thesis by (simp add: route_job_run_def allowed_same runs_resources split: sum.split)
next
  case (JobsCheck k l)
  then show ?thesis by (simp add: route_job_check_def allowed_same runs_resources split: sum.split)
qed (simp_all add: allowed_same)

lemma handler_allowed: "allowed_changes u (rz_server rz) (rz_server (snd (resource_handler x d call u rz)))"
proof (cases call)
  case (CallTargets c)
  then show ?thesis using targets_allowed by (simp add: resource_handler_def)
next
  case (CallJobs c)
  then show ?thesis using jobs_allowed by (simp add: resource_handler_def)
next
  case (CallSnapshots c)
  then show ?thesis
    by (cases c) (auto simp: resource_handler_def route_snapshot_remove_def snapshot_remove_def allowed_same runs_resources
        split: sum.split prod.split if_splits)
next
  case (CallReports c)
  then show ?thesis
    by (cases c) (auto intro: by_slug_allowed simp: resource_handler_def allowed_same report_resources route_report_run_def split: sum.split)
next
  case (CallRepositories c)
  then show ?thesis
    by (cases c) (auto intro!: by_slug_allowed simp: resource_handler_def allowed_same stats_resources findOne_resources)
next
  case (CallRuns c)
  then show ?thesis by (cases c) (simp_all add: resource_handler_def allowed_same runs_resources)
next
  case (CallRestores c)
  then show ?thesis by (cases c) (simp_all add: resource_handler_def allowed_same runs_resources)
next
  case (CallAudit c)
  then show ?thesis by (cases c) (simp_all add: resource_handler_def allowed_same)
qed (simp add: resource_handler_def allowed_same)

lemma no_any_scope: "\<not> rm_any_scope (resource_meta call)"
proof (cases call)
  case (CallTargets c)
  then show ?thesis by (cases c) (simp_all add: resource_meta_def meta_def Let_def)
qed (simp_all add: resource_meta_def meta_def Let_def)

section \<open>Theorems\<close>

text \<open>
  C11: Whatever a request to the routes of connections, jobs, snapshots, reports, repositories, runs, restores and
  the audit log carries: if it leaves a lasting trace (more than the figures of a repository and the guard's own
  notes), then it came with the credential of an enabled account, and not with an API key made for reading only.
  Every job it changed or removed, and every connection whose settings it changed, is one this account may manage,
  as far as the key allows; and unless the account is an administrator, no job reads from another place, other
  paths or with other options than some job did before.
\<close>

theorem requests_change_what_they_may:
  assumes "serve_resource x d req call rz = (res, rz')" "kept_state rz' \<noteq> kept_state rz"
  shows "\<exists>u token acc. extractToken req = Some token \<and>
    proven_by (ae_config (rx_api x)) (lg_jwt (ae_login (rx_api x))) (rx_crypto x) (ry_now d) token (rz_server rz) u acc \<and>
    (ru_auth_via u = ViaApiKey \<longrightarrow> (\<exists>a \<in> set (scope_actions u). a \<noteq> ''read'')) \<and>
    allowed_changes u (rz_server rz) (rz_server rz')"
proof (cases rule: served_cases [of x d req call rz])
  case 1
  then have "kept_state (snd (serve_resource x d req call rz)) = kept_state rz"
    unfolding kept_state_def unmarked_tables(4) [OF 1(1)] by simp
  with assms show ?thesis by simp
next
  case (2 u s1 token acc)
  from 2(5) assms(1) have h: "resource_handler x d call u (rz\<lparr>rz_server := s1\<rparr>) = (res, rz')" by simp
  have same: "kept_state (rz\<lparr>rz_server := s1\<rparr>) = kept_state rz" by (simp add: kept_state_def unmarked_tables(4) [OF 2(1)])
  have "mutating (resource_method call)"
    using reading_keeps [of call x d u "rz\<lparr>rz_server := s1\<rparr>"] h same assms(2) by auto
  moreover have "\<not> rm_any_scope (resource_meta call)" by (rule no_any_scope)
  ultimately have "ru_auth_via u = ViaApiKey \<longrightarrow> (\<exists>a \<in> set (scope_actions u). a \<noteq> ''read'')"
    using 2(4) by (simp add: route_allows_def)
  moreover have "allowed_changes u s1 (rz_server rz')"
    using handler_allowed [of u "rz\<lparr>rz_server := s1\<rparr>" x d call] h by simp
  then have "allowed_changes u (rz_server rz) (rz_server rz')"
    using unmarked_tables [OF 2(1)] can_same [OF unmarked_tables(3) [OF 2(1)]] by (simp add: allowed_changes_def)
  ultimately show ?thesis using 2(2,3) by blast
qed

definition manager_state :: resource_state where
  "manager_state =
     \<lparr>rz_server = (sample_server [])\<lparr>users := [sample_account ''u1'' ''a@x'' False], resource_grants := [sample_grant ''j1'' AlManage]\<rparr>,
      rz_crons = [(''job:j1'', ''0 2 * * *'')], rz_files = (\<lambda>_. None), rz_probes = []\<rparr>"

definition sample_resources :: resource_env where
  "sample_resources =
     \<lparr>rx_api = sample_api, rx_valid_cron = (\<lambda>_. True), rx_next_run = (\<lambda>_. None), rx_parse = (\<lambda>_. None),
      rx_sort_json = (\<lambda>_ xs. xs), rx_sort_entries = (\<lambda>_ xs. xs), rx_locale_compare = (\<lambda>_ _. 0), rx_restic = (\<lambda>_ _ fs. (Inl (PlainError ''restic: not found''), fs)),
      rx_read_stats = (\<lambda>_. Inl (PlainError [])), rx_network = sample_network, rx_file_exists = (\<lambda>_. False),
      rx_restore_created = (\<lambda>_. 0), rx_release = no_update_status\<rparr>"

definition sample_resource_draw :: resource_draw where
  "sample_resource_draw = \<lparr>ry_api = sample_api_draw, ry_job = sample_job_fresh\<rparr>"

lemma manager_session:
  "authenticate sample_config sample_jwt sample_crypto 5 admin_token (rz_server manager_state) =
     (Inr \<lparr>ru_id = ''u1'', ru_email = ''a@x'', ru_is_admin = False, ru_auth_via = ViaSession, ru_api_key_scopes = None,
            ru_api_key_id = None\<rparr>, rz_server manager_state)"
proof -
  have "jw_verify sample_jwt (cf_jwt_secret sample_config) 5 admin_token = Some [(''sub'', JStr ''u1'')]"
    using sample_jwt_laws(1) by (simp add: jwt_correct_def admin_token_def)
  then show ?thesis
    by (simp add: authenticate_def admin_token_plain fromJwt_def manager_state_def user_by_id_def select_first_def sample_account_def)
qed

lemma manager_removes: "backup_jobs (rz_server (snd (serve_resource sample_resources sample_resource_draw admin_http
    (CallJobs (JobsRemove ''nightly'')) manager_state))) = []"
proof -
  have c: "ae_config (rx_api sample_resources) = sample_config" "rx_crypto sample_resources = sample_crypto"
    "lg_jwt (ae_login (rx_api sample_resources)) = sample_jwt" "ry_now sample_resource_draw = 5"
    by (simp_all add: rx_crypto_def ae_config_def ae_crypto_def sample_api_def sample_env_def sample_api_draw_def sample_resources_def
        sample_resource_draw_def ry_now_def)
  have t: "extractToken (admin_http\<lparr>rq_method := m\<rparr>) = Some admin_token" for m
    by (simp add: extractToken_def admin_http_def bearer_def)
  have slug: "slug_resolve (job_slugs (rz_server manager_state)) ''nightly'' = Inr ''j1''"
    by (simp add: slug_resolve_def job_slugs_def manager_state_def sample_job_def isUuid_def select_first_def)
  have row: "job_getRow (rz_server manager_state) ''j1'' = Inr (sample_job, sample_repository)"
    by (simp add: job_getRow_def manager_state_def backup_job_by_id_def repository_by_id_def select_first_def sample_job_def sample_repository_def)
  have job: "backup_jobs (rz_server manager_state) = [sample_job]" "bj_id sample_job = ''j1''"
    "restore_runs (rz_server manager_state) = []" "resource_grants (rz_server manager_state) = [sample_grant ''j1'' AlManage]"
    by (simp_all add: manager_state_def sample_job_def)
  show ?thesis
    by (simp add: serve_resource_def canActivate_def c t admin_token_plain manager_session resource_meta_def first_error_def
        check_admin_def check_no_key_def check_write_scope_def check_action_def meta_def Let_def resource_handler_def route_states slug)
      (simp add: job_remove_def row job acl_assert_def can_def apiKeyAllows_def sample_grant_def select_first_def Let_def
        password_secret_in_use_def secret_remove_def remove_credential_secret_def update_where_def delete_where_def split: option.split)
qed

theorem requests_change_what_they_may_witness:
  "\<exists>u acc. proven_by sample_config sample_jwt sample_crypto 5 admin_token (rz_server manager_state) u acc \<and>
     can (rz_server manager_state) u RtJob ''j1'' AlManage"
proof -
  let ?r = "serve_resource sample_resources sample_resource_draw admin_http (CallJobs (JobsRemove ''nightly'')) manager_state"
  have c: "ae_config (rx_api sample_resources) = sample_config" "rx_crypto sample_resources = sample_crypto"
    "lg_jwt (ae_login (rx_api sample_resources)) = sample_jwt" "ry_now sample_resource_draw = 5"
    by (simp_all add: rx_crypto_def ae_config_def ae_crypto_def sample_api_def sample_env_def sample_api_draw_def sample_resources_def
        sample_resource_draw_def ry_now_def)
  have j: "backup_jobs (rz_server manager_state) = [sample_job]" by (simp add: manager_state_def)
  have "kept_state (snd ?r) \<noteq> kept_state manager_state"
    using manager_removes j by (auto simp: kept_state_def lasting_def unmarked_def dest!: arg_cong [where f = backup_jobs])
  from requests_change_what_they_may [OF surjective_pairing this] obtain u token acc where
    "extractToken admin_http = Some token" "proven_by sample_config sample_jwt sample_crypto 5 token (rz_server manager_state) u acc"
    and "allowed_changes u (rz_server manager_state) (rz_server (snd ?r))" unfolding c by blast
  moreover from this have "can (rz_server manager_state) u RtJob ''j1'' AlManage"
    using manager_removes j by (auto simp: allowed_changes_def sample_job_def)
  moreover have "extractToken admin_http = Some admin_token" by (simp add: extractToken_def admin_http_def bearer_def)
  ultimately show ?thesis by auto
qed

end
