(* ===== verification/IntegrityView.thy ===== *)
theory IntegrityView
  imports CheckRunner JobRoutes ClientCore
begin

text \<open>
  What the web client tells about the integrity of a repository: \<open>client/src/ui/integrity.tsx\<close>, over the rows
  \<open>check-runner.service.ts\<close> writes. The texts are left to the translations; a label is the constructor that
  names it. The theorems relate the badge, the progress of a rotation and the announced next part to the
  checks that were really made.
\<close>

section \<open>The badge\<close>

definition STALE_AFTER_DAYS :: int where
  "STALE_AFTER_DAYS = 30"

datatype tone = ToneSuccess | ToneDanger | ToneWarn | ToneMuted

datatype level_label = LabelCheck | LabelFull | LabelRotatingPart nat nat | LabelRotating | LabelQuick

definition checkLevelLabel :: "check_info option \<Rightarrow> level_label" where
  "checkLevelLabel info =
     (case info of
        None \<Rightarrow> LabelCheck
      | Some i \<Rightarrow>
          (case ci_level i of
             LvFull \<Rightarrow> LabelFull
           | LvRotating \<Rightarrow>
               (if truthy_nat (ci_part i) \<and> truthy_nat (ci_parts i) then LabelRotatingPart (the (ci_part i)) (the (ci_parts i))
                else LabelRotating)
           | LvQuick \<Rightarrow> LabelQuick))"

datatype verdict_label = SaysDamaged | SaysVerified time | SaysCheckFailed | SaysNotVerified

text \<open>An error text that is empty counts as none.\<close>

definition integrityVerdict :: "time \<Rightarrow> repository \<Rightarrow> tone \<times> verdict_label" where
  "integrityVerdict now r =
     (if re_check_status r = Some CkDamaged then (ToneDanger, SaysDamaged)
      else case (re_check_status r, re_check_at r) of
        (Some CkPassed, Some t) \<Rightarrow>
          (if now - t > STALE_AFTER_DAYS * 86400000 then ToneWarn else ToneSuccess, SaysVerified t)
      | _ \<Rightarrow> if or_empty (re_check_error r) \<noteq> [] then (ToneDanger, SaysCheckFailed) else (ToneMuted, SaysNotVerified))"

datatype verdict_text = NoErrorsFound | IntegrityErrorsFound | NeverChecked

definition verdictText :: "repository \<Rightarrow> verdict_text" where
  "verdictText r =
     (case re_check_status r of Some CkPassed \<Rightarrow> NoErrorsFound | Some CkDamaged \<Rightarrow> IntegrityErrorsFound | None \<Rightarrow> NeverChecked)"

text \<open>The line below a check in the list of recent ones.\<close>

datatype run_text = RunPassed | RunDamaged | RunError string | RunState run_status

definition run_sub :: "job_run \<Rightarrow> run_text" where
  "run_sub r =
     (if jr_status r = Success then RunPassed
      else if (case jr_check_info r of None \<Rightarrow> False | Some i \<Rightarrow> ci_damaged i = Some True) then RunDamaged
      else if jr_status r = Failed \<and> or_empty (jr_error r) \<noteq> [] then RunError (errorSummary (or_empty (jr_error r)))
      else RunState (jr_status r))"

section \<open>The progress of a rotation\<close>

record rotation_view =
  rv_parts :: "nat option"
  rv_done :: nat
  rv_completed :: bool
  rv_shown :: nat

definition DataFact :: "integrity_check_config \<Rightarrow> repository \<Rightarrow> rotation_view" where
  "DataFact config r =
     (let schedParts = (if ic_level config = Some LvRotating then Some (or_default DEFAULT_SUBSET_PARTS (ic_subset_parts config)) else None);
          parts = (case schedParts of Some n \<Rightarrow> Some n | None \<Rightarrow> re_check_subset_parts r);
          sameSplit = (parts \<noteq> None \<and> re_check_subset_parts r = parts);
          finished = (if sameSplit then re_check_subset_next r - 1 else 0);
          completed = (sameSplit \<and> finished = 0 \<and> re_data_verified_at r \<noteq> None)
      in \<lparr>rv_parts = parts, rv_done = finished, rv_completed = completed,
          rv_shown = (if completed then the parts else finished)\<rparr>)"

text \<open>The part the dialogs announce for a rotating check.\<close>

definition announced_part :: "repository \<Rightarrow> nat \<Rightarrow> nat" where
  "announced_part r parts = (if re_check_subset_parts r = Some parts then re_check_subset_next r else 1)"

section \<open>The dialogs\<close>

text \<open>The level a check is asked for; the parts the dialog of a check talks about.\<close>

definition dialog_level :: "integrity_check_config \<Rightarrow> integrity_level" where
  "dialog_level config = or_default LvQuick (ic_level config)"

definition dialog_parts :: "integrity_check_config \<Rightarrow> nat" where
  "dialog_parts config = or_default DEFAULT_SUBSET_PARTS (ic_subset_parts config)"

definition CHECK_PRESETS :: "(string \<times> string) list" where
  "CHECK_PRESETS = [(''daily'', ''0 4 * * *''), (''weekly'', ''0 4 * * 0''), (''monthly'', ''0 4 1 * *''), (''custom'', ''custom'')]"

text \<open>The form of a schedule; \<open>sf_parts\<close> is the number in the field, if it is an integer.\<close>

record schedule_form =
  sf_enabled :: bool
  sf_cron :: string
  sf_level :: integrity_level
  sf_parts :: "int option"

definition schedule_open :: "integrity_check_config \<Rightarrow> schedule_form" where
  "schedule_open config =
     \<lparr>sf_enabled = or_default False (ic_enabled config), sf_cron = or_default ''0 4 * * 0'' (ic_cron_expr config),
      sf_level = or_default LvRotating (ic_level config), sf_parts = Some (int (dialog_parts config))\<rparr>"

definition schedule_preset :: "schedule_form \<Rightarrow> string" where
  "schedule_preset f = (case find (\<lambda>p. snd p = trim (sf_cron f)) CHECK_PRESETS of Some p \<Rightarrow> snd p | None \<Rightarrow> ''custom'')"

definition choose_preset :: "string \<Rightarrow> schedule_form \<Rightarrow> schedule_form" where
  "choose_preset v f = (if v \<noteq> ''custom'' then f\<lparr>sf_cron := v\<rparr> else f)"

definition parts_valid :: "int option \<Rightarrow> bool" where
  "parts_valid p = (case p of None \<Rightarrow> False | Some n \<Rightarrow> 2 \<le> n \<and> n \<le> 100)"

definition schedule_submit :: "schedule_form \<Rightarrow> integrity_dto option" where
  "schedule_submit f =
     (if sf_level f = LvRotating \<and> \<not> parts_valid (sf_parts f) then None
      else Some \<lparr>id_enabled = sf_enabled f, id_cron_expr = Some (trim (sf_cron f)), id_level = sf_level f,
                 id_subset_parts = (if sf_level f = LvRotating then Some (nat (the (sf_parts f))) else None)\<rparr>)"

section \<open>Refreshing while a check runs\<close>

text \<open>The panel remembers whether a check was in flight, and reloads the job when that has ended.\<close>

definition run_isActive :: "run_status \<Rightarrow> bool" where
  "run_isActive st \<longleftrightarrow> st = Queued \<or> st = Running"

definition panel_effect :: "run_status list \<Rightarrow> bool \<Rightarrow> bool \<times> bool" where
  "panel_effect statuses wasActive =
     (let active = list_ex run_isActive statuses in (wasActive \<and> \<not> active, active))"

section \<open>The checks behind what is shown\<close>

text \<open>
  The life of a repository: schedules are set, checks of any level end with any outcome, one after another
  (the server refuses to start a check next to another activity). A check is planned by the schedule there
  was when it started, which may have changed since. The log holds every check with its time, as it was
  planned and with its outcome.
\<close>

type_synonym check_entry = "time \<times> check_info \<times> check_outcome"

datatype check_event = ScheduleSet integrity_check_config | CheckEnds integrity_check_config integrity_level time check_outcome

definition check_step :: "check_event \<Rightarrow> backup_job \<times> repository \<times> check_entry list \<Rightarrow> backup_job \<times> repository \<times> check_entry list" where
  "check_step ev st =
     (case st of (j, r, log) \<Rightarrow>
        (case ev of
           ScheduleSet config \<Rightarrow> (j\<lparr>bj_integrity_check := config\<rparr>, r, log)
         | CheckEnds config level now oc \<Rightarrow>
             (let info = planCheck (j\<lparr>bj_integrity_check := config\<rparr>) r (Some level) in (j, repositoryPatch now info oc r, log @ [(now, info, oc)]))))"

text \<open>A split has at least one part; the server takes 2 to 100.\<close>

definition config_ok :: "integrity_check_config \<Rightarrow> bool" where
  "config_ok config \<longleftrightarrow> 0 < dialog_parts config"

inductive checked :: "backup_job \<times> repository \<times> check_entry list \<Rightarrow> bool" where
  checked_new: "config_ok (bj_integrity_check j) \<Longrightarrow> re_check_status r = None \<Longrightarrow> re_check_at r = None \<Longrightarrow>
    re_check_subset_parts r = None \<Longrightarrow> checked (j, r, [])"
| checked_schedule: "checked st \<Longrightarrow> config_ok config \<Longrightarrow> checked (check_step (ScheduleSet config) st)"
| checked_ends: "checked st \<Longrightarrow> config_ok config \<Longrightarrow> checked (check_step (CheckEnds config level now oc) st)"

text \<open>The parts read by the rotating checks that passed, and the verdicts reached, in order.\<close>

definition parts_read :: "check_entry list \<Rightarrow> (nat \<times> nat) list" where
  "parts_read log =
     List.map_filter (\<lambda>(now, info, oc). if ci_level info = LvRotating \<and> passed oc then Some (the (ci_part info), the (ci_parts info)) else None) log"

definition verdicts :: "check_entry list \<Rightarrow> (time \<times> bool) list" where
  "verdicts log = List.map_filter (\<lambda>(now, info, oc). if co_damaged oc \<or> passed oc then Some (now, passed oc) else None) log"

section \<open>The invariant\<close>

definition read_upto :: "nat \<Rightarrow> nat \<Rightarrow> check_entry list \<Rightarrow> bool" where
  "read_upto k n log \<longleftrightarrow> (\<exists>pre. parts_read log = pre @ map (\<lambda>p. (p, n)) [1 ..< k + 1])"

definition split_ok :: "repository \<Rightarrow> check_entry list \<Rightarrow> bool" where
  "split_ok r log \<longleftrightarrow>
     (\<forall>n. re_check_subset_parts r = Some n \<longrightarrow>
        1 \<le> re_check_subset_next r \<and> re_check_subset_next r \<le> n \<and>
        read_upto (if re_check_subset_next r = 1 then n else re_check_subset_next r - 1) n log)"

definition verdict_ok :: "repository \<Rightarrow> check_entry list \<Rightarrow> bool" where
  "verdict_ok r log \<longleftrightarrow>
     (if verdicts log = [] then re_check_status r = None
      else re_check_status r = Some (if snd (last (verdicts log)) then CkPassed else CkDamaged) \<and>
           re_check_at r = Some (fst (last (verdicts log))))"

lemma log_snoc:
  "parts_read (log @ [(now, info, oc)]) =
     parts_read log @ (if ci_level info = LvRotating \<and> passed oc then [(the (ci_part info), the (ci_parts info))] else [])"
  "verdicts (log @ [(now, info, oc)]) = verdicts log @ (if co_damaged oc \<or> passed oc then [(now, passed oc)] else [])"
  by (simp_all add: parts_read_def verdicts_def List.map_filter_def)

lemma read_zero [simp]: "read_upto 0 n log"
  by (simp add: read_upto_def)

lemma dialog_rotation: "dialog_parts (bj_integrity_check j) = rotation_parts j"
  by (simp add: dialog_parts_def rotation_parts_def)

lemma plan_announced:
  assumes "split_ok r log"
  shows "planCheck j r (Some LvRotating) =
    \<lparr>ci_level = LvRotating, ci_part = Some (announced_part r (rotation_parts j)), ci_parts = Some (rotation_parts j), ci_damaged = None\<rparr>"
  using assms by (auto simp: plan_rotating announced_part_def split_ok_def)

lemma plan_other: "level \<noteq> LvRotating \<Longrightarrow> ci_level (planCheck j r (Some level)) = level"
  by (simp add: planCheck_def or_default_def Let_def)

lemma verdict_step:
  assumes "verdict_ok r log"
  shows "verdict_ok (repositoryPatch now info oc r) (log @ [(now, info, oc)])"
  using assms by (auto simp: verdict_ok_def log_snoc passed_def repositoryPatch_def Let_def)

lemma announced_range:
  assumes "split_ok r log" "0 < n"
  shows "1 \<le> announced_part r n" "announced_part r n \<le> n" "read_upto (announced_part r n - 1) n log"
  using assms by (auto simp: announced_part_def split_ok_def split: if_splits)

lemma read_next:
  assumes "read_upto (p - 1) n log" "1 \<le> p" "parts_read log' = parts_read log @ [(p, n)]"
  shows "read_upto p n log'"
proof -
  have "[1 ..< p + 1] = [1 ..< p] @ [p]" using assms(2) by simp
  then show ?thesis using assms by (auto simp: read_upto_def)
qed

lemma split_step:
  assumes "split_ok r log" "0 < rotation_parts j"
  shows "split_ok (repositoryPatch now (planCheck j r (Some level)) oc r) (log @ [(now, planCheck j r (Some level), oc)])"
proof (cases "level = LvRotating \<and> passed oc")
  case False
  let ?i = "planCheck j r (Some level)"
  have "parts_read (log @ [(now, ?i, oc)]) = parts_read log" using False plan_other by (auto simp: log_snoc)
  then have "read_upto k n (log @ [(now, ?i, oc)]) = read_upto k n log" for k n by (simp only: read_upto_def)
  moreover have "re_check_subset_parts (repositoryPatch now ?i oc r) = re_check_subset_parts r"
    "re_check_subset_next (repositoryPatch now ?i oc r) = re_check_subset_next r"
    using False plan_other [of level j r] by (auto simp: passed_def repositoryPatch_def Let_def)
  ultimately show ?thesis using assms(1) by (simp only: split_ok_def)
next
  case True
  let ?n = "rotation_parts j"
  define p where "p = announced_part r ?n"
  have p: "1 \<le> p" "p \<le> ?n" "read_upto (p - 1) ?n log" using announced_range [OF assms] by (simp_all add: p_def)
  have l: "level = LvRotating" "passed oc" using True by simp_all
  have plan: "planCheck j r (Some LvRotating) = \<lparr>ci_level = LvRotating, ci_part = Some p, ci_parts = Some ?n, ci_damaged = None\<rparr>"
    using plan_announced [OF assms(1)] by (simp add: p_def)
  have "read_upto p ?n (log @ [(now, planCheck j r (Some level), oc)])"
    using p by (intro read_next [OF p(3)]) (simp_all add: log_snoc plan l)
  then show ?thesis
    using p l by (auto simp: split_ok_def plan repositoryPatch_def passed_def truthy_nat_def Let_def)
qed

lemma checked_inv: "checked st \<Longrightarrow> case st of (j, r, log) \<Rightarrow> config_ok (bj_integrity_check j) \<and> split_ok r log \<and> verdict_ok r log"
proof (induction rule: checked.induct)
  case (checked_new j r)
  then show ?case by (simp add: split_ok_def verdict_ok_def verdicts_def List.map_filter_def)
next
  case (checked_schedule st config)
  then show ?case by (auto simp: check_step_def split: prod.splits)
next
  case (checked_ends st config level now oc)
  obtain j r log where st: "st = (j, r, log)" by (cases st)
  have "0 < rotation_parts (j\<lparr>bj_integrity_check := config\<rparr>)"
    using checked_ends.hyps(2) by (simp add: config_ok_def dialog_rotation [symmetric])
  with checked_ends.IH show ?case
    using split_step verdict_step unfolding st by (simp add: check_step_def Let_def)
qed

section \<open>Theorems\<close>

text \<open>
  C18: The integrity panel tells the truth about the checks made: after any sequence of checks of any level and
  outcome, none of which overlap, and of changes of the schedule, the part the dialog announces is the one the server reads next;
  when k of n parts are shown as read, the last k rotating checks that passed read the parts 1 to k of n in
  order; a green badge means that the latest check to reach a verdict passed, at most 30 days ago; and when
  the latest verdict was damage, the badge says so.
\<close>

theorem integrity_panel_truthful:
  assumes "checked (j, r, log)" "view = DataFact (bj_integrity_check j) r"
  shows "Some (announced_part r (dialog_parts (bj_integrity_check j))) = ci_part (planCheck j r (Some LvRotating)) \<and>
    (\<forall>n. rv_parts view = Some n \<longrightarrow> (\<exists>pre. parts_read log = pre @ map (\<lambda>p. (p, n)) [1 ..< rv_shown view + 1])) \<and>
    (fst (integrityVerdict now r) = ToneSuccess \<longrightarrow>
      (\<exists>vs t. verdicts log = vs @ [(t, True)] \<and> now - t \<le> STALE_AFTER_DAYS * 86400000)) \<and>
    (\<forall>vs t. verdicts log = vs @ [(t, False)] \<longrightarrow> integrityVerdict now r = (ToneDanger, SaysDamaged))"
proof (intro conjI)
  have inv: "split_ok r log" "verdict_ok r log" using checked_inv [OF assms(1)] by simp_all
  show "Some (announced_part r (dialog_parts (bj_integrity_check j))) = ci_part (planCheck j r (Some LvRotating))"
    using plan_announced [OF inv(1)] by (simp add: dialog_rotation)
  show "\<forall>n. rv_parts view = Some n \<longrightarrow> (\<exists>pre. parts_read log = pre @ map (\<lambda>p. (p, n)) [1 ..< rv_shown view + 1])"
  proof (intro allI impI)
    fix n assume n: "rv_parts view = Some n"
    have "read_upto (rv_shown view) n log"
      using inv(1) n unfolding assms(2) by (auto simp: DataFact_def split_ok_def Let_def split: if_splits option.splits)
    then show "\<exists>pre. parts_read log = pre @ map (\<lambda>p. (p, n)) [1 ..< rv_shown view + 1]" by (simp only: read_upto_def)
  qed
  show "fst (integrityVerdict now r) = ToneSuccess \<longrightarrow>
      (\<exists>vs t. verdicts log = vs @ [(t, True)] \<and> now - t \<le> STALE_AFTER_DAYS * 86400000)"
    using inv(2) by (cases "verdicts log" rule: rev_cases)
      (auto simp: verdict_ok_def integrityVerdict_def split: if_splits)
  show "\<forall>vs t. verdicts log = vs @ [(t, False)] \<longrightarrow> integrityVerdict now r = (ToneDanger, SaysDamaged)"
    using inv(2) by (auto simp: verdict_ok_def integrityVerdict_def)
qed

definition sample_schedule :: integrity_check_config where
  "sample_schedule = bj_integrity_check sample_job"

definition two_checks :: "backup_job \<times> repository \<times> check_entry list" where
  "two_checks = check_step (CheckEnds sample_schedule LvRotating 2 sample_outcome) (check_step (CheckEnds sample_schedule LvRotating 1 sample_outcome)
     (sample_job, sample_repository, []))"

theorem integrity_panel_truthful_witness:
  "case two_checks of (j, r, log) \<Rightarrow>
     announced_part r 3 = 3 \<and> rv_shown (DataFact (bj_integrity_check j) r) = 2 \<and>
     (\<exists>pre. parts_read log = pre @ map (\<lambda>p. (p, 3)) [1 ..< 3])"
proof -
  obtain j r log where st: "two_checks = (j, r, log)" by (cases two_checks)
  have "checked (sample_job, sample_repository, [])"
    by (rule checked_new) (simp_all add: config_ok_def dialog_parts_def or_default_def sample_job_def sample_repository_def)
  then have c: "checked (j, r, log)" unfolding st [symmetric] two_checks_def
    by (intro checked_ends) (simp_all add: config_ok_def dialog_parts_def or_default_def sample_job_def sample_schedule_def)
  have v: "announced_part r 3 = 3" "rv_parts (DataFact (bj_integrity_check j) r) = Some 3"
    "rv_shown (DataFact (bj_integrity_check j) r) = 2"
    using st by (auto simp: two_checks_def sample_schedule_def check_step_def planCheck_def repositoryPatch_def sample_outcome_def sample_job_def
        sample_repository_def or_default_def truthy_nat_def announced_part_def DataFact_def Let_def)
  have "\<exists>pre. parts_read log = pre @ map (\<lambda>p. (p, 3)) [1 ..< rv_shown (DataFact (bj_integrity_check j) r) + 1]"
    using integrity_panel_truthful [OF c refl] v(2) by blast
  with v show ?thesis unfolding st by simp
qed

end
