(* ===== verification/DashboardFeed.thy ===== *)
theory DashboardFeed
  imports ResourceRoutes ClientCore
begin

text \<open>
  The dashboard of the web client, \<open>client/src/pages/dashboard.tsx\<close>, over the feed of \<open>runs.service.ts\<close>: the
  activity list that grows page by page while it is scrolled, starts over when a filter changes and is kept
  current by a poll. Requests are answered later than they are sent, so an answer may find the list changed.
  The theorems say that nothing is listed twice, that a list loaded to its end is complete and that hidden
  kinds stay hidden, and where the last fails.
\<close>

section \<open>What the list holds\<close>

text \<open>The filters: maintenance shown, failures only, and the search term in use.\<close>

record feed_choice =
  fc_maintenance :: bool
  fc_failed :: bool
  fc_search :: string

definition RUNS_PAGE :: nat where
  "RUNS_PAGE = 50"

text \<open>The refs and the state of the view. \<open>fd_gen\<close> counts the changes of the filter.\<close>

record feed_state =
  fd_choice :: feed_choice
  fd_gen :: nat
  fd_runs :: "activity list"
  fd_seen :: "uuid list"
  fd_offset :: nat
  fd_loading :: bool
  fd_done :: bool
  fd_cancelled :: "uuid list"

definition feed_start :: feed_state where
  "feed_start = \<lparr>fd_choice = \<lparr>fc_maintenance = False, fc_failed = False, fc_search = []\<rparr>, fd_gen = 0, fd_runs = [],
     fd_seen = [], fd_offset = 0, fd_loading = False, fd_done = False, fd_cancelled = []\<rparr>"

definition isMaintenance :: "activity \<Rightarrow> bool" where
  "isMaintenance r \<longleftrightarrow> ac_kind r = AkRun KPrune \<or> ac_kind r = AkRun KCheck"

section \<open>Loading pages\<close>

definition feed_request :: "feed_choice \<Rightarrow> nat \<Rightarrow> feed_opts" where
  "feed_request f off =
     \<lparr>fo_limit = Some RUNS_PAGE, fo_offset = Some off, fo_job_id = None,
      fo_status = (if fc_failed f then Some Failed else None),
      fo_kinds = (if fc_maintenance f then [] else [AkRun KBackup, AkRestore]),
      fo_search = (if fc_search f = [] then None else Some (fc_search f))\<rparr>"

text \<open>\<open>loadMore\<close> up to its request; the request carries the filter and the generation it was made in.\<close>

type_synonym page_request = "nat \<times> feed_choice \<times> nat"

definition loadMore :: "feed_state \<Rightarrow> feed_state \<times> page_request option" where
  "loadMore st =
     (if fd_loading st \<or> fd_done st then (st, None)
      else (st\<lparr>fd_loading := True\<rparr>, Some (fd_gen st, fd_choice st, fd_offset st)))"

definition unseen :: "uuid list \<Rightarrow> activity list \<Rightarrow> activity list" where
  "unseen seen rs = filter (\<lambda>r. ac_id r \<notin> set seen) rs"

definition page_arrives :: "nat \<Rightarrow> activity list \<Rightarrow> feed_state \<Rightarrow> feed_state" where
  "page_arrives gen page st =
     (if gen \<noteq> fd_gen st then st
      else st\<lparr>fd_seen := fd_seen st @ map ac_id (unseen (fd_seen st) page), fd_offset := fd_offset st + length page,
              fd_done := (fd_done st \<or> length page < RUNS_PAGE), fd_runs := fd_runs st @ unseen (fd_seen st) page,
              fd_loading := False\<rparr>)"

definition page_fails :: "nat \<Rightarrow> feed_state \<Rightarrow> feed_state" where
  "page_fails gen st = (if gen \<noteq> fd_gen st then st else st\<lparr>fd_done := True, fd_loading := False\<rparr>)"

section \<open>Changing the filter\<close>

definition resetFeed :: "feed_state \<Rightarrow> feed_state" where
  "resetFeed st = st\<lparr>fd_gen := fd_gen st + 1, fd_seen := [], fd_offset := 0, fd_loading := False, fd_done := False, fd_runs := []\<rparr>"

definition toggleShowMaintenance :: "bool \<Rightarrow> feed_state \<Rightarrow> feed_state" where
  "toggleShowMaintenance next st = (resetFeed st)\<lparr>fd_choice := (fd_choice st)\<lparr>fc_maintenance := next\<rparr>\<rparr>"

definition toggleOnlyFailed :: "bool \<Rightarrow> feed_state \<Rightarrow> feed_state" where
  "toggleOnlyFailed next st = (resetFeed st)\<lparr>fd_choice := (fd_choice st)\<lparr>fc_failed := next\<rparr>\<rparr>"

definition search_settles :: "string \<Rightarrow> feed_state \<Rightarrow> feed_state" where
  "search_settles typed st =
     (if trim typed = fc_search (fd_choice st) then st
      else (resetFeed st)\<lparr>fd_choice := (fd_choice st)\<lparr>fc_search := trim typed\<rparr>\<rparr>)"

section \<open>The poll\<close>

text \<open>
  A poll first receives the newest entries, keeps those the filter admits and picks the listed rows it has to
  ask for one by one; when the last of those answers is there, it writes the list.
\<close>

definition poll_admits :: "feed_choice \<Rightarrow> activity \<Rightarrow> bool" where
  "poll_admits f r \<longleftrightarrow>
     (fc_maintenance f \<or> \<not> isMaintenance r) \<and> (\<not> fc_failed f \<or> ac_status r = Failed) \<and>
     (to_lower (fc_search f) = [] \<or> is_substring (to_lower (fc_search f)) (to_lower (or_empty (ac_job_name r))))"

definition poll_recent :: "activity list \<Rightarrow> feed_state \<Rightarrow> activity list" where
  "poll_recent newest st = filter (poll_admits (fd_choice st)) newest"

definition poll_stale :: "activity list \<Rightarrow> feed_state \<Rightarrow> activity list" where
  "poll_stale recent st = filter (\<lambda>r. active_status (ac_status r) \<and> ac_id r \<notin> ac_id ` set recent) (fd_runs st)"

text \<open>The answer for one row: status and attempt of what the row shows; nothing if the request failed.\<close>

definition refetchRun :: "(uuid \<Rightarrow> (run_status \<times> nat) option) \<Rightarrow> activity \<Rightarrow> activity option" where
  "refetchRun answer r =
     (case answer (ac_id r) of
        None \<Rightarrow> None
      | Some (st, attempt) \<Rightarrow>
          Some (if ac_kind r = AkRestore then r\<lparr>ac_status := st\<rparr> else r\<lparr>ac_status := st, ac_attempt := attempt\<rparr>))"

definition merge_row :: "activity list \<Rightarrow> uuid list \<Rightarrow> activity \<Rightarrow> activity \<times> uuid list" where
  "merge_row latest cancelled r =
     (case find (\<lambda>x. ac_id x = ac_id r) latest of
        None \<Rightarrow> (r, cancelled)
      | Some fresh \<Rightarrow>
          (if ac_id r \<in> set cancelled
           then (if active_status (ac_status fresh) then (r, cancelled) else (fresh, removeAll (ac_id r) cancelled))
           else (fresh, cancelled)))"

fun merge_rows :: "activity list \<Rightarrow> uuid list \<Rightarrow> activity list \<Rightarrow> activity list \<times> uuid list" where
  "merge_rows latest cancelled [] = ([], cancelled)"
| "merge_rows latest cancelled (r # rs) =
     (case merge_row latest cancelled r of
        (row, cancelled1) \<Rightarrow> (case merge_rows latest cancelled1 rs of (rows, cancelled2) \<Rightarrow> (row # rows, cancelled2)))"

definition poll_settles :: "activity list \<Rightarrow> activity list \<Rightarrow> feed_state \<Rightarrow> feed_state" where
  "poll_settles recent refetched st =
     (case merge_rows (recent @ refetched) (fd_cancelled st) (fd_runs st) of
        (updated, cancelled) \<Rightarrow>
          st\<lparr>fd_cancelled := cancelled, fd_runs := unseen (fd_seen st) recent @ updated,
             fd_seen := fd_seen st @ map ac_id (unseen (fd_seen st) recent)\<rparr>)"

definition markCancelled :: "uuid \<Rightarrow> feed_state \<Rightarrow> feed_state" where
  "markCancelled i st =
     st\<lparr>fd_cancelled := i # fd_cancelled st,
        fd_runs := map (\<lambda>r. if ac_id r = i then r\<lparr>ac_status := Cancelled\<rparr> else r) (fd_runs st)\<rparr>"

section \<open>The list beside it\<close>

text \<open>The schedules of enabled jobs that have a next date, soonest first.\<close>

definition next_jobs :: "string \<Rightarrow> api_job list \<Rightarrow> api_job list" where
  "next_jobs query jobs =
     sort_key (\<lambda>j. the (aj_next_run j))
       (filter (\<lambda>j. bj_enabled (aj_job j) \<and> aj_next_run j \<noteq> None \<and>
                   matchesSearch query [Some (bj_name (aj_job j)), Some (bj_cron_expr (aj_job j))]) jobs)"

definition STORAGE_RANGES :: "int list" where
  "STORAGE_RANGES = [7, 30, 90, 365]"

definition agents_online :: "agent list \<Rightarrow> nat \<times> nat" where
  "agents_online as = (let online = length (filter (\<lambda>a. ag_status a = AgOnline) as) in (online, length as - online))"

section \<open>The server behind the list\<close>

definition feed_rows :: "(uuid \<Rightarrow> time) \<Rightarrow> server \<Rightarrow> activity list" where
  "feed_rows created s = jobRunsQuery s @ restoreRunsQuery created s"

definition whole_feed :: "(uuid \<Rightarrow> time) \<Rightarrow> request_user \<Rightarrow> feed_choice \<Rightarrow> server \<Rightarrow> activity list" where
  "whole_feed created u f s =
     (let ids = visibleResourceIds s u RtJob in
      if ids = Some [] then [] else feed_sort (filter (feed_filter ids (feed_query (feed_request f 0))) (feed_rows created s)))"

definition page_of :: "(uuid \<Rightarrow> time) \<Rightarrow> request_user \<Rightarrow> page_request \<Rightarrow> server \<Rightarrow> activity list" where
  "page_of created u req s = (case req of (gen, f, off) \<Rightarrow> runs_list created u (feed_query (feed_request f off)) s)"

lemma filter_same: "feed_filter ids (feed_query (feed_request f off)) = feed_filter ids (feed_query (feed_request f 0))"
  by (intro ext) (simp add: feed_filter_def feed_query_def feed_request_def)

lemma page_slice: "page_of created u (gen, f, off) s = take RUNS_PAGE (drop off (whole_feed created u f s))"
proof -
  have n: "min (or_default 50 (fo_limit (feed_query (feed_request f off)))) 200 = RUNS_PAGE"
    "or_default 0 (fo_offset (feed_query (feed_request f off))) = off"
    by (simp_all add: feed_query_def feed_request_def or_default_def RUNS_PAGE_def)
  show ?thesis
    unfolding page_of_def prod.case runs_list_def whole_feed_def feed_rows_def Let_def n filter_same [of _ f off] by simp
qed

lemma mset_feed_sort: "mset (feed_sort rs) = mset rs"
proof -
  have "mset (feed_insert a bs) = add_mset a (mset bs)" for a bs by (induction bs) auto
  then show ?thesis by (induction rs) (simp_all add: feed_sort_def)
qed

lemma distinct_feed_sort: "distinct (map ac_id (feed_sort rs)) = distinct (map ac_id rs)"
  by (rule mset_eq_imp_distinct_iff) (simp add: mset_feed_sort)

lemma distinct_whole:
  assumes "distinct (map ac_id (feed_rows created s))"
  shows "distinct (map ac_id (whole_feed created u f s))"
  using assms by (simp add: whole_feed_def distinct_feed_sort Let_def distinct_map_filter)

lemma set_whole: "r \<in> set (whole_feed created u f s) \<Longrightarrow> \<exists>ids. feed_filter ids (feed_query (feed_request f 0)) r"
  by (auto simp: whole_feed_def Let_def set_feed_sort split: if_splits)

section \<open>Executions\<close>

text \<open>
  The view with what is under way: page requests and their answers once the server has made them, polls
  with the generation they began in, the rows they keep and those they ask for. \<open>fw_since\<close> is the server
  when the filter was chosen; \<open>fw_failed\<close> says that a page failed since and \<open>fw_crossed\<close> that a poll from
  before the choice has written the list.
\<close>

record feed_world =
  fw_state :: feed_state
  fw_server :: server
  fw_since :: server
  fw_pages :: "(page_request \<times> activity list option) set"
  fw_polls :: "(nat \<times> activity list \<times> activity list) set"
  fw_failed :: bool
  fw_crossed :: bool

definition ids_of :: "(uuid \<Rightarrow> time) \<Rightarrow> request_user \<Rightarrow> feed_choice \<Rightarrow> server \<Rightarrow> uuid list" where
  "ids_of created u f s = map ac_id (whole_feed created u f s)"

definition rows_keyed :: "(uuid \<Rightarrow> time) \<Rightarrow> server \<Rightarrow> bool" where
  "rows_keyed created s \<longleftrightarrow> distinct (map ac_id (feed_rows created s))"

definition chooses :: "feed_state \<Rightarrow> feed_world \<Rightarrow> feed_world" where
  "chooses st w = w\<lparr>fw_state := st, fw_since := fw_server w, fw_failed := False, fw_crossed := False\<rparr>"

text \<open>The server may change so that new entries come before those of the feed asked for.\<close>

inductive browsing :: "(uuid \<Rightarrow> time) \<Rightarrow> request_user \<Rightarrow> feed_world \<Rightarrow> bool" for created u where
  feed_opens: "rows_keyed created s \<Longrightarrow> browsing created u
    \<lparr>fw_state = feed_start, fw_server = s, fw_since = s, fw_pages = {}, fw_polls = {}, fw_failed = False, fw_crossed = False\<rparr>"
| feed_grows: "browsing created u w \<Longrightarrow> rows_keyed created s \<Longrightarrow>
    ids_of created u (fd_choice (fw_state w)) s = new @ ids_of created u (fd_choice (fw_state w)) (fw_server w) \<Longrightarrow>
    browsing created u (w\<lparr>fw_server := s\<rparr>)"
| page_asked: "browsing created u w \<Longrightarrow> loadMore (fw_state w) = (st, Some req) \<Longrightarrow>
    browsing created u (w\<lparr>fw_state := st, fw_pages := insert (req, None) (fw_pages w)\<rparr>)"
| page_computed: "browsing created u w \<Longrightarrow> (req, None) \<in> fw_pages w \<Longrightarrow>
    browsing created u (w\<lparr>fw_pages := insert (req, Some (page_of created u req (fw_server w))) (fw_pages w - {(req, None)})\<rparr>)"
| page_comes: "browsing created u w \<Longrightarrow> ((gen, f, off), Some page) \<in> fw_pages w \<Longrightarrow>
    browsing created u (w\<lparr>fw_state := page_arrives gen page (fw_state w), fw_pages := fw_pages w - {((gen, f, off), Some page)}\<rparr>)"
| page_lost: "browsing created u w \<Longrightarrow> ((gen, f, off), answer) \<in> fw_pages w \<Longrightarrow>
    browsing created u (w\<lparr>fw_state := page_fails gen (fw_state w), fw_pages := fw_pages w - {((gen, f, off), answer)},
      fw_failed := (fw_failed w \<or> gen = fd_gen (fw_state w))\<rparr>)"
| chooses_maintenance: "browsing created u w \<Longrightarrow> browsing created u (chooses (toggleShowMaintenance next (fw_state w)) w)"
| chooses_failed: "browsing created u w \<Longrightarrow> browsing created u (chooses (toggleOnlyFailed next (fw_state w)) w)"
| chooses_search: "browsing created u w \<Longrightarrow> search_settles typed (fw_state w) \<noteq> fw_state w \<Longrightarrow>
    browsing created u (chooses (search_settles typed (fw_state w)) w)"
| poll_begins: "browsing created u w \<Longrightarrow> rows_keyed created s \<Longrightarrow>
    recent = poll_recent (df_recent (dashboard created now u s)) (fw_state w) \<Longrightarrow>
    browsing created u (w\<lparr>fw_polls := insert (fd_gen (fw_state w), recent, poll_stale recent (fw_state w)) (fw_polls w)\<rparr>)"
| poll_ends: "browsing created u w \<Longrightarrow> (gen, recent, stale) \<in> fw_polls w \<Longrightarrow>
    browsing created u (w\<lparr>fw_state := poll_settles recent (List.map_filter (refetchRun answer) stale) (fw_state w),
      fw_polls := fw_polls w - {(gen, recent, stale)}, fw_crossed := (fw_crossed w \<or> gen \<noteq> fd_gen (fw_state w))\<rparr>)"
| row_cancelled: "browsing created u w \<Longrightarrow> browsing created u (w\<lparr>fw_state := markCancelled i (fw_state w)\<rparr>)"

section \<open>Nothing is listed twice\<close>

lemma distinct_part: "distinct (map h xs) \<Longrightarrow> distinct (map h (filter P (take n (drop m xs))))"
  by (rule distinct_map_filter) (simp flip: take_map drop_map)

lemma page_distinct: "rows_keyed created s \<Longrightarrow> distinct (map ac_id (page_of created u req s))"
  using distinct_part [OF distinct_whole [unfolded rows_keyed_def [symmetric]], of created s "\<lambda>_. True"]
  by (cases req) (simp add: page_slice)

lemma list_distinct: "rows_keyed created s \<Longrightarrow> distinct (map ac_id (runs_list created u opts s))"
  unfolding runs_list_def Let_def rows_keyed_def feed_rows_def [symmetric]
  using distinct_part [of ac_id "feed_sort (filter P (feed_rows created s))" "\<lambda>_. True" for P]
  by (simp add: distinct_feed_sort distinct_map_filter del: map_map)

lemma recent_distinct: "rows_keyed created s \<Longrightarrow> distinct (map ac_id (poll_recent (df_recent (dashboard created now u s)) st))"
  by (simp add: poll_recent_def dashboard_def Let_def distinct_map_filter list_distinct)

lemma merge_row_from: "merge_row latest cancelled r = (row, c) \<Longrightarrow> ac_id row = ac_id r \<and> (row = r \<or> row \<in> set latest)"
  by (auto simp: merge_row_def find_Some_iff split: option.splits if_splits)

lemma merge_rows_from:
  "merge_rows latest cancelled rows = (rows', c) \<Longrightarrow>
    map ac_id rows' = map ac_id rows \<and> set rows' \<subseteq> set rows \<union> set latest"
proof (induction rows arbitrary: cancelled rows' c)
  case (Cons r rs)
  then show ?case by (fastforce split: prod.splits dest: merge_row_from)
qed simp

lemma unseen_ids: "set (map ac_id (unseen seen rs)) = set (map ac_id rs) - set seen"
  by (auto simp: unseen_def)

definition listed_once :: "feed_state \<Rightarrow> bool" where
  "listed_once st \<longleftrightarrow> distinct (map ac_id (fd_runs st)) \<and> set (fd_seen st) = set (map ac_id (fd_runs st))"

lemma listed_reset: "listed_once (resetFeed st)" "listed_once (resetFeed st\<lparr>fd_choice := c\<rparr>)"
  by (simp_all add: listed_once_def resetFeed_def)

lemma listed_page:
  assumes "listed_once st" "distinct (map ac_id page)"
  shows "listed_once (page_arrives gen page st)"
  using assms unseen_ids [of "fd_seen st" page]
  by (auto simp: listed_once_def page_arrives_def) (simp add: unseen_def distinct_map_filter)

lemma listed_poll:
  assumes "listed_once st" "distinct (map ac_id recent)"
  shows "listed_once (poll_settles recent refetched st)"
proof -
  obtain rows c where m: "merge_rows (recent @ refetched) (fd_cancelled st) (fd_runs st) = (rows, c)" by fastforce
  let ?new = "unseen (fd_seen st) recent"
  have "distinct (map ac_id ?new)" using assms(2) by (simp add: unseen_def distinct_map_filter)
  then have "distinct (map ac_id (?new @ rows))"
    using assms(1) merge_rows_from [OF m] unseen_ids [of "fd_seen st" recent] by (auto simp: listed_once_def simp del: set_map)
  moreover have "set (fd_seen st @ map ac_id ?new) = set (map ac_id (?new @ rows))"
    using assms(1) merge_rows_from [OF m] by (simp add: listed_once_def Un_commute del: set_map)
  ultimately show ?thesis by (simp add: listed_once_def poll_settles_def m)
qed

lemma listed_cancel: "listed_once (markCancelled i st) = listed_once st"
proof -
  have "map ac_id (fd_runs (markCancelled i st)) = map ac_id (fd_runs st)" by (simp add: markCancelled_def)
  moreover have "fd_seen (markCancelled i st) = fd_seen st" by (simp add: markCancelled_def)
  ultimately show ?thesis by (simp only: listed_once_def)
qed

text \<open>With the answers under way.\<close>

definition answers_distinct :: "feed_world \<Rightarrow> bool" where
  "answers_distinct w \<longleftrightarrow>
     (\<forall>p \<in> fw_pages w. case snd p of None \<Rightarrow> True | Some page \<Rightarrow> distinct (map ac_id page)) \<and>
     (\<forall>p \<in> fw_polls w. distinct (map ac_id (fst (snd p))))"

lemma load_keeps: "loadMore st = (st', req) \<Longrightarrow>
    fd_runs st' = fd_runs st \<and> fd_seen st' = fd_seen st \<and> fd_choice st' = fd_choice st \<and> fd_gen st' = fd_gen st \<and>
    fd_offset st' = fd_offset st \<and> fd_done st' = fd_done st"
  by (auto simp: loadMore_def split: if_splits)

lemma browsing_keyed: "browsing created u w \<Longrightarrow> rows_keyed created (fw_server w)"
  by (induction rule: browsing.induct) (simp_all add: chooses_def)

lemma browsing_listed: "browsing created u w \<Longrightarrow> listed_once (fw_state w) \<and> answers_distinct w"
proof (induction rule: browsing.induct)
  case (feed_opens s)
  then show ?case by (simp add: listed_once_def feed_start_def answers_distinct_def)
next
  case (page_asked w st req)
  then show ?case using load_keeps [OF page_asked.hyps(2)] by (auto simp: listed_once_def answers_distinct_def)
next
  case (page_computed w req)
  then show ?case using page_distinct [OF browsing_keyed [OF page_computed.hyps(1)]] by (auto simp: answers_distinct_def)
next
  case (page_comes w gen f off page)
  then have "distinct (map ac_id page)" by (force simp: answers_distinct_def)
  with page_comes.IH show ?case by (simp add: listed_page) (auto simp: answers_distinct_def)
next
  case (page_lost w gen f off answer)
  then show ?case by (auto simp: answers_distinct_def page_fails_def listed_once_def)
next
  case (chooses_search w typed)
  then show ?case by (auto simp: chooses_def search_settles_def answers_distinct_def listed_reset split: if_splits)
next
  case (poll_begins w s recent now)
  then show ?case using recent_distinct by (auto simp: answers_distinct_def)
next
  case (poll_ends w gen recent stale answer)
  then have "distinct (map ac_id recent)" by (auto simp: answers_distinct_def)
  with poll_ends.IH show ?case by (simp add: listed_poll) (auto simp: answers_distinct_def)
qed (simp_all add: chooses_def answers_distinct_def toggleShowMaintenance_def toggleOnlyFailed_def listed_reset listed_cancel)

section \<open>A list loaded to its end is complete\<close>

text \<open>Of the entries there were when the filter was chosen, those among the first \<open>n\<close> are listed.\<close>

definition covers :: "uuid list \<Rightarrow> nat \<Rightarrow> uuid list \<Rightarrow> uuid list \<Rightarrow> bool" where
  "covers base n ids seen \<longleftrightarrow> set base \<inter> set (take n ids) \<subseteq> set seen"

lemma covers_grow:
  assumes "covers base n ids seen" "set base \<subseteq> set ids" "distinct (new @ ids)"
  shows "covers base n (new @ ids) seen"
proof -
  have "set (take n (new @ ids)) \<subseteq> set new \<union> set (take n ids)"
    using set_take_subset_set_take [of "n - length new" n ids] set_take_subset [of n new] by auto
  moreover have "set base \<inter> set new = {}" using assms(2,3) by auto
  ultimately show ?thesis using assms(1) by (auto simp: covers_def)
qed

lemma covers_more: "covers base n ids seen \<Longrightarrow> set seen \<subseteq> set seen' \<Longrightarrow> covers base n ids seen'"
  by (auto simp: covers_def)

lemma covers_page:
  assumes "covers base n ids seen" "set (take m (drop n ids)) \<subseteq> set seen'" "set seen \<subseteq> set seen'"
  shows "covers base (n + m) ids seen'"
  using assms by (auto simp: covers_def take_add)

definition base_ids :: "(uuid \<Rightarrow> time) \<Rightarrow> request_user \<Rightarrow> feed_world \<Rightarrow> uuid list" where
  "base_ids created u w = ids_of created u (fd_choice (fw_state w)) (fw_since w)"

definition answer_ok :: "(server \<Rightarrow> uuid list) \<Rightarrow> server \<Rightarrow> uuid list \<Rightarrow> nat \<Rightarrow> uuid list \<Rightarrow> activity list \<Rightarrow> bool" where
  "answer_ok ids now base off seen page \<longleftrightarrow>
     (\<exists>s new. map ac_id page = take RUNS_PAGE (drop off (ids s)) \<and> ids now = new @ ids s \<and>
        set base \<subseteq> set (ids s) \<and> covers base off (ids s) seen)"

definition answer_held :: "(uuid \<Rightarrow> time) \<Rightarrow> request_user \<Rightarrow> feed_world \<Rightarrow> activity list \<Rightarrow> bool" where
  "answer_held created u w =
     answer_ok (ids_of created u (fd_choice (fw_state w))) (fw_server w) (base_ids created u w) (fd_offset (fw_state w)) (fd_seen (fw_state w))"

lemma answer_more: "answer_ok ids now base off seen page \<Longrightarrow> set seen \<subseteq> set seen' \<Longrightarrow> answer_ok ids now base off seen' page"
  unfolding answer_ok_def by (blast intro: covers_more)

lemma answer_grows: "answer_ok ids now base off seen page \<Longrightarrow> ids later = new @ ids now \<Longrightarrow> answer_ok ids later base off seen page"
  unfolding answer_ok_def by (metis append.assoc)

text \<open>At most one request of the present generation is under way, and it asks for the present offset.\<close>

definition pending_ok :: "(uuid \<Rightarrow> time) \<Rightarrow> request_user \<Rightarrow> feed_world \<Rightarrow> page_request \<times> activity list option \<Rightarrow> bool" where
  "pending_ok created u w p \<longleftrightarrow>
     fst (fst p) \<le> fd_gen (fw_state w) \<and>
     (fst (fst p) = fd_gen (fw_state w) \<longrightarrow>
        fd_loading (fw_state w) \<and> fst p = (fd_gen (fw_state w), fd_choice (fw_state w), fd_offset (fw_state w)) \<and>
        (\<forall>q \<in> fw_pages w. fst (fst q) = fd_gen (fw_state w) \<longrightarrow> q = p) \<and>
        (\<forall>page. snd p = Some page \<longrightarrow> answer_held created u w page))"

definition pages_ok :: "(uuid \<Rightarrow> time) \<Rightarrow> request_user \<Rightarrow> feed_world \<Rightarrow> bool" where
  "pages_ok created u w \<longleftrightarrow> (\<forall>p \<in> fw_pages w. pending_ok created u w p)"

definition complete_ok :: "(uuid \<Rightarrow> time) \<Rightarrow> request_user \<Rightarrow> feed_world \<Rightarrow> bool" where
  "complete_ok created u w \<longleftrightarrow>
     set (base_ids created u w) \<subseteq> set (ids_of created u (fd_choice (fw_state w)) (fw_server w)) \<and>
     covers (base_ids created u w) (fd_offset (fw_state w)) (ids_of created u (fd_choice (fw_state w)) (fw_server w)) (fd_seen (fw_state w)) \<and>
     (fd_done (fw_state w) \<and> \<not> fw_failed w \<longrightarrow> set (base_ids created u w) \<subseteq> set (fd_seen (fw_state w)))"

text \<open>Steps that leave the loading alone.\<close>

definition same_loading :: "feed_world \<Rightarrow> feed_world \<Rightarrow> bool" where
  "same_loading w w' \<longleftrightarrow>
     fd_choice (fw_state w') = fd_choice (fw_state w) \<and> fd_gen (fw_state w') = fd_gen (fw_state w) \<and>
     fd_offset (fw_state w') = fd_offset (fw_state w) \<and> fd_loading (fw_state w') = fd_loading (fw_state w) \<and>
     fd_done (fw_state w') = fd_done (fw_state w) \<and> set (fd_seen (fw_state w)) \<subseteq> set (fd_seen (fw_state w')) \<and>
     fw_server w' = fw_server w \<and> fw_since w' = fw_since w \<and> fw_failed w' = fw_failed w \<and> fw_pages w' \<subseteq> fw_pages w"

lemma same_loading_ok:
  assumes "pages_ok created u w \<and> complete_ok created u w" "same_loading w w'"
  shows "pages_ok created u w' \<and> complete_ok created u w'"
proof -
  note e = assms(2) [unfolded same_loading_def]
  have b: "base_ids created u w' = base_ids created u w" using e by (simp add: base_ids_def)
  have a: "answer_held created u w' page" if "answer_held created u w page" for page
    using that e b answer_more unfolding answer_held_def by simp
  have "pending_ok created u w' p" if p: "p \<in> fw_pages w'" for p
  proof -
    have "pending_ok created u w p" using assms(1) p e by (auto simp: pages_ok_def)
    then show ?thesis using e a unfolding pending_ok_def by simp (meson subsetD)
  qed
  then have "pages_ok created u w'" by (simp add: pages_ok_def)
  moreover have "complete_ok created u w'"
  proof -
    note c = assms(1) [THEN conjunct2, unfolded complete_ok_def]
    show ?thesis unfolding complete_ok_def b using c e covers_more by (simp) blast
  qed
  ultimately show ?thesis by simp
qed

lemma pages_none:
  assumes "pages_ok created u w" "\<not> fd_loading (fw_state w)" "p \<in> fw_pages w"
  shows "fst (fst p) < fd_gen (fw_state w)"
  using assms by (auto simp: pages_ok_def pending_ok_def le_less)

lemma ask_ok:
  assumes "pages_ok created u w \<and> complete_ok created u w" "loadMore (fw_state w) = (st, Some req)"
    "w' = w\<lparr>fw_state := st, fw_pages := insert (req, None) (fw_pages w)\<rparr>"
  shows "pages_ok created u w' \<and> complete_ok created u w'"
proof -
  have l: "\<not> fd_loading (fw_state w)" "st = (fw_state w)\<lparr>fd_loading := True\<rparr>"
    "req = (fd_gen (fw_state w), fd_choice (fw_state w), fd_offset (fw_state w))"
    using assms(2) by (auto simp: loadMore_def split: if_splits)
  have old: "fst (fst p) < fd_gen (fw_state w)" if "p \<in> fw_pages w" for p
    by (rule pages_none [OF conjunct1 [OF assms(1)] l(1) that])
  have "pending_ok created u w' p" if "p \<in> fw_pages w'" for p
  proof (cases "p \<in> fw_pages w")
    case True
    then show ?thesis using old [OF True] by (simp add: pending_ok_def assms(3) l(2))
  next
    case False
    then have "p = (req, None)" using that by (simp add: assms(3))
    then show ?thesis by (auto simp: pending_ok_def assms(3) l(2,3) dest: old)
  qed
  moreover have "complete_ok created u w'"
    using assms(1) unfolding complete_ok_def base_ids_def assms(3) l(2) by simp
  ultimately show ?thesis by (simp add: pages_ok_def)
qed

lemma compute_ok:
  assumes "pages_ok created u w \<and> complete_ok created u w" "(req, None) \<in> fw_pages w"
    "w' = w\<lparr>fw_pages := insert (req, Some (page_of created u req (fw_server w))) (fw_pages w - {(req, None)})\<rparr>"
  shows "pages_ok created u w' \<and> complete_ok created u w'"
proof -
  have s: "fw_state w' = fw_state w" "base_ids created u w' = base_ids created u w" "fw_server w' = fw_server w"
    by (simp_all add: assms(3) base_ids_def)
  have held: "answer_held created u w' = answer_held created u w" by (simp add: answer_held_def s)
  have req: "pending_ok created u w (req, None)" using assms(1,2) by (auto simp: pages_ok_def)
  have new: "answer_held created u w (page_of created u req (fw_server w))" if "fst req = fd_gen (fw_state w)"
  proof -
    have r: "req = (fd_gen (fw_state w), fd_choice (fw_state w), fd_offset (fw_state w))" using req that by (simp add: pending_ok_def)
    show ?thesis
      using assms(1) unfolding answer_held_def answer_ok_def r page_slice complete_ok_def ids_of_def
      by (intro exI [of _ "fw_server w"] exI [of _ "[]"]) (simp add: take_map drop_map)
  qed
  have "pending_ok created u w' p" if "p \<in> fw_pages w'" for p
  proof (cases "p = (req, Some (page_of created u req (fw_server w)))")
    case True
    have "q = p" if "q \<in> fw_pages w'" "fst (fst q) = fd_gen (fw_state w)" "fst req = fd_gen (fw_state w)" for q
      using that req True by (auto simp: assms(3) pending_ok_def)
    then show ?thesis using req new unfolding pending_ok_def s held True by simp
  next
    case False
    then have p: "p \<in> fw_pages w" "p \<noteq> (req, None)" using that by (auto simp: assms(3))
    then have "pending_ok created u w p" using assms(1) by (auto simp: pages_ok_def)
    moreover have "fst (fst p) \<noteq> fd_gen (fw_state w)" if "fst req = fd_gen (fw_state w)"
      using req p that by (auto simp: pending_ok_def)
    ultimately show ?thesis unfolding pending_ok_def s held by (auto simp: assms(3))
  qed
  moreover have "complete_ok created u w'" using assms(1) unfolding complete_ok_def s by (simp add: assms(3))
  ultimately show ?thesis by (simp add: pages_ok_def)
qed

lemma short_page:
  assumes "ids = take n (drop off all)" "length ids < n"
  shows "take (off + n) all = all"
  using assms by simp

lemma come_ok:
  assumes "pages_ok created u w \<and> complete_ok created u w" "rows_keyed created (fw_server w)"
    "((gen, f, off), Some page) \<in> fw_pages w"
    "w' = w\<lparr>fw_state := page_arrives gen page (fw_state w), fw_pages := fw_pages w - {((gen, f, off), Some page)}\<rparr>"
  shows "pages_ok created u w' \<and> complete_ok created u w'"
proof (cases "gen = fd_gen (fw_state w)")
  case False
  then show ?thesis by (intro same_loading_ok [OF assms(1)]) (auto simp: assms(4) same_loading_def page_arrives_def)
next
  case True
  define c where "c = fd_choice (fw_state w)"
  define n where "n = fd_offset (fw_state w)"
  define base where "base = base_ids created u w"
  define seen' where "seen' = fd_seen (fw_state w) @ map ac_id (unseen (fd_seen (fw_state w)) page)"
  have p: "pending_ok created u w ((gen, f, off), Some page)" using assms(1,3) by (auto simp: pages_ok_def)
  then have only: "q = ((gen, f, off), Some page)" if "q \<in> fw_pages w" "fst (fst q) = gen" for q
    using True that unfolding pending_ok_def by auto
  obtain s new where page: "map ac_id page = take RUNS_PAGE (drop n (ids_of created u c s))"
    and grown: "ids_of created u c (fw_server w) = new @ ids_of created u c s" and base: "set base \<subseteq> set (ids_of created u c s)"
    and cov: "covers base n (ids_of created u c s) (fd_seen (fw_state w))"
    using p True unfolding pending_ok_def answer_held_def answer_ok_def c_def n_def base_def by auto
  have seen: "set (fd_seen (fw_state w)) \<subseteq> set seen'" "set (take RUNS_PAGE (drop n (ids_of created u c s))) \<subseteq> set seen'"
    using unseen_ids [of "fd_seen (fw_state w)" page] by (auto simp: seen'_def page [symmetric] simp del: set_map)
  have cov50: "covers base (n + RUNS_PAGE) (ids_of created u c s) seen'" by (rule covers_page [OF cov seen(2,1)])
  have len: "length page \<le> RUNS_PAGE" using page by (metis length_map length_take min.cobounded2)
  then have covl: "covers base (n + length page) (ids_of created u c s) seen'"
    using cov50 set_take_subset_set_take [of "n + length page" "n + RUNS_PAGE" "ids_of created u c s"] unfolding covers_def by auto
  have dist: "distinct (new @ ids_of created u c s)"
    using distinct_whole assms(2) unfolding grown [symmetric] by (simp add: ids_of_def rows_keyed_def)
  have now: "covers base (n + length page) (ids_of created u c (fw_server w)) seen'"
    unfolding grown by (rule covers_grow [OF covl base dist])
  have all: "set base \<subseteq> set seen'" if "length page < RUNS_PAGE"
  proof -
    have "take (n + RUNS_PAGE) (ids_of created u c s) = ids_of created u c s"
      using short_page [OF page] that by simp
    then show ?thesis using cov50 base by (auto simp: covers_def)
  qed
  have st: "fd_choice (fw_state w') = c" "fd_gen (fw_state w') = gen" "fd_offset (fw_state w') = n + length page"
    "fd_seen (fw_state w') = seen'" "fd_done (fw_state w') \<longleftrightarrow> fd_done (fw_state w) \<or> length page < RUNS_PAGE"
    "fw_server w' = fw_server w" "fw_failed w' = fw_failed w" "base_ids created u w' = base"
    using True by (simp_all add: assms(4) page_arrives_def c_def n_def seen'_def base_def base_ids_def)
  have "complete_ok created u w'"
    using assms(1) now all seen(1) unfolding complete_ok_def st by (auto simp: base_def c_def)
  moreover have "pending_ok created u w' q" if "q \<in> fw_pages w'" for q
  proof -
    have q: "q \<in> fw_pages w" "q \<noteq> ((gen, f, off), Some page)" using that by (simp_all add: assms(4))
    then have "fst (fst q) \<noteq> gen" using only [OF q(1)] by blast
    then show ?thesis using assms(1) True q(1) by (auto simp: pages_ok_def pending_ok_def st(2))
  qed
  ultimately show ?thesis by (simp add: pages_ok_def)
qed

lemma lost_ok:
  assumes "pages_ok created u w \<and> complete_ok created u w" "((gen, f, off), answer) \<in> fw_pages w"
    "w' = w\<lparr>fw_state := page_fails gen (fw_state w), fw_pages := fw_pages w - {((gen, f, off), answer)},
      fw_failed := (fw_failed w \<or> gen = fd_gen (fw_state w))\<rparr>"
  shows "pages_ok created u w' \<and> complete_ok created u w'"
proof (cases "gen = fd_gen (fw_state w)")
  case False
  then show ?thesis by (intro same_loading_ok [OF assms(1)]) (auto simp: assms(3) same_loading_def page_fails_def)
next
  case True
  have "complete_ok created u w'"
    using assms(1) True by (simp add: assms(3) complete_ok_def base_ids_def page_fails_def)
  moreover have "pending_ok created u w' q" if "q \<in> fw_pages w'" for q
  proof -
    have q: "q \<in> fw_pages w" "q \<noteq> ((gen, f, off), answer)" using that by (auto simp: assms(3))
    moreover have "pending_ok created u w ((gen, f, off), answer)" using assms(1,2) by (auto simp: pages_ok_def)
    ultimately have "fst (fst q) \<noteq> gen" using True by (auto simp: pending_ok_def)
    then show ?thesis using assms(1) True q(1) by (auto simp: pages_ok_def pending_ok_def assms(3) page_fails_def)
  qed
  ultimately show ?thesis by (simp add: pages_ok_def)
qed

lemma choose_ok:
  assumes "pages_ok created u w" "fd_gen st = fd_gen (fw_state w) + 1" "fd_offset st = 0" "\<not> fd_done st"
  shows "pages_ok created u (chooses st w) \<and> complete_ok created u (chooses st w)"
  using assms by (fastforce simp: pages_ok_def pending_ok_def complete_ok_def base_ids_def chooses_def covers_def)

lemma browsing_loading: "browsing created u w \<Longrightarrow> pages_ok created u w \<and> complete_ok created u w"
proof (induction rule: browsing.induct)
  case (feed_opens s)
  then show ?case by (simp add: pages_ok_def complete_ok_def base_ids_def covers_def feed_start_def)
next
  case (feed_grows w s new)
  let ?c = "fd_choice (fw_state w)"
  have "distinct (new @ ids_of created u ?c (fw_server w))"
    using distinct_whole feed_grows.hyps(2) unfolding feed_grows.hyps(3) [symmetric] by (simp add: ids_of_def rows_keyed_def)
  then have "complete_ok created u (w\<lparr>fw_server := s\<rparr>)"
    using feed_grows.IH covers_grow by (auto simp: complete_ok_def base_ids_def feed_grows.hyps(3))
  moreover have "pages_ok created u (w\<lparr>fw_server := s\<rparr>)"
    using feed_grows.IH answer_grows [OF _ feed_grows.hyps(3)]
    by (auto simp: pages_ok_def pending_ok_def answer_held_def base_ids_def)
  ultimately show ?case by simp
next
  case (page_asked w st req)
  then show ?case using ask_ok by blast
next
  case (page_computed w req)
  then show ?case using compute_ok by blast
next
  case (page_comes w gen f off page)
  then show ?case using come_ok browsing_keyed by blast
next
  case (page_lost w gen f off answer)
  then show ?case using lost_ok by blast
next
  case (chooses_maintenance w)
  then show ?case by (intro choose_ok) (simp_all add: toggleShowMaintenance_def resetFeed_def)
next
  case (chooses_failed w)
  then show ?case by (intro choose_ok) (simp_all add: toggleOnlyFailed_def resetFeed_def)
next
  case (chooses_search w typed)
  then have "search_settles typed (fw_state w) = (resetFeed (fw_state w))\<lparr>fd_choice := (fd_choice (fw_state w))\<lparr>fc_search := trim typed\<rparr>\<rparr>"
    by (auto simp: search_settles_def split: if_splits)
  then show ?case using chooses_search.IH by (intro choose_ok) (simp_all add: resetFeed_def)
next
  case (poll_begins w s recent now)
  then show ?case by (intro same_loading_ok [OF poll_begins.IH]) (simp add: same_loading_def)
next
  case (poll_ends w gen recent stale answer)
  then show ?case
    by (intro same_loading_ok [OF poll_ends.IH]) (auto simp: same_loading_def poll_settles_def split: prod.splits)
next
  case (row_cancelled w i)
  then show ?case by (intro same_loading_ok [OF row_cancelled.IH]) (simp add: same_loading_def markCancelled_def)
qed

section \<open>Hidden kinds stay hidden\<close>

definition may_show :: "feed_choice \<Rightarrow> activity \<Rightarrow> bool" where
  "may_show f r \<longleftrightarrow> fc_maintenance f \<or> \<not> isMaintenance r"

definition hides :: "feed_world \<Rightarrow> bool" where
  "hides w \<longleftrightarrow>
     (\<not> fw_crossed w \<longrightarrow> (\<forall>r \<in> set (fd_runs (fw_state w)). may_show (fd_choice (fw_state w)) r)) \<and>
     (\<forall>p \<in> fw_pages w. fst (fst p) = fd_gen (fw_state w) \<longrightarrow>
        (\<forall>page. snd p = Some page \<longrightarrow> (\<forall>r \<in> set page. may_show (fd_choice (fw_state w)) r))) \<and>
     (\<forall>p \<in> fw_polls w. fst p \<le> fd_gen (fw_state w) \<and>
        (fst p = fd_gen (fw_state w) \<and> \<not> fw_crossed w \<longrightarrow>
           (\<forall>r \<in> set (fst (snd p)) \<union> set (snd (snd p)). may_show (fd_choice (fw_state w)) r)))"

lemma whole_may_show: "r \<in> set (whole_feed created u f s) \<Longrightarrow> may_show f r"
  using set_whole [of r created u f s]
  by (auto simp: feed_filter_def feed_query_def feed_request_def may_show_def isMaintenance_def split: if_splits)

lemma page_may_show: "r \<in> set (page_of created u (gen, f, off) s) \<Longrightarrow> may_show f r"
  unfolding page_slice by (blast intro: whole_may_show dest: in_set_takeD in_set_dropD)

lemma refetch_may_show: "r \<in> set (List.map_filter (refetchRun answer) stale) \<Longrightarrow> \<forall>q \<in> set stale. may_show f q \<Longrightarrow> may_show f r"
  by (auto simp: List.map_filter_def refetchRun_def may_show_def isMaintenance_def split: option.splits if_splits)

lemma poll_may_show:
  assumes "\<forall>r \<in> set (fd_runs st) \<union> set recent \<union> set refetched. may_show f r" "r \<in> set (fd_runs (poll_settles recent refetched st))"
  shows "may_show f r"
proof -
  obtain rows c where m: "merge_rows (recent @ refetched) (fd_cancelled st) (fd_runs st) = (rows, c)" by fastforce
  then show ?thesis using assms merge_rows_from [OF m] by (auto simp: poll_settles_def unseen_def)
qed

lemma hides_choose:
  assumes "hides w" "pages_ok created u w" "fd_gen st = fd_gen (fw_state w) + 1" "fd_runs st = []"
  shows "hides (chooses st w)"
  using assms by (fastforce simp: hides_def chooses_def pages_ok_def pending_ok_def)

lemma browsing_hides: "browsing created u w \<Longrightarrow> hides w"
proof (induction rule: browsing.induct)
  case (feed_opens s)
  then show ?case by (simp add: hides_def feed_start_def)
next
  case (feed_grows w s new)
  then show ?case by (simp add: hides_def)
next
  case (page_asked w st req)
  then show ?case using load_keeps [OF page_asked.hyps(2)] by (auto simp: hides_def)
next
  case (page_computed w req)
  have "pending_ok created u w (req, None)"
    using browsing_loading [OF page_computed.hyps(1)] page_computed.hyps(2) by (auto simp: pages_ok_def)
  then have "may_show (fd_choice (fw_state w)) r" if "r \<in> set (page_of created u req (fw_server w))" "fst req = fd_gen (fw_state w)" for r
    using that page_may_show by (cases req) (auto simp: pending_ok_def)
  then show ?case using page_computed.IH by (auto simp: hides_def)
next
  case (page_comes w gen f off page)
  have "may_show (fd_choice (fw_state w)) r" if "r \<in> set page" "gen = fd_gen (fw_state w)" for r
    using page_comes.IH page_comes.hyps(2) that by (force simp: hides_def)
  then show ?case using page_comes.IH by (auto simp: hides_def page_arrives_def unseen_def)
next
  case (page_lost w gen f off answer)
  then show ?case by (auto simp: hides_def page_fails_def)
next
  case (chooses_maintenance w)
  then show ?case using browsing_loading
    by (intro hides_choose [of w created u]) (auto simp: toggleShowMaintenance_def resetFeed_def)
next
  case (chooses_failed w)
  then show ?case using browsing_loading
    by (intro hides_choose [of w created u]) (auto simp: toggleOnlyFailed_def resetFeed_def)
next
  case (chooses_search w typed)
  then have "search_settles typed (fw_state w) = (resetFeed (fw_state w))\<lparr>fd_choice := (fd_choice (fw_state w))\<lparr>fc_search := trim typed\<rparr>\<rparr>"
    by (auto simp: search_settles_def split: if_splits)
  then show ?case using chooses_search browsing_loading by (intro hides_choose [of w created u]) (auto simp: resetFeed_def)
next
  case (poll_begins w s recent now)
  have "may_show (fd_choice (fw_state w)) r" if "r \<in> set recent" for r
    using that by (auto simp: poll_begins.hyps(3) poll_recent_def poll_admits_def may_show_def)
  then show ?case using poll_begins.IH by (auto simp: hides_def poll_stale_def)
next
  case (poll_ends w gen recent stale answer)
  let ?re = "List.map_filter (refetchRun answer) stale"
  have s: "fd_choice (poll_settles recent ?re (fw_state w)) = fd_choice (fw_state w)"
    "fd_gen (poll_settles recent ?re (fw_state w)) = fd_gen (fw_state w)" by (simp_all add: poll_settles_def split: prod.splits)
  have "may_show (fd_choice (fw_state w)) r"
    if c: "\<not> fw_crossed w" "gen = fd_gen (fw_state w)" and r: "r \<in> set (fd_runs (poll_settles recent ?re (fw_state w)))" for r
  proof -
    have "\<forall>q \<in> set recent \<union> set stale. may_show (fd_choice (fw_state w)) q" "\<forall>q \<in> set (fd_runs (fw_state w)). may_show (fd_choice (fw_state w)) q"
      using poll_ends.IH poll_ends.hyps(2) c by (force simp: hides_def)+
    then show ?thesis using poll_may_show [OF _ r] refetch_may_show by blast
  qed
  then show ?case using poll_ends.IH by (auto simp: hides_def s)
next
  case (row_cancelled w i)
  then show ?case by (auto simp: hides_def markCancelled_def may_show_def isMaintenance_def)
qed

section \<open>Theorems\<close>

text \<open>
  C14: The activity list of the dashboard: however page requests, their answers, failures, changes of the filter,
  polls, cancellations and new entries interleave, no activity is listed twice; a list that was loaded to its
  end holds every entry the server's feed had when the filter was chosen; and prunes and checks are not shown
  while maintenance is hidden, unless a poll begun before the last change of the filter has written the list.
\<close>

theorem activity_list_sound:
  assumes "browsing created u w" "st = fw_state w"
  shows "distinct (map ac_id (fd_runs st)) \<and>
    (fd_done st \<and> \<not> fw_failed w \<longrightarrow>
      ac_id ` set (whole_feed created u (fd_choice st) (fw_since w)) \<subseteq> ac_id ` set (fd_runs st)) \<and>
    (\<not> fc_maintenance (fd_choice st) \<and> \<not> fw_crossed w \<longrightarrow> (\<forall>r \<in> set (fd_runs st). \<not> isMaintenance r))"
proof -
  have l: "listed_once st" using browsing_listed [OF assms(1)] assms(2) by simp
  moreover have "complete_ok created u w" using browsing_loading [OF assms(1)] by simp
  moreover have "hides w" by (rule browsing_hides [OF assms(1)])
  ultimately show ?thesis
    by (auto simp: listed_once_def complete_ok_def base_ids_def ids_of_def hides_def may_show_def assms(2))
qed

definition busy_server :: server where
  "busy_server = sample_server [sample_run ''r1'' KBackup Failed, sample_run ''r2'' KPrune Success]"

definition entry :: "uuid \<Rightarrow> run_kind \<Rightarrow> run_status \<Rightarrow> activity" where
  "entry i k status =
     \<lparr>ac_id = i, ac_job_id = Some ''j1'', ac_kind = AkRun k, ac_status = status, ac_attempt = 1, ac_created_at = 500,
      ac_job_name = Some (bj_name sample_job)\<rparr>"

lemma busy_rows:
  "feed_rows created busy_server = [entry ''r1'' KBackup Failed, entry ''r2'' KPrune Success]"
  "visibleResourceIds busy_server (sample_user True) RtJob = None"
  by (simp_all add: busy_server_def feed_rows_def jobRunsQuery_def restoreRunsQuery_def List.map_filter_def entry_def sample_run_def
      backup_job_by_id_def repository_by_id_def select_first_def sample_job_def sample_repository_def visibleResourceIds_def sample_user_def)

lemma busy_feed:
  "whole_feed created (sample_user True) \<lparr>fc_maintenance = False, fc_failed = False, fc_search = []\<rparr> busy_server =
    [entry ''r1'' KBackup Failed]"
  by (simp add: whole_feed_def busy_rows feed_filter_def feed_query_def feed_request_def entry_def name_matches_def feed_sort_def
      or_empty_def)

definition loaded_world :: "(uuid \<Rightarrow> time) \<Rightarrow> feed_world" where
  "loaded_world created =
     \<lparr>fw_state = page_arrives 0 [entry ''r1'' KBackup Failed] (feed_start\<lparr>fd_loading := True\<rparr>), fw_server = busy_server,
      fw_since = busy_server, fw_pages = {}, fw_polls = {}, fw_failed = False, fw_crossed = False\<rparr>"

lemma loaded_reached: "browsing created (sample_user True) (loaded_world created)"
proof -
  let ?req = "(0, \<lparr>fc_maintenance = False, fc_failed = False, fc_search = []\<rparr>, 0)"
  let ?page = "[entry ''r1'' KBackup Failed]"
  let ?w0 = "\<lparr>fw_state = feed_start, fw_server = busy_server, fw_since = busy_server, fw_pages = {}, fw_polls = {},
    fw_failed = False, fw_crossed = False\<rparr>"
  let ?w1 = "?w0\<lparr>fw_state := feed_start\<lparr>fd_loading := True\<rparr>, fw_pages := {(?req, None)}\<rparr>"
  let ?w2 = "?w1\<lparr>fw_pages := {(?req, Some ?page)}\<rparr>"
  have "browsing created (sample_user True) ?w0"
    by (rule feed_opens) (simp add: rows_keyed_def busy_rows entry_def)
  then have "browsing created (sample_user True) ?w1"
    using page_asked [of created "sample_user True" ?w0 "feed_start\<lparr>fd_loading := True\<rparr>" ?req]
    by (simp add: loadMore_def feed_start_def)
  then have "browsing created (sample_user True) ?w2"
    using page_computed [of created "sample_user True" ?w1 ?req] by (simp add: page_slice busy_feed RUNS_PAGE_def)
  then show ?thesis
    using page_comes [of created "sample_user True" ?w2 0 _ 0 ?page] by (simp add: loaded_world_def)
qed

theorem activity_list_sound_witness:
  "ac_id ` set (fd_runs (fw_state (loaded_world (\<lambda>_. 0)))) \<supseteq> {''r1''}"
proof -
  have "fd_done (fw_state (loaded_world (\<lambda>_. 0)))" "fd_choice (fw_state (loaded_world (\<lambda>_. 0))) = \<lparr>fc_maintenance = False, fc_failed = False, fc_search = []\<rparr>"
    "\<not> fw_failed (loaded_world (\<lambda>_. 0))" "fw_since (loaded_world (\<lambda>_. 0)) = busy_server"
    by (simp_all add: loaded_world_def page_arrives_def feed_start_def RUNS_PAGE_def)
  then have "ac_id ` set [entry ''r1'' KBackup Failed] \<subseteq> ac_id ` set (fd_runs (fw_state (loaded_world (\<lambda>_. 0))))"
    using activity_list_sound [OF loaded_reached [of "\<lambda>_. 0"] refl] by (simp only: busy_feed) simp
  then show ?thesis by (simp add: entry_def)
qed

text \<open>
  The poll asks for the newest entries of every kind and filters them itself. It admits exactly what the
  server's feed admits for the same filter.
\<close>

theorem poll_filter_mirrors_server:
  assumes "trim (fc_search f) = fc_search f"
  shows "poll_admits f r \<longleftrightarrow> feed_filter None (feed_query (feed_request f 0)) r"
proof -
  have kinds: "isMaintenance r \<longleftrightarrow> ac_kind r \<noteq> AkRun KBackup \<and> ac_kind r \<noteq> AkRestore"
    unfolding isMaintenance_def by (metis activity_kind.exhaust activity_kind.distinct(1) activity_kind.inject run_kind.distinct run_kind.exhaust)
  have empty: "is_substring p [] \<longleftrightarrow> p = []" for p by simp
  have names: "name_matches (if fc_search f = [] then None else Some (fc_search f)) name \<longleftrightarrow>
      fc_search f = [] \<or> is_substring (to_lower (fc_search f)) (to_lower (or_empty name))" for name
    by (cases name) (simp_all add: name_matches_def or_empty_def to_lower_def empty)
  have "fo_search (feed_query (feed_request f 0)) = (if fc_search f = [] then None else Some (fc_search f))"
    using assms by (simp add: feed_query_def feed_request_def)
  then show ?thesis
    unfolding poll_admits_def feed_filter_def kinds
    by (simp only: names) (auto simp: feed_query_def feed_request_def to_lower_def or_empty_def)
qed

text \<open>
  A poll that was waiting for the state of a running row when maintenance was hidden again writes the prunes
  it had kept under the old filter.
\<close>

theorem late_poll_shows_maintenance:
  "let st = feed_start\<lparr>fd_choice := \<lparr>fc_maintenance = True, fc_failed = False, fc_search = []\<rparr>,
              fd_runs := [entry ''r1'' KBackup Running], fd_seen := [''r1'']\<rparr>;
       recent = poll_recent [entry ''r2'' KPrune Success] st
   in poll_stale recent st \<noteq> [] \<and>
      fd_runs (poll_settles recent [] (toggleShowMaintenance False st)) = [entry ''r2'' KPrune Success]"
  by (simp add: feed_start_def poll_recent_def poll_admits_def poll_stale_def poll_settles_def toggleShowMaintenance_def
      resetFeed_def unseen_def entry_def active_status_def to_lower_def Let_def)

text \<open>
  A cancelled row is not made active again by a poll that does not know of it yet. Two polls can overlap,
  though: once one has brought the cancelled state, an older one brings back the running row.
\<close>

theorem cancelled_row_stays:
  assumes "merge_row latest cancelled r = (row, cancelled')" "ac_id r \<in> set cancelled" "\<not> active_status (ac_status r)"
  shows "\<not> active_status (ac_status row)"
  using assms by (auto simp: merge_row_def split: option.splits if_splits)

theorem older_poll_revives_row:
  "let st = markCancelled ''r1'' (feed_start\<lparr>fd_runs := [entry ''r1'' KBackup Running], fd_seen := [''r1'']\<rparr>);
       st1 = poll_settles [entry ''r1'' KBackup Cancelled] [] st
   in fd_runs (poll_settles [entry ''r1'' KBackup Running] [] st1) = [entry ''r1'' KBackup Running]"
  by (simp add: markCancelled_def feed_start_def poll_settles_def merge_row_def entry_def active_status_def unseen_def)

end
