(* ===== verification/SnapshotsPage.thy ===== *)
theory SnapshotsPage
  imports ResourceRoutes ClientCore
begin

text \<open>
  The snapshots page of the web client, \<open>client/src/pages/snapshots.tsx\<close>: which job it shows, the browser
  for the files of a snapshot, the dialogs that restore and delete, and the download link in the history. The
  theorems follow a restore from the dialog through \<open>restore.service.ts\<close> and \<open>restore-runner.service.ts\<close> to
  the link.
\<close>

section \<open>The job of the page\<close>

text \<open>The address names a job by id or slug; without a name the page lists the jobs.\<close>

definition page_job :: "string option \<Rightarrow> api_job list \<Rightarrow> api_job option" where
  "page_job jobId jobs =
     (if or_empty jobId = [] then None
      else find (\<lambda>j. bj_id (aj_job j) = the jobId \<or> bj_slug (aj_job j) = the jobId) jobs)"

definition listed_jobs :: "string \<Rightarrow> api_job list \<Rightarrow> api_job list" where
  "listed_jobs query jobs = filter (\<lambda>j. matchesSearch query (Some (bj_name (aj_job j)) # map Some (bj_paths (aj_job j)))) jobs"

section \<open>The browser\<close>

text \<open>The directory shown and the paths selected, in the order they were ticked.\<close>

record file_browser =
  fb_path :: string
  fb_selected :: "string list"

definition browser_start :: file_browser where
  "browser_start = \<lparr>fb_path = [], fb_selected = []\<rparr>"

definition ls_query :: "file_browser \<Rightarrow> string option" where
  "ls_query b = (if fb_path b = [] then None else Some (fb_path b))"

definition toggle_path :: "string \<Rightarrow> file_browser \<Rightarrow> file_browser" where
  "toggle_path p b =
     b\<lparr>fb_selected := (if p \<in> set (fb_selected b) then removeAll p (fb_selected b) else fb_selected b @ [p])\<rparr>"

definition open_entry :: "bool \<Rightarrow> string \<Rightarrow> file_browser \<Rightarrow> file_browser" where
  "open_entry isDir p b = (if isDir then b\<lparr>fb_path := p\<rparr> else b)"

text \<open>The crumbs above the list: what each shows and the path it leads to.\<close>

definition path_parts :: "string \<Rightarrow> string list" where
  "path_parts p = filter (\<lambda>w. w \<noteq> []) (split_on (CHR ''/'') p)"

fun crumbs_from :: "string \<Rightarrow> string list \<Rightarrow> (string \<times> string) list" where
  "crumbs_from acc [] = []"
| "crumbs_from acc (p # ps) = (p, acc @ ''/'' @ p) # crumbs_from (acc @ ''/'' @ p) ps"

definition crumbs :: "file_browser \<Rightarrow> (string \<times> string) list" where
  "crumbs b = (''/'', []) # crumbs_from [] (path_parts (fb_path b))"

definition click_crumb :: "nat \<Rightarrow> file_browser \<Rightarrow> file_browser" where
  "click_crumb k b = (if k < length (crumbs b) then b\<lparr>fb_path := snd (crumbs b ! k)\<rparr> else b)"

section \<open>The dialogs\<close>

record restore_form =
  rf_mode :: restore_mode
  rf_target_path :: string
  rf_overwrite :: string
  rf_verify :: bool
  rf_delete :: bool

definition restore_form_start :: restore_form where
  "restore_form_start = \<lparr>rf_mode = RmDownload, rf_target_path = [], rf_overwrite = ''always'', rf_verify = False, rf_delete = False\<rparr>"

definition buildPayload :: "uuid \<Rightarrow> string \<Rightarrow> string list \<Rightarrow> restore_form \<Rightarrow> bool \<Rightarrow> create_restore" where
  "buildPayload jobId snap includedPaths f dryRun =
     \<lparr>cr_job_id = jobId, cr_snapshot_id = snap,
      cr_included_paths = (if includedPaths = [] then None else Some includedPaths), cr_mode = rf_mode f,
      cr_destination = Some (if rf_mode f = RmDownload then empty_destination
                             else empty_destination\<lparr>rd_path := Some (rf_target_path f)\<rparr>),
      cr_options = Some \<lparr>rs_overwrite = Some (rf_overwrite f), rs_verify = rf_verify f, rs_delete = rf_delete f,
                         rs_dry_run = dryRun, rs_include = None, rs_exclude = None\<rparr>\<rparr>"

definition delete_request :: "uuid \<Rightarrow> string \<Rightarrow> bool \<Rightarrow> snapshots_call" where
  "delete_request jobId snap prune = SnapshotsRemove jobId snap (Some (if prune then ''true'' else ''false''))"

section \<open>The history\<close>

text \<open>Whether a row of the history offers the archive.\<close>

definition canDownload :: "time \<Rightarrow> restore_run \<Rightarrow> bool" where
  "canDownload now r \<longleftrightarrow>
     rr_mode r = RmDownload \<and> rr_status r = Success \<and>
     (case rr_download_expires_at r of None \<Rightarrow> True | Some t \<Rightarrow> now < t)"

section \<open>Lemmas\<close>

lemma view_by_operate:
  assumes "ru_api_key_scopes u = None" "can s u RtJob i AlOperate"
  shows "can s u RtJob i AlView"
  using assms by (auto simp: can_def apiKeyAllows_def split: option.splits if_splits)

lemma crumbs_from_targets: "map snd (crumbs_from acc ps) = map (\<lambda>k. acc @ concat (map (\<lambda>p. ''/'' @ p) (take (Suc k) ps))) [0 ..< length ps]"
proof (induction ps arbitrary: acc)
  case (Cons p ps)
  have "[0 ..< length (p # ps)] = 0 # map Suc [0 ..< length ps]" by (simp add: map_Suc_upt upt_conv_Cons del: upt_Suc)
  then show ?case by (simp add: Cons.IH del: upt_Suc)
qed simp

lemma crumbs_from_length: "length (crumbs_from acc ps) = length ps"
  by (induction ps arbitrary: acc) simp_all

lemma split_plain: "c \<notin> set w \<Longrightarrow> split_on c (w @ c # rest) = w # split_on c rest"
  by (induction w) auto

lemma split_last: "c \<notin> set w \<Longrightarrow> split_on c w = [w]"
  by (induction w) auto

lemma split_absolute:
  "\<forall>p \<in> set ps. CHR ''/'' \<notin> set p \<Longrightarrow> CHR ''/'' \<notin> set w \<Longrightarrow>
    split_on (CHR ''/'') (w @ concat (map (\<lambda>p. ''/'' @ p) ps)) = w # ps"
proof (induction ps arbitrary: w)
  case Nil
  then show ?case by (simp add: split_last)
next
  case (Cons p ps)
  then show ?case using Cons.IH [of p] by (simp add: split_plain)
qed

lemma parts_absolute:
  assumes "\<forall>p \<in> set ps. CHR ''/'' \<notin> set p \<and> p \<noteq> []"
  shows "path_parts (concat (map (\<lambda>p. ''/'' @ p) ps)) = ps"
  using assms split_absolute [of ps "[]"] by (auto simp: path_parts_def filter_id_conv)

section \<open>Theorems\<close>

text \<open>
  The crumbs above a directory lead to its ancestors: the first to the root, the k-th to the first k names of
  the path, the last to the directory itself.
\<close>

theorem crumbs_lead_to_ancestors:
  assumes "\<forall>p \<in> set ps. CHR ''/'' \<notin> set p \<and> p \<noteq> []" "fb_path b = concat (map (\<lambda>p. ''/'' @ p) ps)" "k \<le> length ps"
  shows "fb_path (click_crumb k b) = concat (map (\<lambda>p. ''/'' @ p) (take k ps))"
proof -
  have t: "map snd (crumbs b) = [] # map (\<lambda>k. concat (map (\<lambda>p. ''/'' @ p) (take (Suc k) ps))) [0 ..< length ps]"
    unfolding crumbs_def assms(2) by (simp add: parts_absolute [OF assms(1)] crumbs_from_targets)
  have l: "length (crumbs b) = Suc (length ps)"
    by (simp add: crumbs_def assms(2) parts_absolute [OF assms(1)] crumbs_from_length del: append_Cons)
  have "snd (crumbs b ! k) = map snd (crumbs b) ! k" using l assms(3) by simp
  then show ?thesis using l assms(3) unfolding t click_crumb_def by (cases k) (simp_all del: upt_Suc append_Cons)
qed

lemma getRow_id: "job_getRow s i = Inr (j, p) \<Longrightarrow> bj_id j = i"
  by (auto simp: job_getRow_def backup_job_by_id_def dest: select_first_Some split: option.splits)

lemma begin_row:
  "restore_run_by_id i s = Some r \<Longrightarrow>
    restore_run_by_id i (restore_begin now i s) = Some (r\<lparr>rr_status := Running, rr_started_at := Some now\<rparr>)"
  by (auto simp: restore_begin_def restore_run_by_id_key rrow.by_key_update dest: rrow.by_key_in)

lemma finish_row:
  assumes "restore_run_by_id (rr_id r) s = Some q"
  shows "\<exists>q'. restore_run_by_id (rr_id r) (restore_finish now tmp r outcome e s) = Some q' \<and> rr_mode q' = rr_mode q \<and>
      rr_job_id q' = rr_job_id q \<and>
      (\<forall>logs stats ref. restore_body tmp r outcome e = (logs, Inr (stats, ref)) \<longrightarrow> rd_download_ref (rr_destination q') = ref) \<and>
      (\<forall>logs er. restore_body tmp r outcome e = (logs, Inl er) \<longrightarrow> rr_status q' \<noteq> Success)"
  using assms rrow.by_key_in [of "rr_id r" "restore_runs s" q]
  by (auto simp: restore_finish_def restore_run_by_id_key rrow.by_key_update Let_def split: prod.splits sum.splits)

lemma dispatched:
  assumes "restore_run_by_id i s = None" "rr_id row = i" "rd_agent_id (rr_destination row) = None"
    "s1 = restore_dispatch i (s\<lparr>restore_runs := insert_row row (restore_runs s)\<rparr>)"
  shows "s1 = start_background (BgExecuteRestore i) (s\<lparr>restore_runs := insert_row row (restore_runs s)\<rparr>)"
    "restore_run_by_id i s1 = Some row"
proof -
  have "restore_run_by_id i (s\<lparr>restore_runs := insert_row row (restore_runs s)\<rparr>) = Some row"
    using assms(1,2) by (simp add: restore_run_by_id_key rrow.by_key_insert)
  then show "s1 = start_background (BgExecuteRestore i) (s\<lparr>restore_runs := insert_row row (restore_runs s)\<rparr>)"
      "restore_run_by_id i s1 = Some row"
    using assms(3,4) by (simp_all add: restore_dispatch_def or_empty_def start_background_def restore_run_by_id_def)
qed

lemma grants_kept: "resource_grants (restore_finish ended tmp r outcome e (restore_begin started i s)) = resource_grants s"
  by (simp add: restore_finish_def restore_begin_def Let_def split: option.splits)

lemma body_archive:
  assumes "restore_body tmp r outcome e = (logs, Inr (stats, ref))" "rr_mode r = RmDownload"
  shows "ref = (if rs_dry_run (rr_options r) then None else Some (path_join tmp (''restore-'' @ rr_id r) @ ''.tar.gz''))"
  using assms by (auto simp: restore_body_def restore_target_def split: sum.splits if_splits)

text \<open>
  C36: A restore started from the dialog needs the right to operate the job and, where it writes to a path,
  an administrator. It always runs on the server, whichever host the job belongs to. When the history offers
  its archive for download, the request for it succeeds as long as the file is there, except after a dry
  run, whose link is answered with an error at any time.
\<close>

theorem dialog_restore:
  assumes "restore_create i u (buildPayload jobId snap paths f dryRun) s = (Inr row, s1)" "restore_run_by_id i s = None"
    "ru_api_key_scopes u = None" "jobId \<noteq> []"
    "s2 = restore_finish ended tmp (row\<lparr>rr_status := Running, rr_started_at := Some started\<rparr>) outcome e (restore_begin started i s1)"
    "restore_run_by_id i s2 = Some r"
  shows "can s u RtJob jobId AlOperate \<and> (rf_mode f \<noteq> RmDownload \<longrightarrow> ru_is_admin u) \<and>
    BgExecuteRestore i \<in> set (background s1) \<and> rr_agent_id row = None \<and>
    (canDownload now r \<longrightarrow> getDownload now file_exists u i s2 =
      (let archive = path_join tmp (''restore-'' @ i) @ ''.tar.gz'' in
       if dryRun then Inl (NotFound ''No download available'')
       else if file_exists archive then Inr (archive, ''restore-'' @ i @ ''.tar.gz'')
       else Inl (NotFound ''Download artifact missing'')))"
proof -
  let ?dto = "buildPayload jobId snap paths f dryRun"
  have ok: "can s u RtJob jobId AlOperate" "rf_mode f = RmDownload \<or> ru_is_admin u"
    using assms(1) by (auto simp: restore_create_def buildPayload_def acl_assert_iff Let_def split: sum.splits if_splits)
  have row: "rr_id row = i" "rr_mode row = rf_mode f" "rr_job_id row = Some jobId" "rr_agent_id row = None"
      "rs_dry_run (rr_options row) = dryRun" "rr_destination row = the (cr_destination ?dto)"
    and s1: "s1 = restore_dispatch i (s\<lparr>restore_runs := insert_row row (restore_runs s)\<rparr>)"
    using assms(1) by (auto simp: restore_create_def buildPayload_def or_default_def empty_destination_def Let_def
        dest!: getRow_id split: sum.splits if_splits prod.splits)
  have "rd_agent_id (rr_destination row) = None" by (simp add: row buildPayload_def empty_destination_def)
  note d = dispatched [OF assms(2) row(1) this s1]
  let ?r = "row\<lparr>rr_status := Running, rr_started_at := Some started\<rparr>"
  have b: "restore_run_by_id (rr_id ?r) (restore_begin started i s1) = Some ?r" using begin_row [OF d(2)] row(1) by simp
  have grants: "resource_grants s2 = resource_grants s" by (simp add: assms(5) grants_kept d(1) start_background_def)
  have view: "can s2 u RtJob jobId AlView" using view_by_operate [OF assms(3) ok(1)] can_same [OF grants] by simp
  from finish_row [OF b, of ended tmp outcome e]
  have r: "rr_mode r = rf_mode f" "rr_job_id r = Some jobId"
    and body: "\<And>logs stats ref. restore_body tmp ?r outcome e = (logs, Inr (stats, ref)) \<Longrightarrow> rd_download_ref (rr_destination r) = ref"
      "\<And>logs er. restore_body tmp ?r outcome e = (logs, Inl er) \<Longrightarrow> rr_status r \<noteq> Success"
    using assms(5,6) row by auto
  have "getDownload now file_exists u i s2 =
      (let archive = path_join tmp (''restore-'' @ i) @ ''.tar.gz'' in
       if dryRun then Inl (NotFound ''No download available'')
       else if file_exists archive then Inr (archive, ''restore-'' @ i @ ''.tar.gz'')
       else Inl (NotFound ''Download artifact missing''))" if c: "canDownload now r"
  proof -
    obtain logs res where l: "restore_body tmp ?r outcome e = (logs, res)" by fastforce
    with body c obtain stats ref where res: "res = Inr (stats, ref)" "rd_download_ref (rr_destination r) = ref"
      by (cases res) (fastforce simp: canDownload_def)+
    have m: "rr_mode r = RmDownload" using c by (simp add: canDownload_def)
    have ref: "ref = (if dryRun then None else Some (path_join tmp (''restore-'' @ i) @ ''.tar.gz''))"
      using body_archive [OF l [unfolded res(1)]] m r row by simp
    have g: "restore_get u i s2 = Inr r"
      using view r(2) ok(1) by (auto simp: restore_get_def assms(4,6) or_empty_def acl_assert_def)
    have "\<not> (case rr_download_expires_at r of None \<Rightarrow> False | Some t \<Rightarrow> t < now)"
      using c by (auto simp: canDownload_def split: option.splits)
    then show ?thesis by (simp add: getDownload_def g m res(2) ref or_empty_def)
  qed
  then show ?thesis using ok row(4) d(1) by (auto simp: start_background_def)
qed

text \<open>A dry run in the mode the dialog opens with: its row offers a download that is not there.\<close>

definition tried_row :: restore_run where
  "tried_row =
     \<lparr>rr_id = ''x'', rr_target_id = None, rr_job_id = Some ''j1'', rr_repo_config = re_repo_config sample_repository,
      rr_repo_password_secret_id = ''s1'', rr_credential_secret_id = None, rr_snapshot_id = ''abc'', rr_included_paths = None,
      rr_mode = RmDownload, rr_destination = empty_destination,
      rr_options = the (cr_options (buildPayload ''j1'' ''abc'' [] restore_form_start True)), rr_status = Queued, rr_agent_id = None,
      rr_started_at = None, rr_finished_at = None, rr_stats = None, rr_download_expires_at = None, rr_log = None, rr_error = None,
      rr_initiated_by = ''u1''\<rparr>"

definition tried_server :: server where
  "tried_server = start_background (BgExecuteRestore ''x'') ((sample_server [])\<lparr>restore_runs := [tried_row]\<rparr>)"

definition plain_target :: resolved_target where
  "plain_target = \<lparr>rv_target_id = [], rv_repository = ''/repo'', rv_password = PText ''p'', rv_env = [], rv_credential_files = [],
     rv_extra_args = []\<rparr>"

definition plain_env :: restore_env where
  "plain_env = \<lparr>re_mkdir = Inr (), re_restore = Inr JNull, re_restore_log = [], re_archive = Inr ()\<rparr>"

definition tried_end :: server where
  "tried_end = restore_finish 2 ''/tmp'' (tried_row\<lparr>rr_status := Running, rr_started_at := Some 1\<rparr>) (Inr plain_target) plain_env
     (restore_begin 1 ''x'' tried_server)"

lemma tried_created:
  "restore_create ''x'' (sample_user True) (buildPayload ''j1'' ''abc'' [] restore_form_start True) (sample_server []) = (Inr tried_row, tried_server)"
proof -
  have "job_getRow (sample_server []) ''j1'' = Inr (sample_job, sample_repository)"
    by (simp add: job_getRow_def backup_job_by_id_def repository_by_id_def select_first_def sample_job_def sample_repository_def)
  then show ?thesis
    by (simp add: restore_create_def buildPayload_def restore_form_start_def acl_assert_def can_def apiKeyAllows_def sample_user_def
        or_default_def insert_row_def restore_dispatch_def restore_run_by_id_def select_first_def tried_server_def tried_row_def
        empty_destination_def or_empty_def Let_def) (simp add: sample_job_def sample_repository_def)
qed

lemma tried_ended: "\<exists>r. restore_run_by_id ''x'' tried_end = Some r \<and> canDownload 9 r"
  by (simp add: tried_end_def tried_server_def start_background_def restore_begin_def restore_finish_def restore_body_def restore_target_def
      plain_env_def restore_run_by_id_def select_first_def update_where_def tried_row_def buildPayload_def restore_form_start_def canDownload_def
      Let_def)

theorem dialog_restore_witness:
  "getDownload 9 (\<lambda>_. True) (sample_user True) ''x'' tried_end = Inl (NotFound ''No download available'')"
proof -
  obtain r where r: "restore_run_by_id ''x'' tried_end = Some r" "canDownload 9 r" using tried_ended by blast
  have "restore_run_by_id ''x'' (sample_server []) = None" by (simp add: restore_run_by_id_def select_first_def)
  from dialog_restore [OF tried_created this _ _ tried_end_def r(1), of 9 "\<lambda>_. True"] r(2) show ?thesis
    by (simp add: sample_user_def Let_def)
qed

end
