(* ===== verification/Spec2Isabelle.thy ===== *)
theory Spec2Isabelle
  imports RunLifecycle Sso Reports TargetHealth EmailHtml Configuration Migrations JobRoutes Snapshots Controllers
    Delivery StorageChart ClientCore JobEditor ResourceRoutes IntegrityView DashboardFeed SnapshotsPage
begin

text \<open>
  A verification library for Amber Backup, a server that schedules restic backups, runs them
  itself or hands them to agents on other hosts, and keeps connections, repositories,
  credentials, accounts, schedules and histories in a database. Modelled is the server's own
  logic, the TypeScript code under \<open>src/server/src\<close>, and the logic of the web client that decides
  something, under \<open>src/client/src\<close>.

  \<^bold>\<open>Modelling.\<close> The database and the process-local state are one record \<open>server\<close>
  (theory \<open>Database\<close>): a list of rows per table, the four \<open>running\<close> maps of the runners with
  their abort signals, the instance variables of the settings, allowlist and login services, the
  calls started without \<open>await\<close> (\<open>background\<close>) and the messages handed to notification channels
  (\<open>outbox\<close>). A Kysely query is a table function of \<open>Prelude\<close> (\<open>select_first\<close>, \<open>select_where\<close>,
  \<open>update_where\<close>, \<open>count_where\<close>, \<open>delete_where\<close>, \<open>insert_row\<close>); one SQL statement is one atomic
  step. A request handler is a function \<open>server \<Rightarrow> 'a result \<times> server\<close>; thrown exceptions are
  the values of \<open>error\<close>, and the state next to an error is what the code had written before it
  threw. Time is an \<open>int\<close> of milliseconds; the current time, new ids, nonces and keys are
  arguments. Columns that only record when a row was written and that nothing reads back are left
  out.

  \<^bold>\<open>Parameters.\<close> What is not under \<open>src\<close> is an argument, with what the code relies on as
  named hypotheses: AES-GCM and SHA-256 (\<open>crypto\<close>; \<open>gcm_correct\<close>, \<open>gcm_authentic\<close>, satisfied by
  \<open>sample_crypto\<close>), the JWT library (\<open>jwt_correct\<close>), argon2 and one-time passwords
  (\<open>login_env\<close>), the WebAuthn verification, the answers of identity providers and the signature
  check of id tokens (\<open>Sso\<close>), name resolution and the network (\<open>NetAddr\<close>, \<open>TargetHealth\<close>), the
  validity of a cron expression, and what restic, scripts and \<open>tar\<close> answer (\<open>exec_env\<close>,
  \<open>restore_env\<close>, the child process of \<open>Restic\<close>).

  \<^bold>\<open>Theories of the backup engine.\<close>
  \<^item> \<open>Prelude\<close>: results, JavaScript strings, table functions; the interfaces \<open>row_format\<close>
    (tables with a primary key) and \<open>claim_once\<close> (a conditional update that hands out an item
    at most once, whatever happens in between).
  \<^item> \<open>Database\<close>: enums and tables of \<open>database/database.types.ts\<close>, the server record, sample rows.
  \<^item> \<open>Secrets\<close>: \<open>crypto/crypto.service.ts\<close>, \<open>crypto/secrets.service.ts\<close>; round trip, binding to the row.
  \<^item> \<open>Backends\<close>: \<open>targets/backend-registry.ts\<close>; safety of the ssh command, splitting of forms,
    credential placeholders.
  \<^item> \<open>Slug\<close>: \<open>common/slug.ts\<close>, \<open>common/slug-resolver.service.ts\<close>; normal form, uniqueness, resolution.
  \<^item> \<open>Targets\<close>: \<open>targets/targets.service.ts\<close>; a created connection resolves, stored SFTP values
    stay safe, a connection in use is kept. \<open>TargetHealth\<close>: \<open>targets/target-health.service.ts\<close>;
    probes contact guarded hosts only, a sweep stores exactly what it found.
  \<^item> \<open>Channels\<close>, \<open>Notifications\<close>: \<open>notifications/channel-registry.ts\<close> and
    \<open>notifications/notifications.service.ts\<close>; escaping, recipients, removal of a channel. \<open>EmailHtml\<close>:
    the body of e-mails, which shows the texts of a message and never lets them become markup.
  \<^item> \<open>RunRetry\<close>: \<open>jobs/run-retry.service.ts\<close>; when a retry is queued, retry or notification, the
    bound on retries (fuel \<open>n\<close> larger than the retries left is enough).
  \<^item> \<open>Repositories\<close>: \<open>repositories/repositories.service.ts\<close>; figures, history, requests to agents.
  \<^item> \<open>Jobs\<close>: \<open>jobs/jobs.service.ts\<close>; host boundary, pairing of jobs and repositories, removal.
  \<^item> \<open>PruneRunner\<close>, \<open>CheckRunner\<close>, \<open>JobRunner\<close>: the services of the same names and
    \<open>jobs/scheduler.service.ts\<close>; bounded logs, outcomes, idle checks, late results, rotation,
    queue timeout, due retries, cron registrations.
  \<^item> \<open>Restic\<close>: \<open>restic/restic.service.ts\<close>; argument vectors, child environment, credential files,
    framing of lines, scrubbing of addresses.
  \<^item> \<open>Agents\<close>: \<open>agents/agents.service.ts\<close>; enrollment, rollout token, hand-out, results, liveness.
  \<^item> \<open>Runs\<close>: \<open>runs/runs.service.ts\<close>, \<open>restore/restore.service.ts\<close>, \<open>restore/restore-runner.service.ts\<close>;
    the feed, cancelling, restores.
  \<^item> \<open>Reports\<close>: \<open>reports/reports.service.ts\<close>, \<open>reports/report-scheduler.service.ts\<close>; the numbers in
    a report, the schedule of reports next to that of jobs (\<open>cron_owner\<close>, \<open>cron_owners\<close>).
  \<^item> \<open>RunLifecycle\<close>: all operations that touch \<open>job_runs\<close> as events of one transition system;
    every operation is a sequence of legal row changes, from which the invariant of reachable
    states, the at-most-once hand-out and the contents of a poll follow.
  \<^item> \<open>Migrations\<close>: the migrations under \<open>database/migrations\<close> that move data (002, 009, 010, 012);
    jobs and restores keep their repository and its password, the pairing of jobs and repositories
    is established.
  \<^item> \<open>JobRoutes\<close>: \<open>jobs/jobs.controller.ts\<close>; the schedule follows the jobs through requests, ticks and
    rebuilds. \<open>Snapshots\<close>: \<open>restore/snapshots.service.ts\<close> and its controller; who deletes snapshots,
    the order of listings (the locale's order of names is a parameter).
  \<^item> \<open>Configuration\<close>: \<open>config/configuration.ts\<close>; which environments start, what a proxy setting means.

  \<^bold>\<open>Theories of accounts and access.\<close>
  \<^item> \<open>AccessControl\<close>: \<open>common/access-control.service.ts\<close>; the access decision, what a key narrows.
  \<^item> \<open>NetAddr\<close>: \<open>common/ip-allowlist.ts\<close>, \<open>common/net-guard.ts\<close>; addresses as words, what an
    allowlist admits, which hosts are refused.
  \<^item> \<open>Settings\<close>: \<open>settings/settings.service.ts\<close>, \<open>common/admin-ip-allowlist.service.ts\<close>; some way to
    log in stays, an allowlist admits its author.
  \<^item> \<open>Users\<close>: \<open>auth/users.service.ts\<close>; the shape of accounts, the last administrator.
  \<^item> \<open>Guard\<close>: \<open>common/guards\<close>, \<open>auth/api-keys.service.ts\<close>; whom the guard admits, the life of a key.
  \<^item> \<open>AuditLog\<close>: \<open>audit\<close>; redaction, pages, what is recorded.
  \<^item> \<open>Refinement\<close>, \<open>DeviceAuth\<close>: simulation of an abstract machine, and \<open>auth/device-auth.service.ts\<close>
    as a refinement of a specification of pairings.
  \<^item> \<open>Login\<close>: \<open>auth/auth.service.ts\<close>, \<open>auth/totp.service.ts\<close> and the login routes; guesses, sessions,
    recovery codes. \<open>Base64\<close>, \<open>Passkeys\<close>: \<open>auth/passkeys.service.ts\<close>. \<open>Sso\<close>: \<open>auth/sso.service.ts\<close>; and
    the rule on administrators' addresses over all four ways to log in.
  \<^item> \<open>Controllers\<close>: the controllers of users, keys, settings, channels, agents, pairings and of one's
    own account, each route as a call with method, decorators and handler behind the guard; only
    administrators administer.
  \<^item> \<open>ResourceRoutes\<close>: the controllers of connections, repositories, runs, restores, the audit log and
    releases, and the routes of jobs, snapshots and reports behind the guard; a request leaves a lasting
    trace only with a credential made for more than reading, and changes the jobs and connections its
    account may manage.

  \<^bold>\<open>Theories of delivery and of the web client.\<close> Paths of the client are under \<open>client/src\<close>.
  \<^item> \<open>Delivery\<close>: \<open>cli/cli.service.ts\<close>, \<open>common/bundled-version.ts\<close>, \<open>updates/update-check.service.ts\<close>
    and \<open>common/middleware/http-logger.middleware.ts\<close>; a served install script differs from the bundled one
    in its two default lines only, no value of a sensitive query key is logged.
  \<^item> \<open>StorageChart\<close>: \<open>ui/storage-chart.tsx\<close> over the history the server sends; the chart shows the sum of the
    sizes stored for the repositories a user sees.
  \<^item> \<open>ClientCore\<close>: \<open>core/search.ts\<close>, \<open>core/format.ts\<close> (versions), \<open>core/api.ts\<close> (requests),
    \<open>core/device-login.ts\<close>, \<open>hooks/useAsync.ts\<close>, \<open>hooks/useUpdateCheck.ts\<close>, \<open>i18n/index.tsx\<close> and the rules
    pages mirror from the server; only the latest load writes, the upgrade hint links to release pages.
  \<^item> \<open>JobEditor\<close>: the editor in \<open>pages/jobs.tsx\<close>, composed with \<open>jobs.service.ts\<close>; what saving does.
  \<^item> \<open>IntegrityView\<close>: \<open>ui/integrity.tsx\<close> over \<open>check-runner.service.ts\<close>; the badge, the progress of a rotation
    and the announced part agree with the checks made, in any order and with any outcome.
  \<^item> \<open>DashboardFeed\<close>: the activity list of \<open>pages/dashboard.tsx\<close> over \<open>runs.service.ts\<close>, with requests answered
    later than they are sent; nothing is listed twice, a list loaded to its end is complete.
  \<^item> \<open>SnapshotsPage\<close>: \<open>pages/snapshots.tsx\<close>; a restore from the dialog through \<open>restore.service.ts\<close> and
    \<open>restore-runner.service.ts\<close> to the download link in the history.

  \<^bold>\<open>This theory.\<close> Cancelling across server and agent, and executions in which two operations
  overlap in ways the comments of the sources rule out.

  \<^bold>\<open>Interleaving.\<close> Long operations are split where they await something slow:
  \<open>local_begin\<close> and \<open>local_finish\<close> around restic, \<open>enroll_check\<close> and \<open>enroll_commit\<close>,
  \<open>update_check\<close> and \<open>update_commit\<close>, \<open>report_unregister\<close> and \<open>report_enter\<close>, \<open>run_cancel\<close> and its
  last statement \<open>force_cancel\<close>. An execution is any sequence of such steps.

  \<^bold>\<open>Not modelled.\<close> The rendering of the client, its texts and its formatting of dates and sizes, which compute
  in floating point or in the browser's locale; the client's sign-in page and its editors of accounts, channels,
  reports and settings, which hand their fields to the modelled routes; DTO validation, rate limits, migrations
  that only change columns, the installer script of agents, the computation of the next date of a cron expression. Orderings by name (the collation of the
  database) are left out of listings.
\<close>

section \<open>Cancelling across the server and the agent\<close>

lemma uuid_not_stats: "isUuid i \<Longrightarrow> \<not> starts_with STATS_TASK_PREFIX i"
proof
  assume u: "isUuid i" and "starts_with STATS_TASK_PREFIX i"
  then obtain r where "i = ''stats-'' @ r"
    by (metis append_take_drop_id starts_with_def STATS_TASK_PREFIX_def)
  with u show False by (simp add: isUuid_def)
qed

lemma recordAgentResult_cancelled:
  assumes "table_ok (job_runs s)" "job_run_by_id i s = Some r" "jr_status r = Cancelled"
  shows "\<exists>r'. job_run_by_id i (recordAgentResult now ag i oc s) = Some r' \<and> jr_status r' = Cancelled \<and>
    jr_snapshot_id r' = jr_snapshot_id r"
proof -
  have id: "jr_id r = i" using assms(2) by (auto simp: job_run_by_id_key dest: jrow.by_key_in)
  have "q = r" if "q \<in> set (job_runs s)" "jr_id q = i" for q
    using jrow.by_key_unique [of "job_runs s" q] that assms(1,2)
    by (simp add: job_run_by_id_key table_ok_def jrow.keys_def)
  then have "check_settle now i info repo oc s = s" for info repo
    using assms(3) by (intro check_settle_not_running) auto
  moreover have "job_run_by_id i (s\<lparr>job_runs := update_where
      (\<lambda>q. jr_id q = i \<and> (jr_status q = Running \<or> jr_status q = Cancelled))
      (\<lambda>q. q\<lparr>jr_status := Cancelled, jr_finished_at := Some (or_default now (jr_finished_at q)),
             jr_error := Some CANCELLED_ON_AGENT_MESSAGE, jr_log := co_log oc\<rparr>) (job_runs s)\<rparr>) =
      Some (r\<lparr>jr_status := Cancelled, jr_finished_at := Some (or_default now (jr_finished_at r)),
             jr_error := Some CANCELLED_ON_AGENT_MESSAGE, jr_log := co_log oc\<rparr>)"
    using assms id by (simp add: job_run_by_id_key jrow.by_key_update)
  ultimately show ?thesis using assms by (auto simp: recordAgentResult_def split: option.splits)
qed

lemma submitResult_cancelled:
  assumes "table_ok (job_runs s)" "job_run_by_id i s = Some r" "jr_status r = Cancelled" "jr_agent_id r = Some ag"
    "isUuid i" "pid \<noteq> i"
  shows "\<exists>r'. job_run_by_id i (snd (submitResult now pid ag i dto s)) = Some r' \<and> jr_status r' = Cancelled \<and>
    jr_snapshot_id r' = jr_snapshot_id r"
proof -
  let ?s0 = "touchAgent now ag s"
  have s0: "table_ok (job_runs ?s0)" "job_run_by_id i ?s0 = Some r"
    using assms(1,2) by (simp_all add: touchAgent_def job_run_by_id_def)
  have sel: "\<exists>q. select_first (\<lambda>r. jr_id r = i \<and> jr_agent_id r = Some ag) (job_runs ?s0) = Some q"
    using s0(2) assms(4) select_first_None [of "\<lambda>r. jr_id r = i \<and> jr_agent_id r = Some ag" "job_runs ?s0"]
    by (auto simp: job_run_by_id_key dest: jrow.by_key_in)
  then obtain q where q: "select_first (\<lambda>r. jr_id r = i \<and> jr_agent_id r = Some ag) (job_runs ?s0) = Some q" ..
  show ?thesis
    using recordAgentResult_cancelled [OF s0 assms(3)] submitBackupResult_cancelled [OF s0(2) assms(3,6), of now ag dto]
      uuid_not_stats [OF assms(5)] q assms(3)
    by (auto simp: submitResult_def cancelledOnAgent_def Let_def)
qed

text \<open>
  C5: A cancel reaches the agent and sticks: in a well-formed run table (as every reachable
  one is), when a run that an agent is working on is
  cancelled by someone entitled to, the request succeeds, the agent's next question about the
  task is answered with cancelled, and whatever result the agent still posts, the run stays
  cancelled and gains no snapshot.
\<close>

theorem cancel_reaches_agent:
  assumes "table_ok (job_runs s)" "job_run_by_id i s = Some r" "jr_status r = Running" "jr_agent_id r = Some ag" "isUuid i"
    "can s u RtJob (jr_job_id r) AlView" "can s u RtJob (jr_job_id r) AlOperate"
    "\<not> registered i (job_running s)" "\<not> registered i (prune_running s)" "\<not> registered i (check_running s)" "pid \<noteq> i"
    "run_cancel now u i s = (res, s')"
  shows "res = Inr () \<and> fst (taskState later ag i s') = Inr True \<and>
    (\<exists>r'. job_run_by_id i (snd (submitResult later pid ag i dto s')) = Some r' \<and> jr_status r' = Cancelled \<and>
       jr_snapshot_id r' = jr_snapshot_id r)"
proof -
  have id: "jr_id r = i" using assms(2) by (auto simp: job_run_by_id_key dest: jrow.by_key_in)
  have "abort_process i s = (False, s)"
    using assms(8-10) by (simp add: abort_process_def runner_cancel_def prune_cancel_def check_cancel_def)
  then have c: "res = Inr ()" "s' = force_cancel now r s"
    using assms(2,3,6,7,12) by (auto simp: run_cancel_def run_get_def acl_assert_def active_status_def)
  then obtain r1 where r1: "job_run_by_id i s' = Some r1" "jr_status r1 = Cancelled" "jr_agent_id r1 = Some ag"
    "jr_snapshot_id r1 = jr_snapshot_id r"
    using assms(2,4) id by (simp add: force_cancel_def job_run_by_id_key jrow.by_key_update)
  have "table_ok (job_runs s')"
    using force_cancel_change run_change_ok assms(1) c(2) by blast
  from submitResult_cancelled [OF this r1(1-3) assms(5,11)] r1 c(1) assms(5) show ?thesis
    by (auto simp: taskState_def touchAgent_def job_run_by_id_def Let_def)
qed

definition sample_uuid :: uuid where
  "sample_uuid = ''0123abcd-0000-4000-8000-0123456789ab''"

definition agent_run :: job_run where
  "agent_run = (sample_run sample_uuid KBackup Running)\<lparr>jr_agent_id := Some ''a1''\<rparr>"

theorem cancel_reaches_agent_witness:
  "\<exists>s'. run_cancel 9 (sample_user True) sample_uuid (sample_server [agent_run]) = (Inr (), s') \<and>
     fst (taskState 10 ''a1'' sample_uuid s') = Inr True"
proof -
  obtain res s' where c: "run_cancel 9 (sample_user True) sample_uuid (sample_server [agent_run]) = (res, s')" by fastforce
  have ok: "table_ok (job_runs (sample_server [agent_run]))"
    by (simp add: table_ok_def agent_run_def row_ok_def retry_link_def terminal_status_def sample_run_def)
  have r: "job_run_by_id sample_uuid (sample_server [agent_run]) = Some agent_run"
    by (simp add: job_run_by_id_def select_first_def agent_run_def)
  have u: "isUuid sample_uuid" by (simp add: sample_uuid_def isUuid_def is_hex_ci_def is_digit_def)
  have a: "can (sample_server [agent_run]) (sample_user True) ty i l" for ty i l
    by (simp add: can_def apiKeyAllows_def sample_user_def)
  have p: "''x'' \<noteq> sample_uuid" by (simp add: sample_uuid_def)
  from cancel_reaches_agent [OF ok r _ _ u a a _ _ _ p c, of "''a1''" 10] c show ?thesis
    by (simp add: agent_run_def registered_def)
qed

section \<open>Overlapping operations\<close>

text \<open>
  Executions the comments of the sources exclude: the last statement of a cancel replaces a
  result stored after the row was read; beginning a local run starts one that was cancelled
  while it waited; a repeated result of an agent is handed on to be retried or notified about
  again although the row is left alone; a run whose repository cannot be resolved stays
  running although its task was never handed out.
\<close>

theorem cancel_overwrites_result:
  "\<exists>r. job_run_by_id ''r1'' (force_cancel 9 (sample_run ''r1'' KBackup Running)
        (sample_server [sample_run ''r1'' KBackup Success])) = Some r \<and> jr_status r = Cancelled"
  by (simp add: force_cancel_def job_run_by_id_def select_first_def update_where_def)

theorem begin_revives_cancelled:
  "\<exists>r. job_run_by_id ''r1'' (local_begin 9 ''r1'' (sample_server [sample_run ''r1'' KBackup Cancelled])) = Some r \<and>
     jr_status r = Running"
  by (simp add: local_begin_def loadRunContext_def run_with_job_def job_run_by_id_def select_first_def update_where_def)

definition failed_result :: task_result where
  "failed_result = \<lparr>td_status = Failed, td_snapshot_id = None, td_stats = None, td_forget_result = None,
     td_error = Some ''x'', td_log = None, td_damaged = None, td_repo_stats = None, td_repo_stats_error = None,
     td_prune = None\<rparr>"

theorem repeated_result_finalized_again:
  "let s = sample_server [(sample_run ''r1'' KBackup Failed)\<lparr>jr_agent_id := Some ''a1''\<rparr>];
       s' = snd (submitBackupResult 9 ''x'' ''a1'' ''r1'' failed_result s)
   in job_runs s' = job_runs s \<and> BgFinalize ''r1'' \<in> set (background s')"
  by (simp add: submitBackupResult_def run_with_job_def job_run_by_id_def select_first_def failed_result_def
      update_where_def record_prune_def start_background_def Let_def)

theorem unresolved_run_stays_claimed:
  "let s = (sample_server [sample_run ''r1'' KBackup Queued])\<lparr>backup_jobs := [sample_job\<lparr>bj_agent_id := Some ''a1''\<rparr>]\<rparr>;
       (res, s') = claimBackupTasks sample_crypto 5 ''a1'' s
   in is_error res \<and> held ''a1'' ''r1'' s'"
  by (simp add: claimBackupTasks_def joined_runs_def select_where_def claimable_backup_def map_filter_simps
      backup_job_by_id_def repository_by_id_def select_first_def claim_run_def count_where_def queued_row_def
      resolveForJob_def resolveRepo_def reveal_def secret_by_id_def is_error_def held_def job_run_by_id_def
      update_where_def Let_def)

end
